(* ===== verification/Prelude.thy ===== *)
theory Prelude
  imports
    Main
    "HOL-Library.Sublist"
    "HOL-Library.Char_ord"
    "HOL-Library.List_Lexorder"
begin

text \<open>
  Shared material of the development: the collections of rewrite rules the component proofs use,
  the model of Rust's \<open>String\<close> and of the string methods the sources call, decimal printing and
  parsing, and key-sorted association lists (the iteration order of a \<open>BTreeMap\<close>).

  A Rust \<open>String\<close> is its sequence of UTF-8 bytes, a \<open>string\<close> of HOL whose characters are bytes.
  \<open>len\<close> is therefore \<open>length\<close>, slicing is \<open>take\<close>/\<open>drop\<close>, and a method that treats ASCII
  characters one by one and copies every other character acts bytewise, because no byte of a
  multi-byte UTF-8 sequence is below 128. \<open>trim\<close> removes Unicode white space; its non-ASCII members
  are matched by their UTF-8 encodings. Methods driven by the full Unicode tables
  (\<open>to_lowercase\<close>, \<open>char::is_alphanumeric\<close>) are parameters of the definitions that call them.
\<close>

named_theorems gate_simps \<open>unfolding rules of the guards in front of state-changing calls\<close>
named_theorems state_simps \<open>effect of the operations on each field of a component's state\<close>
named_theorems str_simps \<open>lengths and contents of the string helpers\<close>

section \<open>Results\<close>

text \<open>\<open>Result<T, E>\<close> is a sum with the error on the left; \<open>?\<close> is \<open>bind_result\<close>.\<close>

type_synonym ('e, 'a) result = "'e + 'a"

definition bind_result :: "('e, 'a) result \<Rightarrow> ('a \<Rightarrow> ('e, 'b) result) \<Rightarrow> ('e, 'b) result" where
  "bind_result r f = (case r of Inl e \<Rightarrow> Inl e | Inr x \<Rightarrow> f x)"

definition is_ok :: "('e, 'a) result \<Rightarrow> bool" where
  "is_ok r \<longleftrightarrow> (case r of Inl _ \<Rightarrow> False | Inr _ \<Rightarrow> True)"

lemma bind_result_simps [simp]:
  "bind_result (Inl e) f = Inl e" "bind_result (Inr x) f = f x"
  by (simp_all add: bind_result_def)

lemma is_ok_simps [simp]: "is_ok (Inr x)" "\<not> is_ok (Inl e)"
  by (simp_all add: is_ok_def)

lemma bind_result_eq_Inr [simp]:
  "bind_result r f = Inr y \<longleftrightarrow> (\<exists>x. r = Inr x \<and> f x = Inr y)"
  by (cases r) simp_all

section \<open>ASCII characters\<close>

abbreviation code :: "char \<Rightarrow> nat" where
  "code c \<equiv> of_char c"

definition is_ascii_digit :: "char \<Rightarrow> bool" where
  "is_ascii_digit c \<longleftrightarrow> 48 \<le> code c \<and> code c \<le> 57"

definition is_ascii_upper :: "char \<Rightarrow> bool" where
  "is_ascii_upper c \<longleftrightarrow> 65 \<le> code c \<and> code c \<le> 90"

definition is_ascii_lower :: "char \<Rightarrow> bool" where
  "is_ascii_lower c \<longleftrightarrow> 97 \<le> code c \<and> code c \<le> 122"

definition is_ascii_alphanumeric :: "char \<Rightarrow> bool" where
  "is_ascii_alphanumeric c \<longleftrightarrow> is_ascii_digit c \<or> is_ascii_upper c \<or> is_ascii_lower c"

definition to_ascii_uppercase :: "char \<Rightarrow> char" where
  "to_ascii_uppercase c = (if is_ascii_lower c then char_of (code c - 32) else c)"

definition to_ascii_lowercase :: "char \<Rightarrow> char" where
  "to_ascii_lowercase c = (if is_ascii_upper c then char_of (code c + 32) else c)"

definition ascii_lowercase :: "string \<Rightarrow> string" where
  "ascii_lowercase s = map to_ascii_lowercase s"

definition eq_ignore_ascii_case :: "string \<Rightarrow> string \<Rightarrow> bool" where
  "eq_ignore_ascii_case s t \<longleftrightarrow> ascii_lowercase s = ascii_lowercase t"

lemma code_less_256: "code c < 256"
  by (metis of_char_of mod_less_divisor zero_less_numeral char_of_char)

lemma code_to_ascii_uppercase [str_simps]:
  "code (to_ascii_uppercase c) = (if is_ascii_lower c then code c - 32 else code c)"
  by (auto simp: to_ascii_uppercase_def is_ascii_lower_def)

lemma code_to_ascii_lowercase [str_simps]:
  "code (to_ascii_lowercase c) = (if is_ascii_upper c then code c + 32 else code c)"
  by (simp add: to_ascii_lowercase_def is_ascii_upper_def)

lemma eq_ignore_ascii_case_refl [simp]: "eq_ignore_ascii_case s s"
  by (simp add: eq_ignore_ascii_case_def)

lemma eq_ignore_ascii_case_sym: "eq_ignore_ascii_case s t \<longleftrightarrow> eq_ignore_ascii_case t s"
  by (auto simp: eq_ignore_ascii_case_def)

lemma eq_ignore_ascii_case_trans:
  "eq_ignore_ascii_case s t \<Longrightarrow> eq_ignore_ascii_case t u \<Longrightarrow> eq_ignore_ascii_case s u"
  by (simp add: eq_ignore_ascii_case_def)

text \<open>
  A Rust \<open>char\<close> is the string of its UTF-8 bytes; \<open>first_char\<close> is \<open>s.chars().next()\<close>, whose
  width is read off the leading byte.
\<close>

definition utf8_width :: "char \<Rightarrow> nat" where
  "utf8_width c =
     (if code c < 0x80 then 1 else if code c < 0xE0 then 2 else if code c < 0xF0 then 3 else 4)"

definition first_char :: "string \<Rightarrow> string option" where
  "first_char s = (case s of [] \<Rightarrow> None | c # _ \<Rightarrow> Some (take (utf8_width c) s))"

lemma utf8_width_pos [simp]: "0 < utf8_width c"
  by (simp add: utf8_width_def)

text \<open>\<open>s.chars()\<close>: the characters one by one.\<close>

function utf8_chars :: "string \<Rightarrow> string list" where
  "utf8_chars s = (case s of [] \<Rightarrow> [] | c # _ \<Rightarrow> take (utf8_width c) s # utf8_chars (drop (utf8_width c) s))"
  by pat_completeness auto
termination
  by (relation "measure length") (auto simp: utf8_width_def)

declare utf8_chars.simps [simp del]

lemma utf8_chars_Nil [simp]: "utf8_chars [] = []"
  by (simp add: utf8_chars.simps)

lemma utf8_chars_ascii [simp]: "code c < 128 \<Longrightarrow> utf8_chars (c # s) = [c] # utf8_chars s"
  by (subst utf8_chars.simps) (simp add: utf8_width_def)

lemma concat_utf8_chars [simp]: "concat (utf8_chars s) = s"
proof (induction s rule: utf8_chars.induct)
  case (1 s)
  then show ?case by (subst utf8_chars.simps) (auto split: list.split)
qed

lemma utf8_chars_not_Nil: "x \<in> set (utf8_chars s) \<Longrightarrow> x \<noteq> []"
proof (induction s rule: utf8_chars.induct)
  case (1 s)
  show ?case
  proof (cases s)
    case (Cons c r)
    have "utf8_chars s = take (utf8_width c) s # utf8_chars (drop (utf8_width c) s)"
      by (subst utf8_chars.simps) (simp add: Cons)
    moreover have "take (utf8_width c) s \<noteq> []"
      using utf8_width_pos [of c] by (simp add: Cons)
    ultimately show ?thesis using 1 Cons by auto
  qed (use 1(2) in simp)
qed

text \<open>The UTF-8 bytes of the non-ASCII characters that occur in string literals.\<close>

definition em_dash :: string where "em_dash = [CHR 0xE2, CHR 0x80, CHR 0x94]"

definition ellipsis :: string where "ellipsis = [CHR 0xE2, CHR 0x80, CHR 0xA6]"

section \<open>Prefixes, searching, splitting\<close>

text \<open>\<open>starts_with\<close> is the library's \<open>prefix\<close>, \<open>ends_with\<close> its \<open>suffix\<close>.\<close>

abbreviation starts_with :: "'a list \<Rightarrow> 'a list \<Rightarrow> bool" where
  "starts_with s p \<equiv> prefix p s"

abbreviation ends_with :: "'a list \<Rightarrow> 'a list \<Rightarrow> bool" where
  "ends_with s p \<equiv> suffix p s"

definition strip_prefix :: "'a list \<Rightarrow> 'a list \<Rightarrow> 'a list option" where
  "strip_prefix p s = (if starts_with s p then Some (drop (length p) s) else None)"

definition strip_suffix :: "'a list \<Rightarrow> 'a list \<Rightarrow> 'a list option" where
  "strip_suffix p s = (if ends_with s p then Some (take (length s - length p) s) else None)"

lemma strip_prefix_Some: "strip_prefix p s = Some r \<longleftrightarrow> s = p @ r"
  by (auto simp: strip_prefix_def prefix_def)

lemma strip_suffix_Some: "strip_suffix p s = Some r \<longleftrightarrow> s = r @ p"
  by (auto simp: strip_suffix_def suffix_def)

text \<open>\<open>str::find\<close> with a string pattern: the byte offset of the first occurrence.\<close>

fun find_sub :: "'a list \<Rightarrow> 'a list \<Rightarrow> nat option" where
  "find_sub p [] = (if p = [] then Some 0 else None)"
| "find_sub p (x # xs) =
     (if starts_with (x # xs) p then Some 0 else map_option Suc (find_sub p xs))"

definition contains_sub :: "'a list \<Rightarrow> 'a list \<Rightarrow> bool" where
  "contains_sub s p \<longleftrightarrow> find_sub p s \<noteq> None"

lemma find_sub_SomeD: "find_sub p s = Some i \<Longrightarrow> i + length p \<le> length s \<and> take (length p) (drop i s) = p"
proof (induction p s arbitrary: i rule: find_sub.induct)
  case (2 p x xs)
  show ?case
  proof (cases "starts_with (x # xs) p")
    case True
    with "2.prems" prefix_length_le [OF True] show ?thesis by (auto simp: prefix_def)
  next
    case False
    with "2.prems" obtain j where "find_sub p xs = Some j" "i = Suc j" by auto
    with "2.IH" [OF False, of j] show ?thesis by auto
  qed
qed (auto split: if_splits)

lemma contains_sub_iff: "contains_sub s p \<longleftrightarrow> (\<exists>a b. s = a @ p @ b)"
proof
  assume "contains_sub s p"
  then obtain i where i: "find_sub p s = Some i" by (auto simp: contains_sub_def)
  have "s = take i s @ take (length p) (drop i s) @ drop (length p) (drop i s)"
    by (metis append_take_drop_id)
  with find_sub_SomeD [OF i] show "\<exists>a b. s = a @ p @ b" by metis
next
  have "find_sub p (a @ p @ b) \<noteq> None" for a b
    by (induction a) (cases p; cases b; simp)+
  then show "\<exists>a b. s = a @ p @ b \<Longrightarrow> contains_sub s p"
    by (auto simp: contains_sub_def)
qed

text \<open>\<open>str::split(c)\<close>: always at least one piece.\<close>

fun split_on :: "char \<Rightarrow> string \<Rightarrow> string list" where
  "split_on c [] = [[]]"
| "split_on c (x # xs) =
     (if x = c then [] # split_on c xs
      else (case split_on c xs of [] \<Rightarrow> [[x]] | p # ps \<Rightarrow> (x # p) # ps))"

lemma split_on_not_Nil [simp]: "split_on c s \<noteq> []"
  by (cases s) (auto split: list.splits)

lemma split_on_no_sep: "p \<in> set (split_on c s) \<Longrightarrow> c \<notin> set p"
  by (induction s arbitrary: p) (auto split: if_splits list.splits)

text \<open>\<open>str::split_once(c)\<close>.\<close>

fun split_once :: "char \<Rightarrow> string \<Rightarrow> (string \<times> string) option" where
  "split_once c [] = None"
| "split_once c (x # xs) =
     (if x = c then Some ([], xs) else map_option (\<lambda>(a, b). (x # a, b)) (split_once c xs))"

lemma split_once_Some: "split_once c s = Some (a, b) \<Longrightarrow> s = a @ c # b \<and> c \<notin> set a"
  by (induction s arbitrary: a) (auto split: if_splits)

text \<open>\<open>str::lines\<close>: cut at line feeds, without the carriage return before one; a final line may lack one.\<close>

definition strip_cr :: "string \<Rightarrow> string" where
  "strip_cr l = (if l \<noteq> [] \<and> last l = CHR 0x0D then butlast l else l)"

definition str_lines :: "string \<Rightarrow> string list" where
  "str_lines s =
     (let ps = split_on (CHR 0x0A) s
      in map strip_cr (butlast ps) @ (if last ps = [] then [] else [last ps]))"

text \<open>\<open>str::replace\<close> of a one-character pattern.\<close>

definition replace_char :: "char \<Rightarrow> string \<Rightarrow> string \<Rightarrow> string" where
  "replace_char c r s = concat (map (\<lambda>x. if x = c then r else [x]) s)"

text \<open>\<open>str::replace\<close> of a non-empty pattern: left to right, without overlaps.\<close>

function replace_sub :: "string \<Rightarrow> string \<Rightarrow> string \<Rightarrow> string" where
  "replace_sub p r s =
     (case s of
        [] \<Rightarrow> []
      | x # xs \<Rightarrow>
          if p \<noteq> [] \<and> starts_with s p then r @ replace_sub p r (drop (length p) s)
          else x # replace_sub p r xs)"
  by pat_completeness auto
termination
  by (relation "measure (\<lambda>(p, r, s). length s)") auto

declare replace_sub.simps [simp del]

text \<open>\<open>[String]::join\<close>.\<close>

fun join :: "string \<Rightarrow> string list \<Rightarrow> string" where
  "join sep [] = []"
| "join sep [x] = x"
| "join sep (x # y # zs) = x @ sep @ join sep (y # zs)"

section \<open>Trimming\<close>

text \<open>
  \<open>ws_width s\<close> is the number of bytes of the white-space character that starts \<open>s\<close>, and 0 if there
  is none: U+0009 to U+000D and U+0020, U+0085 and U+00A0, U+1680, U+2000 to U+200A, U+2028, U+2029,
  U+202F, U+205F and U+3000, the characters of \<open>char::is_whitespace\<close>.
\<close>

definition is_ascii_ws :: "char \<Rightarrow> bool" where
  "is_ascii_ws c \<longleftrightarrow> (9 \<le> code c \<and> code c \<le> 13) \<or> code c = 32"

definition ws_pair :: "nat \<Rightarrow> nat \<Rightarrow> bool" where
  "ws_pair a b \<longleftrightarrow> a = 0xC2 \<and> (b = 0x85 \<or> b = 0xA0)"

definition ws_triple :: "nat \<Rightarrow> nat \<Rightarrow> nat \<Rightarrow> bool" where
  "ws_triple a b c \<longleftrightarrow>
     (a = 0xE1 \<and> b = 0x9A \<and> c = 0x80) \<or>
     (a = 0xE2 \<and> b = 0x80 \<and> (0x80 \<le> c \<and> c \<le> 0x8A \<or> c = 0xA8 \<or> c = 0xA9 \<or> c = 0xAF)) \<or>
     (a = 0xE2 \<and> b = 0x81 \<and> c = 0x9F) \<or>
     (a = 0xE3 \<and> b = 0x80 \<and> c = 0x80)"

fun ws_width :: "string \<Rightarrow> nat" where
  "ws_width [] = 0"
| "ws_width (a # s) =
     (if is_ascii_ws a then 1
      else (case s of
              b # t \<Rightarrow>
                if ws_pair (code a) (code b) then 2
                else (case t of c # _ \<Rightarrow> if ws_triple (code a) (code b) (code c) then 3 else 0 | [] \<Rightarrow> 0)
            | [] \<Rightarrow> 0))"

text \<open>The same test at the end of the string, on the reversed bytes.\<close>

fun ws_width_rev :: "string \<Rightarrow> nat" where
  "ws_width_rev [] = 0"
| "ws_width_rev (c # s) =
     (if is_ascii_ws c then 1
      else (case s of
              b # t \<Rightarrow>
                if ws_pair (code b) (code c) then 2
                else (case t of a # _ \<Rightarrow> if ws_triple (code a) (code b) (code c) then 3 else 0 | [] \<Rightarrow> 0)
            | [] \<Rightarrow> 0))"

lemma ws_width_Nil_pos: "0 < ws_width s \<Longrightarrow> s \<noteq> []"
  by (cases s) auto

lemma ws_width_rev_Nil_pos: "0 < ws_width_rev s \<Longrightarrow> s \<noteq> []"
  by (cases s) auto

function trim_start :: "string \<Rightarrow> string" where
  "trim_start s = (if ws_width s = 0 then s else trim_start (drop (ws_width s) s))"
  by pat_completeness auto
termination
  by (relation "measure length") (auto intro: diff_less dest: ws_width_Nil_pos)

function trim_end_rev :: "string \<Rightarrow> string" where
  "trim_end_rev s = (if ws_width_rev s = 0 then s else trim_end_rev (drop (ws_width_rev s) s))"
  by pat_completeness auto
termination
  by (relation "measure length") (auto intro: diff_less dest: ws_width_rev_Nil_pos)

declare trim_start.simps [simp del] trim_end_rev.simps [simp del]

definition trim_end :: "string \<Rightarrow> string" where
  "trim_end s = rev (trim_end_rev (rev s))"

definition trim :: "string \<Rightarrow> string" where
  "trim s = trim_end (trim_start s)"

text \<open>\<open>trim_start_matches(c)\<close>, \<open>trim_end_matches(c)\<close>, \<open>trim_matches(c)\<close> for a character.\<close>

definition trim_start_matches :: "char \<Rightarrow> string \<Rightarrow> string" where
  "trim_start_matches c s = dropWhile (\<lambda>x. x = c) s"

definition trim_end_matches :: "char \<Rightarrow> string \<Rightarrow> string" where
  "trim_end_matches c s = rev (dropWhile (\<lambda>x. x = c) (rev s))"

definition trim_matches :: "char \<Rightarrow> string \<Rightarrow> string" where
  "trim_matches c s = trim_end_matches c (trim_start_matches c s)"

text \<open>Splitting at a character undoes joining with it.\<close>

lemma join_Cons: "ts \<noteq> [] \<Longrightarrow> join sep (t # ts) = t @ sep @ join sep ts"
  by (cases ts) simp_all

lemma split_on_append: "c \<notin> set a \<Longrightarrow> split_on c (a @ c # b) = a # split_on c b"
  by (induction a) auto

lemma split_on_none: "c \<notin> set a \<Longrightarrow> split_on c a = [a]"
  by (induction a) auto

lemma split_on_join: "ls \<noteq> [] \<Longrightarrow> list_all (\<lambda>l. c \<notin> set l) ls \<Longrightarrow> split_on c (join [c] ls) = ls"
proof (induction ls)
  case (Cons l ls)
  then show ?case
    by (cases "ls = []") (simp_all add: split_on_none split_on_append join_Cons)
qed simp

lemma dropWhile_hd: "t \<noteq> [] \<Longrightarrow> \<not> P (hd t) \<Longrightarrow> dropWhile P t = t"
  by (cases t) simp_all

lemma trim_matches_id: "t \<noteq> [] \<Longrightarrow> hd t \<noteq> c \<Longrightarrow> last t \<noteq> c \<Longrightarrow> trim_matches c t = t"
proof -
  assume "t \<noteq> []" "hd t \<noteq> c" "last t \<noteq> c"
  then have "dropWhile (\<lambda>x. x = c) t = t" "dropWhile (\<lambda>x. x = c) (rev t) = rev t"
    by (simp_all add: dropWhile_hd hd_rev)
  then show ?thesis
    by (simp add: trim_matches_def trim_start_matches_def trim_end_matches_def)
qed

lemma split_once_append: "c \<notin> set a \<Longrightarrow> split_once c (a @ c # b) = Some (a, b)"
  by (induction a) auto

lemma trim_start_suffix: "suffix (trim_start s) s"
proof (induction s rule: trim_start.induct)
  case (1 s)
  then show ?case
    by (cases "ws_width s = 0")
       (auto simp: trim_start.simps [of s] intro: suffix_order.trans [OF _ suffix_drop])
qed

lemma trim_end_rev_suffix: "suffix (trim_end_rev s) s"
proof (induction s rule: trim_end_rev.induct)
  case (1 s)
  then show ?case
    by (cases "ws_width_rev s = 0")
       (auto simp: trim_end_rev.simps [of s] intro: suffix_order.trans [OF _ suffix_drop])
qed

lemma trim_end_prefix: "prefix (trim_end s) s"
  using trim_end_rev_suffix [of "rev s"] by (simp add: trim_end_def suffix_to_prefix)

lemma trim_infix: "\<exists>a b. s = a @ trim s @ b"
proof -
  obtain a where a: "s = a @ trim_start s" using trim_start_suffix [of s] by (auto simp: suffix_def)
  obtain b where b: "trim_start s = trim s @ b"
    using trim_end_prefix [of "trim_start s"] by (auto simp: trim_def prefix_def)
  from a b show ?thesis by metis
qed

lemma length_trim_le [str_simps]: "length (trim s) \<le> length s"
  using trim_infix [of s] by (metis le_add1 le_add2 le_trans length_append)

lemma trim_Nil [simp]: "trim [] = []"
  using length_trim_le [of "[]"] by simp

text \<open>\<open>str::split_whitespace\<close>.\<close>

fun take_word :: "string \<Rightarrow> string \<times> string" where
  "take_word [] = ([], [])"
| "take_word (c # cs) =
     (if 0 < ws_width (c # cs) then ([], c # cs)
      else (case take_word cs of (w, r) \<Rightarrow> (c # w, r)))"

lemma take_word_append: "take_word s = (w, r) \<Longrightarrow> s = w @ r"
proof (induction s arbitrary: w)
  case (Cons c cs)
  then show ?case by (cases "take_word cs") (auto simp del: ws_width.simps split: if_splits)
qed simp

lemma trim_start_no_ws: "ws_width (trim_start s) = 0"
proof (induction s rule: trim_start.induct)
  case (1 s)
  then show ?case by (cases "ws_width s = 0") (simp_all add: trim_start.simps [of s])
qed

lemma take_word_nonempty: "s \<noteq> [] \<Longrightarrow> ws_width s = 0 \<Longrightarrow> take_word s = (w, r) \<Longrightarrow> w \<noteq> []"
  by (cases s) (auto simp del: ws_width.simps split: prod.splits)

function split_whitespace :: "string \<Rightarrow> string list" where
  "split_whitespace s =
     (let t = trim_start s in
      if t = [] then []
      else (case take_word t of (w, r) \<Rightarrow> w # split_whitespace r))"
  by pat_completeness auto
termination
proof (relation "measure length", simp)
  fix s t w r
  assume t: "t = trim_start s" "t \<noteq> []" "(w, r) = take_word t"
  then have "t = w @ r" "w \<noteq> []"
    using take_word_append [of t w r] take_word_nonempty [of t w r] trim_start_no_ws [of s] by auto
  moreover have "length t \<le> length s"
    using trim_start_suffix [of s] t(1) by (simp add: suffix_length_le)
  ultimately show "(r, s) \<in> measure length" by (cases w) auto
qed

declare split_whitespace.simps [simp del]

text \<open>\<open>str::matches(p).count()\<close> for a non-empty pattern: non-overlapping occurrences.\<close>

function count_matches :: "string \<Rightarrow> string \<Rightarrow> nat" where
  "count_matches p s =
     (case s of
        [] \<Rightarrow> 0
      | x # xs \<Rightarrow>
          if p \<noteq> [] \<and> starts_with s p then Suc (count_matches p (drop (length p) s))
          else count_matches p xs)"
  by pat_completeness auto
termination
  by (relation "measure (\<lambda>(p, s). length s)") auto

declare count_matches.simps [simp del]

section \<open>Slicing\<close>

text \<open>
  \<open>&s[..i]\<close> and \<open>&s[i..]\<close> panic (here \<open>None\<close>) unless \<open>i\<close> is the start of a character or the end.
\<close>

definition is_char_boundary :: "string \<Rightarrow> nat \<Rightarrow> bool" where
  "is_char_boundary s i \<longleftrightarrow>
     i = 0 \<or> i = length s \<or> (i < length s \<and> \<not> (0x80 \<le> code (s ! i) \<and> code (s ! i) < 0xC0))"

definition slice_to :: "string \<Rightarrow> nat \<Rightarrow> string option" where
  "slice_to s i = (if is_char_boundary s i then Some (take i s) else None)"

definition slice_from :: "string \<Rightarrow> nat \<Rightarrow> string option" where
  "slice_from s i = (if is_char_boundary s i then Some (drop i s) else None)"

text \<open>The loops that move a cut left to a character boundary.\<close>

fun boundary_at_or_below :: "string \<Rightarrow> nat \<Rightarrow> nat" where
  "boundary_at_or_below s 0 = 0"
| "boundary_at_or_below s (Suc n) = (if is_char_boundary s (Suc n) then Suc n else boundary_at_or_below s n)"

lemma boundary_ok: "is_char_boundary s (boundary_at_or_below s n)"
  by (induction n) (auto simp: is_char_boundary_def [of s 0])

definition is_ascii :: "string \<Rightarrow> bool" where
  "is_ascii s \<longleftrightarrow> list_all (\<lambda>c. code c < 0x80) s"

lemma is_ascii_boundary: "is_ascii s \<Longrightarrow> i \<le> length s \<Longrightarrow> is_char_boundary s i"
  by (auto simp: is_ascii_def is_char_boundary_def list_all_length not_le)

text \<open>
  The full-Unicode \<open>to_lowercase\<close> and \<open>to_uppercase\<close> are parameters; what is used of them is that
  they change case ASCII-wise on ASCII strings.
\<close>

definition ascii_uppercase :: "string \<Rightarrow> string" where
  "ascii_uppercase s = map to_ascii_uppercase s"

definition lowercase_law :: "(string \<Rightarrow> string) \<Rightarrow> bool" where
  "lowercase_law f \<longleftrightarrow> (\<forall>s. is_ascii s \<longrightarrow> f s = ascii_lowercase s)"

definition uppercase_law :: "(string \<Rightarrow> string) \<Rightarrow> bool" where
  "uppercase_law f \<longleftrightarrow> (\<forall>s. is_ascii s \<longrightarrow> f s = ascii_uppercase s)"

lemma lowercase_law_ascii: "lowercase_law ascii_lowercase"
  by (simp add: lowercase_law_def)

lemma uppercase_law_ascii: "uppercase_law ascii_uppercase"
  by (simp add: uppercase_law_def)

lemma is_ascii_append [simp]: "is_ascii (s @ t) \<longleftrightarrow> is_ascii s \<and> is_ascii t"
  by (simp add: is_ascii_def)

lemma length_ascii_uppercase [simp]: "length (ascii_uppercase s) = length s"
  by (simp add: ascii_uppercase_def)

lemma ascii_lowercase_append [simp]: "ascii_lowercase (s @ t) = ascii_lowercase s @ ascii_lowercase t"
  by (simp add: ascii_lowercase_def)

text \<open>A string between single quotes, as the error messages print it.\<close>

definition sq :: "string \<Rightarrow> string" where
  "sq s = [CHR 0x27] @ s @ [CHR 0x27]"

section \<open>Decimal numbers\<close>

definition digit_char :: "nat \<Rightarrow> char" where
  "digit_char d = char_of (48 + d)"

fun show_nat :: "nat \<Rightarrow> string" where
  "show_nat n = (if n < 10 then [digit_char n] else show_nat (n div 10) @ [digit_char (n mod 10)])"

declare show_nat.simps [simp del]

definition show_int :: "int \<Rightarrow> string" where
  "show_int i = (if i < 0 then CHR ''-'' # show_nat (nat (- i)) else show_nat (nat i))"

definition digit_value :: "char \<Rightarrow> nat option" where
  "digit_value c = (if is_ascii_digit c then Some (code c - 48) else None)"

fun read_digits :: "nat \<Rightarrow> string \<Rightarrow> nat option" where
  "read_digits acc [] = Some acc"
| "read_digits acc (c # cs) =
     (case digit_value c of None \<Rightarrow> None | Some d \<Rightarrow> read_digits (10 * acc + d) cs)"

text \<open>
  \<open>str::parse\<close> at an integer type with the given bounds: an optional sign, at least one digit,
  and a value inside the type. A minus sign in front of an unsigned type's digits is refused.
\<close>

definition parse_int :: "int \<Rightarrow> int \<Rightarrow> string \<Rightarrow> int option" where
  "parse_int lo hi s =
     (let (neg, ds) =
        (case s of
           [] \<Rightarrow> (False, [])
         | c # cs \<Rightarrow>
             if c = CHR ''+'' then (False, cs)
             else if c = CHR ''-'' \<and> lo < 0 then (True, cs)
             else (False, s))
      in if ds = [] then None
         else (case read_digits 0 ds of
                 None \<Rightarrow> None
               | Some n \<Rightarrow>
                   let v = (if neg then - int n else int n)
                   in if lo \<le> v \<and> v \<le> hi then Some v else None))"

definition parse_i32 :: "string \<Rightarrow> int option" where
  "parse_i32 = parse_int (- (2 ^ 31)) (2 ^ 31 - 1)"

definition parse_u32 :: "string \<Rightarrow> int option" where
  "parse_u32 = parse_int 0 (2 ^ 32 - 1)"

lemma parse_int_bounds: "parse_int lo hi s = Some v \<Longrightarrow> lo \<le> v \<and> v \<le> hi"
  by (auto simp: parse_int_def Let_def split: list.splits if_splits option.splits prod.splits)

lemma code_digit_char [simp]: "d < 10 \<Longrightarrow> code (digit_char d) = 48 + d"
  by (simp add: digit_char_def)

lemma digit_char_is_digit [simp]: "d < 10 \<Longrightarrow> is_ascii_digit (digit_char d)"
  by (simp add: is_ascii_digit_def)

lemma show_nat_digits: "c \<in> set (show_nat n) \<Longrightarrow> is_ascii_digit c"
proof (induction n arbitrary: c rule: show_nat.induct)
  case (1 n)
  then show ?case by (cases "n < 10") (auto simp: show_nat.simps [of n])
qed

lemma show_nat_not_Nil [simp]: "show_nat n \<noteq> []"
  by (subst show_nat.simps) simp

lemma read_digits_append:
  "read_digits acc (xs @ ys) = Option.bind (read_digits acc xs) (\<lambda>a. read_digits a ys)"
  by (induction xs arbitrary: acc) (auto split: option.splits)

lemma read_digits_show_nat [simp]: "read_digits 0 (show_nat n) = Some n"
proof (induction n rule: show_nat.induct)
  case (1 n)
  show ?case
  proof (cases "n < 10")
    case True
    then show ?thesis by (simp add: show_nat.simps [of n] digit_value_def)
  next
    case False
    with "1.IH" have "read_digits 0 (show_nat (n div 10)) = Some (n div 10)" by simp
    with False show ?thesis
      by (simp add: show_nat.simps [of n] read_digits_append digit_value_def)
  qed
qed

lemma show_nat_inj: "show_nat m = show_nat n \<Longrightarrow> m = n"
  by (metis option.inject read_digits_show_nat)

section \<open>Key-sorted association lists\<close>

text \<open>
  \<open>BTreeMap<String, V>\<close> (and \<open>serde_json::Map\<close>, which is one) iterates in ascending key order.
  It is an association list with strictly ascending keys; \<open>amap_insert\<close> replaces or inserts in
  place, \<open>amap_remove\<close> deletes.
\<close>

type_synonym ('k, 'v) amap = "('k \<times> 'v) list"

fun amap_insert :: "'k::linorder \<Rightarrow> 'v \<Rightarrow> ('k, 'v) amap \<Rightarrow> ('k, 'v) amap" where
  "amap_insert k v [] = [(k, v)]"
| "amap_insert k v ((k', v') # m) =
     (if k < k' then (k, v) # (k', v') # m
      else if k = k' then (k, v) # m
      else (k', v') # amap_insert k v m)"

definition amap_remove :: "'k \<Rightarrow> ('k, 'v) amap \<Rightarrow> ('k, 'v) amap" where
  "amap_remove k m = filter (\<lambda>(k', _). k' \<noteq> k) m"

definition amap_wf :: "('k::linorder, 'v) amap \<Rightarrow> bool" where
  "amap_wf m \<longleftrightarrow> sorted_wrt (<) (map fst m)"

definition amap_keys :: "('k, 'v) amap \<Rightarrow> 'k list" where
  "amap_keys m = map fst m"

definition amap_of :: "('k::linorder \<times> 'v) list \<Rightarrow> ('k, 'v) amap" where
  "amap_of kvs = fold (\<lambda>(k, v) m. amap_insert k v m) kvs []"

lemma amap_insert_keys: "set (map fst (amap_insert k v m)) = insert k (set (map fst m))"
proof (induction m)
  case (Cons x m)
  then show ?case by (cases x) auto
qed simp

lemma amap_wf_insert [simp]: "amap_wf m \<Longrightarrow> amap_wf (amap_insert k v m)"
proof (induction m)
  case Nil
  show ?case by (simp add: amap_wf_def)
next
  case (Cons x m)
  obtain k' v' where x: "x = (k', v')" by (cases x)
  from Cons have IH: "sorted_wrt (<) (map fst (amap_insert k v m))"
    and bnd: "\<forall>y \<in> set (map fst m). k' < y" and s: "sorted_wrt (<) (map fst m)"
    by (auto simp: amap_wf_def x)
  show ?case
    using IH bnd s amap_insert_keys [of k v m] by (auto simp: amap_wf_def x)
qed

lemma amap_wf_remove [simp]: "amap_wf m \<Longrightarrow> amap_wf (amap_remove k m)"
  by (simp add: amap_wf_def amap_remove_def sorted_wrt_map sorted_wrt_filter)

lemma amap_wf_Nil [simp]: "amap_wf []"
  by (simp add: amap_wf_def)

lemma amap_wf_Cons:
  "amap_wf ((k, v) # m) \<longleftrightarrow> (\<forall>k' \<in> fst ` set m. k < k') \<and> amap_wf m"
  by (auto simp: amap_wf_def)

lemma amap_wf_distinct: "amap_wf m \<Longrightarrow> distinct (map fst m)"
  by (auto simp: amap_wf_def strict_sorted_iff)

lemma map_of_amap_insert [simp]:
  "amap_wf m \<Longrightarrow> map_of (amap_insert k v m) = (map_of m)(k \<mapsto> v)"
proof (induction m)
  case (Cons x m)
  obtain k' v' where x: "x = (k', v')" by (cases x)
  from Cons.prems have wf: "amap_wf m" and bnd: "\<forall>y \<in> fst ` set m. k' < y"
    by (auto simp: x amap_wf_Cons)
  show ?case using Cons.IH [OF wf] by (auto simp: x fun_eq_iff)
qed simp

lemma map_of_amap_remove [simp]: "map_of (amap_remove k m) = (map_of m)(k := None)"
  by (induction m) (auto simp: amap_remove_def fun_eq_iff)

lemma length_amap_insert:
  "amap_wf m \<Longrightarrow> length (amap_insert k v m) = (if k \<in> fst ` set m then length m else Suc (length m))"
proof (induction m)
  case (Cons x m)
  obtain k' v' where x: "x = (k', v')" by (cases x)
  from Cons.prems have wf: "amap_wf m" and bnd: "\<forall>y \<in> fst ` set m. k' < y"
    by (auto simp: x amap_wf_Cons)
  show ?case using Cons.IH [OF wf] bnd by (auto simp: x)
qed simp

lemma amap_of_wf [simp]: "amap_wf (amap_of kvs)"
proof -
  have "amap_wf m \<Longrightarrow> amap_wf (fold (\<lambda>(k, v) m. amap_insert k v m) kvs m)" for m
    by (induction kvs arbitrary: m) auto
  then show ?thesis by (simp add: amap_of_def)
qed

lemma set_map_filter: "set (List.map_filter g xs) = {y. \<exists>x \<in> set xs. g x = Some y}"
  by (induction xs) (auto simp: List.map_filter_simps split: option.split)

end
