(* ===== verification/Kb_Schema.thy ===== *)
theory Kb_Schema
  imports Prelude
begin

text \<open>
  Documents and chunks of the knowledge base (\<open>sap-automate-kb/src/schema.rs\<close>). The hash of a body
  (SHA-256 in hexadecimal) is an argument of what uses it; the type of the floats of an embedding is a parameter.
\<close>

datatype domain = SapHelp | Abap | Bpmn | Leanix

fun collection :: "domain \<Rightarrow> string" where
  "collection SapHelp = ''sap_help''"
| "collection Abap = ''abap''"
| "collection Bpmn = ''bpmn''"
| "collection Leanix = ''leanix''"

record document =
  doc_id :: string
  doc_domain :: domain
  doc_uri :: string
  doc_title :: string
  doc_body :: string
  doc_breadcrumbs :: "string list"
  doc_content_hash :: string
  doc_etag :: "string option"
  doc_last_crawled :: "string option"
  doc_metadata :: "(string \<times> string) list"

definition document_new :: "(string \<Rightarrow> string) \<Rightarrow> string \<Rightarrow> domain \<Rightarrow> string \<Rightarrow> string \<Rightarrow> string \<Rightarrow> document" where
  "document_new content_hash i d uri title body =
     \<lparr> doc_id = i, doc_domain = d, doc_uri = uri, doc_title = title, doc_body = body, doc_breadcrumbs = [],
       doc_content_hash = content_hash body, doc_etag = None, doc_last_crawled = None, doc_metadata = [] \<rparr>"

record 'f chunk =
  ch_id :: string
  ch_document_id :: string
  ch_domain :: domain
  ch_ordinal :: nat
  ch_text :: string
  ch_embedding :: "'f list option"
  ch_breadcrumbs :: "string list"
  ch_title :: string
  ch_uri :: string

lemma collection_inj: "collection a = collection b \<Longrightarrow> a = b"
  by (cases a; cases b) simp_all

end
