(* ===== verification/Doc_Tree.thy ===== *)
theory Doc_Tree
  imports Kb_Schema
begin

text \<open>
  Hierarchical document trees (\<open>sap-automate-kb/src/doc_tree.rs\<close>): the heading scanners, the assembly
  of the sections into a tree, dotted paths, and navigation. The assembly of the source keeps a stack
  of raw pointers to nodes. Here a pointer is the path of indices to the node, appending to a vector
  makes the pointers to its other elements dangling (it may have moved), and following a dangling
  pointer is undefined (\<open>None\<close>).
\<close>

section \<open>Nodes\<close>

record node_info =
  ni_path :: string
  ni_depth :: nat
  ni_title :: string
  ni_summary :: string
  ni_start :: nat
  ni_end :: nat
  ni_approx_tokens :: nat

datatype doc_tree_node = Doc_Node (dn_info: node_info) (dn_children: "doc_tree_node list")

fun node_count :: "doc_tree_node \<Rightarrow> nat" where
  "node_count (Doc_Node i cs) = 1 + sum_list (map node_count cs)"

text \<open>\<open>visit\<close>: the nodes in the order it calls its argument.\<close>

fun visit :: "doc_tree_node \<Rightarrow> doc_tree_node list" where
  "visit (Doc_Node i cs) = Doc_Node i cs # concat (map visit cs)"

fun find_node :: "string \<Rightarrow> doc_tree_node \<Rightarrow> doc_tree_node option"
  and find_nodes :: "string \<Rightarrow> doc_tree_node list \<Rightarrow> doc_tree_node option" where
  "find_node path (Doc_Node i cs) = (if ni_path i = path then Some (Doc_Node i cs) else find_nodes path cs)"
| "find_nodes path [] = None"
| "find_nodes path (c # cs) = (case find_node path c of Some n \<Rightarrow> Some n | None \<Rightarrow> find_nodes path cs)"

record document_tree =
  tree_document_id :: string
  tree_root :: doc_tree_node
  tree_leaf_count :: nat
  tree_max_depth :: nat

definition flat_titles :: "document_tree \<Rightarrow> (string \<times> string) list" where
  "flat_titles t = map (\<lambda>n. (ni_path (dn_info n), ni_title (dn_info n)))
     (filter (\<lambda>n. ni_path (dn_info n) \<noteq> []) (visit (tree_root t)))"

section \<open>Headings\<close>

record heading =
  hd_depth :: nat
  hd_title :: string
  hd_marker_start :: nat
  hd_body_start :: nat

text \<open>The lines of a body: offset, text without the newline, and the offset just past the newline.\<close>

function line_spans :: "nat \<Rightarrow> string \<Rightarrow> (nat \<times> string \<times> nat) list" where
  "line_spans i s =
     (if s = [] then []
      else (let line = takeWhile (\<lambda>c. c \<noteq> CHR 0x0A) s; j = i + length line
            in (i, line, min (j + 1) (i + length s)) # line_spans (j + 1) (drop (length line + 1) s)))"
  by pat_completeness auto
termination
  by (relation "measure (\<lambda>(_, s). length s)") auto

declare line_spans.simps [simp del]

definition parse_atx_line :: "string \<Rightarrow> (nat \<times> string) option" where
  "parse_atx_line line =
     (let trimmed = trim_start line;
          depth = length (takeWhile (\<lambda>c. c = CHR ''#'') trimmed);
          rest = drop depth trimmed
      in if \<not> starts_with trimmed ''#'' \<or> depth > 6 then None
         else if \<not> (starts_with rest '' '' \<or> starts_with rest [CHR 0x09]) then None
         else (let title = trim (trim_end_matches (CHR ''#'') (trim rest))
               in if title = [] then None else Some (depth, title)))"

definition detect_atx_headings :: "string \<Rightarrow> heading list" where
  "detect_atx_headings body = List.map_filter (\<lambda>(i, line, body_start).
     (case parse_atx_line line of
        None \<Rightarrow> None
      | Some (depth, title) \<Rightarrow>
          Some \<lparr> hd_depth = depth, hd_title = title, hd_marker_start = i, hd_body_start = body_start \<rparr>))
     (line_spans 0 body)"

text \<open>The leading groups of digits and a dot: their number and what follows.\<close>

function numbered_groups :: "nat \<Rightarrow> string \<Rightarrow> (nat \<times> string) option" where
  "numbered_groups depth s =
     (let ds = takeWhile is_ascii_digit s; r = dropWhile is_ascii_digit s
      in if ds = [] then Some (depth, s)
         else (case r of
                 [] \<Rightarrow> None
               | c # r' \<Rightarrow> if c = CHR ''.'' then numbered_groups (depth + 1) r' else None))"
  by pat_completeness auto
termination
proof (relation "measure (\<lambda>(_, s). length s)", goal_cases)
  case (2 depth s x xa x21 x22)
  then have "length (x21 # x22) \<le> length s"
    by (metis length_dropWhile_le)
  then show ?case by simp
qed simp

declare numbered_groups.simps [simp del]

definition parse_numbered :: "string \<Rightarrow> (nat \<times> string) option" where
  "parse_numbered line =
     (case numbered_groups 0 line of
        None \<Rightarrow> None
      | Some (depth, rest) \<Rightarrow>
          if depth = 0 \<or> rest = [] then None
          else if hd rest \<noteq> CHR '' '' \<and> hd rest \<noteq> CHR 0x09 then None
          else (let title = trim rest in if title = [] then None else Some (depth, title)))"

definition section_marker :: "string \<Rightarrow> (nat \<times> string) option" where
  "section_marker line =
     (let trimmed = trim_start line in
      case strip_prefix ''SECTION:'' trimmed of
        Some rest \<Rightarrow> (let title = trim rest in if title = [] then None else Some (1, title))
      | None \<Rightarrow> parse_numbered trimmed)"

definition detect_section_markers :: "string \<Rightarrow> heading list" where
  "detect_section_markers body = List.map_filter (\<lambda>(i, line, body_start).
     (case section_marker line of
        None \<Rightarrow> None
      | Some (depth, title) \<Rightarrow>
          Some \<lparr> hd_depth = depth, hd_title = title, hd_marker_start = i, hd_body_start = body_start \<rparr>))
     (line_spans 0 body)"

definition detect_headings :: "string \<Rightarrow> heading list" where
  "detect_headings body =
     (let md = detect_atx_headings body in if md \<noteq> [] then md else detect_section_markers body)"

section \<open>Summaries\<close>

text \<open>The loop of \<open>extract_summary\<close> over the characters, bytes being kept; lengths are in bytes.\<close>

function summary_loop :: "nat \<Rightarrow> string \<Rightarrow> string \<Rightarrow> string" where
  "summary_loop sentences out s =
     (if s = [] then out
      else (let w = utf8_width (hd s); out' = out @ take w s;
                sentences' = (if hd s \<in> {CHR ''.'', CHR ''!'', CHR ''?''} then sentences + 1 else sentences)
            in if sentences' \<ge> 2 \<or> length out' \<ge> 280 then out'
               else summary_loop sentences' out' (drop w s)))"
  by pat_completeness auto
termination
  by (relation "measure (\<lambda>(_, _, s). length s)") auto

declare summary_loop.simps [simp del]

definition extract_summary :: "string \<Rightarrow> string" where
  "extract_summary body = (let b = trim body in if b = [] then [] else trim (summary_loop 0 [] b))"

section \<open>Sections\<close>

record prepared_section =
  ps_depth :: nat
  ps_title :: string
  ps_start :: nat
  ps_body_start :: nat
  ps_end :: nat

text \<open>The windows of two over the headings with the sentinel at the end of the body.\<close>

definition sentinel :: "nat \<Rightarrow> heading" where
  "sentinel body_len = \<lparr> hd_depth = 0, hd_title = [], hd_marker_start = body_len, hd_body_start = body_len \<rparr>"

definition prepare :: "nat \<Rightarrow> heading list \<Rightarrow> prepared_section list" where
  "prepare body_len headings =
     (let sections = headings @ [sentinel body_len]
      in map (\<lambda>(cur, next). \<lparr> ps_depth = hd_depth cur, ps_title = hd_title cur, ps_start = hd_marker_start cur,
              ps_body_start = hd_body_start cur, ps_end = hd_marker_start next \<rparr>)
           (filter (\<lambda>(cur, next). hd_depth cur \<noteq> 0) (zip sections (tl sections))))"

text \<open>\<open>body.get(a..b).unwrap_or("")\<close>.\<close>

definition get_range :: "string \<Rightarrow> nat \<Rightarrow> nat \<Rightarrow> string" where
  "get_range body a b =
     (if a \<le> b \<and> b \<le> length body \<and> is_char_boundary body a \<and> is_char_boundary body b
      then take (b - a) (drop a body) else [])"

definition section_info :: "string \<Rightarrow> prepared_section \<Rightarrow> node_info" where
  "section_info body ps =
     (let body_slice = get_range body (ps_body_start ps) (ps_end ps)
      in \<lparr> ni_path = [], ni_depth = ps_depth ps, ni_title = ps_title ps, ni_summary = extract_summary body_slice,
           ni_start = ps_start ps, ni_end = ps_end ps,
           ni_approx_tokens = (length body_slice div 4) mod 2 ^ 32 \<rparr>)"

section \<open>Assembly\<close>

type_synonym pointer = "nat list"

record assembly =
  as_roots :: "doc_tree_node list"
  as_stack :: "(nat \<times> pointer) list"
  as_dangling :: "pointer list"

text \<open>
  Append a node to the vector at a pointer: the roots for the empty one, the children of the node
  pointed to otherwise. The result also has the index of the new element.
\<close>

fun push_at :: "pointer \<Rightarrow> node_info \<Rightarrow> doc_tree_node list \<Rightarrow> (doc_tree_node list \<times> nat) option" where
  "push_at [] n f = Some (f @ [Doc_Node n []], length f)"
| "push_at (k # p) n f =
     (if k < length f then
        (case push_at p n (dn_children (f ! k)) of
           None \<Rightarrow> None
         | Some (cs, j) \<Rightarrow> Some (f[k := Doc_Node (dn_info (f ! k)) cs], j))
      else None)"

text \<open>The stack is a vector: it is popped at its end while the depth there is not smaller.\<close>

definition pop_stack :: "nat \<Rightarrow> (nat \<times> pointer) list \<Rightarrow> (nat \<times> pointer) list" where
  "pop_stack depth stack = rev (dropWhile (\<lambda>(d, _). d \<ge> depth) (rev stack))"

definition append_node :: "pointer \<Rightarrow> node_info \<Rightarrow> (nat \<times> pointer) list \<Rightarrow> assembly \<Rightarrow> assembly option" where
  "append_node p n stack a =
     (case push_at p n (as_roots a) of
        None \<Rightarrow> None
      | Some (f, j) \<Rightarrow>
          Some \<lparr> as_roots = f, as_stack = stack @ [(ni_depth n, p @ [j])],
                 as_dangling = as_dangling a @ map (\<lambda>k. p @ [k]) [0..<j] \<rparr>)"

definition add_section :: "node_info \<Rightarrow> assembly \<Rightarrow> assembly option" where
  "add_section n a =
     (let stack = pop_stack (ni_depth n) (as_stack a)
      in if stack = [] then append_node [] n stack a
         else (let p = snd (last stack)
               in if p \<in> set (as_dangling a) then None else append_node p n stack a))"

fun assemble :: "node_info list \<Rightarrow> assembly \<Rightarrow> assembly option" where
  "assemble [] a = Some a"
| "assemble (n # ns) a = (case add_section n a of None \<Rightarrow> None | Some a' \<Rightarrow> assemble ns a')"

definition assembly_start :: assembly where
  "assembly_start = \<lparr> as_roots = [], as_stack = [], as_dangling = [] \<rparr>"

lemma size_enumerate [termination_simp]:
  fixes cs :: "doc_tree_node list"
  shows "(k, c) \<in> set (enumerate n cs) \<Longrightarrow> size c < Suc (size_list size cs)"
proof (induction cs arbitrary: n)
  case (Cons a cs)
  then show ?case by (cases "c = a") fastforce+
qed simp

fun assign_paths :: "string \<Rightarrow> doc_tree_node \<Rightarrow> doc_tree_node" where
  "assign_paths path (Doc_Node i cs) =
     Doc_Node (i\<lparr>ni_path := path\<rparr>)
       (map (\<lambda>(k, c). assign_paths (path @ ''.'' @ show_nat (k + 1)) c) (enumerate 0 cs))"

definition root_paths :: "doc_tree_node list \<Rightarrow> doc_tree_node list" where
  "root_paths roots = map (\<lambda>(k, c). assign_paths (show_nat (k + 1)) c) (enumerate 0 roots)"

fun count_leaves :: "doc_tree_node \<Rightarrow> nat" where
  "count_leaves (Doc_Node i cs) = (if cs = [] then 1 else sum_list (map count_leaves cs))"

definition count_leaves_total :: "doc_tree_node \<Rightarrow> nat" where
  "count_leaves_total n = max (count_leaves n) 1"

definition root_info :: "document \<Rightarrow> node_info" where
  "root_info doc =
     \<lparr> ni_path = [], ni_depth = 0, ni_title = doc_title doc, ni_summary = extract_summary (doc_body doc),
       ni_start = 0, ni_end = length (doc_body doc), ni_approx_tokens = (length (doc_body doc) div 4) mod 2 ^ 32 \<rparr>"

definition build_document_tree :: "document \<Rightarrow> document_tree option" where
  "build_document_tree doc =
     (let body = doc_body doc; headings = detect_headings body in
      if headings = [] then
        Some \<lparr> tree_document_id = doc_id doc, tree_root = Doc_Node (root_info doc) [], tree_leaf_count = 1,
               tree_max_depth = 0 \<rparr>
      else
        (let prepared = prepare (length body) headings;
             max_depth = fold (\<lambda>ps m. max m (ps_depth ps)) prepared 0
         in case assemble (map (section_info body) prepared) assembly_start of
              None \<Rightarrow> None
            | Some a \<Rightarrow>
                (let root = Doc_Node (root_info doc) (root_paths (as_roots a))
                 in Some \<lparr> tree_document_id = doc_id doc, tree_root = root,
                           tree_leaf_count = count_leaves_total root, tree_max_depth = max_depth \<rparr>)))"

section \<open>The reference: nesting by depth\<close>

text \<open>A section contains the sections after it, up to the next one that is not deeper.\<close>

function nest :: "node_info list \<Rightarrow> doc_tree_node list" where
  "nest [] = []"
| "nest (x # xs) =
     Doc_Node x (nest (takeWhile (\<lambda>y. ni_depth x < ni_depth y) xs)) # nest (dropWhile (\<lambda>y. ni_depth x < ni_depth y) xs)"
  by pat_completeness auto
termination
  by (relation "measure length") (auto simp: length_takeWhile_le length_dropWhile_le le_imp_less_Suc)

subsection \<open>A zipper in between\<close>

text \<open>
  The open nodes, outermost first, each with the children completed so far. \<open>forest_of\<close> closes them,
  \<open>spine\<close> gives the pointer of each, and \<open>zip_step\<close> is what one section does.
\<close>

type_synonym frames = "(node_info \<times> doc_tree_node list) list"

fun forest_of :: "doc_tree_node list \<Rightarrow> frames \<Rightarrow> doc_tree_node list" where
  "forest_of ds [] = ds"
| "forest_of ds ((i, cs) # fs) = ds @ [Doc_Node i (forest_of cs fs)]"

fun spine :: "doc_tree_node list \<Rightarrow> frames \<Rightarrow> (nat \<times> pointer) list" where
  "spine ds [] = []"
| "spine ds ((i, cs) # fs) = (ni_depth i, [length ds]) # map (\<lambda>(d, p). (d, length ds # p)) (spine cs fs)"

fun zip_step :: "node_info \<Rightarrow> doc_tree_node list \<times> frames \<Rightarrow> doc_tree_node list \<times> frames" where
  "zip_step x (ds, []) = (ds, [(x, [])])"
| "zip_step x (ds, (i, cs) # fs) =
     (if ni_depth i < ni_depth x
      then (case zip_step x (cs, fs) of (cs', fs') \<Rightarrow> (ds, (i, cs') # fs'))
      else (ds @ [Doc_Node i (forest_of cs fs)], [(x, [])]))"

text \<open>What the sections still to come will make of the open nodes.\<close>

fun finish :: "doc_tree_node list \<Rightarrow> frames \<Rightarrow> node_info list \<Rightarrow> doc_tree_node list" where
  "finish ds [] xs = ds @ nest xs"
| "finish ds ((i, cs) # fs) xs =
     ds @ [Doc_Node i (finish cs fs (takeWhile (\<lambda>y. ni_depth i < ni_depth y) xs))]
       @ nest (dropWhile (\<lambda>y. ni_depth i < ni_depth y) xs)"

lemma finish_Nil [simp]: "finish ds fs [] = forest_of ds fs"
  by (induction ds fs rule: forest_of.induct) auto

lemma finish_step:
  "zip_step x (ds, fs) = (ds', fs') \<Longrightarrow> finish ds fs (x # xs) = finish ds' fs' xs"
proof (induction x "(ds, fs)" arbitrary: ds fs ds' fs' xs rule: zip_step.induct)
  case (2 x ds i cs fs)
  show ?case
  proof (cases "ni_depth i < ni_depth x")
    case True
    obtain cs1 fs1 where "zip_step x (cs, fs) = (cs1, fs1)" by fastforce
    then show ?thesis
      using 2 True by auto
  next
    case False
    then show ?thesis using 2(2) by auto
  qed
qed auto

lemma fold_zip_step: "fold zip_step xs (ds, fs) = (ds', fs') \<Longrightarrow> forest_of ds' fs' = finish ds fs xs"
proof (induction xs arbitrary: ds fs)
  case (Cons x xs)
  obtain d1 fs1 where z: "zip_step x (ds, fs) = (d1, fs1)" by fastforce
  then show ?case
    using Cons finish_step [OF z] by simp
qed simp

subsection \<open>The pointers follow the zipper\<close>

text \<open>Depths increase strictly along the open nodes.\<close>

definition frames_ok :: "frames \<Rightarrow> bool" where
  "frames_ok fs \<longleftrightarrow> sorted_wrt (<) (map (ni_depth \<circ> fst) fs)"

lemma fst_spine [simp]: "map fst (spine ds fs) = map (ni_depth \<circ> fst) fs"
  by (induction ds fs rule: spine.induct) (auto simp: o_def split_def)

lemma length_spine [simp]: "length (spine ds fs) = length fs"
  by (induction ds fs rule: spine.induct) auto

lemma takeWhile_map_snd:
  "takeWhile (\<lambda>(d, _). d < n) (map (\<lambda>(d, p). (d, k # p)) xs) = map (\<lambda>(d, p). (d, k # p)) (takeWhile (\<lambda>(d, _). d < n) xs)"
  by (induction xs) auto

text \<open>Popping at the end is cutting at the first entry that is not smaller.\<close>

lemma pop_stack_takeWhile:
  assumes "sorted_wrt (<) (map fst stack)"
  shows "pop_stack n stack = takeWhile (\<lambda>(d, _). d < n) stack"
proof -
  have "dropWhile (\<lambda>(d, _). n \<le> d) (rev stack) = rev (takeWhile (\<lambda>(d, _). d < n) stack)"
    using assms
  proof (induction stack rule: rev_induct)
    case (snoc x xs)
    show ?case
    proof (cases "n \<le> fst x")
      case True
      then have "takeWhile (\<lambda>(d, _). d < n) (xs @ [x]) = takeWhile (\<lambda>(d, _). d < n) xs"
        by (induction xs) (auto split: prod.splits)
      then show ?thesis
        using snoc True by (auto simp: split_def sorted_wrt_append)
    next
      case False
      then have "\<forall>y \<in> set xs. fst y < n"
        using snoc.prems by (auto simp: sorted_wrt_append)
      then have "takeWhile (\<lambda>(d, _). d < n) (xs @ [x]) = xs @ [x]"
        using False by (auto simp: takeWhile_eq_all_conv split_def)
      then show ?thesis
        using False by (simp add: split_def)
    qed
  qed simp
  then show ?thesis by (simp add: pop_stack_def)
qed

definition kept :: "nat \<Rightarrow> (nat \<times> pointer) list \<Rightarrow> (nat \<times> pointer) list" where
  "kept n st = takeWhile (\<lambda>(d, _). d < n) st"

definition top_pointer :: "(nat \<times> pointer) list \<Rightarrow> pointer" where
  "top_pointer st = (if st = [] then [] else snd (last st))"

lemma top_pointer_Cons:
  "top_pointer ((d, [k]) # map (\<lambda>(d, p). (d, k # p)) st) = k # top_pointer st"
  by (cases st rule: rev_cases) (auto simp: top_pointer_def)

lemma kept_Cons:
  "d < n \<Longrightarrow> kept n ((d, q) # map (\<lambda>(d, p). (d, k # p)) st) = (d, q) # map (\<lambda>(d, p). (d, k # p)) (kept n st)"
  by (simp add: kept_def takeWhile_map_snd)

text \<open>
  One section: the vector it is appended to is that of the last open node that stays open, and the new
  pointer is the last of the new spine.
\<close>

lemma zip_step_push:
  "zip_step x (ds, fs) = (ds', fs') \<Longrightarrow>
    \<exists>j. push_at (top_pointer (kept (ni_depth x) (spine ds fs))) x (forest_of ds fs) = Some (forest_of ds' fs', j)
      \<and> spine ds' fs' = kept (ni_depth x) (spine ds fs) @
          [(ni_depth x, top_pointer (kept (ni_depth x) (spine ds fs)) @ [j])]"
proof (induction x "(ds, fs)" arbitrary: ds fs ds' fs' rule: zip_step.induct)
  case (1 x ds)
  then show ?case by (auto simp: kept_def top_pointer_def)
next
  case (2 x ds i cs fs)
  show ?case
  proof (cases "ni_depth i < ni_depth x")
    case False
    then show ?thesis using 2(2) by (auto simp: kept_def top_pointer_def)
  next
    case True
    obtain cs1 fs1 where z: "zip_step x (cs, fs) = (cs1, fs1)" by fastforce
    from 2(1) [OF True z] obtain j where
      "push_at (top_pointer (kept (ni_depth x) (spine cs fs))) x (forest_of cs fs) = Some (forest_of cs1 fs1, j)"
      "spine cs1 fs1 = kept (ni_depth x) (spine cs fs) @ [(ni_depth x, top_pointer (kept (ni_depth x) (spine cs fs)) @ [j])]"
      by blast
    then show ?thesis
      using 2(2) True z by (auto simp: kept_Cons top_pointer_Cons)
  qed
qed

lemma frames_ok_step:
  assumes "zip_step x (ds, fs) = (ds', fs')" "frames_ok fs"
  shows "frames_ok fs'"
proof -
  obtain p where "spine ds' fs' = kept (ni_depth x) (spine ds fs) @ [(ni_depth x, p)]"
    using zip_step_push [OF assms(1)] by auto
  then have "map (ni_depth \<circ> fst) fs' = map fst (kept (ni_depth x) (spine ds fs)) @ [ni_depth x]"
    using fst_spine [of ds' fs'] by simp
  moreover have "sorted_wrt (<) (map fst (kept (ni_depth x) (spine ds fs)))"
    using assms(2) unfolding kept_def frames_ok_def
    by (metis (no_types, lifting) fst_spine map_append sorted_wrt_append takeWhile_dropWhile_id)
  moreover have "d < ni_depth x" if "d \<in> set (map fst (kept (ni_depth x) (spine ds fs)))" for d
    using that by (auto simp: kept_def dest: set_takeWhileD)
  ultimately show ?thesis
    by (simp add: frames_ok_def sorted_wrt_append)
qed

subsection \<open>Dangling pointers\<close>

text \<open>The pointers that lead to a node.\<close>

fun leads :: "doc_tree_node list \<Rightarrow> pointer \<Rightarrow> bool" where
  "leads f [] = True"
| "leads f (k # p) \<longleftrightarrow> k < length f \<and> leads (dn_children (f ! k)) p"

lemma push_at_leads: "push_at p n f = Some (f', j) \<Longrightarrow> leads f q \<Longrightarrow> leads f' q"
proof (induction p n f arbitrary: f' j q rule: push_at.induct)
  case (1 n f)
  then show ?case by (cases q) (auto simp: nth_append)
next
  case (2 k p n f)
  then show ?case
    by (cases q) (auto simp: nth_list_update split: if_splits option.splits)
qed

lemma push_at_fresh: "push_at p n f = Some (f', j) \<Longrightarrow> \<not> leads f (p @ [j])"
  by (induction p n f arbitrary: f' j rule: push_at.induct) (auto split: if_splits option.splits)

lemma push_at_siblings: "push_at p n f = Some (f', j) \<Longrightarrow> k < j \<Longrightarrow> leads f (p @ [k])"
  by (induction p n f arbitrary: f' j rule: push_at.induct) (auto split: if_splits option.splits)

lemma spine_nth_length: "k < length fs \<Longrightarrow> length (snd (spine ds fs ! k)) = Suc k"
proof (induction ds fs arbitrary: k rule: spine.induct)
  case (2 ds i cs fs)
  then show ?case by (cases k) (auto simp: split_def)
qed simp

lemma kept_length:
  assumes "e \<in> set (kept n (spine ds fs))"
  shows "length (snd e) \<le> length (top_pointer (kept n (spine ds fs)))"
proof -
  let ?k = "kept n (spine ds fs)"
  have nth: "length (snd (?k ! m)) = Suc m" if "m < length ?k" for m
  proof -
    have "?k ! m = spine ds fs ! m"
      using that by (simp add: kept_def takeWhile_nth)
    moreover have "m < length fs"
      using that length_takeWhile_le [of _ "spine ds fs"] by (auto simp: kept_def intro: less_le_trans)
    ultimately show ?thesis by (simp add: spine_nth_length)
  qed
  obtain m where m: "m < length ?k" "e = ?k ! m"
    using assms by (auto simp: in_set_conv_nth)
  then have "?k \<noteq> []" by auto
  then show ?thesis
    using m nth [of m] nth [of "length ?k - 1"] by (simp add: top_pointer_def last_conv_nth)
qed

definition assembly_inv :: "assembly \<Rightarrow> doc_tree_node list \<Rightarrow> frames \<Rightarrow> bool" where
  "assembly_inv a ds fs \<longleftrightarrow>
     as_roots a = forest_of ds fs \<and> as_stack a = spine ds fs \<and> frames_ok fs \<and>
     (\<forall>q \<in> set (as_dangling a). leads (as_roots a) q) \<and> snd ` set (as_stack a) \<inter> set (as_dangling a) = {}"

lemma add_section_inv:
  assumes inv: "assembly_inv a ds fs" and z: "zip_step x (ds, fs) = (ds', fs')"
  shows "\<exists>a'. add_section x a = Some a' \<and> assembly_inv a' ds' fs'"
proof -
  let ?st = "kept (ni_depth x) (spine ds fs)"
  let ?p = "top_pointer ?st"
  obtain j where j: "push_at ?p x (forest_of ds fs) = Some (forest_of ds' fs', j)"
    "spine ds' fs' = ?st @ [(ni_depth x, ?p @ [j])]"
    using zip_step_push [OF z] by blast
  have sub: "set ?st \<subseteq> set (as_stack a)"
    using inv by (auto simp: kept_def assembly_inv_def dest: set_takeWhileD)
  have live: "?p \<notin> set (as_dangling a)" if "?st \<noteq> []"
  proof -
    have "snd (last ?st) \<in> snd ` set (as_stack a)"
      using sub last_in_set [OF that] by blast
    then show ?thesis
      using that inv unfolding top_pointer_def assembly_inv_def by (simp add: disjoint_iff)
  qed
  have pop: "pop_stack (ni_depth x) (as_stack a) = ?st"
    using inv pop_stack_takeWhile [of "spine ds fs"]
    by (simp add: assembly_inv_def frames_ok_def kept_def)
  define a' where "a' = \<lparr> as_roots = forest_of ds' fs', as_stack = spine ds' fs',
    as_dangling = as_dangling a @ map (\<lambda>k. ?p @ [k]) [0..<j] \<rparr>"
  have "append_node ?p x ?st a = Some a'"
    using inv j by (simp add: append_node_def a'_def assembly_inv_def)
  then have "add_section x a = Some a'"
    using pop live by (auto simp: add_section_def Let_def top_pointer_def)
  moreover have "leads (forest_of ds' fs') q" if "q \<in> set (as_dangling a')" for q
    using that inv push_at_leads [OF j(1)] push_at_siblings [OF j(1)] by (auto simp: a'_def assembly_inv_def)
  moreover have "?p @ [j] \<notin> set (as_dangling a')"
    using inv push_at_fresh [OF j(1)] by (auto simp: a'_def assembly_inv_def)
  moreover have "snd e \<notin> set (as_dangling a')" if "e \<in> set ?st" for e
  proof -
    have "snd e \<in> snd ` set (as_stack a)"
      using that sub by blast
    then have "snd e \<notin> set (as_dangling a)"
      using inv unfolding assembly_inv_def by (simp add: disjoint_iff)
    then show ?thesis
      using kept_length [OF that] by (auto simp: a'_def)
  qed
  ultimately show ?thesis
    using frames_ok_step [OF z] inv j(2) by (auto simp: assembly_inv_def a'_def)
qed

lemma assemble_nest:
  assumes "assembly_inv a ds fs"
  shows "\<exists>a'. assemble ns a = Some a' \<and> as_roots a' = finish ds fs ns"
  using assms
proof (induction ns arbitrary: a ds fs)
  case Nil
  then show ?case by (simp add: assembly_inv_def)
next
  case (Cons n ns)
  obtain ds' fs' where z: "zip_step n (ds, fs) = (ds', fs')" by fastforce
  then show ?case
    using add_section_inv [OF Cons.prems z] Cons.IH finish_step [OF z] by fastforce
qed

lemma assemble_start: "\<exists>a. assemble ns assembly_start = Some a \<and> as_roots a = nest ns"
  using assemble_nest [of assembly_start "[]" "[]" ns]
  by (simp add: assembly_inv_def assembly_start_def frames_ok_def)

section \<open>The tree of a document\<close>

definition section_infos :: "string \<Rightarrow> node_info list" where
  "section_infos body = map (section_info body) (prepare (length body) (detect_headings body))"

lemma build_tree_root:
  "\<exists>t. build_document_tree doc = Some t \<and>
     tree_root t = Doc_Node (root_info doc) (root_paths (nest (section_infos (doc_body doc))))"
proof -
  obtain a where a: "assemble (section_infos (doc_body doc)) assembly_start = Some a"
    "as_roots a = nest (section_infos (doc_body doc))"
    using assemble_start by blast
  show ?thesis
  proof (cases "detect_headings (doc_body doc) = []")
    case True
    then show ?thesis
      by (simp add: build_document_tree_def section_infos_def prepare_def root_paths_def)
  next
    case False
    then show ?thesis
      using a by (simp add: build_document_tree_def section_infos_def Let_def)
  qed
qed

subsection \<open>The order of the nodes\<close>

fun preorder :: "doc_tree_node \<Rightarrow> node_info list" where
  "preorder (Doc_Node i cs) = i # concat (map preorder cs)"

definition unpathed :: "node_info \<Rightarrow> node_info" where
  "unpathed i = i\<lparr>ni_path := []\<rparr>"

lemma preorder_visit: "map dn_info (visit n) = preorder n"
  by (induction n rule: visit.induct) (auto simp: map_concat o_def intro!: arg_cong [where f = concat])

lemma preorder_nest: "concat (map preorder (nest xs)) = xs"
  by (induction xs rule: nest.induct) auto

lemma map_enumerate_snd: "map (\<lambda>p. f (snd p)) (enumerate n xs) = map f xs"
  using map_map [of f snd "enumerate n xs"] by (simp add: o_def)

lemma preorder_assign_paths: "map unpathed (preorder (assign_paths p n)) = map unpathed (preorder n)"
proof (induction p n rule: assign_paths.induct)
  case (1 p i cs)
  have "map (\<lambda>(k, c). map unpathed (preorder (assign_paths (p @ ''.'' @ show_nat (k + 1)) c))) (enumerate 0 cs)
      = map (\<lambda>(k, c). map unpathed (preorder c)) (enumerate 0 cs)"
    using 1 by auto
  also have "\<dots> = map (\<lambda>c. map unpathed (preorder c)) (map snd (enumerate 0 cs))"
    by (simp add: split_def map_enumerate_snd [of "\<lambda>c. map unpathed (preorder c)"])
  finally have "concat (map (\<lambda>(k, c). map unpathed (preorder (assign_paths (p @ ''.'' @ show_nat (k + 1)) c))) (enumerate 0 cs))
      = concat (map (\<lambda>c. map unpathed (preorder c)) cs)"
    by simp
  then show ?case
    by (simp add: map_concat o_def split_def) (simp add: unpathed_def)
qed

lemma preorder_root_paths:
  "map unpathed (concat (map preorder (root_paths f))) = map unpathed (concat (map preorder f))"
proof -
  have "map (\<lambda>(k, c). map unpathed (preorder (assign_paths (show_nat (k + 1)) c))) (enumerate 0 f)
      = map (\<lambda>c. map unpathed (preorder c)) (map snd (enumerate 0 f))"
    by (simp add: split_def preorder_assign_paths map_enumerate_snd [of "\<lambda>c. map unpathed (preorder c)"])
  then show ?thesis
    by (simp add: root_paths_def map_concat o_def split_def)
qed

lemma section_info_unpathed [simp]: "map unpathed (section_infos body) = section_infos body"
  by (simp add: section_infos_def unpathed_def section_info_def Let_def)

lemma node_count_visit: "node_count n = length (visit n)"
  by (induction n rule: visit.induct) (auto simp: length_concat o_def intro!: arg_cong [where f = sum_list])

text \<open>
  C18. Building the tree never follows a pointer into a vector that may have moved, whatever the
  document, and the result is the nesting of the sections by depth under the document's root, with one
  node per heading besides the root.
\<close>

theorem build_document_tree_nests:
  "\<exists>t. build_document_tree doc = Some t \<and>
     tree_root t = Doc_Node (root_info doc) (root_paths (nest (section_infos (doc_body doc)))) \<and>
     node_count (tree_root t) = 1 + length (section_infos (doc_body doc))"
proof -
  obtain t where t: "build_document_tree doc = Some t"
    "tree_root t = Doc_Node (root_info doc) (root_paths (nest (section_infos (doc_body doc))))"
    using build_tree_root by blast
  have "length (visit (tree_root t)) = length (preorder (tree_root t))"
    unfolding preorder_visit [symmetric] by simp
  also have "\<dots> = 1 + length (map unpathed (concat (map preorder (root_paths (nest (section_infos (doc_body doc)))))))"
    by (simp add: t(2))
  also have "\<dots> = 1 + length (section_infos (doc_body doc))"
    by (simp only: preorder_root_paths preorder_nest section_info_unpathed)
  finally show ?thesis
    using t by (intro exI [of _ t] conjI) (simp_all only: node_count_visit)
qed

subsection \<open>Sections tile the body\<close>

definition slice_of :: "string \<Rightarrow> node_info \<Rightarrow> string" where
  "slice_of body i = take (ni_end i - ni_start i) (drop (ni_start i) body)"

lemma line_spans_bounds:
  "(j, l, b) \<in> set (line_spans i s) \<Longrightarrow> i \<le> j \<and> j < i + length s \<and> j < b \<and> b \<le> i + length s"
proof (induction i s rule: line_spans.induct)
  case (1 i s)
  show ?case
  proof (cases "s = []")
    case True
    then show ?thesis using 1(2) by (simp add: line_spans.simps)
  next
    case False
    let ?line = "takeWhile (\<lambda>c. c \<noteq> CHR 0x0A) s"
    have "length ?line \<le> length s" by (rule length_takeWhile_le)
    then show ?thesis
      using False 1(1) [OF False refl refl] 1(2)
      by (fastforce simp: line_spans.simps [of i s] Let_def min_def split: if_splits)
  qed
qed

lemma line_spans_sorted: "sorted_wrt (<) (map fst (line_spans i s))"
proof (induction i s rule: line_spans.induct)
  case (1 i s)
  then show ?case
    by (subst line_spans.simps) (auto simp: Let_def dest: line_spans_bounds)
qed

lemma sorted_map_filter:
  assumes "sorted_wrt (<) (map f xs)" "\<And>x y. x \<in> set xs \<Longrightarrow> g x = Some y \<Longrightarrow> h y = f x"
  shows "sorted_wrt (<) (map h (List.map_filter g xs))"
  using assms
proof (induction xs)
  case (Cons x xs)
  then show ?case
    by (auto simp: List.map_filter_simps set_map_filter split: option.split) fastforce
qed (simp add: List.map_filter_simps)

text \<open>The offsets of a heading list of a body: increasing, inside the body, and with a positive depth.\<close>

definition headings_ok :: "nat \<Rightarrow> heading list \<Rightarrow> bool" where
  "headings_ok n hs \<longleftrightarrow> sorted_wrt (<) (map hd_marker_start hs) \<and>
     (\<forall>h \<in> set hs. hd_marker_start h < n \<and> hd_marker_start h < hd_body_start h \<and> hd_body_start h \<le> n \<and> 0 < hd_depth h)"

lemma parse_atx_depth: "parse_atx_line l = Some (d, t) \<Longrightarrow> 0 < d \<and> d \<le> 6"
  by (cases "trim_start l") (auto simp: parse_atx_line_def Let_def split: if_splits)

lemma section_marker_depth: "section_marker l = Some (d, t) \<Longrightarrow> 0 < d"
  by (auto simp: section_marker_def parse_numbered_def Let_def split: if_splits option.splits)

lemma detect_headings_ok: "headings_ok (length body) (detect_headings body)"
proof -
  have "headings_ok (length body) (detect_atx_headings body)"
    unfolding headings_ok_def detect_atx_headings_def
    by (auto simp: set_map_filter split: option.splits dest!: parse_atx_depth line_spans_bounds
        intro!: sorted_map_filter [OF line_spans_sorted])
  moreover have "headings_ok (length body) (detect_section_markers body)"
    unfolding headings_ok_def detect_section_markers_def
    by (auto simp: set_map_filter split: option.splits dest!: section_marker_depth line_spans_bounds
        intro!: sorted_map_filter [OF line_spans_sorted])
  ultimately show ?thesis
    by (simp add: detect_headings_def Let_def)
qed

lemma prepare_Nil [simp]: "prepare n [] = []"
  by (simp add: prepare_def)

lemma prepare_Cons:
  "0 < hd_depth h \<Longrightarrow> prepare n (h # hs) =
     \<lparr> ps_depth = hd_depth h, ps_title = hd_title h, ps_start = hd_marker_start h, ps_body_start = hd_body_start h,
       ps_end = hd_marker_start (hd (hs @ [sentinel n])) \<rparr> # prepare n hs"
  by (cases hs) (auto simp: prepare_def Let_def)

lemma drop_split: "i \<le> j \<Longrightarrow> drop i s = take (j - i) (drop i s) @ drop j s"
  by (metis append_take_drop_id drop_drop le_add_diff_inverse2)

lemma headings_ok_ConsD:
  "headings_ok n (h # hs) \<Longrightarrow> headings_ok n hs \<and> 0 < hd_depth h \<and>
     hd_marker_start h \<le> hd_marker_start (hd (hs @ [sentinel n]))"
  by (cases hs) (auto simp: headings_ok_def sentinel_def)

lemma sections_tile:
  "headings_ok (length body) hs \<Longrightarrow>
     concat (map (slice_of body \<circ> section_info body) (prepare (length body) hs))
       = drop (hd_marker_start (hd (hs @ [sentinel (length body)]))) body"
proof (induction hs)
  case Nil
  then show ?case by (simp add: sentinel_def)
next
  case (Cons h hs)
  note ok = headings_ok_ConsD [OF Cons.prems]
  show ?case
    using ok Cons.IH drop_split [of "hd_marker_start h" "hd_marker_start (hd (hs @ [sentinel (length body)]))" body]
    by (simp add: prepare_Cons slice_of_def section_info_def Let_def)
qed

text \<open>
  C19. The sections of a document's tree, walked in \<open>visit\<close>'s order, are those of its headings in
  document order, and their byte ranges put together are the body from the first heading on: no text
  after the first heading is lost or duplicated, and a document without headings has no section.
\<close>

theorem sections_partition_body:
  "\<exists>t. build_document_tree doc = Some t \<and>
     map (unpathed \<circ> dn_info) (tl (visit (tree_root t))) = section_infos (doc_body doc) \<and>
     concat (map (slice_of (doc_body doc) \<circ> dn_info) (tl (visit (tree_root t))))
       = (case detect_headings (doc_body doc) of [] \<Rightarrow> [] | h # _ \<Rightarrow> drop (hd_marker_start h) (doc_body doc))"
proof -
  let ?b = "doc_body doc"
  obtain t where t: "build_document_tree doc = Some t"
    and root: "tree_root t = Doc_Node (root_info doc) (root_paths (nest (section_infos ?b)))"
    using build_tree_root by blast
  let ?ns = "tl (visit (tree_root t))"
  have "map dn_info ?ns = concat (map preorder (root_paths (nest (section_infos ?b))))"
    using preorder_visit [of "tree_root t"] by (simp add: root map_tl)
  then have infos: "map (unpathed \<circ> dn_info) ?ns = section_infos ?b"
    using preorder_root_paths [of "nest (section_infos ?b)"] by (metis map_map preorder_nest section_info_unpathed)
  have "map (slice_of ?b \<circ> dn_info) ?ns = map (slice_of ?b) (map (unpathed \<circ> dn_info) ?ns)"
    by (simp add: slice_of_def unpathed_def)
  then show ?thesis
    using t infos sections_tile [OF detect_headings_ok, of ?b]
    by (auto simp: section_infos_def sentinel_def split: list.split)
qed

subsection \<open>Navigation\<close>

lemma find_first:
  "find_node p n = List.find (\<lambda>m. ni_path (dn_info m) = p) (visit n)"
  "find_nodes p ns = List.find (\<lambda>m. ni_path (dn_info m) = p) (concat (map visit ns))"
proof (induction p n and p ns rule: find_node_find_nodes.induct)
  case (3 p c cs)
  have "List.find P (xs @ ys) = (case List.find P xs of Some x \<Rightarrow> Some x | None \<Rightarrow> List.find P ys)"
    for P and xs ys :: "doc_tree_node list"
    by (induction xs) auto
  then show ?case using 3 by (simp split: option.split)
qed auto

lemma find_distinct:
  "distinct (map f xs) \<Longrightarrow> x \<in> set xs \<Longrightarrow> List.find (\<lambda>y. f y = f x) xs = Some x"
  by (induction xs) (auto simp: rev_image_eqI)

definition node_paths :: "doc_tree_node \<Rightarrow> string list" where
  "node_paths n = map (ni_path \<circ> dn_info) (visit n)"

lemma node_paths_assign:
  "node_paths (assign_paths p (Doc_Node i cs)) =
     p # concat (map (\<lambda>(k, c). node_paths (assign_paths (p @ ''.'' @ show_nat (k + 1)) c)) (enumerate 0 cs))"
  by (simp add: node_paths_def map_concat o_def split_def)

text \<open>The paths below a node extend its path by a dot.\<close>

lemma node_paths_extend:
  "q \<in> set (node_paths (assign_paths p n)) \<Longrightarrow> q = p \<or> (\<exists>r. q = p @ CHR ''.'' # r)"
proof (induction p n arbitrary: q rule: assign_paths.induct)
  case (1 p i cs)
  then consider "q = p" | k c where "(k, c) \<in> set (enumerate 0 cs)"
      "q \<in> set (node_paths (assign_paths (p @ ''.'' @ show_nat (k + 1)) c))"
    unfolding node_paths_assign by auto
  then show ?case
  proof cases
    case 2
    then show ?thesis using "1.IH" [OF 2(1) refl 2(2)] by auto
  qed simp
qed

lemma show_nat_no_dot: "CHR ''.'' \<notin> set (show_nat k)"
  using show_nat_digits [of "CHR ''.''" k] by (auto simp: is_ascii_digit_def)

text \<open>The index that the first component of a path stands for.\<close>

definition first_index :: "string \<Rightarrow> nat" where
  "first_index q = the (read_digits 0 (takeWhile (\<lambda>c. c \<noteq> CHR ''.'') q)) - 1"

lemma first_index_simps:
  "first_index (show_nat (k + 1)) = k" "first_index (show_nat (k + 1) @ CHR ''.'' # r) = k"
proof -
  have t: "takeWhile (\<lambda>c. c \<noteq> CHR ''.'') (show_nat m) = show_nat m"
    "takeWhile (\<lambda>c. c \<noteq> CHR ''.'') (show_nat m @ CHR ''.'' # r) = show_nat m" for m
    using show_nat_no_dot [of m] by (auto simp: takeWhile_eq_all_conv takeWhile_append)
  show "first_index (show_nat (k + 1)) = k" "first_index (show_nat (k + 1) @ CHR ''.'' # r) = k"
    unfolding first_index_def t by simp_all
qed

lemma distinct_concat_enumerate:
  assumes "\<And>k c. (k, c) \<in> set (enumerate n cs) \<Longrightarrow> distinct (f k c)"
    and "\<And>k c q. (k, c) \<in> set (enumerate n cs) \<Longrightarrow> q \<in> set (f k c) \<Longrightarrow> g q = k"
  shows "distinct (concat (map (\<lambda>(k, c). f k c) (enumerate n cs)))"
  using assms
proof (induction cs arbitrary: n)
  case (Cons c cs)
  have "distinct (concat (map (\<lambda>(k, c). f k c) (enumerate (Suc n) cs)))"
  proof (rule Cons.IH)
    show "distinct (f k d)" if "(k, d) \<in> set (enumerate (Suc n) cs)" for k d
      using Cons.prems(1) [of k d] that by simp
    show "g q = k" if "(k, d) \<in> set (enumerate (Suc n) cs)" "q \<in> set (f k d)" for k d q
      using Cons.prems(2) [of k d q] that by simp
  qed
  moreover have "set (f n c) \<inter> set (concat (map (\<lambda>(k, c). f k c) (enumerate (Suc n) cs))) = {}"
  proof -
    have "g q = n" if "q \<in> set (f n c)" for q
      using Cons.prems(2) [of n c] that by simp
    moreover have "n < g q" if "(k, d) \<in> set (enumerate (Suc n) cs)" "q \<in> set (f k d)" for k d q
      using Cons.prems(2) [of k d q] that by (auto simp: in_set_enumerate_eq)
    ultimately show ?thesis by fastforce
  qed
  ultimately show ?case
    using Cons.prems(1) [of n c] by simp
qed simp

lemma distinct_node_paths: "distinct (node_paths (assign_paths p n))"
proof (induction p n rule: assign_paths.induct)
  case (1 p i cs)
  let ?f = "\<lambda>k c. node_paths (assign_paths (p @ ''.'' @ show_nat (k + 1)) c)"
  have g: "first_index (drop (length p + 1) q) = k" if "q \<in> set (?f k c)" for q k c
    using node_paths_extend [OF that] first_index_simps by auto
  have "distinct (concat (map (\<lambda>(k, c). ?f k c) (enumerate 0 cs)))"
    using 1 g by (intro distinct_concat_enumerate [where g = "\<lambda>q. first_index (drop (length p + 1) q)"]) auto
  moreover have "p \<notin> set (concat (map (\<lambda>(k, c). ?f k c) (enumerate 0 cs)))"
    by (auto dest: node_paths_extend)
  ultimately show ?case
    unfolding node_paths_assign by simp
qed

lemma distinct_root_paths: "distinct (concat (map node_paths (root_paths f)))"
proof -
  let ?f = "\<lambda>k c. node_paths (assign_paths (show_nat (k + 1)) c)"
  have g: "first_index q = k" if "q \<in> set (?f k c)" for q k c
    using node_paths_extend [OF that] first_index_simps by auto
  have "distinct (concat (map (\<lambda>(k, c). ?f k c) (enumerate 0 f)))"
    using g distinct_node_paths by (intro distinct_concat_enumerate [where g = first_index]) auto
  then show ?thesis
    by (simp add: root_paths_def o_def split_def)
qed

lemma root_path_not_Nil: "[] \<notin> set (concat (map node_paths (root_paths f)))"
  by (auto simp: root_paths_def dest!: node_paths_extend) (metis show_nat_not_Nil)

lemma distinct_tree_paths:
  assumes "ni_path i = []"
  shows "distinct (node_paths (Doc_Node i (root_paths f)))"
proof -
  have "node_paths (Doc_Node i (root_paths f)) = [] # concat (map node_paths (root_paths f))"
    using assms by (simp add: node_paths_def [abs_def] map_concat o_def)
  then show ?thesis
    using distinct_root_paths [of f] root_path_not_Nil [of f] by simp
qed

text \<open>
  Navigation is exact: the dotted paths of a tree are pairwise distinct, and \<open>find\<close> with the path
  of a node returns that very node.
\<close>

lemma find_by_path:
  "\<exists>t. build_document_tree doc = Some t \<and> distinct (map (ni_path \<circ> dn_info) (visit (tree_root t))) \<and>
     list_all (\<lambda>n. find_node (ni_path (dn_info n)) (tree_root t) = Some n) (visit (tree_root t))"
proof -
  obtain t where t: "build_document_tree doc = Some t"
    "tree_root t = Doc_Node (root_info doc) (root_paths (nest (section_infos (doc_body doc))))"
    using build_tree_root by blast
  have d: "distinct (map (ni_path \<circ> dn_info) (visit (tree_root t)))"
    using distinct_tree_paths [of "root_info doc"] unfolding node_paths_def t(2) root_info_def
    by (simp del: visit.simps)
  then have "find_node (ni_path (dn_info n)) (tree_root t) = Some n" if "n \<in> set (visit (tree_root t))" for n
    using find_distinct [OF d that] by (simp add: find_first)
  then show ?thesis
    using t(1) d by (auto simp: list_all_iff)
qed

end
