(* ===== verification/Ranking.thy ===== *)
theory Ranking
  imports Prelude Complex_Main "HOL-Library.Multiset"
begin

text \<open>
  Scores and rankings, shared by the knowledge store, the retrieval engine and the knowledge graph.
  The operations of \<open>f32\<close> are a record of functions on a type of floats, so that scores are computed
  with the very operations of the source, in its order; \<open>partial_cmp\<close> has no result when an operand is
  not a number. \<open>sort_by\<close> is the stable sort of the standard library: for a comparison that is a total
  preorder on the elements its result does not depend on the algorithm.
\<close>

section \<open>Comparison and stable sorting\<close>

datatype ordering = Less | Equal | Greater

definition compare_num :: "'a::linorder \<Rightarrow> 'a \<Rightarrow> ordering" where
  "compare_num a b = (if a < b then Less else if a = b then Equal else Greater)"

fun insort_by :: "('a \<Rightarrow> 'a \<Rightarrow> ordering) \<Rightarrow> 'a \<Rightarrow> 'a list \<Rightarrow> 'a list" where
  "insort_by cmp x [] = [x]"
| "insort_by cmp x (y # ys) = (if cmp x y = Greater then y # insort_by cmp x ys else x # y # ys)"

definition sort_by :: "('a \<Rightarrow> 'a \<Rightarrow> ordering) \<Rightarrow> 'a list \<Rightarrow> 'a list" where
  "sort_by cmp xs = foldr (insort_by cmp) xs []"

lemma sort_by_simps [simp]: "sort_by cmp [] = []" "sort_by cmp (x # xs) = insort_by cmp x (sort_by cmp xs)"
  by (simp_all add: sort_by_def)

lemma mset_insort_by [simp]: "mset (insort_by cmp x ys) = add_mset x (mset ys)"
  by (induction ys) auto

lemma mset_sort_by [simp]: "mset (sort_by cmp xs) = mset xs"
  by (induction xs) auto

lemma set_sort_by [simp]: "set (sort_by cmp xs) = set xs"
  by (metis mset_sort_by set_mset_mset)

lemma length_sort_by [simp]: "length (sort_by cmp xs) = length xs"
  by (metis mset_sort_by size_mset)

lemma distinct_map_sort_by [simp]: "distinct (map f (sort_by cmp xs)) \<longleftrightarrow> distinct (map f xs)"
  by (metis mset_map mset_sort_by mset_eq_imp_distinct_iff)

text \<open>A comparison that is that of a numeric key on the elements sorts by that key.\<close>

definition compares_by :: "('a \<Rightarrow> 'a \<Rightarrow> ordering) \<Rightarrow> ('a \<Rightarrow> 'k::linorder) \<Rightarrow> 'a set \<Rightarrow> bool" where
  "compares_by cmp key A \<longleftrightarrow> (\<forall>x \<in> A. \<forall>y \<in> A. cmp x y = compare_num (key x) (key y))"

lemma insort_by_key:
  "compares_by cmp key (insert x (set ys)) \<Longrightarrow> sorted (map key ys) \<Longrightarrow> sorted (map key (insort_by cmp x ys))"
proof (induction ys)
  case (Cons y ys)
  have "compares_by cmp key (insert x (set ys))"
    using Cons.prems(1) by (auto simp: compares_by_def)
  then have IH: "sorted (map key (insort_by cmp x ys))"
    using Cons by simp
  have xy: "cmp x y = compare_num (key x) (key y)"
    using Cons.prems(1) by (simp add: compares_by_def)
  have "set (insort_by cmp x ys) = insert x (set ys)"
    by (metis mset_insort_by set_mset_add_mset_insert set_mset_mset)
  then show ?case
    using IH xy Cons.prems(2) by (auto simp: compare_num_def split: if_splits)
qed simp

lemma sort_by_key:
  "compares_by cmp key (set xs) \<Longrightarrow> sorted (map key (sort_by cmp xs))"
proof (induction xs)
  case (Cons x xs)
  have "compares_by cmp key (set xs)"
    using Cons.prems by (auto simp: compares_by_def)
  then show ?case
    using Cons insort_by_key [of cmp key x "sort_by cmp xs"] by auto
qed simp

text \<open>Stability: elements with equal keys keep their order.\<close>

lemma insort_by_stable:
  "compares_by cmp key (insert x (set ys)) \<Longrightarrow>
    filter (\<lambda>y. key y = k) (insort_by cmp x ys) = filter (\<lambda>y. key y = k) (x # ys)"
proof (induction ys)
  case (Cons y ys)
  have "compares_by cmp key (insert x (set ys))" "cmp x y = compare_num (key x) (key y)"
    using Cons.prems by (auto simp: compares_by_def)
  then show ?case
    using Cons.IH by (auto simp: compare_num_def)
qed simp

lemma sort_by_stable:
  "compares_by cmp key (set xs) \<Longrightarrow> filter (\<lambda>y. key y = k) (sort_by cmp xs) = filter (\<lambda>y. key y = k) xs"
proof (induction xs)
  case (Cons x xs)
  have "compares_by cmp key (set xs)" "compares_by cmp key (insert x (set (sort_by cmp xs)))"
    using Cons.prems by (auto simp: compares_by_def)
  then show ?case
    using Cons.IH insort_by_stable [of cmp key x "sort_by cmp xs" k] by simp
qed simp

section \<open>Floats\<close>

record 'f f32_ops =
  f_rat :: "int \<times> int \<Rightarrow> 'f"
  f_nat :: "nat \<Rightarrow> 'f"
  f_add :: "'f \<Rightarrow> 'f \<Rightarrow> 'f"
  f_sub :: "'f \<Rightarrow> 'f \<Rightarrow> 'f"
  f_mul :: "'f \<Rightarrow> 'f \<Rightarrow> 'f"
  f_div :: "'f \<Rightarrow> 'f \<Rightarrow> 'f"
  f_max :: "'f \<Rightarrow> 'f \<Rightarrow> 'f"
  f_sqrt :: "'f \<Rightarrow> 'f"
  f_ln :: "'f \<Rightarrow> 'f"
  f_abs :: "'f \<Rightarrow> 'f"
  partial_cmp :: "'f \<Rightarrow> 'f \<Rightarrow> ordering option"

text \<open>\<open>f_rat (n, d)\<close> is the float of the literal \<open>n / d\<close>; \<open>a > b\<close> and \<open>a == b\<close> are false on NaN.\<close>

definition f_gt :: "'f f32_ops \<Rightarrow> 'f \<Rightarrow> 'f \<Rightarrow> bool" where
  "f_gt F a b \<longleftrightarrow> partial_cmp F a b = Some Greater"

definition f_eq :: "'f f32_ops \<Rightarrow> 'f \<Rightarrow> 'f \<Rightarrow> bool" where
  "f_eq F a b \<longleftrightarrow> partial_cmp F a b = Some Equal"

definition f_le :: "'f f32_ops \<Rightarrow> 'f \<Rightarrow> 'f \<Rightarrow> bool" where
  "f_le F a b \<longleftrightarrow> partial_cmp F a b = Some Less \<or> partial_cmp F a b = Some Equal"

definition f_lt :: "'f f32_ops \<Rightarrow> 'f \<Rightarrow> 'f \<Rightarrow> bool" where
  "f_lt F a b \<longleftrightarrow> partial_cmp F a b = Some Less"

text \<open>\<open>iter().sum::<f32>()\<close>.\<close>

definition f_sum :: "'f f32_ops \<Rightarrow> 'f list \<Rightarrow> 'f" where
  "f_sum F xs = fold (\<lambda>x acc. f_add F acc x) xs (f_rat F (0, 1))"

text \<open>\<open>b.score.partial_cmp(&a.score).unwrap_or(Ordering::Equal)\<close>: descending, NaN equal to anything.\<close>

definition desc_cmp :: "'f f32_ops \<Rightarrow> ('a \<Rightarrow> 'f) \<Rightarrow> 'a \<Rightarrow> 'a \<Rightarrow> ordering" where
  "desc_cmp F score a b = (case partial_cmp F (score b) (score a) of Some c \<Rightarrow> c | None \<Rightarrow> Equal)"

definition rank_desc :: "'f f32_ops \<Rightarrow> ('a \<Rightarrow> 'f) \<Rightarrow> 'a list \<Rightarrow> 'a list" where
  "rank_desc F score xs = sort_by (desc_cmp F score) xs"

text \<open>
  What is known of \<open>partial_cmp\<close>: on floats that are numbers it is the comparison of their values. The
  value of a float is an argument: \<open>None\<close> for NaN.
\<close>

definition cmp_law :: "'f f32_ops \<Rightarrow> ('f \<Rightarrow> rat option) \<Rightarrow> bool" where
  "cmp_law F val \<longleftrightarrow> (\<forall>a b. partial_cmp F a b =
     (case (val a, val b) of (Some x, Some y) \<Rightarrow> Some (compare_num x y) | _ \<Rightarrow> None))"

lemma desc_compares:
  assumes "cmp_law F val" "\<And>x. x \<in> A \<Longrightarrow> val (score x) \<noteq> None"
  shows "compares_by (desc_cmp F score) (\<lambda>x. - the (val (score x))) A"
  using assms by (fastforce simp: compares_by_def desc_cmp_def cmp_law_def compare_num_def split: option.splits)

text \<open>The first \<open>k\<close> of a ranking: in descending order, and nothing left out is better.\<close>

lemma rank_desc_top:
  assumes "cmp_law F val" "\<And>x. x \<in> set xs \<Longrightarrow> val (score x) \<noteq> None"
  defines "v \<equiv> \<lambda>x. the (val (score x))"
  shows "sorted_wrt (\<lambda>a b. v b \<le> v a) (take k (rank_desc F score xs))"
    and "y \<in> set (drop k (rank_desc F score xs)) \<Longrightarrow> x \<in> set (take k (rank_desc F score xs)) \<Longrightarrow> v y \<le> v x"
proof -
  have "sorted (map (\<lambda>x. - v x) (rank_desc F score xs))"
    unfolding rank_desc_def v_def using assms by (intro sort_by_key desc_compares) auto
  then have s: "sorted_wrt (\<lambda>a b. v b \<le> v a) (rank_desc F score xs)"
    by (simp add: sorted_map)
  then have "sorted_wrt (\<lambda>a b. v b \<le> v a) (take k (rank_desc F score xs) @ drop k (rank_desc F score xs))"
    by simp
  then show "sorted_wrt (\<lambda>a b. v b \<le> v a) (take k (rank_desc F score xs))"
    "y \<in> set (drop k (rank_desc F score xs)) \<Longrightarrow> x \<in> set (take k (rank_desc F score xs)) \<Longrightarrow> v y \<le> v x"
    unfolding sorted_wrt_append by auto
qed

lemma mset_rank_desc [simp]: "mset (rank_desc F score xs) = mset xs"
  by (simp add: rank_desc_def)

lemma set_rank_desc [simp]: "set (rank_desc F score xs) = set xs"
  by (simp add: rank_desc_def)

lemma length_rank_desc [simp]: "length (rank_desc F score xs) = length xs"
  by (simp add: rank_desc_def)

lemma distinct_map_rank_desc [simp]: "distinct (map f (rank_desc F score xs)) \<longleftrightarrow> distinct (map f xs)"
  by (simp add: rank_desc_def)

lemma distinct_map_take: "distinct (map f xs) \<Longrightarrow> distinct (map f (take k xs))"
  by (simp add: take_map [symmetric])

text \<open>Rational arithmetic as floats, for concrete runs.\<close>

definition rat_ops :: "rat f32_ops" where
  "rat_ops = \<lparr> f_rat = (\<lambda>(n, d). Fract n d), f_nat = rat_of_nat, f_add = (+), f_sub = (-), f_mul = (*), f_div = (/),
     f_max = max, f_sqrt = (\<lambda>x. x), f_ln = (\<lambda>x. x), f_abs = abs,
     partial_cmp = (\<lambda>a b. Some (compare_num a b)) \<rparr>"

lemma rat_ops_simps [simp]:
  "f_rat rat_ops (n, d) = Fract n d" "f_nat rat_ops k = rat_of_nat k" "f_add rat_ops a b = a + b" "f_sub rat_ops a b = a - b"
  "f_mul rat_ops a b = a * b" "f_div rat_ops a b = a / b" "f_abs rat_ops a = \<bar>a\<bar>"
  "f_le rat_ops a b \<longleftrightarrow> a \<le> b" "f_lt rat_ops a b \<longleftrightarrow> a < b" "f_eq rat_ops a b \<longleftrightarrow> a = b" "f_gt rat_ops a b \<longleftrightarrow> b < a"
  by (auto simp: rat_ops_def f_le_def f_lt_def f_eq_def f_gt_def compare_num_def)

lemma f_sum_rat: "f_sum rat_ops xs = sum_list xs"
proof -
  have "fold (\<lambda>x acc. acc + x) xs a = a + sum_list xs" for a :: rat
    by (induction xs arbitrary: a) auto
  then show ?thesis by (simp add: f_sum_def Fract_of_int_quotient)
qed

lemma cmp_law_rat [simp]: "cmp_law rat_ops Some"
  by (simp add: cmp_law_def rat_ops_def)

end
