(* ===== verification/Kb_Store.thy ===== *)
theory Kb_Store
  imports Doc_Tree Ranking
begin

text \<open>
  The knowledge store (\<open>sap-automate-kb/src/store.rs\<close>): the in-memory store with its content-hash
  deduplication and counters, its dense and BM25 searches, and the contract the retrieval engine
  relies on. Parameters: the content hash, the float operations, \<open>char::is_alphanumeric\<close> on a
  character, and the iteration order of a hash map (some permutation of its values).
\<close>

section \<open>Queries\<close>

datatype store_error = NotFoundDoc string | BackendError string | SerdeError string

record 'f upsert_batch =
  ub_documents :: "document list"
  ub_chunks :: "'f chunk list"

record 'f search_query =
  sq_text :: string
  sq_embedding :: "'f list option"
  sq_domains :: "domain list"
  sq_top_k :: nat

definition query_text :: "string \<Rightarrow> nat \<Rightarrow> 'f search_query" where
  "query_text t k = \<lparr> sq_text = t, sq_embedding = None, sq_domains = [], sq_top_k = k \<rparr>"

definition with_domain :: "domain \<Rightarrow> 'f search_query \<Rightarrow> 'f search_query" where
  "with_domain d q = q\<lparr> sq_domains := sq_domains q @ [d] \<rparr>"

definition with_embedding :: "'f list \<Rightarrow> 'f search_query \<Rightarrow> 'f search_query" where
  "with_embedding e q = q\<lparr> sq_embedding := Some e \<rparr>"

record 'f search_hit =
  sh_chunk :: "'f chunk"
  sh_score :: 'f

definition want_domain :: "'f search_query \<Rightarrow> domain \<Rightarrow> bool" where
  "want_domain q d \<longleftrightarrow> sq_domains q = [] \<or> d \<in> set (sq_domains q)"

section \<open>The in-memory store\<close>

record upsert_stats =
  us_chunks_written :: nat
  us_chunks_dedup_skipped :: nat
  us_documents_written :: nat

record 'f in_memory_kb =
  kb_documents :: "(string, document) amap"
  kb_chunks :: "(string, 'f chunk) amap"
  kb_content_hashes :: "(string, string) amap"
  kb_stats :: upsert_stats

definition kb_new :: "'f in_memory_kb" where
  "kb_new = \<lparr> kb_documents = [], kb_chunks = [], kb_content_hashes = [],
     kb_stats = \<lparr> us_chunks_written = 0, us_chunks_dedup_skipped = 0, us_documents_written = 0 \<rparr> \<rparr>"

definition insert_document :: "document \<Rightarrow> 'f in_memory_kb \<Rightarrow> 'f in_memory_kb" where
  "insert_document doc kb =
     kb\<lparr> kb_documents := amap_insert (doc_id doc) doc (kb_documents kb),
         kb_stats := (kb_stats kb)\<lparr> us_documents_written := us_documents_written (kb_stats kb) + 1 \<rparr> \<rparr>"

definition insert_chunk :: "(string \<Rightarrow> string) \<Rightarrow> 'f chunk \<Rightarrow> 'f in_memory_kb \<Rightarrow> 'f in_memory_kb" where
  "insert_chunk content_hash c kb =
     (let h = content_hash (ch_text c) in
      if map_of (kb_content_hashes kb) (ch_id c) = Some h
      then kb\<lparr> kb_stats := (kb_stats kb)\<lparr> us_chunks_dedup_skipped := us_chunks_dedup_skipped (kb_stats kb) + 1 \<rparr> \<rparr>
      else kb\<lparr> kb_content_hashes := amap_insert (ch_id c) h (kb_content_hashes kb),
               kb_chunks := amap_insert (ch_id c) c (kb_chunks kb),
               kb_stats := (kb_stats kb)\<lparr> us_chunks_written := us_chunks_written (kb_stats kb) + 1 \<rparr> \<rparr>)"

definition upsert :: "(string \<Rightarrow> string) \<Rightarrow> 'f upsert_batch \<Rightarrow> 'f in_memory_kb \<Rightarrow> 'f in_memory_kb" where
  "upsert content_hash b kb = fold (insert_chunk content_hash) (ub_chunks b) (fold insert_document (ub_documents b) kb)"

definition get_document :: "string \<Rightarrow> 'f in_memory_kb \<Rightarrow> document option" where
  "get_document i kb = map_of (kb_documents kb) i"

definition chunk_count :: "'f in_memory_kb \<Rightarrow> nat" where
  "chunk_count kb = length (kb_chunks kb)"

definition get_document_tree :: "string \<Rightarrow> 'f in_memory_kb \<Rightarrow> document_tree option" where
  "get_document_tree i kb = (case get_document i kb of None \<Rightarrow> None | Some doc \<Rightarrow> build_document_tree doc)"

section \<open>Searching\<close>

text \<open>\<open>tokenize\<close>: the characters seen so far of the current word are kept in order.\<close>

fun tokenize_loop :: "(string \<Rightarrow> bool) \<Rightarrow> string \<Rightarrow> string list \<Rightarrow> string list" where
  "tokenize_loop alnum current [] = (if length current \<ge> 2 then [current] else [])"
| "tokenize_loop alnum current (ch # cs) =
     (if alnum ch \<or> ch = ''_'' then tokenize_loop alnum (current @ ascii_lowercase ch) cs
      else if current \<noteq> [] then
        (if length current \<ge> 2 then current # tokenize_loop alnum [] cs else tokenize_loop alnum [] cs)
      else tokenize_loop alnum current cs)"

definition tokenize :: "(string \<Rightarrow> bool) \<Rightarrow> string \<Rightarrow> string list" where
  "tokenize alnum s = tokenize_loop alnum [] (utf8_chars s)"

definition cosine :: "'f f32_ops \<Rightarrow> 'f list \<Rightarrow> 'f list \<Rightarrow> 'f" where
  "cosine F a b =
     (case fold (\<lambda>(x, y) (dot, na, nb). (f_add F dot (f_mul F x y), f_add F na (f_mul F x x), f_add F nb (f_mul F y y)))
        (zip a b) (f_rat F (0, 1), f_rat F (0, 1), f_rat F (0, 1)) of
      (dot, na, nb) \<Rightarrow>
        f_div F dot (f_max F (f_mul F (f_sqrt F na) (f_sqrt F nb)) (f_rat F (1, 1000000000000))))"

type_synonym 'f iteration = "'f chunk list \<Rightarrow> 'f chunk list"

definition candidates :: "'f iteration \<Rightarrow> 'f search_query \<Rightarrow> 'f in_memory_kb \<Rightarrow> 'f chunk list" where
  "candidates it q kb = filter (\<lambda>c. want_domain q (ch_domain c)) (it (map snd (kb_chunks kb)))"

definition dense_hits :: "'f f32_ops \<Rightarrow> 'f list \<Rightarrow> 'f chunk list \<Rightarrow> 'f search_hit list" where
  "dense_hits F qe cs = List.map_filter (\<lambda>c. (case ch_embedding c of
      None \<Rightarrow> None
    | Some ce \<Rightarrow> if length ce \<noteq> length qe then None
               else Some \<lparr> sh_chunk = c, sh_score = cosine F ce qe \<rparr>)) cs"

definition dense_search ::
  "'f f32_ops \<Rightarrow> 'f iteration \<Rightarrow> 'f list \<Rightarrow> 'f search_query \<Rightarrow> 'f in_memory_kb \<Rightarrow> 'f search_hit list" where
  "dense_search F it qe q kb = take (sq_top_k q) (rank_desc F sh_score (dense_hits F qe (candidates it q kb)))"

text \<open>The BM25 score of a document with these term counts and length.\<close>

definition bm25_score :: "'f f32_ops \<Rightarrow> nat \<Rightarrow> (string \<Rightarrow> nat) \<Rightarrow> 'f \<Rightarrow> string list \<Rightarrow> string list \<Rightarrow> 'f" where
  "bm25_score F n df avg_dl query_terms doc =
     (let k1 = f_rat F (3, 2); b = f_rat F (3, 4); one = f_rat F (1, 1); half = f_rat F (1, 2);
          dl = f_nat F (length doc mod 2 ^ 32)
      in fold (\<lambda>term score.
           let f = f_nat F (count_list doc term mod 2 ^ 32) in
           if f_eq F f (f_rat F (0, 1)) then score
           else (let df_t = f_nat F (df term);
                     idf = f_ln F (f_add F (f_div F (f_add F (f_sub F (f_nat F n) df_t) half) (f_add F df_t half)) one);
                     denom = f_add F f (f_mul F k1 (f_add F (f_sub F one b) (f_div F (f_mul F b dl) avg_dl)))
                 in f_add F score (f_div F (f_mul F idf (f_mul F f (f_add F k1 one))) denom)))
         query_terms (f_rat F (0, 1)))"

definition bm25_hits ::
  "'f f32_ops \<Rightarrow> (string \<Rightarrow> bool) \<Rightarrow> string \<Rightarrow> 'f chunk list \<Rightarrow> 'f search_hit list" where
  "bm25_hits F alnum qtext cs =
     (let n = length cs; query_terms = tokenize alnum qtext; docs = map (\<lambda>c. tokenize alnum (ch_text c)) cs;
          avg_dl = f_div F (f_nat F (sum_list (map length docs) mod 2 ^ 32)) (f_nat F n);
          df = (\<lambda>term. length (filter (\<lambda>doc. term \<in> set doc) docs))
      in if n = 0 \<or> query_terms = [] \<or> f_eq F avg_dl (f_rat F (0, 1)) then []
         else filter (\<lambda>h. f_gt F (sh_score h) (f_rat F (0, 1)))
           (map (\<lambda>(c, doc). \<lparr> sh_chunk = c, sh_score = bm25_score F n df avg_dl query_terms doc \<rparr>) (zip cs docs)))"

definition bm25_search ::
  "'f f32_ops \<Rightarrow> (string \<Rightarrow> bool) \<Rightarrow> 'f iteration \<Rightarrow> 'f search_query \<Rightarrow> 'f in_memory_kb \<Rightarrow> 'f search_hit list" where
  "bm25_search F alnum it q kb =
     take (sq_top_k q) (rank_desc F sh_score (bm25_hits F alnum (sq_text q) (candidates it q kb)))"

definition kb_search ::
  "'f f32_ops \<Rightarrow> (string \<Rightarrow> bool) \<Rightarrow> 'f iteration \<Rightarrow> 'f search_query \<Rightarrow> 'f in_memory_kb \<Rightarrow> 'f search_hit list" where
  "kb_search F alnum it q kb =
     (case sq_embedding q of
        Some qe \<Rightarrow> dense_search F it qe q kb
      | None \<Rightarrow> bm25_search F alnum it q kb)"

definition kb_hybrid_search ::
  "'f f32_ops \<Rightarrow> (string \<Rightarrow> bool) \<Rightarrow> 'f iteration \<Rightarrow> 'f search_query \<Rightarrow> 'f in_memory_kb
    \<Rightarrow> (store_error, 'f search_hit list \<times> 'f search_hit list) result" where
  "kb_hybrid_search F alnum it q kb =
     Inr ((case sq_embedding q of Some qe \<Rightarrow> dense_search F it qe q kb | None \<Rightarrow> []), bm25_search F alnum it q kb)"

section \<open>The invariant of the store\<close>

definition kb_wf :: "(string \<Rightarrow> string) \<Rightarrow> 'f in_memory_kb \<Rightarrow> bool" where
  "kb_wf content_hash kb \<longleftrightarrow>
     amap_wf (kb_documents kb) \<and> amap_wf (kb_chunks kb) \<and> amap_wf (kb_content_hashes kb) \<and>
     list_all (\<lambda>(i, d). doc_id d = i) (kb_documents kb) \<and> list_all (\<lambda>(i, c). ch_id c = i) (kb_chunks kb) \<and>
     map_of (kb_content_hashes kb) = map_option (content_hash \<circ> ch_text) \<circ> map_of (kb_chunks kb)"

lemma amap_insert_set: "set (amap_insert k v m) \<subseteq> insert (k, v) (set m)"
  by (induction m) (auto split: if_splits)

lemma kb_wf_new [simp]: "kb_wf h kb_new"
  by (auto simp: kb_wf_def kb_new_def fun_eq_iff)

lemma kb_wf_insert_document: "kb_wf h kb \<Longrightarrow> kb_wf h (insert_document d kb)"
  using amap_insert_set [of "doc_id d" d "kb_documents kb"]
  by (auto simp: kb_wf_def insert_document_def list_all_iff)

lemma kb_wf_insert_chunk: "kb_wf h kb \<Longrightarrow> kb_wf h (insert_chunk h c kb)"
  using amap_insert_set [of "ch_id c" c "kb_chunks kb"]
  by (auto simp: kb_wf_def insert_chunk_def Let_def list_all_iff fun_eq_iff)

lemma fold_insert_document_wf: "kb_wf h kb \<Longrightarrow> kb_wf h (fold insert_document ds kb)"
  by (induction ds arbitrary: kb) (auto simp: kb_wf_insert_document)

lemma fold_insert_chunk_wf: "kb_wf h kb \<Longrightarrow> kb_wf h (fold (insert_chunk h) cs kb)"
  by (induction cs arbitrary: kb) (auto simp: kb_wf_insert_chunk)

lemma upsert_wf: "kb_wf h kb \<Longrightarrow> kb_wf h (upsert h b kb)"
  by (simp add: upsert_def fold_insert_document_wf fold_insert_chunk_wf)

section \<open>Writing\<close>

text \<open>Chunks do not touch documents, and documents do not touch chunks.\<close>

lemma insert_frame [simp]:
  "kb_documents (insert_chunk h c kb) = kb_documents kb" "kb_chunks (insert_document d kb) = kb_chunks kb"
  "us_documents_written (kb_stats (insert_chunk h c kb)) = us_documents_written (kb_stats kb)"
  by (simp_all add: insert_chunk_def insert_document_def Let_def)

lemma fold_frame [simp]:
  "kb_documents (fold (insert_chunk h) cs kb) = kb_documents kb" "kb_chunks (fold insert_document ds kb) = kb_chunks kb"
  "kb_content_hashes (fold insert_document ds kb) = kb_content_hashes kb"
proof -
  show "kb_documents (fold (insert_chunk h) cs kb) = kb_documents kb"
    by (induction cs arbitrary: kb) simp_all
  show "kb_chunks (fold insert_document ds kb) = kb_chunks kb"
    "kb_content_hashes (fold insert_document ds kb) = kb_content_hashes kb"
    by (induction ds arbitrary: kb) (simp_all add: insert_document_def)
qed

lemma stored_documents:
  "kb_wf h kb \<Longrightarrow> map_of (kb_documents (fold insert_document ds kb)) =
     map_of (kb_documents kb) ++ map_of (rev (map (\<lambda>d. (doc_id d, d)) ds))"
proof (induction ds arbitrary: kb)
  case (Cons d ds)
  have "map_of (kb_documents (insert_document d kb)) = (map_of (kb_documents kb))(doc_id d \<mapsto> d)"
    using Cons.prems by (simp add: insert_document_def kb_wf_def)
  then show ?case
    using Cons.IH [OF kb_wf_insert_document [OF Cons.prems, of d]] by (simp del: fun_upd_apply)
qed simp

text \<open>
  The text stored for an id is that of the last chunk with that id, if different texts have different
  hashes. The rest of a chunk is that of the last one that changed the text.
\<close>

definition stored_text :: "'f in_memory_kb \<Rightarrow> string \<rightharpoonup> string" where
  "stored_text kb i = map_option ch_text (map_of (kb_chunks kb) i)"

lemma stored_text_insert:
  assumes "kb_wf h kb" "\<And>t. stored_text kb (ch_id c) = Some t \<Longrightarrow> h t = h (ch_text c) \<Longrightarrow> t = ch_text c"
  shows "stored_text (insert_chunk h c kb) = (stored_text kb)(ch_id c \<mapsto> ch_text c)"
proof (cases "map_of (kb_content_hashes kb) (ch_id c) = Some (h (ch_text c))")
  case True
  then obtain c' where "map_of (kb_chunks kb) (ch_id c) = Some c'" "h (ch_text c') = h (ch_text c)"
    using assms(1) by (auto simp: kb_wf_def)
  then show ?thesis
    using True assms(2) by (auto simp: stored_text_def insert_chunk_def fun_eq_iff)
next
  case False
  then show ?thesis
    using assms(1) by (auto simp: stored_text_def insert_chunk_def Let_def kb_wf_def fun_eq_iff)
qed

lemma stored_texts:
  "kb_wf h kb \<Longrightarrow> inj_on h (ran (stored_text kb) \<union> ch_text ` set cs) \<Longrightarrow>
     stored_text (fold (insert_chunk h) cs kb) = stored_text kb ++ map_of (rev (map (\<lambda>c. (ch_id c, ch_text c)) cs))"
proof (induction cs arbitrary: kb)
  case (Cons c cs)
  have step: "stored_text (insert_chunk h c kb) = (stored_text kb)(ch_id c \<mapsto> ch_text c)"
  proof (rule stored_text_insert)
    fix t
    assume "stored_text kb (ch_id c) = Some t" "h t = h (ch_text c)"
    then show "t = ch_text c"
      using inj_onD [OF Cons.prems(2), of t "ch_text c"] by (simp add: ranI)
  qed (rule Cons.prems(1))
  have "inj_on h (ran (stored_text (insert_chunk h c kb)) \<union> ch_text ` set cs)"
    unfolding step using Cons.prems(2) by (rule inj_on_subset) (auto simp: ran_def)
  then show ?case
    using Cons.IH [OF kb_wf_insert_chunk [OF Cons.prems(1), of c]] step by (simp del: fun_upd_apply)
qed simp

lemma chunk_counters:
  "us_chunks_written (kb_stats (fold (insert_chunk h) cs kb)) + us_chunks_dedup_skipped (kb_stats (fold (insert_chunk h) cs kb))
     = us_chunks_written (kb_stats kb) + us_chunks_dedup_skipped (kb_stats kb) + length cs"
  by (induction cs arbitrary: kb) (simp_all add: insert_chunk_def Let_def)

lemma document_counters [simp]:
  "us_chunks_written (kb_stats (fold insert_document ds kb)) = us_chunks_written (kb_stats kb)"
  "us_chunks_dedup_skipped (kb_stats (fold insert_document ds kb)) = us_chunks_dedup_skipped (kb_stats kb)"
  by (induction ds arbitrary: kb) (simp_all add: insert_document_def)

text \<open>A run of batches is one fold over its documents and one over its chunks.\<close>

lemma upserts_text:
  "kb_wf h kb \<Longrightarrow> inj_on h (ran (stored_text kb) \<union> ch_text ` set (concat (map ub_chunks bs))) \<Longrightarrow>
     stored_text (fold (upsert h) bs kb)
       = stored_text kb ++ map_of (rev (map (\<lambda>c. (ch_id c, ch_text c)) (concat (map ub_chunks bs))))"
proof (induction bs arbitrary: kb)
  case (Cons b bs)
  let ?kb = "fold insert_document (ub_documents b) kb"
  have wf: "kb_wf h ?kb" using Cons.prems(1) by (rule fold_insert_document_wf)
  have same: "stored_text ?kb = stored_text kb" by (simp add: stored_text_def fun_eq_iff)
  have step: "stored_text (upsert h b kb) = stored_text kb ++ map_of (rev (map (\<lambda>c. (ch_id c, ch_text c)) (ub_chunks b)))"
    unfolding upsert_def same [symmetric] using Cons.prems(2)
    by (intro stored_texts wf) (auto simp: same intro: inj_on_subset)
  have "ran (stored_text (upsert h b kb)) \<subseteq> ran (stored_text kb) \<union> ch_text ` set (ub_chunks b)"
    unfolding step by (auto simp: ran_def map_add_Some_iff dest!: map_of_SomeD)
  then have "inj_on h (ran (stored_text (upsert h b kb)) \<union> ch_text ` set (concat (map ub_chunks bs)))"
    by (intro inj_on_subset [OF Cons.prems(2)]) auto
  then show ?case
    using Cons.IH [OF upsert_wf [OF Cons.prems(1)]] step by (simp add: map_add_assoc)
qed simp

lemma upserts_documents:
  "kb_wf h kb \<Longrightarrow> map_of (kb_documents (fold (upsert h) bs kb)) =
     map_of (kb_documents kb) ++ map_of (rev (map (\<lambda>d. (doc_id d, d)) (concat (map ub_documents bs))))"
proof (induction bs arbitrary: kb)
  case (Cons b bs)
  then show ?case
    using Cons.IH [OF upsert_wf [OF Cons.prems]] stored_documents [OF Cons.prems, of "ub_documents b"]
    by (simp add: upsert_def map_add_assoc)
qed simp

lemma upserts_counters:
  "us_chunks_written (kb_stats (fold (upsert h) bs kb)) + us_chunks_dedup_skipped (kb_stats (fold (upsert h) bs kb))
     = us_chunks_written (kb_stats kb) + us_chunks_dedup_skipped (kb_stats kb) + length (concat (map ub_chunks bs))"
  by (induction bs arbitrary: kb) (simp_all add: upsert_def chunk_counters)

lemma upserts_wf: "kb_wf h kb \<Longrightarrow> kb_wf h (fold (upsert h) bs kb)"
  by (induction bs arbitrary: kb) (simp_all add: upsert_wf)

lemma stored_text_new [simp]: "stored_text kb_new = Map.empty" "kb_documents kb_new = []"
  by (simp_all add: stored_text_def kb_new_def fun_eq_iff)

lemma chunk_count_ids: "kb_wf h kb \<Longrightarrow> chunk_count kb = card (dom (stored_text kb))"
proof -
  assume "kb_wf h kb"
  then have "distinct (map fst (kb_chunks kb))"
    by (simp add: kb_wf_def amap_wf_distinct)
  moreover have "dom (stored_text kb) = set (map fst (kb_chunks kb))"
    by (auto simp: stored_text_def dom_def dom_map_of_conv_image_fst [symmetric])
  ultimately show ?thesis
    by (metis chunk_count_def distinct_card length_map)
qed

text \<open>
  C22. After any sequence of upserts, if no two of the texts have the same hash, the text stored for an
  id is that of the last chunk with that id, the document stored for an id is the last one with that
  id, there are as many chunks as distinct ids, and every chunk was counted as written or as skipped.
\<close>

theorem upsert_last_text_wins:
  assumes "inj_on content_hash (ch_text ` set (concat (map ub_chunks bs)))"
  shows "let kb = fold (upsert content_hash) bs kb_new; cs = concat (map ub_chunks bs);
             ds = concat (map ub_documents bs)
         in (map_option ch_text \<circ> map_of (kb_chunks kb)) = map_of (rev (map (\<lambda>c. (ch_id c, ch_text c)) cs)) \<and>
            (\<lambda>i. get_document i kb) = map_of (rev (map (\<lambda>d. (doc_id d, d)) ds)) \<and>
            chunk_count kb = card (ch_id ` set cs) \<and>
            us_chunks_written (kb_stats kb) + us_chunks_dedup_skipped (kb_stats kb) = length cs"
proof -
  let ?kb = "fold (upsert content_hash) bs kb_new"
  let ?cs = "concat (map ub_chunks bs)"
  have t: "stored_text ?kb = map_of (rev (map (\<lambda>c. (ch_id c, ch_text c)) ?cs))"
    using upserts_text [OF kb_wf_new, of content_hash bs] assms by simp
  have "dom (stored_text ?kb) = ch_id ` set ?cs"
    unfolding t by (simp add: dom_map_of_conv_image_fst image_image)
  then have "chunk_count ?kb = card (ch_id ` set ?cs)"
    using chunk_count_ids [OF upserts_wf [OF kb_wf_new]] by metis
  moreover have "(map_option ch_text \<circ> map_of (kb_chunks ?kb)) = stored_text ?kb"
    by (simp add: stored_text_def fun_eq_iff)
  ultimately show ?thesis
    using t upserts_documents [OF kb_wf_new, of content_hash bs] upserts_counters [of content_hash bs kb_new]
    by (simp add: Let_def get_document_def) (simp add: kb_new_def)
qed

text \<open>Two versions of one chunk and a second one: the later text is the one stored.\<close>

definition sample_chunk :: "string \<Rightarrow> domain \<Rightarrow> string \<Rightarrow> 'f list option \<Rightarrow> 'f chunk" where
  "sample_chunk i d t e = \<lparr> ch_id = i, ch_document_id = collection d @ '':doc1'', ch_domain = d, ch_ordinal = 0, ch_text = t,
     ch_embedding = e, ch_breadcrumbs = [], ch_title = ''T'', ch_uri = ''u'' \<rparr>"

theorem upsert_last_text_wins_witness:
  "stored_text (fold (upsert id)
     [\<lparr> ub_documents = [], ub_chunks = [sample_chunk ''c-1'' SapHelp ''v1'' (None :: rat list option)] \<rparr>,
      \<lparr> ub_documents = [], ub_chunks = [sample_chunk ''c-1'' SapHelp ''v2'' None] \<rparr>] kb_new) ''c-1'' = Some ''v2''"
  using upsert_last_text_wins [where content_hash = id and bs =
    "[\<lparr> ub_documents = [], ub_chunks = [sample_chunk ''c-1'' SapHelp ''v1'' (None :: rat list option)] \<rparr>,
      \<lparr> ub_documents = [], ub_chunks = [sample_chunk ''c-1'' SapHelp ''v2'' None] \<rparr>]"]
  by (simp add: Let_def sample_chunk_def stored_text_def fun_eq_iff)

section \<open>Results of a search\<close>

text \<open>
  What a ranking of chunks promises: chunks of the corpus in the wanted domains, each at most once, at
  most as many as asked for, in descending score, and no candidate left out that scores higher.
\<close>

definition good_ranking ::
  "('f \<Rightarrow> rat option) \<Rightarrow> 'f search_hit list \<Rightarrow> 'f search_query \<Rightarrow> 'f search_hit list \<Rightarrow> bool" where
  "good_ranking val pool q hits \<longleftrightarrow>
     set hits \<subseteq> set pool \<and> length hits \<le> sq_top_k q \<and> distinct (map (ch_id \<circ> sh_chunk) hits) \<and>
     list_all (\<lambda>h. want_domain q (ch_domain (sh_chunk h))) hits \<and>
     sorted_wrt (\<lambda>a b. the (val (sh_score b)) \<le> the (val (sh_score a))) hits \<and>
     list_all (\<lambda>h. h \<in> set hits \<or> length hits = sq_top_k q \<and>
        list_all (\<lambda>g. the (val (sh_score h)) \<le> the (val (sh_score g))) hits) pool"

lemma good_ranking_top:
  assumes law: "cmp_law F val" "list_all (\<lambda>h. val (sh_score h) \<noteq> None) pool"
    and pool: "distinct (map (ch_id \<circ> sh_chunk) pool)" "list_all (\<lambda>h. want_domain q (ch_domain (sh_chunk h))) pool"
  shows "good_ranking val pool q (take (sq_top_k q) (rank_desc F sh_score pool))"
proof -
  let ?r = "rank_desc F sh_score pool"
  let ?k = "sq_top_k q"
  have num: "\<And>h. h \<in> set pool \<Longrightarrow> val (sh_score h) \<noteq> None"
    using law(2) by (simp add: list_all_iff)
  note top = rank_desc_top [OF law(1), of pool sh_score, OF num]
  have sub: "set (take ?k ?r) \<subseteq> set pool"
    using set_take_subset [of ?k ?r] by simp
  have "h \<in> set (take ?k ?r) \<or> length (take ?k ?r) = ?k \<and>
      list_all (\<lambda>g. the (val (sh_score h)) \<le> the (val (sh_score g))) (take ?k ?r)" if "h \<in> set pool" for h
  proof -
    have "h \<in> set (take ?k ?r @ drop ?k ?r)" using that by simp
    then consider "h \<in> set (take ?k ?r)" | "h \<in> set (drop ?k ?r)"
      unfolding set_append by blast
    then show ?thesis
    proof cases
      case 2
      then have "?k < length ?r" by (metis drop_all empty_iff list.set(1) not_le)
      then show ?thesis using 2 top(2) by (auto simp: list_all_iff)
    qed simp
  qed
  moreover have "distinct (map (ch_id \<circ> sh_chunk) (take ?k ?r))"
    using pool(1) by (intro distinct_map_take) simp
  ultimately show ?thesis
    using sub pool(2) top(1) unfolding good_ranking_def by (auto simp: list_all_iff)
qed

text \<open>The iteration order of the hash map of chunks: some permutation of its values.\<close>

definition iterates :: "'f iteration \<Rightarrow> 'f in_memory_kb \<Rightarrow> bool" where
  "iterates it kb \<longleftrightarrow> mset (it (map snd (kb_chunks kb))) = mset (map snd (kb_chunks kb))"

lemma candidate_ids:
  assumes "kb_wf h kb" "iterates it kb"
  shows "distinct (map ch_id (candidates it q kb))" "set (candidates it q kb) \<subseteq> snd ` set (kb_chunks kb)"
    "c \<in> set (candidates it q kb) \<Longrightarrow> want_domain q (ch_domain c)"
proof -
  have "map ch_id (map snd (kb_chunks kb)) = map fst (kb_chunks kb)"
    using assms(1) by (auto simp: kb_wf_def list_all_iff)
  then have "distinct (map ch_id (map snd (kb_chunks kb)))"
    using assms(1) unfolding kb_wf_def by (metis amap_wf_distinct)
  then have "distinct (map ch_id (it (map snd (kb_chunks kb))))"
    using assms(2) unfolding iterates_def by (metis mset_eq_imp_distinct_iff mset_map)
  then show "distinct (map ch_id (candidates it q kb))"
    by (simp add: candidates_def distinct_map_filter)
  show "set (candidates it q kb) \<subseteq> snd ` set (kb_chunks kb)"
    using assms(2) mset_eq_setD [of "it (map snd (kb_chunks kb))" "map snd (kb_chunks kb)"]
    by (auto simp: candidates_def iterates_def)
  show "c \<in> set (candidates it q kb) \<Longrightarrow> want_domain q (ch_domain c)"
    by (simp add: candidates_def)
qed

lemma subseq_set_mono: "subseq xs ys \<Longrightarrow> set xs \<subseteq> set ys"
  by (auto dest: list_emb_set)

lemma subseq_distinct: "subseq xs ys \<Longrightarrow> distinct ys \<Longrightarrow> distinct xs"
  by (induction rule: list_emb.induct) (auto dest: subseq_set_mono)

lemma dense_hits_chunks: "subseq (map sh_chunk (dense_hits F qe cs)) cs"
  by (induction cs) (auto simp: dense_hits_def List.map_filter_simps split: option.split)

lemma bm25_hits_chunks: "subseq (map sh_chunk (bm25_hits F alnum t cs)) cs"
proof -
  have sub: "subseq (map sh_chunk (filter P (map (\<lambda>(c, d). \<lparr> sh_chunk = c, sh_score = g d \<rparr>) (zip cs (map f cs))))) cs"
    for P g f
    by (induction cs) auto
  show ?thesis
    unfolding bm25_hits_def Let_def by (auto simp only: list.map list_emb_Nil sub split: if_split)
qed

lemma hits_wf:
  assumes "subseq (map sh_chunk hs) (candidates it q kb)" "kb_wf h kb"
    "iterates it kb"
  shows "distinct (map (ch_id \<circ> sh_chunk) hs)" "list_all (\<lambda>h. want_domain q (ch_domain (sh_chunk h))) hs"
proof -
  note c = candidate_ids [OF assms(2,3)]
  have "subseq (map ch_id (map sh_chunk hs)) (map ch_id (candidates it q kb))"
    using assms(1) by (rule subseq_map)
  then show "distinct (map (ch_id \<circ> sh_chunk) hs)"
    using c(1) by (auto dest: subseq_distinct)
  show "list_all (\<lambda>h. want_domain q (ch_domain (sh_chunk h))) hs"
    using c(3) subseq_set_mono [OF assms(1)] by (auto simp: list_all_iff)
qed


section \<open>The contract of a store\<close>

text \<open>
  What the retrieval engine relies on: both rankings of \<open>hybrid_search\<close> consist of stored chunks of
  the wanted domains, each chunk at most once, at most \<open>top_k\<close> of them.
\<close>

definition hits_of :: "'f chunk set \<Rightarrow> 'f search_query \<Rightarrow> 'f search_hit list \<Rightarrow> bool" where
  "hits_of cs q hits \<longleftrightarrow> sh_chunk ` set hits \<subseteq> cs \<and> distinct (map (ch_id \<circ> sh_chunk) hits) \<and>
     list_all (\<lambda>h. want_domain q (ch_domain (sh_chunk h))) hits \<and> length hits \<le> sq_top_k q"

locale knowledge_store =
  fixes inv :: "'s \<Rightarrow> bool" and stored :: "'s \<Rightarrow> 'f chunk set"
    and hybrid :: "'f search_query \<Rightarrow> 's \<Rightarrow> (store_error, 'f search_hit list \<times> 'f search_hit list) result"
  assumes stored_ids: "inv s \<Longrightarrow> c \<in> stored s \<Longrightarrow> d \<in> stored s \<Longrightarrow> ch_id c = ch_id d \<Longrightarrow> c = d"
    and hybrid_dense: "inv s \<Longrightarrow> hybrid q s = Inr (dense, sparse) \<Longrightarrow> hits_of (stored s) q dense"
    and hybrid_sparse: "inv s \<Longrightarrow> hybrid q s = Inr (dense, sparse) \<Longrightarrow> hits_of (stored s) q sparse"

definition kb_stored :: "'f in_memory_kb \<times> 'f iteration \<Rightarrow> 'f chunk set" where
  "kb_stored s = snd ` set (kb_chunks (fst s))"

lemma hits_of_take_rank:
  assumes "subseq (map sh_chunk hs) (candidates it q kb)" "kb_wf h kb" "iterates it kb"
  shows "hits_of (kb_stored (kb, it)) q (take (sq_top_k q) (rank_desc F sh_score hs))"
proof -
  note w = hits_wf [OF assms]
  have sub: "set (take (sq_top_k q) (rank_desc F sh_score hs)) \<subseteq> set hs"
    using set_take_subset [of "sq_top_k q" "rank_desc F sh_score hs"] by simp
  moreover have "sh_chunk ` set hs \<subseteq> kb_stored (kb, it)"
    using subseq_set_mono [OF assms(1)] candidate_ids(2) [OF assms(2,3), of q] by (auto simp: kb_stored_def)
  moreover have "distinct (map (ch_id \<circ> sh_chunk) (take (sq_top_k q) (rank_desc F sh_score hs)))"
    using w(1) by (intro distinct_map_take) simp
  ultimately show ?thesis
    using w(2) unfolding hits_of_def list_all_iff by auto
qed

interpretation mem: knowledge_store
  "\<lambda>(kb, it). kb_wf h kb \<and> iterates it kb" kb_stored "\<lambda>q (kb, it). kb_hybrid_search F alnum it q kb"
  for h and F :: "'f f32_ops" and alnum
proof
  fix s :: "'f in_memory_kb \<times> 'f iteration" and c d q dense sparse
  obtain kb it where s: "s = (kb, it)" by (cases s)
  assume inv: "(case s of (kb, it) \<Rightarrow> kb_wf h kb \<and> iterates it kb)"
  {
    assume "c \<in> kb_stored s" "d \<in> kb_stored s" "ch_id c = ch_id d"
    moreover have "ch_id e = i" if "(i, e) \<in> set (kb_chunks kb)" for i e
      using inv that by (auto simp: s kb_wf_def list_all_iff)
    ultimately have "(ch_id c, c) \<in> set (kb_chunks kb)" "(ch_id c, d) \<in> set (kb_chunks kb)"
      by (auto simp: s kb_stored_def)
    then show "c = d"
      using inv eq_key_imp_eq_value [of "kb_chunks kb" "ch_id c" c d] by (auto simp: s kb_wf_def amap_wf_distinct)
  }
  assume ok: "(case s of (kb, it) \<Rightarrow> kb_hybrid_search F alnum it q kb) = Inr (dense, sparse)"
  have "hits_of (kb_stored s) q (dense_search F it qe q kb)" for qe
    unfolding dense_search_def s using inv dense_hits_chunks by (intro hits_of_take_rank) (auto simp: s)
  moreover have "hits_of (kb_stored s) q []" by (simp add: hits_of_def)
  ultimately show "hits_of (kb_stored s) q dense"
    using ok by (auto simp: s kb_hybrid_search_def split: option.splits)
  have "hits_of (kb_stored s) q (bm25_search F alnum it q kb)"
    unfolding bm25_search_def s using inv bm25_hits_chunks by (intro hits_of_take_rank) (auto simp: s)
  then show "hits_of (kb_stored s) q sparse"
    using ok by (auto simp: s kb_hybrid_search_def)
qed


definition sample_kb :: "rat in_memory_kb" where
  "sample_kb = fold (insert_chunk id) [sample_chunk ''near'' SapHelp ''x'' (Some [1, 0]), sample_chunk ''far'' SapHelp ''y'' (Some [0, 1])] kb_new"

lemma sample_kb_wf: "kb_wf id sample_kb"
  unfolding sample_kb_def by (intro fold_insert_chunk_wf kb_wf_new)


end
