(* ===== verification/Retrieval.thy ===== *)
theory Retrieval
  imports Kb_Store
begin

text \<open>
  The retrieval engine (\<open>sap-automate-rag/src/lib.rs\<close>, \<open>rerank.rs\<close>): fusion of the two rankings of a
  store, reranking, and the packed response. The latency fields of a response are clock readings and
  are left out. The store is an argument (what it promises is the contract of \<open>Kb_Store\<close>), and so are
  the float operations, the Unicode classes of characters and the iteration order of hash maps.
\<close>

section \<open>Data\<close>

datatype rag_layer = Hybrid | GraphRag | HippoRag | Raptor

record 'f rag_query =
  rq_text :: string
  rq_domain :: "domain option"
  rq_top_k :: nat
  rq_embedding :: "'f list option"

record retrieval_diagnostics =
  rd_dense_candidates :: nat
  rd_sparse_candidates :: nat
  rd_rrf_overlap :: nat
  rd_query_terms :: "string list"
  rd_reranked :: bool
  rd_truncated :: bool

record 'f hit_view =
  hv_document_id :: string
  hv_uri :: string
  hv_title :: string
  hv_snippet :: string
  hv_score :: 'f

record 'f rag_response =
  rr_hits :: "'f hit_view list"
  rr_layer :: rag_layer
  rr_diagnostics :: retrieval_diagnostics

record 'f reranker_candidate =
  rc_chunk_text :: string
  rc_base_score :: 'f

record 'f reranked_item =
  ri_idx :: nat
  ri_score :: 'f

type_synonym 'f reranker = "string \<Rightarrow> 'f reranker_candidate list \<Rightarrow> 'f reranked_item list"

record 'f rag_engine =
  re_reranker :: "'f reranker option"
  re_rrf_k :: 'f
  re_candidate_pool :: nat

definition rag_engine_new :: "'f f32_ops \<Rightarrow> 'f rag_engine" where
  "rag_engine_new F = \<lparr> re_reranker = None, re_rrf_k = f_rat F (60, 1), re_candidate_pool = 40 \<rparr>"

definition with_reranker :: "'f reranker \<Rightarrow> 'f rag_engine \<Rightarrow> 'f rag_engine" where
  "with_reranker r e = e\<lparr> re_reranker := Some r \<rparr>"

definition with_rrf_k :: "'f f32_ops \<Rightarrow> 'f \<Rightarrow> 'f rag_engine \<Rightarrow> 'f rag_engine" where
  "with_rrf_k F k e = e\<lparr> re_rrf_k := f_max F k (f_rat F (1, 1)) \<rparr>"

definition with_candidate_pool :: "nat \<Rightarrow> 'f rag_engine \<Rightarrow> 'f rag_engine" where
  "with_candidate_pool n e = e\<lparr> re_candidate_pool := max n 1 \<rparr>"

definition truncate_chars :: "nat \<Rightarrow> string \<Rightarrow> string" where
  "truncate_chars n s =
     (let cs = utf8_chars s in if length cs \<le> n then s else concat (take n cs) @ ellipsis)"

definition hit_view_of :: "'f search_hit \<Rightarrow> 'f hit_view" where
  "hit_view_of h = \<lparr> hv_document_id = ch_document_id (sh_chunk h), hv_uri = ch_uri (sh_chunk h),
     hv_title = ch_title (sh_chunk h), hv_snippet = truncate_chars 220 (ch_text (sh_chunk h)), hv_score = sh_score h \<rparr>"

section \<open>Fusion\<close>

definition rank_overlap :: "'f search_hit list \<Rightarrow> 'f search_hit list \<Rightarrow> nat" where
  "rank_overlap dense sparse =
     (if dense = [] \<or> sparse = [] then 0
      else length (filter (\<lambda>h. ch_id (sh_chunk h) \<in> (ch_id \<circ> sh_chunk) ` set dense) sparse))"

definition tokenize_query :: "(string \<Rightarrow> bool) \<Rightarrow> string \<Rightarrow> string list" where
  "tokenize_query alnum s = tokenize_loop alnum [] (utf8_chars s)"

definition contribution :: "'f f32_ops \<Rightarrow> 'f \<Rightarrow> nat \<Rightarrow> 'f" where
  "contribution F k rank = f_div F (f_rat F (1, 1)) (f_add F (f_add F k (f_nat F rank)) (f_rat F (1, 1)))"

type_synonym 'f fused = "(string, 'f \<times> 'f search_hit) amap"

definition fuse_hit :: "'f f32_ops \<Rightarrow> 'f \<Rightarrow> nat \<times> 'f search_hit \<Rightarrow> 'f fused \<Rightarrow> 'f fused" where
  "fuse_hit F k = (\<lambda>(rank, h) m.
     let contrib = contribution F k rank; key = ch_id (sh_chunk h)
     in case map_of m key of
          Some (s, h0) \<Rightarrow> amap_insert key (f_add F s contrib, h0) m
        | None \<Rightarrow> amap_insert key (contrib, h) m)"

definition fuse :: "'f f32_ops \<Rightarrow> 'f \<Rightarrow> 'f search_hit list \<Rightarrow> 'f fused \<Rightarrow> 'f fused" where
  "fuse F k hits m = fold (fuse_hit F k) (enumerate 0 hits) m"

type_synonym 'f fused_order = "('f \<times> 'f search_hit) list \<Rightarrow> ('f \<times> 'f search_hit) list"

definition reciprocal_rank_fusion ::
  "'f f32_ops \<Rightarrow> 'f fused_order \<Rightarrow> 'f search_hit list \<Rightarrow> 'f search_hit list \<Rightarrow> 'f \<Rightarrow> nat \<Rightarrow> 'f search_hit list" where
  "reciprocal_rank_fusion F it dense sparse k cap =
     (let m = fuse F k sparse (fuse F k dense []);
          out = map (\<lambda>(score, h). h\<lparr> sh_score := score \<rparr>) (it (map snd m))
      in take cap (rank_desc F sh_score out))"

section \<open>Reranking\<close>

text \<open>\<open>split\<close> at the characters that are neither alphanumeric nor an underscore.\<close>

fun split_words :: "(string \<Rightarrow> bool) \<Rightarrow> string \<Rightarrow> string list \<Rightarrow> string list" where
  "split_words alnum current [] = [current]"
| "split_words alnum current (c # cs) =
     (if \<not> alnum c \<and> c \<noteq> ''_'' then current # split_words alnum [] cs else split_words alnum (current @ c) cs)"

definition word_tokens :: "(string \<Rightarrow> bool) \<Rightarrow> string \<Rightarrow> string list" where
  "word_tokens alnum s = filter (\<lambda>t. length t \<ge> 2) (split_words alnum [] (utf8_chars s))"

definition mock_rerank_score ::
  "'f f32_ops \<Rightarrow> (string \<Rightarrow> bool) \<Rightarrow> string list \<Rightarrow> string list \<Rightarrow> nat \<Rightarrow> 'f reranker_candidate \<Rightarrow> 'f" where
  "mock_rerank_score F alnum q_tokens q_identifiers idx c =
     (let body_tokens = word_tokens alnum (rc_chunk_text c);
          overlap = f_nat F (length (filter (\<lambda>t. t \<in> set body_tokens) q_tokens));
          ident_bonus = f_mul F (f_nat F (length (filter (\<lambda>t. contains_sub (rc_chunk_text c) t \<or>
              contains_sub (ascii_uppercase (rc_chunk_text c)) (ascii_uppercase t)) q_identifiers))) (f_rat F (1, 2));
          pos_decay = f_div F (f_rat F (1, 1)) (f_add F (f_rat F (1, 1)) (f_mul F (f_nat F idx) (f_rat F (1, 20))))
      in f_add F (f_add F (f_add F overlap ident_bonus) (f_mul F (f_rat F (1, 10)) (rc_base_score c))) pos_decay)"

definition mock_rerank ::
  "'f f32_ops \<Rightarrow> (string \<Rightarrow> bool) \<Rightarrow> (string \<Rightarrow> bool) \<Rightarrow> 'f reranker" where
  "mock_rerank F alnum upper query cands =
     (let q_tokens = word_tokens alnum query;
          q_identifiers = filter (\<lambda>t. length t \<ge> 3 \<and> list_ex (\<lambda>c. upper c \<or> c = ''_'') (utf8_chars t)) q_tokens;
          scored = map (\<lambda>(idx, c). \<lparr> ri_idx = idx, ri_score = mock_rerank_score F alnum q_tokens q_identifiers idx c \<rparr>)
            (enumerate 0 cands)
      in rank_desc F ri_score scored)"

section \<open>The pipeline\<close>

text \<open>\<open>candidate_query\<close>: what the engine asks the store.\<close>

definition candidate_query :: "'f rag_engine \<Rightarrow> 'f rag_query \<Rightarrow> 'f search_query" where
  "candidate_query e q =
     (let k = query_text (rq_text q) (re_candidate_pool e);
          k = (case rq_domain q of Some d \<Rightarrow> with_domain d k | None \<Rightarrow> k)
      in case rq_embedding q of Some v \<Rightarrow> with_embedding v k | None \<Rightarrow> k)"

definition apply_order :: "'f f32_ops \<Rightarrow> 'f search_hit list \<Rightarrow> 'f reranked_item list \<Rightarrow> 'f search_hit list" where
  "apply_order F fused order = List.map_filter (\<lambda>(rank, item).
     if ri_idx item < length fused then
       Some ((fused ! ri_idx item)\<lparr> sh_score := f_add F (ri_score item)
          (f_mul F (f_rat F (1, 1000000)) (f_sub F (f_nat F (length fused)) (f_nat F rank))) \<rparr>)
     else None) (enumerate 0 order)"

definition rerank_stage :: "'f f32_ops \<Rightarrow> 'f rag_engine \<Rightarrow> string \<Rightarrow> 'f search_hit list \<Rightarrow> 'f search_hit list" where
  "rerank_stage F e query fused =
     (case re_reranker e of
        None \<Rightarrow> fused
      | Some r \<Rightarrow> apply_order F fused
          (r query (map (\<lambda>h. \<lparr> rc_chunk_text = ch_text (sh_chunk h), rc_base_score = sh_score h \<rparr>) fused)))"

text \<open>The hits before they are packed, and the response.\<close>

definition ranked_hits ::
  "'f f32_ops \<Rightarrow> 'f fused_order \<Rightarrow> 'f rag_engine \<Rightarrow> 'f rag_query \<Rightarrow> 'f search_hit list \<Rightarrow> 'f search_hit list \<Rightarrow> 'f search_hit list" where
  "ranked_hits F it e q dense sparse =
     rerank_stage F e (rq_text q) (reciprocal_rank_fusion F it dense sparse (re_rrf_k e) (re_candidate_pool e))"

definition rag_hybrid_search ::
  "'f f32_ops \<Rightarrow> (string \<Rightarrow> bool) \<Rightarrow> 'f fused_order
    \<Rightarrow> ('f search_query \<Rightarrow> (store_error, 'f search_hit list \<times> 'f search_hit list) result)
    \<Rightarrow> 'f rag_engine \<Rightarrow> 'f rag_query \<Rightarrow> (store_error, 'f rag_response) result" where
  "rag_hybrid_search F alnum it store e q =
     bind_result (store (candidate_query e q)) (\<lambda>(dense, sparse).
       let reranked = ranked_hits F it e q dense sparse
       in Inr \<lparr> rr_hits = map hit_view_of (take (rq_top_k q) reranked), rr_layer = Hybrid,
                rr_diagnostics = \<lparr> rd_dense_candidates = length dense, rd_sparse_candidates = length sparse,
                  rd_rrf_overlap = rank_overlap dense sparse, rd_query_terms = tokenize_query alnum (rq_text q),
                  rd_reranked = (re_reranker e \<noteq> None), rd_truncated = (length reranked > rq_top_k q) \<rparr> \<rparr>)"

text \<open>The flat search rebuilds a chunk from the view, with a fixed domain.\<close>

definition flat_hit :: "'f hit_view \<Rightarrow> 'f search_hit \<times> rag_layer" where
  "flat_hit v = (\<lparr> sh_chunk = \<lparr> ch_id = hv_document_id v, ch_document_id = hv_document_id v, ch_domain = SapHelp, ch_ordinal = 0,
     ch_text = hv_snippet v, ch_embedding = None, ch_breadcrumbs = [], ch_title = hv_title v, ch_uri = hv_uri v \<rparr>,
     sh_score = hv_score v \<rparr>, Hybrid)"

definition rag_search ::
  "'f f32_ops \<Rightarrow> (string \<Rightarrow> bool) \<Rightarrow> 'f fused_order
    \<Rightarrow> ('f search_query \<Rightarrow> (store_error, 'f search_hit list \<times> 'f search_hit list) result)
    \<Rightarrow> 'f rag_engine \<Rightarrow> 'f rag_query \<Rightarrow> (store_error, ('f search_hit \<times> rag_layer) list) result" where
  "rag_search F alnum it store e q =
     bind_result (rag_hybrid_search F alnum it store e q) (\<lambda>resp. Inr (map flat_hit (rr_hits resp)))"

section \<open>What fusion computes\<close>

abbreviation hit_id :: "'f search_hit \<Rightarrow> string" where
  "hit_id h \<equiv> ch_id (sh_chunk h)"

text \<open>Where an id stands in a ranking, and the score fusion owes it.\<close>

definition rank_of :: "nat \<Rightarrow> 'f search_hit list \<Rightarrow> string \<rightharpoonup> nat \<times> 'f search_hit" where
  "rank_of n hits = map_of (map (\<lambda>(r, h). (hit_id h, (r, h))) (enumerate n hits))"

definition rrf_entry ::
  "'f f32_ops \<Rightarrow> 'f \<Rightarrow> 'f search_hit list \<Rightarrow> 'f search_hit list \<Rightarrow> string \<rightharpoonup> 'f \<times> 'f search_hit" where
  "rrf_entry F k dense sparse i =
     (let w = (\<lambda>r. f_div F (f_rat F (1, 1)) (f_add F (f_add F k (f_nat F r)) (f_rat F (1, 1)))) in
     (case (rank_of 0 dense i, rank_of 0 sparse i) of
        (None, None) \<Rightarrow> None
      | (Some (r, h), None) \<Rightarrow> Some (w r, h)
      | (None, Some (r, h)) \<Rightarrow> Some (w r, h)
      | (Some (r, h), Some (r', _)) \<Rightarrow> Some (f_add F (w r) (w r'), h)))"

lemma fuse_hit_wf: "amap_wf m \<Longrightarrow> amap_wf (fuse_hit F k x m)"
  by (auto simp: fuse_hit_def Let_def split: prod.split option.split)

lemma fuse_wf: "amap_wf m \<Longrightarrow> amap_wf (fold (fuse_hit F k) xs m)"
  by (induction xs arbitrary: m) (auto simp: fuse_hit_wf)

lemma rank_of_Nil [simp]: "rank_of n [] = Map.empty"
  by (simp add: rank_of_def)

lemma rank_of_Cons: "rank_of n (h # hs) = (rank_of (Suc n) hs)(hit_id h \<mapsto> (n, h))"
  by (simp add: rank_of_def)

lemma rank_of_None: "rank_of n hs i = None \<longleftrightarrow> i \<notin> set (map hit_id hs)"
  by (induction hs arbitrary: n) (auto simp: rank_of_Cons)

lemma rank_of_SomeD: "rank_of n hs i = Some (r, h) \<Longrightarrow> h \<in> set hs \<and> hit_id h = i"
  by (induction hs arbitrary: n) (auto simp: rank_of_Cons split: if_splits)

lemma rrf_entry_contribution:
  "rrf_entry F k dense sparse i =
     (case (rank_of 0 dense i, rank_of 0 sparse i) of
        (None, None) \<Rightarrow> None
      | (Some (r, h), None) \<Rightarrow> Some (contribution F k r, h)
      | (None, Some (r, h)) \<Rightarrow> Some (contribution F k r, h)
      | (Some (r, h), Some (r', _)) \<Rightarrow> Some (f_add F (contribution F k r) (contribution F k r'), h))"
  unfolding rrf_entry_def contribution_def Let_def by (rule refl)

lemma fuse_lookup:
  assumes "distinct (map hit_id hs)" "amap_wf m"
  shows "map_of (fold (fuse_hit F k) (enumerate n hs) m) i =
    (case rank_of n hs i of
       None \<Rightarrow> map_of m i
     | Some (r, h) \<Rightarrow> (case map_of m i of
           Some (s, h0) \<Rightarrow> Some (f_add F s (contribution F k r), h0)
         | None \<Rightarrow> Some (contribution F k r, h)))"
  using assms
proof (induction hs arbitrary: n m)
  case (Cons h hs)
  have IH: "map_of (fold (fuse_hit F k) (enumerate (Suc n) hs) (fuse_hit F k (n, h) m)) i =
    (case rank_of (Suc n) hs i of
       None \<Rightarrow> map_of (fuse_hit F k (n, h) m) i
     | Some (r, h') \<Rightarrow> (case map_of (fuse_hit F k (n, h) m) i of
           Some (s, h0) \<Rightarrow> Some (f_add F s (contribution F k r), h0)
         | None \<Rightarrow> Some (contribution F k r, h')))"
    using Cons by (intro Cons.IH) (auto simp: fuse_hit_wf)
  have one: "map_of (fuse_hit F k (n, h) m) i =
    (if i = hit_id h then (case map_of m i of
           Some (s, h0) \<Rightarrow> Some (f_add F s (contribution F k n), h0)
         | None \<Rightarrow> Some (contribution F k n, h)) else map_of m i)"
    using Cons.prems(2) by (auto simp: fuse_hit_def Let_def split: option.split)
  have "rank_of (Suc n) hs (hit_id h) = None"
    using Cons.prems(1) by (simp add: rank_of_None)
  then show ?case
    using IH one by (auto simp: rank_of_Cons split: option.split)
qed simp

lemma fused_map:
  assumes "distinct (map hit_id dense)" "distinct (map hit_id sparse)"
  shows "map_of (fuse F k sparse (fuse F k dense [])) = rrf_entry F k dense sparse"
    and "amap_wf (fuse F k sparse (fuse F k dense []))"
proof -
  have wf: "amap_wf (fuse F k dense [])"
    by (simp add: fuse_def fuse_wf)
  then show "amap_wf (fuse F k sparse (fuse F k dense []))"
    by (simp add: fuse_def fuse_wf)
  have d: "map_of (fuse F k dense []) i = (case rank_of 0 dense i of None \<Rightarrow> None | Some (r, h) \<Rightarrow> Some (contribution F k r, h))" for i
    unfolding fuse_def using fuse_lookup [OF assms(1), of "[]" F k 0 i] by (simp split: option.splits)
  show "map_of (fuse F k sparse (fuse F k dense [])) = rrf_entry F k dense sparse"
  proof
    fix i
    show "map_of (fuse F k sparse (fuse F k dense [])) i = rrf_entry F k dense sparse i"
      unfolding fuse_def [of F k sparse] using fuse_lookup [OF assms(2) wf, of F k 0 i]
      by (auto simp: d rrf_entry_contribution split: option.splits)
  qed
qed

lemma rrf_entry_SomeD:
  "rrf_entry F k dense sparse i = Some (s, h) \<Longrightarrow> h \<in> set dense \<union> set sparse \<and> hit_id h = i"
  by (auto simp: rrf_entry_contribution split: option.splits dest: rank_of_SomeD)

lemma dom_rrf_entry: "dom (rrf_entry F k dense sparse) = hit_id ` (set dense \<union> set sparse)"
proof -
  have "rrf_entry F k dense sparse i = None \<longleftrightarrow> rank_of 0 dense i = None \<and> rank_of 0 sparse i = None" for i
    by (auto simp: rrf_entry_contribution split: option.split)
  then show ?thesis
    by (auto simp: dom_def rank_of_None)
qed

definition fused_hits :: "'f f32_ops \<Rightarrow> 'f fused_order \<Rightarrow> 'f \<Rightarrow> 'f search_hit list \<Rightarrow> 'f search_hit list \<Rightarrow> 'f search_hit list" where
  "fused_hits F it k dense sparse =
     map (\<lambda>(score, h). h\<lparr> sh_score := score \<rparr>) (it (map snd (fuse F k sparse (fuse F k dense []))))"

text \<open>The fused hits before the cut: one per id of either ranking, with the score owed to it.\<close>

lemma fused_hits_spec:
  assumes "distinct (map hit_id dense)" "distinct (map hit_id sparse)" "\<And>xs. mset (it xs) = mset xs"
  shows "distinct (map hit_id (fused_hits F it k dense sparse))"
    "hit_id ` set (fused_hits F it k dense sparse) = hit_id ` (set dense \<union> set sparse)"
    "h \<in> set (fused_hits F it k dense sparse) \<longleftrightarrow>
      (\<exists>s h0. rrf_entry F k dense sparse (hit_id h) = Some (s, h0) \<and> h = h0\<lparr> sh_score := s \<rparr>)"
proof -
  let ?m = "fuse F k sparse (fuse F k dense [])"
  note m = fused_map [OF assms(1,2), of F k]
  have key: "hit_id (snd e) = i" if "(i, e) \<in> set ?m" for i e
  proof -
    have "map_of ?m i = Some e"
      using that m(2) by (simp add: amap_wf_distinct)
    then show ?thesis
      unfolding m(1) by (cases e) (simp add: rrf_entry_SomeD)
  qed
  have ids: "map hit_id (map (\<lambda>(score, h). h\<lparr> sh_score := score \<rparr>) xs) = map (hit_id \<circ> snd) xs" for xs :: "('f \<times> 'f search_hit) list"
    by auto
  have fst: "map (hit_id \<circ> snd) (map snd ?m) = map fst ?m"
    using key by (auto simp: split_def)
  have "mset (map (hit_id \<circ> snd) (it (map snd ?m))) = mset (map fst ?m)"
    unfolding fst [symmetric] by (simp only: mset_map assms(3))
  then have im: "mset (map hit_id (fused_hits F it k dense sparse)) = mset (map fst ?m)"
    unfolding fused_hits_def ids .
  then show "distinct (map hit_id (fused_hits F it k dense sparse))"
    using m(2) by (metis amap_wf_distinct mset_eq_imp_distinct_iff)
  have "set (map hit_id (fused_hits F it k dense sparse)) = dom (map_of ?m)"
    using im by (metis dom_map_of_conv_image_fst list.set_map mset_eq_setD)
  then show "hit_id ` set (fused_hits F it k dense sparse) = hit_id ` (set dense \<union> set sparse)"
    unfolding m(1) dom_rrf_entry by simp
  have "set (it (map snd ?m)) = snd ` set ?m"
    using assms(3) by (metis list.set_map mset_eq_setD)
  then have "h \<in> set (fused_hits F it k dense sparse) \<longleftrightarrow> (\<exists>i s h0. (i, s, h0) \<in> set ?m \<and> h = h0\<lparr> sh_score := s \<rparr>)"
    by (force simp: fused_hits_def)
  also have "\<dots> \<longleftrightarrow> (\<exists>i s h0. map_of ?m i = Some (s, h0) \<and> h = h0\<lparr> sh_score := s \<rparr>)"
    using m(2) by (simp add: amap_wf_distinct)
  also have "\<dots> \<longleftrightarrow> (\<exists>s h0. rrf_entry F k dense sparse (hit_id h) = Some (s, h0) \<and> h = h0\<lparr> sh_score := s \<rparr>)"
  proof
    assume "\<exists>i s h0. map_of ?m i = Some (s, h0) \<and> h = h0\<lparr> sh_score := s \<rparr>"
    then obtain i s h0 where e: "rrf_entry F k dense sparse i = Some (s, h0)" "h = h0\<lparr> sh_score := s \<rparr>"
      unfolding m(1) by blast
    moreover have "hit_id h = i"
      using rrf_entry_SomeD [OF e(1)] e(2) by simp
    ultimately show "\<exists>s h0. rrf_entry F k dense sparse (hit_id h) = Some (s, h0) \<and> h = h0\<lparr> sh_score := s \<rparr>"
      by blast
  qed (use m(1) in auto)
  finally show "h \<in> set (fused_hits F it k dense sparse) \<longleftrightarrow>
      (\<exists>s h0. rrf_entry F k dense sparse (hit_id h) = Some (s, h0) \<and> h = h0\<lparr> sh_score := s \<rparr>)" .
qed

lemma rrf_take: "reciprocal_rank_fusion F it dense sparse k cap = take cap (rank_desc F sh_score (fused_hits F it k dense sparse))"
  by (simp add: reciprocal_rank_fusion_def fused_hits_def Let_def)

text \<open>
  C24. Reciprocal rank fusion of two rankings without repeated ids: the result has every id of either
  ranking at most once, with the hit's first occurrence and a score that is the sum of its
  reciprocal ranks \<open>1 / (k + rank + 1)\<close>, ranks counted from 0 (dense before sparse), best first, as many as there are ids up to the cap, and no
  id left out has a higher score, whenever the scores are numbers.
\<close>

theorem rrf_spec:
  assumes "distinct (map hit_id dense)" "distinct (map hit_id sparse)" "\<And>xs. mset (it xs) = mset xs"
    and "cmp_law F val" "\<And>i s h. rrf_entry F k dense sparse i = Some (s, h) \<Longrightarrow> val s \<noteq> None"
  shows "let out = reciprocal_rank_fusion F it dense sparse k cap in
     distinct (map hit_id out) \<and> length out = min cap (card (hit_id ` (set dense \<union> set sparse))) \<and>
     list_all (\<lambda>h. \<exists>h0. rrf_entry F k dense sparse (hit_id h) = Some (sh_score h, h0) \<and> sh_chunk h = sh_chunk h0) out \<and>
     sorted_wrt (\<lambda>a b. the (val (sh_score b)) \<le> the (val (sh_score a))) out \<and>
     list_all (\<lambda>h. hit_id h \<in> hit_id ` set out \<or>
         list_all (\<lambda>g. the (val (fst (the (rrf_entry F k dense sparse (hit_id h))))) \<le> the (val (sh_score g))) out) (dense @ sparse)"
proof -
  let ?f = "fused_hits F it k dense sparse"
  let ?r = "rank_desc F sh_score ?f"
  note f = fused_hits_spec [OF assms(1-3), where F = F and k = k]
  have score: "rrf_entry F k dense sparse (hit_id h) = Some (sh_score h, h0) \<Longrightarrow> fst (the (rrf_entry F k dense sparse (hit_id h))) = sh_score h" for h h0
    by simp
  have entry: "\<exists>h0. rrf_entry F k dense sparse (hit_id h) = Some (sh_score h, h0) \<and> sh_chunk h = sh_chunk h0" if "h \<in> set ?f" for h
    using that f(3) [of h] by auto
  have num: "val (sh_score h) \<noteq> None" if "h \<in> set ?f" for h
    using entry [OF that] assms(5) by blast
  note top = rank_desc_top [OF assms(4), of ?f sh_score, OF num, where k = cap]
  have "card (hit_id ` (set dense \<union> set sparse)) = length ?f"
    using f(1) f(2) by (metis distinct_card length_map list.set_map)
  then have len: "length (take cap ?r) = min cap (card (hit_id ` (set dense \<union> set sparse)))"
    by simp
  have sub: "set (take cap ?r) \<subseteq> set ?f"
    using set_take_subset [of cap ?r] by simp
  have rest: "h \<in> set (take cap ?r) \<or> list_all (\<lambda>g. the (val (fst (the (rrf_entry F k dense sparse (hit_id h))))) \<le> the (val (sh_score g))) (take cap ?r)"
    if "h \<in> set ?f" for h
  proof -
    have "h \<in> set (take cap ?r @ drop cap ?r)" using that by simp
    then show ?thesis
      using top(2) entry [OF that] score unfolding set_append list_all_iff by fastforce
  qed
  have left: "hit_id h \<in> hit_id ` set (take cap ?r) \<or>
      list_all (\<lambda>g. the (val (fst (the (rrf_entry F k dense sparse (hit_id h))))) \<le> the (val (sh_score g))) (take cap ?r)"
    if "h \<in> set (dense @ sparse)" for h
  proof -
    have "hit_id h \<in> hit_id ` set ?f" unfolding f(2) using that by auto
    then obtain h' where "h' \<in> set ?f" "hit_id h' = hit_id h" by force
    then show ?thesis using rest [of h'] by (metis image_eqI)
  qed
  have "distinct (map hit_id (take cap ?r))"
    using f(1) by (intro distinct_map_take) simp
  then show ?thesis
    unfolding rrf_take Let_def list_all_iff [of _ "dense @ sparse"] list_all_iff [of "\<lambda>h. \<exists>h0. _ h h0"]
    using len top(1) left sub entry by blast
qed

text \<open>
  A document in both rankings overtakes one that is only in a single ranking: the fused list of the
  engine's own test.
\<close>

definition rank_sample :: "string list \<Rightarrow> rat search_hit list" where
  "rank_sample ids = map (\<lambda>i. \<lparr> sh_chunk = sample_chunk i SapHelp [] None, sh_score = 1 \<rparr>) ids"

theorem rrf_spec_witness:
  "length (reciprocal_rank_fusion rat_ops id (rank_sample [''a'', ''b'', ''c'']) (rank_sample [''c'', ''a'', ''d'']) 60 10) = 4"
proof -
  let ?d = "rank_sample [''a'', ''b'', ''c'']" and ?s = "rank_sample [''c'', ''a'', ''d'']"
  have ids: "distinct (map hit_id ?d)" "distinct (map hit_id ?s)"
    "hit_id ` (set ?d \<union> set ?s) = {''a'', ''b'', ''c'', ''d''}"
    by (auto simp: rank_sample_def sample_chunk_def)
  have "let out = reciprocal_rank_fusion rat_ops id ?d ?s 60 10 in
      distinct (map hit_id out) \<and> length out = min 10 (card (hit_id ` (set ?d \<union> set ?s)))"
    using rrf_spec [OF ids(1,2), where it = id and F = rat_ops and val = Some and k = 60 and cap = 10]
    unfolding Let_def by (simp only: cmp_law_rat id_apply option.distinct simp_thms)
  then show ?thesis
    unfolding Let_def ids(3) by simp
qed

section \<open>The reranker\<close>

text \<open>A reranker names each candidate at most once.\<close>

definition reranker_ok :: "'f reranker \<Rightarrow> bool" where
  "reranker_ok r \<longleftrightarrow> (\<forall>query cands. distinct (map ri_idx (r query cands)))"

lemma enumerate_idx:
  "map ri_idx (map (\<lambda>(idx, c). \<lparr> ri_idx = idx, ri_score = f idx c \<rparr>) (enumerate 0 cs)) = [0..<length cs]"
  by (auto simp: o_def split_def)

lemma mock_rerank_idx: "mset (map ri_idx (mock_rerank F alnum upper query cands)) = mset [0..<length cands]"
proof -
  have perm: "mset (map ri_idx (rank_desc F ri_score xs)) = mset (map ri_idx xs)" for xs
    by simp
  show ?thesis
    unfolding mock_rerank_def Let_def perm enumerate_idx ..
qed

lemma mock_reranker_ok: "reranker_ok (mock_rerank F alnum upper)"
  unfolding reranker_ok_def using mock_rerank_idx by (metis distinct_upt mset_eq_imp_distinct_iff)

lemma apply_order_chunks:
  "map sh_chunk (apply_order F fused order) =
     map (\<lambda>item. sh_chunk (fused ! ri_idx item)) (filter (\<lambda>item. ri_idx item < length fused) order)"
proof -
  have "map sh_chunk (List.map_filter (\<lambda>(rank, item). if ri_idx item < length fused
        then Some ((fused ! ri_idx item)\<lparr> sh_score := g rank item \<rparr>) else None) (enumerate n order)) =
      map (\<lambda>item. sh_chunk (fused ! ri_idx item)) (filter (\<lambda>item. ri_idx item < length fused) order)" for g n
    by (induction order arbitrary: n) (auto simp: List.map_filter_simps)
  then show ?thesis by (simp add: apply_order_def)
qed

lemma apply_order_hits:
  assumes "distinct (map hit_id fused)" "distinct (map ri_idx order)"
  shows "sh_chunk ` set (apply_order F fused order) \<subseteq> sh_chunk ` set fused"
    and "distinct (map hit_id (apply_order F fused order))"
proof -
  let ?o = "filter (\<lambda>item. ri_idx item < length fused) order"
  show "sh_chunk ` set (apply_order F fused order) \<subseteq> sh_chunk ` set fused"
    using arg_cong [OF apply_order_chunks [of F fused order], of set] by auto
  have "inj_on (\<lambda>item. hit_id (fused ! ri_idx item)) (set ?o)"
  proof (rule inj_onI)
    fix x y
    assume xy: "x \<in> set ?o" "y \<in> set ?o" "hit_id (fused ! ri_idx x) = hit_id (fused ! ri_idx y)"
    then have "ri_idx x = ri_idx y"
      using nth_eq_iff_index_eq [OF assms(1)] by auto
    then show "x = y"
      using xy assms(2) by (auto simp: distinct_map dest: inj_onD)
  qed
  moreover have "map hit_id (apply_order F fused order) = map (\<lambda>item. hit_id (fused ! ri_idx item)) ?o"
    using arg_cong [OF apply_order_chunks [of F fused order], of "map ch_id"] by (simp add: o_def)
  ultimately show "distinct (map hit_id (apply_order F fused order))"
    using assms(2) by (simp add: distinct_map)
qed

section \<open>The pipeline over any store\<close>

definition engine_ok :: "'f rag_engine \<Rightarrow> bool" where
  "engine_ok e \<longleftrightarrow> (case re_reranker e of None \<Rightarrow> True | Some r \<Rightarrow> reranker_ok r)"

lemma rrf_hits:
  assumes "distinct (map hit_id dense)" "distinct (map hit_id sparse)" "\<And>xs. mset (it xs) = mset xs"
  shows "distinct (map hit_id (reciprocal_rank_fusion F it dense sparse k cap))"
    and "sh_chunk ` set (reciprocal_rank_fusion F it dense sparse k cap) \<subseteq> sh_chunk ` (set dense \<union> set sparse)"
    and "length (reciprocal_rank_fusion F it dense sparse k cap) \<le> cap"
proof -
  note f = fused_hits_spec [OF assms, where F = F and k = k]
  show "distinct (map hit_id (reciprocal_rank_fusion F it dense sparse k cap))"
    unfolding rrf_take using f(1) by (intro distinct_map_take) simp
  have "sh_chunk h \<in> sh_chunk ` (set dense \<union> set sparse)" if h: "h \<in> set (fused_hits F it k dense sparse)" for h
  proof -
    obtain t h0 where e: "rrf_entry F k dense sparse (hit_id h) = Some (t, h0)" "h = h0\<lparr> sh_score := t \<rparr>"
      using h f(3) [of h] by blast
    then have "sh_chunk h = sh_chunk h0" by simp
    then show ?thesis using rrf_entry_SomeD [OF e(1)] by blast
  qed
  moreover have "set (reciprocal_rank_fusion F it dense sparse k cap) \<subseteq> set (fused_hits F it k dense sparse)"
    unfolding rrf_take using set_take_subset [of cap "rank_desc F sh_score (fused_hits F it k dense sparse)"] by simp
  ultimately show "sh_chunk ` set (reciprocal_rank_fusion F it dense sparse k cap) \<subseteq> sh_chunk ` (set dense \<union> set sparse)"
    by blast
  show "length (reciprocal_rank_fusion F it dense sparse k cap) \<le> cap"
    by (simp add: rrf_take)
qed

lemma ranked_hits_chunks:
  assumes "distinct (map hit_id dense)" "distinct (map hit_id sparse)" "\<And>xs. mset (it xs) = mset xs" "engine_ok e"
  shows "distinct (map hit_id (ranked_hits F it e q dense sparse))"
    and "sh_chunk ` set (ranked_hits F it e q dense sparse) \<subseteq> sh_chunk ` (set dense \<union> set sparse)"
proof -
  let ?f = "reciprocal_rank_fusion F it dense sparse (re_rrf_k e) (re_candidate_pool e)"
  note f = rrf_hits [OF assms(1-3), where F = F and k = "re_rrf_k e" and cap = "re_candidate_pool e"]
  show "distinct (map hit_id (ranked_hits F it e q dense sparse))"
    using f(1) assms(4) apply_order_hits(2) [OF f(1)]
    by (auto simp: ranked_hits_def rerank_stage_def engine_ok_def reranker_ok_def split: option.splits)
  show "sh_chunk ` set (ranked_hits F it e q dense sparse) \<subseteq> sh_chunk ` (set dense \<union> set sparse)"
  proof (cases "re_reranker e")
    case None
    then show ?thesis using f(2) by (simp add: ranked_hits_def rerank_stage_def)
  next
    case (Some r)
    then have "sh_chunk ` set (ranked_hits F it e q dense sparse) \<subseteq> sh_chunk ` set ?f"
      unfolding ranked_hits_def rerank_stage_def using assms(4) apply_order_hits(1) [OF f(1)]
      by (simp add: engine_ok_def reranker_ok_def)
    then show ?thesis using f(2) by blast
  qed
qed

lemma candidate_query_fields [simp]:
  "sq_top_k (candidate_query e q) = re_candidate_pool e" "sq_text (candidate_query e q) = rq_text q"
  "sq_embedding (candidate_query e q) = rq_embedding q"
  "sq_domains (candidate_query e q) = (case rq_domain q of Some d \<Rightarrow> [d] | None \<Rightarrow> [])"
  by (simp_all add: candidate_query_def query_text_def with_domain_def with_embedding_def Let_def split: option.split)

text \<open>What a response shows: stored chunks of the wanted domain, each at most once.\<close>

definition response_ok :: "'f chunk set \<Rightarrow> 'f rag_query \<Rightarrow> 'f rag_response \<Rightarrow> bool" where
  "response_ok cs q resp \<longleftrightarrow> (\<exists>hits. rr_hits resp = map hit_view_of hits \<and> distinct (map hit_id hits) \<and>
     sh_chunk ` set hits \<subseteq> cs \<and> length hits \<le> rq_top_k q \<and>
     list_all (\<lambda>h. rq_domain q \<in> {None, Some (ch_domain (sh_chunk h))}) hits)"

context knowledge_store
begin

lemma engine_response:
  assumes "inv s" "engine_ok e" "\<And>xs. mset (it xs) = mset xs"
    and "rag_hybrid_search F alnum it (\<lambda>q. hybrid q s) e q = Inr resp"
  shows "response_ok (stored s) q resp"
proof -
  obtain dense sparse where h: "hybrid (candidate_query e q) s = Inr (dense, sparse)"
    and r: "rr_hits resp = map hit_view_of (take (rq_top_k q) (ranked_hits F it e q dense sparse))"
    using assms(4) by (auto simp: rag_hybrid_search_def Let_def)
  have d: "hits_of (stored s) (candidate_query e q) dense" "hits_of (stored s) (candidate_query e q) sparse"
    using hybrid_dense [OF assms(1) h] hybrid_sparse [OF assms(1) h] by simp_all
  then have "distinct (map hit_id dense)" "distinct (map hit_id sparse)"
    by (simp_all add: hits_of_def o_def)
  note k = ranked_hits_chunks [OF this assms(3) assms(2), where F = F and q = q]
  let ?t = "take (rq_top_k q) (ranked_hits F it e q dense sparse)"
  have sub: "sh_chunk ` set ?t \<subseteq> sh_chunk ` (set dense \<union> set sparse)"
    using k(2) set_take_subset [of "rq_top_k q" "ranked_hits F it e q dense sparse"] by blast
  have "want_domain (candidate_query e q) c" if "c \<in> ch_domain ` sh_chunk ` (set dense \<union> set sparse)" for c
    using that d by (auto simp: hits_of_def list_all_iff)
  then have "rq_domain q \<in> {None, Some (ch_domain (sh_chunk h))}" if "h \<in> set ?t" for h
    using that sub by (fastforce simp: want_domain_def split: option.splits)
  moreover have "sh_chunk ` set ?t \<subseteq> stored s"
  proof -
    have "sh_chunk ` (set dense \<union> set sparse) \<subseteq> stored s"
      using d by (simp add: hits_of_def image_Un)
    then show ?thesis using sub by (rule order_trans [rotated])
  qed
  moreover have "distinct (map hit_id ?t)"
    using k(1) by (rule distinct_map_take)
  moreover have "length ?t \<le> rq_top_k q" by simp
  ultimately show ?thesis
    unfolding response_ok_def list_all_iff using r by blast
qed

end

text \<open>
  C25. Retrieval over the in-memory store always answers; what it shows are chunks of the store in the
  wanted domain, each at most once and at most \<open>top_k\<close>, without a reranker and with the shipped one.
\<close>

theorem hybrid_search_sound:
  assumes "kb_wf content_hash kb" "iterates it kb" "\<And>xs. mset (it' xs) = mset xs"
    and "re_reranker e \<in> {None, Some (mock_rerank F alnum upper)}"
  shows "\<exists>resp. rag_hybrid_search F alnum it' (\<lambda>q. kb_hybrid_search F alnum it q kb) e q = Inr resp \<and>
     response_ok (snd ` set (kb_chunks kb)) q resp"
proof -
  obtain resp where r: "rag_hybrid_search F alnum it' (\<lambda>q. kb_hybrid_search F alnum it q kb) e q = Inr resp"
    by (simp add: rag_hybrid_search_def kb_hybrid_search_def Let_def)
  have ok: "engine_ok e"
    using assms(4) mock_reranker_ok by (auto simp: engine_ok_def)
  have "(case (kb, it) of (kb, it) \<Rightarrow> kb_wf content_hash kb \<and> iterates it kb)"
    using assms(1,2) by simp
  moreover have "rag_hybrid_search F alnum it' (\<lambda>q. case (kb, it) of (kb, it) \<Rightarrow> kb_hybrid_search F alnum it q kb) e q = Inr resp"
    using r by simp
  ultimately have "response_ok (kb_stored (kb, it)) q resp"
    by (rule mem.engine_response [OF _ ok assms(3)])
  then show ?thesis
    using r by (simp add: kb_stored_def)
qed

theorem hybrid_search_sound_witness:
  "\<exists>resp. rag_hybrid_search rat_ops (\<lambda>_. True) id (\<lambda>q. kb_hybrid_search rat_ops (\<lambda>_. True) id q sample_kb)
       (with_reranker (mock_rerank rat_ops (\<lambda>_. True) (\<lambda>_. True)) (rag_engine_new rat_ops))
       \<lparr> rq_text = ''x'', rq_domain = Some SapHelp, rq_top_k = 1, rq_embedding = Some [1, 0] \<rparr> = Inr resp \<and>
     response_ok (snd ` set (kb_chunks sample_kb))
       \<lparr> rq_text = ''x'', rq_domain = Some SapHelp, rq_top_k = 1, rq_embedding = Some [1, 0] \<rparr> resp"
  by (rule hybrid_search_sound [where content_hash = id and upper = "\<lambda>_. True"])
    (auto simp: iterates_def with_reranker_def sample_kb_wf)

end
