(* ===== verification/Ingest.thy ===== *)
theory Ingest
  imports Kb_Store
begin

text \<open>
  Ingestion (\<open>sap-automate-ingest\<close>): the chunker (\<open>chunker.rs\<close>), the block filter (\<open>fit_markdown.rs\<close>), the
  mock embedder (\<open>embed.rs\<close>) and the pipeline into a store (\<open>pipeline.rs\<close>). A slice outside its string is
  a panic, \<open>None\<close> here. The embedding client, the float operations and the hash are parameters.
\<close>

section \<open>The chunker\<close>

record chunker_config =
  cc_target_chars :: nat
  cc_overlap_chars :: nat
  cc_contextual_enrichment :: bool

definition chunker_default :: chunker_config where
  "chunker_default = \<lparr> cc_target_chars = 1600, cc_overlap_chars = 200, cc_contextual_enrichment = True \<rparr>"

text \<open>The scan backwards for the end of a sentence, over the positions from \<open>i\<close> down to \<open>lo + 2\<close>.\<close>

fun sentence_end_loop :: "string \<Rightarrow> nat \<Rightarrow> nat \<Rightarrow> nat option" where
  "sentence_end_loop s lo i =
     (if i \<le> lo + 1 then None
      else if s ! (i - 2) \<in> {CHR ''.'', CHR ''?'', CHR ''!''} \<and> s ! (i - 1) \<in> {CHR '' '', CHR 0x0A} then Some i
      else sentence_end_loop s lo (i - 1))"

declare sentence_end_loop.simps [simp del]

definition find_sentence_end :: "string \<Rightarrow> nat \<Rightarrow> nat \<Rightarrow> nat option" where
  "find_sentence_end s lo hi = (let hi = min hi (length s); lo = min lo hi in sentence_end_loop s lo hi)"

fun space_loop :: "string \<Rightarrow> nat \<Rightarrow> nat \<Rightarrow> nat option" where
  "space_loop s hi i =
     (if i = 0 then None
      else if s ! (i - 1) \<in> {CHR '' '', CHR 0x0A} then Some i
      else if hi - (i - 1) > 200 then None
      else space_loop s hi (i - 1))"

declare space_loop.simps [simp del]

definition find_space :: "string \<Rightarrow> nat \<Rightarrow> nat option" where
  "find_space s hi = (let hi = min hi (length s) in space_loop s hi hi)"

text \<open>Moving up to the start of a character.\<close>

function round_up :: "string \<Rightarrow> nat \<Rightarrow> nat" where
  "round_up s i = (if i < length s \<and> \<not> is_char_boundary s i then round_up s (i + 1) else i)"
  by pat_completeness auto
termination
  by (relation "measure (\<lambda>(s, i). length s - i)") auto

declare round_up.simps [simp del]

definition window_end :: "string \<Rightarrow> nat \<Rightarrow> nat \<Rightarrow> nat" where
  "window_end s target start =
     (let end = min (start + target) (length s);
          end = (if end < length s then
                   (let lookback = max (end - 200) (start + target div 2) in
                    case find_sentence_end s lookback end of
                      Some b \<Rightarrow> b
                    | None \<Rightarrow> (case find_space s end of Some b \<Rightarrow> b | None \<Rightarrow> end))
                 else end)
      in round_up s end)"

text \<open>The windows of the loop of \<open>split_text\<close>; slicing from past the end of a window panics.\<close>

lemma round_up_ge: "i \<le> round_up s i"
proof (induction s i rule: round_up.induct)
  case (1 s i)
  then show ?case by (subst round_up.simps) auto
qed

function split_windows :: "string \<Rightarrow> nat \<Rightarrow> nat \<Rightarrow> nat \<Rightarrow> (nat \<times> nat) list option" where
  "split_windows s target overlap start =
     (if start \<ge> length s then Some []
      else (let end = window_end s target start in
            if end < start then None
            else if end \<ge> length s then Some [(start, end)]
            else (let advance = max ((end - start) - overlap) 1
                  in map_option (Cons (start, end)) (split_windows s target overlap (round_up s (start + advance))))))"
  by pat_completeness auto
termination
proof (relation "measure (\<lambda>(s, _, _, start). length s - start)", goal_cases)
  case (2 s target overlap start e adv)
  have "start + 1 \<le> round_up s (start + adv)"
    using round_up_ge [of "start + adv" s] 2 by simp
  with 2 show ?case by simp
qed simp

declare split_windows.simps [simp del]

definition window_text :: "string \<Rightarrow> nat \<times> nat \<Rightarrow> string" where
  "window_text s = (\<lambda>(a, b). take (b - a) (drop a s))"

definition split_text :: "string \<Rightarrow> nat \<Rightarrow> nat \<Rightarrow> string list option" where
  "split_text s target overlap =
     map_option (\<lambda>ws. filter (\<lambda>t. t \<noteq> []) (map (trim \<circ> window_text s) ws)) (split_windows s target overlap 0)"

definition document_context :: "document \<Rightarrow> string" where
  "document_context doc =
     (let body = trim (doc_body doc) in if body = [] then doc_title doc else trim (summary_loop 0 [] body))"

definition chunk_prefix :: "document \<Rightarrow> chunker_config \<Rightarrow> string" where
  "chunk_prefix doc cfg =
     (let breadcrumb = (if doc_breadcrumbs doc = [] then [] else join '' > '' (doc_breadcrumbs doc) @ '' > '');
          context = (if cc_contextual_enrichment cfg then ''Context: '' @ document_context doc @ [CHR 0x0A] else [])
      in breadcrumb @ doc_title doc @ (if context = [] then [] else CHR 0x0A # context) @ [CHR 0x0A])"

definition make_chunk :: "document \<Rightarrow> chunker_config \<Rightarrow> nat \<times> string \<Rightarrow> 'f chunk" where
  "make_chunk doc cfg = (\<lambda>(idx, seg).
     \<lparr> ch_id = doc_id doc @ ''#chunk-'' @ show_nat idx, ch_document_id = doc_id doc, ch_domain = doc_domain doc,
       ch_ordinal = idx mod 2 ^ 32, ch_text = chunk_prefix doc cfg @ seg, ch_embedding = None,
       ch_breadcrumbs = doc_breadcrumbs doc, ch_title = doc_title doc, ch_uri = doc_uri doc \<rparr>)"

definition chunk_document :: "document \<Rightarrow> chunker_config \<Rightarrow> 'f chunk list option" where
  "chunk_document doc cfg =
     (let body = trim (doc_body doc) in
      if body = [] then Some []
      else map_option (\<lambda>segments. map (make_chunk doc cfg) (enumerate 0 segments))
           (split_text body (cc_target_chars cfg) (cc_overlap_chars cfg)))"

section \<open>The block filter\<close>

record 'f fit_config =
  fc_k1 :: 'f
  fc_b :: 'f
  fc_min_score :: 'f
  fc_min_block_chars :: nat
  fc_keep_block_chars :: nat

definition fit_default :: "'f f32_ops \<Rightarrow> 'f fit_config" where
  "fit_default F = \<lparr> fc_k1 = f_rat F (3, 2), fc_b = f_rat F (3, 4), fc_min_score = f_rat F (0, 1),
     fc_min_block_chars = 40, fc_keep_block_chars = 600 \<rparr>"

record fit_stats =
  ft_blocks_in :: nat
  ft_blocks_out :: nat
  ft_chars_in :: nat
  ft_chars_out :: nat

text \<open>\<open>split("\n\n")\<close>.\<close>

function split_blocks :: "string \<Rightarrow> string \<Rightarrow> string list" where
  "split_blocks cur s =
     (case s of
        [] \<Rightarrow> [cur]
      | c # r \<Rightarrow> if starts_with s [CHR 0x0A, CHR 0x0A] then cur # split_blocks [] (drop 2 s) else split_blocks (cur @ [c]) r)"
  by pat_completeness auto
termination
  by (relation "measure (\<lambda>(_, s). length s)") auto

declare split_blocks.simps [simp del]

text \<open>The score of one block among the blocks, as in the store but with the configured constants.\<close>

definition block_scores ::
  "'f f32_ops \<Rightarrow> (string \<Rightarrow> bool) \<Rightarrow> string list \<Rightarrow> string list \<Rightarrow> 'f \<Rightarrow> 'f \<Rightarrow> 'f list" where
  "block_scores F alnum blocks query_terms k1 b =
     (let n = length blocks; zero = f_rat F (0, 1); one = f_rat F (1, 1); half = f_rat F (1, 2);
          docs = map (\<lambda>t. tokenize_loop alnum [] (utf8_chars t)) blocks;
          avg_dl = f_div F (f_nat F (sum_list (map length docs) mod 2 ^ 32)) (f_nat F n);
          df = (\<lambda>t. length (filter (\<lambda>doc. t \<in> set doc) docs))
      in if n = 0 \<or> query_terms = [] then replicate n zero
         else if f_eq F avg_dl zero then replicate n zero
         else map (\<lambda>doc.
           let dl = f_nat F (length doc mod 2 ^ 32)
           in fold (\<lambda>t score.
             let f = f_nat F (count_list doc t mod 2 ^ 32) in
             if f_eq F f zero then score
             else (let df_t = f_nat F (df t);
                       idf = f_ln F (f_add F (f_div F (f_add F (f_sub F (f_nat F n) df_t) half) (f_add F df_t half)) one);
                       denom = f_add F f (f_mul F k1 (f_add F (f_sub F one b) (f_div F (f_mul F b dl) avg_dl)))
                   in f_add F score (f_div F (f_mul F idf (f_mul F f (f_add F k1 one))) denom)))
             query_terms zero) docs)"

definition keep_block :: "'f f32_ops \<Rightarrow> 'f fit_config \<Rightarrow> string \<times> 'f \<Rightarrow> bool" where
  "keep_block F cfg = (\<lambda>(block, score).
     if length block \<ge> fc_keep_block_chars cfg then True
     else if length block < fc_min_block_chars cfg then False
     else (f_gt F score (fc_min_score cfg) \<or> f_eq F score (fc_min_score cfg)) \<and> f_gt F score (f_rat F (0, 1)))"

definition body_blocks :: "string \<Rightarrow> string list" where
  "body_blocks body = filter (\<lambda>b. b \<noteq> []) (map trim (split_blocks [] body))"

definition fit_markdown_filter ::
  "'f f32_ops \<Rightarrow> (string \<Rightarrow> bool) \<Rightarrow> string \<Rightarrow> string \<Rightarrow> 'f fit_config \<Rightarrow> string \<times> fit_stats" where
  "fit_markdown_filter F alnum body topic cfg =
     (let blocks = body_blocks body in
      if blocks = [] then
        ([], \<lparr> ft_blocks_in = 0, ft_blocks_out = 0, ft_chars_in = length body, ft_chars_out = 0 \<rparr>)
      else
        (let scores = block_scores F alnum blocks (tokenize_loop alnum [] (utf8_chars topic)) (fc_k1 cfg) (fc_b cfg);
             kept = map fst (filter (keep_block F cfg) (zip blocks scores));
             out = join [CHR 0x0A, CHR 0x0A] kept
         in (out, \<lparr> ft_blocks_in = length blocks, ft_blocks_out = length kept, ft_chars_in = length body,
                    ft_chars_out = length out \<rparr>)))"

section \<open>Embedding\<close>

fun split_alnum :: "(string \<Rightarrow> bool) \<Rightarrow> string \<Rightarrow> string list \<Rightarrow> string list" where
  "split_alnum alnum cur [] = [cur]"
| "split_alnum alnum cur (c # cs) =
     (if \<not> alnum c then cur # split_alnum alnum [] cs else split_alnum alnum (cur @ c) cs)"

definition tokenise :: "(string \<Rightarrow> bool) \<Rightarrow> (string \<Rightarrow> string) \<Rightarrow> string \<Rightarrow> string list" where
  "tokenise alnum lower s = map lower (filter (\<lambda>t. length t \<ge> 2) (split_alnum alnum [] (utf8_chars s)))"

text \<open>The bucket of a token comes from its hash; a remainder by zero panics.\<close>

definition token_bag_vector ::
  "'f f32_ops \<Rightarrow> (string \<Rightarrow> bool) \<Rightarrow> (string \<Rightarrow> string) \<Rightarrow> (string \<Rightarrow> nat) \<Rightarrow> nat \<Rightarrow> string \<Rightarrow> 'f list option" where
  "token_bag_vector F alnum lower hash32 dm s =
     (let ts = tokenise alnum lower s in
      if dm = 0 \<and> ts \<noteq> [] then None
      else (let v = fold (\<lambda>t v. let k = hash32 t mod dm in v[k := f_add F (v ! k) (f_rat F (1, 1))]) ts (replicate dm (f_rat F (0, 1)));
                norm = f_max F (f_sqrt F (fold (\<lambda>x acc. f_add F acc (f_mul F x x)) v (f_rat F (0, 1)))) (f_rat F (1, 1000000000))
            in Some (map (\<lambda>x. f_div F x norm) v)))"

section \<open>The pipeline\<close>

datatype pipeline_error = Embedding string | Store store_error

record ingestion_report =
  ir_documents :: nat
  ir_chunks :: nat

type_synonym 'f embedder = "string list \<Rightarrow> (string, 'f list list) result"

fun chunks_of :: "nat \<Rightarrow> 'a list \<Rightarrow> 'a list list" where
  "chunks_of n xs = (if n = 0 \<or> xs = [] then [] else take n xs # chunks_of n (drop n xs))"

declare chunks_of.simps [simp del]

fun embed_batches :: "'f embedder \<Rightarrow> 'f chunk list list \<Rightarrow> (string, 'f chunk list) result" where
  "embed_batches emb [] = Inr []"
| "embed_batches emb (batch # bs) =
     bind_result (emb (map ch_text batch)) (\<lambda>vectors.
       bind_result (embed_batches emb bs) (\<lambda>rest.
         Inr (map (\<lambda>(c, v). c\<lparr> ch_embedding := Some v \<rparr>) (zip batch vectors) @ rest)))"

text \<open>
  One document after another. The result carries the store as it is when the loop ends or fails; a panic
  (of the chunker, or of cutting into batches of size 0) is \<open>None\<close>.
\<close>

fun ingest_loop ::
  "(string \<Rightarrow> string) \<Rightarrow> 'f embedder \<Rightarrow> chunker_config \<Rightarrow> nat \<Rightarrow> document list \<Rightarrow> ingestion_report \<Rightarrow> 'f in_memory_kb
    \<Rightarrow> ((pipeline_error, ingestion_report) result \<times> 'f in_memory_kb) option" where
  "ingest_loop h emb cfg batch [] report kb = Some (Inr report, kb)"
| "ingest_loop h emb cfg batch (doc # docs) report kb =
     (case chunk_document doc cfg of
        None \<Rightarrow> None
      | Some chunks \<Rightarrow>
          if chunks = [] then ingest_loop h emb cfg batch docs report kb
          else if batch = 0 then None
          else (case embed_batches emb (chunks_of batch chunks) of
                  Inl e \<Rightarrow> Some (Inl (Embedding e), kb)
                | Inr embedded \<Rightarrow>
                    ingest_loop h emb cfg batch docs
                      \<lparr> ir_documents = ir_documents report + 1, ir_chunks = ir_chunks report + length chunks \<rparr>
                      (upsert h \<lparr> ub_documents = [doc], ub_chunks = embedded \<rparr> kb)))"

definition ingest ::
  "(string \<Rightarrow> string) \<Rightarrow> 'f embedder \<Rightarrow> chunker_config \<Rightarrow> nat \<Rightarrow> document list \<Rightarrow> 'f in_memory_kb
    \<Rightarrow> ((pipeline_error, ingestion_report) result \<times> 'f in_memory_kb) option" where
  "ingest h emb cfg batch docs kb = ingest_loop h emb cfg batch docs \<lparr> ir_documents = 0, ir_chunks = 0 \<rparr> kb"

section \<open>Windows\<close>

lemma sentence_end_bounds: "sentence_end_loop s lo i = Some e \<Longrightarrow> lo + 1 < e \<and> e \<le> i"
proof (induction s lo i rule: sentence_end_loop.induct)
  case (1 s lo i)
  show ?case
  proof (cases "i \<le> lo + 1 \<or> s ! (i - 2) \<in> {CHR ''.'', CHR ''?'', CHR ''!''} \<and> s ! (i - 1) \<in> {CHR '' '', CHR 0x0A}")
    case True
    then show ?thesis
      using 1(2) by (subst (asm) sentence_end_loop.simps) (auto split: if_splits)
  next
    case False
    then have "sentence_end_loop s lo (i - 1) = Some e"
      using 1(2) by (subst (asm) sentence_end_loop.simps) (auto split: if_splits)
    then have "lo + 1 < e \<and> e \<le> i - 1"
      using 1(1) False by blast
    then show ?thesis by linarith
  qed
qed

lemma space_bounds: "space_loop s hi i = Some e \<Longrightarrow> i \<le> hi \<Longrightarrow> hi - i \<le> 200 \<Longrightarrow> e \<le> i \<and> hi - e \<le> 200"
proof (induction s hi i rule: space_loop.induct)
  case (1 s hi i)
  show ?case
  proof (cases "i = 0 \<or> s ! (i - 1) \<in> {CHR '' '', CHR 0x0A} \<or> hi - (i - 1) > 200")
    case True
    then show ?thesis
      using 1(2-4) by (subst (asm) space_loop.simps) (auto split: if_splits)
  next
    case False
    then have "space_loop s hi (i - 1) = Some e"
      using 1(2) by (subst (asm) space_loop.simps) auto
    then have "e \<le> i - 1 \<and> hi - e \<le> 200"
      using 1(1) False 1(3) by auto
    then show ?thesis by linarith
  qed
qed

lemma round_up_boundary: "i \<le> length s \<Longrightarrow> is_char_boundary s (round_up s i) \<and> round_up s i \<le> length s"
proof (induction s i rule: round_up.induct)
  case (1 s i)
  then show ?case
    by (subst round_up.simps, subst round_up.simps) (auto simp: is_char_boundary_def)
qed

lemma round_up_least: "i \<le> b \<Longrightarrow> is_char_boundary s b \<Longrightarrow> round_up s i \<le> b"
proof (induction s i rule: round_up.induct)
  case (1 s i)
  show ?case
  proof (cases "i < length s \<and> \<not> is_char_boundary s i")
    case True
    then have "i + 1 \<le> b" using 1(2,3) by (cases "i = b") auto
    then show ?thesis using 1 True by (subst round_up.simps) auto
  next
    case False
    then have "round_up s i = i" by (subst round_up.simps) auto
    then show ?thesis using 1(2) by simp
  qed
qed

lemma round_up_mono: "i \<le> j \<Longrightarrow> j \<le> length s \<Longrightarrow> round_up s i \<le> round_up s j"
  using round_up_ge [of j s] round_up_boundary [of j s] by (intro round_up_least) auto

lemma window_end_bounds:
  assumes "201 \<le> target" "start < length s"
  shows "start < window_end s target start" "window_end s target start \<le> round_up s (min (start + target) (length s))"
    "window_end s target start \<le> length s" "is_char_boundary s (window_end s target start)"
proof -
  define m where "m = min (start + target) (length s)"
  define lo where "lo = max (m - 200) (start + target div 2)"
  define e where "e = (if m < length s then
        (case find_sentence_end s lo m of Some b \<Rightarrow> b
         | None \<Rightarrow> (case find_space s m of Some b \<Rightarrow> b | None \<Rightarrow> m)) else m)"
  have w: "window_end s target start = round_up s e"
    by (simp only: window_end_def e_def m_def lo_def Let_def)
  have m: "start < m" "m \<le> length s" "m = length s \<or> m = start + target"
    using assms by (auto simp: m_def)
  have e: "start < e \<and> e \<le> m"
  proof (cases "m < length s")
    case False
    then show ?thesis using m by (simp add: e_def)
  next
    case True
    then have ms: "m = start + target" using m by simp
    have mm: "min m (length s) = m" using True by simp
    show ?thesis
    proof (cases "find_sentence_end s lo m")
      case (Some b)
      then have "min lo m + 1 < b \<and> b \<le> m"
        using sentence_end_bounds [of s "min lo m" m b] unfolding find_sentence_end_def Let_def mm by simp
      moreover have "e = b" using True Some by (simp add: e_def)
      moreover have "start \<le> lo" by (simp add: lo_def)
      ultimately show ?thesis using m(1) by linarith
    next
      case None
      show ?thesis
      proof (cases "find_space s m")
        case sp: (Some b)
        then have "b \<le> m \<and> m - b \<le> 200"
          using space_bounds [of s m m b] unfolding find_space_def Let_def mm by simp
        moreover have "e = b" using True None sp by (simp add: e_def)
        ultimately show ?thesis using ms assms(1) by linarith
      next
        case sp: None
        then have "e = m" using True None by (simp add: e_def)
        then show ?thesis using m(1) by simp
      qed
    qed
  qed
  show "start < window_end s target start"
    unfolding w using e round_up_ge [of e s] by linarith
  show "window_end s target start \<le> round_up s (min (start + target) (length s))"
    unfolding w m_def [symmetric] using e m(2) by (intro round_up_mono) auto
  show "window_end s target start \<le> length s" "is_char_boundary s (window_end s target start)"
    unfolding w using e m(2) round_up_boundary [of e s] by auto
qed

text \<open>One window after another, none starting past what the ones before it cover.\<close>

fun tiled :: "nat \<Rightarrow> (nat \<times> nat) list \<Rightarrow> nat \<Rightarrow> bool" where
  "tiled c [] n \<longleftrightarrow> c = n"
| "tiled c ((a, b) # ws) n \<longleftrightarrow> a \<le> c \<and> tiled (max c b) ws n"

definition window_ok :: "string \<Rightarrow> nat \<Rightarrow> nat \<times> nat \<Rightarrow> bool" where
  "window_ok s target = (\<lambda>(a, b). a < b \<and> b \<le> round_up s (min (a + target) (length s)) \<and>
     is_char_boundary s a \<and> is_char_boundary s b)"

lemma split_windows_tiled:
  "201 \<le> target \<Longrightarrow> start < length s \<Longrightarrow> is_char_boundary s start \<Longrightarrow> start \<le> c \<Longrightarrow> c \<le> length s \<Longrightarrow>
    \<exists>ws. split_windows s target overlap start = Some ws \<and> tiled c ws (length s) \<and> list_all (window_ok s target) ws"
proof (induction s target overlap start arbitrary: c rule: split_windows.induct)
  case (1 s target overlap start)
  let ?e = "window_end s target start"
  note w = window_end_bounds [OF 1(2,3)]
  have ok: "window_ok s target (start, ?e)"
    using w 1(4) by (simp add: window_ok_def)
  show ?case
  proof (cases "?e = length s")
    case True
    then have "split_windows s target overlap start = Some [(start, ?e)]"
      using 1(3) w(1) by (subst split_windows.simps) (simp add: Let_def)
    then show ?thesis using ok 1(5,6) True by auto
  next
    case False
    then have lt: "?e < length s" using w(3) by simp
    let ?a = "max ((?e - start) - overlap) 1"
    let ?n = "round_up s (start + ?a)"
    have le: "start + ?a \<le> ?e" using w(1) by auto
    have n: "?n \<le> ?e" "is_char_boundary s ?n"
      using round_up_least [OF le w(4)] round_up_boundary [of "start + ?a" s] le lt by auto
    have step: "split_windows s target overlap start = map_option (Cons (start, ?e)) (split_windows s target overlap ?n)"
      using 1(3) w(1) lt by (subst split_windows.simps) (simp add: Let_def)
    have g: "\<not> length s \<le> start" "\<not> ?e < start" "\<not> length s \<le> ?e"
      using 1(3) w(1) lt by auto
    have "\<exists>ws. split_windows s target overlap ?n = Some ws \<and> tiled (max c ?e) ws (length s) \<and> list_all (window_ok s target) ws"
      by (rule 1(1) [OF g(1) refl g(2,3) refl 1(2)]) (use n lt 1(6) in auto)
    then obtain ws where "split_windows s target overlap ?n = Some ws" "tiled (max c ?e) ws (length s)" "list_all (window_ok s target) ws"
      by blast
    then show ?thesis using step ok 1(5) by auto
  qed
qed

lemma tiled_covers: "tiled c ws n \<Longrightarrow> (\<Union>(a, b) \<in> set ws. {a..<b}) \<union> {0..<c} = {0..<n}"
proof (induction c ws n rule: tiled.induct)
  case (2 c a b ws n)
  then have "{a..<b} \<union> {0..<c} = {0..<max c b}" by auto
  then show ?case using 2 by auto
qed simp

lemma trim_sub: "set (trim s) \<subseteq> set s"
  using trim_infix [of s] by (metis Un_upper1 Un_upper2 order_trans set_append)

text \<open>
  C20. With a target of more than 200 bytes (the default is 1600) the chunker returns for every body, and
  its windows cover the whole body: they lie on character boundaries, are never empty, end at most at
  the first boundary from the target on, and together contain every byte.
\<close>

theorem chunker_covers:
  assumes "201 \<le> target" "s \<noteq> []"
  shows "\<exists>ws. split_windows s target overlap 0 = Some ws \<and> (\<Union>(a, b) \<in> set ws. {a..<b}) = {0..<length s} \<and>
    list_all (window_ok s target) ws \<and>
    split_text s target overlap = Some (filter (\<lambda>t. t \<noteq> []) (map (trim \<circ> window_text s) ws))"
proof -
  obtain ws where "split_windows s target overlap 0 = Some ws" "tiled 0 ws (length s)" "list_all (window_ok s target) ws"
    using split_windows_tiled [of target 0 s 0 overlap] assms by (auto simp: is_char_boundary_def)
  then show ?thesis
    using tiled_covers [of 0 ws "length s"] by (intro exI [of _ ws]) (simp add: split_text_def)
qed

theorem chunker_covers_witness:
  "\<exists>ws. split_windows ''One. Two.'' 1600 200 0 = Some ws \<and> (\<Union>(a, b) \<in> set ws. {a..<b}) = {0..<9}"
  using chunker_covers [of 1600 "''One. Two.''" 200] by auto

text \<open>A small target makes the search for a space reach before the window, and the slice panics.\<close>

lemma small_target_panics: "split_text ''a bcdefgh'' 3 0 = None"
proof -
  have b: "is_char_boundary ''a bcdefgh'' i" if "i \<le> 9" for i
    using that by (intro is_ascii_boundary) (simp_all add: is_ascii_def)
  have r: "round_up ''a bcdefgh'' i = i" if "i \<le> 9" for i
    using b [OF that] by (subst round_up.simps) simp
  have e: "window_end ''a bcdefgh'' 3 0 = Suc (Suc 0)" "window_end ''a bcdefgh'' 3 (Suc (Suc 0)) = Suc (Suc 0)"
      "window_end ''a bcdefgh'' 3 (Suc (Suc (Suc 0))) = Suc (Suc 0)"
    using r [of "Suc (Suc 0)"]
    by (simp_all add: window_end_def find_sentence_end_def find_space_def sentence_end_loop.simps space_loop.simps)
  have w3: "split_windows ''a bcdefgh'' 3 0 (Suc (Suc (Suc 0))) = None"
    by (subst split_windows.simps) (simp add: e Let_def)
  have w2: "split_windows ''a bcdefgh'' 3 0 (Suc (Suc 0)) = None"
    using w3 r [of "Suc (Suc (Suc 0))"] by (subst split_windows.simps) (simp add: e Let_def)
  have "split_windows ''a bcdefgh'' 3 0 0 = None"
    using w2 r [of "Suc (Suc 0)"] by (subst split_windows.simps) (simp add: e Let_def)
  then show ?thesis by (simp add: split_text_def)
qed

section \<open>Chunks of a document\<close>

lemma split_text_total:
  assumes "201 \<le> target"
  shows "\<exists>ts. split_text s target overlap = Some ts \<and> list_all (\<lambda>t. t \<noteq> []) ts"
proof (cases "s = []")
  case True
  then show ?thesis by (simp add: split_text_def split_windows.simps)
next
  case False
  then obtain ws where "split_windows s target overlap 0 = Some ws"
    using split_windows_tiled [of target 0 s 0 overlap] assms by (auto simp: is_char_boundary_def)
  then show ?thesis by (simp add: split_text_def list_all_iff)
qed

text \<open>The chunks of a document have distinct ids in order and carry its text after the prefix.\<close>

lemma chunk_document_total:
  assumes "201 \<le> cc_target_chars cfg"
  shows "\<exists>cs :: 'f chunk list. chunk_document doc cfg = Some cs \<and> distinct (map ch_id cs) \<and>
    list_all (\<lambda>c. ch_document_id c = doc_id doc \<and> ch_domain c = doc_domain doc \<and> ch_embedding c = None) cs"
proof (cases "trim (doc_body doc) = []")
  case True
  then show ?thesis by (simp add: chunk_document_def)
next
  case False
  obtain ts where ts: "split_text (trim (doc_body doc)) (cc_target_chars cfg) (cc_overlap_chars cfg) = Some ts"
    using split_text_total [OF assms] by blast
  have cs: "chunk_document doc cfg = Some (map (make_chunk doc cfg) (enumerate 0 ts))"
    using False ts by (simp add: chunk_document_def Let_def)
  have ids: "map ch_id (map (make_chunk doc cfg) xs :: 'f chunk list) = map (\<lambda>i. doc_id doc @ ''#chunk-'' @ show_nat i) (map fst xs)" for xs
    unfolding map_map by (rule map_cong) (auto simp: make_chunk_def)
  have "distinct (map (\<lambda>i. doc_id doc @ ''#chunk-'' @ show_nat i) [0..<n])" for n
    by (simp add: distinct_map inj_on_def) (metis show_nat_inj)
  then have "distinct (map ch_id (map (make_chunk doc cfg) (enumerate 0 ts) :: 'f chunk list))"
    unfolding ids map_fst_enumerate by blast
  moreover have "list_all (\<lambda>c. ch_document_id c = doc_id doc \<and> ch_domain c = doc_domain doc \<and> ch_embedding c = None)
      (map (make_chunk doc cfg) (enumerate 0 ts) :: 'f chunk list)"
    by (auto simp: list_all_iff make_chunk_def)
  ultimately show ?thesis using cs by blast
qed

section \<open>What the pipeline stores\<close>

definition no_embedding :: "'f chunk \<Rightarrow> 'f chunk" where
  "no_embedding c = c\<lparr> ch_embedding := None \<rparr>"

definition embedder_ok :: "'f embedder \<Rightarrow> bool" where
  "embedder_ok emb \<longleftrightarrow> (\<forall>texts. \<exists>vs. emb texts = Inr vs \<and> length vs = length texts)"

text \<open>
  The embeddings of chunks that go to the embedder \<open>n\<close> at a time: those of the \<open>i\<close>-th group are its answer to the
  texts of that group, in order.
\<close>

definition embedded_by :: "'f embedder \<Rightarrow> nat \<Rightarrow> 'f chunk list \<Rightarrow> bool" where
  "embedded_by emb n cs \<longleftrightarrow>
     (\<forall>i. i * n < length cs \<longrightarrow>
        (\<exists>vs. emb (map ch_text (take n (drop (i * n) cs))) = Inr vs \<and> map ch_embedding (take n (drop (i * n) cs)) = map Some vs))"

lemma zip_embed:
  assumes "length vs = length cs"
  defines "es \<equiv> map (\<lambda>(c, v). c\<lparr> ch_embedding := Some v \<rparr>) (zip cs vs)"
  shows "map no_embedding es = map no_embedding cs" "map ch_embedding es = map Some vs" "map ch_text es = map ch_text cs"
  using assms(1) unfolding es_def by (induction vs cs rule: list_induct2) (simp_all add: no_embedding_def)

lemma embedded_by_append:
  assumes "0 < n" "emb (map ch_text es) = Inr vs" "map ch_embedding es = map Some vs" "embedded_by emb n rest"
    "length es \<le> n" "rest \<noteq> [] \<Longrightarrow> length es = n" "es \<noteq> []"
  shows "embedded_by emb n (es @ rest)"
  unfolding embedded_by_def
proof (intro allI impI)
  fix i assume i: "i * n < length (es @ rest)"
  show "\<exists>vs. emb (map ch_text (take n (drop (i * n) (es @ rest)))) = Inr vs \<and>
      map ch_embedding (take n (drop (i * n) (es @ rest))) = map Some vs"
  proof (cases i)
    case 0
    have "take n (es @ rest) = es" using assms(5,6) by (cases "rest = []") simp_all
    with 0 assms(2,3) show ?thesis by simp
  next
    case (Suc j)
    have "rest \<noteq> []" using i Suc assms(1,5) by (cases "rest = []") auto
    then have "length es = n" by (rule assms(6))
    with i Suc assms(4) show ?thesis by (auto simp: embedded_by_def)
  qed
qed

lemma embed_batches_all:
  assumes "embedder_ok emb" "0 < n"
  shows "\<exists>es. embed_batches emb (chunks_of n cs) = Inr es \<and> map no_embedding es = map no_embedding cs \<and> embedded_by emb n es"
  using assms(2)
proof (induction n cs rule: chunks_of.induct)
  case (1 n cs)
  show ?case
  proof (cases "cs = []")
    case True
    then show ?thesis by (simp add: chunks_of.simps embedded_by_def)
  next
    case False
    let ?b = "take n cs"
    obtain vs where vs: "emb (map ch_text ?b) = Inr vs" "length vs = length ?b"
      using assms(1) unfolding embedder_ok_def by (metis length_map)
    let ?es = "map (\<lambda>(c, v). c\<lparr> ch_embedding := Some v \<rparr>) (zip ?b vs)"
    note z = zip_embed [OF vs(2)]
    obtain rest where rest: "embed_batches emb (chunks_of n (drop n cs)) = Inr rest"
      "map no_embedding rest = map no_embedding (drop n cs)" "embedded_by emb n rest"
      using 1 False by auto
    have len: "length ?es = min n (length cs)" "length rest = length cs - n"
      using vs(2) rest(2) by (simp, metis length_drop length_map)
    have "embedded_by emb n (?es @ rest)"
    proof (rule embedded_by_append [OF 1(2) _ z(2) rest(3)])
      show "emb (map ch_text ?es) = Inr vs" using vs(1) z(3) by simp
      show "length ?es \<le> n" using len(1) by simp
      show "rest \<noteq> [] \<Longrightarrow> length ?es = n" using len by (cases "length cs \<le> n") auto
      show "?es \<noteq> []" using len(1) 1(2) False by (metis length_greater_0_conv min_less_iff_conj)
    qed
    moreover have "map no_embedding (?es @ rest) = map no_embedding cs"
      using z(1) rest(2) by (metis append_take_drop_id map_append)
    moreover have "embed_batches emb (chunks_of n cs) = Inr (?es @ rest)"
      using False 1(2) vs(1) rest(1) by (subst chunks_of.simps) simp
    ultimately show ?thesis by blast
  qed
qed

text \<open>The batches of a run: one per document with chunks, its chunks embedded.\<close>

definition batch_of :: "'f embedder \<Rightarrow> nat \<Rightarrow> chunker_config \<Rightarrow> document \<Rightarrow> 'f upsert_batch \<Rightarrow> bool" where
  "batch_of emb n cfg doc b \<longleftrightarrow> ub_documents b = [doc] \<and> chunk_document doc cfg = Some (map no_embedding (ub_chunks b)) \<and>
     ub_chunks b \<noteq> [] \<and> embedded_by emb n (ub_chunks b)"

lemma chunk_document_no_embedding: "chunk_document doc cfg = Some cs \<Longrightarrow> map no_embedding cs = cs"
  by (auto simp: chunk_document_def make_chunk_def no_embedding_def Let_def split: if_splits)

lemma ingest_loop_stores:
  assumes "201 \<le> cc_target_chars cfg" "0 < batch" "embedder_ok emb"
  shows "\<exists>bs report'. ingest_loop h emb cfg batch docs report kb = Some (Inr report', fold (upsert h) bs kb) \<and>
    list_all2 (batch_of emb batch cfg) (filter (\<lambda>d. chunk_document d cfg \<noteq> Some ([] :: 'f chunk list)) docs) bs \<and>
    ir_documents report' = ir_documents report + length bs \<and>
    ir_chunks report' = ir_chunks report + sum_list (map (length \<circ> ub_chunks) (bs :: 'f upsert_batch list))"
proof (induction docs arbitrary: report kb)
  case Nil
  show ?case by (intro exI [of _ "[]"] exI [of _ report]) simp
next
  case (Cons doc docs)
  obtain cs :: "'f chunk list" where cs: "chunk_document doc cfg = Some cs"
    using chunk_document_total [OF assms(1), of doc] by blast
  show ?case
  proof (cases "cs = []")
    case True
    then show ?thesis using Cons.IH [of report kb] cs by simp
  next
    case False
    obtain es where es: "embed_batches emb (chunks_of batch cs) = Inr es" "map no_embedding es = map no_embedding cs"
      "embedded_by emb batch es"
      using embed_batches_all [OF assms(3,2), of cs] by blast
    have len: "length es = length cs" using es(2) by (metis length_map)
    let ?b = "\<lparr> ub_documents = [doc], ub_chunks = es \<rparr>"
    let ?r = "\<lparr> ir_documents = ir_documents report + 1, ir_chunks = ir_chunks report + length cs \<rparr>"
    obtain bs report' where IH: "ingest_loop h emb cfg batch docs ?r (upsert h ?b kb) = Some (Inr report', fold (upsert h) bs (upsert h ?b kb))"
      "list_all2 (batch_of emb batch cfg) (filter (\<lambda>d. chunk_document d cfg \<noteq> Some ([] :: 'f chunk list)) docs) bs"
      "ir_documents report' = ir_documents ?r + length bs" "ir_chunks report' = ir_chunks ?r + sum_list (map (length \<circ> ub_chunks) bs)"
      using Cons.IH [of ?r "upsert h ?b kb"] by blast
    have b: "batch_of emb batch cfg doc ?b"
      using cs es False len chunk_document_no_embedding [OF cs] by (auto simp: batch_of_def)
    have "ingest_loop h emb cfg batch (doc # docs) report kb = Some (Inr report', fold (upsert h) (?b # bs) kb)"
      using cs False assms(2) es(1) IH(1) by simp
    then show ?thesis
      using IH(2-4) b cs False len by (intro exI [of _ "?b # bs"] exI [of _ report']) (simp add: o_def)
  qed
qed

text \<open>
  C21. With an embedder that answers one vector per text and the default chunking, ingestion succeeds and
  stores, for each document that has text, that document and all of its chunks, one batch per document in order,
  where the embedding of a chunk is the embedder's answer to its text: the chunks go to the embedder \<open>batch\<close> at a
  time, and the vectors of each answer belong to the texts of that call, in order; the report counts exactly those documents and chunks.
\<close>

theorem ingest_stores_all:
  assumes "201 \<le> cc_target_chars cfg" "0 < batch" "embedder_ok (emb :: 'f embedder)"
  shows "\<exists>bs report. ingest h emb cfg batch docs kb = Some (Inr report, fold (upsert h) bs kb) \<and>
    list_all2 (batch_of emb batch cfg) (filter (\<lambda>d. chunk_document d cfg \<noteq> Some ([] :: 'f chunk list)) docs) bs \<and>
    report = \<lparr> ir_documents = length bs, ir_chunks = sum_list (map (length \<circ> ub_chunks) bs) \<rparr>"
proof -
  obtain bs report where "ingest h emb cfg batch docs kb = Some (Inr report, fold (upsert h) bs kb)"
    "list_all2 (batch_of emb batch cfg) (filter (\<lambda>d. chunk_document d cfg \<noteq> Some ([] :: 'f chunk list)) docs) bs"
    "ir_documents report = length bs" "ir_chunks report = sum_list (map (length \<circ> ub_chunks) bs)"
    using ingest_loop_stores [OF assms, of h docs "\<lparr> ir_documents = 0, ir_chunks = 0 \<rparr>" kb] by (auto simp: ingest_def)
  then show ?thesis by (intro exI [of _ bs] exI [of _ report]) simp
qed

theorem ingest_stores_all_witness:
  "\<exists>bs report. ingest id (\<lambda>texts. Inr (map (\<lambda>_. [1 :: rat]) texts)) chunker_default 32
      [document_new id ''sap_help:demo'' SapHelp ''u'' ''Demo'' ''Open posting periods.''] kb_new
      = Some (Inr report, fold (upsert id) bs kb_new) \<and> ir_documents report = length bs"
  using ingest_stores_all [where cfg = chunker_default and batch = 32 and emb = "\<lambda>texts. Inr (map (\<lambda>_. [1 :: rat]) texts)"
      and h = id and docs = "[document_new id ''sap_help:demo'' SapHelp ''u'' ''Demo'' ''Open posting periods.'']" and kb = kb_new]
  by (auto simp: chunker_default_def embedder_ok_def)

section \<open>The block filter keeps blocks\<close>

lemma length_block_scores [simp]: "length (block_scores F alnum blocks ts k1 b) = length blocks"
  by (simp add: block_scores_def Let_def)

lemma keep_block_long: "fc_keep_block_chars cfg \<le> length b \<Longrightarrow> keep_block F cfg (b, x)"
  by (simp add: keep_block_def)

lemma keep_block_kept: "keep_block F cfg (b, x) \<Longrightarrow> min (fc_min_block_chars cfg) (fc_keep_block_chars cfg) \<le> length b"
  by (auto simp: keep_block_def min_le_iff_disj split: if_splits)

text \<open>The filter keeps blocks of the body in order, every long one and no short one.\<close>

lemma fit_filter_blocks:
  "\<exists>kept. fst (fit_markdown_filter F alnum body topic cfg) = join [CHR 0x0A, CHR 0x0A] kept \<and> subseq kept (body_blocks body) \<and>
     filter (\<lambda>b. length b \<ge> fc_keep_block_chars cfg) kept = filter (\<lambda>b. length b \<ge> fc_keep_block_chars cfg) (body_blocks body) \<and>
     list_all (\<lambda>b. length b \<ge> min (fc_min_block_chars cfg) (fc_keep_block_chars cfg)) kept"
proof -
  let ?bs = "body_blocks body"
  let ?sc = "block_scores F alnum ?bs (tokenize_loop alnum [] (utf8_chars topic)) (fc_k1 cfg) (fc_b cfg)"
  have zip: "subseq (map fst (filter (keep_block F cfg) (zip bs sc))) bs \<and>
      filter (\<lambda>b. length b \<ge> fc_keep_block_chars cfg) (map fst (filter (keep_block F cfg) (zip bs sc)))
        = filter (\<lambda>b. length b \<ge> fc_keep_block_chars cfg) bs \<and>
      list_all (\<lambda>b. length b \<ge> min (fc_min_block_chars cfg) (fc_keep_block_chars cfg)) (map fst (filter (keep_block F cfg) (zip bs sc)))"
    if "length sc = length bs" for bs sc
    using that by (induction sc bs rule: list_induct2) (auto simp: keep_block_long keep_block_kept)
  show ?thesis
  proof (cases "?bs = []")
    case True
    then show ?thesis by (intro exI [of _ "[]"]) (simp add: fit_markdown_filter_def)
  next
    case False
    then have "fst (fit_markdown_filter F alnum body topic cfg) = join [CHR 0x0A, CHR 0x0A] (map fst (filter (keep_block F cfg) (zip ?bs ?sc)))"
      by (simp add: fit_markdown_filter_def Let_def)
    then show ?thesis using zip [of ?sc ?bs] by (intro exI [of _ "map fst (filter (keep_block F cfg) (zip ?bs ?sc))"]) simp
  qed
qed

end
