(* ===== verification/Json.thy ===== *)
theory Json
  imports Prelude
begin

text \<open>
  \<open>serde_json::Value\<close> and the accessors the sources use. \<open>serde_json\<close> is built without
  \<open>preserve_order\<close>, so an object is a \<open>BTreeMap\<close>: its keys are strictly ascending bytewise
  (\<open>json_wf\<close>), and iteration visits them in that order. An integer number is kept as its value;
  any other number is kept as the text \<open>serde_json\<close> prints for it.
\<close>

datatype number = NInt int | NFloat string

datatype json =
    JNull
  | JBool bool
  | JNumber number
  | JString string
  | JArray "json list"
  | JObject "(string \<times> json) list"

type_synonym jmap = "(string, json) amap"

section \<open>Accessors\<close>

fun as_str :: "json \<Rightarrow> string option" where
  "as_str (JString s) = Some s"
| "as_str _ = None"

fun as_object :: "json \<Rightarrow> jmap option" where
  "as_object (JObject m) = Some m"
| "as_object _ = None"

fun as_array :: "json \<Rightarrow> json list option" where
  "as_array (JArray xs) = Some xs"
| "as_array _ = None"

fun as_bool :: "json \<Rightarrow> bool option" where
  "as_bool (JBool b) = Some b"
| "as_bool _ = None"

fun as_u64 :: "json \<Rightarrow> nat option" where
  "as_u64 (JNumber (NInt i)) = (if 0 \<le> i \<and> i < 2 ^ 64 then Some (nat i) else None)"
| "as_u64 _ = None"

fun is_number :: "json \<Rightarrow> bool" where
  "is_number (JNumber _) = True"
| "is_number _ = False"

fun is_object :: "json \<Rightarrow> bool" where
  "is_object (JObject _) = True"
| "is_object _ = False"

text \<open>\<open>Value::get(key)\<close>: \<open>None\<close> on anything but an object that has the key.\<close>

fun json_get :: "string \<Rightarrow> json \<Rightarrow> json option" where
  "json_get k (JObject m) = map_of m k"
| "json_get k _ = None"

text \<open>\<open>map.contains_key(k)\<close>.\<close>

definition has_key :: "string \<Rightarrow> (string, 'v) amap \<Rightarrow> bool" where
  "has_key k m \<longleftrightarrow> map_of m k \<noteq> None"

lemma has_key_iff: "has_key k m \<longleftrightarrow> k \<in> fst ` set m"
  by (auto simp: has_key_def map_of_eq_None_iff)

text \<open>The \<open>json!\<close> macro on an object literal inserts the entries one after the other.\<close>

definition json_object :: "(string \<times> json) list \<Rightarrow> json" where
  "json_object kvs = JObject (amap_of kvs)"

section \<open>Well-formedness\<close>

fun json_wf :: "json \<Rightarrow> bool" where
  "json_wf (JArray xs) = list_all json_wf xs"
| "json_wf (JObject m) = (amap_wf m \<and> list_all (\<lambda>(k, v). json_wf v) m)"
| "json_wf _ = True"

lemma amap_insert_values: "set (amap_insert k v m) \<subseteq> insert (k, v) (set m)"
proof (induction m)
  case (Cons x m)
  then show ?case by (cases x) auto
qed simp

lemma json_wf_insert:
  "json_wf (JObject m) \<Longrightarrow> json_wf v \<Longrightarrow> json_wf (JObject (amap_insert k v m))"
  using amap_insert_values [of k v m] by (auto simp: list_all_iff)

lemma json_wf_object:
  assumes "list_all (\<lambda>(k, v). json_wf v) kvs" shows "json_wf (json_object kvs)"
proof -
  have "json_wf (JObject m) \<Longrightarrow> list_all (\<lambda>(k, v). json_wf v) kvs
    \<Longrightarrow> json_wf (JObject (fold (\<lambda>(k, v) m. amap_insert k v m) kvs m))" for m
  proof (induction kvs arbitrary: m)
    case (Cons x kvs)
    then show ?case
      by (cases x) (simp add: json_wf_insert del: json_wf.simps)
  qed simp
  from this [of "[]"] assms show ?thesis by (simp add: json_object_def amap_of_def)
qed

section \<open>Compact printing\<close>

text \<open>
  \<open>Value::to_string\<close>: no spaces, object entries in key order, and the escapes of
  \<open>serde_json\<close>'s compact formatter (a control character without a short escape is
  \<open>\u00xx\<close> with lower-case hexadecimal digits; bytes from 127 on are copied).
\<close>

definition hex_digit :: "nat \<Rightarrow> char" where
  "hex_digit d = (if d < 10 then char_of (48 + d) else char_of (87 + d))"

definition json_escape_char :: "char \<Rightarrow> string" where
  "json_escape_char c =
     (let n = code c in
      if n = 34 then [char_of (92::nat), char_of (34::nat)]
      else if n = 92 then [char_of (92::nat), char_of (92::nat)]
      else if n = 8 then [char_of (92::nat), CHR ''b'']
      else if n = 12 then [char_of (92::nat), CHR ''f'']
      else if n = 10 then [char_of (92::nat), CHR ''n'']
      else if n = 13 then [char_of (92::nat), CHR ''r'']
      else if n = 9 then [char_of (92::nat), CHR ''t'']
      else if n < 32 then [char_of (92::nat)] @ ''u00'' @ [hex_digit (n div 16), hex_digit (n mod 16)]
      else [c])"

definition json_quote :: "string \<Rightarrow> string" where
  "json_quote s = char_of (34::nat) # concat (map json_escape_char s) @ [char_of (34::nat)]"

fun number_to_string :: "number \<Rightarrow> string" where
  "number_to_string (NInt i) = show_int i"
| "number_to_string (NFloat s) = s"

fun json_to_string :: "json \<Rightarrow> string" where
  "json_to_string JNull = ''null''"
| "json_to_string (JBool b) = (if b then ''true'' else ''false'')"
| "json_to_string (JNumber n) = number_to_string n"
| "json_to_string (JString s) = json_quote s"
| "json_to_string (JArray xs) = ''['' @ join '','' (map json_to_string xs) @ '']''"
| "json_to_string (JObject m) =
     ''{'' @ join '','' (map (\<lambda>(k, v). json_quote k @ '':'' @ json_to_string v) m) @ ''}''"

end
