(* ===== verification/Memory.thy ===== *)
theory Memory
  imports Json
begin

text \<open>
  Conversation memory (\<open>sap-automate-memory/src/lib.rs\<close>): the per-session ring buffers of the working
  tier, the tagged episodes with their tenants, and the assembly of a context. The clock is a parameter
  of the constructor of an entry.
\<close>

datatype tier = Working | Episodic | Semantic | Procedural

record memory_entry =
  me_tier :: tier
  me_key :: string
  me_value :: json
  me_trust_class :: string
  me_tenant :: "string option"
  me_created_at_ms :: nat

definition memory_entry_new :: "nat \<Rightarrow> tier \<Rightarrow> string \<Rightarrow> json \<Rightarrow> memory_entry" where
  "memory_entry_new now_ms t k v =
     \<lparr> me_tier = t, me_key = k, me_value = v, me_trust_class = ''unverified'', me_tenant = None, me_created_at_ms = now_ms \<rparr>"

definition with_trust :: "string \<Rightarrow> memory_entry \<Rightarrow> memory_entry" where
  "with_trust t e = e\<lparr> me_trust_class := t \<rparr>"

definition with_tenant :: "string \<Rightarrow> memory_entry \<Rightarrow> memory_entry" where
  "with_tenant t e = e\<lparr> me_tenant := Some t \<rparr>"

section \<open>Working memory\<close>

record working_memory =
  wm_sessions :: "(string, memory_entry list) amap"
  wm_cap :: nat

definition with_capacity :: "nat \<Rightarrow> working_memory" where
  "with_capacity cap = \<lparr> wm_sessions = [], wm_cap = max cap 1 \<rparr>"

definition DEFAULT_WORKING_CAP :: nat where
  "DEFAULT_WORKING_CAP = 64"

definition working_new :: working_memory where
  "working_new = with_capacity DEFAULT_WORKING_CAP"

text \<open>The derived \<open>Default\<close> has capacity 0, which \<open>with_capacity\<close> never gives.\<close>

definition working_default :: working_memory where
  "working_default = \<lparr> wm_sessions = [], wm_cap = 0 \<rparr>"

definition session_queue :: "working_memory \<Rightarrow> string \<Rightarrow> memory_entry list" where
  "session_queue m s = (case map_of (wm_sessions m) s of None \<Rightarrow> [] | Some q \<Rightarrow> q)"

definition wm_append :: "string \<Rightarrow> memory_entry \<Rightarrow> working_memory \<Rightarrow> working_memory" where
  "wm_append s e m =
     (let q = session_queue m s;
          q = (if length q = wm_cap m then tl q else q)
      in m\<lparr> wm_sessions := amap_insert s (q @ [e]) (wm_sessions m) \<rparr>)"

definition recent :: "string \<Rightarrow> nat \<Rightarrow> working_memory \<Rightarrow> memory_entry list" where
  "recent s limit m = (case map_of (wm_sessions m) s of Some q \<Rightarrow> take limit (rev q) | None \<Rightarrow> [])"

definition wm_clear :: "string \<Rightarrow> working_memory \<Rightarrow> working_memory" where
  "wm_clear s m = m\<lparr> wm_sessions := amap_remove s (wm_sessions m) \<rparr>"

definition session_count :: "working_memory \<Rightarrow> nat" where
  "session_count m = length (wm_sessions m)"

section \<open>Episodic memory\<close>

record episodic_memory =
  em_entries :: "memory_entry list"
  em_by_tag :: "(string, nat list) amap"

definition episodic_new :: episodic_memory where
  "episodic_new = \<lparr> em_entries = [], em_by_tag = [] \<rparr>"

definition tag_push :: "nat \<Rightarrow> string \<Rightarrow> (string, nat list) amap \<Rightarrow> (string, nat list) amap" where
  "tag_push idx t m = amap_insert t ((case map_of m t of None \<Rightarrow> [] | Some is \<Rightarrow> is) @ [idx]) m"

definition em_record :: "memory_entry \<Rightarrow> string list \<Rightarrow> episodic_memory \<Rightarrow> nat \<times> episodic_memory" where
  "em_record e tags m =
     (let entries = em_entries m @ [e]; idx = length entries - 1
      in (idx, \<lparr> em_entries = entries, em_by_tag = fold (tag_push idx) tags (em_by_tag m) \<rparr>))"

definition tenant_sees :: "string option \<Rightarrow> memory_entry \<Rightarrow> bool" where
  "tenant_sees tenant e =
     (case (tenant, me_tenant e) of (Some t, Some et) \<Rightarrow> t = et | (Some _, None) \<Rightarrow> True | (None, _) \<Rightarrow> True)"

definition by_tag :: "string \<Rightarrow> string option \<Rightarrow> nat \<Rightarrow> episodic_memory \<Rightarrow> memory_entry list" where
  "by_tag tag tenant limit m =
     (let idxs = (case map_of (em_by_tag m) tag of None \<Rightarrow> [] | Some is \<Rightarrow> is);
          found = List.map_filter (\<lambda>i. if i < length (em_entries m) then Some (em_entries m ! i) else None) (rev idxs)
      in rev (take limit (filter (tenant_sees tenant) found)))"

definition em_total :: "episodic_memory \<Rightarrow> nat" where
  "em_total m = length (em_entries m)"

section \<open>The manager\<close>

record memory_manager =
  mm_working :: working_memory
  mm_episodic :: episodic_memory

definition manager_new :: memory_manager where
  "manager_new = \<lparr> mm_working = working_new, mm_episodic = episodic_new \<rparr>"

definition assemble_context :: "string \<Rightarrow> string option \<Rightarrow> string option \<Rightarrow> memory_manager \<Rightarrow> memory_entry list" where
  "assemble_context s tag tenant mm =
     recent s 8 (mm_working mm) @ (case tag of None \<Rightarrow> [] | Some t \<Rightarrow> by_tag t tenant 8 (mm_episodic mm))"

section \<open>The ring buffers\<close>

datatype wm_op = Append string memory_entry | Clear string

fun wm_apply :: "wm_op \<Rightarrow> working_memory \<Rightarrow> working_memory" where
  "wm_apply (Append s e) m = wm_append s e m"
| "wm_apply (Clear s) m = wm_clear s m"

text \<open>The entries of a session since its last clear.\<close>

fun since_clear :: "string \<Rightarrow> wm_op list \<Rightarrow> memory_entry list \<Rightarrow> memory_entry list" where
  "since_clear s [] acc = acc"
| "since_clear s (Append s' e # ops) acc = since_clear s ops (if s' = s then acc @ [e] else acc)"
| "since_clear s (Clear s' # ops) acc = since_clear s ops (if s' = s then [] else acc)"

definition last_n :: "nat \<Rightarrow> 'a list \<Rightarrow> 'a list" where
  "last_n n xs = drop (length xs - n) xs"

lemma last_n_snoc:
  assumes "0 < n"
  shows "last_n n (xs @ [x]) = (if length (last_n n xs) = n then tl (last_n n xs) else last_n n xs) @ [x]"
proof (cases "n \<le> length xs")
  case True
  then have "drop (Suc (length xs) - n) xs = tl (drop (length xs - n) xs)"
    by (simp add: Suc_diff_le drop_Suc tl_drop)
  with True assms show ?thesis by (simp add: last_n_def)
qed (use assms in \<open>simp add: last_n_def\<close>)

lemma rev_last_n: "rev (last_n n xs) = take n (rev xs)"
  by (cases "n \<le> length xs") (simp_all add: last_n_def rev_drop)

lemma session_queue_append:
  "amap_wf (wm_sessions m) \<Longrightarrow> session_queue (wm_append s e m) s' =
     (if s' = s then (if length (session_queue m s) = wm_cap m then tl (session_queue m s) else session_queue m s) @ [e]
      else session_queue m s')"
  by (simp add: session_queue_def wm_append_def Let_def)

lemma session_queue_clear: "session_queue (wm_clear s m) s' = (if s' = s then [] else session_queue m s')"
  by (simp add: session_queue_def wm_clear_def)

lemma wm_apply_inv: "amap_wf (wm_sessions m) \<Longrightarrow> amap_wf (wm_sessions (wm_apply op m)) \<and> wm_cap (wm_apply op m) = wm_cap m"
  by (cases op) (simp_all add: wm_append_def wm_clear_def Let_def)

lemma ring_buffer:
  "amap_wf (wm_sessions m) \<Longrightarrow> 0 < wm_cap m \<Longrightarrow> session_queue m s = last_n (wm_cap m) acc \<Longrightarrow>
     session_queue (fold wm_apply ops m) s = last_n (wm_cap m) (since_clear s ops acc)"
proof (induction ops arbitrary: m acc)
  case (Cons op ops)
  note inv = wm_apply_inv [OF Cons.prems(1), of op]
  show ?case
  proof (cases op)
    case (Append s' e)
    then show ?thesis
      using Cons.IH [of "wm_apply op m" "if s' = s then acc @ [e] else acc"] inv Cons.prems
      by (auto simp: session_queue_append last_n_snoc)
  next
    case (Clear s')
    then show ?thesis
      using Cons.IH [of "wm_apply op m" "if s' = s then [] else acc"] inv Cons.prems
      by (auto simp: session_queue_clear last_n_def)
  qed
qed simp

lemma recent_queue: "recent s n m = take n (rev (session_queue m s))"
  by (simp add: recent_def session_queue_def split: option.split)

text \<open>
  Working memory is a ring buffer per session: after any operations on a store made with a
  capacity, \<open>recent\<close> gives the newest entries of that session since it was last cleared, newest first,
  never more than the capacity, and the other sessions do not matter.
\<close>

lemma recent_is_newest:
  "recent s limit (fold wm_apply ops (with_capacity cap)) =
     take (min limit (max cap 1)) (rev (since_clear s ops []))"
proof -
  have "session_queue (fold wm_apply ops (with_capacity cap)) s = last_n (max cap 1) (since_clear s ops [])"
    using ring_buffer [of "with_capacity cap" s "[]" ops] by (simp add: with_capacity_def session_queue_def last_n_def)
  then show ?thesis
    by (simp add: recent_queue rev_last_n)
qed

text \<open>The default store, of capacity 0, drops nothing after the first entry.\<close>

lemma default_unbounded:
  "session_queue (fold (wm_append s) es working_default) s = es"
proof -
  have "session_queue (fold (wm_append s) es m) s = session_queue m s @ es"
    if "wm_cap m = 0" "amap_wf (wm_sessions m)" for m
    using that
  proof (induction es arbitrary: m)
    case (Cons e es)
    have "wm_cap (wm_append s e m) = 0" "amap_wf (wm_sessions (wm_append s e m))"
      using Cons.prems by (simp_all add: wm_append_def Let_def)
    then show ?case
      using Cons by (simp add: session_queue_append)
  qed simp
  then show ?thesis by (simp add: working_default_def session_queue_def)
qed

section \<open>Tags and tenants\<close>

text \<open>The entries recorded so far with their tags.\<close>

definition record_all :: "(memory_entry \<times> string list) list \<Rightarrow> episodic_memory" where
  "record_all es = fold (\<lambda>(e, tags) m. snd (em_record e tags m)) es episodic_new"

definition tag_index :: "episodic_memory \<Rightarrow> string \<Rightarrow> nat list" where
  "tag_index m t = (case map_of (em_by_tag m) t of None \<Rightarrow> [] | Some is \<Rightarrow> is)"

lemma tag_push_lookup:
  assumes "amap_wf m"
  shows "amap_wf (fold (tag_push i) ts m)"
    and "(case map_of (fold (tag_push i) ts m) t of None \<Rightarrow> [] | Some is \<Rightarrow> is) =
      (case map_of m t of None \<Rightarrow> [] | Some is \<Rightarrow> is) @ replicate (count_list ts t) i"
  using assms
proof (induction ts arbitrary: m)
  case (Cons u ts)
  {
    case 1
    then show ?case using Cons by (simp add: tag_push_def)
  next
    case 2
    then show ?case
      using Cons.IH(2) [of "tag_push i u m"]
      by (auto simp: tag_push_def replicate_app_Cons_same split: option.splits)
  }
qed simp_all

definition episodes_of :: "string \<Rightarrow> (memory_entry \<times> string list) list \<Rightarrow> memory_entry list" where
  "episodes_of t es = concat (map (\<lambda>(e, tags). replicate (count_list tags t) e) es)"

lemma record_all_snoc: "record_all (es @ [(e, tags)]) = snd (em_record e tags (record_all es))"
  by (simp add: record_all_def)

lemma record_all_spec:
  "em_entries (record_all es) = map fst es \<and> amap_wf (em_by_tag (record_all es)) \<and>
     map (\<lambda>i. map fst es ! i) (tag_index (record_all es) t) = episodes_of t es \<and>
     (\<forall>i \<in> set (tag_index (record_all es) t). i < length es)"
proof (induction es rule: rev_induct)
  case Nil
  then show ?case by (simp add: record_all_def episodic_new_def tag_index_def episodes_of_def)
next
  case (snoc x es)
  obtain e tags where x: "x = (e, tags)" by fastforce
  let ?m = "record_all es"
  have IH: "em_entries ?m = map fst es" "amap_wf (em_by_tag ?m)"
    "map (\<lambda>i. map fst es ! i) (tag_index ?m t) = episodes_of t es" "\<forall>i \<in> set (tag_index ?m t). i < length es"
    using snoc by blast+
  have idx: "tag_index (record_all (es @ [x])) t = tag_index ?m t @ replicate (count_list tags t) (length es)"
    unfolding x record_all_snoc tag_index_def using tag_push_lookup(2) [OF IH(2), of "length es" tags t] IH(1)
    by (simp add: em_record_def Let_def)
  have wf: "em_entries (record_all (es @ [x])) = map fst (es @ [x])" "amap_wf (em_by_tag (record_all (es @ [x])))"
    unfolding x record_all_snoc using IH(1,2) tag_push_lookup(1) by (simp_all add: em_record_def Let_def)
  have "map (\<lambda>i. map fst (es @ [x]) ! i) (tag_index ?m t) = map (\<lambda>i. map fst es ! i) (tag_index ?m t)"
    using IH(4) by (auto simp: nth_append)
  then show ?case
    using IH(3,4) wf unfolding idx by (auto simp: x episodes_of_def nth_append)
qed

text \<open>
  Looking up a tag gives the last \<open>limit\<close> episodes recorded with it that the tenant may see, in the
  order they were recorded; an episode bound to another tenant is never among them.
\<close>

lemma by_tag_tenant_isolated:
  "by_tag t tenant limit (record_all es) = last_n limit (filter (tenant_sees tenant) (episodes_of t es)) \<and>
   list_all (\<lambda>e. tenant = None \<or> me_tenant e = None \<or> me_tenant e = tenant) (by_tag t tenant limit (record_all es))"
proof -
  let ?m = "record_all es"
  note m = record_all_spec [of es t]
  have "List.map_filter (\<lambda>i. if i < length (em_entries ?m) then Some (em_entries ?m ! i) else None) xs = map (\<lambda>i. map fst es ! i) xs"
    if "\<forall>i \<in> set xs. i < length es" for xs
    using that m by (induction xs) (auto simp: List.map_filter_simps)
  then have "List.map_filter (\<lambda>i. if i < length (em_entries ?m) then Some (em_entries ?m ! i) else None) (rev (tag_index ?m t))
      = rev (episodes_of t es)"
    using m by (metis (no_types, lifting) rev_map set_rev)
  then have eq: "by_tag t tenant limit ?m = last_n limit (filter (tenant_sees tenant) (episodes_of t es))"
    unfolding by_tag_def Let_def tag_index_def last_n_def by (simp add: rev_filter [symmetric] rev_take)
  show ?thesis
    unfolding eq by (auto simp: list_all_iff last_n_def tenant_sees_def dest!: in_set_dropD split: option.splits)
qed

end
