(* ===== verification/Scheduler.thy ===== *)
theory Scheduler
  imports Json
begin

text \<open>
  The scheduler (\<open>sap-automate-scheduler/src/lib.rs\<close>): cadences and the time to the next fire, firing
  jobs and the counters. The executor is a function on an explicit world state that also gives the
  clock readings of the run; parsing \<open>scheduler.toml\<close> is the TOML library's.
\<close>

section \<open>Cadences\<close>

datatype schedule =
    EveryNSeconds nat
  | EveryNMinutes nat
  | Hourly nat
  | Daily nat nat
  | Weekly nat nat nat
  | Quarterly nat nat nat

definition target_of_day :: "nat \<Rightarrow> nat \<Rightarrow> nat" where
  "target_of_day hour minute = (hour * 3600 + minute * 60) mod 86400"

definition weekday_of :: "nat \<Rightarrow> nat" where
  "weekday_of now_secs = (now_secs div 86400 + 3) mod 7 + 1"

fun next_in :: "schedule \<Rightarrow> nat \<Rightarrow> nat" where
  "next_in (EveryNSeconds secs) now_secs = secs"
| "next_in (EveryNMinutes mins) now_secs = mins * 60 mod 2 ^ 64"
| "next_in (Hourly minute) now_secs =
     (let m = min minute 59; now_min = now_secs div 60 mod 60;
          delta = (if now_min < m then m - now_min else 60 - (now_min - m))
      in delta * 60)"
| "next_in (Daily hour minute) now_secs =
     (let target_secs = target_of_day hour minute; now_in_day = now_secs mod 86400
      in if now_in_day < target_secs then target_secs - now_in_day else 86400 - (now_in_day - target_secs))"
| "next_in (Weekly weekday hour minute) now_secs =
     (let now_day = weekday_of now_secs; target = max 1 (min weekday 7);
          target_secs = target_of_day hour minute; now_in_day = now_secs mod 86400;
          day_offset = (if now_day \<le> target then target - now_day else 7 - (now_day - target));
          day_offset = (if day_offset = 0 \<and> now_in_day \<ge> target_secs then 7 else day_offset)
      in day_offset * 86400 + (target_secs - now_in_day))"
| "next_in (Quarterly day hour minute) now_secs = 90 * 86400"

section \<open>Jobs\<close>

record scheduled_job =
  sj_name :: string
  sj_schedule :: schedule
  sj_tool :: string
  sj_arguments :: json
  sj_channel :: "string option"
  sj_enabled :: bool

record schedule_report =
  sr_job :: string
  sr_fired_at_ms :: nat
  sr_duration_ms :: nat
  sr_ok :: bool
  sr_summary :: string

record scheduler_stats =
  ss_jobs_declared :: nat
  ss_fires :: nat
  ss_errors :: nat
  ss_last :: "schedule_report option"

record scheduler =
  sc_jobs :: "scheduled_job list"
  sc_stats :: scheduler_stats

definition scheduler_new :: "scheduled_job list \<Rightarrow> scheduler" where
  "scheduler_new jobs = \<lparr> sc_jobs = jobs,
     sc_stats = \<lparr> ss_jobs_declared = length jobs, ss_fires = 0, ss_errors = 0, ss_last = None \<rparr> \<rparr>"

text \<open>The outcome of a run: the result with the time it was fired at and how long it took.\<close>

type_synonym 'w executor = "scheduled_job \<Rightarrow> 'w \<Rightarrow> ((string, string) result \<times> nat \<times> nat) \<times> 'w"

fun report_of :: "scheduled_job \<Rightarrow> (string, string) result \<times> nat \<times> nat \<Rightarrow> schedule_report" where
  "report_of job (Inr s, at, dur) =
     \<lparr> sr_job = sj_name job, sr_fired_at_ms = at, sr_duration_ms = dur, sr_ok = True, sr_summary = s \<rparr>"
| "report_of job (Inl e, at, dur) =
     \<lparr> sr_job = sj_name job, sr_fired_at_ms = at, sr_duration_ms = dur, sr_ok = False, sr_summary = e \<rparr>"

definition count_report :: "schedule_report \<Rightarrow> scheduler \<Rightarrow> scheduler" where
  "count_report r s =
     (let st = sc_stats s
      in s\<lparr> sc_stats := st\<lparr> ss_fires := ss_fires st + 1, ss_errors := (if sr_ok r then ss_errors st else ss_errors st + 1),
             ss_last := Some r \<rparr> \<rparr>)"

definition fire_once ::
  "'w executor \<Rightarrow> nat \<Rightarrow> scheduler \<times> 'w \<Rightarrow> schedule_report option \<times> scheduler \<times> 'w" where
  "fire_once exec idx = (\<lambda>(s, w).
     if idx < length (sc_jobs s) then
       (let job = sc_jobs s ! idx in
        if \<not> sj_enabled job then (None, s, w)
        else (case exec job w of (outcome, w') \<Rightarrow>
                let r = report_of job outcome in (Some r, count_report r s, w')))
     else (None, s, w))"

fun fire_from :: "'w executor \<Rightarrow> nat list \<Rightarrow> scheduler \<times> 'w \<Rightarrow> schedule_report list \<times> scheduler \<times> 'w" where
  "fire_from exec [] sw = ([], sw)"
| "fire_from exec (i # is) sw =
     (case fire_once exec i sw of (r, sw') \<Rightarrow>
        case fire_from exec is sw' of (rs, sw'') \<Rightarrow>
          ((case r of Some r \<Rightarrow> r # rs | None \<Rightarrow> rs), sw''))"

definition fire_all_now :: "'w executor \<Rightarrow> scheduler \<times> 'w \<Rightarrow> schedule_report list \<times> scheduler \<times> 'w" where
  "fire_all_now exec sw = fire_from exec [0..<length (sc_jobs (fst sw))] sw"

section \<open>When a job fires\<close>

lemma target_of_day_less: "target_of_day h m < 86400"
  by (simp add: target_of_day_def)

text \<open>The wait until the next moment at offset \<open>t\<close> of a period \<open>d\<close>.\<close>

definition period_wait :: "nat \<Rightarrow> nat \<Rightarrow> nat \<Rightarrow> nat" where
  "period_wait d t now = (if now mod d < t then t - now mod d else d - (now mod d - t))"

lemma period_wait:
  assumes "t < d"
  shows "(now + period_wait d t now) mod d = t" "0 < period_wait d t now" "period_wait d t now \<le> d"
proof -
  have lt: "now mod d < d" using assms by simp
  have "now mod d + period_wait d t now = (if now mod d < t then t else d + t)"
  proof -
    have "r + (if r < t then t - r else d - (r - t)) = (if r < t then t else d + t)" if "r < d" for r
      using that assms by auto
    then show ?thesis unfolding period_wait_def using lt by blast
  qed
  then have "(now mod d + period_wait d t now) mod d = t"
    using assms by simp
  then show "(now + period_wait d t now) mod d = t"
    by (simp only: mod_add_left_eq)
  show "0 < period_wait d t now" "period_wait d t now \<le> d"
    using assms lt by (auto simp: period_wait_def intro: less_le_trans [OF lt])
qed

lemma next_in_daily:
  "(now + next_in (Daily h m) now) mod 86400 = target_of_day h m \<and> 0 < next_in (Daily h m) now
     \<and> next_in (Daily h m) now \<le> 86400"
proof -
  have "next_in (Daily h m) now = period_wait 86400 (target_of_day h m) now"
    by (simp only: next_in.simps Let_def period_wait_def)
  then show ?thesis
    using period_wait [of "target_of_day h m" 86400 now] target_of_day_less [of h m] by (simp only: simp_thms)
qed

lemma next_in_hourly:
  "(now + next_in (Hourly m) now) div 60 mod 60 = min m 59 \<and> 0 < next_in (Hourly m) now
     \<and> next_in (Hourly m) now \<le> 3600"
proof -
  have n: "next_in (Hourly m) now = period_wait 60 (min m 59) (now div 60) * 60"
    by (simp only: next_in.simps Let_def period_wait_def)
  have "min m 59 < 60" by simp
  note w = period_wait [OF this, of "now div 60"]
  have "(now + period_wait 60 (min m 59) (now div 60) * 60) div 60
      = now div 60 + period_wait 60 (min m 59) (now div 60)"
    by (simp add: div_add1_eq)
  then show ?thesis
    unfolding n using w by (simp add: add.commute)
qed

text \<open>A weekly job: the day is right; the time is right only if it is still to come on the current day.\<close>

definition week_offset :: "nat \<Rightarrow> nat \<Rightarrow> nat" where
  "week_offset now target = (if weekday_of now \<le> target then target - weekday_of now else 7 - (weekday_of now - target))"

lemma weekday_range: "1 \<le> weekday_of now" "weekday_of now \<le> 7"
  by (simp_all add: weekday_of_def)

lemma week_offset_day:
  assumes "1 \<le> t" "t \<le> 7"
  shows "((now div 86400 + week_offset now t) + 3) mod 7 + 1 = t" "week_offset now t < 7"
proof -
  let ?d = "now div 86400 + 3"
  have w: "weekday_of now = ?d mod 7 + 1" by (simp add: weekday_of_def)
  have l: "?d mod 7 < 7" by simp
  have "(?d + week_offset now t) mod 7 = t - 1"
  proof (cases "?d mod 7 = t - 1")
    case True
    then show ?thesis using assms by (simp add: week_offset_def w)
  next
    case False
    then have "week_offset now t = period_wait 7 (t - 1) ?d"
      using assms l by (auto simp: week_offset_def w period_wait_def)
    then show ?thesis using period_wait(1) [of "t - 1" 7 ?d] assms by simp
  qed
  then show "((now div 86400 + week_offset now t) + 3) mod 7 + 1 = t"
    using assms by (simp add: ac_simps)
  show "week_offset now t < 7"
    using assms l by (auto simp: week_offset_def w)
qed

lemma next_in_weekly:
  fixes now wd :: nat
  defines "t \<equiv> max 1 (min wd 7)"
  shows "weekday_of (now + next_in (Weekly wd h m) now) = t \<and>
     (now + next_in (Weekly wd h m) now) mod 86400 = max (target_of_day h m) (now mod 86400) \<and>
     0 < next_in (Weekly wd h m) now \<and> next_in (Weekly wd h m) now \<le> 7 * 86400"
proof -
  let ?o = "week_offset now t"
  define o' where "o' = (if ?o = 0 \<and> now mod 86400 \<ge> target_of_day h m then 7 else ?o)"
  let ?r = "target_of_day h m - now mod 86400"
  have n: "next_in (Weekly wd h m) now = o' * 86400 + ?r"
    by (simp add: Let_def o'_def week_offset_def t_def)
  have t: "1 \<le> t" "t \<le> 7" by (simp_all add: t_def)
  have day: "(now div 86400 + o' + 3) mod 7 + 1 = t"
  proof -
    have "(now div 86400 + 7 + 3) mod 7 = (now div 86400 + 3) mod 7"
      using mod_add_self2 [of "now div 86400 + 3" 7] by (simp add: ac_simps)
    then show ?thesis
      using week_offset_day(1) [OF t, of now] unfolding o'_def by (cases "?o = 0") auto
  qed
  have s: "now mod 86400 + ?r < 86400" "now mod 86400 + ?r = max (target_of_day h m) (now mod 86400)"
    using target_of_day_less [of h m] by (auto simp: max_def)
  have eq: "now + (o' * 86400 + ?r) = (now div 86400 + o') * 86400 + (now mod 86400 + ?r)"
    using div_mult_mod_eq [of now 86400] by (simp add: distrib_right)
  have "(now + (o' * 86400 + ?r)) div 86400 = now div 86400 + o'"
    unfolding eq using s(1) by (metis add.right_neutral div_less div_mult_self3 zero_neq_numeral)
  then have "weekday_of (now + (o' * 86400 + ?r)) = t"
    using day by (simp only: weekday_of_def)
  moreover have "(now + (o' * 86400 + ?r)) mod 86400 = max (target_of_day h m) (now mod 86400)"
    unfolding eq using s by (metis mod_less mod_mult_self3)
  moreover have "0 < o' * 86400 + ?r"
    by (auto simp: o'_def)
  moreover have "o' * 86400 + ?r \<le> 7 * 86400"
  proof (cases "o' = 7")
    case True
    moreover have "?r = 0"
      using True week_offset_day(2) [OF t, of now] by (auto simp: o'_def split: if_splits)
    ultimately show ?thesis by simp
  next
    case False
    then have "o' \<le> 6" using week_offset_day(2) [OF t, of now] by (auto simp: o'_def)
    then show ?thesis using s(1) by linarith
  qed
  ultimately show ?thesis unfolding n by blast
qed

text \<open>
  Hourly, daily and weekly jobs wait a positive time of at most one period. At the end of the wait
  an hourly job is at its minute, a daily job at its time of day, and a weekly job on its day of the
  week, at its time of day or, when that time has already passed today, at the present time of day
  instead.
\<close>

lemma next_in_aligned:
  "(now + next_in (Hourly m) now) div 60 mod 60 = min m 59 \<and> next_in (Hourly m) now \<in> {1..3600} \<and>
   (now + next_in (Daily h m) now) mod 86400 = target_of_day h m \<and> next_in (Daily h m) now \<in> {1..86400} \<and>
   weekday_of (now + next_in (Weekly wd h m) now) = max 1 (min wd 7) \<and>
   (now + next_in (Weekly wd h m) now) mod 86400 = max (target_of_day h m) (now mod 86400) \<and>
   next_in (Weekly wd h m) now \<in> {1..604800}"
  using next_in_hourly [of now m] next_in_daily [of now h m] next_in_weekly [of now wd h m]
  by (simp del: next_in.simps add: Suc_le_eq)

section \<open>Firing\<close>

text \<open>The reference: the enabled jobs run in order, each once.\<close>

fun run_jobs :: "'w executor \<Rightarrow> scheduled_job list \<Rightarrow> 'w \<Rightarrow> schedule_report list \<times> 'w" where
  "run_jobs exec [] w = ([], w)"
| "run_jobs exec (j # js) w =
     (case exec j w of (outcome, w') \<Rightarrow>
        case run_jobs exec js w' of (rs, w'') \<Rightarrow> (report_of j outcome # rs, w''))"

lemma count_report_jobs [simp]: "sc_jobs (count_report r s) = sc_jobs s"
  by (simp add: count_report_def Let_def)

lemma fire_from_run:
  "n \<le> length (sc_jobs s) \<Longrightarrow> run_jobs exec (filter sj_enabled (drop n (sc_jobs s))) w = (rs, w') \<Longrightarrow>
    fire_from exec [n..<length (sc_jobs s)] (s, w) = (rs, fold count_report rs s, w')"
proof (induction "length (sc_jobs s) - n" arbitrary: n s w rs)
  case 0
  then show ?case by simp
next
  case (Suc k)
  then have n: "n < length (sc_jobs s)" by simp
  let ?job = "sc_jobs s ! n"
  have d: "drop n (sc_jobs s) = ?job # drop (Suc n) (sc_jobs s)"
    using n by (simp add: Cons_nth_drop_Suc)
  have u: "[n..<length (sc_jobs s)] = n # [Suc n..<length (sc_jobs s)]"
    using n by (simp add: upt_conv_Cons)
  show ?case
  proof (cases "sj_enabled ?job")
    case True
    obtain out w1 where e: "exec ?job w = (out, w1)" by fastforce
    obtain rs1 where r: "run_jobs exec (filter sj_enabled (drop (Suc n) (sc_jobs s))) w1 = (rs1, w')"
      "rs = report_of ?job out # rs1"
      using Suc.prems(2) True e unfolding d by (auto split: prod.splits)
    have "fire_from exec [Suc n..<length (sc_jobs s)] (count_report (report_of ?job out) s, w1)
        = (rs1, fold count_report rs1 (count_report (report_of ?job out) s), w')"
      using Suc(1) [of "count_report (report_of ?job out) s" "Suc n" w1 rs1] Suc(2) n r(1) by simp
    then show ?thesis
      using True e n r(2) by (simp add: u fire_once_def Let_def)
  next
    case False
    then have "run_jobs exec (filter sj_enabled (drop (Suc n) (sc_jobs s))) w = (rs, w')"
      using Suc.prems(2) unfolding d by simp
    then show ?thesis
      using Suc(1) [of s "Suc n" w rs] Suc(2) n False by (simp add: u fire_once_def Let_def)
  qed
qed

lemma fold_count_report:
  "sc_jobs (fold count_report rs s) = sc_jobs s"
  "ss_jobs_declared (sc_stats (fold count_report rs s)) = ss_jobs_declared (sc_stats s)"
  "ss_fires (sc_stats (fold count_report rs s)) = ss_fires (sc_stats s) + length rs"
  "ss_errors (sc_stats (fold count_report rs s)) = ss_errors (sc_stats s) + length (filter (Not \<circ> sr_ok) rs)"
  "ss_last (sc_stats (fold count_report rs s)) = (if rs = [] then ss_last (sc_stats s) else Some (last rs))"
  by (induction rs arbitrary: s) (simp_all add: count_report_def Let_def)

lemma run_jobs_names: "run_jobs exec js w = (rs, w') \<Longrightarrow> map sr_job rs = map sj_name js"
proof (induction js arbitrary: w rs)
  case (Cons j js)
  have "sr_job (report_of j out) = sj_name j" for out
    by (induction j out rule: report_of.induct) simp_all
  with Cons show ?case by (auto split: prod.splits)
qed simp

text \<open>
  Firing everything runs exactly the enabled jobs, each once and in their order, on the successive
  states of the world; there is one report per enabled job, and the counters are the number of reports
  and of failed ones, with the last report kept.
\<close>

lemma fire_all_now_spec:
  "let js = filter sj_enabled jobs; (rs, w') = run_jobs exec js w;
       (reports, s, w'') = fire_all_now exec (scheduler_new jobs, w)
   in reports = rs \<and> w'' = w' \<and> map sr_job reports = map sj_name js \<and> sc_jobs s = jobs \<and>
      sc_stats s = \<lparr> ss_jobs_declared = length jobs, ss_fires = length js,
        ss_errors = length (filter (Not \<circ> sr_ok) rs), ss_last = (if rs = [] then None else Some (last rs)) \<rparr>"
proof -
  obtain rs w' where r: "run_jobs exec (filter sj_enabled jobs) w = (rs, w')" by fastforce
  have f: "fire_all_now exec (scheduler_new jobs, w) = (rs, fold count_report rs (scheduler_new jobs), w')"
    using fire_from_run [of 0 "scheduler_new jobs" exec w rs w'] r
    by (simp add: fire_all_now_def scheduler_new_def)
  have n: "map sr_job rs = map sj_name (filter sj_enabled jobs)"
    using r by (rule run_jobs_names)
  then have "length rs = length (filter sj_enabled jobs)"
    by (metis length_map)
  then show ?thesis
    using r f n fold_count_report [of rs "scheduler_new jobs"]
    by (auto simp: Let_def scheduler_new_def intro!: scheduler_stats.equality)
qed

end
