(* ===== verification/Channels.thy ===== *)
theory Channels
  imports Json
begin

text \<open>
  Messaging channels (\<open>sap-automate-channels/src/lib.rs\<close>). An adapter is shared between the registry
  and whoever registered it, so adapters live in a store and the registry maps schemes to their
  addresses.
\<close>

datatype channel_error = UnknownChannel string | AdapterError string | NotConnected

datatype channel_kind = Teams | Slack | Telegram | Whatsapp | Email | Cli

fun scheme :: "channel_kind \<Rightarrow> string" where
  "scheme Teams = ''teams''"
| "scheme Slack = ''slack''"
| "scheme Telegram = ''telegram''"
| "scheme Whatsapp = ''whatsapp''"
| "scheme Email = ''email''"
| "scheme Cli = ''cli''"

record outgoing_message =
  om_address :: string
  om_text :: string
  om_rich :: "json option"

definition outgoing_text :: "string \<Rightarrow> string \<Rightarrow> outgoing_message" where
  "outgoing_text a t = \<lparr> om_address = a, om_text = t, om_rich = None \<rparr>"

datatype adapter =
    CliChannel (cli_sent: "outgoing_message list")
  | TeamsAdapter string string
  | SlackAdapter string string
  | TelegramAdapter string

fun adapter_kind :: "adapter \<Rightarrow> channel_kind" where
  "adapter_kind (CliChannel _) = Cli"
| "adapter_kind (TeamsAdapter _ _) = Teams"
| "adapter_kind (SlackAdapter _ _) = Slack"
| "adapter_kind (TelegramAdapter _) = Telegram"

fun adapter_send :: "outgoing_message \<Rightarrow> adapter \<Rightarrow> (channel_error, unit) result \<times> adapter" where
  "adapter_send msg (CliChannel sent) = (Inr (), CliChannel (sent @ [msg]))"
| "adapter_send msg (TeamsAdapter b t) = (Inl NotConnected, TeamsAdapter b t)"
| "adapter_send msg (SlackAdapter w t) = (Inl NotConnected, SlackAdapter w t)"
| "adapter_send msg (TelegramAdapter t) = (Inl NotConnected, TelegramAdapter t)"

definition cli_log :: "adapter \<Rightarrow> outgoing_message list" where
  "cli_log a = (case a of CliChannel sent \<Rightarrow> sent | _ \<Rightarrow> [])"

definition cli_last :: "adapter \<Rightarrow> outgoing_message option" where
  "cli_last a = (case cli_log a of [] \<Rightarrow> None | _ \<Rightarrow> Some (last (cli_log a)))"

type_synonym adapters = "nat \<Rightarrow> adapter"

type_synonym channel_registry = "(string, nat) amap"

definition register_channel :: "adapters \<Rightarrow> nat \<Rightarrow> channel_registry \<Rightarrow> channel_registry" where
  "register_channel h a reg = amap_insert (scheme (adapter_kind (h a))) a reg"

definition schemes :: "channel_registry \<Rightarrow> string list" where
  "schemes reg = map fst reg"

definition message_scheme :: "outgoing_message \<Rightarrow> string" where
  "message_scheme msg = hd (split_on (CHR '':'') (om_address msg))"

definition registry_send ::
  "channel_registry \<Rightarrow> outgoing_message \<Rightarrow> adapters \<Rightarrow> (channel_error, unit) result \<times> adapters" where
  "registry_send reg msg h =
     (case map_of reg (message_scheme msg) of
        None \<Rightarrow> (Inl (UnknownChannel (message_scheme msg)), h)
      | Some a \<Rightarrow> (case adapter_send msg (h a) of (r, ad) \<Rightarrow> (r, h(a := ad))))"

fun send_all :: "channel_registry \<Rightarrow> outgoing_message list \<Rightarrow> adapters \<Rightarrow> (channel_error, unit) result list \<times> adapters" where
  "send_all reg [] h = ([], h)"
| "send_all reg (m # ms) h =
     (case registry_send reg m h of (r, h') \<Rightarrow> case send_all reg ms h' of (rs, h'') \<Rightarrow> (r # rs, h''))"

section \<open>Routing\<close>

lemma message_scheme_prefix: "message_scheme msg = takeWhile (\<lambda>c. c \<noteq> CHR '':'') (om_address msg)"
proof -
  have "hd (split_on c s) = takeWhile (\<lambda>x. x \<noteq> c) s" for c s
    by (induction s) (auto split: list.split)
  then show ?thesis by (simp add: message_scheme_def)
qed

text \<open>A registry built by registering adapters sends each scheme to an adapter of that scheme.\<close>

definition registered :: "adapters \<Rightarrow> channel_registry \<Rightarrow> bool" where
  "registered h reg \<longleftrightarrow> amap_wf reg \<and> (\<forall>s a. map_of reg s = Some a \<longrightarrow> s = scheme (adapter_kind (h a)))"

lemma registered_fold:
  "registered h reg \<Longrightarrow> registered h (fold (register_channel h) as reg)"
proof (induction as arbitrary: reg)
  case (Cons a as)
  have "registered h (register_channel h a reg)"
    using Cons.prems by (auto simp: registered_def register_channel_def)
  then show ?case using Cons.IH by simp
qed simp

lemma adapter_kind_send [simp]: "adapter_kind (snd (adapter_send msg ad)) = adapter_kind ad"
  by (cases ad) simp_all

lemma scheme_inj: "scheme a = scheme b \<Longrightarrow> a = b"
  by (cases a; cases b) simp_all

lemma registered_send: "registered h reg \<Longrightarrow> registered (snd (registry_send reg msg h)) reg"
proof -
  assume r: "registered h reg"
  have "adapter_kind (snd (registry_send reg msg h) a) = adapter_kind (h a)" for a
    by (simp add: registry_send_def split_def split: option.split)
  then show ?thesis using r by (simp add: registered_def)
qed

text \<open>What one message does to the adapter at an address.\<close>

lemma registry_send_cases:
  assumes "registered h reg"
  shows "fst (registry_send reg msg h) =
      (if map_of reg (message_scheme msg) = None then Inl (UnknownChannel (message_scheme msg))
       else if message_scheme msg = ''cli'' then Inr () else Inl NotConnected)"
    and "cli_log (snd (registry_send reg msg h) a) =
      cli_log (h a) @ (if map_of reg ''cli'' = Some a \<and> message_scheme msg = ''cli'' then [msg] else [])"
proof -
  have kind: "message_scheme msg = scheme (adapter_kind (h b))" if "map_of reg (message_scheme msg) = Some b" for b
    using assms that by (simp add: registered_def)
  have send: "fst (adapter_send msg ad) = (if scheme (adapter_kind ad) = ''cli'' then Inr () else Inl NotConnected)"
    "cli_log (snd (adapter_send msg ad)) = cli_log ad @ (if scheme (adapter_kind ad) = ''cli'' then [msg] else [])" for ad
    by (cases ad; simp add: cli_log_def)+
  show "fst (registry_send reg msg h) =
      (if map_of reg (message_scheme msg) = None then Inl (UnknownChannel (message_scheme msg))
       else if message_scheme msg = ''cli'' then Inr () else Inl NotConnected)"
    using kind send(1) by (auto simp: registry_send_def split_def split: option.split)
  show "cli_log (snd (registry_send reg msg h) a) =
      cli_log (h a) @ (if map_of reg ''cli'' = Some a \<and> message_scheme msg = ''cli'' then [msg] else [])"
  proof (cases "map_of reg (message_scheme msg)")
    case None
    then show ?thesis by (auto simp: registry_send_def)
  next
    case (Some b)
    have eq: "snd (registry_send reg msg h) = h(b := snd (adapter_send msg (h b)))"
      by (simp add: registry_send_def Some split_def)
    have log: "cli_log (snd (adapter_send msg (h b))) = cli_log (h b) @ (if message_scheme msg = ''cli'' then [msg] else [])"
      by (simp only: send(2) kind [OF Some])
    show ?thesis
    proof (cases "message_scheme msg = ''cli''")
      case True
      then show ?thesis using Some log by (auto simp: eq)
    next
      case False
      then show ?thesis by (simp add: eq log)
    qed
  qed
qed

text \<open>
  Routing is by scheme: over any registered adapters and any messages, a message whose scheme is
  registered for the command line succeeds and is appended to that channel's log, in the order sent; one
  for a skeleton adapter is refused as not connected; any other is refused as unknown; and no message
  reaches a log it is not addressed to.
\<close>

lemma channel_routing:
  "let reg = fold (register_channel h) as []; (rs, h') = send_all reg msgs h
   in rs = map (\<lambda>m. if map_of reg (message_scheme m) = None then Inl (UnknownChannel (message_scheme m))
                   else if message_scheme m = ''cli'' then Inr () else Inl NotConnected) msgs \<and>
      cli_log (h' a) = cli_log (h a) @ (if map_of reg ''cli'' = Some a then filter (\<lambda>m. message_scheme m = ''cli'') msgs else [])"
proof -
  let ?reg = "fold (register_channel h) as []"
  have "registered h ?reg"
    by (intro registered_fold) (simp add: registered_def)
  moreover have "fst (send_all reg msgs h) = map (\<lambda>m. if map_of reg (message_scheme m) = None then Inl (UnknownChannel (message_scheme m))
                   else if message_scheme m = ''cli'' then Inr () else Inl NotConnected) msgs \<and>
      cli_log (snd (send_all reg msgs h) a) = cli_log (h a) @ (if map_of reg ''cli'' = Some a then filter (\<lambda>m. message_scheme m = ''cli'') msgs else [])"
    if "registered h reg" for h reg
    using that
  proof (induction msgs arbitrary: h)
    case (Cons m msgs)
    note IH = Cons.IH [OF registered_send [OF Cons.prems, of m]]
    show ?case
      using IH registry_send_cases [OF Cons.prems, of m] by (auto simp: split_def)
  qed simp
  ultimately show ?thesis
    by (simp add: Let_def split_def)
qed

end
