(* ===== verification/Skills.thy ===== *)
theory Skills
  imports Prelude
begin

text \<open>
  The skill library (\<open>sap-automate-skills/src/lib.rs\<close>): splitting a file into frontmatter and body, the
  line parser of the frontmatter, rendering a body with arguments, and the registry with its directory
  scan. A directory tree is a value; what cannot be read is a node of its own.
\<close>

section \<open>Skills\<close>

record skill_argument =
  sa_name :: string
  sa_description :: "string option"
  sa_required :: bool

record skill =
  sk_name :: string
  sk_description :: string
  sk_tags :: "string list"
  sk_requires_tools :: "string list"
  sk_arguments :: "skill_argument list"
  sk_body :: string
  sk_source :: "string option"

datatype skill_error = SkillIo string | Frontmatter string string

definition placeholder :: "string \<Rightarrow> string" where
  "placeholder n = ''{{'' @ n @ ''}}''"

definition replacement :: "(string \<rightharpoonup> string) \<Rightarrow> skill_argument \<Rightarrow> string" where
  "replacement args a =
     (case args (sa_name a) of
        Some v \<Rightarrow> v
      | None \<Rightarrow> if sa_required a then ''<MISSING '' @ sa_name a @ ''>'' else [])"

definition render :: "skill \<Rightarrow> (string \<rightharpoonup> string) \<Rightarrow> string" where
  "render s args = fold (\<lambda>a out. replace_sub (placeholder (sa_name a)) (replacement args a) out) (sk_arguments s) (sk_body s)"

section \<open>Files\<close>

definition strip_newline :: "string \<Rightarrow> string" where
  "strip_newline s = (case strip_prefix [CHR 0x0A] s of Some r \<Rightarrow> r | None \<Rightarrow> s)"

definition split_frontmatter :: "string \<Rightarrow> (string \<times> string) option" where
  "split_frontmatter raw =
     (case strip_prefix ''---'' (trim_start raw) of
        None \<Rightarrow> None
      | Some rest \<Rightarrow>
          (let rest = strip_newline rest in
           case find_sub (CHR 0x0A # ''---'') rest of
             None \<Rightarrow> None
           | Some e \<Rightarrow> Some (take e rest, strip_newline (drop (e + 4) rest))))"

text \<open>\<open>trim_start_matches\<close> of a pattern takes it off as often as it is there.\<close>

function trim_start_sub :: "string \<Rightarrow> string \<Rightarrow> string" where
  "trim_start_sub p s =
     (if p \<noteq> [] \<and> starts_with s p then trim_start_sub p (drop (length p) s) else s)"
  by pat_completeness auto
termination
  by (relation "measure (\<lambda>(p, s). length s)") (auto simp: prefix_def)

declare trim_start_sub.simps [simp del]

definition parse_inline_list :: "string \<Rightarrow> string list" where
  "parse_inline_list s =
     (let s = trim_end_matches (CHR '']'') (trim_start_matches (CHR ''['') (trim s))
      in filter (\<lambda>t. t \<noteq> []) (map (\<lambda>t. trim_matches (CHR 0x22) (trim t)) (split_on (CHR '','') s)))"

definition scalar :: "string \<Rightarrow> string" where
  "scalar rest = trim_matches (CHR 0x22) (trim rest)"

text \<open>The lines below an argument's name that are indented by four spaces or two tabs.\<close>

fun argument_fields :: "string list \<Rightarrow> skill_argument \<Rightarrow> skill_argument \<times> string list" where
  "argument_fields [] a = (a, [])"
| "argument_fields (inner # ls) a =
     (if \<not> starts_with inner ''    '' \<and> \<not> starts_with inner [CHR 0x09, CHR 0x09] then (a, inner # ls)
      else
        (let inner_t = trim inner in
         argument_fields ls
           (case strip_prefix ''description:'' inner_t of
              Some d \<Rightarrow> a\<lparr> sa_description := Some (scalar d) \<rparr>
            | None \<Rightarrow>
                (case strip_prefix ''required:'' inner_t of
                   Some r \<Rightarrow> a\<lparr> sa_required := (trim r = ''true'') \<rparr>
                 | None \<Rightarrow> a))))"

lemma argument_fields_length: "argument_fields ls a = (a', rest) \<Longrightarrow> length rest \<le> length ls"
  by (induction ls a rule: argument_fields.induct) (auto simp: Let_def split: if_splits)

function argument_list :: "string list \<Rightarrow> skill_argument list \<Rightarrow> skill_argument list \<times> string list" where
  "argument_list ls args =
     (case ls of
        [] \<Rightarrow> (args, [])
      | next # ls' \<Rightarrow>
          if \<not> starts_with next '' '' \<and> \<not> starts_with next [CHR 0x09] \<and> next \<noteq> [] then (args, ls)
          else if trim next = [] then argument_list ls' args
          else (case strip_prefix ''- name:'' (trim next) of
                  Some after \<Rightarrow>
                    (case argument_fields ls' \<lparr> sa_name = scalar after, sa_description = None, sa_required = False \<rparr> of
                       (a, rest) \<Rightarrow> argument_list rest (args @ [a]))
                | None \<Rightarrow> argument_list ls' args))"
  by pat_completeness auto
termination
  by (relation "measure (\<lambda>(ls, _). length ls)") (auto dest: argument_fields_length [OF sym])

declare argument_list.simps [simp del]

lemma argument_list_length: "argument_list ls args = (args', rest) \<Longrightarrow> length rest \<le> length ls"
proof (induction ls args arbitrary: args' rest rule: argument_list.induct)
  case (1 ls args)
  from 1(4) show ?case
    by (subst (asm) argument_list.simps)
      (fastforce split: list.splits if_splits option.splits prod.splits
        dest: 1(1) 1(2) 1(3) argument_fields_length)
qed

function frontmatter_loop :: "string list \<Rightarrow> skill \<Rightarrow> skill" where
  "frontmatter_loop ls s =
     (case ls of
        [] \<Rightarrow> s
      | line # ls' \<Rightarrow>
          (let trimmed = trim_end line in
           if trimmed = [] \<or> starts_with trimmed ''#'' then frontmatter_loop ls' s
           else (case strip_prefix ''name:'' trimmed of
                   Some rest \<Rightarrow> frontmatter_loop ls' (s\<lparr> sk_name := scalar rest \<rparr>)
                 | None \<Rightarrow>
                     (case strip_prefix ''description:'' trimmed of
                        Some rest \<Rightarrow> frontmatter_loop ls' (s\<lparr> sk_description := scalar rest \<rparr>)
                      | None \<Rightarrow>
                          if starts_with trimmed ''tags:'' then
                            frontmatter_loop ls' (s\<lparr> sk_tags := parse_inline_list (trim (trim_start_sub ''tags:'' trimmed)) \<rparr>)
                          else if starts_with trimmed ''requires_tools:'' then
                            frontmatter_loop ls'
                              (s\<lparr> sk_requires_tools := parse_inline_list (trim (trim_start_sub ''requires_tools:'' trimmed)) \<rparr>)
                          else if trimmed = ''arguments:'' then
                            (case argument_list ls' (sk_arguments s) of
                               (args, rest) \<Rightarrow> frontmatter_loop rest (s\<lparr> sk_arguments := args \<rparr>))
                          else frontmatter_loop ls' s))))"
  by pat_completeness auto
termination
  by (relation "measure (\<lambda>(ls, _). length ls)") (auto dest: argument_list_length [OF sym])

declare frontmatter_loop.simps [simp del]

definition empty_skill :: skill where
  "empty_skill = \<lparr> sk_name = [], sk_description = [], sk_tags = [], sk_requires_tools = [], sk_arguments = [],
     sk_body = [], sk_source = None \<rparr>"

definition parse_frontmatter :: "string \<Rightarrow> (string, skill) result" where
  "parse_frontmatter text =
     (let s = frontmatter_loop (str_lines text) empty_skill in
      if sk_name s = [] then Inl ''missing `name:` field''
      else if sk_description s = [] then Inl ''missing `description:` field''
      else Inr s)"

definition parse_skill_file :: "string \<Rightarrow> string \<Rightarrow> (skill_error, skill) result" where
  "parse_skill_file path raw =
     (case split_frontmatter raw of
        None \<Rightarrow> Inl (Frontmatter path ''missing --- frontmatter'')
      | Some (front, body) \<Rightarrow>
          (case parse_frontmatter front of
             Inl e \<Rightarrow> Inl (Frontmatter path e)
           | Inr s \<Rightarrow> Inr (s\<lparr> sk_body := trim body, sk_source := Some path \<rparr>)))"

section \<open>The registry\<close>

type_synonym skill_registry = "(string, skill) amap"

datatype fs_node = Fs_Dir "(string \<times> fs_node) list" | Fs_File "string option" | Fs_Unreadable

text \<open>\<open>Path::extension\<close> of a path is \<open>md\<close>.\<close>

definition md_extension :: "string \<Rightarrow> bool" where
  "md_extension path \<longleftrightarrow> (let name = last (split_on (CHR ''/'') path) in ends_with name ''.md'' \<and> length name > 3)"

definition insert_skill :: "skill \<Rightarrow> skill_registry \<Rightarrow> skill_registry" where
  "insert_skill s reg = amap_insert (sk_name s) s reg"

definition load_file :: "string \<Rightarrow> string option \<Rightarrow> nat \<times> skill_registry \<Rightarrow> nat \<times> skill_registry" where
  "load_file path content = (\<lambda>(loaded, reg).
     if \<not> md_extension path then (loaded, reg)
     else (case content of
             None \<Rightarrow> (loaded, reg)
           | Some raw \<Rightarrow> (case parse_skill_file path raw of
                 Inl _ \<Rightarrow> (loaded, reg)
               | Inr s \<Rightarrow> (loaded + 1, insert_skill s reg))))"

fun node_weight :: "fs_node \<Rightarrow> nat" where
  "node_weight (Fs_Dir es) = Suc (sum_list (map (\<lambda>(_, n). Suc (node_weight n)) es))"
| "node_weight (Fs_File _) = 1"
| "node_weight Fs_Unreadable = 1"

text \<open>The stack of the walk, its end first: the last entry of a directory is visited first.\<close>

function scan_stack :: "(string \<times> fs_node) list \<Rightarrow> nat \<times> skill_registry \<Rightarrow> nat \<times> skill_registry" where
  "scan_stack [] st = st"
| "scan_stack ((p, Fs_Dir es) # stack) st = scan_stack (rev (map (\<lambda>(n, e). (p @ ''/'' @ n, e)) es) @ stack) st"
| "scan_stack ((p, Fs_File c) # stack) st = scan_stack stack (load_file p c st)"
| "scan_stack ((p, Fs_Unreadable) # stack) st = scan_stack stack st"
  by pat_completeness auto
termination
proof (relation "measure (\<lambda>(stack, _). sum_list (map (\<lambda>(_, n). Suc (node_weight n)) stack))", goal_cases)
  case (2 p es stack st)
  have "sum_list (map (\<lambda>(_, n). Suc (node_weight n)) (rev (map (\<lambda>(n, e). (p @ ''/'' @ n, e)) es)))
      = sum_list (map (\<lambda>(_, n). Suc (node_weight n)) es)"
    by (simp add: rev_map [symmetric] sum_list_rev o_def split_def)
  then show ?case by simp
qed simp_all

definition scan_paths :: "(string \<times> fs_node option) list \<Rightarrow> skill_registry \<Rightarrow> nat \<times> skill_registry" where
  "scan_paths roots reg = fold (\<lambda>(p, root) st. (case root of None \<Rightarrow> st | Some n \<Rightarrow> scan_stack [(p, n)] st)) roots (0, reg)"

section \<open>Rendering\<close>

text \<open>A body as literal text and placeholders.\<close>

datatype piece = Lit string | Hole string

fun piece_text :: "piece \<Rightarrow> string" where
  "piece_text (Lit t) = t"
| "piece_text (Hole n) = placeholder n"

fun fill :: "string \<Rightarrow> string \<Rightarrow> piece \<Rightarrow> piece" where
  "fill n r (Lit t) = Lit t"
| "fill n r (Hole m) = (if m = n then Lit r else Hole m)"

definition no_braces :: "string \<Rightarrow> bool" where
  "no_braces s \<longleftrightarrow> CHR ''{'' \<notin> set s \<and> CHR ''}'' \<notin> set s"

definition no_open :: "string \<Rightarrow> bool" where
  "no_open s \<longleftrightarrow> CHR ''{'' \<notin> set s"

fun piece_ok :: "piece \<Rightarrow> bool" where
  "piece_ok (Lit t) = no_open t"
| "piece_ok (Hole n) = no_braces n"

lemma replace_sub_Nil [simp]: "replace_sub p r [] = []"
  by (simp add: replace_sub.simps)

lemma replace_sub_hit: "p \<noteq> [] \<Longrightarrow> replace_sub p r (p @ s) = r @ replace_sub p r s"
  by (cases p; subst replace_sub.simps) simp_all

lemma replace_sub_skip: "\<not> starts_with (x # xs) p \<Longrightarrow> replace_sub p r (x # xs) = x # replace_sub p r xs"
  by (subst replace_sub.simps) simp

text \<open>Text without an opening brace before a placeholder is copied.\<close>

lemma replace_sub_plain:
  "no_open t \<Longrightarrow> replace_sub (placeholder n) r (t @ s) = t @ replace_sub (placeholder n) r s"
proof (induction t)
  case (Cons c t)
  then have "\<not> starts_with (c # t @ s) (placeholder n)"
    by (auto simp: placeholder_def no_open_def)
  then show ?case
    using Cons by (simp add: replace_sub_skip no_open_def)
qed simp

lemma brace_prefix:
  "no_braces n \<Longrightarrow> no_braces m \<Longrightarrow> starts_with (m @ CHR ''}'' # s) (n @ CHR ''}'' # t) \<Longrightarrow> n = m"
proof (induction n arbitrary: m)
  case Nil
  then show ?case by (cases m) (auto simp: no_braces_def)
next
  case (Cons c n)
  then show ?case by (cases m) (auto simp: no_braces_def)
qed

lemma replace_sub_other:
  assumes "no_braces n" "no_braces m" "m \<noteq> n"
  shows "replace_sub (placeholder n) r (placeholder m @ s) = placeholder m @ replace_sub (placeholder n) r s"
proof -
  have 1: "\<not> starts_with (placeholder m @ s) (placeholder n)"
    using brace_prefix [where n = n and m = m and s = "''}'' @ s" and t = "''}''"] assms by (auto simp: placeholder_def)
  have 2: "\<not> starts_with (CHR ''{'' # m @ ''}}'' @ s) (placeholder n)"
    using assms by (cases m) (auto simp: placeholder_def no_braces_def)
  have 3: "no_open (m @ ''}}'')"
    using assms by (auto simp: no_open_def no_braces_def)
  show ?thesis
    using 1 2 replace_sub_plain [OF 3, of n r s] by (simp add: placeholder_def replace_sub_skip)
qed

lemma replace_sub_pieces:
  "list_all piece_ok ps \<Longrightarrow> no_braces n \<Longrightarrow>
     replace_sub (placeholder n) r (concat (map piece_text ps)) = concat (map (piece_text \<circ> fill n r) ps)"
proof (induction ps)
  case (Cons q ps)
  have "placeholder n \<noteq> []" by (simp add: placeholder_def)
  with Cons show ?case
    by (cases q) (auto simp: replace_sub_plain replace_sub_hit replace_sub_other)
qed simp

lemma fill_ok: "list_all piece_ok ps \<Longrightarrow> no_open r \<Longrightarrow> list_all piece_ok (map (fill n r) ps)"
proof (induction ps)
  case (Cons p ps)
  then show ?case by (cases p) auto
qed simp

text \<open>What each placeholder becomes: the value of the first declared argument of that name.\<close>

fun piece_value :: "skill_argument list \<Rightarrow> (string \<rightharpoonup> string) \<Rightarrow> piece \<Rightarrow> string" where
  "piece_value as args (Lit t) = t"
| "piece_value as args (Hole n) =
     (case List.find (\<lambda>a. sa_name a = n) as of Some a \<Rightarrow> replacement args a | None \<Rightarrow> placeholder n)"

definition values_ok :: "skill_argument list \<Rightarrow> (string \<rightharpoonup> string) \<Rightarrow> bool" where
  "values_ok as args \<longleftrightarrow> list_all (\<lambda>a. no_braces (sa_name a) \<and> (case args (sa_name a) of Some v \<Rightarrow> no_open v | None \<Rightarrow> True)) as"

lemma replacement_no_open:
  "no_braces (sa_name a) \<Longrightarrow> (case args (sa_name a) of Some v \<Rightarrow> no_open v | None \<Rightarrow> True) \<Longrightarrow> no_open (replacement args a)"
  by (auto simp: replacement_def no_open_def no_braces_def split: option.split)

lemma render_pieces:
  "list_all piece_ok ps \<Longrightarrow> values_ok as args \<Longrightarrow>
     fold (\<lambda>a out. replace_sub (placeholder (sa_name a)) (replacement args a) out) as (concat (map piece_text ps))
       = concat (map (piece_value as args) ps)"
proof (induction as arbitrary: ps)
  case Nil
  have "piece_text p = piece_value [] args p" for p by (cases p) simp_all
  then show ?case by simp
next
  case (Cons a as)
  have a: "no_braces (sa_name a)" "no_open (replacement args a)" and rest: "values_ok as args"
    using Cons.prems(2) replacement_no_open [of a args] by (auto simp: values_ok_def)
  let ?qs = "map (fill (sa_name a) (replacement args a)) ps"
  have eq: "piece_value as args (fill (sa_name a) (replacement args a) p) = piece_value (a # as) args p" for p
    by (cases p) auto
  show ?case
    using Cons.IH [OF fill_ok [OF Cons.prems(1) a(2)] rest, of "sa_name a"] replace_sub_pieces [OF Cons.prems(1) a(1)]
    by (simp add: eq o_def)
qed

text \<open>
  Rendering fills a template: in a body of literal text and placeholders, with literals and
  argument values free of opening braces, every placeholder of a declared argument becomes its value,
  a marker naming it when it is required and missing, or nothing when it is optional and missing; text
  and undeclared placeholders stay, and values are not expanded again.
\<close>

lemma render_template:
  assumes "sk_body s = concat (map piece_text ps)" "list_all piece_ok ps" "values_ok (sk_arguments s) args"
  shows "render s args = concat (map (piece_value (sk_arguments s) args) ps)"
  using render_pieces [OF assms(2,3)] by (simp add: render_def assms(1))

text \<open>Without the condition on values, a value is expanded again by a later argument.\<close>

lemma render_expands_values:
  "render (empty_skill\<lparr> sk_body := ''{{a}}'', sk_arguments :=
       [\<lparr> sa_name = ''a'', sa_description = None, sa_required = True \<rparr>,
        \<lparr> sa_name = ''b'', sa_description = None, sa_required = True \<rparr>] \<rparr>) [''a'' \<mapsto> ''{{b}}'', ''b'' \<mapsto> ''x''] = ''x''"
  by (simp add: render_def replacement_def placeholder_def replace_sub.simps)

section \<open>Writing a skill file\<close>

text \<open>The file a skill is written as; the parser reads it back.\<close>

definition print_list :: "string list \<Rightarrow> string" where
  "print_list ts = ''['' @ join '', '' ts @ '']''"

definition print_argument :: "skill_argument \<Rightarrow> string list" where
  "print_argument a =
     (''  - name: '' @ sa_name a) #
     (case sa_description a of None \<Rightarrow> [] | Some d \<Rightarrow> [''    description: '' @ d]) @
     [''    required: '' @ (if sa_required a then ''true'' else ''false'')]"

definition print_frontmatter :: "skill \<Rightarrow> string list" where
  "print_frontmatter s =
     [''name: '' @ sk_name s, ''description: '' @ sk_description s, ''tags: '' @ print_list (sk_tags s),
      ''requires_tools: '' @ print_list (sk_requires_tools s), ''arguments:''] @ concat (map print_argument (sk_arguments s))"

abbreviation nl :: string where
  "nl \<equiv> [CHR 0x0A]"

definition print_skill :: "skill \<Rightarrow> string" where
  "print_skill s = ''---'' @ nl @ join nl (print_frontmatter s) @ nl @ ''---'' @ nl @ nl @ sk_body s @ nl"

subsection \<open>Printable text\<close>

definition graphic :: "char \<Rightarrow> bool" where
  "graphic c \<longleftrightarrow> 33 \<le> code c \<and> code c \<le> 126 \<and> c \<noteq> CHR 0x22"

definition printable :: "char \<Rightarrow> bool" where
  "printable c \<longleftrightarrow> 32 \<le> code c \<and> code c \<le> 126"

definition text_ok :: "string \<Rightarrow> bool" where
  "text_ok t \<longleftrightarrow> t \<noteq> [] \<and> graphic (hd t) \<and> graphic (last t) \<and> list_all printable t"

definition item_ok :: "string \<Rightarrow> bool" where
  "item_ok t \<longleftrightarrow> text_ok t \<and> CHR '','' \<notin> set t \<and> CHR ''['' \<notin> set t \<and> CHR '']'' \<notin> set t"

lemma trim_start_graphic: "33 \<le> code c \<Longrightarrow> code c \<le> 126 \<Longrightarrow> trim_start (c # s) = c # s"
  by (subst trim_start.simps) (auto simp: is_ascii_ws_def ws_pair_def ws_triple_def split: list.split)

lemma trim_start_space [simp]: "trim_start (CHR '' '' # s) = trim_start s" "trim_start (CHR 0x0A # s) = trim_start s"
  by (subst trim_start.simps; simp add: is_ascii_ws_def)+

lemma trim_end_graphic: "33 \<le> code c \<Longrightarrow> code c \<le> 126 \<Longrightarrow> trim_end (s @ [c]) = s @ [c]"
proof -
  assume "33 \<le> code c" "code c \<le> 126"
  then have "ws_width_rev (c # rev s) = 0"
    by (auto simp: is_ascii_ws_def ws_pair_def ws_triple_def split: list.split)
  then show ?thesis
    by (simp add: trim_end_def trim_end_rev.simps [of "c # rev s"])
qed

lemma trim_end_text: "text_ok t \<Longrightarrow> trim_end (s @ t) = s @ t"
  using trim_end_graphic [of "last t" "s @ butlast t"] by (auto simp: text_ok_def graphic_def)

lemma trim_start_text: "text_ok t \<Longrightarrow> trim_start (t @ s) = t @ s"
  using trim_start_graphic [of "hd t" "tl t @ s"] by (cases t) (auto simp: text_ok_def graphic_def)

lemma trim_text [simp]: "text_ok t \<Longrightarrow> trim t = t" "text_ok t \<Longrightarrow> trim (CHR '' '' # t) = t"
  using trim_start_text [of t "[]"] trim_end_text [of t "[]"] by (simp_all add: trim_def)

lemma scalar_text [simp]: "text_ok t \<Longrightarrow> scalar (CHR '' '' # t) = t"
  by (simp add: scalar_def trim_matches_id text_ok_def graphic_def)

lemma text_ok_append: "text_ok t \<Longrightarrow> list_all printable s \<Longrightarrow> s = [] \<or> graphic (hd s) \<Longrightarrow> text_ok (s @ t)"
  by (cases s) (auto simp: text_ok_def)

subsection \<open>Lists\<close>

lemma split_items:
  "list_all item_ok ts \<Longrightarrow> ts \<noteq> [] \<Longrightarrow>
     map (\<lambda>t. trim_matches (CHR 0x22) (trim t)) (split_on (CHR '','') (join '', '' ts)) = ts \<and>
     map (\<lambda>t. trim_matches (CHR 0x22) (trim t)) (split_on (CHR '','') (CHR '' '' # join '', '' ts)) = ts"
proof (induction ts)
  case (Cons t ts)
  have t: "trim t = t" "trim (CHR '' '' # t) = t" "trim_matches (CHR 0x22) t = t" "CHR '','' \<notin> set t"
    using Cons.prems(1) by (auto simp: item_ok_def text_ok_def graphic_def intro!: trim_matches_id)
  show ?case
  proof (cases "ts = []")
    case True
    then show ?thesis using t by (simp add: split_on_none split_on_none [of _ "CHR '' '' # t"] del: split_on.simps)
  next
    case False
    have "split_on (CHR '','') (t @ CHR '','' # CHR '' '' # join '', '' ts) = t # split_on (CHR '','') (CHR '' '' # join '', '' ts)"
      "split_on (CHR '','') ((CHR '' '' # t) @ CHR '','' # CHR '' '' # join '', '' ts) = (CHR '' '' # t) # split_on (CHR '','') (CHR '' '' # join '', '' ts)"
      using t(4) by (intro split_on_append; simp)+
    then show ?thesis
      using Cons False t by (simp add: join_Cons del: split_on.simps)
  qed
qed simp

lemma join_items_ends:
  "list_all item_ok ts \<Longrightarrow> ts \<noteq> [] \<Longrightarrow>
     join '', '' ts \<noteq> [] \<and> hd (join '', '' ts) \<noteq> CHR ''['' \<and> last (join '', '' ts) \<noteq> CHR '']'' \<and> list_all printable (join '', '' ts)"
proof (induction ts)
  case (Cons t ts)
  have t: "t \<noteq> []" "hd t \<noteq> CHR ''[''" "last t \<noteq> CHR '']''" "list_all printable t"
    using Cons.prems(1) hd_in_set [of t] last_in_set [of t] unfolding item_ok_def text_ok_def by force+
  show ?case
  proof (cases "ts = []")
    case True
    then show ?thesis using t by simp
  next
    case False
    moreover have "printable (CHR '','')" "printable (CHR '' '')"
      by (simp_all add: printable_def)
    ultimately show ?thesis using Cons t by (auto simp: join_Cons)
  qed
qed simp

lemma bracket_trim: "trim (CHR ''['' # x @ '']'') = CHR ''['' # x @ '']''"
  using trim_end_graphic [of "CHR '']''" "CHR ''['' # x"]
  by (simp add: trim_def trim_start_graphic)

lemma parse_print_list: "list_all item_ok ts \<Longrightarrow> parse_inline_list (print_list ts) = ts"
proof (cases "ts = []")
  case True
  then show ?thesis
    using bracket_trim [of "[]"]
    by (simp add: parse_inline_list_def print_list_def trim_start_matches_def trim_end_matches_def Let_def trim_matches_def)
next
  case False
  assume ok: "list_all item_ok ts"
  let ?j = "join '', '' ts"
  note e = join_items_ends [OF ok False]
  have "dropWhile (\<lambda>x. x = CHR ''['') (?j @ '']'') = ?j @ '']''"
    using e by (cases ?j) auto
  moreover have "dropWhile (\<lambda>x. x = CHR '']'') (rev ?j) = rev ?j"
    using e by (cases ?j rule: rev_cases) auto
  ultimately have "trim_end_matches (CHR '']'') (trim_start_matches (CHR ''['') (trim (print_list ts))) = ?j"
    unfolding print_list_def using bracket_trim [of ?j] by (simp add: trim_start_matches_def trim_end_matches_def)
  moreover have "filter (\<lambda>t. t \<noteq> []) ts = ts"
    using ok by (auto simp: filter_id_conv list_all_iff item_ok_def text_ok_def)
  ultimately show ?thesis
    using split_items [OF ok False] by (simp add: parse_inline_list_def Let_def)
qed

subsection \<open>Lines\<close>

definition line_ok :: "string \<Rightarrow> bool" where
  "line_ok l \<longleftrightarrow> l \<noteq> [] \<and> list_all printable l \<and> hd l \<noteq> CHR ''-''"

lemma str_lines_join:
  assumes "list_all line_ok ls" "ls \<noteq> []"
  shows "str_lines (join nl ls) = ls"
proof -
  have "CHR 0x0A \<notin> set l \<and> strip_cr l = l \<and> l \<noteq> []" if "line_ok l" for l
  proof -
    have "CHR 0x0A \<notin> set l" "CHR 0x0D \<notin> set l" "l \<noteq> []"
      using that by (auto simp: line_ok_def list_all_iff printable_def)
    moreover from this have "last l \<noteq> CHR 0x0D"
      by (metis last_in_set)
    ultimately show ?thesis by (simp add: strip_cr_def)
  qed
  then have ok: "list_all (\<lambda>l. CHR 0x0A \<notin> set l) ls" "map strip_cr ls = ls" "last ls \<noteq> []"
    using assms last_in_set [of ls] by (auto simp: list_all_iff map_idI)
  then have "map strip_cr (butlast ls) = butlast ls"
    by (metis map_butlast)
  then show ?thesis
    using assms ok split_on_join [of ls "CHR 0x0A"] by (simp add: str_lines_def Let_def)
qed

text \<open>The closing marker is the first line that starts with dashes.\<close>

lemma find_sub_skip: "\<not> starts_with (x # xs) p \<Longrightarrow> find_sub p (x # xs) = map_option Suc (find_sub p xs)"
  by simp

lemma find_marker_line:
  "list_all printable l \<Longrightarrow> find_sub (CHR 0x0A # ''---'') (l @ s) = map_option (\<lambda>n. length l + n) (find_sub (CHR 0x0A # ''---'') s)"
proof (induction l)
  case (Cons c l)
  then have "c \<noteq> CHR 0x0A" by (auto simp: printable_def)
  then show ?case using Cons by (simp add: option.map_comp o_def)
next
  case Nil
  show ?case by (cases "find_sub (CHR 0x0A # ''---'') s") simp_all
qed

lemma find_marker:
  "list_all line_ok ls \<Longrightarrow> ls \<noteq> [] \<Longrightarrow>
     find_sub (CHR 0x0A # ''---'') (join nl ls @ CHR 0x0A # ''---'' @ s) = Some (length (join nl ls))"
proof (induction ls)
  case (Cons l ls)
  have l: "list_all printable l" using Cons.prems(1) by (simp add: line_ok_def)
  show ?case
  proof (cases "ls = []")
    case True
    then show ?thesis using find_marker_line [OF l] by simp
  next
    case False
    then obtain l' ls' where ls: "ls = l' # ls'" by (cases ls) auto
    have l': "l' \<noteq> []" "hd l' \<noteq> CHR ''-''" using Cons.prems(1) by (auto simp: ls line_ok_def)
    have "join nl ls = l' @ (if ls' = [] then [] else nl @ join nl ls')"
      by (cases "ls' = []") (simp_all add: ls join_Cons)
    then have "\<not> starts_with (join nl ls @ CHR 0x0A # ''---'' @ s) ''---''"
      using l' by (cases l') auto
    then have "find_sub (CHR 0x0A # ''---'') (CHR 0x0A # join nl ls @ CHR 0x0A # ''---'' @ s)
        = Some (Suc (length (join nl ls)))"
      using Cons False by (subst find_sub_skip) auto
    then show ?thesis
      using find_marker_line [OF l, of "CHR 0x0A # join nl ls @ CHR 0x0A # ''---'' @ s"] False by (simp add: join_Cons)
  qed
qed simp

subsection \<open>Reading back\<close>

definition argument_ok :: "skill_argument \<Rightarrow> bool" where
  "argument_ok a \<longleftrightarrow> text_ok (sa_name a) \<and> (case sa_description a of None \<Rightarrow> True | Some d \<Rightarrow> text_ok d)"

definition skill_ok :: "skill \<Rightarrow> bool" where
  "skill_ok s \<longleftrightarrow> text_ok (sk_name s) \<and> text_ok (sk_description s) \<and> list_all item_ok (sk_tags s) \<and>
     list_all item_ok (sk_requires_tools s) \<and> list_all argument_ok (sk_arguments s) \<and> text_ok (sk_body s)"

lemma trim_spaces_text:
  "text_ok t \<Longrightarrow> trim (''    '' @ t) = t" "text_ok t \<Longrightarrow> trim (''  '' @ t) = t"
  by (simp_all add: trim_def, simp_all add: trim_def [symmetric])

lemma text_ok_key: "text_ok t \<Longrightarrow> text_ok (''description: '' @ t)" "text_ok t \<Longrightarrow> text_ok (''- name: '' @ t)"
  "text_ok t \<Longrightarrow> text_ok (''required: '' @ t)"
  by (simp_all add: text_ok_def graphic_def printable_def)

lemma text_ok_bool: "text_ok ''true''" "text_ok ''false''"
  by (simp_all add: text_ok_def graphic_def printable_def)

lemma argument_fields_print:
  assumes "argument_ok a" "rest = [] \<or> (\<exists>r rs. rest = (''  - name: '' @ r) # rs)"
  shows "argument_fields (tl (print_argument a) @ rest) \<lparr> sa_name = sa_name a, sa_description = None, sa_required = False \<rparr> = (a, rest)"
proof -
  have stop: "argument_fields rest b = (b, rest)" for b
    using assms(2) by auto
  have req: "argument_fields ((''    required: '' @ (if r then ''true'' else ''false'')) # rest) b = (b\<lparr> sa_required := r \<rparr>, rest)" for b r
    using trim_spaces_text(1) [OF text_ok_key(3) [OF text_ok_bool(1)]] trim_spaces_text(1) [OF text_ok_key(3) [OF text_ok_bool(2)]] text_ok_bool
    by (cases r) (simp_all add: strip_prefix_def stop)
  show ?thesis
  proof (cases "sa_description a")
    case None
    then show ?thesis using req by (simp add: print_argument_def)
  next
    case (Some d)
    then have d: "text_ok d" using assms(1) by (simp add: argument_ok_def)
    show ?thesis
      using Some req trim_spaces_text(1) [OF text_ok_key(1) [OF d]] d by (simp add: print_argument_def strip_prefix_def)
  qed
qed

lemma argument_list_print:
  "list_all argument_ok as \<Longrightarrow> argument_list (concat (map print_argument as)) acc = (acc @ as, [])"
proof (induction as arbitrary: acc)
  case (Cons a as)
  let ?rest = "concat (map print_argument as)"
  have rest: "?rest = [] \<or> (\<exists>r rs. ?rest = (''  - name: '' @ r) # rs)"
    by (cases as) (auto simp: print_argument_def)
  have n: "text_ok (sa_name a)" using Cons.prems by (simp add: argument_ok_def)
  obtain fs where fs: "print_argument a = (''  - name: '' @ sa_name a) # fs" "tl (print_argument a) = fs"
    by (simp add: print_argument_def)
  have "argument_list (concat (map print_argument (a # as))) acc = argument_list ?rest (acc @ [a])"
    unfolding list.map concat.simps fs(1) append_Cons
    using trim_spaces_text(2) [OF text_ok_key(2) [OF n]] n argument_fields_print [of a ?rest, unfolded fs(2)] rest Cons.prems
    by (subst argument_list.simps) (simp add: strip_prefix_def)
  then show ?case using Cons by simp
qed (simp add: argument_list.simps)

lemma frontmatter_line:
  assumes "trim_end line = line" "line \<noteq> []" "hd line \<noteq> CHR ''#''"
  shows "frontmatter_loop (line # ls) s =
    (case strip_prefix ''name:'' line of
       Some rest \<Rightarrow> frontmatter_loop ls (s\<lparr> sk_name := scalar rest \<rparr>)
     | None \<Rightarrow>
         (case strip_prefix ''description:'' line of
            Some rest \<Rightarrow> frontmatter_loop ls (s\<lparr> sk_description := scalar rest \<rparr>)
          | None \<Rightarrow>
              if starts_with line ''tags:'' then
                frontmatter_loop ls (s\<lparr> sk_tags := parse_inline_list (trim (trim_start_sub ''tags:'' line)) \<rparr>)
              else if starts_with line ''requires_tools:'' then
                frontmatter_loop ls (s\<lparr> sk_requires_tools := parse_inline_list (trim (trim_start_sub ''requires_tools:'' line)) \<rparr>)
              else if line = ''arguments:'' then
                (case argument_list ls (sk_arguments s) of (args, rest) \<Rightarrow> frontmatter_loop rest (s\<lparr> sk_arguments := args \<rparr>))
              else frontmatter_loop ls s))"
proof -
  have "\<not> starts_with line ''#''" using assms(2,3) by (cases line) auto
  then show ?thesis
    using assms(1,2) by (subst frontmatter_loop.simps) (simp add: Let_def)
qed

lemma trim_start_sub_once: "p \<noteq> [] \<Longrightarrow> \<not> starts_with s p \<Longrightarrow> trim_start_sub p (p @ s) = s"
  by (subst trim_start_sub.simps, simp, subst trim_start_sub.simps) simp

lemma trim_print_list: "trim (CHR '' '' # print_list ts) = print_list ts"
  using bracket_trim [of "join '', '' ts"] by (simp add: print_list_def trim_def)

lemma print_list_text: "list_all item_ok ts \<Longrightarrow> text_ok (print_list ts)"
  using join_items_ends [of ts] by (cases "ts = []") (auto simp: print_list_def text_ok_def graphic_def printable_def)

lemma frontmatter_print:
  assumes "skill_ok s"
  shows "frontmatter_loop (print_frontmatter s) empty_skill = s\<lparr> sk_body := [], sk_source := None \<rparr>"
proof -
  have ok: "text_ok (sk_name s)" "text_ok (sk_description s)" "list_all item_ok (sk_tags s)"
    "list_all item_ok (sk_requires_tools s)" "list_all argument_ok (sk_arguments s)"
    using assms by (simp_all add: skill_ok_def)
  have te: "trim_end (''name: '' @ sk_name s) = ''name: '' @ sk_name s"
    "trim_end (''description: '' @ sk_description s) = ''description: '' @ sk_description s"
    "trim_end (''tags: '' @ print_list (sk_tags s)) = ''tags: '' @ print_list (sk_tags s)"
    "trim_end (''requires_tools: '' @ print_list (sk_requires_tools s)) = ''requires_tools: '' @ print_list (sk_requires_tools s)"
    "trim_end ''arguments:'' = ''arguments:''"
    using ok trim_end_graphic [of "CHR '':''" "''arguments''"] by (simp_all only: trim_end_text print_list_text) simp
  have tags: "trim_start_sub ''tags:'' (''tags: '' @ print_list (sk_tags s)) = CHR '' '' # print_list (sk_tags s)"
    "trim_start_sub ''requires_tools:'' (''requires_tools: '' @ print_list (sk_requires_tools s)) = CHR '' '' # print_list (sk_requires_tools s)"
    using trim_start_sub_once [of "''tags:''" "CHR '' '' # print_list (sk_tags s)"]
      trim_start_sub_once [of "''requires_tools:''" "CHR '' '' # print_list (sk_requires_tools s)"] by simp_all
  have "frontmatter_loop (print_frontmatter s) empty_skill =
      frontmatter_loop [] (empty_skill\<lparr> sk_name := sk_name s, sk_description := sk_description s, sk_tags := sk_tags s,
         sk_requires_tools := sk_requires_tools s, sk_arguments := sk_arguments s \<rparr>)"
    using te tags ok parse_print_list argument_list_print [OF ok(5), of "[]"]
    by (simp add: print_frontmatter_def frontmatter_line strip_prefix_def trim_print_list empty_skill_def)
  also have "\<dots> = s\<lparr> sk_body := [], sk_source := None \<rparr>"
    by (simp add: frontmatter_loop.simps empty_skill_def)
  finally show ?thesis .
qed

lemma line_ok_key: "list_all printable k \<Longrightarrow> k \<noteq> [] \<Longrightarrow> hd k \<noteq> CHR ''-'' \<Longrightarrow> list_all printable t \<Longrightarrow> line_ok (k @ t)"
  by (cases k) (simp_all add: line_ok_def)

lemma line_ok_keys:
  assumes "list_all printable t"
  shows "line_ok (''name: '' @ t)" "line_ok (''description: '' @ t)" "line_ok (''tags: '' @ t)"
    "line_ok (''requires_tools: '' @ t)" "line_ok (''  - name: '' @ t)" "line_ok (''    description: '' @ t)"
    "line_ok (''    required: '' @ t)"
  by (rule line_ok_key; simp add: printable_def assms)+

lemma print_frontmatter_lines:
  assumes "skill_ok s"
  shows "list_all line_ok (print_frontmatter s)" "print_frontmatter s \<noteq> []"
proof -
  have t: "list_all printable x" if "text_ok x" for x
    using that by (simp add: text_ok_def)
  have "list_all line_ok (print_argument a)" if "argument_ok a" for a
  proof -
    have "list_all printable (if sa_required a then ''true'' else ''false'')"
      using t text_ok_bool by simp
    note line_ok_keys(7) [OF this]
    moreover have "line_ok (''  - name: '' @ sa_name a)"
      using that t by (intro line_ok_keys) (simp add: argument_ok_def)
    moreover have "line_ok (''    description: '' @ d)" if "sa_description a = Some d" for d
      using that \<open>argument_ok a\<close> t by (intro line_ok_keys) (simp add: argument_ok_def)
    ultimately show ?thesis
      unfolding print_argument_def by (cases "sa_description a") (simp_all only: option.case list.pred_inject append.simps simp_thms)
  qed
  then have args: "list_all line_ok (concat (map print_argument (sk_arguments s)))"
    using assms by (auto simp: skill_ok_def list_all_iff)
  have "line_ok ''arguments:''" by (simp add: line_ok_def printable_def)
  then show "list_all line_ok (print_frontmatter s)"
    using assms t args print_list_text unfolding print_frontmatter_def skill_ok_def
    by (simp only: list_all_append list.pred_inject line_ok_keys simp_thms)
  show "print_frontmatter s \<noteq> []" by (simp add: print_frontmatter_def)
qed

text \<open>
  A skill whose fields are printable text, without quotes at their ends and with list items free of
  commas and brackets, is read back from the file it is written as, with the path as its source.
\<close>

lemma skill_file_roundtrip:
  assumes "skill_ok s"
  shows "parse_skill_file path (print_skill s) = Inr (s\<lparr> sk_source := Some path \<rparr>)"
proof -
  let ?ls = "print_frontmatter s"
  let ?rest = "join nl ?ls @ CHR 0x0A # ''---'' @ nl @ nl @ sk_body s @ nl"
  note l = print_frontmatter_lines [OF assms]
  have body: "text_ok (sk_body s)" using assms by (simp add: skill_ok_def)
  have "trim_start (print_skill s) = print_skill s"
    unfolding print_skill_def by (simp add: trim_start_graphic)
  then have "strip_prefix ''---'' (trim_start (print_skill s)) = Some (CHR 0x0A # ?rest)"
    by (simp add: print_skill_def strip_prefix_def)
  moreover have "find_sub (CHR 0x0A # ''---'') ?rest = Some (length (join nl ?ls))"
    using find_marker [OF l] by blast
  ultimately have split: "split_frontmatter (print_skill s) = Some (join nl ?ls, CHR 0x0A # sk_body s @ nl)"
    by (simp add: split_frontmatter_def strip_newline_def strip_prefix_def Let_def del: find_sub.simps)
  have "trim_end (sk_body s @ nl) = sk_body s"
  proof -
    have "ws_width_rev (CHR 0x0A # rev (sk_body s)) = 1" by (simp add: is_ascii_ws_def)
    then have "trim_end_rev (CHR 0x0A # rev (sk_body s)) = trim_end_rev (rev (sk_body s))"
      by (subst trim_end_rev.simps) simp
    then show ?thesis
      using trim_end_text [OF body, of "[]"] by (simp add: trim_end_def)
  qed
  then have tb: "trim (CHR 0x0A # sk_body s @ nl) = sk_body s"
    using trim_start_text [OF body, of nl] by (simp add: trim_def)
  have "parse_frontmatter (join nl ?ls) = Inr (s\<lparr> sk_body := [], sk_source := None \<rparr>)"
    using str_lines_join [OF l] frontmatter_print [OF assms] assms
    by (simp add: parse_frontmatter_def Let_def skill_ok_def text_ok_def)
  then show ?thesis
    using split tb by (simp add: parse_skill_file_def)
qed

definition sample_skill :: skill where
  "sample_skill = \<lparr> sk_name = ''sap.skill.test'', sk_description = ''A test skill'', sk_tags = [''test'', ''demo''],
     sk_requires_tools = [''sap.docs.search''],
     sk_arguments = [\<lparr> sa_name = ''company_code'', sa_description = Some ''BUKRS'', sa_required = True \<rparr>,
       \<lparr> sa_name = ''fiscal_period'', sa_description = None, sa_required = False \<rparr>],
     sk_body = ''Investigate period close.'', sk_source = None \<rparr>"

end
