(* ===== verification/Crawl_Policy.thy ===== *)
theory Crawl_Policy
  imports Prelude
begin

text \<open>
  Crawling politely (\<open>sap-automate-ingest/src/robots.rs\<close> and \<open>rate_limit.rs\<close>): the parser of
  \<open>robots.txt\<close>, the decision for an agent and a path, and the rate limiter per host. Reading a crawl
  delay as a float and converting it to milliseconds is a parameter; the clock is an argument.
\<close>

section \<open>Robots\<close>

datatype decision = Allowed | Disallowed

record robots_group =
  rg_allow :: "string list"
  rg_disallow :: "string list"
  rg_crawl_delay :: "nat option"

definition empty_group :: robots_group where
  "empty_group = \<lparr> rg_allow = [], rg_disallow = [], rg_crawl_delay = None \<rparr>"

type_synonym robots_txt = "(string, robots_group) amap"

definition strip_comment :: "string \<Rightarrow> string" where
  "strip_comment line = takeWhile (\<lambda>c. c \<noteq> CHR ''#'') line"

text \<open>\<open>body.lines()\<close>: the carriage return before a line feed is trimmed anyway.\<close>

definition robots_lines :: "string \<Rightarrow> string list" where
  "robots_lines body = split_on (CHR 0x0A) body"

text \<open>A line as a directive: lower-case key and value, \<open>None\<close> for a line that is skipped.\<close>

definition line_directive :: "string \<Rightarrow> (string \<times> string) option" where
  "line_directive raw =
     (let line = trim (strip_comment raw) in
      if line = [] then None
      else (case split_once (CHR '':'') line of
              None \<Rightarrow> None
            | Some (k, v) \<Rightarrow> Some (ascii_lowercase (trim k), trim v)))"

definition is_rule :: "string \<Rightarrow> bool" where
  "is_rule key \<longleftrightarrow> key \<in> {''allow'', ''disallow'', ''crawl-delay''}"

definition add_rule :: "(string \<Rightarrow> nat option) \<Rightarrow> string \<Rightarrow> string \<Rightarrow> robots_group \<Rightarrow> robots_group" where
  "add_rule delay_ms key v g =
     (if key = ''allow'' \<and> v \<noteq> [] then g\<lparr> rg_allow := rg_allow g @ [v] \<rparr>
      else if key = ''disallow'' \<and> v \<noteq> [] then g\<lparr> rg_disallow := rg_disallow g @ [v] \<rparr>
      else if key = ''crawl-delay'' then
        (case delay_ms v of Some ms \<Rightarrow> g\<lparr> rg_crawl_delay := Some ms \<rparr> | None \<Rightarrow> g)
      else g)"

definition group_or_default :: "robots_txt \<Rightarrow> string \<Rightarrow> robots_group" where
  "group_or_default r a = (case map_of r a of None \<Rightarrow> empty_group | Some g \<Rightarrow> g)"

definition rule_for :: "(string \<Rightarrow> nat option) \<Rightarrow> string \<Rightarrow> string \<Rightarrow> string \<Rightarrow> robots_txt \<Rightarrow> robots_txt" where
  "rule_for delay_ms key v agent r = amap_insert agent (add_rule delay_ms key v (group_or_default r agent)) r"

record robots_state =
  rs_out :: robots_txt
  rs_agents :: "string list"
  rs_saw_directive :: bool

definition robots_step :: "(string \<Rightarrow> nat option) \<Rightarrow> string \<times> string \<Rightarrow> robots_state \<Rightarrow> robots_state" where
  "robots_step delay_ms = (\<lambda>(key, v) st.
     if key = ''user-agent'' then
       (let agents = (if rs_saw_directive st then [] else rs_agents st)
        in st\<lparr> rs_agents := agents @ [ascii_lowercase v], rs_saw_directive := False \<rparr>)
     else if is_rule key then
       st\<lparr> rs_out := fold (rule_for delay_ms key v) (rs_agents st) (rs_out st), rs_saw_directive := True \<rparr>
     else st)"

definition robots_start :: robots_state where
  "robots_start = \<lparr> rs_out = [], rs_agents = [], rs_saw_directive = False \<rparr>"

definition robots_parse :: "(string \<Rightarrow> nat option) \<Rightarrow> string \<Rightarrow> robots_txt" where
  "robots_parse delay_ms body =
     rs_out (fold (robots_step delay_ms) (List.map_filter line_directive (robots_lines body)) robots_start)"

definition longest_prefix_match :: "string list option \<Rightarrow> string \<Rightarrow> nat option" where
  "longest_prefix_match rules path =
     (case rules of
        None \<Rightarrow> None
      | Some rs \<Rightarrow>
          (let ls = map length (filter (\<lambda>r. starts_with path r) rs)
           in if ls = [] then None else Some (fold max ls 0)))"

definition better_agent ::
  "string \<Rightarrow> string \<times> robots_group \<Rightarrow> (nat \<times> robots_group) option \<Rightarrow> (nat \<times> robots_group) option" where
  "better_agent ua = (\<lambda>(agent, g) best.
     if agent = ''*'' then best
     else if starts_with ua agent \<and> (case best of Some (len, _) \<Rightarrow> length agent > len | None \<Rightarrow> True)
          then Some (length agent, g) else best)"

definition matching_group :: "robots_txt \<Rightarrow> string \<Rightarrow> robots_group option" where
  "matching_group r user_agent =
     (let ua = ascii_lowercase user_agent in
      case map_of r ua of
        Some g \<Rightarrow> Some g
      | None \<Rightarrow>
          (case fold (better_agent ua) r None of
             Some (_, g) \<Rightarrow> Some g
           | None \<Rightarrow> map_of r ''*''))"

definition robots_is_allowed :: "robots_txt \<Rightarrow> string \<Rightarrow> string \<Rightarrow> decision" where
  "robots_is_allowed r user_agent path =
     (let group = matching_group r user_agent in
      case (longest_prefix_match (map_option rg_allow group) path, longest_prefix_match (map_option rg_disallow group) path) of
        (None, None) \<Rightarrow> Allowed
      | (Some _, None) \<Rightarrow> Allowed
      | (None, Some _) \<Rightarrow> Disallowed
      | (Some a, Some d) \<Rightarrow> if a \<ge> d then Allowed else Disallowed)"

definition robots_crawl_delay :: "robots_txt \<Rightarrow> string \<Rightarrow> nat option" where
  "robots_crawl_delay r user_agent = Option.bind (matching_group r user_agent) rg_crawl_delay"

section \<open>Which group applies\<close>

text \<open>
  The reference: the group named by the agent itself, else the group of the longest other name it
  starts with, else the wildcard.
\<close>

definition prefix_agents :: "robots_txt \<Rightarrow> string \<Rightarrow> string set" where
  "prefix_agents r ua = {a. a \<in> dom (map_of r) \<and> a \<noteq> ''*'' \<and> starts_with ua a}"

lemma prefix_length_unique: "starts_with s a \<Longrightarrow> starts_with s b \<Longrightarrow> length a = length b \<Longrightarrow> a = b"
  by (auto simp: prefix_def)

lemma better_agent_fold:
  "(case best of None \<Rightarrow> True | Some (l, g) \<Rightarrow> \<exists>a. length a = l \<and> a \<noteq> ''*'' \<and> starts_with ua a \<and> P a g) \<Longrightarrow>
   (\<And>a g. (a, g) \<in> set kvs \<Longrightarrow> P a g) \<Longrightarrow>
   (case fold (better_agent ua) kvs best of
      None \<Rightarrow> best = None \<and> (\<forall>(a, g) \<in> set kvs. a = ''*'' \<or> \<not> starts_with ua a)
    | Some (l, g) \<Rightarrow> (\<exists>a. length a = l \<and> a \<noteq> ''*'' \<and> starts_with ua a \<and> P a g) \<and>
        (case best of None \<Rightarrow> True | Some (l', _) \<Rightarrow> l' \<le> l) \<and>
        (\<forall>(a, g) \<in> set kvs. a = ''*'' \<or> \<not> starts_with ua a \<or> length a \<le> l))"
proof (induction kvs arbitrary: best)
  case Nil
  then show ?case by (auto split: option.splits)
next
  case (Cons kv kvs)
  obtain a g where kv: "kv = (a, g)" by (cases kv)
  let ?b = "better_agent ua (a, g) best"
  have ok: "case ?b of None \<Rightarrow> True | Some (l, g) \<Rightarrow> \<exists>a. length a = l \<and> a \<noteq> ''*'' \<and> starts_with ua a \<and> P a g"
    using Cons.prems(1) Cons.prems(2) [of a g] kv by (auto simp: better_agent_def split: option.splits)
  have mono: "(case best of None \<Rightarrow> True | Some (l', _) \<Rightarrow> (case ?b of None \<Rightarrow> False | Some (l, _) \<Rightarrow> l' \<le> l))"
    by (auto simp: better_agent_def split: option.splits)
  have here: "a = ''*'' \<or> \<not> starts_with ua a \<or> (case ?b of None \<Rightarrow> False | Some (l, _) \<Rightarrow> length a \<le> l)"
    by (auto simp: better_agent_def split: option.splits)
  show ?case
    using Cons.IH [OF ok] Cons.prems(2) mono here unfolding kv
    by (auto split: option.splits)
qed

definition applicable :: "robots_txt \<Rightarrow> string \<Rightarrow> robots_group option \<Rightarrow> bool" where
  "applicable r ua g \<longleftrightarrow>
     (if ua \<in> dom (map_of r) then g = map_of r ua
      else if prefix_agents r ua = {} then g = map_of r ''*''
      else (\<exists>a \<in> prefix_agents r ua. g = map_of r a \<and> (\<forall>b \<in> prefix_agents r ua. length b \<le> length a)))"

lemma matching_group_applicable:
  assumes "amap_wf r"
  shows "applicable r (ascii_lowercase user_agent) (matching_group r user_agent)"
proof (cases "map_of r (ascii_lowercase user_agent)")
  case (Some g)
  then show ?thesis by (simp add: matching_group_def applicable_def Let_def dom_def)
next
  case None
  let ?ua = "ascii_lowercase user_agent"
  have P: "map_of r a = Some g" if "(a, g) \<in> set r" for a g
    using that assms(1) by (simp add: amap_wf_distinct)
  note f = better_agent_fold [where best = None and ua = ?ua and kvs = r and P = "\<lambda>a g. map_of r a = Some g", simplified, OF P]
  show ?thesis
  proof (cases "fold (better_agent ?ua) r None")
    case none: None
    then have "prefix_agents r ?ua = {}"
      using f by (auto simp: prefix_agents_def dest: map_of_SomeD)
    then show ?thesis
      using None none by (simp add: matching_group_def applicable_def Let_def dom_def)
  next
    case (Some lg)
    obtain l g where lg: "lg = (l, g)" by (cases lg)
    obtain a where a: "length a = l" "a \<noteq> ''*''" "starts_with ?ua a" "map_of r a = Some g"
      using f Some lg by auto
    have "length b \<le> length a" if "b \<in> prefix_agents r ?ua" for b
      using f Some lg that a(1) by (auto simp: prefix_agents_def dest!: map_of_SomeD)
    moreover have "a \<in> prefix_agents r ?ua"
      using a by (auto simp: prefix_agents_def)
    moreover have "matching_group r user_agent = map_of r a"
      using None Some lg a by (simp add: matching_group_def Let_def)
    ultimately show ?thesis
      using None unfolding applicable_def by (auto simp: dom_def)
  qed
qed

text \<open>At most one group applies, so the choice does not depend on the order of the map.\<close>

lemma applicable_unique: "applicable r ua g \<Longrightarrow> applicable r ua g' \<Longrightarrow> g = g'"
proof (cases "ua \<in> dom (map_of r) \<or> prefix_agents r ua = {}")
  case False
  assume "applicable r ua g" "applicable r ua g'"
  then obtain a b where "a \<in> prefix_agents r ua" "g = map_of r a" "\<forall>c \<in> prefix_agents r ua. length c \<le> length a"
    "b \<in> prefix_agents r ua" "g' = map_of r b" "\<forall>c \<in> prefix_agents r ua. length c \<le> length b"
    using False unfolding applicable_def by (simp only: if_False de_Morgan_disj) blast
  then have "length a = length b" "starts_with ua a" "starts_with ua b"
    by (auto simp: prefix_agents_def intro: le_antisym)
  then have "a = b"
    using prefix_length_unique by blast
  then show ?thesis
    using \<open>g = map_of r a\<close> \<open>g' = map_of r b\<close> by simp
qed (auto simp: applicable_def split: if_splits)

lemma fold_max_nat: "fold max ls (m :: nat) \<in> insert m (set ls) \<and> (\<forall>x \<in> insert m (set ls). x \<le> fold max ls m)"
proof (induction ls arbitrary: m)
  case (Cons a ls)
  have "max a m \<in> {a, m}" by (simp add: max_def)
  moreover have "max a m \<le> fold max ls (max a m)" using Cons.IH [of "max a m"] by blast
  ultimately show ?case using Cons.IH [of "max a m"] by auto
qed simp

lemma longest_prefix_match_spec:
  "longest_prefix_match (Some rs) path = None \<longleftrightarrow> filter (\<lambda>r. starts_with path r) rs = []"
  "longest_prefix_match (Some rs) path = Some n \<Longrightarrow>
     (\<exists>r \<in> set rs. starts_with path r \<and> length r = n) \<and> (\<forall>r \<in> set rs. starts_with path r \<longrightarrow> length r \<le> n)"
proof -
  let ?ms = "filter (\<lambda>r. starts_with path r) rs"
  show "longest_prefix_match (Some rs) path = None \<longleftrightarrow> ?ms = []"
    by (simp add: longest_prefix_match_def Let_def)
  assume "longest_prefix_match (Some rs) path = Some n"
  then have n: "n = fold max (map length ?ms) 0" "?ms \<noteq> []"
    by (auto simp: longest_prefix_match_def Let_def split: if_splits)
  have le: "length r \<le> n" if "r \<in> set ?ms" for r
    unfolding n(1) using fold_max_nat [of "map length ?ms" 0] that by auto
  obtain r0 where r0: "r0 \<in> set ?ms" using n(2) by (cases ?ms) auto
  have "n \<in> insert 0 (length ` set ?ms)"
    unfolding n(1) using fold_max_nat [of "map length ?ms" 0] by simp
  then have "n \<in> length ` set ?ms"
    using r0 le [OF r0] by (metis image_eqI insertE le_zero_eq)
  then show "(\<exists>r \<in> set rs. starts_with path r \<and> length r = n) \<and> (\<forall>r \<in> set rs. starts_with path r \<longrightarrow> length r \<le> n)"
    using le by auto
qed

lemma rule_for_wf: "amap_wf r \<Longrightarrow> amap_wf (fold (rule_for d k v) as r)"
  by (induction as arbitrary: r) (simp_all add: rule_for_def)

lemma robots_fold_wf: "amap_wf (rs_out st) \<Longrightarrow> amap_wf (rs_out (fold (robots_step d) ds st))"
proof (induction ds arbitrary: st)
  case (Cons x ds)
  have "amap_wf (rs_out (robots_step d x st))"
    using Cons.prems by (cases x) (simp add: robots_step_def rule_for_wf Let_def)
  then show ?case using Cons.IH by simp
qed simp

lemma robots_parse_wf: "amap_wf (robots_parse d body)"
  unfolding robots_parse_def by (rule robots_fold_wf) (simp add: robots_start_def)

text \<open>A disallow rule that matches the path and is longer than every matching allow rule.\<close>

definition blocked :: "robots_group \<Rightarrow> string \<Rightarrow> bool" where
  "blocked g path \<longleftrightarrow> list_ex (\<lambda>d. starts_with path d \<and>
     list_all (\<lambda>a. length a < length d) (filter (starts_with path) (rg_allow g))) (rg_disallow g)"

lemma decision_blocked:
  "(case (longest_prefix_match (Some al) path, longest_prefix_match (Some dl) path) of
      (None, None) \<Rightarrow> Allowed | (Some _, None) \<Rightarrow> Allowed | (None, Some _) \<Rightarrow> Disallowed
    | (Some a, Some d) \<Rightarrow> if a \<ge> d then Allowed else Disallowed) = Disallowed \<longleftrightarrow>
   (\<exists>d \<in> set dl. starts_with path d \<and> (\<forall>a \<in> set al. starts_with path a \<longrightarrow> length a < length d))"
proof (cases "longest_prefix_match (Some dl) path")
  case None
  then have "\<forall>d \<in> set dl. \<not> starts_with path d"
    using longest_prefix_match_spec(1) [of dl path] by (auto simp: filter_empty_conv)
  then show ?thesis using None by (auto split: option.split)
next
  case (Some d)
  obtain d0 where d: "d0 \<in> set dl" "starts_with path d0" "length d0 = d"
    and dmax: "\<And>e. e \<in> set dl \<Longrightarrow> starts_with path e \<Longrightarrow> length e \<le> d"
    using longest_prefix_match_spec(2) [OF Some] by blast
  show ?thesis
  proof (cases "longest_prefix_match (Some al) path")
    case None
    then have "\<forall>a \<in> set al. \<not> starts_with path a"
      using longest_prefix_match_spec(1) [of al path] by (auto simp: filter_empty_conv)
    then show ?thesis using None Some d by auto
  next
    case a: (Some m)
    obtain a0 where a0: "a0 \<in> set al" "starts_with path a0" "length a0 = m"
      and amax: "\<And>e. e \<in> set al \<Longrightarrow> starts_with path e \<Longrightarrow> length e \<le> m"
      using longest_prefix_match_spec(2) [OF a] by blast
    have "(\<exists>d \<in> set dl. starts_with path d \<and> (\<forall>a \<in> set al. starts_with path a \<longrightarrow> length a < length d)) \<longleftrightarrow> m < d"
      using d dmax a0 amax by (meson leD le_less_trans less_le_trans not_less)
    then show ?thesis using a Some by simp
  qed
qed

text \<open>
  For every \<open>robots.txt\<close> and agent exactly one group applies (its own, else the longest name it
  starts with, else the wildcard), whatever the order of the map, and a path is refused exactly when
  that group has a disallow rule it starts with that is longer than every allow rule it starts with.
\<close>

lemma robots_decision:
  "let r = robots_parse delay_ms body; g = matching_group r user_agent
   in {g'. applicable r (ascii_lowercase user_agent) g'} = {g} \<and>
      (robots_is_allowed r user_agent path = Disallowed \<longleftrightarrow> (case g of None \<Rightarrow> False | Some g \<Rightarrow> blocked g path))"
proof -
  let ?r = "robots_parse delay_ms body"
  let ?g = "matching_group ?r user_agent"
  have "{g'. applicable ?r (ascii_lowercase user_agent) g'} = {?g}"
    using matching_group_applicable [OF robots_parse_wf] applicable_unique by blast
  moreover have "robots_is_allowed ?r user_agent path = Disallowed \<longleftrightarrow> (case ?g of None \<Rightarrow> False | Some g \<Rightarrow> blocked g path)"
  proof (cases ?g)
    case None
    then show ?thesis by (simp add: robots_is_allowed_def longest_prefix_match_def Let_def)
  next
    case (Some g)
    then show ?thesis
      unfolding robots_is_allowed_def Let_def Some option.map decision_blocked
      by (auto simp: blocked_def list_ex_iff list_all_iff)
  qed
  ultimately show ?thesis by (simp add: Let_def)
qed

section \<open>Parsing\<close>

text \<open>
  The reference: the directives cut into groups, each a run of agent lines and the rules up to the next
  agent line (other directives are dropped first).
\<close>

fun group_rules :: "string list \<Rightarrow> (string \<times> string) list \<Rightarrow> (string \<times> string) list \<Rightarrow> (string list \<times> (string \<times> string) list) list" where
  "group_rules agents rules [] = [(agents, rules)]"
| "group_rules agents rules ((key, v) # ds) =
     (if key = ''user-agent'' then
        (if rules \<noteq> [] then (agents, rules) # group_rules [ascii_lowercase v] [] ds
         else group_rules (agents @ [ascii_lowercase v]) rules ds)
      else if is_rule key then group_rules agents (rules @ [(key, v)]) ds
      else group_rules agents rules ds)"

text \<open>Each rule of a group goes to every agent line of the group.\<close>

definition apply_groups ::
  "(string \<Rightarrow> nat option) \<Rightarrow> string \<Rightarrow> (string list \<times> (string \<times> string) list) list \<Rightarrow> robots_group \<Rightarrow> robots_group" where
  "apply_groups d agent = fold (\<lambda>(agents, rules). fold (\<lambda>(k, v). (add_rule d k v ^^ count_list agents agent)) rules)"

lemma group_rule_for:
  "amap_wf r \<Longrightarrow> group_or_default (fold (rule_for d k v) as r) agent = (add_rule d k v ^^ count_list as agent) (group_or_default r agent)"
proof (induction as arbitrary: r)
  case (Cons a as)
  have "group_or_default (rule_for d k v a r) agent =
      (if a = agent then add_rule d k v (group_or_default r agent) else group_or_default r agent)"
    using Cons.prems by (simp add: group_or_default_def rule_for_def)
  moreover have "amap_wf (rule_for d k v a r)"
    using Cons.prems by (simp add: rule_for_def)
  ultimately show ?case
    using Cons.IH by (simp add: funpow_swap1)
qed simp

text \<open>Rules already in the open group have been applied; the rest of the open group and later groups follow.\<close>

lemma robots_fold_groups:
  assumes "amap_wf (rs_out st)" "rs_saw_directive st = (rules \<noteq> [])"
    and "group_or_default (rs_out st) agent = apply_groups d agent (done_groups @ [(rs_agents st, rules)]) empty_group"
  shows "group_or_default (rs_out (fold (robots_step d) ds st)) agent =
    apply_groups d agent (done_groups @ group_rules (rs_agents st) rules ds) empty_group"
  using assms
proof (induction ds arbitrary: st rules done_groups)
  case (Cons x ds)
  obtain key v where x: "x = (key, v)" by (cases x)
  consider (ua) "key = ''user-agent''" | (rule) "key \<noteq> ''user-agent''" "is_rule key" | (other) "key \<noteq> ''user-agent''" "\<not> is_rule key"
    by blast
  then show ?case
  proof cases
    case ua
    show ?thesis
    proof (cases "rules = []")
      case True
      then show ?thesis
        using Cons.IH [of "robots_step d x st" "[]" done_groups] Cons.prems ua
        by (simp add: x robots_step_def Let_def apply_groups_def)
    next
      case False
      then show ?thesis
        using Cons.IH [of "robots_step d x st" "[]" "done_groups @ [(rs_agents st, rules)]"] Cons.prems ua
        by (simp add: x robots_step_def Let_def apply_groups_def)
    qed
  next
    case rule
    have "group_or_default (rs_out (robots_step d x st)) agent = apply_groups d agent (done_groups @ [(rs_agents st, rules @ [(key, v)])]) empty_group"
      using Cons.prems rule group_rule_for [of "rs_out st" d key v "rs_agents st" agent]
      by (simp add: x robots_step_def apply_groups_def)
    then show ?thesis
      using Cons.IH [of "robots_step d x st" "rules @ [(key, v)]" done_groups] Cons.prems rule
      by (simp add: x robots_step_def rule_for_wf)
  next
    case other
    then show ?thesis
      using Cons.IH [of st rules done_groups] Cons.prems by (simp add: x robots_step_def)
  qed
qed (simp add: Let_def)

text \<open>
  Parsing \<open>robots.txt\<close> line by line gives each agent the rules of the groups that name it, in file
  order, where a group is a run of agent lines with the rules up to the next agent line, and unknown or
  malformed lines change nothing.
\<close>

lemma robots_parse_groups:
  "group_or_default (robots_parse delay_ms body) agent =
     apply_groups delay_ms agent (group_rules [] [] (List.map_filter line_directive (robots_lines body))) empty_group"
  unfolding robots_parse_def
  using robots_fold_groups [of robots_start "[]" agent delay_ms "[]"]
  by (simp add: robots_start_def group_or_default_def apply_groups_def)

section \<open>The rate limiter\<close>

record bucket_state =
  bs_next_ready :: nat
  bs_interval :: nat

record rate_limiter =
  rl_default_interval :: nat
  rl_state :: "(string, bucket_state) amap"

definition rate_limiter_new :: "nat \<Rightarrow> rate_limiter" where
  "rate_limiter_new default_interval = \<lparr> rl_default_interval = default_interval, rl_state = [] \<rparr>"

definition set_interval :: "nat \<Rightarrow> string \<Rightarrow> nat \<Rightarrow> rate_limiter \<Rightarrow> rate_limiter" where
  "set_interval now host interval rl =
     (let entry = (case map_of (rl_state rl) host of Some b \<Rightarrow> b | None \<Rightarrow> \<lparr> bs_next_ready = now, bs_interval = interval \<rparr>)
      in rl\<lparr> rl_state := amap_insert host (entry\<lparr> bs_interval := interval \<rparr>) (rl_state rl) \<rparr>)"

definition acquire_wait :: "nat \<Rightarrow> string \<Rightarrow> rate_limiter \<Rightarrow> nat \<times> rate_limiter" where
  "acquire_wait now host rl =
     (let entry = (case map_of (rl_state rl) host of Some b \<Rightarrow> b
                   | None \<Rightarrow> \<lparr> bs_next_ready = now, bs_interval = rl_default_interval rl \<rparr>);
          wait = (if now \<ge> bs_next_ready entry then 0 else bs_next_ready entry - now);
          base = max (bs_next_ready entry) now
      in (wait, rl\<lparr> rl_state := amap_insert host (entry\<lparr> bs_next_ready := base + bs_interval entry \<rparr>) (rl_state rl) \<rparr>))"

definition interval_of :: "rate_limiter \<Rightarrow> string \<Rightarrow> nat" where
  "interval_of rl host = (case map_of (rl_state rl) host of Some b \<Rightarrow> bs_interval b | None \<Rightarrow> rl_default_interval rl)"

text \<open>
  A run of the limiter: operations at given times. A fetch of a host is at the time of its acquire plus
  its wait; it is recorded with the interval in force.
\<close>

datatype rl_op = Acquire nat string | Set_Interval nat string nat

fun rl_run :: "rl_op list \<Rightarrow> rate_limiter \<Rightarrow> (string \<times> nat \<times> nat) list" where
  "rl_run [] rl = []"
| "rl_run (Acquire now host # ops) rl =
     (case acquire_wait now host rl of (wait, rl') \<Rightarrow> (host, now + wait, interval_of rl host) # rl_run ops rl')"
| "rl_run (Set_Interval now host i # ops) rl = rl_run ops (set_interval now host i rl)"

lemma acquire_fetch:
  assumes "acquire_wait now host rl = (w, rl')"
  shows "now + w = (case map_of (rl_state rl) host of Some b \<Rightarrow> max (bs_next_ready b) now | None \<Rightarrow> now)"
  using assms by (auto simp: acquire_wait_def Let_def split: option.splits if_splits)

definition host_ready :: "rate_limiter \<Rightarrow> string \<Rightarrow> nat" where
  "host_ready rl host = (case map_of (rl_state rl) host of Some b \<Rightarrow> bs_next_ready b | None \<Rightarrow> 0)"

lemma acquire_ready:
  assumes "acquire_wait now host rl = (w, rl')" "amap_wf (rl_state rl)"
  shows "amap_wf (rl_state rl')" "host_ready rl' host = now + w + interval_of rl host"
    "h \<noteq> host \<Longrightarrow> host_ready rl' h = host_ready rl h" "host_ready rl host \<le> now + w"
  using assms
  by (auto simp: acquire_wait_def host_ready_def interval_of_def Let_def split: option.splits if_splits)

lemma set_interval_ready:
  assumes "amap_wf (rl_state rl)"
  shows "amap_wf (rl_state (set_interval now host i rl))" "host_ready rl h \<le> host_ready (set_interval now host i rl) h"
  using assms by (auto simp: set_interval_def host_ready_def Let_def split: option.splits)

lemma rl_run_after:
  "amap_wf (rl_state rl) \<Longrightarrow> t \<le> host_ready rl host \<Longrightarrow> (host, f, i) \<in> set (rl_run ops rl) \<Longrightarrow> t \<le> f"
proof (induction ops rl rule: rl_run.induct)
  case (2 now h ops rl)
  obtain w rl' where a: "acquire_wait now h rl = (w, rl')" by fastforce
  note r = acquire_ready [OF a 2(2)]
  show ?case
  proof (cases "h = host")
    case True
    then have "t \<le> host_ready rl' host" using r(2,4) 2(3) by simp
    then show ?thesis using 2 a r True by auto
  next
    case False
    then have "t \<le> host_ready rl' host" using r(3) [of host] 2(3) by simp
    then show ?thesis using 2 a r False by auto
  qed
next
  case (3 now h i' ops rl)
  have "t \<le> host_ready (set_interval now h i' rl) host"
    using 3(3) set_interval_ready(2) [OF 3(2), of host now h i'] by (rule order_trans)
  then show ?case
    using 3 set_interval_ready(1) [OF 3(2)] by simp
qed simp

text \<open>
  The limiter spaces the fetches of a host: in any run, from the fetch of a host to every later fetch
  of the same host there is at least the interval that was in force for it at the earlier one; and the
  first fetch of a host that was not set up does not wait.
\<close>

lemma rate_limiter_spacing:
  "sorted_wrt (\<lambda>(h, f, i) (h', f', i'). if h = h' then f + i \<le> f' else True) (rl_run ops (rate_limiter_new d)) \<and>
   fst (acquire_wait now host (rate_limiter_new d)) = 0"
proof -
  have "amap_wf (rl_state rl) \<Longrightarrow> sorted_wrt (\<lambda>(h, f, i) (h', f', i'). if h = h' then f + i \<le> f' else True) (rl_run ops rl)" for rl
  proof (induction ops rl rule: rl_run.induct)
    case (2 now h ops rl)
    obtain w rl' where a: "acquire_wait now h rl = (w, rl')" by fastforce
    note r = acquire_ready [OF a 2(2)]
    have "now + w + interval_of rl h \<le> f" if "(h, f, i) \<in> set (rl_run ops rl')" for f i
      using rl_run_after [OF r(1) _ that] r(2) by simp
    then show ?case using 2 a r by auto
  next
    case (3 now h i ops rl)
    then show ?case using set_interval_ready by simp
  qed simp
  then show ?thesis
    by (simp add: rate_limiter_new_def acquire_wait_def Let_def)
qed

end
