(* ===== verification/Audit_Log.thy ===== *)
theory Audit_Log
  imports Json
begin

text \<open>
  The audit log (\<open>sap-automate-observability/src/audit.rs\<close>): entries, outcomes, the redaction of
  arguments, and \<open>record\<close>. The sink is the list of entries written, oldest first. \<open>to_lowercase\<close> is an
  argument (\<open>lc\<close>).
\<close>

section \<open>Entries\<close>

datatype audit_outcome =
    Outcome_Ok string
  | Outcome_Declined string
  | Outcome_Denied string
  | Outcome_Failed int string

record audit_entry =
  ae_event_id :: string
  ae_at_ms :: nat
  ae_session_id :: "string option"
  ae_tenant :: "string option"
  ae_actor :: "string option"
  ae_tool :: string
  ae_sap_system :: "string option"
  ae_arguments_redacted :: json
  ae_outcome :: audit_outcome
  ae_duration_ms :: nat

section \<open>Redaction\<close>

definition SENSITIVE_SUBSTRINGS :: "string list" where
  "SENSITIVE_SUBSTRINGS =
     [''password'', ''passwd'', ''secret'', ''token'', ''api_key'', ''apikey'', ''_pwd'', ''_pass'', ''credential'']"

definition sensitive :: "(string \<Rightarrow> string) \<Rightarrow> string \<Rightarrow> bool" where
  "sensitive lc k = list_ex (\<lambda>s. contains_sub (lc k) s) SENSITIVE_SUBSTRINGS"

definition stars :: json where "stars = JString ''***''"

text \<open>
  The loop over the object's keys replaces the value at each key, which leaves the keys and their
  order as they are.
\<close>

fun redact :: "(string \<Rightarrow> string) \<Rightarrow> json \<Rightarrow> json" where
  "redact lc (JObject m) = JObject (map (\<lambda>(k, v). (k, if sensitive lc k then stars else redact lc v)) m)"
| "redact lc (JArray a) = JArray (map (redact lc) a)"
| "redact lc other = other"

definition record_entry :: "(string \<Rightarrow> string) \<Rightarrow> audit_entry \<Rightarrow> audit_entry list \<Rightarrow> audit_entry list" where
  "record_entry lc entry sink =
     sink @ [entry\<lparr>ae_arguments_redacted := redact lc (ae_arguments_redacted entry)\<rparr>]"

text \<open>\<open>JsonStderrSink::drain\<close>.\<close>

definition drain :: "audit_entry list \<Rightarrow> audit_entry list \<times> audit_entry list" where
  "drain sink = (sink, [])"

section \<open>Facts\<close>

text \<open>Two values that differ at most in what is stored below sensitive keys.\<close>

fun same_public :: "(string \<Rightarrow> string) \<Rightarrow> json \<Rightarrow> json \<Rightarrow> bool" where
  "same_public lc (JObject m) (JObject m') \<longleftrightarrow>
     list_all2 (\<lambda>(k, v) (k', v'). k = k' \<and> (sensitive lc k \<or> same_public lc v v')) m m'"
| "same_public lc (JArray a) (JArray a') \<longleftrightarrow> list_all2 (same_public lc) a a'"
| "same_public lc v v' \<longleftrightarrow> v = v'"

text \<open>Every value below a sensitive key is the mask, at every level.\<close>

fun masked :: "(string \<Rightarrow> string) \<Rightarrow> json \<Rightarrow> bool" where
  "masked lc (JObject m) \<longleftrightarrow> list_all (\<lambda>(k, v). if sensitive lc k then v = stars else masked lc v) m"
| "masked lc (JArray a) \<longleftrightarrow> list_all (masked lc) a"
| "masked lc other \<longleftrightarrow> True"

lemma masked_redact: "masked lc (redact lc v)"
  by (induction lc v rule: redact.induct) (auto simp: list_all_iff)

lemma masked_fixed: "masked lc v \<Longrightarrow> redact lc v = v"
proof (induction lc v rule: redact.induct)
  case (1 lc m)
  have "map (\<lambda>(k, v). (k, if sensitive lc k then stars else redact lc v)) m = m"
    using 1 by (intro map_idI) (fastforce simp: list_all_iff split: if_splits)
  then show ?case by simp
next
  case (2 lc a)
  then show ?case by (auto simp: list_all_iff intro: map_idI)
qed simp_all

lemma redact_leaf:
  "redact lc v = JNull \<longleftrightarrow> v = JNull" "redact lc v = JBool b \<longleftrightarrow> v = JBool b"
  "redact lc v = JNumber n \<longleftrightarrow> v = JNumber n" "redact lc v = JString s \<longleftrightarrow> v = JString s"
  by (cases v; simp)+

lemma redact_eq_iff: "redact lc v = redact lc w \<longleftrightarrow> same_public lc v w"
proof (induction lc v w rule: same_public.induct)
  case (1 lc m m')
  have "(case x of (k, v) \<Rightarrow> (k, if sensitive lc k then stars else redact lc v)) =
        (case y of (k, v) \<Rightarrow> (k, if sensitive lc k then stars else redact lc v)) \<longleftrightarrow>
        (case x of (k, v) \<Rightarrow> \<lambda>(k', v'). k = k' \<and> (sensitive lc k \<or> same_public lc v v')) y"
    if "x \<in> set m" "y \<in> set m'" for x y
    using 1 that by (cases x; cases y) auto
  then have "map (\<lambda>(k, v). (k, if sensitive lc k then stars else redact lc v)) m =
      map (\<lambda>(k, v). (k, if sensitive lc k then stars else redact lc v)) m' \<longleftrightarrow>
      list_all2 (\<lambda>(k, v) (k', v'). k = k' \<and> (sensitive lc k \<or> same_public lc v v')) m m'"
    by (induction m m' rule: list_induct2') auto
  then show ?case by simp
next
  case (2 lc a a')
  then have "map (redact lc) a = map (redact lc) a' \<longleftrightarrow> list_all2 (same_public lc) a a'"
    by (induction a a' rule: list_induct2') auto
  then show ?case by simp
qed (auto simp: redact_leaf dest: sym simp: eq_commute [of _ "redact _ _"])

text \<open>The keys and the order of an object are kept, so a well-formed value stays well-formed.\<close>

lemma redact_wf: "json_wf v \<Longrightarrow> json_wf (redact lc v)"
proof (induction lc v rule: redact.induct)
  case (1 lc m)
  have "map fst (map (\<lambda>(k, v). (k, if sensitive lc k then stars else redact lc v)) m) = map fst m"
    by (induction m) auto
  then have "amap_wf (map (\<lambda>(k, v). (k, if sensitive lc k then stars else redact lc v)) m)"
    using 1 by (simp only: amap_wf_def json_wf.simps)
  then show ?case
    using 1 by (auto simp: list_all_iff stars_def)
qed (auto simp: list_all_iff)

section \<open>Properties\<close>

text \<open>
  C34. Redaction reveals nothing below a sensitive key and nothing else is lost: two argument values
  have the same redacted form exactly when they agree everywhere except below keys that contain a
  sensitive word; in the redacted form every such key holds the mask; redacting again changes
  nothing; and what is appended to the log is the entry with its arguments redacted.
\<close>

theorem redact_noninterference:
  "(redact lc v = redact lc w \<longleftrightarrow> same_public lc v w) \<and> masked lc (redact lc v) \<and>
   redact lc (redact lc v) = redact lc v \<and>
   ae_arguments_redacted (last (record_entry lc e sink)) = redact lc (ae_arguments_redacted e)"
  using redact_eq_iff masked_redact masked_fixed by (auto simp: record_entry_def)

end
