(* ===== verification/Bapiret2.thy ===== *)
theory Bapiret2
  imports Json
begin

text \<open>
  \<open>crates/sap-automate-rfc/src/bapiret2.rs\<close>: the severities of a BAPI return row, the search for
  rows in a JSON result (to depth 8), and the conversion of each row. A Rust \<open>char\<close> is the string of
  its UTF-8 bytes.
\<close>

datatype bapi_ret2_severity = Success | Error | Warning | Info | Abort | Unknown string

definition from_char :: "string \<Rightarrow> bapi_ret2_severity" where
  "from_char c =
     (let u = ascii_uppercase c in
      if u = ''S'' then Success
      else if u = ''E'' then Error
      else if u = ''W'' then Warning
      else if u = ''I'' then Info
      else if u = ''A'' then Abort
      else Unknown u)"

fun severity_is_failure :: "bapi_ret2_severity \<Rightarrow> bool" where
  "severity_is_failure Error = True"
| "severity_is_failure Abort = True"
| "severity_is_failure (Unknown _) = True"
| "severity_is_failure _ = False"

record bapi_ret2_message =
  severity :: bapi_ret2_severity
  message_class :: string
  message_number :: string
  msg_text :: string
  parameter :: "string option"
  row :: "int option"
  field :: "string option"
  system :: "string option"

definition is_failure :: "bapi_ret2_message \<Rightarrow> bool" where
  "is_failure m = severity_is_failure (severity m)"

text \<open>An object with a type and a message is a return row.\<close>

definition is_row :: "jmap \<Rightarrow> bool" where
  "is_row m \<longleftrightarrow> (has_key ''TYPE'' m \<or> has_key ''type'' m) \<and> (has_key ''MESSAGE'' m \<or> has_key ''message'' m)"

function walk :: "nat \<Rightarrow> json \<Rightarrow> json list" where
  "walk depth v =
     (if 8 < depth then []
      else (case v of
              JObject m \<Rightarrow>
                if is_row m then [v]
                else concat (map (\<lambda>(k, x). walk (depth + 1) x) m)
            | JArray xs \<Rightarrow> concat (map (walk (depth + 1)) xs)
            | _ \<Rightarrow> []))"
  by pat_completeness auto
termination
  by (relation "measure (\<lambda>(depth, v). 9 - depth)") auto

declare walk.simps [simp del]

definition collect_candidates :: "json \<Rightarrow> json list" where
  "collect_candidates v = walk 0 v"

fun first_str :: "jmap \<Rightarrow> string list \<Rightarrow> string option" where
  "first_str m [] = None"
| "first_str m (k # ks) =
     (case map_of m k of
        Some (JString s) \<Rightarrow> Some s
      | Some (JNumber n) \<Rightarrow> Some (number_to_string n)
      | _ \<Rightarrow> first_str m ks)"

definition str_or_default :: "string option \<Rightarrow> string" where
  "str_or_default x = (case x of Some s \<Rightarrow> s | None \<Rightarrow> [])"

definition row_severity :: "jmap \<Rightarrow> bapi_ret2_severity" where
  "row_severity m =
     (case first_char (str_or_default (first_str m [''TYPE'', ''type''])) of
        Some c \<Rightarrow> from_char c
      | None \<Rightarrow> Unknown '' '')"

definition parse_one :: "json \<Rightarrow> bapi_ret2_message option" where
  "parse_one v =
     (case as_object v of
        None \<Rightarrow> None
      | Some m \<Rightarrow> Some
          \<lparr> severity = row_severity m,
            message_class = str_or_default (first_str m [''ID'', ''id'']),
            message_number = str_or_default (first_str m [''NUMBER'', ''number'']),
            msg_text = str_or_default (first_str m [''MESSAGE'', ''message'']),
            parameter = first_str m [''PARAMETER'', ''parameter''],
            row = Option.bind (first_str m [''ROW'', ''row'']) parse_i32,
            field = first_str m [''FIELD'', ''field''],
            system = first_str m [''SYSTEM'', ''system''] \<rparr>)"

definition parse_bapiret2 :: "json \<Rightarrow> bapi_ret2_message list" where
  "parse_bapiret2 v = List.map_filter parse_one (collect_candidates v)"

section \<open>Facts\<close>

lemma walk_rows: "v' \<in> set (walk d v) \<Longrightarrow> \<exists>m. v' = JObject m \<and> is_row m"
proof (induction d v rule: walk.induct)
  case (1 d v)
  then show ?case
    by (subst (asm) (3) walk.simps) (auto split: if_splits json.splits)
qed

text \<open>Every candidate becomes a message: no row is dropped on the way.\<close>

lemma parse_bapiret2_map:
  "parse_bapiret2 v = map (\<lambda>c. the (parse_one c)) (collect_candidates v)"
proof -
  have "\<forall>c \<in> set cs. \<exists>m. c = JObject m \<Longrightarrow>
      List.map_filter parse_one cs = map (\<lambda>c. the (parse_one c)) cs" for cs
    by (induction cs) (auto simp: map_filter_simps parse_one_def)
  then show ?thesis
    using walk_rows unfolding parse_bapiret2_def collect_candidates_def by fastforce
qed

lemma parse_bapiret2_empty_iff: "parse_bapiret2 v = [] \<longleftrightarrow> collect_candidates v = []"
  by (simp add: parse_bapiret2_map)

text \<open>The severity classes that do not count as failures.\<close>

lemma from_char_ok:
  "\<not> severity_is_failure (from_char c) \<longleftrightarrow> ascii_uppercase c \<in> {''S'', ''W'', ''I''}"
  by (auto simp: from_char_def Let_def)

lemma walk_array_of_rows:
  assumes "\<forall>r \<in> set rs. is_row r" "d < 8"
  shows "walk d (JArray (map JObject rs)) = map JObject rs"
proof -
  have "walk (d + 1) (JObject r) = [JObject r]" if "r \<in> set rs" for r
    using that assms by (simp add: walk.simps [of "Suc d"])
  then have "concat (map (walk (d + 1)) (map JObject rs)) = map JObject rs"
    by (induction rs) auto
  with assms(2) show ?thesis by (simp add: walk.simps [of d])
qed

text \<open>
  \<open>wrap k v\<close>: the value below \<open>k\<close> levels of single-entry objects that are not rows themselves.
\<close>

fun wrap :: "string list \<Rightarrow> json \<Rightarrow> json" where
  "wrap [] v = v"
| "wrap (k # ks) v = JObject [(k, wrap ks v)]"

lemma walk_wrap: "d + length ks \<le> 8 \<Longrightarrow> walk d (wrap ks v) = walk (d + length ks) v"
proof (induction ks arbitrary: d)
  case (Cons k ks)
  have "\<not> is_row [(k, wrap ks v)]" by (auto simp: is_row_def has_key_def split: if_splits)
  with Cons show ?case by (simp add: walk.simps [of d])
qed simp

text \<open>The message of one row, and the type text the row carries.\<close>

definition row_message :: "jmap \<Rightarrow> bapi_ret2_message" where
  "row_message m = the (parse_one (JObject m))"

definition row_type :: "jmap \<Rightarrow> string" where
  "row_type m = str_or_default (first_str m [''TYPE'', ''type''])"

lemma row_severity_ok:
  "\<not> severity_is_failure (row_severity m) \<longleftrightarrow>
     (\<exists>c. first_char (row_type m) = Some c \<and> ascii_uppercase c \<in> {''S'', ''W'', ''I''})"
  by (auto simp: row_severity_def row_type_def from_char_ok split: option.splits)

section \<open>Properties\<close>

text \<open>
  A table of return rows is parsed completely and in order, wherever the result wraps it: below
  up to seven levels of enclosing objects, with any names, each row gives exactly one message.
\<close>

lemma parse_bapiret2_finds_all_rows:
  assumes "\<forall>r \<in> set rs. is_row r" "length ks < 8"
  shows "parse_bapiret2 (wrap ks (JArray (map JObject rs))) = map row_message rs"
  using assms walk_array_of_rows [of rs "length ks"]
  by (simp add: parse_bapiret2_map collect_candidates_def walk_wrap row_message_def)

text \<open>
  C11. Classification is fail-closed: a parsed result contains a failure if and only if one of the
  rows found has a type whose first character is not \<open>S\<close>, \<open>W\<close> or \<open>I\<close> in either case; a row with an
  empty, missing or unknown type counts as a failure.
\<close>

theorem bapiret2_fail_closed:
  "list_ex is_failure (parse_bapiret2 v) \<longleftrightarrow>
     (\<exists>m. JObject m \<in> set (collect_candidates v) \<and>
        (\<forall>c. first_char (row_type m) = Some c \<longrightarrow> ascii_uppercase c \<notin> {''S'', ''W'', ''I''}))"
proof -
  have "\<exists>m. c = JObject m" if "c \<in> set (collect_candidates v)" for c
    using walk_rows [of c 0 v] that by (auto simp: collect_candidates_def)
  moreover have "is_failure (the (parse_one (JObject m))) \<longleftrightarrow>
      (\<forall>c. first_char (row_type m) = Some c \<longrightarrow> ascii_uppercase c \<notin> {''S'', ''W'', ''I''})" for m
    using row_severity_ok [of m] by (auto simp: is_failure_def parse_one_def)
  ultimately show ?thesis
    unfolding parse_bapiret2_map list_ex_iff set_map bex_simps by (metis (no_types, lifting))
qed

theorem bapiret2_fail_closed_witness:
  "list_ex is_failure (parse_bapiret2 (JObject [(''MESSAGE'', JString ''m''), (''TYPE'', JString ''Z'')]))"
proof -
  have "JObject [(''MESSAGE'', JString ''m''), (''TYPE'', JString ''Z'')]
      \<in> set (collect_candidates (JObject [(''MESSAGE'', JString ''m''), (''TYPE'', JString ''Z'')]))"
    by (simp add: collect_candidates_def walk.simps is_row_def has_key_def)
  moreover have "first_char (row_type [(''MESSAGE'', JString ''m''), (''TYPE'', JString ''Z'')]) = Some ''Z''"
    by code_simp
  moreover have "ascii_uppercase ''Z'' \<notin> {''S'', ''W'', ''I''}" by code_simp
  ultimately show ?thesis
    using bapiret2_fail_closed by (metis option.inject)
qed

end
