(* ===== verification/Rfc_Error.thy ===== *)
theory Rfc_Error
  imports Prelude
begin

text \<open>
  The RFC error taxonomy of \<open>crates/sap-automate-rfc/src/error.rs\<close>: the numeric codes, the error
  values and their display text, and the classification that decides whether a failure is retried.
\<close>

datatype rfc_error_code =
    Code_Timeout
  | Code_DestinationDown
  | Code_PoolExhausted
  | Code_CircuitOpen
  | Code_UpstreamRateLimit
  | Code_AuthFailed
  | Code_NotFound
  | Code_TableBufferOverflow
  | Code_InvalidParameter
  | Code_PermissionDenied
  | Code_SchemaViolation
  | Code_Internal
  | Code_PartialBulk
  | Code_StaleMetadata

fun as_i32 :: "rfc_error_code \<Rightarrow> int" where
  "as_i32 Code_Timeout = -32110"
| "as_i32 Code_DestinationDown = -32120"
| "as_i32 Code_PoolExhausted = -32130"
| "as_i32 Code_CircuitOpen = -32140"
| "as_i32 Code_UpstreamRateLimit = -32150"
| "as_i32 Code_AuthFailed = -32210"
| "as_i32 Code_NotFound = -32220"
| "as_i32 Code_TableBufferOverflow = -32230"
| "as_i32 Code_InvalidParameter = -32240"
| "as_i32 Code_PermissionDenied = -32250"
| "as_i32 Code_SchemaViolation = -32260"
| "as_i32 Code_Internal = -32299"
| "as_i32 Code_PartialBulk = -32310"
| "as_i32 Code_StaleMetadata = -32320"

definition code_is_transient :: "rfc_error_code \<Rightarrow> bool" where
  "code_is_transient c \<longleftrightarrow> -32199 \<le> as_i32 c \<and> as_i32 c \<le> -32100"

datatype rfc_error =
    Timeout nat
  | DestinationDown string string
  | PoolExhausted nat
  | CircuitOpen nat
  | AuthFailed string
  | NotFound string
  | TableBufferOverflow string nat
  | InvalidParameter string string
  | PermissionDenied string
  | SchemaViolation string
  | PartialBulk string
  | Internal string

type_synonym 'a rfc_result = "(rfc_error, 'a) result"

text \<open>The \<open>Display\<close> text of each variant (the \<open>#[error(...)]\<close> attributes).\<close>

fun rfc_error_display :: "rfc_error \<Rightarrow> string" where
  "rfc_error_display (Timeout ms) = ''RFC timeout after '' @ show_nat ms @ '' ms''"
| "rfc_error_display (DestinationDown d r) =
     ''SAP destination '' @ sq d @ '' unreachable: '' @ r"
| "rfc_error_display (PoolExhausted cap) =
     ''connection pool exhausted (cap='' @ show_nat cap @ '')''"
| "rfc_error_display (CircuitOpen ms) =
     ''circuit open until ~'' @ show_nat ms @ '' ms from now''"
| "rfc_error_display (AuthFailed m) = ''authentication failed: '' @ m"
| "rfc_error_display (NotFound m) = ''not found: '' @ m"
| "rfc_error_display (TableBufferOverflow t n) =
     ''table buffer overflow for '' @ sq t @ '' (max_rows='' @ show_nat n @ '')''"
| "rfc_error_display (InvalidParameter n r) =
     ''invalid parameter '' @ sq n @ '': '' @ r"
| "rfc_error_display (PermissionDenied m) = ''permission denied: '' @ m"
| "rfc_error_display (SchemaViolation m) = ''schema violation: '' @ m"
| "rfc_error_display (PartialBulk m) = ''partial result: '' @ m"
| "rfc_error_display (Internal m) = ''internal: '' @ m"

fun error_code :: "rfc_error \<Rightarrow> rfc_error_code" where
  "error_code (Timeout _) = Code_Timeout"
| "error_code (DestinationDown _ _) = Code_DestinationDown"
| "error_code (PoolExhausted _) = Code_PoolExhausted"
| "error_code (CircuitOpen _) = Code_CircuitOpen"
| "error_code (AuthFailed _) = Code_AuthFailed"
| "error_code (NotFound _) = Code_NotFound"
| "error_code (TableBufferOverflow _ _) = Code_TableBufferOverflow"
| "error_code (InvalidParameter _ _) = Code_InvalidParameter"
| "error_code (PermissionDenied _) = Code_PermissionDenied"
| "error_code (SchemaViolation _) = Code_SchemaViolation"
| "error_code (PartialBulk _) = Code_PartialBulk"
| "error_code (Internal _) = Code_Internal"

definition is_transient :: "rfc_error \<Rightarrow> bool" where
  "is_transient e \<longleftrightarrow> code_is_transient (error_code e)"

section \<open>Facts\<close>

lemma code_is_transient_iff:
  "code_is_transient c \<longleftrightarrow>
     c \<in> {Code_Timeout, Code_DestinationDown, Code_PoolExhausted, Code_CircuitOpen,
          Code_UpstreamRateLimit}"
  by (cases c) (simp_all add: code_is_transient_def)

lemma is_transient_simps [simp]:
  "is_transient (Timeout n)" "is_transient (DestinationDown d r)"
  "is_transient (PoolExhausted n)" "is_transient (CircuitOpen n)"
  "\<not> is_transient (AuthFailed m)" "\<not> is_transient (NotFound m)"
  "\<not> is_transient (TableBufferOverflow t n)" "\<not> is_transient (InvalidParameter q r)"
  "\<not> is_transient (PermissionDenied m)" "\<not> is_transient (SchemaViolation m)"
  "\<not> is_transient (PartialBulk m)" "\<not> is_transient (Internal m)"
  by (simp_all add: is_transient_def code_is_transient_def)

lemma as_i32_inj: "as_i32 c = as_i32 d \<Longrightarrow> c = d"
  by (cases c; cases d) simp_all

end
