(* ===== verification/Retry.thy ===== *)
theory Retry
  imports Rfc_Error
begin

text \<open>
  \<open>crates/sap-automate-rfc/src/retry.rs\<close> and \<open>pool.rs\<close>: exponential backoff on transient errors,
  the circuit breaker, and the concurrency limiter.

  Durations are nanoseconds; an \<open>Instant\<close> is a nanosecond reading of the monotonic clock and is an
  explicit argument. The retried closure is a state-passing function. The multiplication of the
  delay by the \<open>f32\<close> multiplier, truncated to \<open>u64\<close> milliseconds, is the parameter \<open>scale\<close>.
\<close>

section \<open>Retry with backoff\<close>

record backoff_policy =
  max_attempts :: nat
  initial :: nat
  scale :: "nat \<Rightarrow> nat"
  max_delay :: nat

type_synonym ('s, 'a) action = "'s \<Rightarrow> 'a rfc_result \<times> 's"

text \<open>
  The loop returns the result, the state after the last call, and the delays slept, oldest first.
  \<open>attempt\<close> is the number of calls made before this iteration.
\<close>

function retry_loop ::
  "backoff_policy \<Rightarrow> ('s, 'a) action \<Rightarrow> nat \<Rightarrow> nat \<Rightarrow> 's \<Rightarrow> 'a rfc_result \<times> 's \<times> nat list" where
  "retry_loop p f attempt delay s =
     (case f s of (r, s') \<Rightarrow>
        (case r of
           Inr v \<Rightarrow> (Inr v, s', [])
         | Inl e \<Rightarrow>
             if \<not> is_transient e then (Inl e, s', [])
             else if max_attempts p \<le> attempt + 1 then (Inl e, s', [])
             else
               (let next_delay = min (scale p (delay div 1000000) * 1000000) (max_delay p)
                in case retry_loop p f (attempt + 1) next_delay s' of
                     (r', s'', ds) \<Rightarrow> (r', s'', delay # ds))))"
  by pat_completeness auto
termination
  by (relation "measure (\<lambda>(p, f, attempt, delay, s). max_attempts p - attempt)") auto

declare retry_loop.simps [simp del]

definition retry_with_backoff ::
  "backoff_policy \<Rightarrow> ('s, 'a) action \<Rightarrow> 's \<Rightarrow> 'a rfc_result \<times> 's \<times> nat list" where
  "retry_with_backoff p f s = retry_loop p f 0 (initial p) s"

text \<open>The state before the \<open>n\<close>-th call and the result of the \<open>n\<close>-th call, counting from 0.\<close>

primrec state_at :: "('s, 'a) action \<Rightarrow> nat \<Rightarrow> 's \<Rightarrow> 's" where
  "state_at f 0 s = s"
| "state_at f (Suc n) s = state_at f n (snd (f s))"

definition result_at :: "('s, 'a) action \<Rightarrow> nat \<Rightarrow> 's \<Rightarrow> 'a rfc_result" where
  "result_at f n s = fst (f (state_at f n s))"

definition transient_failure :: "'a rfc_result \<Rightarrow> bool" where
  "transient_failure r \<longleftrightarrow> (\<exists>e. r = Inl e \<and> is_transient e)"

lemma result_at_0 [simp]: "result_at f 0 s = fst (f s)"
  by (simp add: result_at_def)

lemma result_at_Suc [simp]: "result_at f (Suc n) s = result_at f n (snd (f s))"
  by (simp add: result_at_def)

lemma state_at_Suc_0: "state_at f (Suc 0) s = snd (f s)"
  by simp

text \<open>
  \<open>retry_spec p f a s out n\<close>: the loop entered with \<open>a\<close> calls behind it makes \<open>n + 1\<close> further calls,
  the first \<open>n\<close> of which failed transiently, and returns what the last of them returned; it stops
  there because that call did not fail transiently or because the attempts are used up.
\<close>

definition retry_spec ::
  "backoff_policy \<Rightarrow> ('s, 'a) action \<Rightarrow> nat \<Rightarrow> 's \<Rightarrow> 'a rfc_result \<times> 's \<times> nat list \<Rightarrow> nat \<Rightarrow> bool" where
  "retry_spec p f a s out n \<longleftrightarrow>
     (\<forall>i < n. transient_failure (result_at f i s)) \<and>
     fst out = result_at f n s \<and>
     fst (snd out) = state_at f (Suc n) s \<and>
     length (snd (snd out)) = n \<and>
     n + 1 \<le> max 1 (max_attempts p - a) \<and>
     (transient_failure (result_at f n s) \<longrightarrow> n + 1 = max 1 (max_attempts p - a))"

lemma retry_loop_spec: "\<exists>n. retry_spec p f a s (retry_loop p f a d s) n"
proof (induction p f a d s rule: retry_loop.induct)
  case (1 p f a d s)
  obtain r s' where fs: "f s = (r, s')" by (cases "f s")
  show ?case
  proof (cases "transient_failure r \<and> a + 1 < max_attempts p")
    case False
    have "retry_loop p f a d s = (r, s', [])"
      using False by (auto simp: retry_loop.simps [of p f a d s] fs transient_failure_def split: sum.splits)
    moreover have "transient_failure r \<longrightarrow> max_attempts p - a \<le> 1" using False by auto
    ultimately have "retry_spec p f a s (retry_loop p f a d s) 0"
      by (auto simp: retry_spec_def fs)
    then show ?thesis ..
  next
    case True
    then obtain e where e: "r = Inl e" "is_transient e" and lt: "a + 1 < max_attempts p"
      by (auto simp: transient_failure_def)
    let ?d = "min (scale p (d div 1000000) * 1000000) (max_delay p)"
    obtain r' s'' ds where rec: "retry_loop p f (a + 1) ?d s' = (r', s'', ds)"
      by (cases "retry_loop p f (a + 1) ?d s'")
    from "1.IH" [OF fs [symmetric] e(1) _ _ refl] e lt obtain n
      where n: "retry_spec p f (a + 1) s' (r', s'', ds) n"
      using rec by auto
    have out: "retry_loop p f a d s = (r', s'', d # ds)"
      using e lt rec by (simp add: retry_loop.simps [of p f a d s] fs Let_def)
    have "\<forall>i < Suc n. transient_failure (result_at f i s)"
    proof (intro allI impI)
      fix i assume "i < Suc n"
      with n True show "transient_failure (result_at f i s)"
        by (cases i) (auto simp: retry_spec_def fs)
    qed
    with n out lt have "retry_spec p f a s (retry_loop p f a d s) (Suc n)"
      by (auto simp: retry_spec_def fs)
    then show ?thesis ..
  qed
qed

lemma retry_loop_delays:
  "d \<le> B \<Longrightarrow> max_delay p \<le> B \<Longrightarrow> \<forall>x \<in> set (snd (snd (retry_loop p f a d s))). x \<le> B"
proof (induction p f a d s rule: retry_loop.induct)
  case (1 p f a d s)
  obtain r s' where fs: "f s = (r, s')" by (cases "f s")
  show ?case
  proof (cases "transient_failure r \<and> a + 1 < max_attempts p")
    case False
    then show ?thesis
      by (auto simp: retry_loop.simps [of p f a d s] fs transient_failure_def split: sum.splits)
  next
    case True
    then obtain e where e: "r = Inl e" "is_transient e" and lt: "\<not> max_attempts p \<le> a + 1"
      by (auto simp: transient_failure_def)
    let ?d = "min (scale p (d div 1000000) * 1000000) (max_delay p)"
    have "\<forall>x \<in> set (snd (snd (retry_loop p f (a + 1) ?d s'))). x \<le> B"
      using "1.IH" [OF fs [symmetric] e(1) _ lt refl] e "1.prems" by (simp add: min.coboundedI2)
    with "1.prems" show ?thesis
      using e lt by (auto simp: retry_loop.simps [of p f a d s] fs Let_def split: prod.splits)
  qed
qed

section \<open>Circuit breaker\<close>

datatype circuit_state = Closed | Open | HalfOpen

record circuit_inner =
  circ_state :: circuit_state
  failures :: nat
  opened_at :: "nat option"

record circuit_breaker =
  failure_threshold :: nat
  open_duration :: nat
  cb_inner :: circuit_inner

definition cb_new :: "nat \<Rightarrow> nat \<Rightarrow> circuit_breaker" where
  "cb_new threshold dur =
     \<lparr> failure_threshold = threshold, open_duration = dur,
       cb_inner = \<lparr> circ_state = Closed, failures = 0, opened_at = None \<rparr> \<rparr>"

text \<open>\<open>tick\<close>, at clock reading \<open>now\<close>: the breaker after the call and the snapshot it returns.\<close>

definition cb_tick :: "nat \<Rightarrow> circuit_breaker \<Rightarrow> circuit_breaker \<times> circuit_inner" where
  "cb_tick now cb =
     (let g = cb_inner cb;
          g' = (if circ_state g = Open then
                  (case opened_at g of
                     Some opened \<Rightarrow> if open_duration cb \<le> now - opened then g\<lparr>circ_state := HalfOpen\<rparr> else g
                   | None \<Rightarrow> g)
                else g)
      in (cb\<lparr>cb_inner := g'\<rparr>, g'))"

definition cb_state :: "nat \<Rightarrow> circuit_breaker \<Rightarrow> circuit_breaker \<times> circuit_state" where
  "cb_state now cb = (case cb_tick now cb of (cb', snapshot) \<Rightarrow> (cb', circ_state snapshot))"

text \<open>
  \<open>call\<close> takes the lock twice: \<open>cb_enter\<close> is the part before the wrapped future runs (\<open>Some e\<close> if the
  call is refused with \<open>e\<close>), \<open>cb_exit\<close> the update after it returned. Other calls may run between
  the two. A refusal reads the clock a second time, at \<open>now'\<close>, for the time that remains. \<open>failures\<close> is a \<open>u32\<close>.
\<close>

definition cb_enter :: "nat \<Rightarrow> nat \<Rightarrow> circuit_breaker \<Rightarrow> circuit_breaker \<times> rfc_error option" where
  "cb_enter now now' cb =
     (case cb_tick now cb of (cb', snapshot) \<Rightarrow>
        if circ_state snapshot = Open then
          (let remaining = (case opened_at snapshot of
                              Some t \<Rightarrow> open_duration cb - (now' - t)
                            | None \<Rightarrow> open_duration cb)
           in (cb', Some (CircuitOpen (remaining div 1000000))))
        else (cb', None))"

definition cb_exit :: "nat \<Rightarrow> 'a rfc_result \<Rightarrow> circuit_breaker \<Rightarrow> circuit_breaker" where
  "cb_exit now r cb =
     (let g = cb_inner cb in
      case r of
        Inr _ \<Rightarrow> cb\<lparr>cb_inner := g\<lparr>failures := 0, circ_state := Closed, opened_at := None\<rparr>\<rparr>
      | Inl e \<Rightarrow>
          if is_transient e then
            (let n = (failures g + 1) mod 2 ^ 32 in
             if failure_threshold cb \<le> n
             then cb\<lparr>cb_inner := g\<lparr>failures := n, circ_state := Open, opened_at := Some now\<rparr>\<rparr>
             else cb\<lparr>cb_inner := g\<lparr>failures := n\<rparr>\<rparr>)
          else cb)"

text \<open>
  A whole call with nothing in between: entered at \<open>t0\<close>, and at \<open>t1\<close> the refusal is worded or the future has returned.
\<close>

definition cb_call ::
  "nat \<Rightarrow> nat \<Rightarrow> ('s, 'a) action \<Rightarrow> circuit_breaker \<times> 's \<Rightarrow> 'a rfc_result \<times> circuit_breaker \<times> 's" where
  "cb_call t0 t1 f st =
     (case st of (cb, s) \<Rightarrow>
        (case cb_enter t0 t1 cb of
           (cb', Some e) \<Rightarrow> (Inl e, cb', s)
         | (cb', None) \<Rightarrow> (case f s of (r, s') \<Rightarrow> (r, cb_exit t1 r cb', s'))))"

subsection \<open>Interleaved callers\<close>

text \<open>
  Any number of callers share the breaker. A system state is the breaker and the number of calls
  that have entered and not yet returned; steps are in clock order.
\<close>

inductive cb_step :: "circuit_breaker \<times> nat \<times> nat \<Rightarrow> circuit_breaker \<times> nat \<times> nat \<Rightarrow> bool" where
  cb_step_enter: "t \<le> t' \<Longrightarrow> cb_enter t' t'' cb = (cb', None) \<Longrightarrow> cb_step (cb, k, t) (cb', Suc k, t')"
| cb_step_refuse: "t \<le> t' \<Longrightarrow> t' \<le> t'' \<Longrightarrow> cb_enter t' t'' cb = (cb', Some e) \<Longrightarrow> cb_step (cb, k, t) (cb', k, t')"
| cb_step_exit: "t \<le> t' \<Longrightarrow> cb_step (cb, Suc k, t) (cb_exit t' (r :: unit rfc_result) cb, k, t')"

inductive_cases cb_stepE: "cb_step (cb, k, t) (cb', k', t')"

text \<open>
  The breaker's invariant: an open or half-open breaker knows when it was opened, and a closed one
  has fewer failures on record than the threshold.
\<close>

definition cb_inv :: "circuit_breaker \<Rightarrow> bool" where
  "cb_inv cb \<longleftrightarrow>
     (circ_state (cb_inner cb) = Closed \<longrightarrow> failures (cb_inner cb) < failure_threshold cb) \<and>
     (circ_state (cb_inner cb) \<noteq> Closed \<longrightarrow> opened_at (cb_inner cb) \<noteq> None)"

lemma cb_inv_new: "0 < n \<Longrightarrow> cb_inv (cb_new n d)"
  by (simp add: cb_inv_def cb_new_def)

lemma cb_inv_tick: "cb_inv cb \<Longrightarrow> cb_inv (fst (cb_tick now cb))"
  by (auto simp: cb_inv_def cb_tick_def Let_def split: option.splits)

lemma cb_inv_enter: "cb_inv cb \<Longrightarrow> cb_inv (fst (cb_enter now now' cb))"
  using cb_inv_tick [of cb now]
  by (auto simp: cb_enter_def Let_def split: prod.splits)

lemma cb_inv_exit: "0 < failure_threshold cb \<Longrightarrow> cb_inv cb \<Longrightarrow> cb_inv (cb_exit now r cb)"
  by (auto simp: cb_inv_def cb_exit_def Let_def split: sum.splits)

lemma cb_threshold_const [state_simps]:
  "failure_threshold (fst (cb_tick now cb)) = failure_threshold cb"
  "failure_threshold (fst (cb_enter now now' cb)) = failure_threshold cb"
  "failure_threshold (cb_exit now r cb) = failure_threshold cb"
  "open_duration (fst (cb_tick now cb)) = open_duration cb"
  "open_duration (fst (cb_enter now now' cb)) = open_duration cb"
  "open_duration (cb_exit now r cb) = open_duration cb"
  by (auto simp: cb_tick_def cb_enter_def cb_exit_def Let_def split: prod.splits sum.splits option.splits)

lemma cb_step_inv:
  assumes "cb_step x y" "cb_inv (fst x)" "0 < failure_threshold (fst x)"
  shows "cb_inv (fst y) \<and> failure_threshold (fst y) = failure_threshold (fst x)
    \<and> open_duration (fst y) = open_duration (fst x)"
  using assms
proof (induction rule: cb_step.induct)
  case (cb_step_enter t t' t'' cb cb' k)
  then show ?case
    using cb_inv_enter [of cb t' t''] by (metis cb_threshold_const(2,5) fst_conv)
next
  case (cb_step_refuse t t' t'' cb cb' e k)
  then show ?case
    using cb_inv_enter [of cb t' t''] by (metis cb_threshold_const(2,5) fst_conv)
next
  case (cb_step_exit t t' cb k r)
  then show ?case by (simp add: cb_inv_exit state_simps)
qed

lemma cb_reachable_inv:
  assumes "cb_step\<^sup>*\<^sup>* (cb_new n d, 0, t0) y" "0 < n"
  shows "cb_inv (fst y) \<and> failure_threshold (fst y) = n \<and> open_duration (fst y) = d"
  using assms
proof (induction rule: rtranclp_induct)
  case base
  then show ?case by (simp add: cb_inv_new) (simp add: cb_new_def)
next
  case (step y z)
  then show ?case using cb_step_inv [of y z] by simp
qed

text \<open>When a breaker refuses a call, exactly.\<close>

lemma cb_enter_refuses_iff:
  "snd (cb_enter now now' cb) \<noteq> None \<longleftrightarrow>
     circ_state (cb_inner cb) = Open \<and>
     (\<forall>t. opened_at (cb_inner cb) = Some t \<longrightarrow> now - t < open_duration cb)"
  by (auto simp: cb_enter_def cb_tick_def Let_def not_le split: option.splits)

subsection \<open>Consecutive failures\<close>

text \<open>The breaker after a sequence of calls that were let through, each with its return time.\<close>

definition cb_run :: "(nat \<times> 'a rfc_result) list \<Rightarrow> circuit_breaker \<Rightarrow> circuit_breaker" where
  "cb_run rs cb = fold (\<lambda>(t, r) cb. cb_exit t r cb) rs cb"

lemma cb_run_snoc: "cb_run (rs @ [(t, r)]) cb = cb_exit t r (cb_run rs cb)"
  by (simp add: cb_run_def)

definition cb_closed :: "nat \<Rightarrow> nat \<Rightarrow> nat \<Rightarrow> circuit_breaker" where
  "cb_closed n d k =
     \<lparr> failure_threshold = n, open_duration = d, cb_inner = \<lparr> circ_state = Closed, failures = k, opened_at = None \<rparr> \<rparr>"

lemma cb_exit_closed:
  assumes "transient_failure r" "Suc k < 2 ^ 32"
  shows "cb_exit t r (cb_closed n d k) =
    (if n \<le> Suc k
     then (cb_closed n d k)\<lparr>cb_inner := \<lparr>circ_state = Open, failures = Suc k, opened_at = Some t\<rparr>\<rparr>
     else cb_closed n d (Suc k))"
  using assms by (auto simp: transient_failure_def cb_exit_def cb_closed_def Let_def)

lemma cb_run_failures:
  assumes "\<forall>x \<in> set rs. transient_failure (snd x)" "length rs < 2 ^ 32" "length rs < n"
  shows "cb_run rs (cb_new n d) = cb_closed n d (length rs)"
  using assms
proof (induction rs rule: rev_induct)
  case Nil
  then show ?case by (simp add: cb_run_def cb_new_def cb_closed_def)
next
  case (snoc x rs)
  obtain t r where x: "x = (t, r)" by (cases x)
  from snoc have "cb_run rs (cb_new n d) = cb_closed n d (length rs)" by simp
  with snoc.prems show ?case
    by (simp add: x cb_run_snoc cb_exit_closed)
qed

section \<open>Connection pool\<close>

text \<open>
  \<open>pool.rs\<close> wraps a tokio semaphore, which is not part of the repository: its operations are
  arguments (\<open>sem_new\<close>, \<open>sem_permits\<close>, \<open>sem_try\<close>, where \<open>sem_try\<close> returns the semaphore with one
  permit taken, or \<open>None\<close>). Dropping an \<open>OwnedSemaphorePermit\<close> is the semaphore's own release.
\<close>

record 'sem connection_pool =
  pool_cap :: nat
  pool_sem :: 'sem

definition pool_new :: "(nat \<Rightarrow> 'sem) \<Rightarrow> nat \<Rightarrow> 'sem connection_pool" where
  "pool_new sem_new n = (let c = max n 1 in \<lparr> pool_cap = c, pool_sem = sem_new c \<rparr>)"

definition pool_available :: "('sem \<Rightarrow> nat) \<Rightarrow> 'sem connection_pool \<Rightarrow> nat" where
  "pool_available sem_permits p = sem_permits (pool_sem p)"

definition try_acquire ::
  "('sem \<Rightarrow> 'sem option) \<Rightarrow> 'sem connection_pool \<Rightarrow> 'sem connection_pool rfc_result" where
  "try_acquire sem_try p =
     (case sem_try (pool_sem p) of
        Some q \<Rightarrow> Inr (p\<lparr>pool_sem := q\<rparr>)
      | None \<Rightarrow> Inl (PoolExhausted (pool_cap p)))"

text \<open>A permit is taken \<open>k\<close> times in a row.\<close>

fun acquire_n ::
  "('sem \<Rightarrow> 'sem option) \<Rightarrow> nat \<Rightarrow> 'sem connection_pool \<Rightarrow> 'sem connection_pool rfc_result" where
  "acquire_n sem_try 0 p = Inr p"
| "acquire_n sem_try (Suc k) p = bind_result (try_acquire sem_try p) (acquire_n sem_try k)"

text \<open>What tokio documents of a semaphore that is never closed.\<close>

definition semaphore_laws ::
  "(nat \<Rightarrow> 'sem) \<Rightarrow> ('sem \<Rightarrow> nat) \<Rightarrow> ('sem \<Rightarrow> 'sem option) \<Rightarrow> bool" where
  "semaphore_laws sem_new sem_permits sem_try \<longleftrightarrow>
     (\<forall>n. sem_permits (sem_new n) = n) \<and>
     (\<forall>q. sem_try q = None \<longleftrightarrow> sem_permits q = 0) \<and>
     (\<forall>q q'. sem_try q = Some q' \<longrightarrow> sem_permits q = Suc (sem_permits q'))"

definition pool_run :: "'sem connection_pool rfc_result \<Rightarrow> ('sem \<Rightarrow> nat) \<Rightarrow> nat \<Rightarrow> nat \<Rightarrow> nat \<Rightarrow> bool" where
  "pool_run r sem_permits free k c \<longleftrightarrow>
     (case r of Inl e \<Rightarrow> free < k \<and> e = PoolExhausted c | Inr p \<Rightarrow> free = sem_permits (pool_sem p) + k)"

lemma acquire_n_spec:
  assumes laws: "semaphore_laws sem_new sem_permits sem_try"
  shows "pool_run (acquire_n sem_try k p) sem_permits (sem_permits (pool_sem p)) k (pool_cap p)"
proof (induction k arbitrary: p)
  case 0
  show ?case by (simp add: pool_run_def)
next
  case (Suc k)
  show ?case
  proof (cases "sem_try (pool_sem p)")
    case None
    moreover from this laws have "sem_permits (pool_sem p) = 0" by (simp add: semaphore_laws_def)
    ultimately show ?thesis by (simp add: try_acquire_def pool_run_def)
  next
    case (Some q)
    with laws have "sem_permits (pool_sem p) = Suc (sem_permits q)" by (simp add: semaphore_laws_def)
    with Suc.IH [of "p\<lparr>pool_sem := q\<rparr>"] Some show ?thesis
      by (auto simp: try_acquire_def pool_run_def split: sum.splits)
  qed
qed

section \<open>Properties\<close>

text \<open>
  C13. For every policy and every fallible action, \<open>retry_with_backoff\<close> returns after \<open>n + 1\<close> calls for
  some \<open>n\<close> with \<open>n + 1\<close> at most \<open>max 1 max_attempts\<close>: the first \<open>n\<close> calls all failed transiently, the
  result and the final state are those of the last call, it slept exactly \<open>n\<close> times, no sleep was
  longer than the larger of \<open>initial\<close> and \<open>max_delay\<close>, and a transient failure is returned only when
  the attempts are used up. In particular a permanent error is never retried.
\<close>

theorem retry_with_backoff_spec:
  "\<exists>n. retry_spec p f 0 s (retry_with_backoff p f s) n \<and>
       (\<forall>x \<in> set (snd (snd (retry_with_backoff p f s))). x \<le> max (initial p) (max_delay p))"
  using retry_loop_spec [of p f 0 s "initial p"]
    retry_loop_delays [of "initial p" "max (initial p) (max_delay p)" p f 0 s]
  by (auto simp: retry_with_backoff_def)

theorem retry_with_backoff_spec_witness:
  "\<exists>n. retry_spec \<lparr>max_attempts = 3, initial = 100, scale = (\<lambda>d. 2 * d), max_delay = 2000\<rparr>
         (\<lambda>k. (if k < (2::nat) then Inl (Timeout 10) else Inr k, Suc k)) 0 0
         (Inr 2, 3, [100, 0]) n \<and>
       list_all (\<lambda>x. x \<le> 2000) (snd (snd (retry_with_backoff
          \<lparr>max_attempts = 3, initial = 100, scale = (\<lambda>d. 2 * d), max_delay = 2000\<rparr>
          (\<lambda>k. (if k < (2::nat) then Inl (Timeout 10) else Inr k, Suc k)) 0)))"
  using retry_with_backoff_spec
    [of "\<lparr>max_attempts = 3, initial = 100, scale = (\<lambda>d. 2 * d), max_delay = 2000\<rparr>"
        "\<lambda>k. (if k < (2::nat) then Inl (Timeout 10) else Inr k, Suc k)" 0]
  by (simp add: retry_with_backoff_def retry_loop.simps Let_def numeral_2_eq_2 numeral_3_eq_3)

text \<open>
  C12. In every state reachable by interleaved callers of a fresh breaker with a positive threshold,
  a closed breaker has fewer recorded failures than the threshold and an open or half-open one knows
  when it was opened; and a call is refused exactly when the breaker is open and less than
  \<open>open_duration\<close> has passed since it was opened, with the time that remains at the second reading of the clock in the
  error.
\<close>

theorem cb_reachable_safe:
  assumes "cb_step\<^sup>*\<^sup>* (cb_new n d, 0, t0) (cb, k, t)" "0 < n"
  shows "cb_inv cb \<and>
    snd (cb_enter now now' cb) =
      (if circ_state (cb_inner cb) = Open \<and> now - the (opened_at (cb_inner cb)) < d
       then Some (CircuitOpen ((d - (now' - the (opened_at (cb_inner cb)))) div 1000000))
       else None)"
proof -
  note reach = cb_reachable_inv [OF assms]
  then have inv: "cb_inv cb" and "open_duration cb = d" by simp_all
  then show ?thesis
    by (auto simp: cb_inv_def cb_enter_def cb_tick_def Let_def split: option.splits)
qed

theorem cb_reachable_safe_witness:
  "cb_inv (cb_exit 7 (Inl (Timeout 1) :: unit rfc_result) (cb_new 1 50)) \<and>
   snd (cb_enter 9 9 (cb_exit 7 (Inl (Timeout 1) :: unit rfc_result) (cb_new 1 50))) = Some (CircuitOpen 0)"
proof -
  let ?cb = "cb_exit 7 (Inl (Timeout 1) :: unit rfc_result) (cb_new 1 50)"
  have "cb_enter 5 5 (cb_new 1 50) = (cb_new 1 50, None)"
    by (simp add: cb_enter_def cb_tick_def cb_new_def Let_def)
  then have "cb_step (cb_new 1 50, 0, 5) (cb_new 1 50, Suc 0, 5)" by (intro cb_step_enter) auto
  moreover have "cb_step (cb_new 1 50, Suc 0, 5) (?cb, 0, 7)" by (intro cb_step_exit) simp
  ultimately have "cb_step\<^sup>*\<^sup>* (cb_new 1 50, 0, 5) (?cb, 0, 7)" by simp
  from cb_reachable_safe [OF this, of 9 9] show ?thesis
    by (simp add: cb_exit_def cb_new_def Let_def)
qed

text \<open>
  From a fresh breaker, fewer than \<open>threshold\<close> consecutive transient failures leave it closed,
  and the \<open>threshold\<close>-th opens it at its own return time: until \<open>open_duration\<close> has passed every
  call is refused and the wrapped action does not run; after that a call is let through as a
  probe, whose success closes the breaker.
\<close>

lemma breaker_opens_at_threshold:
  fixes v :: 'a
  assumes "\<forall>x \<in> set rs. transient_failure (snd x)" "length rs + 1 = n" "n < 2 ^ 32"
    "transient_failure r"
  shows "circ_state (cb_inner (cb_run rs (cb_new n d))) = Closed
    \<and> circ_state (cb_inner (cb_run (rs @ [(t, r)]) (cb_new n d))) = Open
    \<and> (now - t < d \<longrightarrow>
         cb_call now t' f (cb_run (rs @ [(t, r)]) (cb_new n d), s) =
           (Inl (CircuitOpen ((d - (t' - t)) div 1000000)), cb_run (rs @ [(t, r)]) (cb_new n d), s))
    \<and> (d \<le> now - t \<longrightarrow> f s = (Inr v, s') \<longrightarrow>
         cb_call now t' f (cb_run (rs @ [(t, r)]) (cb_new n d), s) = (Inr v, cb_new n d, s'))"
proof -
  have run: "cb_run rs (cb_new n d) = cb_closed n d (length rs)"
    using assms by (intro cb_run_failures) auto
  then have "cb_run (rs @ [(t, r)]) (cb_new n d) =
      (cb_closed n d (length rs))\<lparr>cb_inner := \<lparr>circ_state = Open, failures = n, opened_at = Some t\<rparr>\<rparr>"
    using assms by (auto simp: cb_run_snoc cb_exit_closed)
  with run show ?thesis
    by (auto simp: cb_closed_def cb_call_def cb_enter_def cb_tick_def cb_exit_def cb_new_def Let_def)
qed

text \<open>
  The pool admits exactly \<open>max cap 1\<close> permits: with a semaphore that behaves as documented, \<open>k\<close>
  acquisitions in a row all succeed if and only if \<open>k\<close> is at most the cap, and the one that exceeds
  it fails with \<open>PoolExhausted\<close> carrying the cap.
\<close>

lemma pool_cap_enforced:
  assumes "semaphore_laws sem_new sem_permits sem_try"
  shows "(is_ok (acquire_n sem_try k (pool_new sem_new n)) \<longleftrightarrow> k \<le> max n 1)
    \<and> (max n 1 < k \<longrightarrow> acquire_n sem_try k (pool_new sem_new n) = Inl (PoolExhausted (max n 1)))"
proof -
  have "sem_permits (pool_sem (pool_new sem_new n)) = max n 1" "pool_cap (pool_new sem_new n) = max n 1"
    using assms by (auto simp: pool_new_def semaphore_laws_def Let_def)
  with acquire_n_spec [OF assms, of k "pool_new sem_new n"] show ?thesis
    by (auto simp: pool_run_def split: sum.splits)
qed

end
