(* ===== verification/Sap_Client.thy ===== *)
theory Sap_Client
  imports Json Retry
begin

text \<open>
  \<open>crates/sap-automate-rfc/src/client.rs\<close>: the types of the \<open>SapClient\<close> trait and the offline
  client that implements it. Its fixtures are in \<open>Fixtures\<close>.

  A \<open>HashMap\<close> is a map; where the code iterates over one, the iteration order is an argument. The
  client's pool permit is taken and released inside each operation; the semaphore is never closed,
  so \<open>acquire\<close> does not fail and no operation below depends on it.
\<close>

section \<open>Shared types\<close>

record system_info =
  si_sid :: string
  si_client :: string
  si_release :: string
  si_system_role :: string
  si_host :: string
  si_instance :: string
  si_identity :: json

datatype rfc_param_direction = Import | Export | Changing | Tables

record rfc_parameter =
  rp_name :: string
  rp_direction :: rfc_param_direction
  rp_type_token :: string
  rp_optional :: bool
  rp_description :: "string option"
  rp_default_value :: "string option"

record s_rfc_auth =
  sa_object :: string
  sa_rfc_type :: string
  sa_rfc_name :: string
  sa_actvt :: string

definition execute_group :: "string \<Rightarrow> s_rfc_auth" where
  "execute_group grp =
     \<lparr> sa_object = ''S_RFC'', sa_rfc_type = ''FUGR'', sa_rfc_name = grp, sa_actvt = ''16'' \<rparr>"

record rfc_function_meta =
  fm_function :: string
  fm_description :: string
  fm_function_group :: string
  fm_package :: "string option"
  fm_parameters :: "rfc_parameter list"
  fm_deprecated :: bool
  fm_read_only :: bool
  fm_commit_required :: bool
  fm_authorization :: "s_rfc_auth list"
  fm_s4hana_notes :: "string option"

text \<open>The score is a count below \<open>2^24\<close>, which \<open>f32\<close> represents exactly.\<close>

record rfc_function_summary =
  fs_function :: string
  fs_description :: string
  fs_function_group :: string
  fs_read_only :: bool
  fs_score :: nat

record rfc_search_result =
  sr_query :: string
  sr_hits :: "rfc_function_summary list"

record rfc_call_request =
  rq_function :: string
  rq_parameters :: json
  rq_timeout_ms :: nat
  rq_require_read_only_safe :: bool

record bulk_metadata =
  bm_language :: string
  bm_functions :: "rfc_function_meta list"
  bm_missing :: "string list"

record table_field =
  tf_name :: string
  tf_data_element :: string
  tf_type_token :: string
  tf_length :: nat
  tf_description :: "string option"
  tf_key :: bool

record table_structure =
  ts_table :: string
  ts_description :: string
  ts_fields :: "table_field list"
  ts_key_fields :: "string list"
  ts_authorization_group :: string
  ts_s4hana_storage :: "string option"

record read_table_request =
  rt_table :: string
  rt_fields :: "string list"
  rt_where_conditions :: "string list"
  rt_max_rows :: nat

definition MAX_ROWS_HARD_CAP :: nat where "MAX_ROWS_HARD_CAP = 1000"

type_synonym table_row = jmap

record pool_status =
  ps_cap :: nat
  ps_available :: nat

section \<open>The mock client\<close>

record mock_table =
  mt_structure :: table_structure
  mt_rows :: "jmap list"

record 'sem mock_sap_client =
  mc_pool :: "'sem connection_pool"
  mc_functions :: "string \<rightharpoonup> rfc_function_meta"
  mc_tables :: "string \<rightharpoonup> mock_table"
  mc_identity :: json

definition mock_system_info :: "'sem mock_sap_client \<Rightarrow> system_info rfc_result" where
  "mock_system_info c = Inr
     \<lparr> si_sid = ''S4H'', si_client = ''100'', si_release = ''SAP S/4HANA 2024 FPS00 (mock)'',
       si_system_role = ''DEV'', si_host = ''mock.sap.example'', si_instance = ''00'',
       si_identity = mc_identity c \<rparr>"

text \<open>\<open>values\<close> is the iteration order of the function map.\<close>

definition mock_score :: "(string \<Rightarrow> string) \<Rightarrow> string list \<Rightarrow> rfc_function_meta \<Rightarrow> nat" where
  "mock_score lower terms f =
     (let hay = lower (fm_function f) @ '' '' @ lower (fm_description f) @ '' '' @ lower (fm_function_group f)
      in sum_list (map (\<lambda>t. count_matches t hay) terms))"

definition mock_search_rfc ::
  "(string \<Rightarrow> string) \<Rightarrow> rfc_function_meta list \<Rightarrow> string \<Rightarrow> nat \<Rightarrow> rfc_search_result rfc_result" where
  "mock_search_rfc lower values query limit =
     (let terms = split_whitespace (lower query);
          hits = List.map_filter (\<lambda>f.
            let score = mock_score lower terms f in
            if score = 0 then None
            else Some \<lparr> fs_function = fm_function f, fs_description = fm_description f,
                        fs_function_group = fm_function_group f, fs_read_only = fm_read_only f,
                        fs_score = score \<rparr>) values;
          sorted_hits = sort_key (\<lambda>h. - int (fs_score h)) hits
      in Inr \<lparr> sr_query = query, sr_hits = take (max limit 1) sorted_hits \<rparr>)"

definition mock_rfc_metadata ::
  "'sem mock_sap_client \<Rightarrow> string \<Rightarrow> string \<Rightarrow> rfc_function_meta rfc_result" where
  "mock_rfc_metadata c f lang =
     (case mc_functions c f of Some m \<Rightarrow> Inr m | None \<Rightarrow> Inl (NotFound f))"

text \<open>The loop over the requested names fills the two vectors in order.\<close>

fun mock_bulk_loop ::
  "(string \<rightharpoonup> rfc_function_meta) \<Rightarrow> string list \<Rightarrow> rfc_function_meta list \<Rightarrow> string list
     \<Rightarrow> rfc_function_meta list \<times> string list" where
  "mock_bulk_loop fs [] out missing = (out, missing)"
| "mock_bulk_loop fs (f # rest) out missing =
     (case fs f of
        Some m \<Rightarrow> mock_bulk_loop fs rest (out @ [m]) missing
      | None \<Rightarrow> mock_bulk_loop fs rest out (missing @ [f]))"

definition mock_bulk_rfc_metadata ::
  "'sem mock_sap_client \<Rightarrow> string list \<Rightarrow> string \<Rightarrow> bulk_metadata rfc_result" where
  "mock_bulk_rfc_metadata c fs lang =
     (case mock_bulk_loop (mc_functions c) fs [] [] of
        (out, missing) \<Rightarrow> Inr \<lparr> bm_language = lang, bm_functions = out, bm_missing = missing \<rparr>)"

definition mock_outputs :: "rfc_function_meta \<Rightarrow> json" where
  "mock_outputs meta = json_object
     (List.map_filter (\<lambda>p. if rp_direction p = Export
        then Some (rp_name p, JString (''<mock '' @ rp_type_token p @ ''>'')) else None)
      (fm_parameters meta))"

text \<open>The first required import parameter that the arguments lack.\<close>

fun missing_import :: "jmap \<Rightarrow> rfc_parameter list \<Rightarrow> string option" where
  "missing_import args [] = None"
| "missing_import args (p # ps) =
     (if rp_direction p = Import \<and> \<not> rp_optional p \<and> \<not> has_key (rp_name p) args
      then Some (rp_name p) else missing_import args ps)"

definition mock_call_rfc :: "'sem mock_sap_client \<Rightarrow> rfc_call_request \<Rightarrow> bool \<Rightarrow> json rfc_result" where
  "mock_call_rfc c request read_only_mode =
     (case mc_functions c (rq_function request) of
        None \<Rightarrow> Inl (NotFound (rq_function request))
      | Some meta \<Rightarrow>
          if read_only_mode \<and> \<not> fm_read_only meta then
            Inl (PermissionDenied (''function '' @ sq (rq_function request) @
              '' modifies state; not callable in read-only mode''))
          else
            bind_result
              (case rq_parameters request of
                 JObject m \<Rightarrow> Inr m
               | JNull \<Rightarrow> Inr []
               | other \<Rightarrow> Inl (InvalidParameter ''parameters''
                   (''expected object, got '' @ json_to_string other)))
              (\<lambda>args.
                (case missing_import args (fm_parameters meta) of
                   Some n \<Rightarrow> Inl (InvalidParameter n ''required import parameter missing'')
                 | None \<Rightarrow>
                     Inr (json_object
                       [(''function'', JString (rq_function request)),
                        (''executed_on'', JString ''mock.sap.example''),
                        (''inputs'', JObject args),
                        (''outputs'', mock_outputs meta)]))))"

section \<open>Conditions\<close>

type_synonym condition = "string \<times> string \<times> string"

text \<open>
  One clause. \<open>upper\<close> is \<open>to_uppercase\<close>; the offset found in the upper-cased text slices the
  original, so the result is \<open>None\<close> where that slice panics.
\<close>

definition parse_condition :: "(string \<Rightarrow> string) \<Rightarrow> string \<Rightarrow> condition rfc_result option" where
  "parse_condition upper s =
     (let trimmed = trim s in
      case find_sub '' LIKE '' (upper trimmed) of
        Some idx \<Rightarrow>
          Option.bind (slice_to trimmed idx) (\<lambda>f.
          Option.bind (slice_from trimmed (idx + 6)) (\<lambda>v.
            Some (Inr (trim f, ''LIKE'', trim_matches (CHR 0x27) (trim v)))))
      | None \<Rightarrow>
          (case split_once (CHR ''='') trimmed of
             Some (f, v) \<Rightarrow> Some (Inr (trim f, ''='', trim_matches (CHR 0x27) (trim v)))
           | None \<Rightarrow> Some (Inl (InvalidParameter ''where_conditions''
               (''unsupported clause '' @ sq s @ '' (expected FIELD = '' @ sq ''value'' @
                '' or FIELD LIKE '' @ sq ''pattern'' @ '')'')))))"

fun parse_conditions :: "(string \<Rightarrow> string) \<Rightarrow> string list \<Rightarrow> condition list rfc_result option" where
  "parse_conditions upper [] = Some (Inr [])"
| "parse_conditions upper (s # rest) =
     (case parse_condition upper s of
        None \<Rightarrow> None
      | Some (Inl e) \<Rightarrow> Some (Inl e)
      | Some (Inr c) \<Rightarrow>
          (case parse_conditions upper rest of
             None \<Rightarrow> None
           | Some (Inl e) \<Rightarrow> Some (Inl e)
           | Some (Inr cs) \<Rightarrow> Some (Inr (c # cs))))"

definition like_piece :: "char \<Rightarrow> string" where
  "like_piece c =
     (if c = CHR ''%'' then ''.*''
      else if c = CHR ''_'' then ''.''
      else if c \<in> set ([CHR 0x5C] @ ''.+?^${}()|[]'') then [CHR 0x5C, c]
      else [c])"

definition like_regex :: "string \<Rightarrow> string" where
  "like_regex p = ''^'' @ concat (map like_piece p) @ ''$''"

definition sql_like :: "(string \<Rightarrow> string) \<Rightarrow> string \<Rightarrow> string \<Rightarrow> bool" where
  "sql_like lower haystack pattern =
     (let h = lower haystack; p = lower pattern; re = like_regex p in
      if CHR ''%'' \<notin> set p \<and> CHR ''_'' \<notin> set p then h = p
      else
        (let stripped = filter (\<lambda>c. c \<notin> {CHR ''^'', CHR ''$'', CHR 0x5C}) re in
         case strip_prefix ''.*'' stripped of
           Some rest \<Rightarrow>
             contains_sub h (case strip_suffix ''.*'' rest of Some r \<Rightarrow> r | None \<Rightarrow> rest)
         | None \<Rightarrow>
             (case strip_suffix ''.*'' stripped of
                Some pre \<Rightarrow> starts_with h pre
              | None \<Rightarrow> h = stripped)))"

text \<open>\<open>row.iter().find(|(k, _)| k.eq_ignore_ascii_case(f))\<close>.\<close>

definition row_find :: "string \<Rightarrow> jmap \<Rightarrow> (string \<times> json) option" where
  "row_find f row = List.find (\<lambda>(k, v). eq_ignore_ascii_case k f) row"

definition row_text :: "string \<Rightarrow> jmap \<Rightarrow> string" where
  "row_text f row =
     (case row_find f row of
        Some (k, JString s) \<Rightarrow> s
      | Some (k, v) \<Rightarrow> json_to_string v
      | None \<Rightarrow> [])"

definition match_row :: "(string \<Rightarrow> string) \<Rightarrow> jmap \<Rightarrow> condition \<Rightarrow> bool" where
  "match_row lower row c =
     (case c of (field, opr, val) \<Rightarrow>
        let actual = row_text field row in
        if opr = ''='' then eq_ignore_ascii_case actual val
        else if opr = ''LIKE'' then sql_like lower actual val
        else False)"

section \<open>Table reads\<close>

definition client_field :: "table_structure \<Rightarrow> string option" where
  "client_field ts =
     (case ts_fields ts of
        f # _ \<Rightarrow> if (tf_name f = ''MANDT'' \<or> tf_name f = ''RCLNT'') \<and> tf_type_token f = ''CLNT''
                 then Some (tf_name f) else None
      | [] \<Rightarrow> None)"

definition connection_client :: "json \<Rightarrow> string" where
  "connection_client identity =
     (case Option.bind (json_get ''client'' identity) as_str of Some s \<Rightarrow> s | None \<Rightarrow> ''100'')"

definition scope_conditions :: "table_structure \<Rightarrow> json \<Rightarrow> condition list \<Rightarrow> condition list" where
  "scope_conditions ts identity conditions =
     (case client_field ts of
        Some field \<Rightarrow>
          if list_ex (\<lambda>(f, _, _). eq_ignore_ascii_case f field) conditions then conditions
          else conditions @ [(field, ''='', connection_client identity)]
      | None \<Rightarrow> conditions)"

definition project_row :: "string list \<Rightarrow> jmap \<Rightarrow> table_row" where
  "project_row projection row = amap_of (List.map_filter (\<lambda>f. row_find f row) projection)"

text \<open>The row loop, with the number of rows already collected.\<close>

fun collect_rows ::
  "(string \<Rightarrow> string) \<Rightarrow> nat \<Rightarrow> condition list \<Rightarrow> string list \<Rightarrow> nat \<Rightarrow> jmap list \<Rightarrow> table_row list" where
  "collect_rows lower max_rows cs proj n [] = []"
| "collect_rows lower max_rows cs proj n (row # rest) =
     (if list_all (match_row lower row) cs then
        project_row proj row #
          (if max_rows \<le> n + 1 then [] else collect_rows lower max_rows cs proj (n + 1) rest)
      else collect_rows lower max_rows cs proj n rest)"

definition projection_of :: "table_structure \<Rightarrow> string list \<Rightarrow> string list rfc_result" where
  "projection_of ts flds =
     (if flds = [] then Inr (map tf_name (ts_fields ts))
      else (case List.find (\<lambda>f. \<not> list_ex (\<lambda>tf. eq_ignore_ascii_case (tf_name tf) f) (ts_fields ts)) flds of
              Some f \<Rightarrow> Inl (InvalidParameter ''fields'' (''unknown field '' @ sq f))
            | None \<Rightarrow> Inr flds))"

definition mock_read_table ::
  "(string \<Rightarrow> string) \<Rightarrow> (string \<Rightarrow> string) \<Rightarrow> 'sem mock_sap_client \<Rightarrow> read_table_request
     \<Rightarrow> table_row list rfc_result option" where
  "mock_read_table upper lower c request =
     (if rt_max_rows request = 0 then Some (Inl (InvalidParameter ''max_rows'' ''must be >= 1''))
      else if MAX_ROWS_HARD_CAP < rt_max_rows request
        then Some (Inl (TableBufferOverflow (rt_table request) (rt_max_rows request)))
      else
        (case mc_tables c (rt_table request) of
           None \<Rightarrow> Some (Inl (NotFound (rt_table request)))
         | Some table \<Rightarrow>
             (case projection_of (mt_structure table) (rt_fields request) of
                Inl e \<Rightarrow> Some (Inl e)
              | Inr proj \<Rightarrow>
                  (case parse_conditions upper (rt_where_conditions request) of
                     None \<Rightarrow> None
                   | Some (Inl e) \<Rightarrow> Some (Inl e)
                   | Some (Inr parsed) \<Rightarrow>
                       Some (Inr (collect_rows lower (rt_max_rows request)
                         (scope_conditions (mt_structure table) (mc_identity c) parsed)
                         proj 0 (mt_rows table)))))))"

definition mock_table_structure :: "'sem mock_sap_client \<Rightarrow> string \<Rightarrow> table_structure rfc_result" where
  "mock_table_structure c t =
     (case mc_tables c t of Some mt \<Rightarrow> Inr (mt_structure mt) | None \<Rightarrow> Inl (NotFound t))"

definition mock_pool_status :: "('sem \<Rightarrow> nat) \<Rightarrow> 'sem mock_sap_client \<Rightarrow> pool_status" where
  "mock_pool_status sem_permits c =
     \<lparr> ps_cap = pool_cap (mc_pool c), ps_available = pool_available sem_permits (mc_pool c) \<rparr>"

section \<open>Facts about the string helpers\<close>

lemma ascii_not_ws:
  "code c < 0x80 \<Longrightarrow> \<not> is_ascii_ws c \<Longrightarrow> ws_width (c # s) = 0 \<and> ws_width_rev (c # s) = 0"
  by (auto simp: ws_pair_def ws_triple_def split: list.splits)

lemma trim_id:
  assumes "code c < 0x80" "\<not> is_ascii_ws c" "code d < 0x80" "\<not> is_ascii_ws d"
    "c # s = t @ [d]"
  shows "trim (c # s) = c # s"
proof -
  have "trim_start (c # s) = c # s"
    using ascii_not_ws [OF assms(1,2), of s] by (simp add: trim_start.simps del: ws_width.simps)
  moreover have "trim_end (t @ [d]) = t @ [d]"
    using ascii_not_ws [OF assms(3,4), of "rev t"]
    by (simp add: trim_end_def trim_end_rev.simps del: ws_width_rev.simps)
  ultimately show ?thesis using assms(5) by (simp add: trim_def)
qed

text \<open>An ASCII-alphanumeric or underscore character, as field names and keys have.\<close>

definition word_char :: "char \<Rightarrow> bool" where
  "word_char c \<longleftrightarrow> is_ascii_alphanumeric c \<or> c = CHR ''_''"

lemma word_char_facts:
  assumes "word_char c"
  shows "code c < 0x80" "\<not> is_ascii_ws c" "c \<noteq> CHR 0x27" "c \<noteq> CHR '' ''" "c \<noteq> CHR ''=''"
    "to_ascii_uppercase c \<noteq> CHR '' ''"
proof -
  note defs = word_char_def is_ascii_alphanumeric_def is_ascii_digit_def is_ascii_upper_def
      is_ascii_lower_def is_ascii_ws_def
  show "code c < 0x80" "\<not> is_ascii_ws c" "c \<noteq> CHR 0x27" "c \<noteq> CHR '' ''" "c \<noteq> CHR ''=''"
    using assms by (auto simp: defs)
  have "code (to_ascii_uppercase c) \<noteq> 32"
    using assms by (auto simp: defs code_to_ascii_uppercase)
  then show "to_ascii_uppercase c \<noteq> CHR '' ''" by auto
qed

fun no_pair :: "char \<Rightarrow> char \<Rightarrow> string \<Rightarrow> bool" where
  "no_pair c d (x # y # zs) = ((x = c \<longrightarrow> y \<noteq> d) \<and> no_pair c d (y # zs))"
| "no_pair c d _ = True"

lemma find_sub_no_pair: "no_pair c d s \<Longrightarrow> find_sub (c # d # p) s = None"
  by (induction c d s rule: no_pair.induct) auto

lemma no_pair_skip: "c \<notin> set a \<Longrightarrow> no_pair c d (a @ s) = no_pair c d s"
proof (induction a)
  case (Cons x a)
  then show ?case by (cases "a @ s") (auto simp: Cons_eq_append_conv split: list.splits)
qed simp

lemma parse_condition_total:
  assumes "uppercase_law upper" "is_ascii s" shows "parse_condition upper s \<noteq> None"
proof -
  have asc: "is_ascii (trim s)" using trim_infix [of s] assms(2) by (metis is_ascii_append)
  have "find_sub '' LIKE '' (upper (trim s)) = Some i \<Longrightarrow> i + 6 \<le> length (trim s)" for i
    using find_sub_SomeD [of "'' LIKE ''" "upper (trim s)" i] assms(1) asc
    by (simp add: uppercase_law_def)
  then show ?thesis
    using is_ascii_boundary [OF asc]
    by (auto simp: parse_condition_def Let_def slice_to_def slice_from_def split: option.splits)
qed

lemma parse_conditions_total:
  "uppercase_law upper \<Longrightarrow> list_all is_ascii cs \<Longrightarrow> parse_conditions upper cs \<noteq> None"
  using parse_condition_total
  by (induction cs) (fastforce split: option.splits sum.splits)+

subsection \<open>Clauses over word characters\<close>

lemma word_ascii: "list_all word_char s \<Longrightarrow> is_ascii s"
  using word_char_facts(1) by (auto simp: is_ascii_def list_all_iff)

lemma quote_not_ws [simp]: "ws_width (CHR 0x27 # s) = 0" "ws_width_rev (CHR 0x27 # s) = 0"
  using ascii_not_ws [of "CHR 0x27" s] by (simp_all add: is_ascii_ws_def del: ws_width.simps ws_width_rev.simps)

lemma space_ws [simp]: "ws_width (CHR '' '' # s) = 1" "ws_width_rev (CHR '' '' # s) = 1"
  by (simp_all add: is_ascii_ws_def)

lemma word_not_ws:
  "word_char c \<Longrightarrow> ws_width (c # s) = 0" "word_char c \<Longrightarrow> ws_width_rev (c # s) = 0"
  using ascii_not_ws [of c s] word_char_facts [of c] by simp_all

lemma trim_start_word: "list_all word_char F \<Longrightarrow> F \<noteq> [] \<Longrightarrow> trim_start (F @ s) = F @ s"
  by (cases F) (simp_all add: trim_start.simps [of "c # t" for c t] word_not_ws del: ws_width.simps)

lemma trim_end_word:
  assumes "list_all word_char F" "F \<noteq> []"
  shows "trim_end (F @ '' '') = F"
proof -
  obtain d G where G: "rev F = d # G" using assms(2) by (cases "rev F") auto
  then have "word_char d" using assms(1) by (metis list.set_intros(1) list_all_iff set_rev)
  with G show ?thesis
    by (simp add: trim_end_def trim_end_rev.simps [of "c # t" for c t] word_not_ws rev_swap del: ws_width_rev.simps)
qed

lemma trim_word_space: "list_all word_char F \<Longrightarrow> F \<noteq> [] \<Longrightarrow> trim (F @ '' '') = F"
  by (simp add: trim_def trim_start_word trim_end_word)

lemma trim_space_quoted: "trim (CHR '' '' # sq v) = sq v"
  by (simp add: trim_def trim_end_def sq_def trim_start.simps [of "c # t" for c t]
      trim_end_rev.simps [of "c # t" for c t] del: ws_width.simps ws_width_rev.simps)

lemma trim_matches_sq: "CHR 0x27 \<notin> set v \<Longrightarrow> trim_matches (CHR 0x27) (sq v) = v"
proof (cases v)
  case (Cons c w)
  assume q: "CHR 0x27 \<notin> set v"
  obtain d G where G: "rev v = d # G" using Cons by (cases "rev v") auto
  from this q have "d \<noteq> CHR 0x27" by (metis list.set_intros(1) set_rev)
  then have "dropWhile (\<lambda>x. x = CHR 0x27) (rev v) = rev v" by (simp add: G)
  moreover have "dropWhile (\<lambda>x. x = CHR 0x27) (v @ [CHR 0x27]) = v @ [CHR 0x27]" using q Cons by auto
  ultimately show ?thesis
    by (simp add: trim_matches_def trim_start_matches_def trim_end_matches_def sq_def)
qed (simp add: trim_matches_def trim_start_matches_def trim_end_matches_def sq_def)

lemma no_like_in_equality:
  assumes "uppercase_law upper" "list_all word_char F" "list_all word_char v"
  shows "find_sub '' LIKE '' (upper (F @ '' = '' @ sq v)) = None"
proof -
  let ?U = "map to_ascii_uppercase"
  let ?w = "CHR 0x27 # ?U v @ [CHR 0x27]"
  have "is_ascii (F @ '' = '' @ sq v)"
    using assms(2,3) [THEN word_ascii] by (simp add: sq_def is_ascii_def)
  then have eq: "upper (F @ '' = '' @ sq v) = ?U F @ CHR '' '' # CHR ''='' # CHR '' '' # ?w"
    using assms(1)
    by (simp add: uppercase_law_def ascii_uppercase_def sq_def to_ascii_uppercase_def is_ascii_lower_def)
  have sp: "CHR '' '' \<notin> set (?U F)" "CHR '' '' \<notin> set ?w"
    using assms(2,3) word_char_facts(6) by (force simp: list_all_iff)+
  have "no_pair (CHR '' '') (CHR ''L'') ?w"
    using no_pair_skip [OF sp(2), of _ "[]"] by simp
  then have "no_pair (CHR '' '') (CHR ''L'') (upper (F @ '' = '' @ sq v))"
    unfolding eq no_pair_skip [OF sp(1)] by simp
  then show ?thesis by (rule find_sub_no_pair)
qed

section \<open>Facts about the client\<close>

lemma collect_rows_eq:
  "n < max_rows \<Longrightarrow>
     collect_rows lower max_rows cs proj n rows =
       take (max_rows - n) (map (project_row proj) (filter (\<lambda>r. list_all (match_row lower r) cs) rows))"
proof (induction rows arbitrary: n)
  case (Cons r rows)
  show ?case
  proof (cases "list_all (match_row lower r) cs")
    case True
    then obtain k where k: "max_rows - n = Suc k" using Cons.prems by (metis Suc_diff_Suc)
    moreover from k have "max_rows - Suc n = k" by simp
    ultimately show ?thesis using True Cons.IH [of "n + 1"]
      by (cases "max_rows \<le> n + 1") auto
  next
    case False
    with Cons show ?thesis by simp
  qed
qed simp

lemma missing_import_None:
  "missing_import args ps = None \<longleftrightarrow>
     (\<forall>p \<in> set ps. rp_direction p = Import \<longrightarrow> \<not> rp_optional p \<longrightarrow> has_key (rp_name p) args)"
  by (induction ps) auto

lemma missing_import_Some:
  "missing_import args ps = Some n \<Longrightarrow>
     \<exists>p \<in> set ps. rp_name p = n \<and> rp_direction p = Import \<and> \<not> rp_optional p \<and> \<not> has_key n args"
  by (induction ps) (auto split: if_splits)

lemma mock_bulk_loop_eq:
  "mock_bulk_loop fs names out missing =
     (out @ List.map_filter fs names, missing @ filter (\<lambda>f. fs f = None) names)"
  by (induction names arbitrary: out missing) (auto simp: map_filter_simps split: option.splits)

lemma mock_call_read_only:
  "is_ok (mock_call_rfc c rq True) \<Longrightarrow>
     \<exists>meta. mc_functions c (rq_function rq) = Some meta \<and> fm_read_only meta"
  by (auto simp: mock_call_rfc_def split: option.splits if_splits)

text \<open>The shape of a successful table read.\<close>

lemma mock_read_table_cases:
  assumes "mock_read_table upper lower c rq = Some (Inr rows)"
  obtains table proj parsed where
    "0 < rt_max_rows rq" "rt_max_rows rq \<le> MAX_ROWS_HARD_CAP"
    "mc_tables c (rt_table rq) = Some table"
    "projection_of (mt_structure table) (rt_fields rq) = Inr proj"
    "parse_conditions upper (rt_where_conditions rq) = Some (Inr parsed)"
    "rows = take (rt_max_rows rq) (map (project_row proj) (filter (\<lambda>r. list_all (match_row lower r)
       (scope_conditions (mt_structure table) (mc_identity c) parsed)) (mt_rows table)))"
  using assms
  by (auto simp: mock_read_table_def collect_rows_eq not_less split: if_splits option.splits sum.splits)

section \<open>Properties\<close>

text \<open>
  A successful table read of the offline client returns exactly the first \<open>max_rows\<close> rows of
  the table, in stored order, that satisfy every parsed condition and the client condition, each
  projected to the requested columns, and \<open>max_rows\<close> is between 1 and 1000. Outside that range the
  read is refused: 0 with \<open>InvalidParameter\<close>, more than the hard cap with \<open>TableBufferOverflow\<close>.
\<close>

lemma mock_read_table_spec:
  "(rt_max_rows rq = 0 \<longrightarrow>
      mock_read_table upper lower c rq = Some (Inl (InvalidParameter ''max_rows'' ''must be >= 1''))) \<and>
   (MAX_ROWS_HARD_CAP < rt_max_rows rq \<longrightarrow>
      mock_read_table upper lower c rq = Some (Inl (TableBufferOverflow (rt_table rq) (rt_max_rows rq)))) \<and>
   (mock_read_table upper lower c rq = Some (Inr rows) \<longrightarrow>
      length rows \<le> rt_max_rows rq \<and> rt_max_rows rq \<le> 1000 \<and>
      (\<exists>table proj parsed. mc_tables c (rt_table rq) = Some table \<and>
         projection_of (mt_structure table) (rt_fields rq) = Inr proj \<and>
         parse_conditions upper (rt_where_conditions rq) = Some (Inr parsed) \<and>
         rows = take (rt_max_rows rq) (map (project_row proj)
           (filter (\<lambda>r. list_all (match_row lower r)
              (scope_conditions (mt_structure table) (mc_identity c) parsed)) (mt_rows table)))))"
proof (intro conjI impI)
  show "rt_max_rows rq = 0 \<Longrightarrow>
    mock_read_table upper lower c rq = Some (Inl (InvalidParameter ''max_rows'' ''must be >= 1''))"
    by (simp add: mock_read_table_def)
  show "MAX_ROWS_HARD_CAP < rt_max_rows rq \<Longrightarrow>
    mock_read_table upper lower c rq = Some (Inl (TableBufferOverflow (rt_table rq) (rt_max_rows rq)))"
    by (simp add: mock_read_table_def)
qed (auto elim!: mock_read_table_cases simp: MAX_ROWS_HARD_CAP_def)

definition demo_table :: mock_table where
  "demo_table =
     \<lparr> mt_structure = \<lparr> ts_table = ''T'', ts_description = [],
         ts_fields = [\<lparr>tf_name = ''MANDT'', tf_data_element = ''MANDT'', tf_type_token = ''CLNT'',
                       tf_length = 3, tf_description = None, tf_key = True\<rparr>,
                      \<lparr>tf_name = ''K'', tf_data_element = ''K'', tf_type_token = ''CHAR'',
                       tf_length = 1, tf_description = None, tf_key = True\<rparr>],
         ts_key_fields = [''MANDT'', ''K''], ts_authorization_group = [], ts_s4hana_storage = None \<rparr>,
       mt_rows = [[(''K'', JString ''a''), (''MANDT'', JString ''100'')],
                  [(''K'', JString ''b''), (''MANDT'', JString ''200'')],
                  [(''K'', JString ''c''), (''MANDT'', JString ''100'')]] \<rparr>"

definition demo_client :: "unit mock_sap_client" where
  "demo_client =
     \<lparr> mc_pool = \<lparr>pool_cap = 1, pool_sem = ()\<rparr>, mc_functions = (\<lambda>_. None),
       mc_tables = (\<lambda>t. if t = ''T'' then Some demo_table else None),
       mc_identity = JObject [(''client'', JString ''100'')] \<rparr>"

definition demo_request :: "nat \<Rightarrow> read_table_request" where
  "demo_request n = \<lparr> rt_table = ''T'', rt_fields = [], rt_where_conditions = [], rt_max_rows = n \<rparr>"

lemma demo_read:
  "mock_read_table ascii_uppercase ascii_lowercase demo_client (demo_request 5) =
     Some (Inr [[(''K'', JString ''a''), (''MANDT'', JString ''100'')],
                [(''K'', JString ''c''), (''MANDT'', JString ''100'')]])"
  by code_simp

text \<open>
  Client isolation: when the table's first column is a client column and no parsed condition
  names it, every returned row comes from a stored row whose client column equals the client of the
  connection (\<open>100\<close> when the identity carries none).
\<close>

lemma mock_read_table_client_scoped:
  assumes "mock_read_table upper lower c rq = Some (Inr rows)"
    "mc_tables c (rt_table rq) = Some table"
    "client_field (mt_structure table) = Some fld"
    "parse_conditions upper (rt_where_conditions rq) = Some (Inr parsed)"
    "\<not> list_ex (\<lambda>(f, _, _). eq_ignore_ascii_case f fld) parsed"
  shows "\<forall>r \<in> set rows. \<exists>row \<in> set (mt_rows table).
    (\<exists>proj. r = project_row proj row) \<and>
    eq_ignore_ascii_case (row_text fld row) (connection_client (mc_identity c))"
proof -
  from assms(1) obtain table' proj parsed' where
    t: "mc_tables c (rt_table rq) = Some table'"
    "parse_conditions upper (rt_where_conditions rq) = Some (Inr parsed')" and
    rows: "rows = take (rt_max_rows rq) (map (project_row proj) (filter (\<lambda>r. list_all (match_row lower r)
       (scope_conditions (mt_structure table') (mc_identity c) parsed')) (mt_rows table')))"
    by (rule mock_read_table_cases)
  have "scope_conditions (mt_structure table) (mc_identity c) parsed =
      parsed @ [(fld, ''='', connection_client (mc_identity c))]"
    using assms(3,5) by (simp add: scope_conditions_def)
  with t rows assms(2,4) show ?thesis
    by (fastforce simp: match_row_def Let_def dest!: in_set_takeD)
qed

text \<open>The arguments a call may carry: an object, or nothing.\<close>

definition call_args :: "json \<Rightarrow> jmap option" where
  "call_args v = (case v of JObject m \<Rightarrow> Some m | JNull \<Rightarrow> Some [] | _ \<Rightarrow> None)"

text \<open>
  The call gate of the offline client. A call succeeds if and only if the function is known, it
  is read-only or the caller is not in read-only mode, the parameters are an object or null, and
  every required import parameter is present; a function that modifies state is refused in read-only
  mode with \<open>PermissionDenied\<close> whatever the parameters are.
\<close>

lemma mock_call_rfc_gate:
  "(is_ok (mock_call_rfc c rq ro) \<longleftrightarrow>
     (\<exists>meta args. mc_functions c (rq_function rq) = Some meta \<and> (ro \<longrightarrow> fm_read_only meta) \<and>
        call_args (rq_parameters rq) = Some args \<and>
        (\<forall>p \<in> set (fm_parameters meta). rp_direction p = Import \<longrightarrow> \<not> rp_optional p \<longrightarrow>
           has_key (rp_name p) args))) \<and>
   (\<forall>meta. mc_functions c (rq_function rq) = Some meta \<longrightarrow> \<not> fm_read_only meta \<longrightarrow>
      (\<exists>m. mock_call_rfc c rq True = Inl (PermissionDenied m)))"
  by (auto simp: mock_call_rfc_def call_args_def missing_import_None [symmetric]
      split: option.splits json.splits)

definition demo_meta :: rfc_function_meta where
  "demo_meta = \<lparr> fm_function = ''F'', fm_description = [], fm_function_group = [], fm_package = None,
     fm_parameters = [], fm_deprecated = False, fm_read_only = False, fm_commit_required = False,
     fm_authorization = [], fm_s4hana_notes = None \<rparr>"

text \<open>
  An equality clause \<open>FIELD = 'value'\<close> over word characters is parsed to exactly its field and
  value, for every \<open>to_uppercase\<close> that agrees with ASCII case mapping on ASCII text; and no ASCII
  list of clauses makes the parser panic.
\<close>

lemma parse_conditions_correct:
  assumes "uppercase_law upper" and F: "F \<noteq> []" "list_all word_char F" and v: "list_all word_char v"
    and cs: "list_all is_ascii cs"
  shows "parse_condition upper (F @ '' = '' @ sq v) = Some (Inr (F, ''='', v))
    \<and> parse_conditions upper cs \<noteq> None"
proof -
  have "trim_end (F @ '' = '' @ sq v) = F @ '' = '' @ sq v"
    by (simp add: trim_end_def sq_def trim_end_rev.simps [of "c # t" for c t] del: ws_width_rev.simps)
  then have t: "trim (F @ '' = '' @ sq v) = F @ '' = '' @ sq v"
    by (simp only: trim_def trim_start_word [OF F(2,1)])
  have s: "split_once (CHR ''='') (F @ '' = '' @ sq v) = Some (F @ '' '', CHR '' '' # sq v)"
    using F(2) word_char_facts(5) by (induction F) (auto)
  have q: "CHR 0x27 \<notin> set v" using v word_char_facts(3) by (auto simp: list_all_iff)
  have "parse_condition upper (F @ '' = '' @ sq v) = Some (Inr (F, ''='', v))"
    by (simp only: parse_condition_def Let_def t no_like_in_equality [OF assms(1) F(2) v] s option.case
        prod.case trim_word_space [OF F(2,1)] trim_space_quoted trim_matches_sq [OF q])
  with parse_conditions_total [OF assms(1) cs] show ?thesis by simp
qed

text \<open>
  The clause parser panics on a clause whose text before \<open>LIKE\<close> gets shorter in upper case: for
  a dotless \<open>i\<close> (two bytes, U+0131), whose upper case is the one-byte \<open>I\<close>, the offset found in
  the upper-cased clause is in the middle of a character of the original.
\<close>

lemma parse_condition_panics:
  assumes "upper ([CHR 0xC4, CHR 0xB1] @ '' LIKE x'') = ''I LIKE X''"
  shows "parse_condition upper ([CHR 0xC4, CHR 0xB1] @ '' LIKE x'') = None"
proof -
  have t: "trim ([CHR 0xC4, CHR 0xB1] @ '' LIKE x'') = [CHR 0xC4, CHR 0xB1] @ '' LIKE x''" by code_simp
  have f: "find_sub '' LIKE '' ''I LIKE X'' = Some 1" by code_simp
  have b: "slice_to ([CHR 0xC4, CHR 0xB1] @ '' LIKE x'') 1 = None" by code_simp
  show ?thesis
    by (simp only: parse_condition_def Let_def t assms f option.case b Option.bind.simps)
qed

definition plain :: "string \<Rightarrow> bool" where
  "plain p \<longleftrightarrow> list_all is_ascii_alphanumeric p"

lemma special_not_alnum:
  "list_all (\<lambda>c. \<not> is_ascii_alphanumeric c) ([CHR 0x5C] @ ''.+?^${}()|[]'')"
  by code_simp

lemma alnum_like_piece: "is_ascii_alphanumeric c \<Longrightarrow> like_piece c = [c]"
proof -
  assume a: "is_ascii_alphanumeric c"
  then have "c \<notin> set ([CHR 0x5C] @ ''.+?^${}()|[]'')"
    using special_not_alnum by (auto simp only: list_all_iff)
  moreover have "\<not> is_ascii_alphanumeric (CHR ''%'')" "\<not> is_ascii_alphanumeric (CHR ''_'')" by code_simp+
  then have "c \<noteq> CHR ''%''" "c \<noteq> CHR ''_''" using a by blast+
  ultimately show ?thesis by (simp only: like_piece_def if_False)
qed

lemma alnum_not_special:
  "is_ascii_alphanumeric c \<Longrightarrow>
     c \<noteq> CHR ''^'' \<and> c \<noteq> CHR ''$'' \<and> c \<noteq> CHR 0x5C \<and> c \<noteq> CHR ''%'' \<and> c \<noteq> CHR ''_''
     \<and> c \<noteq> CHR ''*'' \<and> c \<noteq> CHR ''.'' \<and> code c < 0x80"
  by (auto simp: is_ascii_alphanumeric_def is_ascii_digit_def is_ascii_upper_def is_ascii_lower_def)

lemma plain_regex:
  assumes "plain p"
  shows "concat (map like_piece p) = p"
    and "filter (\<lambda>c. c \<notin> {CHR ''^'', CHR ''$'', CHR 0x5C}) p = p"
    and "is_ascii p"
  using assms
  by (induction p) (auto simp: plain_def is_ascii_def alnum_like_piece dest: alnum_not_special)

lemma plain_chars:
  "plain p \<Longrightarrow> CHR ''%'' \<notin> set p \<and> CHR ''_'' \<notin> set p \<and> CHR ''.'' \<notin> set p \<and> CHR ''*'' \<notin> set p"
  by (auto simp: plain_def list_all_iff dest: alnum_not_special)

lemma plain_lowercase: "plain p \<Longrightarrow> plain (ascii_lowercase p)"
  by (auto simp: plain_def list_all_iff ascii_lowercase_def is_ascii_alphanumeric_def is_ascii_digit_def
      is_ascii_upper_def is_ascii_lower_def code_to_ascii_lowercase)

lemma like_forms:
  assumes "plain p"
  shows "filter (\<lambda>c. c \<notin> {CHR ''^'', CHR ''$'', CHR 0x5C}) (like_regex (p @ ''%'')) = p @ ''.*''"
    and "filter (\<lambda>c. c \<notin> {CHR ''^'', CHR ''$'', CHR 0x5C}) (like_regex (''%'' @ p)) = ''.*'' @ p"
    and "filter (\<lambda>c. c \<notin> {CHR ''^'', CHR ''$'', CHR 0x5C}) (like_regex (''%'' @ p @ ''%'')) = ''.*'' @ p @ ''.*''"
  using plain_regex [OF assms] by (simp_all add: like_regex_def) (simp_all add: like_piece_def)

text \<open>
  What \<open>sql_like\<close> decides on ASCII text for patterns built from an alphanumeric text \<open>p\<close>: without a
  wildcard it is equality up to case; \<open>p%\<close> is a prefix test; \<open>%p%\<close> is a substring test, and so is \<open>%p\<close>:
  the end anchor of a suffix pattern is not enforced.
\<close>

lemma sql_like_forms:
  assumes "lowercase_law lower" "is_ascii h" "plain p" "p \<noteq> []"
  shows "sql_like lower h p = eq_ignore_ascii_case h p
    \<and> sql_like lower h (p @ ''%'') = starts_with (ascii_lowercase h) (ascii_lowercase p)
    \<and> sql_like lower h (''%'' @ p @ ''%'') = contains_sub (ascii_lowercase h) (ascii_lowercase p)
    \<and> sql_like lower h (''%'' @ p) = contains_sub (ascii_lowercase h) (ascii_lowercase p)"
proof -
  let ?l = "ascii_lowercase"
  let ?F = "filter (\<lambda>c. c \<notin> {CHR ''^'', CHR ''$'', CHR 0x5C})"
  have pl: "plain (?l p)" by (rule plain_lowercase [OF assms(3)])
  note ch = plain_chars [OF pl]
  have pct: "?l ''%'' = ''%''" by code_simp
  have asc: "is_ascii p" by (rule plain_regex(3) [OF assms(3)])
  moreover have "is_ascii ''%''" by code_simp
  ultimately have low: "lower h = ?l h" "lower p = ?l p" "lower (p @ ''%'') = ?l p @ ''%''"
    "lower (''%'' @ p @ ''%'') = ''%'' @ ?l p @ ''%''" "lower (''%'' @ p) = ''%'' @ ?l p"
    using assms(1,2) pct by (simp_all only: lowercase_law_def is_ascii_append ascii_lowercase_append simp_thms)
  have ne: "?l p \<noteq> []" using assms(4) by (simp add: ascii_lowercase_def)
  then obtain c q where cq: "?l p = c # q" by (cases "?l p") auto
  have nop: "\<not> starts_with (?l p @ ''.*'') ''.*''" using ch cq by auto
  have nos: "\<not> ends_with (?l p) ''.*''" using ch by (auto simp: suffix_def)
  have "sql_like lower h p = eq_ignore_ascii_case h p"
    using ch by (simp add: sql_like_def Let_def low eq_ignore_ascii_case_def)
  moreover have "sql_like lower h (p @ ''%'') = starts_with (?l h) (?l p)"
  proof -
    have "strip_prefix ''.*'' (?l p @ ''.*'') = None" using nop by (simp add: strip_prefix_def)
    moreover have "strip_suffix ''.*'' (?l p @ ''.*'') = Some (?l p)" by (simp add: strip_suffix_Some)
    ultimately show ?thesis
      unfolding sql_like_def Let_def low like_forms(1) [OF pl] by simp
  qed
  moreover have "sql_like lower h (''%'' @ p @ ''%'') = contains_sub (?l h) (?l p)"
  proof -
    have "strip_prefix ''.*'' (''.*'' @ ?l p @ ''.*'') = Some (?l p @ ''.*'')" by (simp add: strip_prefix_Some)
    moreover have "strip_suffix ''.*'' (?l p @ ''.*'') = Some (?l p)" by (simp add: strip_suffix_Some)
    ultimately show ?thesis
      unfolding sql_like_def Let_def low like_forms(3) [OF pl] by simp
  qed
  moreover have "sql_like lower h (''%'' @ p) = contains_sub (?l h) (?l p)"
  proof -
    have "strip_prefix ''.*'' (''.*'' @ ?l p) = Some (?l p)" by (simp add: strip_prefix_Some)
    moreover have "strip_suffix ''.*'' (?l p) = None" using nos by (simp add: strip_suffix_def)
    ultimately show ?thesis
      unfolding sql_like_def Let_def low like_forms(2) [OF pl] by simp
  qed
  ultimately show ?thesis by blast
qed

end
