(* ===== verification/Transaction.thy ===== *)
theory Transaction
  imports Bapiret2 Sap_Client
begin

text \<open>
  \<open>crates/sap-automate-rfc/src/transaction.rs\<close>: a write BAPI followed by commit or rollback.

  The client is any function of the trait's \<open>call_rfc\<close>, with the state of the system behind it
  passed explicitly; \<open>logged\<close> wraps one so that the requests it received are recorded.
\<close>

type_synonym 's rfc_caller = "rfc_call_request \<Rightarrow> bool \<Rightarrow> 's \<Rightarrow> json rfc_result \<times> 's"

definition COMMIT_FN :: string where "COMMIT_FN = ''BAPI_TRANSACTION_COMMIT''"
definition ROLLBACK_FN :: string where "ROLLBACK_FN = ''BAPI_TRANSACTION_ROLLBACK''"

definition note_msg :: "bapi_ret2_severity \<Rightarrow> string \<Rightarrow> bapi_ret2_message" where
  "note_msg sev txt =
     \<lparr> severity = sev, message_class = ''SAPAUTO'', message_number = ''000'', msg_text = txt,
       parameter = None, row = None, field = None, system = None \<rparr>"

definition has_failure :: "bapi_ret2_message list \<Rightarrow> bool" where
  "has_failure ms = list_ex is_failure ms"

definition commit_req :: rfc_call_request where
  "commit_req =
     \<lparr> rq_function = COMMIT_FN, rq_parameters = json_object [(''WAIT'', JString ''X'')],
       rq_timeout_ms = 30000, rq_require_read_only_safe = False \<rparr>"

definition rollback_req :: rfc_call_request where
  "rollback_req =
     \<lparr> rq_function = ROLLBACK_FN, rq_parameters = JNull,
       rq_timeout_ms = 30000, rq_require_read_only_safe = False \<rparr>"

definition rollback :: "'s rfc_caller \<Rightarrow> 's \<Rightarrow> (bool \<times> bapi_ret2_message list) \<times> 's" where
  "rollback call s =
     (case call rollback_req False s of
        (Inr v, s') \<Rightarrow> (let msgs = parse_bapiret2 v in ((\<not> has_failure msgs, msgs), s'))
      | (Inl e, s') \<Rightarrow>
          ((False, [note_msg Warning (''rollback could not be confirmed: '' @ rfc_error_display e)]), s'))"

record write_outcome =
  wo_function :: string
  wo_committed :: bool
  wo_rolled_back :: bool
  wo_messages :: "bapi_ret2_message list"
  wo_result :: json

definition execute_write_bapi ::
  "'s rfc_caller \<Rightarrow> rfc_call_request \<Rightarrow> bool \<Rightarrow> 's \<Rightarrow> write_outcome rfc_result \<times> 's" where
  "execute_write_bapi call request read_only_mode s0 =
     (if read_only_mode then
        (Inl (PermissionDenied (''write workflow for '' @ sq (rq_function request) @
           '' requires write mode (--enable-writes)'')), s0)
      else if rq_function request = COMMIT_FN \<or> rq_function request = ROLLBACK_FN then
        (Inl (InvalidParameter ''function''
           ''commit/rollback are issued automatically; call the business BAPI instead''), s0)
      else
        (case call request False s0 of
           (Inl e, s1) \<Rightarrow> (Inl e, s1)
         | (Inr result, s1) \<Rightarrow>
             (let messages = parse_bapiret2 result;
                  fn = rq_function request
              in
              if has_failure messages then
                (case rollback call s1 of ((rolled_back, rb_msgs), s2) \<Rightarrow>
                   (Inr \<lparr> wo_function = fn, wo_committed = False, wo_rolled_back = rolled_back,
                          wo_messages = messages @ rb_msgs, wo_result = result \<rparr>, s2))
              else if messages = [] then
                (case rollback call s1 of ((rolled_back, rb_msgs), s2) \<Rightarrow>
                   (Inr \<lparr> wo_function = fn, wo_committed = False, wo_rolled_back = rolled_back,
                          wo_messages = note_msg Warning
                            (''BAPI returned no BAPIRET2; outcome unconfirmed '' @ em_dash @ '' not committed'')
                            # rb_msgs,
                          wo_result = result \<rparr>, s2))
              else
                (case call commit_req False s1 of
                   (Inl e, s2) \<Rightarrow> (Inl e, s2)
                 | (Inr commit_result, s2) \<Rightarrow>
                     (let messages' = messages @ parse_bapiret2 commit_result in
                      if has_failure messages' then
                        (case rollback call s2 of ((rolled_back, rb_msgs), s3) \<Rightarrow>
                           (Inr \<lparr> wo_function = fn, wo_committed = False, wo_rolled_back = rolled_back,
                                  wo_messages = messages' @ rb_msgs, wo_result = result \<rparr>, s3))
                      else
                        (Inr \<lparr> wo_function = fn, wo_committed = True, wo_rolled_back = False,
                               wo_messages = messages', wo_result = result \<rparr>, s2))))))"

section \<open>The request log\<close>

text \<open>The client with the requests it received appended to a log, each with its answer.\<close>

type_synonym log_entry = "rfc_call_request \<times> json rfc_result"

definition logged :: "'s rfc_caller \<Rightarrow> ('s \<times> log_entry list) rfc_caller" where
  "logged call rq ro st =
     (case call rq ro (fst st) of (r, s') \<Rightarrow> (r, (s', snd st @ [(rq, r)])))"

lemma logged_simp [simp]:
  "logged call rq ro (s, l) = (fst (call rq ro s), (snd (call rq ro s), l @ [(rq, fst (call rq ro s))]))"
  by (simp add: logged_def split: prod.splits)

text \<open>The wrapper does not change what the workflow returns or does to the client's state.\<close>

lemma rollback_logged:
  "rollback (logged call) (s, l) =
     (fst (rollback call s),
      (snd (rollback call s), l @ [(rollback_req, fst (call rollback_req False s))]))"
  by (auto simp: rollback_def Let_def split: prod.splits sum.splits)

lemma execute_logged:
  "fst (execute_write_bapi (logged call) rq ro (s, l)) = fst (execute_write_bapi call rq ro s)
   \<and> fst (snd (execute_write_bapi (logged call) rq ro (s, l))) = snd (execute_write_bapi call rq ro s)"
  by (auto simp: execute_write_bapi_def rollback_logged Let_def split: prod.splits sum.splits)

text \<open>The answer is a confirmed success: at least one return row and none that is a failure.\<close>

definition confirmed :: "json rfc_result \<Rightarrow> bool" where
  "confirmed r \<longleftrightarrow> (\<exists>v. r = Inr v \<and> parse_bapiret2 v \<noteq> [] \<and> \<not> has_failure (parse_bapiret2 v))"

definition clean :: "json rfc_result \<Rightarrow> bool" where
  "clean r \<longleftrightarrow> (\<exists>v. r = Inr v \<and> \<not> has_failure (parse_bapiret2 v))"

text \<open>
  The protocol as a predicate on the log and the result, one line per way the workflow can end.
\<close>

definition luw_protocol ::
  "rfc_call_request \<Rightarrow> log_entry list \<Rightarrow> write_outcome rfc_result \<Rightarrow> bool" where
  "luw_protocol rq log res \<longleftrightarrow>
     (\<exists>e. log = [(rq, Inl e)] \<and> res = Inl e) \<or>
     (\<exists>v r out. log = [(rq, Inr v), (rollback_req, r)] \<and> \<not> confirmed (Inr v) \<and>
        res = Inr out \<and> \<not> wo_committed out \<and> (wo_rolled_back out \<longleftrightarrow> clean r)) \<or>
     (\<exists>v e. log = [(rq, Inr v), (commit_req, Inl e)] \<and> confirmed (Inr v) \<and> res = Inl e) \<or>
     (\<exists>v w out. log = [(rq, Inr v), (commit_req, Inr w)] \<and> confirmed (Inr v) \<and> clean (Inr w) \<and>
        res = Inr out \<and> wo_committed out \<and> \<not> wo_rolled_back out) \<or>
     (\<exists>v w r out. log = [(rq, Inr v), (commit_req, Inr w), (rollback_req, r)] \<and> confirmed (Inr v) \<and>
        \<not> clean (Inr w) \<and> res = Inr out \<and> \<not> wo_committed out \<and> (wo_rolled_back out \<longleftrightarrow> clean r))"

lemma rollback_cases:
  obtains r ms s' where "call rollback_req False s = (r, s')" "rollback call s = ((clean r, ms), s')"
  by (cases "call rollback_req False s"; cases "fst (call rollback_req False s)")
     (auto simp: rollback_def Let_def clean_def)

lemma has_failure_append [simp]: "has_failure (xs @ ys) \<longleftrightarrow> has_failure xs \<or> has_failure ys"
  by (simp add: has_failure_def)

lemma execute_protocol:
  assumes "rq_function rq \<noteq> COMMIT_FN" "rq_function rq \<noteq> ROLLBACK_FN"
    "execute_write_bapi (logged call) rq False (s, []) = (res, s', log)"
  shows "luw_protocol rq log res"
proof -
  obtain r1 s1 where c1: "call rq False s = (r1, s1)" by (cases "call rq False s")
  show ?thesis
  proof (cases r1)
    case (Inl e)
    with assms c1 show ?thesis by (auto simp: execute_write_bapi_def luw_protocol_def)
  next
    case (Inr v)
    show ?thesis
    proof (cases "confirmed r1")
      case False
      obtain r ms s2 where "call rollback_req False s1 = (r, s2)" "rollback call s1 = ((clean r, ms), s2)"
        by (rule rollback_cases)
      with False Inr assms c1 show ?thesis
        by (auto simp: execute_write_bapi_def rollback_logged Let_def confirmed_def luw_protocol_def
            split: if_splits)
    next
      case True
      obtain r2 s2 where c2: "call commit_req False s1 = (r2, s2)" by (cases "call commit_req False s1")
      obtain r ms s3 where "call rollback_req False s2 = (r, s3)" "rollback call s2 = ((clean r, ms), s3)"
        by (rule rollback_cases)
      with True Inr assms c1 c2 show ?thesis
        by (cases r2) (auto simp: execute_write_bapi_def rollback_logged Let_def confirmed_def
            luw_protocol_def clean_def split: if_splits)
    qed
  qed
qed

section \<open>Properties\<close>

text \<open>
  C2. The write protocol. For any client and any business BAPI in write mode, the requests issued and
  their answers are one of five sequences: the BAPI alone (it failed in transport, its error is
  returned); BAPI and rollback, when the answer has no return row or a failing one; BAPI and commit,
  when the answer is confirmed, with \<open>committed\<close> reported if the commit's answer has no failing row
  (or the commit's own error returned); BAPI, commit and rollback, when the commit reports a failure.
  \<open>rolled_back\<close> is reported exactly when the rollback's answer came back without a failing row.
\<close>

theorem execute_write_bapi_protocol:
  assumes "rq_function rq \<noteq> COMMIT_FN" "rq_function rq \<noteq> ROLLBACK_FN"
    "execute_write_bapi (logged call) rq False (s, []) = (res, s', log)"
  shows "luw_protocol rq log res \<and> execute_write_bapi call rq False s = (res, s')"
  using execute_protocol [OF assms] execute_logged [of call rq False s "[]"] assms(3)
  by (metis fst_conv prod.exhaust_sel snd_conv)

definition demo_bapi :: rfc_call_request where
  "demo_bapi = \<lparr> rq_function = ''BAPI_PO_CREATE1'', rq_parameters = JNull, rq_timeout_ms = 0,
     rq_require_read_only_safe = True \<rparr>"

definition demo_caller :: "string \<Rightarrow> unit rfc_caller" where
  "demo_caller ty rq ro s =
     (Inr (JObject [(''MESSAGE'', JString ''done''),
        (''TYPE'', JString (if rq_function rq = ''BAPI_PO_CREATE1'' then ty else ''S''))]), s)"

theorem execute_write_bapi_protocol_witness:
  "\<exists>res s' log. execute_write_bapi (logged (demo_caller ''E'')) demo_bapi False ((), []) = (res, s', log)
     \<and> luw_protocol demo_bapi log res"
proof -
  obtain res s' log where
    e: "execute_write_bapi (logged (demo_caller ''E'')) demo_bapi False ((), []) = (res, s', log)"
    by (metis prod.exhaust)
  have "rq_function demo_bapi \<noteq> COMMIT_FN" "rq_function demo_bapi \<noteq> ROLLBACK_FN"
    by (simp_all add: demo_bapi_def COMMIT_FN_def ROLLBACK_FN_def)
  from execute_write_bapi_protocol [OF this e] e show ?thesis by blast
qed

text \<open>
  C1. Nothing is persisted without confirmation. Whatever the client, the mode and the request: a
  commit is issued only in write mode, only for a business BAPI, and only as the second request,
  after that BAPI's own answer had at least one return row and no failing one; \<open>committed\<close> is
  reported only if the commit was issued and answered without a failing row; and in read-only mode,
  or for a direct commit or rollback, the client receives no request at all and the call is refused.
\<close>

theorem write_commits_only_confirmed:
  assumes "execute_write_bapi (logged call) rq ro (s, []) = (res, s', log)"
  shows "(\<forall>i < length log. fst (log ! i) = commit_req \<longrightarrow>
        \<not> ro \<and> rq_function rq \<notin> {COMMIT_FN, ROLLBACK_FN} \<and> i = 1 \<and> fst (log ! 0) = rq \<and> confirmed (snd (log ! 0)))
    \<and> (\<forall>out. res = Inr out \<longrightarrow> wo_committed out \<longrightarrow>
        length log = 2 \<and> fst (log ! 1) = commit_req \<and> clean (snd (log ! 1)))
    \<and> (ro \<or> rq_function rq \<in> {COMMIT_FN, ROLLBACK_FN} \<longrightarrow> log = [] \<and> s' = s \<and> \<not> is_ok res)"
proof (cases "ro \<or> rq_function rq \<in> {COMMIT_FN, ROLLBACK_FN}")
  case True
  with assms show ?thesis by (auto simp: execute_write_bapi_def split: if_splits)
next
  case False
  then have f: "rq_function rq \<noteq> COMMIT_FN" "rq_function rq \<noteq> ROLLBACK_FN" "\<not> ro" by auto
  with assms have "luw_protocol rq log res" by (intro execute_protocol) auto
  moreover have "rq \<noteq> commit_req" "rollback_req \<noteq> commit_req"
    using f by (auto simp: commit_req_def rollback_req_def COMMIT_FN_def ROLLBACK_FN_def)
  ultimately show ?thesis
    using f unfolding luw_protocol_def by (auto simp: less_Suc_eq nth_Cons')
qed

theorem write_commits_only_confirmed_witness:
  "\<exists>res s' log. execute_write_bapi (logged (demo_caller ''S'')) demo_bapi False ((), []) = (res, s', log)
     \<and> length log = 2 \<and> fst (log ! 1) = commit_req
     \<and> confirmed (snd (log ! 0))"
proof -
  obtain res s' log where
    e: "execute_write_bapi (logged (demo_caller ''S'')) demo_bapi False ((), []) = (res, s', log)"
    by (metis prod.exhaust)
  have "map_sum (\<lambda>_. ()) wo_committed (fst (execute_write_bapi (logged (demo_caller ''S'')) demo_bapi False ((), [])))
      = Inr True" by code_simp
  with e obtain out where "res = Inr out" "wo_committed out" by (cases res) auto
  with write_commits_only_confirmed [OF e] have l: "length log = 2" "fst (log ! 1) = commit_req"
    by auto
  then have "confirmed (snd (log ! 0))"
    using write_commits_only_confirmed [OF e] by (metis one_less_numeral_iff semiring_norm(76))
  with e l show ?thesis by blast
qed

end
