(* ===== verification/Mcp_Core.thy ===== *)
theory Mcp_Core
  imports Json
begin

text \<open>
  \<open>crates/mcp-core/src\<close>: error codes and errors (\<open>error.rs\<close>), JSON-RPC messages (\<open>jsonrpc.rs\<close>) and
  the MCP protocol types (\<open>protocol.rs\<close>).

  Encoding and decoding of these types is derived by \<open>serde\<close>, which is not part of the repository;
  where the code decodes a value, the decoder is an argument that returns the value or the text of
  the error.
\<close>

section \<open>Errors\<close>

datatype mcp_error_code =
    ParseError | InvalidRequest | MethodNotFound | InvalidParams | InternalError
  | Mcp_Timeout | ToolBusy | UpstreamUnavailable
  | AccessDenied | Mcp_SchemaViolation | UnknownTool
  | PartialResult | StaleCache

fun mcp_code :: "mcp_error_code \<Rightarrow> int" where
  "mcp_code ParseError = -32700"
| "mcp_code InvalidRequest = -32600"
| "mcp_code MethodNotFound = -32601"
| "mcp_code InvalidParams = -32602"
| "mcp_code InternalError = -32603"
| "mcp_code Mcp_Timeout = -32100"
| "mcp_code ToolBusy = -32004"
| "mcp_code UpstreamUnavailable = -32101"
| "mcp_code AccessDenied = -32200"
| "mcp_code Mcp_SchemaViolation = -32201"
| "mcp_code UnknownTool = -32202"
| "mcp_code PartialResult = -32300"
| "mcp_code StaleCache = -32301"

datatype mcp_error =
    Json_Error string
  | Io_Error string
  | Protocol int string
  | TransportClosed
  | Transport_Error string
  | InvalidResponse string
  | Timed_Out
  | Other_Error string

type_synonym 'a mcp_result = "(mcp_error, 'a) result"

definition protocol_error :: "mcp_error_code \<Rightarrow> string \<Rightarrow> mcp_error" where
  "protocol_error c m = Protocol (mcp_code c) m"

fun mcp_error_display :: "mcp_error \<Rightarrow> string" where
  "mcp_error_display (Json_Error e) = ''JSON serialisation: '' @ e"
| "mcp_error_display (Io_Error e) = ''I/O: '' @ e"
| "mcp_error_display (Protocol c m) = ''MCP protocol error ('' @ show_int c @ ''): '' @ m"
| "mcp_error_display TransportClosed = ''transport closed''"
| "mcp_error_display (Transport_Error e) = ''transport error: '' @ e"
| "mcp_error_display (InvalidResponse e) = ''invalid response: '' @ e"
| "mcp_error_display Timed_Out = ''call timed out''"
| "mcp_error_display (Other_Error e) = e"

section \<open>JSON-RPC\<close>

definition JSONRPC_VERSION :: string where "JSONRPC_VERSION = ''2.0''"

datatype rpc_id = Id_Number int | Id_String string | Id_Null

record request =
  req_jsonrpc :: string
  req_id :: rpc_id
  req_method :: string
  req_params :: "json option"

record notification =
  not_jsonrpc :: string
  not_method :: string
  not_params :: "json option"

record error_object =
  eo_code :: int
  eo_message :: string
  eo_data :: "json option"

record response =
  resp_jsonrpc :: string
  resp_id :: rpc_id
  resp_result :: "json option"
  resp_error :: "error_object option"

datatype message = Msg_Request request | Msg_Response response | Msg_Notification notification

definition request_new :: "rpc_id \<Rightarrow> string \<Rightarrow> json option \<Rightarrow> request" where
  "request_new i m p = \<lparr> req_jsonrpc = JSONRPC_VERSION, req_id = i, req_method = m, req_params = p \<rparr>"

definition notification_new :: "string \<Rightarrow> json option \<Rightarrow> notification" where
  "notification_new m p = \<lparr> not_jsonrpc = JSONRPC_VERSION, not_method = m, not_params = p \<rparr>"

definition response_success :: "rpc_id \<Rightarrow> json \<Rightarrow> response" where
  "response_success i r =
     \<lparr> resp_jsonrpc = JSONRPC_VERSION, resp_id = i, resp_result = Some r, resp_error = None \<rparr>"

definition response_failure :: "rpc_id \<Rightarrow> error_object \<Rightarrow> response" where
  "response_failure i e =
     \<lparr> resp_jsonrpc = JSONRPC_VERSION, resp_id = i, resp_result = None, resp_error = Some e \<rparr>"

definition error_object_new :: "int \<Rightarrow> string \<Rightarrow> error_object" where
  "error_object_new c m = \<lparr> eo_code = c, eo_message = m, eo_data = None \<rparr>"

text \<open>
  \<open>Message::from_value\<close>: the presence of \<open>method\<close> and \<open>id\<close> selects the kind; the three decoders are
  arguments.
\<close>

record serde_message =
  de_request :: "json \<Rightarrow> (string, request) result"
  de_response :: "json \<Rightarrow> (string, response) result"
  de_notification :: "json \<Rightarrow> (string, notification) result"

definition map_ok :: "('a \<Rightarrow> 'b) \<Rightarrow> ('e, 'a) result \<Rightarrow> ('e, 'b) result" where
  "map_ok f r = (case r of Inl e \<Rightarrow> Inl e | Inr x \<Rightarrow> Inr (f x))"

definition from_value :: "serde_message \<Rightarrow> json \<Rightarrow> (string, message) result" where
  "from_value de v =
     (let has_method = (json_get ''method'' v \<noteq> None);
          has_id = (json_get ''id'' v \<noteq> None)
      in if has_method \<and> has_id then map_ok Msg_Request (de_request de v)
         else if has_method then map_ok Msg_Notification (de_notification de v)
         else map_ok Msg_Response (de_response de v))"

section \<open>Protocol types\<close>

definition PROTOCOL_VERSION :: string where "PROTOCOL_VERSION = ''2025-06-18''"

record implementation =
  impl_name :: string
  impl_version :: string

record roots_capability =
  rc_list_changed :: bool

record client_capabilities =
  cc_sampling :: "json option"
  cc_elicitation :: "json option"
  cc_roots :: "roots_capability option"
  cc_extra :: jmap

definition with_elicitation :: "client_capabilities \<Rightarrow> client_capabilities" where
  "with_elicitation c = c\<lparr>cc_elicitation := Some (JObject [])\<rparr>"

definition supports_elicitation :: "client_capabilities \<Rightarrow> bool" where
  "supports_elicitation c \<longleftrightarrow> cc_elicitation c \<noteq> None"

record tools_capability =
  tc_list_changed :: bool

record resources_capability =
  rsc_list_changed :: bool
  rsc_subscribe :: bool

record prompts_capability =
  pc_list_changed :: bool

record server_capabilities =
  sc_tools :: "tools_capability option"
  sc_resources :: "resources_capability option"
  sc_prompts :: "prompts_capability option"
  sc_logging :: "json option"
  sc_extra :: jmap

record initialize_params =
  ip_protocol_version :: string
  ip_capabilities :: client_capabilities
  ip_client_info :: implementation

record initialize_result =
  ir_protocol_version :: string
  ir_capabilities :: server_capabilities
  ir_server_info :: implementation
  ir_instructions :: "string option"

record tool_input_schema =
  tis_schema_type :: string
  tis_properties :: "json option"
  tis_required :: "string list"
  tis_extra :: jmap

definition schema_object :: tool_input_schema where
  "schema_object =
     \<lparr> tis_schema_type = ''object'', tis_properties = Some (JObject []), tis_required = [], tis_extra = [] \<rparr>"

record tool =
  tool_name :: string
  tool_description :: "string option"
  tool_input_schema_of :: tool_input_schema

record call_tool_params =
  ctp_name :: string
  ctp_arguments :: "json option"

record resource_contents =
  rcon_uri :: string
  rcon_mime_type :: "string option"
  rcon_text :: "string option"
  rcon_blob :: "string option"

definition resource_contents_text :: "string \<Rightarrow> string \<Rightarrow> resource_contents" where
  "resource_contents_text uri t =
     \<lparr> rcon_uri = uri, rcon_mime_type = Some ''text/plain'', rcon_text = Some t, rcon_blob = None \<rparr>"

datatype tool_content = Content_Text string | Content_Image string string | Content_Resource resource_contents

record call_tool_result =
  ctr_content :: "tool_content list"
  ctr_is_error :: bool

definition call_result_text :: "string \<Rightarrow> call_tool_result" where
  "call_result_text s = \<lparr> ctr_content = [Content_Text s], ctr_is_error = False \<rparr>"

definition call_result_error :: "string \<Rightarrow> call_tool_result" where
  "call_result_error s = \<lparr> ctr_content = [Content_Text s], ctr_is_error = True \<rparr>"

record resource =
  res_uri :: string
  res_name :: string
  res_description :: "string option"
  res_mime_type :: "string option"

record read_resource_params =
  rrp_uri :: string

record read_resource_result =
  rrr_contents :: "resource_contents list"

record prompt_argument =
  pa_name :: string
  pa_description :: "string option"
  pa_required :: bool

record prompt =
  pr_name :: string
  pr_description :: "string option"
  pr_arguments :: "prompt_argument list"

record get_prompt_params =
  gpp_name :: string
  gpp_arguments :: "json option"

datatype role = Role_User | Role_Assistant | Role_System

record prompt_message =
  pm_role :: role
  pm_content :: tool_content

record get_prompt_result =
  gpr_description :: "string option"
  gpr_messages :: "prompt_message list"

datatype log_level = Log_Debug | Log_Info | Log_Notice | Log_Warning | Log_Error | Log_Critical | Log_Alert | Log_Emergency

fun log_rank :: "log_level \<Rightarrow> nat" where
  "log_rank Log_Debug = 0"
| "log_rank Log_Info = 1"
| "log_rank Log_Notice = 2"
| "log_rank Log_Warning = 3"
| "log_rank Log_Error = 4"
| "log_rank Log_Critical = 5"
| "log_rank Log_Alert = 6"
| "log_rank Log_Emergency = 7"

record set_level_params =
  slp_level :: log_level

datatype progress_token = Token_String string | Token_Number int

record cancelled_params =
  cp_request_id :: int
  cp_reason :: "string option"

datatype completion_ref = Ref_Prompt string | Ref_Resource string

record completion_argument_ref =
  car_name :: string
  car_value :: string

record complete_params =
  cmp_reference :: completion_ref
  cmp_argument :: completion_argument_ref

record completion_data =
  cd_values :: "string list"
  cd_total :: "nat option"
  cd_has_more :: "bool option"

record elicitation_params =
  ep_message :: string
  ep_requested_schema :: json

datatype elicitation_action = Accept | Decline | Cancel

record elicitation_result =
  er_action :: elicitation_action
  er_content :: "json option"

section \<open>Facts\<close>

lemma mcp_code_inj: "mcp_code c = mcp_code d \<Longrightarrow> c = d"
  by (cases c; cases d) simp_all

lemma log_rank_inj: "log_rank a = log_rank b \<Longrightarrow> a = b"
  by (cases a; cases b) simp_all

text \<open>What \<open>from_value\<close> returns is determined by the two members alone.\<close>

lemma from_value_kind:
  "from_value de v = Inr msg \<Longrightarrow>
     (case msg of
        Msg_Request _ \<Rightarrow> json_get ''method'' v \<noteq> None \<and> json_get ''id'' v \<noteq> None
      | Msg_Notification _ \<Rightarrow> json_get ''method'' v \<noteq> None \<and> json_get ''id'' v = None
      | Msg_Response _ \<Rightarrow> json_get ''method'' v = None)"
  by (auto simp: from_value_def Let_def map_ok_def split: if_splits sum.splits)

end
