(* ===== verification/Mcp_Server.thy ===== *)
theory Mcp_Server
  imports Mcp_Core "HOL-Library.AList"
begin

text \<open>
  \<open>crates/mcp-server/src/registry.rs\<close> and \<open>server.rs\<close>: tool exposure, the builder, method dispatch
  and the two run loops.

  A handler is a state-passing function over a state \<open>'s\<close> of the world behind the server. A registry
  (\<open>HashMap\<close>) is an association list with distinct keys in some iteration order. Typed results are
  turned into JSON by \<open>to_value\<close>, an argument like the decoders.
\<close>

section \<open>Registry\<close>

type_synonym ('s, 'a, 'b) handler = "'a \<Rightarrow> 's \<Rightarrow> 'b mcp_result \<times> 's"

datatype tool_exposure = ReadOnly | Writes
datatype exposure_policy = ReadOnlyOnly | All_Tools

record 's tool_descriptor =
  td_tool :: tool
  td_handler :: "('s, json, call_tool_result) handler"
  td_exposure :: tool_exposure

record 's resource_descriptor =
  rd_resource :: resource
  rd_handler :: "('s, string, read_resource_result) handler"

record 's prompt_descriptor =
  pd_prompt :: prompt
  pd_handler :: "('s, json option, get_prompt_result) handler"

definition tool_descriptor_new ::
  "string \<Rightarrow> string option \<Rightarrow> tool_input_schema \<Rightarrow> ('s, json, call_tool_result) handler \<Rightarrow> 's tool_descriptor" where
  "tool_descriptor_new name descr schema h =
     \<lparr> td_tool = \<lparr> tool_name = name, tool_description = descr, tool_input_schema_of = schema \<rparr>,
       td_handler = h, td_exposure = ReadOnly \<rparr>"

definition with_writes :: "'s tool_descriptor \<Rightarrow> 's tool_descriptor" where
  "with_writes d = d\<lparr>td_exposure := Writes\<rparr>"

fun allows :: "exposure_policy \<Rightarrow> tool_exposure \<Rightarrow> bool" where
  "allows ReadOnlyOnly ReadOnly = True"
| "allows ReadOnlyOnly Writes = False"
| "allows All_Tools _ = True"

definition is_allowed_by :: "'s tool_descriptor \<Rightarrow> exposure_policy \<Rightarrow> bool" where
  "is_allowed_by d policy = allows policy (td_exposure d)"

section \<open>Builder\<close>

type_synonym completer = "string \<Rightarrow> string \<Rightarrow> string list"

record 's server_builder =
  sb_info :: implementation
  sb_instructions :: "string option"
  sb_tools :: "(string \<times> 's tool_descriptor) list"
  sb_resources :: "(string \<times> 's resource_descriptor) list"
  sb_prompts :: "(string \<times> 's prompt_descriptor) list"
  sb_exposure :: exposure_policy
  sb_completers :: "((string \<times> string) \<times> completer) list"
  sb_initial_log_level :: log_level

record 's server_context =
  cx_info :: implementation
  cx_instructions :: "string option"
  cx_tools :: "(string \<times> 's tool_descriptor) list"
  cx_resources :: "(string \<times> 's resource_descriptor) list"
  cx_prompts :: "(string \<times> 's prompt_descriptor) list"
  cx_exposure :: exposure_policy
  cx_completers :: "((string \<times> string) \<times> completer) list"
  cx_log_level :: nat

definition builder_new :: "string \<Rightarrow> string \<Rightarrow> 's server_builder" where
  "builder_new name version =
     \<lparr> sb_info = \<lparr> impl_name = name, impl_version = version \<rparr>, sb_instructions = None, sb_tools = [],
       sb_resources = [], sb_prompts = [], sb_exposure = ReadOnlyOnly, sb_completers = [],
       sb_initial_log_level = Log_Info \<rparr>"

definition builder_completer :: "string \<Rightarrow> string \<Rightarrow> completer \<Rightarrow> 's server_builder \<Rightarrow> 's server_builder" where
  "builder_completer p a f b = b\<lparr>sb_completers := AList.update (p, a) f (sb_completers b)\<rparr>"

definition builder_log_level :: "log_level \<Rightarrow> 's server_builder \<Rightarrow> 's server_builder" where
  "builder_log_level l b = b\<lparr>sb_initial_log_level := l\<rparr>"

definition builder_exposure :: "exposure_policy \<Rightarrow> 's server_builder \<Rightarrow> 's server_builder" where
  "builder_exposure p b = b\<lparr>sb_exposure := p\<rparr>"

definition builder_instructions :: "string \<Rightarrow> 's server_builder \<Rightarrow> 's server_builder" where
  "builder_instructions t b = b\<lparr>sb_instructions := Some t\<rparr>"

definition builder_tool :: "'s tool_descriptor \<Rightarrow> 's server_builder \<Rightarrow> 's server_builder" where
  "builder_tool d b = b\<lparr>sb_tools := AList.update (tool_name (td_tool d)) d (sb_tools b)\<rparr>"

definition builder_resource :: "'s resource_descriptor \<Rightarrow> 's server_builder \<Rightarrow> 's server_builder" where
  "builder_resource d b = b\<lparr>sb_resources := AList.update (res_uri (rd_resource d)) d (sb_resources b)\<rparr>"

definition builder_prompt :: "'s prompt_descriptor \<Rightarrow> 's server_builder \<Rightarrow> 's server_builder" where
  "builder_prompt d b = b\<lparr>sb_prompts := AList.update (pr_name (pd_prompt d)) d (sb_prompts b)\<rparr>"

definition builder_tool_fn ::
  "string \<Rightarrow> string \<Rightarrow> tool_input_schema \<Rightarrow> ('s, json, call_tool_result) handler
     \<Rightarrow> 's server_builder \<Rightarrow> 's server_builder" where
  "builder_tool_fn name descr schema h b = builder_tool (tool_descriptor_new name (Some descr) schema h) b"

definition build :: "'s server_builder \<Rightarrow> 's server_context" where
  "build b =
     (let policy = sb_exposure b in
      \<lparr> cx_info = sb_info b, cx_instructions = sb_instructions b,
        cx_tools = filter (\<lambda>(_, d). is_allowed_by d policy) (sb_tools b),
        cx_resources = sb_resources b, cx_prompts = sb_prompts b, cx_exposure = policy,
        cx_completers = sb_completers b, cx_log_level = log_rank (sb_initial_log_level b) \<rparr>)"

text \<open>\<open>logging_disabled\<close>: the variable \<open>SAP_AUTOMATE_DISABLE_LOGGING_CAP\<close> is set.\<close>

definition capabilities :: "bool \<Rightarrow> 's server_context \<Rightarrow> server_capabilities" where
  "capabilities logging_disabled cx =
     \<lparr> sc_tools = (if cx_tools cx \<noteq> [] then Some \<lparr> tc_list_changed = False \<rparr> else None),
       sc_resources = (if cx_resources cx \<noteq> [] then Some \<lparr> rsc_list_changed = False, rsc_subscribe = False \<rparr> else None),
       sc_prompts = (if cx_prompts cx \<noteq> [] then Some \<lparr> pc_list_changed = False \<rparr> else None),
       sc_logging = (if logging_disabled then None else Some (JObject [])),
       sc_extra = (if cx_completers cx = [] then [] else [(''completions'', JObject [])]) \<rparr>"

definition current_log_level :: "'s server_context \<Rightarrow> log_level" where
  "current_log_level cx =
     (let r = cx_log_level cx in
      if r = 0 then Log_Debug else if r = 1 then Log_Info else if r = 2 then Log_Notice
      else if r = 3 then Log_Warning else if r = 4 then Log_Error else if r = 5 then Log_Critical
      else if r = 6 then Log_Alert else Log_Emergency)"

section \<open>Dispatch\<close>

datatype typed_result =
    Res_Initialize initialize_result
  | Res_Tools "tool list"
  | Res_Call call_tool_result
  | Res_Resources "resource list"
  | Res_Read read_resource_result
  | Res_Prompts "prompt list"
  | Res_Prompt get_prompt_result
  | Res_Complete completion_data

record serde =
  de_initialize :: "json \<Rightarrow> (string, initialize_params) result"
  de_call_tool :: "json \<Rightarrow> (string, call_tool_params) result"
  de_read_resource :: "json \<Rightarrow> (string, read_resource_params) result"
  de_get_prompt :: "json \<Rightarrow> (string, get_prompt_params) result"
  de_set_level :: "json \<Rightarrow> (string, set_level_params) result"
  de_complete :: "json \<Rightarrow> (string, complete_params) result"
  to_value :: "typed_result \<Rightarrow> (string, json) result"

definition parse_params :: "(json \<Rightarrow> (string, 'a) result) \<Rightarrow> json option \<Rightarrow> 'a mcp_result" where
  "parse_params de params =
     (case de (case params of Some v \<Rightarrow> v | None \<Rightarrow> JObject []) of
        Inr x \<Rightarrow> Inr x
      | Inl e \<Rightarrow> Inl (protocol_error InvalidParams (''invalid params: '' @ e)))"

text \<open>\<open>Ok(serde_json::to_value(result)?)\<close>.\<close>

definition ok_value :: "serde \<Rightarrow> typed_result \<Rightarrow> json mcp_result" where
  "ok_value sd r = (case to_value sd r of Inr v \<Rightarrow> Inr v | Inl e \<Rightarrow> Inl (Json_Error e))"

definition select_protocol_version :: "string \<Rightarrow> string" where
  "select_protocol_version client = (if client = PROTOCOL_VERSION then client else PROTOCOL_VERSION)"

text \<open>\<open>values.len() as u32\<close> keeps the low 32 bits.\<close>

definition complete :: "string list \<Rightarrow> completion_data" where
  "complete vals =
     (let total = length vals mod 2 ^ 32; truncated = take 100 vals
      in \<lparr> cd_values = truncated, cd_total = Some total,
           cd_has_more = Some (length truncated mod 2 ^ 32 < total) \<rparr>)"

definition empty_completion :: completion_data where
  "empty_completion = \<lparr> cd_values = [], cd_total = None, cd_has_more = None \<rparr>"

text \<open>One definition per method; each returns the result, the context and the world's state.\<close>

type_synonym 's method_result = "json mcp_result \<times> 's server_context \<times> 's"

definition handle_initialize :: "serde \<Rightarrow> bool \<Rightarrow> request \<Rightarrow> 's server_context \<Rightarrow> 's \<Rightarrow> 's method_result" where
  "handle_initialize sd nolog req cx s =
     (bind_result (parse_params (de_initialize sd) (req_params req)) (\<lambda>params.
        ok_value sd (Res_Initialize
          \<lparr> ir_protocol_version = select_protocol_version (ip_protocol_version params),
            ir_capabilities = capabilities nolog cx, ir_server_info = cx_info cx,
            ir_instructions = cx_instructions cx \<rparr>)), cx, s)"

definition handle_tools_list :: "serde \<Rightarrow> 's server_context \<Rightarrow> 's \<Rightarrow> 's method_result" where
  "handle_tools_list sd cx s = (ok_value sd (Res_Tools (map (\<lambda>(_, d). td_tool d) (cx_tools cx))), cx, s)"

definition handle_tools_call :: "serde \<Rightarrow> request \<Rightarrow> 's server_context \<Rightarrow> 's \<Rightarrow> 's method_result" where
  "handle_tools_call sd req cx s =
     (case parse_params (de_call_tool sd) (req_params req) of
        Inl e \<Rightarrow> (Inl e, cx, s)
      | Inr params \<Rightarrow>
          (case map_of (cx_tools cx) (ctp_name params) of
             None \<Rightarrow> (Inl (protocol_error UnknownTool (''unknown tool '' @ sq (ctp_name params))), cx, s)
           | Some d \<Rightarrow>
               (let args = (case ctp_arguments params of Some a \<Rightarrow> a | None \<Rightarrow> JObject []) in
                case td_handler d args s of
                  (r, s') \<Rightarrow>
                    (ok_value sd (Res_Call (case r of
                       Inr result \<Rightarrow> result
                     | Inl e \<Rightarrow> \<lparr> ctr_content = [Content_Text (mcp_error_display e)], ctr_is_error = True \<rparr>)),
                     cx, s'))))"

definition handle_resources_list :: "serde \<Rightarrow> 's server_context \<Rightarrow> 's \<Rightarrow> 's method_result" where
  "handle_resources_list sd cx s =
     (ok_value sd (Res_Resources (map (\<lambda>(_, d). rd_resource d) (cx_resources cx))), cx, s)"

definition handle_resources_read :: "serde \<Rightarrow> request \<Rightarrow> 's server_context \<Rightarrow> 's \<Rightarrow> 's method_result" where
  "handle_resources_read sd req cx s =
     (case parse_params (de_read_resource sd) (req_params req) of
        Inl e \<Rightarrow> (Inl e, cx, s)
      | Inr params \<Rightarrow>
          (case map_of (cx_resources cx) (rrp_uri params) of
             None \<Rightarrow> (Inl (protocol_error InvalidParams (''unknown resource '' @ sq (rrp_uri params))), cx, s)
           | Some d \<Rightarrow>
               (case rd_handler d (rrp_uri params) s of
                  (Inl e, s') \<Rightarrow> (Inl e, cx, s')
                | (Inr r, s') \<Rightarrow> (ok_value sd (Res_Read r), cx, s'))))"

definition handle_prompts_list :: "serde \<Rightarrow> 's server_context \<Rightarrow> 's \<Rightarrow> 's method_result" where
  "handle_prompts_list sd cx s = (ok_value sd (Res_Prompts (map (\<lambda>(_, d). pd_prompt d) (cx_prompts cx))), cx, s)"

definition handle_prompts_get :: "serde \<Rightarrow> request \<Rightarrow> 's server_context \<Rightarrow> 's \<Rightarrow> 's method_result" where
  "handle_prompts_get sd req cx s =
     (case parse_params (de_get_prompt sd) (req_params req) of
        Inl e \<Rightarrow> (Inl e, cx, s)
      | Inr params \<Rightarrow>
          (case map_of (cx_prompts cx) (gpp_name params) of
             None \<Rightarrow> (Inl (protocol_error InvalidParams (''unknown prompt '' @ sq (gpp_name params))), cx, s)
           | Some d \<Rightarrow>
               (case pd_handler d (gpp_arguments params) s of
                  (Inl e, s') \<Rightarrow> (Inl e, cx, s')
                | (Inr r, s') \<Rightarrow> (ok_value sd (Res_Prompt r), cx, s'))))"

definition handle_set_level :: "serde \<Rightarrow> request \<Rightarrow> 's server_context \<Rightarrow> 's \<Rightarrow> 's method_result" where
  "handle_set_level sd req cx s =
     (case parse_params (de_set_level sd) (req_params req) of
        Inl e \<Rightarrow> (Inl e, cx, s)
      | Inr params \<Rightarrow> (Inr (JObject []), cx\<lparr>cx_log_level := log_rank (slp_level params)\<rparr>, s))"

definition handle_complete :: "serde \<Rightarrow> request \<Rightarrow> 's server_context \<Rightarrow> 's \<Rightarrow> 's method_result" where
  "handle_complete sd req cx s =
     (bind_result (parse_params (de_complete sd) (req_params req)) (\<lambda>params.
        (case cmp_reference params of
           Ref_Resource uri \<Rightarrow> ok_value sd (Res_Complete empty_completion)
         | Ref_Prompt name \<Rightarrow>
             (let typed = car_value (cmp_argument params);
                  vals = (case map_of (cx_completers cx) (name, car_name (cmp_argument params)) of
                            Some f \<Rightarrow> f typed typed
                          | None \<Rightarrow> [])
              in ok_value sd (Res_Complete (complete vals))))), cx, s)"

definition handle_method :: "serde \<Rightarrow> bool \<Rightarrow> request \<Rightarrow> 's server_context \<Rightarrow> 's \<Rightarrow> 's method_result" where
  "handle_method sd nolog req cx s =
     (let m = req_method req in
      if m = ''initialize'' then handle_initialize sd nolog req cx s
      else if m = ''ping'' then (Inr (JObject []), cx, s)
      else if m = ''tools/list'' then handle_tools_list sd cx s
      else if m = ''tools/call'' then handle_tools_call sd req cx s
      else if m = ''resources/list'' then handle_resources_list sd cx s
      else if m = ''resources/read'' then handle_resources_read sd req cx s
      else if m = ''prompts/list'' then handle_prompts_list sd cx s
      else if m = ''prompts/get'' then handle_prompts_get sd req cx s
      else if m = ''logging/setLevel'' then handle_set_level sd req cx s
      else if m = ''completion/complete'' then handle_complete sd req cx s
      else (Inl (protocol_error MethodNotFound (''method '' @ sq m @ '' not supported'')), cx, s))"

fun error_object_of :: "mcp_error \<Rightarrow> error_object" where
  "error_object_of (Protocol c m) = error_object_new c m"
| "error_object_of (Json_Error e) = error_object_new (mcp_code ParseError) e"
| "error_object_of (Io_Error e) = error_object_new (mcp_code InternalError) e"
| "error_object_of other = error_object_new (mcp_code InternalError) (mcp_error_display other)"

definition dispatch :: "serde \<Rightarrow> bool \<Rightarrow> request \<Rightarrow> 's server_context \<Rightarrow> 's \<Rightarrow> response \<times> 's server_context \<times> 's" where
  "dispatch sd nolog req cx s =
     (case handle_method sd nolog req cx s of
        (Inr result, cx', s') \<Rightarrow> (response_success (req_id req) result, cx', s')
      | (Inl e, cx', s') \<Rightarrow> (response_failure (req_id req) (error_object_of e), cx', s'))"

definition dispatch_message ::
  "serde \<Rightarrow> bool \<Rightarrow> message \<Rightarrow> 's server_context \<times> 's \<Rightarrow> message option \<times> 's server_context \<times> 's" where
  "dispatch_message sd nolog msg st =
     (case msg of
        Msg_Request req \<Rightarrow>
          (case dispatch sd nolog req (fst st) (snd st) of (r, cx', s') \<Rightarrow> (Some (Msg_Response r), cx', s'))
      | Msg_Notification n \<Rightarrow> (None, st)
      | Msg_Response r \<Rightarrow> (None, st))"

text \<open>
  \<open>run_single_actor\<close> on the messages received up to the end of the stream: the messages sent, in order.
\<close>

fun run_single_actor ::
  "serde \<Rightarrow> bool \<Rightarrow> message list \<Rightarrow> 's server_context \<times> 's \<Rightarrow> message list \<times> 's server_context \<times> 's" where
  "run_single_actor sd nolog [] st = ([], st)"
| "run_single_actor sd nolog (m # ms) st =
     (case dispatch_message sd nolog m st of (out, st') \<Rightarrow>
        (case run_single_actor sd nolog ms st' of (outs, st'') \<Rightarrow>
           ((case out of Some r \<Rightarrow> r # outs | None \<Rightarrow> outs), st'')))"

section \<open>End of the stdio loop\<close>

text \<open>
  \<open>run_stdio\<close> around the end of input. The outbound channel is alive while a sender is: the
  function's own \<open>outbound_tx\<close>, the clone inside \<open>elicit_handle\<close>, and one clone per spawned request
  task. The writer task ends when a send fails, which drops the receiver with what is queued, or when the
  channel is empty and no sender is left. The function drops \<open>outbound_tx\<close> after the loop, waits for the
  reader, then for the writer, and drops its locals, \<open>elicit_handle\<close> among them, when it returns.
\<close>

datatype stdio_phase = Reading | Await_Reader | Await_Writer | Returned

record stdio_run =
  phase :: stdio_phase
  main_tx :: bool
  handle_tx :: bool
  tasks :: nat
  queued :: nat
  writer_done :: bool
  send_failed :: bool

definition stdio_start :: stdio_run where
  "stdio_start = \<lparr> phase = Reading, main_tx = True, handle_tx = True, tasks = 0, queued = 0, writer_done = False,
     send_failed = False \<rparr>"

text \<open>A message put into the channel: nothing is queued once the receiver is gone.\<close>

definition enqueue :: "stdio_run \<Rightarrow> stdio_run" where
  "enqueue r = (if writer_done r then r else r\<lparr>queued := Suc (queued r)\<rparr>)"

inductive stdio_step :: "stdio_run \<Rightarrow> stdio_run \<Rightarrow> bool" where
  recv_request: "phase r = Reading \<Longrightarrow> stdio_step r (r\<lparr>tasks := Suc (tasks r)\<rparr>)"
| recv_other: "phase r = Reading \<Longrightarrow> stdio_step r r"
| end_of_input: "phase r = Reading \<Longrightarrow> stdio_step r (r\<lparr>phase := Await_Reader, main_tx := False\<rparr>)"
| reader_joined: "phase r = Await_Reader \<Longrightarrow> stdio_step r (r\<lparr>phase := Await_Writer\<rparr>)"
| elicit_sent: "0 < tasks r \<Longrightarrow> stdio_step r (enqueue r)"
| task_finished: "0 < tasks r \<Longrightarrow> stdio_step r (enqueue (r\<lparr>tasks := tasks r - 1\<rparr>))"
| writer_wrote: "0 < queued r \<Longrightarrow> \<not> writer_done r \<Longrightarrow> stdio_step r (r\<lparr>queued := queued r - 1\<rparr>)"
| writer_failed: "0 < queued r \<Longrightarrow> \<not> writer_done r \<Longrightarrow>
    stdio_step r (r\<lparr>queued := 0, writer_done := True, send_failed := True\<rparr>)"
| writer_stopped: "queued r = 0 \<Longrightarrow> \<not> main_tx r \<Longrightarrow> \<not> handle_tx r \<Longrightarrow> tasks r = 0 \<Longrightarrow> \<not> writer_done r \<Longrightarrow>
    stdio_step r (r\<lparr>writer_done := True\<rparr>)"
| writer_joined: "phase r = Await_Writer \<Longrightarrow> writer_done r \<Longrightarrow>
    stdio_step r (r\<lparr>phase := Returned, handle_tx := False\<rparr>)"

inductive_simps stdio_step_from: "stdio_step r r'"

text \<open>The handle lives until the function returns, so that the writer only ends by a failure.\<close>

definition stdio_inv :: "stdio_run \<Rightarrow> bool" where
  "stdio_inv r \<longleftrightarrow> (handle_tx r \<longleftrightarrow> phase r \<noteq> Returned) \<and> (writer_done r \<longleftrightarrow> send_failed r) \<and> (phase r = Returned \<longrightarrow> send_failed r)"

lemma stdio_inv_step: "stdio_step r r' \<Longrightarrow> stdio_inv r \<Longrightarrow> stdio_inv r'"
  by (induction rule: stdio_step.induct) (auto simp: stdio_inv_def enqueue_def)

lemma stdio_reachable_inv: "stdio_step\<^sup>*\<^sup>* stdio_start r \<Longrightarrow> stdio_inv r"
proof (induction rule: rtranclp_induct)
  case base
  show ?case by (simp add: stdio_inv_def stdio_start_def)
qed (rule stdio_inv_step)

lemma stdio_can_return:
  assumes "writer_done r"
  shows "\<exists>r'. stdio_step\<^sup>*\<^sup>* r r' \<and> phase r' = Returned"
proof -
  have joined: "\<exists>r'. stdio_step\<^sup>*\<^sup>* q r' \<and> phase r' = Returned" if "writer_done q" "phase q = Await_Writer" for q
    using writer_joined [OF that(2,1)] by (intro exI [of _ "q\<lparr>phase := Returned, handle_tx := False\<rparr>"]) auto
  have reader: "\<exists>r'. stdio_step\<^sup>*\<^sup>* q r' \<and> phase r' = Returned" if "writer_done q" "phase q = Await_Reader" for q
    using reader_joined [OF that(2)] joined [of "q\<lparr>phase := Await_Writer\<rparr>"] that(1)
    by (auto intro: converse_rtranclp_into_rtranclp)
  show ?thesis
  proof (cases "phase r")
    case Reading
    from end_of_input [OF this] reader [of "r\<lparr>phase := Await_Reader, main_tx := False\<rparr>"] assms show ?thesis
      by (auto intro: converse_rtranclp_into_rtranclp)
  qed (use assms joined reader in auto)
qed


section \<open>Facts\<close>

text \<open>The registry invariant, kept by every builder operation: one entry per name, under its own name.\<close>

definition builder_wf :: "'s server_builder \<Rightarrow> bool" where
  "builder_wf b \<longleftrightarrow> distinct (map fst (sb_tools b)) \<and> (\<forall>(n, d) \<in> set (sb_tools b). tool_name (td_tool d) = n)"

lemma builder_wf_new: "builder_wf (builder_new n v)"
  by (simp add: builder_wf_def builder_new_def)

lemma set_update_subset: "set (AList.update k v al) \<subseteq> insert (k, v) (set al)"
  by (induction al) auto

lemma builder_wf_tool: "builder_wf b \<Longrightarrow> builder_wf (builder_tool d b)"
  using set_update_subset [of "tool_name (td_tool d)" d "sb_tools b"]
  by (auto simp: builder_wf_def builder_tool_def distinct_update)

lemma builder_wf_others:
  "builder_wf (builder_completer p a f b) = builder_wf b" "builder_wf (builder_log_level l b) = builder_wf b"
  "builder_wf (builder_exposure e b) = builder_wf b" "builder_wf (builder_instructions t b) = builder_wf b"
  "builder_wf (builder_resource rd b) = builder_wf b" "builder_wf (builder_prompt pd b) = builder_wf b"
  by (simp_all add: builder_wf_def builder_completer_def builder_log_level_def builder_exposure_def
      builder_instructions_def builder_resource_def builder_prompt_def)

lemma builder_wf_tool_fn: "builder_wf b \<Longrightarrow> builder_wf (builder_tool_fn n d sch h b)"
  by (simp add: builder_tool_fn_def builder_wf_tool)

lemma map_of_filter:
  "distinct (map fst al) \<Longrightarrow>
     map_of (filter (\<lambda>(_, d). P d) al) k = (case map_of al k of Some d \<Rightarrow> if P d then Some d else None | None \<Rightarrow> None)"
  by (induction al) (auto simp: map_of_eq_None_iff split: option.splits)

lemma build_lookup:
  assumes "builder_wf b"
  shows "map_of (cx_tools (build b)) n =
    (case map_of (sb_tools b) n of
       Some d \<Rightarrow> if is_allowed_by d (sb_exposure b) then Some d else None | None \<Rightarrow> None)"
  using assms map_of_filter [of "sb_tools b" "\<lambda>d. is_allowed_by d (sb_exposure b)" n]
  by (simp add: build_def Let_def builder_wf_def)

lemma allows_read_only: "allows ReadOnlyOnly e \<longleftrightarrow> e = ReadOnly"
  by (cases e) simp_all

lemma handlers_keep_context [state_simps]:
  "fst (snd (handle_initialize sd nolog req cx s)) = cx" "fst (snd (handle_tools_list sd cx s)) = cx"
  "fst (snd (handle_tools_call sd req cx s)) = cx" "fst (snd (handle_resources_list sd cx s)) = cx"
  "fst (snd (handle_resources_read sd req cx s)) = cx" "fst (snd (handle_prompts_list sd cx s)) = cx"
  "fst (snd (handle_prompts_get sd req cx s)) = cx" "fst (snd (handle_complete sd req cx s)) = cx"
  by (simp_all add: handle_initialize_def handle_tools_list_def handle_tools_call_def
      handle_resources_list_def handle_resources_read_def handle_prompts_list_def handle_prompts_get_def
      handle_complete_def Let_def split: sum.splits option.splits prod.splits)

lemma dispatch_id: "resp_id (fst (dispatch sd nolog req cx s)) = req_id req"
  by (auto simp: dispatch_def response_success_def response_failure_def split: prod.splits sum.splits)

definition well_formed_response :: "response \<Rightarrow> bool" where
  "well_formed_response r \<longleftrightarrow> resp_jsonrpc r = ''2.0'' \<and> (resp_result r = None) \<noteq> (resp_error r = None)"

lemma dispatch_wf: "well_formed_response (fst (dispatch sd nolog req cx s))"
  by (auto simp: dispatch_def well_formed_response_def response_success_def response_failure_def
      JSONRPC_VERSION_def split: prod.splits sum.splits)

text \<open>The requests of a message sequence and the responses of another.\<close>

definition requests_of :: "message list \<Rightarrow> request list" where
  "requests_of ms = List.map_filter (\<lambda>m. case m of Msg_Request r \<Rightarrow> Some r | _ \<Rightarrow> None) ms"

definition responses_of :: "message list \<Rightarrow> response list" where
  "responses_of ms = List.map_filter (\<lambda>m. case m of Msg_Response r \<Rightarrow> Some r | _ \<Rightarrow> None) ms"

lemma run_answers:
  "fst (run_single_actor sd nolog ms st) = map Msg_Response (responses_of (fst (run_single_actor sd nolog ms st)))
   \<and> map resp_id (responses_of (fst (run_single_actor sd nolog ms st))) = map req_id (requests_of ms)
   \<and> (\<forall>r \<in> set (responses_of (fst (run_single_actor sd nolog ms st))). well_formed_response r)"
proof (induction ms arbitrary: st)
  case (Cons m ms)
  show ?case
  proof (cases m)
    case (Msg_Request req)
    obtain r cx' s' where d: "dispatch sd nolog req (fst st) (snd st) = (r, cx', s')" by (metis prod.exhaust)
    obtain outs st'' where o: "run_single_actor sd nolog ms (cx', s') = (outs, st'')" by (metis prod.exhaust)
    have out: "fst (run_single_actor sd nolog (m # ms) st) = Msg_Response r # outs"
      by (simp add: dispatch_message_def Msg_Request d o)
    have "resp_id r = req_id req" "well_formed_response r"
      using dispatch_id [of sd nolog req "fst st" "snd st"] dispatch_wf [of sd nolog req "fst st" "snd st"] d by simp_all
    with Cons.IH [of "(cx', s')"] o show ?thesis
      unfolding out by (simp add: Msg_Request requests_of_def responses_of_def map_filter_simps)
  next
    case (Msg_Response r)
    then show ?thesis
      using Cons.IH [of st]
      by (simp add: dispatch_message_def requests_of_def map_filter_simps split: prod.splits)
  next
    case (Msg_Notification n)
    then show ?thesis
      using Cons.IH [of st]
      by (simp add: dispatch_message_def requests_of_def map_filter_simps split: prod.splits)
  qed
qed (simp add: requests_of_def responses_of_def map_filter_simps)

section \<open>Properties\<close>

text \<open>
  C4. Under the default policy the tool surface is exactly the read-only tools, for listing and
  calling alike: \<open>tools/list\<close> is answered with those registered without \<open>with_writes\<close>, in the order of the registry; a call of any other
  name, a write tool's included, is answered with \<open>UnknownTool\<close> and runs no handler; a call of a
  listed tool runs its handler once with the given arguments, and a handler error becomes a result
  marked as an error.
\<close>

theorem read_only_tool_surface:
  assumes "builder_wf b" "sb_exposure b = ReadOnlyOnly" "de_call_tool sd params = Inr p"
    "req_method req = ''tools/call''" "req_params req = Some params" "req_method listing = ''tools/list''"
  shows "set (map snd (cx_tools (build b))) = {d \<in> set (map snd (sb_tools b)). td_exposure d = ReadOnly}
    \<and> handle_method sd nolog listing (build b) s =
       (ok_value sd (Res_Tools (map (td_tool \<circ> snd) (filter (\<lambda>nd. td_exposure (snd nd) = ReadOnly) (sb_tools b)))), build b, s)
    \<and> handle_method sd nolog req (build b) s =
       (case map_of (sb_tools b) (ctp_name p) of
          Some d \<Rightarrow>
            if td_exposure d = ReadOnly
            then (case td_handler d (case ctp_arguments p of Some a \<Rightarrow> a | None \<Rightarrow> JObject []) s of
                    (r, s') \<Rightarrow> (ok_value sd (Res_Call (case r of
                       Inr result \<Rightarrow> result | Inl e \<Rightarrow> call_result_error (mcp_error_display e))), build b, s'))
            else (Inl (protocol_error UnknownTool (''unknown tool '' @ sq (ctp_name p))), build b, s)
        | None \<Rightarrow> (Inl (protocol_error UnknownTool (''unknown tool '' @ sq (ctp_name p))), build b, s))"
proof (intro conjI)
  show "set (map snd (cx_tools (build b))) = {d \<in> set (map snd (sb_tools b)). td_exposure d = ReadOnly}"
    using assms(2) by (force simp: build_def is_allowed_by_def allows_read_only)
  show "handle_method sd nolog listing (build b) s =
      (ok_value sd (Res_Tools (map (td_tool \<circ> snd) (filter (\<lambda>nd. td_exposure (snd nd) = ReadOnly) (sb_tools b)))), build b, s)"
    using assms(2,6)
    by (simp add: handle_method_def handle_tools_list_def build_def Let_def is_allowed_by_def allows_read_only split_def o_def)
  have "parse_params (de_call_tool sd) (req_params req) = Inr p"
    using assms(3,5) by (simp add: parse_params_def)
  then show "handle_method sd nolog req (build b) s = (case map_of (sb_tools b) (ctp_name p) of
      Some d \<Rightarrow>
        if td_exposure d = ReadOnly
        then (case td_handler d (case ctp_arguments p of Some a \<Rightarrow> a | None \<Rightarrow> JObject []) s of
                (r, s') \<Rightarrow> (ok_value sd (Res_Call (case r of
                   Inr result \<Rightarrow> result | Inl e \<Rightarrow> call_result_error (mcp_error_display e))), build b, s'))
        else (Inl (protocol_error UnknownTool (''unknown tool '' @ sq (ctp_name p))), build b, s)
    | None \<Rightarrow> (Inl (protocol_error UnknownTool (''unknown tool '' @ sq (ctp_name p))), build b, s))"
    using assms(2,4) build_lookup [OF assms(1), of "ctp_name p"]
    unfolding call_result_error_def
    by (auto simp: handle_method_def handle_tools_call_def Let_def is_allowed_by_def allows_read_only
        split: option.splits)
qed

definition demo_serde :: serde where
  "demo_serde = \<lparr> de_initialize = (\<lambda>_. Inl ''no''),
     de_call_tool = (\<lambda>v. case as_str v of Some n \<Rightarrow> Inr \<lparr>ctp_name = n, ctp_arguments = None\<rparr> | None \<Rightarrow> Inl ''no''),
     de_read_resource = (\<lambda>_. Inl ''no''), de_get_prompt = (\<lambda>_. Inl ''no''),
     de_set_level = (\<lambda>_. Inr \<lparr>slp_level = Log_Alert\<rparr>), de_complete = (\<lambda>_. Inl ''no''), to_value = (\<lambda>_. Inr JNull) \<rparr>"

definition demo_tool :: "nat tool_descriptor" where
  "demo_tool = with_writes (tool_descriptor_new ''w'' None schema_object (\<lambda>a s. (Inr (call_result_text ''done''), Suc s)))"

theorem read_only_tool_surface_witness:
  "handle_method demo_serde True (request_new (Id_Number 2) ''tools/list'' None)
     (build (builder_tool demo_tool (builder_new ''s'' ''1''))) (0 :: nat) =
   (ok_value demo_serde (Res_Tools []), build (builder_tool demo_tool (builder_new ''s'' ''1'')), 0) \<and>
   handle_method demo_serde True (request_new (Id_Number 1) ''tools/call'' (Some (JString ''w'')))
     (build (builder_tool demo_tool (builder_new ''s'' ''1''))) (0 :: nat) =
   (Inl (protocol_error UnknownTool (''unknown tool '' @ sq ''w'')), build (builder_tool demo_tool (builder_new ''s'' ''1'')), 0)"
proof -
  have "builder_wf (builder_tool demo_tool (builder_new ''s'' ''1''))" by (simp add: builder_wf_tool builder_wf_new)
  from read_only_tool_surface [OF this, of demo_serde "JString ''w''" "\<lparr>ctp_name = ''w'', ctp_arguments = None\<rparr>"
      "request_new (Id_Number 1) ''tools/call'' (Some (JString ''w''))" "request_new (Id_Number 2) ''tools/list'' None" True 0]
  show ?thesis
    by (simp add: builder_tool_def builder_new_def demo_serde_def request_new_def demo_tool_def with_writes_def
        tool_descriptor_new_def)
qed

text \<open>
  Write tools do not interfere with a read-only server: two builders that agree on everything but
  their write tools give servers that answer every sequence of messages identically, with the same
  effects on the world.
\<close>

lemma write_tools_do_not_interfere:
  assumes "sb_exposure b = ReadOnlyOnly"
    "b' = b\<lparr>sb_tools := tools'\<rparr>"
    "filter (\<lambda>(_, d). td_exposure d = ReadOnly) tools' = filter (\<lambda>(_, d). td_exposure d = ReadOnly) (sb_tools b)"
  shows "run_single_actor sd nolog ms (build b', s) = run_single_actor sd nolog ms (build b, s)"
proof -
  have "filter (\<lambda>(_, d). is_allowed_by d ReadOnlyOnly) ts = filter (\<lambda>(_, d). td_exposure d = ReadOnly) ts" for ts :: "(string \<times> 'a tool_descriptor) list"
    by (simp add: is_allowed_by_def allows_read_only)
  with assms have "build b' = build b" by (simp add: build_def Let_def)
  then show ?thesis by simp
qed

text \<open>
  C31. The serial loop answers every request exactly once, in order, with the request's own id and
  nothing else: the messages sent are responses, their ids are the ids of the requests received in
  order, and each carries version 2.0 and either a result or an error, never both. Notifications
  and stray responses are not answered.
\<close>

theorem run_answers_each_request:
  "fst (run_single_actor sd nolog ms st) = map Msg_Response (responses_of (fst (run_single_actor sd nolog ms st)))
   \<and> map resp_id (responses_of (fst (run_single_actor sd nolog ms st))) = map req_id (requests_of ms)
   \<and> list_all well_formed_response (responses_of (fst (run_single_actor sd nolog ms st)))"
  using run_answers by (simp add: list_all_iff)

text \<open>
  Completion honours the cap: at most 100 values, a prefix of the candidates; for fewer than
  \<open>2^32\<close> candidates the total is their number and \<open>has_more\<close> says exactly whether some were left out.
\<close>

lemma completion_capped:
  assumes "length vals < 2 ^ 32"
  shows "prefix (cd_values (complete vals)) vals \<and> length (cd_values (complete vals)) \<le> 100
    \<and> cd_total (complete vals) = Some (length vals)
    \<and> cd_has_more (complete vals) = Some (cd_values (complete vals) \<noteq> vals)"
proof -
  have "min (length vals) 100 mod 2 ^ 32 = min (length vals) (100 :: nat)" by (simp add: min_def)
  moreover have "take 100 vals \<noteq> vals \<longleftrightarrow> 100 < length vals" by (metis length_take min_less_iff_conj not_less take_all_iff less_irrefl)
  ultimately show ?thesis
    using assms by (auto simp: complete_def Let_def take_is_prefix min_def)
qed

text \<open>
  The log level is what the last successful \<open>logging/setLevel\<close> chose, for every level, and the
  other methods leave it as it is.
\<close>

lemma log_level_follows_set_level:
  "(req_method req = ''logging/setLevel'' \<longrightarrow> parse_params (de_set_level sd) (req_params req) = Inr p \<longrightarrow>
      current_log_level (fst (snd (handle_method sd nolog req cx s))) = slp_level p) \<and>
   (req_method req \<noteq> ''logging/setLevel'' \<longrightarrow> fst (snd (handle_method sd nolog req cx s)) = cx)"
proof (intro conjI impI)
  assume "req_method req = ''logging/setLevel''" "parse_params (de_set_level sd) (req_params req) = Inr p"
  then show "current_log_level (fst (snd (handle_method sd nolog req cx s))) = slp_level p"
    by (cases "slp_level p") (simp_all add: handle_method_def handle_set_level_def current_log_level_def)
next
  assume "req_method req \<noteq> ''logging/setLevel''"
  then show "fst (snd (handle_method sd nolog req cx s)) = cx"
    by (simp add: handle_method_def Let_def handlers_keep_context)
qed

text \<open>
  C39. After the end of its input the stdio loop returns only if a send to the client has failed: the elicitation handle
  still owns a sender of the outbound channel, so a writer that could send everything waits for messages for ever and
  the function for the writer. Once a send has failed the function can always return; when everything was
  read, answered and sent, no step is left and it hangs.
\<close>

theorem stdio_returns_only_after_failure:
  assumes "stdio_step\<^sup>*\<^sup>* stdio_start r"
  shows "(phase r = Returned \<longrightarrow> send_failed r) \<and>
    (send_failed r \<longrightarrow> (\<exists>r'. stdio_step\<^sup>*\<^sup>* r r' \<and> phase r' = Returned)) \<and>
    (\<not> send_failed r \<and> phase r = Await_Writer \<and> tasks r = 0 \<and> queued r = 0 \<longrightarrow> (\<nexists>r'. stdio_step r r'))"
proof -
  have inv: "stdio_inv r" using stdio_reachable_inv [OF assms] .
  moreover have "\<exists>r'. stdio_step\<^sup>*\<^sup>* r r' \<and> phase r' = Returned" if "send_failed r"
    using stdio_can_return inv that by (simp add: stdio_inv_def)
  ultimately show ?thesis
    by (auto simp: stdio_inv_def stdio_step_from)
qed

theorem stdio_returns_only_after_failure_witness:
  "\<nexists>r'. stdio_step (stdio_start\<lparr>phase := Await_Writer, main_tx := False\<rparr>) r'"
proof -
  have "stdio_step stdio_start (stdio_start\<lparr>phase := Await_Reader, main_tx := False\<rparr>)"
    by (rule end_of_input) (simp add: stdio_start_def)
  moreover have "stdio_step (stdio_start\<lparr>phase := Await_Reader, main_tx := False\<rparr>) (stdio_start\<lparr>phase := Await_Writer, main_tx := False\<rparr>)"
    using reader_joined [of "stdio_start\<lparr>phase := Await_Reader, main_tx := False\<rparr>"] by (simp add: stdio_start_def)
  ultimately have "stdio_step\<^sup>*\<^sup>* stdio_start (stdio_start\<lparr>phase := Await_Writer, main_tx := False\<rparr>)"
    by (meson converse_rtranclp_into_rtranclp r_into_rtranclp)
  from stdio_returns_only_after_failure [OF this] show ?thesis by (simp add: stdio_start_def)
qed

end
