(* ===== verification/Waiters.thy ===== *)
theory Waiters
  imports Mcp_Core "HOL-Library.Word"
begin

text \<open>
  The table of waiters that both the elicitation handle of the server and the client keep:
  \<open>Mutex<HashMap<i64, oneshot::Sender<Response>>>\<close> beside an \<open>AtomicI64\<close>. A oneshot channel is an
  index into the list of channels; its state says where the sending half is: still with the task
  that made it, in the table, consumed by a send, or dropped. The operations are the ones the two
  components perform under the lock, one atomic step each. \<open>correlator\<close> is the interface: a machine
  whose steps change the table only by these operations routes every response to its own waiter.
\<close>

section \<open>The table\<close>

datatype slot = Slot_New | Slot_Open | Slot_Sent response | Slot_Dropped

record waiters =
  wt_next :: "64 word"
  wt_pending :: "(int \<times> nat) list"
  wt_slots :: "slot list"

definition wt_new :: "64 word \<Rightarrow> waiters" where
  "wt_new base = \<lparr> wt_next = base, wt_pending = [], wt_slots = [] \<rparr>"

text \<open>\<open>fetch_add(1)\<close>, which wraps, and \<open>oneshot::channel()\<close>.\<close>

definition wt_alloc :: "waiters \<Rightarrow> int \<times> nat \<times> waiters" where
  "wt_alloc w = (sint (wt_next w), length (wt_slots w),
     w\<lparr>wt_next := wt_next w + 1, wt_slots := wt_slots w @ [Slot_New]\<rparr>)"

text \<open>\<open>HashMap::remove\<close> with the sender dropped.\<close>

definition wt_drop :: "int \<Rightarrow> waiters \<Rightarrow> waiters" where
  "wt_drop k w = (case map_of (wt_pending w) k of
       None \<Rightarrow> w
     | Some ch \<Rightarrow> w\<lparr>wt_pending := filter (\<lambda>e. fst e \<noteq> k) (wt_pending w),
                    wt_slots := (wt_slots w)[ch := Slot_Dropped]\<rparr>)"

text \<open>\<open>HashMap::insert\<close>: a sender already stored under the key is dropped.\<close>

definition wt_register :: "int \<Rightarrow> nat \<Rightarrow> waiters \<Rightarrow> waiters" where
  "wt_register k ch w = (let w' = wt_drop k w in
     w'\<lparr>wt_pending := (k, ch) # wt_pending w', wt_slots := (wt_slots w')[ch := Slot_Open]\<rparr>)"

text \<open>\<open>HashMap::remove\<close> and \<open>send\<close> on the sender found.\<close>

definition wt_deliver :: "response \<Rightarrow> waiters \<Rightarrow> bool \<times> waiters" where
  "wt_deliver r w = (case resp_id r of
       Id_Number n \<Rightarrow>
         (case map_of (wt_pending w) n of
            None \<Rightarrow> (False, w)
          | Some ch \<Rightarrow> (True, w\<lparr>wt_pending := filter (\<lambda>e. fst e \<noteq> n) (wt_pending w),
                                 wt_slots := (wt_slots w)[ch := Slot_Sent r]\<rparr>))
     | _ \<Rightarrow> (False, w))"

text \<open>\<open>HashMap::clear\<close>: every sender in the table is dropped.\<close>

definition wt_clear :: "waiters \<Rightarrow> waiters" where
  "wt_clear w = w\<lparr>wt_pending := [],
     wt_slots := map (\<lambda>s. if s = Slot_Open then Slot_Dropped else s) (wt_slots w)\<rparr>"

section \<open>The machine of the table and its invariant\<close>

definition id_of :: "64 word \<Rightarrow> nat \<Rightarrow> int" where
  "id_of base ch = sint (base + of_nat ch)"

lemma id_of_inj:
  assumes "a < 2 ^ 64" "b < 2 ^ 64" "id_of base a = id_of base b"
  shows "a = b"
proof -
  have "of_nat a = (of_nat b :: 64 word)"
    using assms(3) unfolding id_of_def by (metis add_left_cancel signed_word_eqI)
  then show ?thesis
    using assms(1,2) by (simp add: of_nat_eq_iff word_of_nat_eq_iff take_bit_nat_eq_self)
qed

inductive waiters_step :: "64 word \<Rightarrow> waiters \<Rightarrow> waiters \<Rightarrow> bool" for base where
  ws_same: "waiters_step base w w"
| ws_alloc: "waiters_step base w (snd (snd (wt_alloc w)))"
| ws_register: "ch < length (wt_slots w) \<Longrightarrow> wt_slots w ! ch = Slot_New \<Longrightarrow>
    waiters_step base w (wt_register (id_of base ch) ch w)"
| ws_drop: "waiters_step base w (wt_drop k w)"
| ws_deliver: "waiters_step base w (snd (wt_deliver r w))"
| ws_clear: "waiters_step base w (wt_clear w)"

text \<open>
  The senders in the table are those of open channels, each under the id of its channel, and a
  response received on a channel carries the channel's id.
\<close>

definition wt_inv :: "64 word \<Rightarrow> waiters \<Rightarrow> bool" where
  "wt_inv base w \<longleftrightarrow>
     wt_next w = base + of_nat (length (wt_slots w)) \<and>
     distinct (map fst (wt_pending w)) \<and>
     (\<forall>k ch. (k, ch) \<in> set (wt_pending w) \<longleftrightarrow>
        k = id_of base ch \<and> ch < length (wt_slots w) \<and> wt_slots w ! ch = Slot_Open) \<and>
     (\<forall>ch r. ch < length (wt_slots w) \<longrightarrow> wt_slots w ! ch = Slot_Sent r \<longrightarrow> resp_id r = Id_Number (id_of base ch))"

lemma wt_inv_new [simp]: "wt_inv base (wt_new base)"
  by (simp add: wt_inv_def wt_new_def)

lemma wt_inv_lookup:
  assumes "wt_inv base w"
  shows "map_of (wt_pending w) k = Some ch \<longleftrightarrow>
    k = id_of base ch \<and> ch < length (wt_slots w) \<and> wt_slots w ! ch = Slot_Open"
  using assms by (simp add: wt_inv_def map_of_eq_Some_iff)

lemma wt_inv_lookup_id:
  assumes "wt_inv base w" "ch < length (wt_slots w)" "wt_slots w ! ch = Slot_Open"
  shows "map_of (wt_pending w) (id_of base ch) = Some ch"
  using assms wt_inv_lookup by blast

lemma wt_inv_consume:
  assumes inv: "wt_inv base w" and k: "map_of (wt_pending w) k = Some ch"
    and len: "length (wt_slots w) \<le> 2 ^ 64"
    and s: "s \<noteq> Slot_Open" "\<And>r. s = Slot_Sent r \<Longrightarrow> resp_id r = Id_Number k"
  shows "wt_inv base (w\<lparr>wt_pending := filter (\<lambda>e. fst e \<noteq> k) (wt_pending w), wt_slots := (wt_slots w)[ch := s]\<rparr>)"
proof -
  have kch: "k = id_of base ch" "ch < length (wt_slots w)" "wt_slots w ! ch = Slot_Open"
    using wt_inv_lookup [OF inv] k by auto
  have ne: "id_of base c \<noteq> id_of base ch" if "c < length (wt_slots w)" "c \<noteq> ch" for c
    using id_of_inj [of c ch base] that kch(2) len by auto
  show ?thesis
    using inv s kch ne
    by (auto simp: wt_inv_def distinct_map_filter nth_list_update)
qed

lemma wt_inv_drop:
  assumes "wt_inv base w" "length (wt_slots w) \<le> 2 ^ 64"
  shows "wt_inv base (wt_drop k w)"
  using assms wt_inv_consume [OF assms(1) _ assms(2), of k _ Slot_Dropped]
  by (auto simp: wt_drop_def split: option.splits)

lemma wt_inv_deliver:
  assumes "wt_inv base w" "length (wt_slots w) \<le> 2 ^ 64"
  shows "wt_inv base (snd (wt_deliver r w))"
  using assms wt_inv_consume [OF assms(1) _ assms(2), of _ _ "Slot_Sent r"]
  by (auto simp: wt_deliver_def split: option.splits rpc_id.splits)

text \<open>Registering a fresh id never displaces another waiter.\<close>

lemma wt_drop_fresh:
  assumes inv: "wt_inv base w" and len: "length (wt_slots w) \<le> 2 ^ 64"
    and ch: "ch < length (wt_slots w)" "wt_slots w ! ch \<noteq> Slot_Open"
  shows "wt_drop (id_of base ch) w = w"
proof -
  have "map_of (wt_pending w) (id_of base ch) \<noteq> Some c" for c
    using wt_inv_lookup [OF inv] id_of_inj [of ch c base] ch len by auto
  then show ?thesis by (simp add: wt_drop_def split: option.splits)
qed

lemma wt_inv_register:
  assumes inv: "wt_inv base w" and len: "length (wt_slots w) \<le> 2 ^ 64"
    and ch: "ch < length (wt_slots w)" "wt_slots w ! ch = Slot_New"
  shows "wt_inv base (wt_register (id_of base ch) ch w)"
proof -
  have "id_of base ch \<notin> fst ` set (wt_pending w)"
  proof
    assume "id_of base ch \<in> fst ` set (wt_pending w)"
    then obtain c where "map_of (wt_pending w) (id_of base ch) = Some c"
      by (metis domD dom_map_of_conv_image_fst)
    then show False
      using wt_inv_lookup [OF inv] id_of_inj [of ch c base] ch len by auto
  qed
  then show ?thesis
    using inv ch wt_drop_fresh [OF inv len ch(1)]
    by (auto simp: wt_register_def wt_inv_def Let_def nth_list_update)
qed

lemma wt_inv_alloc: "wt_inv base w \<Longrightarrow> wt_inv base (snd (snd (wt_alloc w)))"
  by (auto simp: wt_alloc_def wt_inv_def nth_append less_Suc_eq algebra_simps)

lemma wt_inv_clear: "wt_inv base w \<Longrightarrow> wt_inv base (wt_clear w)"
  by (auto simp: wt_clear_def wt_inv_def)

lemma length_wt_ops [simp]:
  "length (wt_slots (wt_drop k w)) = length (wt_slots w)"
  "length (wt_slots (wt_register k ch w)) = length (wt_slots w)"
  "length (wt_slots (snd (wt_deliver r w))) = length (wt_slots w)"
  "length (wt_slots (wt_clear w)) = length (wt_slots w)"
  "length (wt_slots (snd (snd (wt_alloc w)))) = Suc (length (wt_slots w))"
  by (auto simp: wt_drop_def wt_register_def wt_deliver_def wt_clear_def wt_alloc_def Let_def
      split: option.splits rpc_id.splits)

lemma waiters_step_mono: "waiters_step base w w' \<Longrightarrow> length (wt_slots w) \<le> length (wt_slots w')"
  by (induction rule: waiters_step.induct) simp_all

lemma waiters_step_inv:
  "waiters_step base w w' \<Longrightarrow> wt_inv base w \<Longrightarrow> length (wt_slots w') \<le> 2 ^ 64 \<Longrightarrow> wt_inv base w'"
  by (induction rule: waiters_step.induct)
     (auto intro: wt_inv_alloc wt_inv_register wt_inv_drop wt_inv_deliver wt_inv_clear)

text \<open>A channel that is not open is not affected by what happens to the table.\<close>

lemma wt_drop_nth:
  assumes "wt_inv base w" "ch < length (wt_slots w)" "wt_slots w ! ch \<noteq> Slot_Open"
  shows "wt_slots (wt_drop k w) ! ch = wt_slots w ! ch"
  using assms wt_inv_lookup [OF assms(1), of k ch]
  by (auto simp: wt_drop_def nth_list_update split: option.splits)

lemma wt_deliver_nth:
  assumes "wt_inv base w" "ch < length (wt_slots w)" "wt_slots w ! ch \<noteq> Slot_Open"
  shows "wt_slots (snd (wt_deliver r w)) ! ch = wt_slots w ! ch"
  using assms wt_inv_lookup [OF assms(1), of "case resp_id r of Id_Number n \<Rightarrow> n" ch]
  by (auto simp: wt_deliver_def nth_list_update split: option.splits rpc_id.splits)

lemma waiters_step_sent:
  assumes "waiters_step base w w'" "wt_inv base w" "ch < length (wt_slots w)" "wt_slots w ! ch = Slot_Sent r"
  shows "wt_slots w' ! ch = Slot_Sent r"
  using assms
proof (induction rule: waiters_step.induct)
  case (ws_register c w)
  then show ?case
    using wt_drop_nth [of base w ch "id_of base c"]
    by (auto simp: wt_register_def Let_def nth_list_update)
next
  case (ws_alloc w)
  then show ?case by (simp add: wt_alloc_def nth_append)
qed (simp_all add: wt_drop_nth wt_deliver_nth wt_clear_def)

lemma wt_deliver_slot:
  assumes "wt_inv base w" "ch < length (wt_slots w)"
  shows "wt_slots (snd (wt_deliver r w)) ! ch = wt_slots w ! ch \<or>
    wt_slots w ! ch = Slot_Open \<and> wt_slots (snd (wt_deliver r w)) ! ch = Slot_Sent r"
  using wt_inv_lookup [OF assms(1)] assms(2)
  by (auto simp: wt_deliver_def nth_list_update split: rpc_id.splits option.splits)

text \<open>Delivering to an open channel: the response is claimed, that channel and no other receives it.\<close>

lemma wt_deliver_open:
  assumes "wt_inv base w" "ch < length (wt_slots w)" "wt_slots w ! ch = Slot_Open"
    "resp_id r = Id_Number (id_of base ch)"
  shows "wt_deliver r w = (True, w\<lparr>wt_pending := filter (\<lambda>e. fst e \<noteq> id_of base ch) (wt_pending w),
                                  wt_slots := (wt_slots w)[ch := Slot_Sent r]\<rparr>)"
  using wt_inv_lookup_id [OF assms(1-3)] assms(4) by (simp add: wt_deliver_def)

lemma wt_deliver_unclaimed: "\<not> fst (wt_deliver r w) \<Longrightarrow> snd (wt_deliver r w) = w"
  by (simp add: wt_deliver_def split: rpc_id.splits option.splits)

lemma wt_register_nth:
  assumes "wt_inv base w" "length (wt_slots w) \<le> 2 ^ 64" "i < length (wt_slots w)" "wt_slots w ! i = Slot_New"
  shows "wt_slots (wt_register (id_of base i) i w) = (wt_slots w)[i := Slot_Open]"
  using wt_drop_fresh [OF assms(1-3)] assms(4) by (simp add: wt_register_def Let_def)

lemma wt_drop_own_nth:
  assumes "wt_inv base w" "length (wt_slots w) \<le> 2 ^ 64" "i < length (wt_slots w)" "j < length (wt_slots w)" "j \<noteq> i"
  shows "wt_slots (wt_drop (id_of base i) w) ! j = wt_slots w ! j"
proof -
  have "map_of (wt_pending w) (id_of base i) \<noteq> Some j"
    using wt_inv_lookup [OF assms(1)] id_of_inj [of i j] assms by auto
  then show ?thesis
    by (auto simp: wt_drop_def nth_list_update split: option.splits)
qed

lemma wt_drop_own:
  assumes "wt_inv base w" "i < length (wt_slots w)" "wt_slots w ! i \<notin> {Slot_New, Slot_Dropped}"
  shows "wt_slots (wt_drop (id_of base i) w) ! i \<noteq> Slot_New"
  using assms wt_inv_lookup_id [OF assms(1,2)] wt_drop_nth [OF assms(1,2)]
  by (cases "wt_slots w ! i = Slot_Open") (auto simp: wt_drop_def)

section \<open>The interface\<close>

locale correlator =
  fixes base :: "64 word"
    and table :: "'s \<Rightarrow> waiters"
    and ok :: "'s \<Rightarrow> bool"
    and init :: 's
    and step :: "'s \<Rightarrow> 's \<Rightarrow> bool"
  assumes init_table: "table init = wt_new base"
    and init_ok: "ok init"
    and step_mono: "step s s' \<Longrightarrow> length (wt_slots (table s)) \<le> length (wt_slots (table s'))"
    and step_table: "step s s' \<Longrightarrow> ok s \<Longrightarrow> waiters_step base (table s) (table s')"
    and step_ok: "step s s' \<Longrightarrow> ok s \<Longrightarrow> wt_inv base (table s) \<Longrightarrow> length (wt_slots (table s')) \<le> 2 ^ 64 \<Longrightarrow> ok s'"
begin

lemma reach_inv:
  "step\<^sup>*\<^sup>* init s \<Longrightarrow> length (wt_slots (table s)) \<le> 2 ^ 64 \<Longrightarrow> ok s \<and> wt_inv base (table s)"
proof (induction rule: rtranclp_induct)
  case base
  then show ?case by (simp add: init_ok init_table)
next
  case (step s s')
  then have "ok s \<and> wt_inv base (table s)"
    using step_mono by fastforce
  then show ?case
    using step step_ok step_table waiters_step_inv by blast
qed

lemma routed:
  assumes "step\<^sup>*\<^sup>* init s" "length (wt_slots (table s)) \<le> 2 ^ 64"
    "ch < length (wt_slots (table s))" "wt_slots (table s) ! ch = Slot_Sent r"
  shows "resp_id r = Id_Number (id_of base ch)"
  using reach_inv [OF assms(1,2)] assms(3,4) by (simp add: wt_inv_def)

lemma woken:
  assumes "step\<^sup>*\<^sup>* init s" "length (wt_slots (table s)) \<le> 2 ^ 64"
    "ch < length (wt_slots (table s))" "wt_slots (table s) ! ch = Slot_Open"
    "resp_id r = Id_Number (id_of base ch)"
  shows "fst (wt_deliver r (table s)) \<and> wt_slots (snd (wt_deliver r (table s))) = (wt_slots (table s))[ch := Slot_Sent r]"
  using wt_deliver_open [OF _ assms(3-5)] reach_inv [OF assms(1,2)] by simp

lemma unclaimed:
  assumes "step\<^sup>*\<^sup>* init s" "length (wt_slots (table s)) \<le> 2 ^ 64"
    "\<And>ch. ch < length (wt_slots (table s)) \<Longrightarrow> wt_slots (table s) ! ch = Slot_Open \<Longrightarrow>
       resp_id r \<noteq> Id_Number (id_of base ch)"
  shows "wt_deliver r (table s) = (False, table s)"
  using assms(3) wt_inv_lookup [of base "table s"] reach_inv [OF assms(1,2)]
  by (auto simp: wt_deliver_def split: rpc_id.splits option.splits)

end

end
