(* ===== verification/Elicit.thy ===== *)
theory Elicit
  imports Waiters
begin

text \<open>
  Server-side elicitation (\<open>mcp-server/src/elicit.rs\<close>). A call of \<open>elicit\<close> is a task that moves
  through the atomic steps of the function: allocating an id, registering the waiter, sending the
  request, and waiting; calls, deliveries and the closing of the outbound channel interleave freely.
  Encoding the parameters and decoding the result are arguments (\<open>ser\<close>, \<open>de\<close>).
\<close>

section \<open>The handle\<close>

record elicitation_handle =
  eh_outbound :: "message list"
  eh_open :: bool
  eh_table :: waiters
  eh_enabled :: bool

definition elicit_base :: "64 word" where "elicit_base = 1000000"

definition elicitation_new :: "bool \<Rightarrow> elicitation_handle" where
  "elicitation_new enabled =
     \<lparr> eh_outbound = [], eh_open = True, eh_table = wt_new elicit_base, eh_enabled = enabled \<rparr>"

definition elicitation_disabled :: elicitation_handle where
  "elicitation_disabled = (elicitation_new False)\<lparr>eh_open := False\<rparr>"

definition decline :: elicitation_result where
  "decline = \<lparr> er_action = Decline, er_content = None \<rparr>"

definition cancel :: elicitation_result where
  "cancel = \<lparr> er_action = Cancel, er_content = None \<rparr>"

definition parse_response :: "(json \<Rightarrow> (string, elicitation_result) result) \<Rightarrow> response \<Rightarrow> elicitation_result" where
  "parse_response de resp =
     (if resp_error resp \<noteq> None then cancel
      else case resp_result resp of
        None \<Rightarrow> cancel
      | Some v \<Rightarrow> (case de v of Inr r \<Rightarrow> r | Inl _ \<Rightarrow> cancel))"

definition deliver_response :: "response \<Rightarrow> elicitation_handle \<Rightarrow> bool \<times> elicitation_handle" where
  "deliver_response resp h =
     (let (claimed, w) = wt_deliver resp (eh_table h) in (claimed, h\<lparr>eh_table := w\<rparr>))"

section \<open>One call of \<open>elicit\<close>\<close>

datatype elicit_task =
    Task_Allocated int nat elicitation_params
  | Task_Registered int nat elicitation_params
  | Task_Unsent int
  | Task_Waiting int nat
  | Task_Done elicitation_result

definition elicit_enter :: "string \<Rightarrow> json \<Rightarrow> elicitation_handle \<Rightarrow> elicit_task \<times> elicitation_handle" where
  "elicit_enter message requested_schema h =
     (if \<not> eh_enabled h then (Task_Done decline, h)
      else let (i, ch, w) = wt_alloc (eh_table h)
           in (Task_Allocated i ch \<lparr> ep_message = message, ep_requested_schema = requested_schema \<rparr>,
               h\<lparr>eh_table := w\<rparr>))"

text \<open>The next atomic step of a task; \<open>None\<close> when it waits or has returned.\<close>

fun elicit_resume ::
  "(elicitation_params \<Rightarrow> (string, json) result) \<Rightarrow> (json \<Rightarrow> (string, elicitation_result) result)
    \<Rightarrow> elicit_task \<Rightarrow> elicitation_handle \<Rightarrow> (elicit_task \<times> elicitation_handle) option" where
  "elicit_resume ser de (Task_Allocated i ch p) h =
     Some (Task_Registered i ch p, h\<lparr>eh_table := wt_register i ch (eh_table h)\<rparr>)"
| "elicit_resume ser de (Task_Registered i ch p) h = Some
     (case ser p of
        Inl _ \<Rightarrow> (Task_Done cancel, h)
      | Inr v \<Rightarrow>
          if eh_open h
          then (Task_Waiting i ch, h\<lparr>eh_outbound := eh_outbound h @
                 [Msg_Request (request_new (Id_Number i) ''elicitation/create'' (Some v))]\<rparr>)
          else (Task_Unsent i, h))"
| "elicit_resume ser de (Task_Unsent i) h = Some (Task_Done cancel, h\<lparr>eh_table := wt_drop i (eh_table h)\<rparr>)"
| "elicit_resume ser de (Task_Waiting i ch) h =
     (case wt_slots (eh_table h) ! ch of
        Slot_Sent resp \<Rightarrow> Some (Task_Done (parse_response de resp), h)
      | Slot_Dropped \<Rightarrow> Some (Task_Done cancel, h)
      | _ \<Rightarrow> None)"
| "elicit_resume ser de (Task_Done r) h = None"

text \<open>\<open>elicit\<close> at the top level: without a surrounding tool context the answer is \<open>Decline\<close>.\<close>

definition elicit_in_context :: "elicitation_handle option \<Rightarrow> string \<Rightarrow> json \<Rightarrow> elicit_task \<times> elicitation_handle option" where
  "elicit_in_context ctx message requested_schema =
     (case ctx of
        None \<Rightarrow> (Task_Done decline, None)
      | Some h \<Rightarrow> (let (t, h') = elicit_enter message requested_schema h in (t, Some h')))"

definition object_schema :: "jmap \<Rightarrow> string list \<Rightarrow> json" where
  "object_schema properties required =
     JObject [(''properties'', JObject properties), (''required'', JArray (map JString required)),
              (''type'', JString ''object'')]"

section \<open>Interleaved calls\<close>

record elicit_run =
  run_handle :: elicitation_handle
  run_tasks :: "elicit_task list"

definition elicit_start :: "bool \<Rightarrow> elicit_run" where
  "elicit_start enabled = \<lparr> run_handle = elicitation_new enabled, run_tasks = [] \<rparr>"

inductive elicit_step ::
  "(elicitation_params \<Rightarrow> (string, json) result) \<Rightarrow> (json \<Rightarrow> (string, elicitation_result) result)
    \<Rightarrow> elicit_run \<Rightarrow> elicit_run \<Rightarrow> bool" for ser de where
  el_call: "elicit_enter message schema (run_handle s) = (t, h) \<Longrightarrow>
     elicit_step ser de s \<lparr> run_handle = h, run_tasks = run_tasks s @ [t] \<rparr>"
| el_resume: "i < length (run_tasks s) \<Longrightarrow> elicit_resume ser de (run_tasks s ! i) (run_handle s) = Some (t, h) \<Longrightarrow>
     elicit_step ser de s \<lparr> run_handle = h, run_tasks = (run_tasks s)[i := t] \<rparr>"
| el_deliver: "deliver_response resp (run_handle s) = (claimed, h) \<Longrightarrow>
     elicit_step ser de s (s\<lparr>run_handle := h\<rparr>)"
| el_close: "elicit_step ser de s (s\<lparr>run_handle := (run_handle s)\<lparr>eh_open := False\<rparr>\<rparr>)"

abbreviation run_table :: "elicit_run \<Rightarrow> waiters" where
  "run_table s \<equiv> eh_table (run_handle s)"

section \<open>Invariant of the tasks\<close>

text \<open>The task of the \<open>i\<close>-th call owns channel \<open>i\<close> and the id of that channel.\<close>

fun task_ok :: "(json \<Rightarrow> (string, elicitation_result) result) \<Rightarrow> nat \<Rightarrow> elicit_task \<Rightarrow> slot \<Rightarrow> bool" where
  "task_ok de i (Task_Allocated k ch p) sl \<longleftrightarrow> k = id_of elicit_base i \<and> ch = i \<and> sl = Slot_New"
| "task_ok de i (Task_Registered k ch p) sl \<longleftrightarrow> k = id_of elicit_base i \<and> ch = i \<and> sl \<notin> {Slot_New, Slot_Dropped}"
| "task_ok de i (Task_Unsent k) sl \<longleftrightarrow> k = id_of elicit_base i \<and> sl \<notin> {Slot_New, Slot_Dropped}"
| "task_ok de i (Task_Waiting k ch) sl \<longleftrightarrow> k = id_of elicit_base i \<and> ch = i \<and> sl \<notin> {Slot_New, Slot_Dropped}"
| "task_ok de i (Task_Done r) sl \<longleftrightarrow> sl \<noteq> Slot_New \<and>
     (er_action r = Accept \<longrightarrow> (\<exists>resp. sl = Slot_Sent resp \<and> r = parse_response de resp))"

definition elicit_ok :: "(json \<Rightarrow> (string, elicitation_result) result) \<Rightarrow> elicit_run \<Rightarrow> bool" where
  "elicit_ok de s \<longleftrightarrow>
     (if eh_enabled (run_handle s)
      then length (run_tasks s) = length (wt_slots (run_table s)) \<and>
           (\<forall>i < length (run_tasks s). task_ok de i (run_tasks s ! i) (wt_slots (run_table s) ! i))
      else wt_slots (run_table s) = [] \<and> wt_pending (run_table s) = [] \<and> set (run_tasks s) \<subseteq> {Task_Done decline})"

text \<open>A delivery turns at most open channels into answered ones.\<close>

lemma task_ok_deliver:
  assumes "wt_inv base w" "i < length (wt_slots w)" "task_ok de i t (wt_slots w ! i)"
  shows "task_ok de i t (wt_slots (snd (wt_deliver r w)) ! i)"
  using wt_deliver_slot [OF assms(1,2), of r] assms(3) by (cases t) auto

text \<open>Each step of a task keeps that task's clause and leaves the channels of the others alone.\<close>

lemma resume_ok:
  assumes inv: "wt_inv elicit_base (eh_table h)" and len: "length (wt_slots (eh_table h)) \<le> 2 ^ 64"
    and i: "i < length (wt_slots (eh_table h))" and ok: "task_ok de i t (wt_slots (eh_table h) ! i)"
    and res: "elicit_resume ser de t h = Some (t', h')"
  shows "task_ok de i t' (wt_slots (eh_table h') ! i) \<and> length (wt_slots (eh_table h')) = length (wt_slots (eh_table h))
    \<and> eh_enabled h' = eh_enabled h
    \<and> (\<forall>j < length (wt_slots (eh_table h)). j \<noteq> i \<longrightarrow> wt_slots (eh_table h') ! j = wt_slots (eh_table h) ! j)"
proof (cases t)
  case (Task_Allocated k ch p)
  then show ?thesis
    using ok res wt_register_nth [OF inv len i] i by (auto simp: cancel_def)
next
  case (Task_Registered k ch p)
  then show ?thesis
    using ok res by (auto simp: cancel_def split: sum.splits if_splits)
next
  case (Task_Unsent k)
  then show ?thesis
    using ok res wt_drop_own_nth [OF inv len i] wt_drop_own [OF inv i] by (auto simp: cancel_def)
next
  case (Task_Waiting k ch)
  then show ?thesis
    using ok res by (auto simp: cancel_def split: slot.splits)
next
  case (Task_Done r)
  then show ?thesis using res by simp
qed

lemma elicit_step_ok:
  assumes "elicit_step ser de s s'" "elicit_ok de s" "wt_inv elicit_base (run_table s)"
    "length (wt_slots (run_table s')) \<le> 2 ^ 64"
  shows "elicit_ok de s'"
  using assms
proof (induction rule: elicit_step.induct)
  case (el_call message schema s t h)
  then show ?case
    by (auto simp: elicit_ok_def elicit_enter_def wt_alloc_def nth_append less_Suc_eq wt_inv_def id_of_def
        split: if_splits prod.splits)
next
  case (el_resume i s t h)
  show ?case
  proof (cases "eh_enabled (run_handle s)")
    case True
    then have ok: "length (run_tasks s) = length (wt_slots (run_table s))"
      "task_ok de i (run_tasks s ! i) (wt_slots (run_table s) ! i)"
      "\<And>j. j < length (run_tasks s) \<Longrightarrow> task_ok de j (run_tasks s ! j) (wt_slots (run_table s) ! j)"
      using el_resume by (auto simp: elicit_ok_def)
    have "length (wt_slots (run_table s)) \<le> 2 ^ 64"
      using el_resume ok by (cases "run_tasks s ! i") (auto split: sum.splits if_splits slot.splits)
    from resume_ok [OF el_resume.prems(2) this _ ok(2) el_resume.hyps(2)] show ?thesis
      using True ok el_resume.hyps(1) by (auto simp: elicit_ok_def nth_list_update)
  next
    case False
    then have "run_tasks s ! i = Task_Done decline"
      using el_resume by (auto simp: elicit_ok_def subset_iff)
    then show ?thesis using el_resume by simp
  qed
next
  case (el_deliver resp s claimed h)
  then have "h = (run_handle s)\<lparr>eh_table := snd (wt_deliver resp (run_table s))\<rparr>"
    by (auto simp: deliver_response_def split: prod.splits)
  then show ?case
    using el_deliver by (auto simp: elicit_ok_def task_ok_deliver)
      (auto simp: wt_deliver_def split: rpc_id.splits)
next
  case (el_close s)
  then show ?case by (simp add: elicit_ok_def)
qed

lemma deliver_response_table:
  "deliver_response r h = (c, h') \<Longrightarrow>
     h' = h\<lparr>eh_table := snd (wt_deliver r (eh_table h))\<rparr> \<and> c = fst (wt_deliver r (eh_table h))"
  by (auto simp: deliver_response_def split: prod.splits)

lemma elicit_step_table:
  assumes "elicit_step ser de s s'" "elicit_ok de s"
  shows "waiters_step elicit_base (run_table s) (run_table s')"
  using assms
proof (induction rule: elicit_step.induct)
  case (el_call message schema s t h)
  then show ?case
    using ws_same ws_alloc by (auto simp: elicit_enter_def split: if_splits prod.splits) (metis snd_conv)
next
  case (el_resume i s t h)
  show ?case
  proof (cases "run_tasks s ! i")
    case (Task_Allocated k ch p)
    then have "Task_Allocated k ch p \<in> set (run_tasks s)"
      using el_resume.hyps(1) by (metis nth_mem)
    then have "eh_enabled (run_handle s)"
      using el_resume.prems by (auto simp: elicit_ok_def split: if_splits)
    then have "task_ok de i (run_tasks s ! i) (wt_slots (run_table s) ! i)" "i < length (wt_slots (run_table s))"
      using el_resume by (auto simp: elicit_ok_def)
    then show ?thesis
      using Task_Allocated el_resume.hyps(2) ws_register by auto
  qed (use el_resume in \<open>auto intro: ws_same ws_drop split: sum.splits if_splits slot.splits\<close>)
next
  case (el_deliver resp s claimed h)
  then show ?case
    using ws_deliver [of elicit_base "run_table s" resp] by (auto dest: deliver_response_table)
next
  case (el_close s)
  then show ?case by (simp add: ws_same)
qed

lemma elicit_step_mono:
  assumes "elicit_step ser de s s'"
  shows "length (wt_slots (run_table s)) \<le> length (wt_slots (run_table s'))"
  using assms
proof (induction rule: elicit_step.induct)
  case (el_resume i s t h)
  then show ?case
    by (cases "run_tasks s ! i") (auto split: sum.splits if_splits slot.splits)
next
  case (el_deliver resp s claimed h)
  then show ?case
    by (auto dest: deliver_response_table)
qed (auto simp: elicit_enter_def wt_alloc_def split: if_splits)

interpretation el: correlator elicit_base run_table "elicit_ok de" "elicit_start enabled" "elicit_step ser de"
  for de enabled ser
proof unfold_locales
  show "run_table (elicit_start enabled) = wt_new elicit_base"
    by (simp add: elicit_start_def elicitation_new_def)
  show "elicit_ok de (elicit_start enabled)"
    by (simp add: elicit_ok_def elicit_start_def elicitation_new_def wt_new_def)
qed (auto intro: elicit_step_mono elicit_step_table elicit_step_ok)

lemma enabled_constant:
  "(elicit_step ser de)\<^sup>*\<^sup>* s s' \<Longrightarrow> eh_enabled (run_handle s') = eh_enabled (run_handle s)"
proof (induction rule: rtranclp_induct)
  case (step s' s'')
  from step(2) have "eh_enabled (run_handle s'') = eh_enabled (run_handle s')"
  proof (induction rule: elicit_step.induct)
    case (el_resume i s t h)
    then show ?case
      by (cases "run_tasks s ! i") (auto split: sum.splits if_splits slot.splits)
  qed (auto simp: elicit_enter_def deliver_response_def split: if_splits prod.splits)
  then show ?case using step.IH by simp
qed simp

text \<open>Only calls allocate channels.\<close>

lemma slots_le_tasks:
  "(elicit_step ser de)\<^sup>*\<^sup>* (elicit_start enabled) s \<Longrightarrow> length (wt_slots (run_table s)) \<le> length (run_tasks s)"
proof (induction rule: rtranclp_induct)
  case base
  then show ?case by (simp add: elicit_start_def elicitation_new_def wt_new_def)
next
  case (step s s')
  from step(2,3) show ?case
  proof (induction rule: elicit_step.induct)
    case (el_resume i s t h)
    then show ?case
      by (cases "run_tasks s ! i") (auto split: sum.splits if_splits slot.splits)
  qed (auto simp: elicit_enter_def wt_alloc_def dest: deliver_response_table split: if_splits)
qed

lemma enabled_tasks:
  assumes "(elicit_step ser de)\<^sup>*\<^sup>* (elicit_start True) s" "length (run_tasks s) \<le> 2 ^ 64"
  shows "length (run_tasks s) = length (wt_slots (run_table s)) \<and> wt_inv elicit_base (run_table s) \<and>
    (\<forall>i < length (run_tasks s). task_ok de i (run_tasks s ! i) (wt_slots (run_table s) ! i))"
proof -
  have "eh_enabled (run_handle s)"
    using enabled_constant [OF assms(1)] by (simp add: elicit_start_def elicitation_new_def)
  moreover have "length (wt_slots (run_table s)) \<le> 2 ^ 64"
    using slots_le_tasks [OF assms(1)] assms(2) by linarith
  ultimately show ?thesis
    using el.reach_inv [OF assms(1)] by (simp add: elicit_ok_def)
qed

lemma disabled_run:
  "(elicit_step ser de)\<^sup>*\<^sup>* (elicit_start False) s \<Longrightarrow>
     \<not> eh_enabled (run_handle s) \<and> set (run_tasks s) \<subseteq> {Task_Done decline} \<and> eh_outbound (run_handle s) = []"
proof (induction rule: rtranclp_induct)
  case base
  then show ?case by (simp add: elicit_start_def elicitation_new_def)
next
  case (step s s')
  from step(2,3) show ?case
  proof (induction rule: elicit_step.induct)
    case (el_resume i s t h)
    then have "run_tasks s ! i = Task_Done decline"
      using nth_mem by blast
    then show ?case using el_resume by simp
  qed (auto simp: elicit_enter_def dest: deliver_response_table)
qed

text \<open>A run used as an example: one call, and the user's answer.\<close>

definition demo_ser :: "elicitation_params \<Rightarrow> (string, json) result" where
  "demo_ser p = Inr (JString (ep_message p))"

definition demo_accept :: elicitation_result where
  "demo_accept = \<lparr> er_action = Accept, er_content = Some JNull \<rparr>"

definition demo_de :: "json \<Rightarrow> (string, elicitation_result) result" where
  "demo_de v = (if v = JBool True then Inr demo_accept else Inl ''expected true'')"

definition demo_answer :: response where
  "demo_answer = response_success (Id_Number 1000000) (JBool True)"

definition demo_run :: elicit_run where
  "demo_run =
     \<lparr> run_handle = \<lparr> eh_outbound = [Msg_Request (request_new (Id_Number 1000000) ''elicitation/create'' (Some (JString ''ok?'')))],
         eh_open = True, eh_table = \<lparr> wt_next = 1000001, wt_pending = [(1000000, 0)], wt_slots = [Slot_Open] \<rparr>,
         eh_enabled = True \<rparr>,
       run_tasks = [Task_Waiting 1000000 0] \<rparr>"

definition demo_end :: elicit_run where
  "demo_end =
     \<lparr> run_handle = (run_handle demo_run)\<lparr>eh_table :=
         \<lparr> wt_next = 1000001, wt_pending = [], wt_slots = [Slot_Sent demo_answer] \<rparr>\<rparr>,
       run_tasks = [Task_Done demo_accept] \<rparr>"

lemma demo_run_reach: "(elicit_step demo_ser demo_de)\<^sup>*\<^sup>* (elicit_start True) demo_run"
proof -
  let ?step = "elicit_step demo_ser demo_de"
  define p where "p = \<lparr> ep_message = ''ok?'', ep_requested_schema = JNull \<rparr>"
  define h1 where "h1 = (elicitation_new True)\<lparr>eh_table := snd (snd (wt_alloc (wt_new elicit_base)))\<rparr>"
  define s1 where "s1 = \<lparr> run_handle = h1, run_tasks = [Task_Allocated 1000000 0 p] \<rparr>"
  define s2 where "s2 = \<lparr> run_handle = h1\<lparr>eh_table := wt_register 1000000 0 (eh_table h1)\<rparr>,
    run_tasks = [Task_Registered 1000000 0 p] \<rparr>"
  have "?step (elicit_start True) s1"
    using el_call [of "''ok?''" JNull "elicit_start True"]
    by (simp add: s1_def h1_def p_def elicit_start_def elicitation_new_def elicit_enter_def wt_alloc_def wt_new_def elicit_base_def)
  moreover have "?step s1 s2"
    using el_resume [of 0 s1] by (simp add: s1_def s2_def)
  moreover have "?step s2 demo_run"
    using el_resume [of 0 s2 demo_ser demo_de]
    by (simp add: s2_def demo_run_def h1_def p_def demo_ser_def elicitation_new_def wt_alloc_def wt_new_def
        wt_register_def wt_drop_def elicit_base_def)
  ultimately show ?thesis by (meson converse_rtranclp_into_rtranclp rtranclp.rtrancl_refl)
qed

lemma demo_end_reach: "(elicit_step demo_ser demo_de)\<^sup>*\<^sup>* (elicit_start True) demo_end"
proof -
  let ?step = "elicit_step demo_ser demo_de"
  define s where "s = demo_run\<lparr>run_handle := run_handle demo_end\<rparr>"
  have "?step demo_run s"
    using el_deliver [of demo_answer demo_run]
    by (simp add: s_def demo_end_def demo_run_def deliver_response_def wt_deliver_def demo_answer_def response_success_def)
  moreover have "?step s demo_end"
    using el_resume [of 0 s demo_ser demo_de]
    by (simp add: s_def demo_end_def demo_run_def demo_answer_def response_success_def parse_response_def demo_de_def)
  ultimately show ?thesis
    using demo_run_reach by (meson rtranclp.rtrancl_into_rtrancl)
qed

section \<open>Properties\<close>

text \<open>
  C14. Elicitation answers are not mixed up. In every state that interleaved calls, deliveries and a
  closing channel can reach (with at most \<open>2^64\<close> calls made), a call that waits for its answer has an
  id no other waiting call has; as long as no answer has come it stays blocked, and delivering a
  response with its id is claimed and makes exactly this call return the decoded answer; an answer
  that has come already carries its id. Its waiter is never lost.
\<close>

theorem elicitation_correlated:
  assumes "(elicit_step ser de)\<^sup>*\<^sup>* (elicit_start True) s" "length (run_tasks s) \<le> 2 ^ 64"
    and "i < length (run_tasks s)" "run_tasks s ! i = Task_Waiting k ch"
  shows "(\<forall>j < length (run_tasks s). \<forall>k' ch'. run_tasks s ! j = Task_Waiting k' ch' \<longrightarrow> j \<noteq> i \<longrightarrow> k' \<noteq> k) \<and>
    (case wt_slots (run_table s) ! ch of
       Slot_Open \<Rightarrow> elicit_resume ser de (Task_Waiting k ch) (run_handle s) = None \<and>
         (\<forall>r. resp_id r = Id_Number k \<longrightarrow>
            (case deliver_response r (run_handle s) of (claimed, h) \<Rightarrow>
               claimed \<and> elicit_resume ser de (Task_Waiting k ch) h = Some (Task_Done (parse_response de r), h) \<and>
               wt_slots (eh_table h) = (wt_slots (run_table s))[ch := Slot_Sent r]))
     | Slot_Sent r \<Rightarrow> resp_id r = Id_Number k \<and>
         elicit_resume ser de (Task_Waiting k ch) (run_handle s) = Some (Task_Done (parse_response de r), run_handle s)
     | _ \<Rightarrow> False)"
proof -
  note ok = enabled_tasks [OF assms(1,2)]
  have i: "k = id_of elicit_base i" "ch = i" "wt_slots (run_table s) ! i \<notin> {Slot_New, Slot_Dropped}"
    "i < length (wt_slots (run_table s))" "length (wt_slots (run_table s)) \<le> 2 ^ 64"
    using ok assms(2-4) by (metis task_ok.simps(4))+
  have "k' \<noteq> k" if "j < length (run_tasks s)" "run_tasks s ! j = Task_Waiting k' ch'" "j \<noteq> i" for j k' ch'
  proof -
    have "k' = id_of elicit_base j"
      using ok that(1,2) by (metis task_ok.simps(4))
    then show ?thesis
      using id_of_inj [of j i elicit_base] i that(1,3) assms(2,3) by auto
  qed
  moreover have "resp_id r = Id_Number k" if "wt_slots (run_table s) ! i = Slot_Sent r" for r
    using el.routed [OF assms(1) i(5,4) that] i(1) by simp
  moreover have "\<exists>h. deliver_response r (run_handle s) = (True, h) \<and>
      wt_slots (eh_table h) = (wt_slots (run_table s))[i := Slot_Sent r]"
    if "wt_slots (run_table s) ! i = Slot_Open" "resp_id r = Id_Number k" for r
    using el.woken [OF assms(1) i(5,4) that(1), of r] that(2) i(1)
    by (auto simp: deliver_response_def split: prod.splits)
  ultimately show ?thesis
    using i by (cases "wt_slots (run_table s) ! i") fastforce+
qed

theorem elicitation_correlated_witness:
  "case deliver_response demo_answer (run_handle demo_run) of (claimed, h) \<Rightarrow>
     claimed \<and> elicit_resume demo_ser demo_de (Task_Waiting 1000000 0) h = Some (Task_Done demo_accept, h)"
proof -
  have w: "run_tasks demo_run = [Task_Waiting 1000000 0]" "wt_slots (run_table demo_run) ! 0 = Slot_Open"
    "resp_id demo_answer = Id_Number 1000000" "parse_response demo_de demo_answer = demo_accept"
    by (simp_all add: demo_run_def demo_answer_def response_success_def parse_response_def demo_de_def)
  have "\<forall>r. resp_id r = Id_Number 1000000 \<longrightarrow> (case deliver_response r (run_handle demo_run) of (claimed, h) \<Rightarrow>
     claimed \<and> elicit_resume demo_ser demo_de (Task_Waiting 1000000 0) h = Some (Task_Done (parse_response demo_de r), h) \<and>
     wt_slots (eh_table h) = (wt_slots (run_table demo_run))[0 := Slot_Sent r])"
    using elicitation_correlated [OF demo_run_reach, of 0 1000000 0] w(2) by (simp add: w(1) del: elicit_resume.simps)
  from spec [OF this, of demo_answer] show ?thesis
    using w(3,4) by (auto simp del: elicit_resume.simps)
qed

text \<open>
  C6. Nothing is accepted on the user's behalf. In every reachable state, a call that returned
  \<open>Accept\<close> did so because a response with the id of exactly this call was delivered, without an error,
  whose result decodes to that answer; on a handle created disabled every call returns \<open>Decline\<close> and
  nothing is sent.
\<close>

theorem accept_only_from_client:
  "((elicit_step ser de)\<^sup>*\<^sup>* (elicit_start True) s \<longrightarrow> length (run_tasks s) \<le> 2 ^ 64 \<longrightarrow>
     i < length (run_tasks s) \<longrightarrow> run_tasks s ! i = Task_Done r \<longrightarrow> er_action r = Accept \<longrightarrow>
     (\<exists>resp v. wt_slots (run_table s) ! i = Slot_Sent resp \<and> resp_id resp = Id_Number (id_of elicit_base i) \<and>
        resp_error resp = None \<and> resp_result resp = Some v \<and> de v = Inr r)) \<and>
   ((elicit_step ser de)\<^sup>*\<^sup>* (elicit_start False) s \<longrightarrow>
      set (run_tasks s) \<subseteq> {Task_Done decline} \<and> eh_outbound (run_handle s) = [])"
proof (intro conjI impI)
  assume *: "(elicit_step ser de)\<^sup>*\<^sup>* (elicit_start True) s" "length (run_tasks s) \<le> 2 ^ 64"
    "i < length (run_tasks s)" "run_tasks s ! i = Task_Done r" "er_action r = Accept"
  obtain resp where resp: "wt_slots (run_table s) ! i = Slot_Sent resp" "r = parse_response de resp"
    using enabled_tasks [OF *(1,2)] *(3-5) by (metis task_ok.simps(5))
  have "resp_id resp = Id_Number (id_of elicit_base i)"
    using el.routed [OF *(1) _ _ resp(1)] enabled_tasks [OF *(1,2)] *(2,3) by simp
  then show "\<exists>resp v. wt_slots (run_table s) ! i = Slot_Sent resp \<and> resp_id resp = Id_Number (id_of elicit_base i) \<and>
        resp_error resp = None \<and> resp_result resp = Some v \<and> de v = Inr r"
    using resp *(5) by (auto simp: parse_response_def cancel_def split: if_splits option.splits sum.splits)
next
  assume *: "(elicit_step ser de)\<^sup>*\<^sup>* (elicit_start False) s"
  then show "set (run_tasks s) \<subseteq> {Task_Done decline}" "eh_outbound (run_handle s) = []"
    using disabled_run by auto
qed

theorem accept_only_from_client_witness:
  "\<exists>resp v. wt_slots (run_table demo_end) ! 0 = Slot_Sent resp \<and> resp_id resp = Id_Number 1000000 \<and>
     resp_error resp = None \<and> resp_result resp = Some v \<and> demo_de v = Inr demo_accept"
proof -
  have "id_of elicit_base 0 = 1000000"
    by (simp add: id_of_def elicit_base_def)
  then show ?thesis
    using accept_only_from_client [of demo_ser demo_de demo_end 0 demo_accept] demo_end_reach
    by (simp add: demo_end_def demo_accept_def)
qed

end
