(* ===== verification/Server_Tools.thy ===== *)
theory Server_Tools
  imports Audit_Log Transaction Mcp_Server Elicit
begin

text \<open>
  Tools of the SAP-Automate server (\<open>apps/sap-automate-server/src/tools.rs\<close>, \<open>main.rs\<close>): the RFC call
  with its transactional mode, the reading of BAPI return tables, the guarded reads, the three
  workflows that ask the user before acting, and the list of all registered tools with its policy.
  A handler works on the state of the SAP client and the audit log. Decoding of arguments and pretty
  printing are arguments (\<open>tool_serde\<close>), the time and the event id an entry is stamped with are a
  \<open>stamp\<close>, and the user behind the elicitation is a function \<open>ask\<close> on its own state.
\<close>

section \<open>Context\<close>

record tool_context =
  tc_read_only :: bool
  tc_sap_system :: "string option"
  tc_lowercase :: "string \<Rightarrow> string"

record 's tool_world =
  tw_sap :: 's
  tw_audit :: "audit_entry list"

record stamp =
  st_event_id :: string
  st_at_ms :: nat
  st_duration_ms :: nat

record po_args =
  po_vendor :: "string option"
  po_material :: "string option"
  po_quantity :: "number option"

record tool_serde =
  de_rfc_call :: "json \<Rightarrow> (string, rfc_call_request) result"
  de_read_table :: "json \<Rightarrow> (string, read_table_request) result"
  de_bulk :: "json \<Rightarrow> (string, string list \<times> string) result"
  de_parse_return :: "json \<Rightarrow> (string, json) result"
  de_po :: "json \<Rightarrow> (string, po_args) result"
  de_customer :: "json \<Rightarrow> (string, string option) result"
  de_transport :: "json \<Rightarrow> (string, string option) result"
  ser_messages :: "bapi_ret2_message list \<Rightarrow> json"
  ser_bulk :: "bulk_metadata \<Rightarrow> json"
  pretty :: "json \<Rightarrow> (string, string) result"

record 's sap_ops =
  so_call_rfc :: "'s rfc_caller"
  so_read_table :: "read_table_request \<Rightarrow> 's \<Rightarrow> table_row list rfc_result \<times> 's"
  so_bulk_rfc_metadata :: "string list \<Rightarrow> string \<Rightarrow> 's \<Rightarrow> bulk_metadata rfc_result \<times> 's"

definition nl :: string where "nl = [CHR 0x0A]"

section \<open>Helpers\<close>

definition record_write_audit ::
  "tool_context \<Rightarrow> stamp \<Rightarrow> string \<Rightarrow> json \<Rightarrow> audit_outcome \<Rightarrow> 's tool_world \<Rightarrow> 's tool_world" where
  "record_write_audit ctx stm tname arguments outcome w =
     w\<lparr>tw_audit := record_entry (tc_lowercase ctx)
        \<lparr> ae_event_id = st_event_id stm, ae_at_ms = st_at_ms stm, ae_session_id = None, ae_tenant = None,
          ae_actor = None, ae_tool = tname, ae_sap_system = tc_sap_system ctx,
          ae_arguments_redacted = arguments, ae_outcome = outcome, ae_duration_ms = st_duration_ms stm \<rparr>
        (tw_audit w)\<rparr>"

definition render_json :: "tool_serde \<Rightarrow> string \<Rightarrow> json \<Rightarrow> call_tool_result mcp_result" where
  "render_json se tname v =
     (case pretty se v of
        Inr s \<Rightarrow> Inr \<lparr> ctr_content = [Content_Text s], ctr_is_error = False \<rparr>
      | Inl e \<Rightarrow> Inr (call_result_error (tname @ '': serialise: '' @ e)))"

definition pretty_or_default :: "tool_serde \<Rightarrow> json \<Rightarrow> string" where
  "pretty_or_default se v = (case pretty se v of Inr s \<Rightarrow> s | Inl _ \<Rightarrow> [])"

text \<open>\<open>{:?}\<close> of an error code.\<close>

fun code_debug :: "rfc_error_code \<Rightarrow> string" where
  "code_debug Code_Timeout = ''Timeout''"
| "code_debug Code_DestinationDown = ''DestinationDown''"
| "code_debug Code_PoolExhausted = ''PoolExhausted''"
| "code_debug Code_CircuitOpen = ''CircuitOpen''"
| "code_debug Code_UpstreamRateLimit = ''UpstreamRateLimit''"
| "code_debug Code_AuthFailed = ''AuthFailed''"
| "code_debug Code_NotFound = ''NotFound''"
| "code_debug Code_TableBufferOverflow = ''TableBufferOverflow''"
| "code_debug Code_InvalidParameter = ''InvalidParameter''"
| "code_debug Code_PermissionDenied = ''PermissionDenied''"
| "code_debug Code_SchemaViolation = ''SchemaViolation''"
| "code_debug Code_Internal = ''Internal''"
| "code_debug Code_PartialBulk = ''PartialBulk''"
| "code_debug Code_StaleMetadata = ''StaleMetadata''"

definition rfc_failure :: "string \<Rightarrow> rfc_error \<Rightarrow> call_tool_result" where
  "rfc_failure tname e =
     call_result_error (tname @ '' ['' @ code_debug (error_code e) @ '']: '' @ rfc_error_display e)"

section \<open>RFC and table tools\<close>

definition outcome_of_write :: "write_outcome rfc_result \<Rightarrow> audit_outcome" where
  "outcome_of_write r =
     (case r of
        Inr outcome \<Rightarrow>
          if wo_committed outcome then Outcome_Ok (wo_function outcome @ '' committed'')
          else Outcome_Failed 0 (wo_function outcome @ '' not committed (rolled_back='' @
                 (if wo_rolled_back outcome then ''true'' else ''false'') @ '')'')
      | Inl e \<Rightarrow>
          (case e of
             PermissionDenied reason \<Rightarrow> Outcome_Denied reason
           | other \<Rightarrow> Outcome_Failed (as_i32 (error_code other)) (rfc_error_display other)))"

definition tool_rfc_call ::
  "tool_serde \<Rightarrow> 's sap_ops \<Rightarrow> tool_context \<Rightarrow> stamp \<Rightarrow> json \<Rightarrow> 's tool_world
    \<Rightarrow> call_tool_result mcp_result \<times> 's tool_world" where
  "tool_rfc_call se ops ctx stm arguments w =
     (let commit = (case json_get ''commit'' arguments of
                      Some v \<Rightarrow> (case as_bool v of Some b \<Rightarrow> b | None \<Rightarrow> False)
                    | None \<Rightarrow> False)
      in case de_rfc_call se arguments of
        Inl e \<Rightarrow> (Inr (call_result_error (''sap.rfc.call: invalid arguments: '' @ e)), w)
      | Inr request \<Rightarrow>
          if commit then
            (case execute_write_bapi (so_call_rfc ops) request (tc_read_only ctx) (tw_sap w) of
               (r, s') \<Rightarrow>
                 (case r of
                    Inr outcome \<Rightarrow>
                      render_json se ''sap.rfc.call'' (json_object
                        [(''function'', JString (wo_function outcome)), (''committed'', JBool (wo_committed outcome)),
                         (''rolled_back'', JBool (wo_rolled_back outcome)),
                         (''messages'', ser_messages se (wo_messages outcome)), (''result'', wo_result outcome)])
                  | Inl e \<Rightarrow> Inr (rfc_failure ''sap.rfc.call'' e),
                  record_write_audit ctx stm ''sap.rfc.call'' arguments (outcome_of_write r) (w\<lparr>tw_sap := s'\<rparr>)))
          else
            (case so_call_rfc ops request (tc_read_only ctx) (tw_sap w) of
               (Inr result, s') \<Rightarrow> (render_json se ''sap.rfc.call'' result, w\<lparr>tw_sap := s'\<rparr>)
             | (Inl e, s') \<Rightarrow> (Inr (rfc_failure ''sap.rfc.call'' e), w\<lparr>tw_sap := s'\<rparr>)))"

definition tool_table_read ::
  "tool_serde \<Rightarrow> 's sap_ops \<Rightarrow> json \<Rightarrow> 's tool_world \<Rightarrow> call_tool_result mcp_result \<times> 's tool_world" where
  "tool_table_read se ops arguments w =
     (case de_read_table se arguments of
        Inl e \<Rightarrow> (Inr (call_result_error (''sap.table.read: invalid arguments: '' @ e)), w)
      | Inr request \<Rightarrow>
          (case so_read_table ops request (tw_sap w) of
             (Inr rows, s') \<Rightarrow>
               (render_json se ''sap.table.read'' (json_object
                  [(''rows'', JArray (map JObject rows)), (''count'', JNumber (NInt (int (length rows))))]),
                w\<lparr>tw_sap := s'\<rparr>)
           | (Inl e, s') \<Rightarrow> (Inr (rfc_failure ''sap.table.read'' e), w\<lparr>tw_sap := s'\<rparr>)))"

definition tool_rfc_bulk_metadata ::
  "tool_serde \<Rightarrow> 's sap_ops \<Rightarrow> json \<Rightarrow> 's tool_world \<Rightarrow> call_tool_result mcp_result \<times> 's tool_world" where
  "tool_rfc_bulk_metadata se ops arguments w =
     (case de_bulk se arguments of
        Inl e \<Rightarrow> (Inr (call_result_error (''sap.rfc.bulk_metadata: invalid arguments: '' @ e)), w)
      | Inr (functions, language) \<Rightarrow>
          if functions = [] \<or> length functions > 100
          then (Inr (call_result_error ''sap.rfc.bulk_metadata: provide 1..=100 function names''), w)
          else (case so_bulk_rfc_metadata ops functions language (tw_sap w) of
             (Inr out, s') \<Rightarrow> (render_json se ''sap.rfc.bulk_metadata'' (ser_bulk se out), w\<lparr>tw_sap := s'\<rparr>)
           | (Inl e, s') \<Rightarrow>
               (Inr (call_result_error (''sap.rfc.bulk_metadata: '' @ rfc_error_display e)), w\<lparr>tw_sap := s'\<rparr>)))"

definition guidance_failure :: string where
  "guidance_failure = ''At least one message has severity E (error) or A (abort). DO NOT call BAPI_TRANSACTION_COMMIT. Call BAPI_TRANSACTION_ROLLBACK if you've already started writes.''"

definition guidance_empty :: string where
  "guidance_empty = ''No BAPIRET2 messages found in the supplied value. Either pass the full BAPI result or rerun the BAPI to capture the RETURN table.''"

definition guidance_safe :: string where
  "guidance_safe = ''All BAPIRET2 messages are non-failure (S/W/I). Safe to call BAPI_TRANSACTION_COMMIT.''"

definition bapi_guidance :: "bapi_ret2_message list \<Rightarrow> string" where
  "bapi_guidance msgs =
     (if list_ex is_failure msgs then guidance_failure else if msgs = [] then guidance_empty else guidance_safe)"

definition tool_bapi_parse_return :: "tool_serde \<Rightarrow> json \<Rightarrow> call_tool_result mcp_result" where
  "tool_bapi_parse_return se arguments =
     (case de_parse_return se arguments of
        Inl e \<Rightarrow> Inr (call_result_error (''sap.bapi.parse_return: invalid arguments: '' @ e))
      | Inr v \<Rightarrow>
          (let msgs = parse_bapiret2 v in
           render_json se ''sap.bapi.parse_return'' (json_object
             [(''messages'', ser_messages se msgs), (''any_failure'', JBool (list_ex is_failure msgs)),
              (''guidance'', JString (bapi_guidance msgs))])))"

section \<open>Workflow tools\<close>

type_synonym 'u asker = "string \<Rightarrow> json \<Rightarrow> 'u \<Rightarrow> elicitation_result \<times> 'u"

text \<open>One property of a form: its type and further members.\<close>

definition form_field :: "string \<Rightarrow> (string \<times> json) list \<Rightarrow> json" where
  "form_field ty extra = json_object ((''type'', JString ty) # extra)"

definition described :: "string \<Rightarrow> string \<times> json" where
  "described d = (''description'', JString d)"

definition enum_of :: "string list \<Rightarrow> string \<times> json" where
  "enum_of vs = (''enum'', JArray (map JString vs))"

definition default_to :: "json \<Rightarrow> string \<times> json" where
  "default_to v = (''default'', v)"

definition content_or :: "json \<Rightarrow> elicitation_result \<Rightarrow> json" where
  "content_or d r = (case er_content r of Some v \<Rightarrow> v | None \<Rightarrow> d)"

definition str_member :: "string \<Rightarrow> string \<Rightarrow> json \<Rightarrow> string" where
  "str_member k d v = (case json_get k v of Some x \<Rightarrow> (case as_str x of Some s \<Rightarrow> s | None \<Rightarrow> d) | None \<Rightarrow> d)"

definition bool_member :: "string \<Rightarrow> json \<Rightarrow> bool" where
  "bool_member k v = (case json_get k v of Some x \<Rightarrow> (case as_bool x of Some b \<Rightarrow> b | None \<Rightarrow> False) | None \<Rightarrow> False)"

definition show_bool :: "bool \<Rightarrow> string" where
  "show_bool b = (if b then ''true'' else ''false'')"

definition str_or_empty :: "string option \<Rightarrow> json" where
  "str_or_empty s = JString (case s of Some x \<Rightarrow> x | None \<Rightarrow> [])"

subsection \<open>Purchase order\<close>

definition PO_TOOL :: string where "PO_TOOL = ''sap.workflow.create_purchase_order''"

definition po_schema :: "po_args \<Rightarrow> json" where
  "po_schema args = object_schema
     (amap_of
        [(''vendor'', form_field ''string'' [described (''Vendor (LIFNR), e.g. '' @ sq ''V-100100''), default_to (str_or_empty (po_vendor args))]),
         (''material'', form_field ''string'' [described ''Material (MATNR)'', default_to (str_or_empty (po_material args))]),
         (''quantity'', form_field ''number'' [described ''Order quantity'',
            default_to (JNumber (case po_quantity args of Some q \<Rightarrow> q | None \<Rightarrow> NFloat ''0.0''))]),
         (''cost_centre'', form_field ''string'' [described (''Cost centre (KOSTL), e.g. '' @ sq ''1000'')]),
         (''company_code'', form_field ''string'' [described ''Company code (BUKRS)'',
            enum_of [''1000'', ''2000'', ''3000''], default_to (JString ''1000'')]),
         (''currency'', form_field ''string'' [described ''Document currency'',
            enum_of [''USD'', ''EUR'', ''GBP'', ''JPY'', ''SGD''], default_to (JString ''USD'')]),
         (''delivery_date'', form_field ''string'' [described ''Requested delivery date (YYYY-MM-DD)''])])
     [''vendor'', ''material'', ''quantity'', ''cost_centre'', ''company_code'', ''delivery_date'']"

definition po_question :: string where
  "po_question = ''Confirm purchase-order details before posting. Cost centre + delivery date are mandatory.''"

definition workflow_create_purchase_order ::
  "tool_serde \<Rightarrow> 'u asker \<Rightarrow> tool_context \<Rightarrow> stamp \<Rightarrow> json \<Rightarrow> 'u \<times> 's tool_world
    \<Rightarrow> call_tool_result mcp_result \<times> 'u \<times> 's tool_world" where
  "workflow_create_purchase_order se ask ctx stm arguments uw =
     (case uw of (u, w) \<Rightarrow>
      (case de_po se arguments of
         Inl e \<Rightarrow> (Inr (call_result_error (PO_TOOL @ '': '' @ e)), u, w)
       | Inr args \<Rightarrow>
           (case ask po_question (po_schema args) u of
              (answer, u') \<Rightarrow>
                (case er_action answer of
                   Accept \<Rightarrow>
                     (Inr (call_result_text (''Purchase order confirmed (mock execution; no real BAPI fired):'' @ nl @ nl @
                        pretty_or_default se (content_or (JObject []) answer) @ nl @ nl @
                        ''Next step (when enable-writes): sap.rfc.call BAPI_PO_CREATE1.'')), u',
                      record_write_audit ctx stm PO_TOOL arguments (Outcome_Ok ''purchase order confirmed (mock)'') w)
                 | Decline \<Rightarrow>
                     (Inr (call_result_text ''Purchase order cancelled by user (declined elicitation).''), u',
                      record_write_audit ctx stm PO_TOOL arguments (Outcome_Declined ''user declined elicitation'') w)
                 | Cancel \<Rightarrow>
                     (Inr (call_result_error ''Purchase order cancelled (user aborted or elicitation unavailable). No action taken.''), u',
                      record_write_audit ctx stm PO_TOOL arguments
                        (Outcome_Denied ''user aborted or elicitation unavailable'') w)))))"

subsection \<open>Customer master\<close>

definition CUSTOMER_TOOL :: string where "CUSTOMER_TOOL = ''sap.workflow.maintain_customer_master''"

definition pick_schema :: "string option \<Rightarrow> json" where
  "pick_schema customer = object_schema
     (amap_of
        [(''customer'', form_field ''string'' [described ''Customer (KUNNR)'', default_to (str_or_empty customer)]),
         (''scope'', form_field ''string'' [described ''Which view to maintain'',
            enum_of [''general_data'', ''company_code_data'', ''sales_area_data''], default_to (JString ''general_data'')]),
         (''company_code'', form_field ''string'' [described ''Company code (only required for company_code_data scope)''])])
     [''customer'', ''scope'']"

definition fields_schema :: "string \<Rightarrow> jmap" where
  "fields_schema scope = amap_of
     (if scope = ''general_data'' then
        [(''name1'', form_field ''string'' [described ''Name 1'']),
         (''city'', form_field ''string'' [described ''City'']),
         (''country'', form_field ''string'' [described ''Country (ISO-2)'', enum_of [''DE'', ''US'', ''GB'', ''JP'', ''SG'']])]
      else if scope = ''company_code_data'' then
        [(''recon_account'', form_field ''string'' [described ''Reconciliation account (HKONT), e.g. 140000'']),
         (''payment_terms'', form_field ''string'' [described ''Payment terms (ZTERM)'']),
         (''dunning_area'', form_field ''string'' [described ''Dunning area''])]
      else if scope = ''sales_area_data'' then
        [(''sales_org'', form_field ''string'' [described ''Sales organisation'']),
         (''distribution_channel'', form_field ''string'' [described ''Distribution channel'']),
         (''division'', form_field ''string'' [described ''Division'']),
         (''incoterms'', form_field ''string'' [enum_of [''EXW'', ''FCA'', ''CIF'', ''DAP'', ''DDP'']])]
      else [])"

definition pick_question :: string where
  "pick_question = ''Select customer and which data view to maintain.''"

definition change_question :: "string \<Rightarrow> string \<Rightarrow> string" where
  "change_question customer scope = ''Enter new values for customer '' @ customer @ '' ('' @ scope @
     '' view). Leave fields blank to keep current values.''"

definition workflow_maintain_customer_master ::
  "tool_serde \<Rightarrow> 'u asker \<Rightarrow> tool_context \<Rightarrow> stamp \<Rightarrow> json \<Rightarrow> 'u \<times> 's tool_world
    \<Rightarrow> call_tool_result mcp_result \<times> 'u \<times> 's tool_world" where
  "workflow_maintain_customer_master se ask ctx stm arguments uw =
     (case uw of (u, w) \<Rightarrow>
      (case de_customer se arguments of
         Inl e \<Rightarrow> (Inr (call_result_error (CUSTOMER_TOOL @ '': '' @ e)), u, w)
       | Inr hint \<Rightarrow>
           (case ask pick_question (pick_schema hint) u of
              (pick, u1) \<Rightarrow>
                if er_action pick \<noteq> Accept then
                  (Inr (call_result_error ''Customer master maintenance cancelled at scope selection.''), u1,
                   record_write_audit ctx stm CUSTOMER_TOOL arguments (Outcome_Declined ''cancelled at scope selection'') w)
                else
                  (let picked = content_or JNull pick;
                       customer = str_member ''customer'' [] picked;
                       scope = str_member ''scope'' ''general_data'' picked
                   in case ask (change_question customer scope) (object_schema (fields_schema scope) []) u1 of
                     (confirm, u2) \<Rightarrow>
                       (case er_action confirm of
                          Accept \<Rightarrow>
                            (Inr (call_result_text (''Customer master change confirmed (mock):'' @ nl @ ''  customer: '' @ customer @ nl @
                               ''  scope:    '' @ scope @ nl @ ''  changes:'' @ nl @
                               pretty_or_default se (content_or (JObject []) confirm) @ nl @ nl @
                               ''Next step (when enable-writes): sap.rfc.call BAPI_CUSTOMER_CHANGEFROMDATA.'')), u2,
                             record_write_audit ctx stm CUSTOMER_TOOL arguments
                               (Outcome_Ok (''customer '' @ customer @ '' change confirmed (mock)'')) w)
                        | Decline \<Rightarrow>
                            (Inr (call_result_text ''Customer master change declined; no action taken.''), u2,
                             record_write_audit ctx stm CUSTOMER_TOOL arguments (Outcome_Declined ''user declined field entry'') w)
                        | Cancel \<Rightarrow>
                            (Inr (call_result_error ''Customer master cancelled.''), u2,
                             record_write_audit ctx stm CUSTOMER_TOOL arguments (Outcome_Denied ''cancelled'') w))))))"

subsection \<open>Transport release\<close>

definition TRANSPORT_TOOL :: string where "TRANSPORT_TOOL = ''sap.workflow.release_transport''"

definition transport_schema :: "string \<Rightarrow> json" where
  "transport_schema hint = object_schema
     (amap_of
        [(''transport'', form_field ''string'' [described ''Transport request ID (TRKORR), e.g. ZTRA01K900123'', default_to (JString hint)]),
         (''target_system'', form_field ''string'' [described ''Target system'',
            enum_of [''DEV'', ''QA'', ''PRODUCTION''], default_to (JString ''QA'')]),
         (''release_dependents'', form_field ''boolean'' [described ''Release dependent transports?'', default_to (JBool False)]),
         (''skip_atc'', form_field ''boolean'' [described ''Skip ATC checks (dangerous)'', default_to (JBool False)]),
         (''confirmation_phrase'', form_field ''string'' [described ''Type the transport ID again to confirm''])])
     [''transport'', ''target_system'', ''confirmation_phrase'']"

definition arrow :: string where "arrow = [CHR 0xE2, CHR 0x86, CHR 0x92]"

definition transport_question :: string where
  "transport_question =
     ''Transport release is irreversible in production. Confirm details and re-enter the transport ID to proceed.''"

definition workflow_release_transport ::
  "tool_serde \<Rightarrow> 'u asker \<Rightarrow> tool_context \<Rightarrow> stamp \<Rightarrow> json \<Rightarrow> 'u \<times> 's tool_world
    \<Rightarrow> call_tool_result mcp_result \<times> 'u \<times> 's tool_world" where
  "workflow_release_transport se ask ctx stm arguments uw =
     (case uw of (u, w) \<Rightarrow>
      (case de_transport se arguments of
         Inl e \<Rightarrow> (Inr (call_result_error (TRANSPORT_TOOL @ '': '' @ e)), u, w)
       | Inr hint \<Rightarrow>
           (case ask transport_question (transport_schema (case hint of Some t \<Rightarrow> t | None \<Rightarrow> [])) u of
              (answer, u') \<Rightarrow>
                (case er_action answer of
                   Accept \<Rightarrow>
                     (let v = content_or JNull answer;
                          tr = str_member ''transport'' [] v;
                          phrase = str_member ''confirmation_phrase'' [] v;
                          target = str_member ''target_system'' ''QA'' v
                      in if tr \<noteq> phrase then
                        (Inr (call_result_error (''Confirmation phrase '' @ sq phrase @ '' does not match transport '' @ sq tr @
                           ''. Release aborted.'')), u',
                         record_write_audit ctx stm TRANSPORT_TOOL arguments (Outcome_Denied ''confirmation phrase mismatch'') w)
                      else
                        (Inr (call_result_text (''Transport release plan confirmed (mock):'' @ nl @
                           ''  transport:           '' @ tr @ nl @
                           ''  target_system:       '' @ target @ nl @
                           ''  release_dependents:  '' @ show_bool (bool_member ''release_dependents'' v) @ nl @
                           ''  skip_atc:            '' @ show_bool (bool_member ''skip_atc'' v) @ nl @ nl @
                           ''Next step (when enable-writes): TMS_MGR_FORWARD_TR_REQUEST.'')), u',
                         record_write_audit ctx stm TRANSPORT_TOOL arguments
                           (Outcome_Ok (''transport '' @ tr @ '' release confirmed '' @ arrow @ '' '' @ target @ '' (mock)'')) w))
                 | Decline \<Rightarrow>
                     (Inr (call_result_text ''Transport release declined; no action taken.''), u',
                      record_write_audit ctx stm TRANSPORT_TOOL arguments (Outcome_Declined ''user declined release'') w)
                 | Cancel \<Rightarrow>
                     (Inr (call_result_error (''Transport release cancelled (client lacks elicitation capability '' @ em_dash @
                        '' refusing to proceed without confirmation).'')), u',
                      record_write_audit ctx stm TRANSPORT_TOOL arguments (Outcome_Denied ''elicitation unavailable'') w)))))"

section \<open>Registration\<close>

text \<open>The names the five groups register, in order, and which of them are declared \<open>with_writes\<close>.\<close>

definition rag_tools :: "(string \<times> tool_exposure) list" where
  "rag_tools = map (\<lambda>n. (n, ReadOnly))
     [''abap.search'', ''bpmn.find_process'', ''eam.search_apps'', ''sap.help.search'', ''sap.kb.navigate'']"

definition sap_tools :: "(string \<times> tool_exposure) list" where
  "sap_tools = map (\<lambda>n. (n, ReadOnly))
     [''sap.system.info'', ''sap.system.health'', ''sap.system.cache_stats'', ''sap.system.cache_invalidate'',
      ''sap.rfc.search'', ''sap.rfc.metadata'', ''sap.rfc.bulk_metadata'', ''sap.rfc.call'', ''sap.table.read'',
      ''sap.table.structure'', ''sap.docs.search'', ''sap.bapi.parse_return'', ''sap.bp.search'', ''sap.bp.get'']"

definition adt_tools :: "(string \<times> tool_exposure) list" where
  "adt_tools = map (\<lambda>n. (n, ReadOnly))
     [''abap.adt.get_program'', ''abap.adt.get_class'', ''abap.adt.get_interface'', ''abap.adt.get_include'',
      ''abap.adt.get_function_module'', ''abap.adt.get_package_contents'', ''abap.adt.get_cds_view'',
      ''abap.adt.search'', ''abap.adt.where_used'', ''abap.adt.get_table_contents'']
     @ [(''abap.adt.activate'', Writes)]"

definition graph_tools :: "(string \<times> tool_exposure) list" where
  "graph_tools = map (\<lambda>n. (n, ReadOnly))
     [''kb.multi_hop'', ''kb.global_query'', ''kb.summarise'', ''kb.graph_neighborhood'']"

definition workflow_tools :: "(string \<times> tool_exposure) list" where
  "workflow_tools = [(PO_TOOL, Writes), (CUSTOMER_TOOL, Writes), (TRANSPORT_TOOL, Writes)]"

text \<open>\<open>build_server\<close>: descriptions, schemas and handlers of the tools are given by name.\<close>

definition descriptor_of ::
  "(string \<Rightarrow> string option \<times> tool_input_schema) \<Rightarrow> (string \<Rightarrow> ('s, json, call_tool_result) handler)
    \<Rightarrow> string \<times> tool_exposure \<Rightarrow> 's tool_descriptor" where
  "descriptor_of about handlers nx =
     (let d = tool_descriptor_new (fst nx) (fst (about (fst nx))) (snd (about (fst nx))) (handlers (fst nx))
      in if snd nx = Writes then with_writes d else d)"

definition build_server ::
  "(string \<Rightarrow> string option \<times> tool_input_schema) \<Rightarrow> (string \<Rightarrow> ('s, json, call_tool_result) handler) \<Rightarrow> string \<Rightarrow> string
    \<Rightarrow> bool \<Rightarrow> 's server_context" where
  "build_server about handlers version instructions read_only =
     build (fold builder_tool (map (descriptor_of about handlers)
        (rag_tools @ sap_tools @ adt_tools @ graph_tools @ workflow_tools))
       (builder_instructions instructions
         (builder_exposure (if read_only then ReadOnlyOnly else All_Tools)
           (builder_new ''sap-automate-server'' version))))"

section \<open>Facts\<close>

text \<open>The log grew by one entry for the tool, with the arguments redacted and the outcome given.\<close>

definition audited :: "tool_context \<Rightarrow> string \<Rightarrow> json \<Rightarrow> audit_outcome \<Rightarrow> 's tool_world \<Rightarrow> 's tool_world \<Rightarrow> bool" where
  "audited ctx tname arguments outcome w w' \<longleftrightarrow>
     (\<exists>e. tw_audit w' = tw_audit w @ [e] \<and> ae_tool e = tname \<and> ae_outcome e = outcome \<and>
          ae_sap_system e = tc_sap_system ctx \<and>
          ae_arguments_redacted e = redact (tc_lowercase ctx) arguments)"

lemma record_write_audit_audited [simp]:
  "audited ctx tname arguments outcome w (record_write_audit ctx stm tname arguments outcome w)"
  "tw_sap (record_write_audit ctx stm tname arguments outcome w) = tw_sap w"
  by (simp_all add: audited_def record_write_audit_def record_entry_def)

lemma audited_sap [simp]: "audited ctx t a oc (w\<lparr>tw_sap := s\<rparr>) w' = audited ctx t a oc w w'"
  by (simp add: audited_def)

lemma ex_audited [simp]:
  "(\<exists>oc. audited ctx t a oc w (record_write_audit ctx stm t a oc' w) \<and> P oc) \<longleftrightarrow> P oc'"
  by (auto simp: audited_def record_write_audit_def record_entry_def)

fun is_ok_outcome :: "audit_outcome \<Rightarrow> bool" where
  "is_ok_outcome (Outcome_Ok _) = True"
| "is_ok_outcome _ = False"

lemma outcome_of_write_ok: "is_ok_outcome (outcome_of_write r) \<longleftrightarrow> (\<exists>out. r = Inr out \<and> wo_committed out)"
  by (auto simp: outcome_of_write_def split: sum.splits if_splits rfc_error.splits)

text \<open>Registering tools with distinct names.\<close>

lemma fold_builder_tool:
  assumes "distinct (map (\<lambda>d. tool_name (td_tool d)) ds)"
    "set (map fst (sb_tools b)) \<inter> set (map (\<lambda>d. tool_name (td_tool d)) ds) = {}"
  shows "fold builder_tool ds b = b\<lparr>sb_tools := sb_tools b @ map (\<lambda>d. (tool_name (td_tool d), d)) ds\<rparr>"
  using assms
proof (induction ds arbitrary: b)
  case (Cons d ds)
  have "AList.update k v xs = xs @ [(k, v)]" if "k \<notin> fst ` set xs" for k :: string and v :: "'a tool_descriptor" and xs
    using that by (induction xs) auto
  then have "builder_tool d b = b\<lparr>sb_tools := sb_tools b @ [(tool_name (td_tool d), d)]\<rparr>"
    using Cons.prems(2) by (auto simp: builder_tool_def)
  then show ?case
    using Cons.IH [of "b\<lparr>sb_tools := sb_tools b @ [(tool_name (td_tool d), d)]\<rparr>"] Cons.prems by auto
qed simp

lemma descriptor_of_simps [simp]:
  "tool_name (td_tool (descriptor_of about handlers nx)) = fst nx"
  "td_exposure (descriptor_of about handlers nx) = snd nx"
  "td_handler (descriptor_of about handlers nx) = handlers (fst nx)"
  by (cases "snd nx"; simp add: descriptor_of_def with_writes_def tool_descriptor_new_def Let_def)+

abbreviation all_tools :: "(string \<times> tool_exposure) list" where
  "all_tools \<equiv> rag_tools @ sap_tools @ adt_tools @ graph_tools @ workflow_tools"

lemma all_tools_distinct: "distinct (map fst all_tools)"
  by code_simp

lemma build_server_tools:
  "cx_tools (build_server about handlers version instr read_only) =
     map (\<lambda>nx. (fst nx, descriptor_of about handlers nx))
       (filter (\<lambda>nx. allows (if read_only then ReadOnlyOnly else All_Tools) (snd nx)) all_tools)"
proof -
  let ?b = "builder_instructions instr (builder_exposure (if read_only then ReadOnlyOnly else All_Tools)
    (builder_new ''sap-automate-server'' version)) :: 'a server_builder"
  have b: "sb_tools ?b = []" "sb_exposure ?b = (if read_only then ReadOnlyOnly else All_Tools)"
    by (simp_all add: builder_instructions_def builder_exposure_def builder_new_def)
  have "distinct (map (\<lambda>d. tool_name (td_tool d)) (map (descriptor_of about handlers) all_tools))"
    using all_tools_distinct by (simp only: map_map o_def descriptor_of_simps)
  from fold_builder_tool [OF this, of ?b] show ?thesis
    unfolding build_server_def
    by (simp add: b build_def Let_def filter_map o_def is_allowed_by_def del: map_append filter_append)
qed

lemma read_only_names:
  "map fst (filter (\<lambda>nx. allows ReadOnlyOnly (snd nx)) all_tools) =
     filter (\<lambda>n. n \<notin> {''abap.adt.activate'', PO_TOOL, CUSTOMER_TOOL, TRANSPORT_TOOL}) (map fst all_tools)"
  by code_simp

lemma commit_flag:
  "(case json_get ''commit'' v of Some x \<Rightarrow> (case as_bool x of Some b \<Rightarrow> b | None \<Rightarrow> False) | None \<Rightarrow> False)
     \<longleftrightarrow> json_get ''commit'' v = Some (JBool True)"
proof (cases "json_get ''commit'' v")
  case (Some x)
  then show ?thesis by (cases x) auto
qed simp

text \<open>The user's consent, in terms of the answers to the forms alone.\<close>

definition po_consent :: "'u asker \<Rightarrow> po_args \<Rightarrow> 'u \<Rightarrow> bool" where
  "po_consent ask po u \<longleftrightarrow> er_action (fst (ask po_question (po_schema po) u)) = Accept"

definition customer_consent :: "'u asker \<Rightarrow> string option \<Rightarrow> 'u \<Rightarrow> bool" where
  "customer_consent ask hint u \<longleftrightarrow>
     (case ask pick_question (pick_schema hint) u of (pick, u1) \<Rightarrow>
        er_action pick = Accept \<and>
        (let customer = str_member ''customer'' [] (content_or JNull pick);
             scope = str_member ''scope'' ''general_data'' (content_or JNull pick)
         in er_action (fst (ask (change_question customer scope) (object_schema (fields_schema scope) []) u1)) = Accept))"

text \<open>The answer to the transport form, and what the user typed into it.\<close>

definition transport_answer :: "'u asker \<Rightarrow> string option \<Rightarrow> 'u \<Rightarrow> elicitation_result" where
  "transport_answer ask hint u = fst (ask transport_question (transport_schema (case hint of Some t \<Rightarrow> t | None \<Rightarrow> [])) u)"

definition typed_text :: "string \<Rightarrow> elicitation_result \<Rightarrow> string option" where
  "typed_text k ans = Option.bind (er_content ans) (\<lambda>v. Option.bind (json_get k v) as_str)"

text \<open>A transport is named and its id typed again; or else the form is accepted with no transport and no phrase in it.\<close>

definition transport_retyped :: "elicitation_result \<Rightarrow> string \<Rightarrow> bool" where
  "transport_retyped ans t \<longleftrightarrow>
     er_action ans = Accept \<and> t \<noteq> [] \<and> typed_text ''transport'' ans = Some t \<and> typed_text ''confirmation_phrase'' ans = Some t"

definition transport_unnamed :: "elicitation_result \<Rightarrow> bool" where
  "transport_unnamed ans \<longleftrightarrow>
     er_action ans = Accept \<and> typed_text ''transport'' ans \<in> {None, Some []} \<and> typed_text ''confirmation_phrase'' ans \<in> {None, Some []}"

text \<open>What the handler compares: a field that is absent or is not a text counts as empty.\<close>

definition phrase_matches :: "elicitation_result \<Rightarrow> bool" where
  "phrase_matches ans \<longleftrightarrow>
     er_action ans = Accept \<and>
     str_member ''transport'' [] (content_or JNull ans) = str_member ''confirmation_phrase'' [] (content_or JNull ans)"

lemma str_member_typed: "str_member k [] (content_or JNull ans) = (case typed_text k ans of Some t \<Rightarrow> t | None \<Rightarrow> [])"
  by (cases "er_content ans") (auto simp: str_member_def content_or_def typed_text_def split: option.split)

lemma phrase_matches_cases: "phrase_matches ans \<longleftrightarrow> (\<exists>t. transport_retyped ans t) \<or> transport_unnamed ans"
  by (auto simp: phrase_matches_def str_member_typed transport_retyped_def transport_unnamed_def split: option.splits)

text \<open>Arguments of an example: decoders that accept anything, a client that answers and changes nothing,
  and a user who accepts every form with the same content.\<close>

definition demo_tools :: tool_serde where
  "demo_tools =
     \<lparr> de_rfc_call = (\<lambda>_. Inr \<lparr> rq_function = ''BAPI_PO_CREATE1'', rq_parameters = JNull, rq_timeout_ms = 30000,
          rq_require_read_only_safe = False \<rparr>),
       de_read_table = (\<lambda>_. Inl []), de_bulk = (\<lambda>_. Inl []), de_parse_return = Inr,
       de_po = (\<lambda>_. Inr \<lparr> po_vendor = None, po_material = None, po_quantity = None \<rparr>),
       de_customer = (\<lambda>_. Inr None), de_transport = (\<lambda>_. Inr None), ser_messages = (\<lambda>_. JNull),
       ser_bulk = (\<lambda>_. JNull), pretty = (\<lambda>v. Inr (json_to_string v)) \<rparr>"

definition demo_ops :: "unit sap_ops" where
  "demo_ops = \<lparr> so_call_rfc = (\<lambda>_ _ s. (Inr JNull, s)), so_read_table = (\<lambda>_ s. (Inr [], s)),
     so_bulk_rfc_metadata = (\<lambda>_ _ s. (Inl (Internal []), s)) \<rparr>"

definition demo_ctx :: tool_context where
  "demo_ctx = \<lparr> tc_read_only = True, tc_sap_system = None, tc_lowercase = ascii_lowercase \<rparr>"

definition demo_stamp :: stamp where
  "demo_stamp = \<lparr> st_event_id = ''evt-0'', st_at_ms = 0, st_duration_ms = 0 \<rparr>"

definition demo_world :: "unit tool_world" where
  "demo_world = \<lparr> tw_sap = (), tw_audit = [] \<rparr>"

definition demo_user :: "unit asker" where
  "demo_user _ _ u = (\<lparr> er_action = Accept, er_content = Some (JObject [(''transport'', JString ''T1'')]) \<rparr>, u)"

section \<open>Properties\<close>

text \<open>
  C7. Transactional RFC calls leave exactly one audit entry that tells the truth. With \<open>commit\<close> set, the
  SAP system sees what the write workflow does and nothing else, one entry is appended with the
  arguments redacted, and its outcome is \<open>Ok\<close> exactly when the workflow reports a commit; in read-only
  mode nothing reaches SAP. Without \<open>commit\<close> the call goes to the client in the server's mode and the
  log does not change.
\<close>

theorem rfc_call_audited:
  assumes "de_rfc_call se arguments = Inr request"
  shows "case tool_rfc_call se ops ctx stm arguments w of (r, w') \<Rightarrow>
    if json_get ''commit'' arguments = Some (JBool True)
    then (case execute_write_bapi (so_call_rfc ops) request (tc_read_only ctx) (tw_sap w) of (res, s') \<Rightarrow>
            tw_sap w' = s' \<and> (tc_read_only ctx \<longrightarrow> s' = tw_sap w) \<and>
            (\<exists>oc. audited ctx ''sap.rfc.call'' arguments oc w w' \<and>
               (is_ok_outcome oc \<longleftrightarrow> (\<exists>out. res = Inr out \<and> wo_committed out))))
    else tw_audit w' = tw_audit w \<and> tw_sap w' = snd (so_call_rfc ops request (tc_read_only ctx) (tw_sap w))"
proof (cases "json_get ''commit'' arguments = Some (JBool True)")
  case True
  obtain res s' where e: "execute_write_bapi (so_call_rfc ops) request (tc_read_only ctx) (tw_sap w) = (res, s')"
    by fastforce
  then have "tc_read_only ctx \<Longrightarrow> s' = tw_sap w"
    by (simp add: execute_write_bapi_def)
  moreover have "snd (tool_rfc_call se ops ctx stm arguments w) =
      record_write_audit ctx stm ''sap.rfc.call'' arguments (outcome_of_write res) (w\<lparr>tw_sap := s'\<rparr>)"
    using True assms e unfolding tool_rfc_call_def by simp
  moreover have "audited ctx ''sap.rfc.call'' arguments (outcome_of_write res) w
      (record_write_audit ctx stm ''sap.rfc.call'' arguments (outcome_of_write res) (w\<lparr>tw_sap := s'\<rparr>))"
    by (rule audited_sap [THEN iffD1, OF record_write_audit_audited(1)])
  ultimately show ?thesis
    using True e outcome_of_write_ok [of res] by (auto split: prod.splits)
next
  case False
  then show ?thesis
    using assms unfolding tool_rfc_call_def commit_flag Let_def
    by (auto split: prod.splits sum.splits)
qed

theorem rfc_call_audited_witness:
  "case tool_rfc_call demo_tools demo_ops demo_ctx demo_stamp (JObject [(''commit'', JBool True)]) demo_world of
     (r, w') \<Rightarrow> \<exists>oc. audited demo_ctx ''sap.rfc.call'' (JObject [(''commit'', JBool True)]) oc demo_world w' \<and> \<not> is_ok_outcome oc"
proof -
  have "de_rfc_call demo_tools (JObject [(''commit'', JBool True)]) = Inr \<lparr> rq_function = ''BAPI_PO_CREATE1'',
      rq_parameters = JNull, rq_timeout_ms = 30000, rq_require_read_only_safe = False \<rparr>"
    by (simp add: demo_tools_def)
  from rfc_call_audited [OF this, where ops = demo_ops and ctx = demo_ctx and stm = demo_stamp and w = demo_world] show ?thesis
    by (auto simp: execute_write_bapi_def demo_ctx_def split: prod.splits)
qed

text \<open>
  C8. The guided workflows act only on an accepted form. Once its arguments decode, each workflow writes exactly one
  audit entry and does not touch SAP; the outcome is \<open>Ok\<close> exactly if the user accepted: the purchase order form; both
  forms of the customer master; the transport form with a transport named in it and its id typed again as the
  confirmation phrase. The one exception is the transport form accepted with neither field filled in, against what the
  tool says of itself: the empty phrase then matches the empty id. A named transport is never released without its id
  typed again, and declining or cancelling never is \<open>Ok\<close>.
\<close>

theorem workflows_need_consent:
  assumes "de_po se a1 = Inr po" "de_customer se a2 = Inr hint" "de_transport se a3 = Inr tr"
  shows "(case workflow_create_purchase_order se ask ctx stm a1 (u, w) of (r, u', w') \<Rightarrow>
      tw_sap w' = tw_sap w \<and> (\<exists>oc. audited ctx PO_TOOL a1 oc w w' \<and> (is_ok_outcome oc \<longleftrightarrow> po_consent ask po u))) \<and>
    (case workflow_maintain_customer_master se ask ctx stm a2 (u, w) of (r, u', w') \<Rightarrow>
      tw_sap w' = tw_sap w \<and> (\<exists>oc. audited ctx CUSTOMER_TOOL a2 oc w w' \<and> (is_ok_outcome oc \<longleftrightarrow> customer_consent ask hint u))) \<and>
    (case workflow_release_transport se ask ctx stm a3 (u, w) of (r, u', w') \<Rightarrow>
      tw_sap w' = tw_sap w \<and> (\<exists>oc. audited ctx TRANSPORT_TOOL a3 oc w w' \<and>
        (is_ok_outcome oc \<longleftrightarrow> (\<exists>t. transport_retyped (transport_answer ask tr u) t) \<or> transport_unnamed (transport_answer ask tr u))))"
proof (intro conjI)
  show "case workflow_create_purchase_order se ask ctx stm a1 (u, w) of (r, u', w') \<Rightarrow>
      tw_sap w' = tw_sap w \<and> (\<exists>oc. audited ctx PO_TOOL a1 oc w w' \<and> (is_ok_outcome oc \<longleftrightarrow> po_consent ask po u))"
    unfolding workflow_create_purchase_order_def po_consent_def using assms(1)
    by (simp split: prod.splits elicitation_action.splits)
  show "case workflow_maintain_customer_master se ask ctx stm a2 (u, w) of (r, u', w') \<Rightarrow>
      tw_sap w' = tw_sap w \<and> (\<exists>oc. audited ctx CUSTOMER_TOOL a2 oc w w' \<and> (is_ok_outcome oc \<longleftrightarrow> customer_consent ask hint u))"
    unfolding workflow_maintain_customer_master_def customer_consent_def using assms(2)
    by (simp add: Let_def split: prod.splits elicitation_action.splits)
  show "case workflow_release_transport se ask ctx stm a3 (u, w) of (r, u', w') \<Rightarrow>
      tw_sap w' = tw_sap w \<and> (\<exists>oc. audited ctx TRANSPORT_TOOL a3 oc w w' \<and>
        (is_ok_outcome oc \<longleftrightarrow> (\<exists>t. transport_retyped (transport_answer ask tr u) t) \<or> transport_unnamed (transport_answer ask tr u)))"
    unfolding workflow_release_transport_def phrase_matches_cases [symmetric] phrase_matches_def transport_answer_def using assms(3)
    by (simp add: Let_def split: prod.splits elicitation_action.splits)
qed

theorem workflows_need_consent_witness:
  "case workflow_release_transport demo_tools demo_user demo_ctx demo_stamp JNull ((), demo_world) of (r, u', w') \<Rightarrow>
     \<exists>oc. audited demo_ctx TRANSPORT_TOOL JNull oc demo_world w' \<and> \<not> is_ok_outcome oc"
proof -
  have d: "de_po demo_tools JNull = Inr \<lparr> po_vendor = None, po_material = None, po_quantity = None \<rparr>"
    "de_customer demo_tools JNull = Inr None" "de_transport demo_tools JNull = Inr None"
    by (simp_all add: demo_tools_def)
  have "\<not> transport_retyped (transport_answer demo_user None ()) t" "\<not> transport_unnamed (transport_answer demo_user None ())" for t
    by (simp_all add: transport_retyped_def transport_unnamed_def transport_answer_def demo_user_def typed_text_def)
  then show ?thesis
    using workflows_need_consent [OF d, where ask = demo_user and ctx = demo_ctx and stm = demo_stamp and u = "()" and w = demo_world] by (auto split: prod.splits)
qed

text \<open>
  The shipped server hides every state-changing tool by default. Of the 37 tools registered, a
  server built in read-only mode lists and serves exactly the 33 others than the activation and the
  three workflows; with writes enabled it serves all, in the order of registration.
\<close>

lemma shipped_tool_surface:
  "map fst (cx_tools (build_server about handlers version instr True)) =
     filter (\<lambda>n. n \<notin> {''abap.adt.activate'', PO_TOOL, CUSTOMER_TOOL, TRANSPORT_TOOL}) (map fst all_tools)
   \<and> map fst (cx_tools (build_server about handlers version instr False)) = map fst all_tools
   \<and> length (cx_tools (build_server about handlers version instr True)) = 33
   \<and> length all_tools = 37"
proof -
  have "map fst (cx_tools (build_server about handlers version instr True)) =
      map fst (filter (\<lambda>nx. allows ReadOnlyOnly (snd nx)) all_tools)"
    by (simp add: build_server_tools o_def del: map_append filter_append)
  moreover have "map fst (cx_tools (build_server about handlers version instr False)) = map fst all_tools"
    by (simp add: build_server_tools o_def del: map_append filter_append)
  moreover have "length (filter (\<lambda>nx. allows ReadOnlyOnly (snd nx)) all_tools) = 33" "length all_tools = 37"
    by code_simp+
  ultimately show ?thesis
    unfolding read_only_names [symmetric] by (metis length_map)
qed

end
