(* ===== verification/Tool_Schemas.thy ===== *)
theory Tool_Schemas
  imports Server_Tools
begin

text \<open>
  What the tools of the server say of themselves (\<open>apps/sap-automate-server/src/tools.rs\<close>): the description and the
  input schema each descriptor is made with, how a schema is read from JSON and served again
  (\<open>mcp-core/src/protocol.rs\<close>), and the default values of the argument structs. Shown: every registered tool has a
  closed object schema that is served as written and requires only properties it declares, and the defaults it announces
  where serde names a default function are what the function returns.
\<close>

section \<open>Input schemas\<close>

text \<open>\<open>ToolInputSchema\<close> as serde reads and writes it; other members are kept.\<close>

definition schema_of_json :: "json \<Rightarrow> tool_input_schema option" where
  "schema_of_json v =
     (case v of
        JObject m \<Rightarrow>
          (case (map_of m ''type'', case map_of m ''required'' of None \<Rightarrow> Some [] | Some (JArray xs) \<Rightarrow> those (map as_str xs) | _ \<Rightarrow> None) of
             (Some (JString t), Some required) \<Rightarrow> Some
               \<lparr> tis_schema_type = t, tis_properties = (case map_of m ''properties'' of Some JNull \<Rightarrow> None | p \<Rightarrow> p),
                 tis_required = required, tis_extra = filter (\<lambda>(k, _). k \<notin> {''type'', ''properties'', ''required''}) m \<rparr>
           | _ \<Rightarrow> None)
      | _ \<Rightarrow> None)"

definition schema_from_value :: "json \<Rightarrow> tool_input_schema" where
  "schema_from_value v = (case schema_of_json v of Some s \<Rightarrow> s | None \<Rightarrow> schema_object)"

definition schema_to_json :: "tool_input_schema \<Rightarrow> json" where
  "schema_to_json s = json_object
     ([(''type'', JString (tis_schema_type s))] @ (case tis_properties s of Some p \<Rightarrow> [(''properties'', p)] | None \<Rightarrow> []) @
      (if tis_required s = [] then [] else [(''required'', JArray (map JString (tis_required s)))]) @ tis_extra s)"

section \<open>Descriptions and schemas\<close>

definition rag_search_schema :: "json" where
  "rag_search_schema =
     json_object [(''type'', JString ''object''),
      (''properties'', json_object
        [(''query'', form_field ''string'' [described ''Free-text query'']),
         (''top_k'', form_field ''integer'' [(''minimum'', JNumber (NInt 1)), (''maximum'', JNumber (NInt 50)), default_to (JNumber (NInt 5))])]),
      (''required'', JArray (map JString [''query''])),
      (''additionalProperties'', JBool False)]"

definition name_schema :: "json" where
  "name_schema =
     json_object [(''type'', JString ''object''),
      (''properties'', json_object [(''name'', form_field ''string'' [described ''ABAP object name''])]),
      (''required'', JArray (map JString [''name''])),
      (''additionalProperties'', JBool False)]"

definition about_kb_navigate :: "string \<times> json" where
  "about_kb_navigate =
     (''Walk the hierarchical document tree (OpenKB + PageIndex pattern) section by section. Pass a document_id and an optional dotted path (e.g. '' @ sq ''1.2.1'' @ '') and depth to bound the returned subtree. Use this for long SAP Help pages / ABAP source files when similarity-blind retrieval would miss the right section.'',
      json_object [(''type'', JString ''object''),
      (''properties'', json_object
        [(''document_id'', form_field ''string'' [described (''Document id, e.g. '' @ sq ''sap_help:FI/period-close'')]),
         (''path'', form_field ''string'' [described (''Optional dotted path, e.g. '' @ sq ''1.2'' @ ''. Omit to start at the root.'')]),
         (''depth'', form_field ''integer'' [(''minimum'', JNumber (NInt 0)), (''maximum'', JNumber (NInt 4)), default_to (JNumber (NInt 1))])]),
      (''required'', JArray (map JString [''document_id''])),
      (''additionalProperties'', JBool False)])"

definition about_bp_search :: "string \<times> json" where
  "about_bp_search =
     (''Search SAP A_BusinessPartner (OData v4) on the SAP Business Accelerator Hub sandbox. Returns matching Business Partner rows with id, full name, category, organization name, and BP creation date. Requires SAP_BUSINESS_HUB_KEY env var (free SAP Community login).'',
      json_object [(''type'', JString ''object''),
      (''properties'', json_object
        [(''query'', form_field ''string'' [described ''Substring match against BusinessPartnerFullName.'']),
         (''limit'', form_field ''integer'' [(''minimum'', JNumber (NInt 1)), (''maximum'', JNumber (NInt 100)), default_to (JNumber (NInt 10))])]),
      (''required'', JArray (map JString [''query''])),
      (''additionalProperties'', JBool False)])"

definition about_bp_get :: "string \<times> json" where
  "about_bp_get =
     (''Fetch a single SAP A_BusinessPartner by id from the SAP Business Accelerator Hub sandbox (OData v4). Requires SAP_BUSINESS_HUB_KEY.'',
      json_object [(''type'', JString ''object''),
      (''properties'', json_object [(''id'', form_field ''string'' [described (''Business Partner identifier (e.g. '' @ sq ''1003764'' @ '').'')])]),
      (''required'', JArray (map JString [''id''])),
      (''additionalProperties'', JBool False)])"

definition about_system_cache_stats :: "string \<times> json" where
  "about_system_cache_stats =
     (''Read RFC metadata cache statistics (thupalo/sap-rfc-mcp-server pattern). Returns hits, misses, entries, evictions, and hit_ratio. Always read-only '' @ em_dash @ '' touches local cache state only, never SAP.'',
      form_field ''object'' [(''additionalProperties'', JBool False)])"

definition about_system_cache_invalidate :: "string \<times> json" where
  "about_system_cache_invalidate =
     (''Drop every entry in the RFC metadata cache so the next sap.rfc.metadata / bulk_metadata call re-fetches from SAP. Use after a transport import that changed RFC signatures. Does not touch SAP state.'',
      form_field ''object'' [(''additionalProperties'', JBool False)])"

definition about_system_health :: "string \<times> json" where
  "about_system_health =
     (''Operator health snapshot: connection pool, read-only mode, ADT destination summary, graph stats. Always read-only.'',
      form_field ''object'' [(''additionalProperties'', JBool False)])"

definition about_bapi_parse_return :: "string \<times> json" where
  "about_bapi_parse_return =
     (''Parse a BAPIRET2 array (the standard SAP return contract) and surface structured messages. Returns severity, message class, number, text, and a guidance string that tells the agent whether it'' @ [CHR 0x27] @ ''s safe to commit.'',
      json_object [(''type'', JString ''object''),
      (''properties'', json_object [(''value'', json_object [(''description'', JString ''The full JSON result from a sap.rfc.call invocation, or a bare BAPIRET2 array.'')])]),
      (''required'', JArray (map JString [''value''])),
      (''additionalProperties'', JBool False)])"

definition about_system_info :: "string \<times> json" where
  "about_system_info =
     (''Retrieve SAP system identity (SID, client, release, host). Always read-only.'',
      form_field ''object'' [(''additionalProperties'', JBool False)])"

definition about_rfc_search :: "string \<times> json" where
  "about_rfc_search =
     (''Search the RFC catalogue by keyword. Returns ranked function names with descriptions and read-only flag.'',
      json_object [(''type'', JString ''object''),
      (''properties'', json_object
        [(''query'', form_field ''string'' [described ''Keyword query'']),
         (''limit'', form_field ''integer'' [(''minimum'', JNumber (NInt 1)), (''maximum'', JNumber (NInt 100)), default_to (JNumber (NInt 20))])]),
      (''required'', JArray (map JString [''query''])),
      (''additionalProperties'', JBool False)])"

definition about_rfc_metadata :: "string \<times> json" where
  "about_rfc_metadata =
     (''Get full parameter signature, function group, and read-only flag for an RFC function.'',
      json_object [(''type'', JString ''object''),
      (''properties'', json_object
        [(''function'', form_field ''string'' [described ''RFC function name (e.g. BAPI_MATERIAL_GET_DETAIL)'']),
         (''language'', form_field ''string'' [default_to (JString ''EN''), (''minLength'', JNumber (NInt 1)), (''maxLength'', JNumber (NInt 2))])]),
      (''required'', JArray (map JString [''function''])),
      (''additionalProperties'', JBool False)])"

definition about_rfc_bulk_metadata :: "string \<times> json" where
  "about_rfc_bulk_metadata =
     (''Batch-fetch metadata for up to 100 RFCs in one call. Mirrors `bulk_load_metadata` from the Python reference project, avoiding N round-trips.'',
      json_object [(''type'', JString ''object''),
      (''properties'', json_object
        [(''functions'', form_field ''array'' [(''items'', form_field ''string'' []), (''minItems'', JNumber (NInt 1)), (''maxItems'', JNumber (NInt 100))]),
         (''language'', form_field ''string'' [default_to (JString ''EN'')])]),
      (''required'', JArray (map JString [''functions''])),
      (''additionalProperties'', JBool False)])"

definition about_rfc_call :: "string \<times> json" where
  "about_rfc_call =
     (''Execute an RFC function by name with a parameters object. Read-only mode (default) blocks any RFC not declared safe. Set commit=true to run it as a transactional write: the BAPI is followed by BAPI_TRANSACTION_COMMIT on success or BAPI_TRANSACTION_ROLLBACK on a BAPIRET2 error (requires --enable-writes). Errors carry structured codes (RFC_TIMEOUT, RFC_AUTH_FAILED, etc.).'',
      json_object [(''type'', JString ''object''),
      (''properties'', json_object
        [(''function'', form_field ''string'' [described ''RFC function name'']),
         (''parameters'', form_field ''object'' [described ''Function parameter object'']),
         (''timeout_ms'', form_field ''integer'' [(''minimum'', JNumber (NInt 100)), (''maximum'', JNumber (NInt 600000)), default_to (JNumber (NInt 30000))]),
         (''require_read_only_safe'', form_field ''boolean'' [default_to (JBool True)]),
         (''commit'', form_field ''boolean'' [default_to (JBool False), described ''Run as a transactional write with automatic commit/rollback (requires --enable-writes).''])]),
      (''required'', JArray (map JString [''function''])),
      (''additionalProperties'', JBool False)])"

definition about_table_read :: "string \<times> json" where
  "about_table_read =
     (''Read rows from a SAP table with optional field projection and SQL-like WHERE clauses. Hard-capped at 1000 rows to avoid buffer overflow.'',
      json_object [(''type'', JString ''object''),
      (''properties'', json_object
        [(''table'', form_field ''string'' [described ''Table name (e.g. MARA, T001, VBAK)'']),
         (''fields'', form_field ''array'' [(''items'', form_field ''string'' []), described ''Field projection; empty = all fields'']),
         (''where_conditions'', form_field ''array'' [(''items'', form_field ''string'' []), described (''WHERE clauses, e.g. '' @ [CHR 0x22] @ ''WAERS = '' @ sq ''EUR'' @ [CHR 0x22])]),
         (''max_rows'', form_field ''integer'' [(''minimum'', JNumber (NInt 1)), (''maximum'', JNumber (NInt (int MAX_ROWS_HARD_CAP))), default_to (JNumber (NInt 100))])]),
      (''required'', JArray (map JString [''table''])),
      (''additionalProperties'', JBool False)])"

definition about_table_structure :: "string \<times> json" where
  "about_table_structure =
     (''Get DDIC field metadata for an SAP table or structure (name, type, length, key flag).'',
      json_object [(''type'', JString ''object''),
      (''properties'', json_object [(''table'', form_field ''string'' [])]),
      (''required'', JArray (map JString [''table''])),
      (''additionalProperties'', JBool False)])"

definition about_docs_search :: "string \<times> json" where
  "about_docs_search =
     (''Semantic search across the unified SAP knowledge base (Help Portal + ABAP + BPMN + LeanIX). Use this instead of guessing which domain holds the answer.'',
      json_object [(''type'', JString ''object''),
      (''properties'', json_object
        [(''query'', form_field ''string'' []),
         (''top_k'', form_field ''integer'' [(''minimum'', JNumber (NInt 1)), (''maximum'', JNumber (NInt 50)), default_to (JNumber (NInt 5))]),
         (''domain'', form_field ''string'' [enum_of [''all'', ''sap_help'', ''abap'', ''bpmn'', ''leanix''], default_to (JString ''all'')])]),
      (''required'', JArray (map JString [''query''])),
      (''additionalProperties'', JBool False)])"

definition about_adt_get_program :: "string \<times> json" where
  "about_adt_get_program =
     (''Retrieve ABAP program source by name via ADT REST. Returns source, line count, active flag.'',
      name_schema)"

definition about_adt_get_class :: "string \<times> json" where
  "about_adt_get_class =
     (''Retrieve ABAP class source via ADT.'',
      name_schema)"

definition about_adt_get_interface :: "string \<times> json" where
  "about_adt_get_interface =
     (''Retrieve ABAP interface source via ADT.'',
      name_schema)"

definition about_adt_get_include :: "string \<times> json" where
  "about_adt_get_include =
     (''Retrieve ABAP include source via ADT.'',
      name_schema)"

definition about_adt_get_function_module :: "string \<times> json" where
  "about_adt_get_function_module =
     (''Retrieve ABAP function module source. Requires both function group and module name (the ADT URL nests them).'',
      json_object [(''type'', JString ''object''),
      (''properties'', json_object
        [(''group'', form_field ''string'' [described ''Function group, e.g. ZFIN_UTIL'']),
         (''name'', form_field ''string'' [described ''Function module name, e.g. Z_FIN_VALIDATE_BUKRS''])]),
      (''required'', JArray (map JString [''group'', ''name''])),
      (''additionalProperties'', JBool False)])"

definition about_adt_get_package_contents :: "string \<times> json" where
  "about_adt_get_package_contents =
     (''List the objects under an ABAP package (programs, classes, interfaces, CDS views, ...).'',
      json_object [(''type'', JString ''object''),
      (''properties'', json_object [(''package'', form_field ''string'' [])]),
      (''required'', JArray (map JString [''package''])),
      (''additionalProperties'', JBool False)])"

definition about_adt_get_cds_view :: "string \<times> json" where
  "about_adt_get_cds_view =
     (''Retrieve a Core Data Services (CDS) view source via ADT.'',
      name_schema)"

definition about_adt_search :: "string \<times> json" where
  "about_adt_search =
     (''Live ABAP object search via ADT (different from abap.search which queries the RAG-indexed corpus). Constrained kind enum.'',
      json_object [(''type'', JString ''object''),
      (''properties'', json_object
        [(''query'', form_field ''string'' []),
         (''kind'', form_field ''string'' [enum_of [''program'', ''class'', ''interface'', ''include'', ''function_group'', ''function_module'', ''table'', ''structure'', ''data_element'', ''domain'', ''package'', ''cds_view'', ''behavior_definition'', ''service_definition'', ''metadata_extension'', ''enhancement_spot'', ''transaction'']]),
         (''max_results'', form_field ''integer'' [(''minimum'', JNumber (NInt 1)), (''maximum'', JNumber (NInt 100)), default_to (JNumber (NInt 25))])]),
      (''required'', JArray (map JString [''query''])),
      (''additionalProperties'', JBool False)])"

definition about_adt_where_used :: "string \<times> json" where
  "about_adt_where_used =
     (''Impact analysis: list places that use a given ABAP object. Returns object name, kind, location, and usage type (implements / call / include / etc.).'',
      json_object [(''type'', JString ''object''),
      (''properties'', json_object
        [(''name'', form_field ''string'' []),
         (''kind'', form_field ''string'' [enum_of [''program'', ''class'', ''interface'', ''include'', ''function_group'', ''function_module'', ''table'', ''structure'', ''data_element'', ''domain'', ''package'', ''cds_view'']])]),
      (''required'', JArray (map JString [''name'', ''kind''])),
      (''additionalProperties'', JBool False)])"

definition about_adt_get_table_contents :: "string \<times> json" where
  "about_adt_get_table_contents =
     (''Table data via the ADT Data Preview API. Some tables are blocked on SAP BTP backends '' @ em_dash @ '' error code DataPreviewBlocked tells the agent to fall back to sap.table.read (RFC).'',
      json_object [(''type'', JString ''object''),
      (''properties'', json_object
        [(''table'', form_field ''string'' []),
         (''max_rows'', form_field ''integer'' [(''minimum'', JNumber (NInt 1)), (''maximum'', JNumber (NInt 1000)), default_to (JNumber (NInt 100))])]),
      (''required'', JArray (map JString [''table''])),
      (''additionalProperties'', JBool False)])"

definition about_adt_activate :: "string \<times> json" where
  "about_adt_activate =
     (''Activate an ABAP object (state-mutating). Hidden in read-only mode by the server exposure policy. When exposed, it still re-checks the per-request read-only flag.'',
      json_object [(''type'', JString ''object''),
      (''properties'', json_object
        [(''name'', form_field ''string'' []),
         (''kind'', form_field ''string'' [enum_of [''program'', ''class'', ''interface'', ''function_group'', ''function_module'', ''cds_view'']])]),
      (''required'', JArray (map JString [''name'', ''kind''])),
      (''additionalProperties'', JBool False)])"

definition about_kb_multi_hop :: "string \<times> json" where
  "about_kb_multi_hop =
     (''HippoRAG-style multi-hop traversal (Personalised PageRank) across the SAP knowledge graph. Use this for impact / where-used / dependency-chain queries. Returns nodes with hop distance from any seed.'',
      json_object [(''type'', JString ''object''),
      (''properties'', json_object
        [(''query'', form_field ''string'' []),
         (''max_hops'', form_field ''integer'' [(''minimum'', JNumber (NInt 1)), (''maximum'', JNumber (NInt 6)), default_to (JNumber (NInt 4))]),
         (''top_k'', form_field ''integer'' [(''minimum'', JNumber (NInt 1)), (''maximum'', JNumber (NInt 50)), default_to (JNumber (NInt 8))]),
         (''max_seeds'', form_field ''integer'' [(''minimum'', JNumber (NInt 1)), (''maximum'', JNumber (NInt 10)), default_to (JNumber (NInt 3))])]),
      (''required'', JArray (map JString [''query''])),
      (''additionalProperties'', JBool False)])"

definition about_kb_global_query :: "string \<times> json" where
  "about_kb_global_query =
     (''Microsoft GraphRAG community-level Q&A. Returns the top communities (clusters of related entities) that overlap the query, with their members and synthesised summary. Use this for global / analytical / cross-domain questions.'',
      json_object [(''type'', JString ''object''),
      (''properties'', json_object
        [(''query'', form_field ''string'' []),
         (''top_k'', form_field ''integer'' [(''minimum'', JNumber (NInt 1)), (''maximum'', JNumber (NInt 10)), default_to (JNumber (NInt 3))])]),
      (''required'', JArray (map JString [''query''])),
      (''additionalProperties'', JBool False)])"

definition about_kb_summarise :: "string \<times> json" where
  "about_kb_summarise =
     (''RAPTOR hierarchical summary at the requested level (0 = leaves, 1 = Louvain communities, 2 = SAP module roll-ups). Use this for granularity-aware orientation queries.'',
      json_object [(''type'', JString ''object''),
      (''properties'', json_object
        [(''level'', form_field ''integer'' [(''minimum'', JNumber (NInt 0)), (''maximum'', JNumber (NInt 2)), default_to (JNumber (NInt 2))]),
         (''top_k'', form_field ''integer'' [(''minimum'', JNumber (NInt 1)), (''maximum'', JNumber (NInt 50)), default_to (JNumber (NInt 10))])]),
      (''additionalProperties'', JBool False)])"

definition about_kb_graph_neighborhood :: "string \<times> json" where
  "about_kb_graph_neighborhood =
     (''Multi-hop neighbourhood of an explicit set of entity IDs (e.g. ['' @ sq ''abap:ZFIN_POST_JE'' @ '', '' @ sq ''rfc:BAPI_ACC_DOCUMENT_POST'' @ '']). PPR-ranked. Use after sap.docs.search or abap.adt.where_used has identified concrete entities.'',
      json_object [(''type'', JString ''object''),
      (''properties'', json_object
        [(''seeds'', form_field ''array'' [(''items'', form_field ''string'' []), (''minItems'', JNumber (NInt 1)), (''maxItems'', JNumber (NInt 20))]),
         (''max_hops'', form_field ''integer'' [(''minimum'', JNumber (NInt 1)), (''maximum'', JNumber (NInt 6)), default_to (JNumber (NInt 4))]),
         (''top_k'', form_field ''integer'' [(''minimum'', JNumber (NInt 1)), (''maximum'', JNumber (NInt 50)), default_to (JNumber (NInt 8))])]),
      (''required'', JArray (map JString [''seeds''])),
      (''additionalProperties'', JBool False)])"

definition about_create_purchase_order :: "string \<times> json" where
  "about_create_purchase_order =
     (''Walk the user through a guided purchase-order creation. Mid-execution the tool elicits vendor, material, quantity, cost centre, company code, currency, and delivery date '' @ em_dash @ '' declining the form cancels the operation without side-effects. Wires BAPI_PO_CREATE1 in write mode.'',
      json_object [(''type'', JString ''object''),
      (''properties'', json_object
        [(''vendor'', form_field ''string'' [described ''Initial vendor hint'']),
         (''material'', form_field ''string'' [described ''Initial material hint'']),
         (''quantity'', form_field ''number'' [described ''Initial quantity hint''])]),
      (''additionalProperties'', JBool False)])"

definition about_maintain_customer_master :: "string \<times> json" where
  "about_maintain_customer_master =
     (''Two-step elicitation walking the user through a customer master change: pick the data view, then fill in the scoped fields. Demonstrates *chained* elicitation calls '' @ em_dash @ '' each step has its own form and either step can be declined safely.'',
      json_object [(''type'', JString ''object''),
      (''properties'', json_object [(''customer'', form_field ''string'' [described ''Customer hint''])]),
      (''additionalProperties'', JBool False)])"

definition about_release_transport :: "string \<times> json" where
  "about_release_transport =
     (''Release a transport request with a confirmation form. Requires the user to re-type the transport ID and explicitly opt in to dangerous flags (skip_atc, release_dependents). Refuses entirely on clients that don'' @ [CHR 0x27] @ ''t advertise the elicitation capability.'',
      json_object [(''type'', JString ''object''),
      (''properties'', json_object [(''transport'', form_field ''string'' [described ''Initial transport hint''])]),
      (''additionalProperties'', JBool False)])"

definition about_abap_search :: "string \<times> json" where
  "about_abap_search =
     (''Hybrid search over the ABAP corpus.'', rag_search_schema)"

definition about_bpmn_find_process :: "string \<times> json" where
  "about_bpmn_find_process =
     (''Search the Signavio BPMN process repository.'', rag_search_schema)"

definition about_eam_search_apps :: "string \<times> json" where
  "about_eam_search_apps =
     (''Search the LeanIX EAM application fact sheets.'', rag_search_schema)"

definition about_sap_help_search :: "string \<times> json" where
  "about_sap_help_search =
     (''Search the SAP Help Portal corpus.'', rag_search_schema)"

definition shipped_about :: "(string \<times> string \<times> json) list" where
  "shipped_about =
     [(''sap.kb.navigate'', about_kb_navigate),
      (''sap.bp.search'', about_bp_search),
      (''sap.bp.get'', about_bp_get),
      (''sap.system.cache_stats'', about_system_cache_stats),
      (''sap.system.cache_invalidate'', about_system_cache_invalidate),
      (''sap.system.health'', about_system_health),
      (''sap.bapi.parse_return'', about_bapi_parse_return),
      (''sap.system.info'', about_system_info),
      (''sap.rfc.search'', about_rfc_search),
      (''sap.rfc.metadata'', about_rfc_metadata),
      (''sap.rfc.bulk_metadata'', about_rfc_bulk_metadata),
      (''sap.rfc.call'', about_rfc_call),
      (''sap.table.read'', about_table_read),
      (''sap.table.structure'', about_table_structure),
      (''sap.docs.search'', about_docs_search),
      (''abap.adt.get_program'', about_adt_get_program),
      (''abap.adt.get_class'', about_adt_get_class),
      (''abap.adt.get_interface'', about_adt_get_interface),
      (''abap.adt.get_include'', about_adt_get_include),
      (''abap.adt.get_function_module'', about_adt_get_function_module),
      (''abap.adt.get_package_contents'', about_adt_get_package_contents),
      (''abap.adt.get_cds_view'', about_adt_get_cds_view),
      (''abap.adt.search'', about_adt_search),
      (''abap.adt.where_used'', about_adt_where_used),
      (''abap.adt.get_table_contents'', about_adt_get_table_contents),
      (''abap.adt.activate'', about_adt_activate),
      (''kb.multi_hop'', about_kb_multi_hop),
      (''kb.global_query'', about_kb_global_query),
      (''kb.summarise'', about_kb_summarise),
      (''kb.graph_neighborhood'', about_kb_graph_neighborhood),
      (''sap.workflow.create_purchase_order'', about_create_purchase_order),
      (''sap.workflow.maintain_customer_master'', about_maintain_customer_master),
      (''sap.workflow.release_transport'', about_release_transport),
      (''abap.search'', about_abap_search),
      (''bpmn.find_process'', about_bpmn_find_process),
      (''eam.search_apps'', about_eam_search_apps),
      (''sap.help.search'', about_sap_help_search)]"

text \<open>What \<open>ToolDescriptor::new\<close> is given for a tool.\<close>

definition about_tool :: "string \<Rightarrow> string option \<times> tool_input_schema" where
  "about_tool n = (case map_of shipped_about n of Some (d, s) \<Rightarrow> (Some d, schema_from_value s) | None \<Rightarrow> (None, schema_object))"

section \<open>Defaults\<close>

definition default_navigate_depth :: nat where "default_navigate_depth = 1"

definition default_top_k :: nat where "default_top_k = 5"

definition default_bp_limit :: nat where "default_bp_limit = 10"

definition default_limit_20 :: nat where "default_limit_20 = 20"

definition default_lang :: string where "default_lang = ''EN''"

definition default_max_results :: nat where "default_max_results = 25"

definition default_max_rows_100 :: nat where "default_max_rows_100 = 100"

definition default_max_hops :: nat where "default_max_hops = 4"

definition default_top_k_graph :: nat where "default_top_k_graph = 8"

definition default_max_seeds :: nat where "default_max_seeds = 3"

definition default_top_k_3 :: nat where "default_top_k_3 = 3"

definition default_level_2 :: nat where "default_level_2 = 2"

definition default_top_k_10 :: nat where "default_top_k_10 = 10"

section \<open>Facts\<close>

text \<open>A closed object schema that requires only what it declares.\<close>

definition schema_closed :: "json \<Rightarrow> bool" where
  "schema_closed s \<longleftrightarrow> json_get ''type'' s = Some (JString ''object'') \<and>
     json_get ''additionalProperties'' s = Some (JBool False) \<and>
     (case json_get ''required'' s of
        None \<Rightarrow> True
      | Some r \<Rightarrow>
          (case (as_array r, Option.bind (json_get ''properties'' s) as_object) of
             (Some names, Some props) \<Rightarrow> list_all (\<lambda>n. case n of JString k \<Rightarrow> has_key k props | _ \<Rightarrow> False) names
           | _ \<Rightarrow> False))"

definition schema_default :: "string \<Rightarrow> string \<Rightarrow> json option" where
  "schema_default t arg =
     Option.bind (map_of shipped_about t) (\<lambda>(_, s).
       Option.bind (json_get ''properties'' s) (\<lambda>ps. Option.bind (json_get arg ps) (json_get ''default'')))"

lemma about_covers_tools: "set (map fst shipped_about) = set (map fst all_tools) \<and> distinct (map fst shipped_about)"
  by code_simp

text \<open>
  The tools announce what the code does. Descriptions and schemas are given for exactly the registered tools;
  each schema is a closed object that requires only declared properties and is served to the client as it was
  written; and what the schemas announce as defaults of these arguments, for which serde names a default function, is what
  that function returns.
\<close>

lemma schemas_announce_code:
  "set (map fst shipped_about) = set (map fst (rag_tools @ sap_tools @ adt_tools @ graph_tools @ workflow_tools)) \<and>
   list_all (\<lambda>(n, d, s). schema_closed s \<and> schema_to_json (schema_from_value s) = s) shipped_about \<and>
   list_all (\<lambda>(t, arg, v). schema_default t arg = Some v)
     [(''sap.kb.navigate'', ''depth'', JNumber (NInt (int default_navigate_depth))),
      (''abap.search'', ''top_k'', JNumber (NInt (int default_top_k))),
      (''sap.docs.search'', ''top_k'', JNumber (NInt (int default_top_k))),
      (''sap.bp.search'', ''limit'', JNumber (NInt (int default_bp_limit))),
      (''sap.rfc.search'', ''limit'', JNumber (NInt (int default_limit_20))),
      (''sap.rfc.metadata'', ''language'', JString default_lang),
      (''sap.rfc.bulk_metadata'', ''language'', JString default_lang),
      (''abap.adt.search'', ''max_results'', JNumber (NInt (int default_max_results))),
      (''abap.adt.get_table_contents'', ''max_rows'', JNumber (NInt (int default_max_rows_100))),
      (''kb.multi_hop'', ''max_hops'', JNumber (NInt (int default_max_hops))),
      (''kb.multi_hop'', ''top_k'', JNumber (NInt (int default_top_k_graph))),
      (''kb.multi_hop'', ''max_seeds'', JNumber (NInt (int default_max_seeds))),
      (''kb.global_query'', ''top_k'', JNumber (NInt (int default_top_k_3))),
      (''kb.summarise'', ''level'', JNumber (NInt (int default_level_2))),
      (''kb.summarise'', ''top_k'', JNumber (NInt (int default_top_k_10))),
      (''kb.graph_neighborhood'', ''max_hops'', JNumber (NInt (int default_max_hops))),
      (''kb.graph_neighborhood'', ''top_k'', JNumber (NInt (int default_top_k_graph)))]"
proof (intro conjI, goal_cases)
  case 1
  then show ?case using about_covers_tools by simp
next
  case 2
  then show ?case by code_simp
next
  case 3
  then show ?case by code_simp
qed

end
