(* ===== verification/Http_Client.thy ===== *)
theory Http_Client
  imports Prelude
begin

text \<open>
  What the two REST clients share (\<open>sap-automate-adt/src/http.rs\<close> and \<open>sap-automate-rfc/src/odata.rs\<close>, which have
  the same code): requests of the HTTP library, success statuses, the clock and the cache of one bearer token. The
  locale is the contract of a token source; both clients' sources are interpretations of it.
\<close>

section \<open>Requests and statuses\<close>

datatype http_method = Method_Get | Method_Post

datatype request_body = No_Body | Text_Body string | Form_Body "(string \<times> string) list"

definition is_success :: "nat \<Rightarrow> bool" where
  "is_success status \<longleftrightarrow> 200 \<le> status \<and> status < 300"

section \<open>Runs\<close>

text \<open>A run answers with a result, or \<open>None\<close> for a panic; an error or a panic ends it.\<close>

definition bind_run ::
  "('st \<Rightarrow> ('e, 'a) result option \<times> 'st) \<Rightarrow> ('a \<Rightarrow> 'st \<Rightarrow> ('e, 'b) result option \<times> 'st) \<Rightarrow> 'st \<Rightarrow> ('e, 'b) result option \<times> 'st" where
  "bind_run m f st =
     (case m st of
        (Some (Inr x), st') \<Rightarrow> f x st'
      | (Some (Inl e), st') \<Rightarrow> (Some (Inl e), st')
      | (None, st') \<Rightarrow> (None, st'))"

lemma bind_value: "m st = (Some (Inr x), st') \<Longrightarrow> bind_run m f st = f x st'"
  by (simp add: bind_run_def)

lemma bind_valueE:
  assumes "bind_run m f st = (Some (Inr y), st'')"
  obtains x st' where "m st = (Some (Inr x), st')" "f x st' = (Some (Inr y), st'')"
  using assms by (auto simp: bind_run_def split: prod.splits option.splits sum.splits)

section \<open>Instants and lifetimes\<close>

definition token_ttl :: "nat option \<Rightarrow> nat" where
  "token_ttl expires_in = max ((case expires_in of Some n \<Rightarrow> n | None \<Rightarrow> 3600) - 60) 1"

definition second :: nat where "second = 1000000000"

text \<open>The end of a lifetime given in seconds, if it is in the clock's range.\<close>

definition instant_add :: "nat \<Rightarrow> nat \<Rightarrow> nat option" where
  "instant_add now secs = (if now div second + secs < 2 ^ 63 then Some (now + secs * second) else None)"

text \<open>The lifetime, in seconds, of a token that was issued: what the answer says, less a minute, at least a second.\<close>

lemma token_ttl_bounds:
  "1 \<le> token_ttl e" "61 \<le> n \<Longrightarrow> token_ttl (Some n) = n - 60" "n < 61 \<Longrightarrow> token_ttl (Some n) = 1" "token_ttl None = 3540"
  by (auto simp: token_ttl_def)

section \<open>A cached token\<close>

text \<open>A slot holds a token and the instant at which it expires.\<close>

definition live_token :: "(string \<times> nat) option \<Rightarrow> nat \<Rightarrow> string option" where
  "live_token slot now = (case slot of Some (token, expires_at) \<Rightarrow> if expires_at > now then Some token else None | None \<Rightarrow> None)"

lemma live_token_Some: "live_token slot now = Some token \<longleftrightarrow> (\<exists>expires_at. slot = Some (token, expires_at) \<and> now < expires_at)"
  by (auto simp: live_token_def split: option.splits)

lemma lifetime_live: "live_token (Some (t, now + token_ttl e * second)) now = Some t"
  using token_ttl_bounds(1) [of e] by (simp add: live_token_def second_def)

section \<open>Sources of tokens\<close>

text \<open>
  A source hands out the cached token while it is alive and otherwise sends one request, whose token it caches for
  its lifetime. \<open>usable\<close> is false where the cache is out of order.
\<close>

locale token_source =
  fixes get :: "'st \<Rightarrow> ('e, string) result option \<times> 'st"
    and slot :: "'st \<Rightarrow> (string \<times> nat) option"
    and now :: "'st \<Rightarrow> nat"
    and sent :: "'st \<Rightarrow> nat"
    and usable :: "'st \<Rightarrow> bool"
  assumes from_cache: "usable st \<Longrightarrow> live_token (slot st) (now st) = Some t \<Longrightarrow> get st = (Some (Inr t), st)"
    and fetched: "usable st \<Longrightarrow> live_token (slot st) (now st) = None \<Longrightarrow> get st = (Some (Inr t), st') \<Longrightarrow>
      usable st' \<and> sent st' = Suc (sent st) \<and> (\<exists>e. slot st' = Some (t, now st' + token_ttl e * second))"
begin

lemma returned_live:
  assumes "usable st" "get st = (Some (Inr t), st')"
  shows "usable st' \<and> live_token (slot st') (now st') = Some t"
proof (cases "live_token (slot st) (now st)")
  case None
  then show ?thesis using fetched [OF assms(1) None assms(2)] by (auto simp: lifetime_live)
next
  case (Some u)
  then show ?thesis using from_cache [OF assms(1) Some] assms by auto
qed

lemma reused:
  assumes "usable st" "get st = (Some (Inr t), st')"
  shows "get st' = (Some (Inr t), st')"
  using returned_live [OF assms] from_cache by blast

lemma at_most_one_request:
  assumes "usable st" "get st = (Some (Inr t), st')"
  shows "sent st' \<le> Suc (sent st)"
proof (cases "live_token (slot st) (now st)")
  case None
  then show ?thesis using fetched [OF assms(1) None assms(2)] by simp
next
  case (Some u)
  then show ?thesis using from_cache [OF assms(1) Some] assms by auto
qed

end

end
