(* ===== verification/Odata.thy ===== *)
theory Odata
  imports Http_Client
begin

text \<open>
  The OData client of the business-partner service (\<open>sap-automate-rfc/src/odata.rs\<close>): authentication modes and their
  checks, the clients built from the environment, the token cache behind a mutex, and the three reads. The HTTP
  library, the clock and the JSON decoders are the environment. A panic is \<open>None\<close>; one that strikes while the cache is
  locked poisons the mutex, and the code then goes on without the cache. Shown: every call sends its request once with
  the configured credentials, reports what the answer says and keeps a token for its lifetime; whatever is searched for
  stays inside its literal, an id only while it has no character that ends a URL's path; when a call panics.
\<close>

section \<open>Errors and configuration\<close>

datatype odata_error =
    Od_Http string
  | Od_MissingApiKey
  | Od_AuthConfig string
  | Od_Status nat string
  | Od_Parse string

type_synonym 'a odata_result = "(odata_error, 'a) result"

fun odata_error_display :: "odata_error \<Rightarrow> string" where
  "odata_error_display (Od_Http e) = ''http: '' @ e"
| "odata_error_display Od_MissingApiKey = ''auth: API key missing or empty''"
| "odata_error_display (Od_AuthConfig e) = ''auth misconfigured: '' @ e"
| "odata_error_display (Od_Status status body) = ''server returned '' @ show_nat status @ '': '' @ body"
| "odata_error_display (Od_Parse e) = ''malformed OData response: '' @ e"

definition BUSINESS_PARTNER_V4_PATH :: string where
  "BUSINESS_PARTNER_V4_PATH = ''/sap/opu/odata4/sap/api_business_partner/srvd_a2x/sap/businesspartner/0001''"

text \<open>\<open>Odata_OAuth2 token_url client_id client_secret scope\<close>.\<close>

datatype odata_auth =
    Odata_ApiKey string
  | Odata_Basic string string
  | Odata_Bearer string
  | Odata_OAuth2 string string string "string option"

fun odata_auth_label :: "odata_auth \<Rightarrow> string" where
  "odata_auth_label (Odata_ApiKey _) = ''api_key''"
| "odata_auth_label (Odata_Basic _ _) = ''basic''"
| "odata_auth_label (Odata_Bearer _) = ''bearer''"
| "odata_auth_label (Odata_OAuth2 _ _ _ _) = ''oauth2_client_credentials''"

fun odata_validate :: "odata_auth \<Rightarrow> unit odata_result" where
  "odata_validate (Odata_ApiKey k) = (if trim k = [] then Inl Od_MissingApiKey else Inr ())"
| "odata_validate (Odata_Basic user password) =
     (if trim user = [] then Inl (Od_AuthConfig ''basic auth requires a non-empty user'') else Inr ())"
| "odata_validate (Odata_Bearer t) =
     (if trim t = [] then Inl (Od_AuthConfig ''bearer auth requires a non-empty token'') else Inr ())"
| "odata_validate (Odata_OAuth2 token_url client_id client_secret scope) =
     (if trim token_url = [] \<or> trim client_id = [] \<or> trim client_secret = []
      then Inl (Od_AuthConfig ''oauth2 requires token_url, client_id and client_secret'') else Inr ())"

definition odata_auth_debug :: "odata_auth \<Rightarrow> string" where
  "odata_auth_debug auth = ''OdataAuth::'' @ odata_auth_label auth"

record odata_config =
  oc_base_url :: string
  oc_auth :: odata_auth
  oc_timeout_secs :: nat

definition business_partner_sandbox :: "string \<Rightarrow> odata_config" where
  "business_partner_sandbox api_key =
     \<lparr> oc_base_url = ''https://sandbox.api.sap.com/s4hanacloud'' @ BUSINESS_PARTNER_V4_PATH,
       oc_auth = Odata_ApiKey api_key, oc_timeout_secs = 15 \<rparr>"

definition tenant_business_partner :: "string \<Rightarrow> odata_auth \<Rightarrow> odata_config" where
  "tenant_business_partner host auth =
     \<lparr> oc_base_url = trim_end_matches (CHR ''/'') host @ BUSINESS_PARTNER_V4_PATH, oc_auth = auth, oc_timeout_secs = 15 \<rparr>"

definition odata_config_new :: "string \<Rightarrow> odata_auth \<Rightarrow> odata_config" where
  "odata_config_new base_url auth = \<lparr> oc_base_url = base_url, oc_auth = auth, oc_timeout_secs = 15 \<rparr>"

record business_partner =
  bp_id :: string
  bp_full_name :: "string option"
  bp_category :: "string option"
  bp_organization_name :: "string option"
  bp_first_name :: "string option"
  bp_last_name :: "string option"
  bp_grouping :: "string option"
  bp_creation_date :: "string option"

definition BP_SELECT :: string where
  "BP_SELECT = ''BusinessPartner,BusinessPartnerFullName,BusinessPartnerCategory,OrganizationBPName1,FirstName,LastName,'' @
     ''BusinessPartnerGrouping,CreationDate''"

section \<open>The client\<close>

text \<open>The cached token with its expiry, and whether a panic has poisoned the mutex around it.\<close>

record odata_client =
  oh_config :: odata_config
  oh_token :: "(string \<times> nat) option"
  oh_poisoned :: bool

text \<open>The builder of the HTTP client answers with an error or nothing.\<close>

definition odata_new :: "string option \<Rightarrow> odata_config \<Rightarrow> odata_client odata_result" where
  "odata_new build_error config =
     bind_result (odata_validate (oc_auth config)) (\<lambda>_.
       case build_error of
         Some e \<Rightarrow> Inl (Od_Http e)
       | None \<Rightarrow> Inr \<lparr> oh_config = config, oh_token = None, oh_poisoned = False \<rparr>)"

definition odata_from_key :: "string option \<Rightarrow> string \<Rightarrow> odata_client odata_result option" where
  "odata_from_key build_error key =
     (if trim key = [] then None else Some (odata_new build_error (business_partner_sandbox key)))"

text \<open>The environment maps a variable to its value if it is set to Unicode text.\<close>

definition tenant_from_env :: "string option \<Rightarrow> (string \<Rightarrow> string option) \<Rightarrow> string \<Rightarrow> odata_client odata_result" where
  "tenant_from_env build_error env base_url =
     (let mode = ascii_lowercase (case env ''SAP_ODATA_AUTH'' of Some m \<Rightarrow> m | None \<Rightarrow> ''basic'');
          get = (\<lambda>k. case env k of Some v \<Rightarrow> v | None \<Rightarrow> []);
          auth = (if mode = ''basic'' then Inr (Odata_Basic (get ''SAP_ODATA_USER'') (get ''SAP_ODATA_PASSWORD''))
                  else if mode = ''bearer'' then Inr (Odata_Bearer (get ''SAP_ODATA_TOKEN''))
                  else if mode = ''oauth'' \<or> mode = ''oauth2'' then
                    Inr (Odata_OAuth2 (get ''SAP_ODATA_TOKEN_URL'') (get ''SAP_ODATA_CLIENT_ID'') (get ''SAP_ODATA_CLIENT_SECRET'')
                      (case env ''SAP_ODATA_SCOPE'' of Some s \<Rightarrow> if s = [] then None else Some s | None \<Rightarrow> None))
                  else Inl (Od_AuthConfig (''unknown SAP_ODATA_AUTH '' @ sq mode @ '' (expected basic|bearer|oauth)'')))
      in bind_result auth (\<lambda>auth. odata_new build_error
           (if contains_sub base_url ''/sap/opu/odata'' then odata_config_new base_url auth
            else tenant_business_partner base_url auth)))"

definition odata_from_env :: "string option \<Rightarrow> (string \<Rightarrow> string option) \<Rightarrow> odata_client odata_result option" where
  "odata_from_env build_error env =
     (case (case env ''SAP_ODATA_BASE_URL'' of Some s \<Rightarrow> if s = [] then None else Some s | None \<Rightarrow> None) of
        Some base \<Rightarrow> Some (tenant_from_env build_error env base)
      | None \<Rightarrow>
          (case env ''SAP_BUSINESS_HUB_KEY'' of
             Some key \<Rightarrow> odata_from_key build_error key
           | None \<Rightarrow> None))"

section \<open>Requests\<close>

text \<open>
  A request as it is given to the HTTP library: \<open>oq_url\<close> is the text the library parses, \<open>oq_query\<close> the pairs it encodes
  and appends. Parsing and encoding are the library's, a part of \<open>oe_send\<close> below; what a parser of URLs takes for the
  path of \<open>oq_url\<close> is \<open>url_path\<close>.
\<close>

record odata_request =
  oq_method :: http_method
  oq_url :: string
  oq_headers :: "(string \<times> string) list"
  oq_query :: "(string \<times> string) list"
  oq_basic_auth :: "(string \<times> string) option"
  oq_bearer_auth :: "string option"
  oq_body :: request_body

text \<open>
  \<open>Od_Answer status body\<close>: the status code and the body or the error of reading it. A request with a header the
  library does not accept fails when it is sent.
\<close>

datatype odata_answer =
    Od_Failed string
  | Od_Answer nat "(string, string) result"

record 's odata_env =
  oe_send :: "odata_request \<Rightarrow> 's \<Rightarrow> odata_answer \<times> 's"
  oe_now :: "'s \<Rightarrow> nat"
  oe_token_response :: "string \<Rightarrow> (string, string \<times> nat option) result"
  oe_collection :: "string \<Rightarrow> (string, business_partner list) result"
  oe_partner :: "string \<Rightarrow> (string, business_partner) result"

type_synonym ('a, 's) odata_run = "odata_client \<times> 's \<Rightarrow> 'a odata_result option \<times> odata_client \<times> 's"

definition send_odata :: "'s odata_env \<Rightarrow> odata_request \<Rightarrow> (odata_answer, 's) odata_run" where
  "send_odata E rq = (\<lambda>(c, s). case oe_send E rq s of (ans, s') \<Rightarrow> (Some (Inr ans), c, s'))"

text \<open>\<open>truncate_body\<close>: the cut moves left to a character boundary; \<open>None\<close> is a slice inside a character.\<close>

definition truncate_body :: "string \<Rightarrow> string option" where
  "truncate_body s =
     (if length s \<le> 300 then Some s
      else (let e = boundary_at_or_below s 300
            in map_option (\<lambda>p. p @ ellipsis @ ''[+'' @ show_nat (length s - e) @ '' more chars]'') (slice_to s e)))"

subsection \<open>The token\<close>

definition oauth_form :: "string option \<Rightarrow> (string \<times> string) list" where
  "oauth_form scope = (''grant_type'', ''client_credentials'') # (case scope of Some s \<Rightarrow> [(''scope'', s)] | None \<Rightarrow> [])"

definition oauth_request :: "string \<Rightarrow> string \<Rightarrow> string \<Rightarrow> string option \<Rightarrow> odata_request" where
  "oauth_request token_url client_id client_secret scope =
     \<lparr> oq_method = Method_Post, oq_url = token_url, oq_headers = [], oq_query = [],
       oq_basic_auth = Some (client_id, client_secret), oq_bearer_auth = None, oq_body = Form_Body (oauth_form scope) \<rparr>"

text \<open>Storing the token: skipped when the mutex is poisoned; the clock's overflow panics with the mutex held.\<close>

definition store_token :: "nat \<Rightarrow> string \<Rightarrow> nat option \<Rightarrow> odata_client \<Rightarrow> string odata_result option \<times> odata_client" where
  "store_token now token expires_in c =
     (if oh_poisoned c then (Some (Inr token), c)
      else (case instant_add now (token_ttl expires_in) of
              None \<Rightarrow> (None, c\<lparr> oh_poisoned := True \<rparr>)
            | Some expires_at \<Rightarrow> (Some (Inr token), c\<lparr> oh_token := Some (token, expires_at) \<rparr>)))"

definition failed_status :: "nat \<Rightarrow> string \<Rightarrow> 'a odata_result option" where
  "failed_status status body = map_option (\<lambda>b. Inl (Od_Status status b)) (truncate_body body)"

definition oauth_answer :: "'s odata_env \<Rightarrow> odata_answer \<Rightarrow> (string, 's) odata_run" where
  "oauth_answer E ans = (\<lambda>(c, s).
     case ans of
       Od_Failed e \<Rightarrow> (Some (Inl (Od_Http e)), c, s)
     | Od_Answer status (Inl e) \<Rightarrow> (Some (Inl (Od_Http e)), c, s)
     | Od_Answer status (Inr body) \<Rightarrow>
         if \<not> is_success status then (failed_status status body, c, s)
         else (case oe_token_response E body of
                 Inl e \<Rightarrow> (Some (Inl (Od_Parse (''token response: '' @ e))), c, s)
               | Inr (token, expires_in) \<Rightarrow>
                   (case store_token (oe_now E s) token expires_in c of (r, c') \<Rightarrow> (r, c', s))))"

text \<open>The token the cache offers: none once the mutex is poisoned.\<close>

definition usable_token :: "odata_client \<Rightarrow> nat \<Rightarrow> string option" where
  "usable_token c now = (if oh_poisoned c then None else live_token (oh_token c) now)"

definition oauth_token :: "'s odata_env \<Rightarrow> (string, 's) odata_run" where
  "oauth_token E = (\<lambda>(c, s).
     case oc_auth (oh_config c) of
       Odata_OAuth2 token_url client_id client_secret scope \<Rightarrow>
         (case usable_token c (oe_now E s) of
            Some token \<Rightarrow> (Some (Inr token), c, s)
          | None \<Rightarrow> bind_run (send_odata E (oauth_request token_url client_id client_secret scope)) (oauth_answer E) (c, s))
     | _ \<Rightarrow> (Some (Inl (Od_AuthConfig ''oauth token requested for non-oauth auth'')), c, s))"

definition apply_auth :: "'s odata_env \<Rightarrow> odata_request \<Rightarrow> (odata_request, 's) odata_run" where
  "apply_auth E rq = (\<lambda>(c, s).
     case oc_auth (oh_config c) of
       Odata_ApiKey k \<Rightarrow> (Some (Inr (rq\<lparr> oq_headers := oq_headers rq @ [(''APIKey'', k)] \<rparr>)), c, s)
     | Odata_Basic user password \<Rightarrow> (Some (Inr (rq\<lparr> oq_basic_auth := Some (user, password) \<rparr>)), c, s)
     | Odata_Bearer t \<Rightarrow> (Some (Inr (rq\<lparr> oq_bearer_auth := Some t \<rparr>)), c, s)
     | Odata_OAuth2 _ _ _ _ \<Rightarrow>
         bind_run (oauth_token E) (\<lambda>token st. (Some (Inr (rq\<lparr> oq_bearer_auth := Some token \<rparr>)), st)) (c, s))"

subsection \<open>The reads\<close>

definition entity_set_url :: "odata_config \<Rightarrow> string" where
  "entity_set_url config = trim_end_matches (CHR ''/'') (oc_base_url config) @ ''/A_BusinessPartner''"

definition quote_char :: char where "quote_char = CHR 0x27"

definition double_quotes :: "string \<Rightarrow> string" where
  "double_quotes s = replace_char quote_char [quote_char, quote_char] s"

definition odata_get :: "string \<Rightarrow> (string \<times> string) list \<Rightarrow> odata_request" where
  "odata_get url query = \<lparr> oq_method = Method_Get, oq_url = url, oq_headers = [(''Accept'', ''application/json'')],
     oq_query = query, oq_basic_auth = None, oq_bearer_auth = None, oq_body = No_Body \<rparr>"

definition name_filter :: "string \<Rightarrow> string" where
  "name_filter query = ''contains(BusinessPartnerFullName,'' @ sq (double_quotes query) @ '')''"

definition search_request :: "odata_config \<Rightarrow> string \<Rightarrow> nat \<Rightarrow> odata_request" where
  "search_request config query n =
     odata_get (entity_set_url config) [(''$top'', show_nat n), (''$filter'', name_filter query), (''$select'', BP_SELECT)]"

definition list_request :: "odata_config \<Rightarrow> nat \<Rightarrow> odata_request" where
  "list_request config n = odata_get (entity_set_url config) [(''$top'', show_nat n), (''$select'', BP_SELECT)]"

definition partner_request :: "odata_config \<Rightarrow> string \<Rightarrow> odata_request" where
  "partner_request config id' =
     odata_get (entity_set_url config @ ''('' @ sq (double_quotes id') @ '')'') []"

text \<open>What both readers make of an answer: the decoder is the collection's or the entity's.\<close>

definition read_answer :: "(string \<Rightarrow> (string, 'a) result) \<Rightarrow> odata_answer \<Rightarrow> 'a odata_result option" where
  "read_answer decode ans =
     (case ans of
        Od_Failed e \<Rightarrow> Some (Inl (Od_Http e))
      | Od_Answer status (Inl e) \<Rightarrow> Some (Inl (Od_Http e))
      | Od_Answer status (Inr body) \<Rightarrow>
          if \<not> is_success status then failed_status status body
          else (case decode body of
                  Inl e \<Rightarrow> map_option (\<lambda>b. Inl (Od_Parse (e @ ''; body prefix: '' @ b))) (truncate_body body)
                | Inr x \<Rightarrow> Some (Inr x)))"

definition exchange :: "'s odata_env \<Rightarrow> (string \<Rightarrow> (string, 'a) result) \<Rightarrow> odata_request \<Rightarrow> ('a, 's) odata_run" where
  "exchange E decode rq =
     bind_run (apply_auth E rq) (\<lambda>rq.
     bind_run (send_odata E rq) (\<lambda>ans st. (read_answer decode ans, st)))"

definition search_business_partners :: "'s odata_env \<Rightarrow> string \<Rightarrow> nat \<Rightarrow> (business_partner list, 's) odata_run" where
  "search_business_partners E query n = (\<lambda>(c, s). exchange E (oe_collection E) (search_request (oh_config c) query n) (c, s))"

definition list_business_partners :: "'s odata_env \<Rightarrow> nat \<Rightarrow> (business_partner list, 's) odata_run" where
  "list_business_partners E n = (\<lambda>(c, s). exchange E (oe_collection E) (list_request (oh_config c) n) (c, s))"

definition get_business_partner :: "'s odata_env \<Rightarrow> string \<Rightarrow> (business_partner, 's) odata_run" where
  "get_business_partner E id' = (\<lambda>(c, s). exchange E (oe_partner E) (partner_request (oh_config c) id') (c, s))"

section \<open>Validation\<close>

lemma odata_new_validated:
  assumes "odata_new build_error config = Inr c"
  shows "oh_config c = config \<and> odata_validate (oc_auth (oh_config c)) = Inr ()"
  using assms by (auto simp: odata_new_def split: option.splits)

lemma built_clients_validated:
  assumes "odata_from_env build_error env = Some (Inr c)"
  shows "odata_validate (oc_auth (oh_config c)) = Inr ()"
proof -
  have "\<exists>config. odata_new build_error config = Inr c"
  proof (cases "\<exists>base. tenant_from_env build_error env base = Inr c")
    case True
    then show ?thesis by (force simp only: tenant_from_env_def Let_def bind_result_eq_Inr)
  next
    case False
    then show ?thesis
      using assms by (auto simp: odata_from_env_def odata_from_key_def split: option.splits if_splits)
  qed
  then show ?thesis using odata_new_validated by blast
qed

text \<open>Without a base URL and without a key there is no client; with a base URL the key is not looked at.\<close>

lemma from_env_choice:
  assumes "\<And>k. k \<noteq> ''SAP_BUSINESS_HUB_KEY'' \<Longrightarrow> env k = env' k" "env ''SAP_ODATA_BASE_URL'' = Some base" "base \<noteq> []"
  shows "odata_from_env b env = odata_from_env b env'"
proof -
  have "env' ''SAP_ODATA_BASE_URL'' = Some base" using assms(1) [of "''SAP_ODATA_BASE_URL''"] assms(2) by simp
  moreover have "tenant_from_env b env base = tenant_from_env b env' base"
    using assms(1) [of "''SAP_ODATA_AUTH''"] assms(1) [of "''SAP_ODATA_USER''"] assms(1) [of "''SAP_ODATA_PASSWORD''"]
      assms(1) [of "''SAP_ODATA_TOKEN''"] assms(1) [of "''SAP_ODATA_TOKEN_URL''"] assms(1) [of "''SAP_ODATA_CLIENT_ID''"]
      assms(1) [of "''SAP_ODATA_CLIENT_SECRET''"] assms(1) [of "''SAP_ODATA_SCOPE''"]
    unfolding tenant_from_env_def by (simp cong: if_cong)
  ultimately show ?thesis using assms(2,3) by (simp add: odata_from_env_def)
qed

section \<open>Literals\<close>

text \<open>
  The reader of an OData string literal, after its opening quote: a doubled quote is a quote, a single one ends
  the literal. The rest of the text comes with the value.
\<close>

fun read_literal :: "string \<Rightarrow> (string \<times> string) option" where
  "read_literal [] = None"
| "read_literal [c] = (if c = quote_char then Some ([], []) else None)"
| "read_literal (c # c' # s) =
     (if c \<noteq> quote_char then map_option (apfst ((#) c)) (read_literal (c' # s))
      else if c' = quote_char then map_option (apfst ((#) c)) (read_literal s)
      else Some ([], c' # s))"

lemma double_quotes_simps [simp]:
  "double_quotes [] = []" "double_quotes (c # s) = (if c = quote_char then [c, c] else [c]) @ double_quotes s"
  by (simp_all add: double_quotes_def replace_char_def)

lemma read_literal_other: "c \<noteq> quote_char \<Longrightarrow> read_literal (c # s) = map_option (apfst ((#) c)) (read_literal s)"
  by (cases s) simp_all

lemma read_double_quotes:
  assumes "rest = [] \<or> hd rest \<noteq> quote_char"
  shows "read_literal (double_quotes v @ quote_char # rest) = Some (v, rest)"
proof (induction v)
  case Nil
  then show ?case using assms by (cases rest) auto
next
  case (Cons c v)
  then show ?case by (cases "c = quote_char") (simp_all add: read_literal_other)
qed

text \<open>A call \<open>name('value')\<close> in a text: what stands before the literal and after it is fixed.\<close>

definition read_call :: "string \<Rightarrow> string \<Rightarrow> string option" where
  "read_call start s =
     (case strip_prefix (start @ [quote_char]) s of
        Some r \<Rightarrow> (case read_literal r of Some (v, rest) \<Rightarrow> if rest = '')'' then Some v else None | None \<Rightarrow> None)
      | None \<Rightarrow> None)"

lemma read_call_quoted: "read_call start (start @ sq (double_quotes v) @ '')'') = Some v"
proof -
  have "start @ sq (double_quotes v) @ '')'' = (start @ [quote_char]) @ (double_quotes v @ quote_char # '')'')"
    by (simp add: sq_def quote_char_def)
  moreover have "strip_prefix (start @ [quote_char]) ((start @ [quote_char]) @ r) = Some r" for r
    by (simp only: strip_prefix_Some)
  moreover have "read_literal (double_quotes v @ quote_char # '')'') = Some (v, '')'')"
    by (rule read_double_quotes) (simp add: quote_char_def)
  ultimately show ?thesis unfolding read_call_def by simp
qed

section \<open>Cut bodies\<close>

lemma truncate_body_ok: "truncate_body s \<noteq> None"
  by (auto simp: truncate_body_def Let_def slice_to_def boundary_ok)

lemma failed_status_ok: "failed_status status body \<noteq> None"
  using truncate_body_ok by (auto simp: failed_status_def)

lemma read_answer_ok: "read_answer decode ans \<noteq> None"
  using truncate_body_ok failed_status_ok by (auto simp: read_answer_def split: odata_answer.splits sum.splits)

section \<open>What a call sends\<close>

type_synonym odata_log = "(odata_request \<times> odata_answer) list"

definition logged_odata :: "'s odata_env \<Rightarrow> ('s \<times> odata_log) odata_env" where
  "logged_odata E =
     \<lparr> oe_send = (\<lambda>rq (s, l). case oe_send E rq s of (ans, s') \<Rightarrow> (ans, s', l @ [(rq, ans)])),
       oe_now = (\<lambda>(s, l). oe_now E s), oe_token_response = oe_token_response E, oe_collection = oe_collection E,
       oe_partner = oe_partner E \<rparr>"

lemma logged_odata_simps [simp]:
  "oe_now (logged_odata E) (s, l) = oe_now E s" "oe_token_response (logged_odata E) = oe_token_response E"
  "oe_collection (logged_odata E) = oe_collection E" "oe_partner (logged_odata E) = oe_partner E"
  by (simp_all add: logged_odata_def)

lemma send_odata_logged:
  obtains ans s' where "send_odata (logged_odata E) q (c, s, l) = (Some (Inr ans), c, s', l @ [(q, ans)])"
  by (cases "oe_send E q s") (simp add: send_odata_def logged_odata_def)

text \<open>The token an answer brings, if it brings one, and the seconds it is kept for.\<close>

definition answer_token :: "'s odata_env \<Rightarrow> odata_answer \<Rightarrow> (string \<times> nat option) option" where
  "answer_token E ans =
     (case ans of
        Od_Answer status (Inr body) \<Rightarrow>
          if 200 \<le> status \<and> status < 300 then (case oe_token_response E body of Inr te \<Rightarrow> Some te | Inl _ \<Rightarrow> None) else None
      | _ \<Rightarrow> None)"

definition granted_ttl :: "nat option \<Rightarrow> nat" where
  "granted_ttl e = max 1 ((case e of Some n \<Rightarrow> n | None \<Rightarrow> 3600) - 60)"

lemma oauth_answer_cases:
  obtains (refused) e where "answer_token E ans = None" "oauth_answer E ans (c, s) = (Some (Inl e), c, s)"
    | (issued) token e where "answer_token E ans = Some (token, e)"
        "oauth_answer E ans (c, s) = (fst (store_token (oe_now E s) token e c), snd (store_token (oe_now E s) token e c), s)"
proof (cases ans)
  case (Od_Failed e)
  then show ?thesis by (intro refused [of "Od_Http e"]) (simp_all add: answer_token_def oauth_answer_def)
next
  case (Od_Answer status b)
  show ?thesis
  proof (cases b)
    case (Inl e)
    then show ?thesis using Od_Answer by (intro refused [of "Od_Http e"]) (simp_all add: answer_token_def oauth_answer_def)
  next
    case (Inr body)
    obtain cut where cut: "truncate_body body = Some cut" using truncate_body_ok by blast
    show ?thesis
    proof (cases "is_success status")
      case False
      then show ?thesis using Od_Answer Inr cut
        by (intro refused [of "Od_Status status cut"]) (auto simp: answer_token_def oauth_answer_def failed_status_def is_success_def)
    next
      case True
      show ?thesis
      proof (cases "oe_token_response E body")
        case (Inl e)
        then show ?thesis using Od_Answer Inr True
          by (intro refused [of "Od_Parse (''token response: '' @ e)"]) (simp_all add: answer_token_def oauth_answer_def is_success_def)
      next
        case te: (Inr te)
        obtain token e where "te = (token, e)" by (cases te)
        then show ?thesis using Od_Answer Inr True te
          by (intro issued [of token e]) (simp_all add: answer_token_def oauth_answer_def split_def is_success_def)
      qed
    qed
  qed
qed

text \<open>The request for a token, as the client-credentials grant has it.\<close>

definition token_post :: "string \<Rightarrow> string \<Rightarrow> string \<Rightarrow> string option \<Rightarrow> odata_request" where
  "token_post url client_id client_secret scope =
     \<lparr> oq_method = Method_Post, oq_url = url, oq_headers = [], oq_query = [], oq_basic_auth = Some (client_id, client_secret),
       oq_bearer_auth = None,
       oq_body = Form_Body ((''grant_type'', ''client_credentials'') # (case scope of Some s \<Rightarrow> [(''scope'', s)] | None \<Rightarrow> [])) \<rparr>"

lemma oauth_request_post: "oauth_request = token_post"
  by (simp add: fun_eq_iff oauth_request_def token_post_def oauth_form_def)

text \<open>What a call reports of an answer; long bodies are cut to 300 bytes at most.\<close>

definition body_cut :: "string \<Rightarrow> string \<Rightarrow> bool" where
  "body_cut body b \<longleftrightarrow>
     (if length body \<le> 300 then b = body
      else \<exists>p rest. body = p @ rest \<and> length p \<le> 300 \<and> b = p @ ellipsis @ ''[+'' @ show_nat (length rest) @ '' more chars]'')"

definition answer_says :: "(string \<Rightarrow> (string, 'a) result) \<Rightarrow> odata_answer \<Rightarrow> 'a odata_result option \<Rightarrow> bool" where
  "answer_says decode ans r \<longleftrightarrow>
     (case ans of
        Od_Failed e \<Rightarrow> r = Some (Inl (Od_Http e))
      | Od_Answer status (Inl e) \<Rightarrow> r = Some (Inl (Od_Http e))
      | Od_Answer status (Inr body) \<Rightarrow>
          if 200 \<le> status \<and> status < 300
          then (case decode body of
                  Inr x \<Rightarrow> r = Some (Inr x)
                | Inl e \<Rightarrow> \<exists>b. body_cut body b \<and> r = Some (Inl (Od_Parse (e @ ''; body prefix: '' @ b))))
          else \<exists>b. body_cut body b \<and> r = Some (Inl (Od_Status status b)))"

lemma boundary_below: "boundary_at_or_below s n \<le> n"
  by (induction n) auto

lemma truncate_body_cut: "truncate_body body = Some b \<Longrightarrow> body_cut body b"
proof -
  assume b: "truncate_body body = Some b"
  let ?e = "boundary_at_or_below body 300"
  show ?thesis
  proof (cases "length body \<le> 300")
    case False
    then have "b = take ?e body @ ellipsis @ ''[+'' @ show_nat (length body - ?e) @ '' more chars]''"
      using b by (auto simp: truncate_body_def Let_def slice_to_def boundary_ok)
    then have "body = take ?e body @ drop ?e body \<and> length (take ?e body) \<le> 300 \<and>
        b = take ?e body @ ellipsis @ ''[+'' @ show_nat (length (drop ?e body)) @ '' more chars]''"
      using boundary_below [of body 300] by (simp add: min.coboundedI2)
    then show ?thesis unfolding body_cut_def using False by metis
  qed (use b in \<open>simp add: truncate_body_def body_cut_def\<close>)
qed

lemma read_answer_says: "answer_says decode ans (read_answer decode ans)"
proof (cases ans)
  case (Od_Answer status body)
  show ?thesis
  proof (cases body)
    case (Inr answered)
    obtain b where b: "truncate_body answered = Some b" using truncate_body_ok by blast
    from truncate_body_cut [OF b] show ?thesis
      using Od_Answer Inr b by (auto simp: answer_says_def read_answer_def failed_status_def is_success_def split: sum.split)
  qed (simp add: Od_Answer answer_says_def read_answer_def)
qed (simp add: answer_says_def read_answer_def)

text \<open>
  The exchanges allowed for a request, from a state of the world and the client: the request is sent once with the
  configured credentials and its answer reported. For OAuth2 the credential is the kept token while it is good;
  otherwise the token request goes first, and what it brings is sent with the request and kept, unless the cache is
  poisoned, until its lifetime is over. If it brings no token the request is not sent; if its lifetime reaches past
  the clock's range while the cache is in order, the call panics.
\<close>

definition sent_after ::
  "'s odata_env \<Rightarrow> (string \<Rightarrow> (string, 'a) result) \<Rightarrow> odata_request \<Rightarrow> odata_client \<Rightarrow> 's \<Rightarrow> odata_log \<Rightarrow>
     'a odata_result option \<Rightarrow> odata_client \<Rightarrow> 's \<Rightarrow> odata_log \<Rightarrow> bool" where
  "sent_after E decode q c s before r c' s' sent \<longleftrightarrow>
     (case oe_send E q s of (ans, s2) \<Rightarrow> sent = before @ [(q, ans)] \<and> answer_says decode ans r \<and> c' = c \<and> s' = s2)"

definition good_token :: "odata_client \<Rightarrow> nat \<Rightarrow> string option" where
  "good_token c now =
     (case oh_token c of Some (token, expires_at) \<Rightarrow> if \<not> oh_poisoned c \<and> now < expires_at then Some token else None | None \<Rightarrow> None)"

definition odata_exchanged ::
  "'s odata_env \<Rightarrow> (string \<Rightarrow> (string, 'a) result) \<Rightarrow> odata_request \<Rightarrow> odata_client \<Rightarrow> 's \<Rightarrow>
     'a odata_result option \<Rightarrow> odata_client \<Rightarrow> 's \<Rightarrow> odata_log \<Rightarrow> bool" where
  "odata_exchanged E decode rq c s r c' s' sent \<longleftrightarrow>
     (case oc_auth (oh_config c) of
        Odata_ApiKey k \<Rightarrow> sent_after E decode (rq\<lparr> oq_headers := oq_headers rq @ [(''APIKey'', k)] \<rparr>) c s [] r c' s' sent
      | Odata_Basic user password \<Rightarrow> sent_after E decode (rq\<lparr> oq_basic_auth := Some (user, password) \<rparr>) c s [] r c' s' sent
      | Odata_Bearer t \<Rightarrow> sent_after E decode (rq\<lparr> oq_bearer_auth := Some t \<rparr>) c s [] r c' s' sent
      | Odata_OAuth2 url client_id client_secret scope \<Rightarrow>
          (case good_token c (oe_now E s) of
             Some token \<Rightarrow> sent_after E decode (rq\<lparr> oq_bearer_auth := Some token \<rparr>) c s [] r c' s' sent
           | None \<Rightarrow>
               (case oe_send E (token_post url client_id client_secret scope) s of (issue, s1) \<Rightarrow>
                 (case answer_token E issue of
                    None \<Rightarrow> sent = [(token_post url client_id client_secret scope, issue)] \<and> c' = c \<and> s' = s1 \<and> (\<exists>e. r = Some (Inl e))
                  | Some (token, e) \<Rightarrow>
                      if oh_poisoned c then
                        sent_after E decode (rq\<lparr> oq_bearer_auth := Some token \<rparr>) c s1
                          [(token_post url client_id client_secret scope, issue)] r c' s' sent
                      else if oe_now E s1 div 1000000000 + granted_ttl e < 2 ^ 63 then
                        sent_after E decode (rq\<lparr> oq_bearer_auth := Some token \<rparr>)
                          (c\<lparr> oh_token := Some (token, oe_now E s1 + granted_ttl e * 1000000000) \<rparr>) s1
                          [(token_post url client_id client_secret scope, issue)] r c' s' sent
                      else sent = [(token_post url client_id client_secret scope, issue)] \<and> r = None \<and>
                        c' = c\<lparr> oh_poisoned := True \<rparr> \<and> s' = s1))))"

lemma usable_token_good: "usable_token c now = good_token c now"
  by (auto simp: usable_token_def good_token_def live_token_def split: option.split)

lemma store_token_granted:
  "store_token now token e c =
     (if oh_poisoned c then (Some (Inr token), c)
      else if now div 1000000000 + granted_ttl e < 2 ^ 63
      then (Some (Inr token), c\<lparr> oh_token := Some (token, now + granted_ttl e * 1000000000) \<rparr>)
      else (None, c\<lparr> oh_poisoned := True \<rparr>))"
  by (simp add: store_token_def instant_add_def token_ttl_def granted_ttl_def second_def max.commute)

lemma exchange_authorised:
  assumes "apply_auth (logged_odata E) rq (c, s, l) = (Some (Inr q), c1, s1, l1)"
    and "exchange (logged_odata E) decode rq (c, s, l) = (r, c', s', sent)"
  shows "sent_after E decode q c1 s1 l1 r c' s' sent"
  using assms read_answer_says [of decode "fst (oe_send E q s1)"]
  by (auto simp: exchange_def bind_run_def send_odata_def logged_odata_def sent_after_def split: prod.splits)

lemma exchange_unauthorised:
  assumes "apply_auth E rq st = (r, st')" "r = None \<or> r = Some (Inl e)"
  shows "exchange E decode rq st = (if r = None then None else Some (Inl e), st')"
  using assms by (auto simp: exchange_def bind_run_def)

lemma answer_token_logged [simp]: "answer_token (logged_odata E) = answer_token E"
  by (auto simp: answer_token_def fun_eq_iff split: odata_answer.split sum.split)

lemma exchange_fetches:
  assumes auth: "oc_auth (oh_config c) = Odata_OAuth2 url client_id client_secret scope" and none: "usable_token c (oe_now E s) = None"
    and send: "oe_send E (token_post url client_id client_secret scope) s = (issue, s1)"
    and run: "exchange (logged_odata E) decode rq (c, s, []) = (r, c', s', sent)"
  shows "odata_exchanged E decode rq c s r c' s' sent"
proof -
  let ?l = "[(token_post url client_id client_secret scope, issue)]"
  have token: "oauth_token (logged_odata E) (c, s, []) = oauth_answer (logged_odata E) issue (c, s1, ?l)"
    using auth none send
    by (simp add: oauth_token_def bind_run_def send_odata_def oauth_request_post) (simp add: logged_odata_def)
  have allowed: "odata_exchanged E decode rq c s r c' s' sent \<longleftrightarrow>
      (case answer_token E issue of
         None \<Rightarrow> sent = ?l \<and> c' = c \<and> s' = s1 \<and> (\<exists>e. r = Some (Inl e))
       | Some (tok, e) \<Rightarrow>
           (case store_token (oe_now E s1) tok e c of
              (None, c1) \<Rightarrow> sent = ?l \<and> r = None \<and> c' = c1 \<and> s' = s1
            | (Some _, c1) \<Rightarrow> sent_after E decode (rq\<lparr> oq_bearer_auth := Some tok \<rparr>) c1 s1 ?l r c' s' sent))"
    unfolding odata_exchanged_def usable_token_good [symmetric]
    by (simp add: auth none send store_token_granted split: option.split)
  show ?thesis
  proof (rule oauth_answer_cases [of "logged_odata E" issue c "(s1, ?l)"])
    fix e assume no: "answer_token (logged_odata E) issue = None"
      "oauth_answer (logged_odata E) issue (c, s1, ?l) = (Some (Inl e), c, s1, ?l)"
    have "apply_auth (logged_odata E) rq (c, s, []) = (Some (Inl e), c, s1, ?l)"
      using no token auth by (simp add: apply_auth_def bind_run_def)
    from exchange_unauthorised [OF this, where e = e and decode = decode] no run show ?thesis unfolding allowed by simp
  next
    fix tok e assume issued: "answer_token (logged_odata E) issue = Some (tok, e)"
      "oauth_answer (logged_odata E) issue (c, s1, ?l) =
        (fst (store_token (oe_now (logged_odata E) (s1, ?l)) tok e c), snd (store_token (oe_now (logged_odata E) (s1, ?l)) tok e c), s1, ?l)"
    obtain x c1 where store: "store_token (oe_now E s1) tok e c = (x, c1)" by (cases "store_token (oe_now E s1) tok e c")
    have answer: "oauth_token (logged_odata E) (c, s, []) = (x, c1, s1, ?l)" using token issued(2) store by simp
    show ?thesis
    proof (cases x)
      case no: None
      have "apply_auth (logged_odata E) rq (c, s, []) = (None, c1, s1, ?l)"
        using answer no auth by (simp add: apply_auth_def bind_run_def)
      from exchange_unauthorised [OF this, where decode = decode] no run issued(1) store show ?thesis unfolding allowed by simp
    next
      case (Some y)
      then have y: "y = Inr tok" using store by (auto simp: store_token_granted split: if_splits)
      have "apply_auth (logged_odata E) rq (c, s, []) = (Some (Inr (rq\<lparr> oq_bearer_auth := Some tok \<rparr>)), c1, s1, ?l)"
        using answer Some y auth by (simp add: apply_auth_def bind_run_def)
      from exchange_authorised [OF this run] Some issued(1) store show ?thesis unfolding allowed by simp
    qed
  qed
qed

lemma exchange_exact:
  assumes "exchange (logged_odata E) decode rq (c, s, []) = (r, c', s', sent)"
  shows "odata_exchanged E decode rq c s r c' s' sent"
proof (cases "oc_auth (oh_config c)")
  case (Odata_OAuth2 url client_id client_secret scope)
  show ?thesis
  proof (cases "usable_token c (oe_now E s)")
    case (Some t)
    have "apply_auth (logged_odata E) rq (c, s, []) = (Some (Inr (rq\<lparr> oq_bearer_auth := Some t \<rparr>)), c, s, [])"
      using Some by (simp add: apply_auth_def Odata_OAuth2 oauth_token_def bind_run_def)
    from exchange_authorised [OF this assms] Some show ?thesis
      by (simp add: odata_exchanged_def Odata_OAuth2 usable_token_good)
  next
    case None
    obtain issue s1 where "oe_send E (token_post url client_id client_secret scope) s = (issue, s1)"
      by (cases "oe_send E (token_post url client_id client_secret scope) s")
    from exchange_fetches [OF Odata_OAuth2 None this assms] show ?thesis .
  qed
next
  case (Odata_ApiKey k)
  have "apply_auth (logged_odata E) rq (c, s, []) = (Some (Inr (rq\<lparr> oq_headers := oq_headers rq @ [(''APIKey'', k)] \<rparr>)), c, s, [])"
    by (simp add: apply_auth_def Odata_ApiKey)
  from exchange_authorised [OF this assms] show ?thesis by (simp add: odata_exchanged_def Odata_ApiKey)
next
  case (Odata_Basic user password)
  have "apply_auth (logged_odata E) rq (c, s, []) = (Some (Inr (rq\<lparr> oq_basic_auth := Some (user, password) \<rparr>)), c, s, [])"
    by (simp add: apply_auth_def Odata_Basic)
  from exchange_authorised [OF this assms] show ?thesis by (simp add: odata_exchanged_def Odata_Basic)
next
  case (Odata_Bearer t)
  have "apply_auth (logged_odata E) rq (c, s, []) = (Some (Inr (rq\<lparr> oq_bearer_auth := Some t \<rparr>)), c, s, [])"
    by (simp add: apply_auth_def Odata_Bearer)
  from exchange_authorised [OF this assms] show ?thesis by (simp add: odata_exchanged_def Odata_Bearer)
qed

section \<open>Literals and segments\<close>

text \<open>
  The characters RFC 3986 leaves to the content of a path segment, escapes apart; and what stands before the query
  and the fragment of a URL.
\<close>

definition pchar :: "char \<Rightarrow> bool" where
  "pchar c \<longleftrightarrow> c = quote_char \<or> c \<in> set ''abcdefghijklmnopqrstuvwxyzABCDEFGHIJKLMNOPQRSTUVWXYZ0123456789-._~!$&()*+,;=:@''"

definition in_path :: "char \<Rightarrow> bool" where "in_path c \<longleftrightarrow> c \<noteq> CHR ''?'' \<and> c \<noteq> CHR ''#''"

definition url_path :: "string \<Rightarrow> string" where "url_path u = takeWhile in_path u"

lemma in_path_quote [simp]: "in_path quote_char" "in_path (CHR 0x27)"
  by (simp_all add: in_path_def quote_char_def)

lemma double_quotes_pchar: "list_all pchar v \<Longrightarrow> list_all pchar (double_quotes v)"
  by (induction v) auto

lemma double_quotes_takeWhile: "takeWhile in_path (double_quotes v @ r) =
    (if list_all in_path v then double_quotes v @ takeWhile in_path r else double_quotes (takeWhile in_path v))"
  by (induction v) (auto simp: quote_char_def)

lemma read_open_literal: "read_literal (double_quotes v) = None"
  by (induction v) (simp_all add: read_literal_other)

text \<open>The requests of the reads. The name searched for is one literal of the filter, whatever quotes it contains.\<close>

lemma partner_segment:
  "\<exists>segment. partner_request config id' = odata_get (trim_end_matches (CHR ''/'') (oc_base_url config) @ ''/'' @ segment) [] \<and>
    (list_all pchar id' \<longrightarrow> list_all pchar segment \<and> read_call ''A_BusinessPartner('' segment = Some id')"
proof (intro exI conjI impI)
  let ?seg = "''A_BusinessPartner('' @ sq (double_quotes id') @ '')''"
  show "partner_request config id' = odata_get (trim_end_matches (CHR ''/'') (oc_base_url config) @ ''/'' @ ?seg) []"
    by (simp add: partner_request_def entity_set_url_def)
  show "list_all pchar ?seg" if "list_all pchar id'"
    using double_quotes_pchar [OF that] by (simp add: sq_def pchar_def quote_char_def)
  have "?seg = ''A_BusinessPartner('' @ sq (double_quotes id') @ '')''" by simp
  then show "read_call ''A_BusinessPartner('' ?seg = Some id'" by (simp only: read_call_quoted)
qed

lemma partner_cut:
  assumes "list_all in_path (oc_base_url config)" "\<not> list_all in_path id'"
  shows "url_path (oq_url (partner_request config id')) =
      trim_end_matches (CHR ''/'') (oc_base_url config) @ ''/A_BusinessPartner('' @ [quote_char] @ double_quotes (takeWhile in_path id')"
    "read_call (trim_end_matches (CHR ''/'') (oc_base_url config) @ ''/A_BusinessPartner('') (url_path (oq_url (partner_request config id'))) = None"
proof -
  let ?root = "trim_end_matches (CHR ''/'') (oc_base_url config) @ ''/A_BusinessPartner(''"
  have "set (trim_end_matches (CHR ''/'') u) \<subseteq> set u" for u
    unfolding trim_end_matches_def by (auto dest: set_dropWhileD)
  then have root: "list_all in_path ?root"
    using assms(1) by (auto simp: list_all_iff in_path_def)
  have "oq_url (partner_request config id') = (?root @ [quote_char]) @ double_quotes id' @ quote_char # '')''"
    by (simp add: partner_request_def odata_get_def entity_set_url_def sq_def quote_char_def)
  moreover have "takeWhile in_path ((?root @ [quote_char]) @ r) = (?root @ [quote_char]) @ takeWhile in_path r" for r
    using root by (intro takeWhile_append2) (auto simp: list_all_iff in_path_def quote_char_def)
  ultimately have path: "url_path (oq_url (partner_request config id')) = (?root @ [quote_char]) @ double_quotes (takeWhile in_path id')"
    using assms(2) by (simp only: url_path_def double_quotes_takeWhile if_False)
  then show "url_path (oq_url (partner_request config id')) =
      trim_end_matches (CHR ''/'') (oc_base_url config) @ ''/A_BusinessPartner('' @ [quote_char] @ double_quotes (takeWhile in_path id')"
    by simp
  show "read_call ?root (url_path (oq_url (partner_request config id'))) = None"
  proof -
    have "strip_prefix (?root @ [quote_char]) ((?root @ [quote_char]) @ r) = Some r" for r
      by (simp only: strip_prefix_Some)
    then show ?thesis unfolding path read_call_def by (simp only: read_open_literal option.case)
  qed
qed

text \<open>
  C16. Every read sends exactly its request, with the configured credentials, and reports exactly what the answer
  says; a token request goes before it only for OAuth2 without a good token, and if that brings no token nothing
  else is sent. A token that is brought goes with the request, and is kept until its lifetime, measured from the
  answer, is over. What is searched for stays inside its literal: a reader of the filter finds one call whose literal
  is the query, whatever quotes it contains. An id made of the characters of a path segment stays inside its literal
  too, quotes included, in the last segment of the URL; but an id with a question mark or a number sign does not: the path
  of the URL ends there, inside the literal.
\<close>

theorem odata_calls_authenticated:
  "(case search_business_partners (logged_odata E) query n (c, s, []) of (r, c', s', sent) \<Rightarrow>
      odata_exchanged E (oe_collection E) (search_request (oh_config c) query n) c s r c' s' sent) \<and>
   (case list_business_partners (logged_odata E) n (c, s, []) of (r, c', s', sent) \<Rightarrow>
      odata_exchanged E (oe_collection E) (list_request (oh_config c) n) c s r c' s' sent) \<and>
   (case get_business_partner (logged_odata E) query (c, s, []) of (r, c', s', sent) \<Rightarrow>
      odata_exchanged E (oe_partner E) (partner_request (oh_config c) query) c s r c' s' sent) \<and>
   (let root = trim_end_matches (CHR ''/'') (oc_base_url (oh_config c));
        get = (\<lambda>url qs. \<lparr> oq_method = Method_Get, oq_url = url, oq_headers = [(''Accept'', ''application/json'')],
          oq_query = qs, oq_basic_auth = None, oq_bearer_auth = None, oq_body = No_Body \<rparr>) in
      (\<exists>literal. search_request (oh_config c) query n =
          get (root @ ''/A_BusinessPartner'') [(''$top'', show_nat n), (''$filter'', literal), (''$select'', BP_SELECT)] \<and>
        read_call ''contains(BusinessPartnerFullName,'' literal = Some query) \<and>
      list_request (oh_config c) n = get (root @ ''/A_BusinessPartner'') [(''$top'', show_nat n), (''$select'', BP_SELECT)] \<and>
      (\<exists>segment. partner_request (oh_config c) query = get (root @ ''/'' @ segment) [] \<and>
        (list_all pchar query \<longrightarrow> list_all pchar segment \<and> read_call ''A_BusinessPartner('' segment = Some query))) \<and>
   (list_all in_path (oc_base_url (oh_config c)) \<and> \<not> list_all in_path query \<longrightarrow>
     read_call (trim_end_matches (CHR ''/'') (oc_base_url (oh_config c)) @ ''/A_BusinessPartner('')
       (url_path (oq_url (partner_request (oh_config c) query))) = None)"
proof (intro conjI, goal_cases)
  case 1
  show ?case using exchange_exact [of E "oe_collection E"] by (auto simp: search_business_partners_def)
next
  case 2
  show ?case using exchange_exact [of E "oe_collection E"] by (auto simp: list_business_partners_def)
next
  case 3
  show ?case using exchange_exact [of E "oe_partner E"] by (auto simp: get_business_partner_def)
next
  case 4
  have "read_call ''contains(BusinessPartnerFullName,'' (name_filter query) = Some query"
    unfolding name_filter_def by (rule read_call_quoted)
  with partner_segment [of "oh_config c" query] show ?case
    by (simp add: search_request_def list_request_def odata_get_def entity_set_url_def)
next
  case 5
  show ?case using partner_cut(2) by blast
qed

definition eternal_env :: "unit odata_env" where
  "eternal_env = \<lparr> oe_send = (\<lambda>rq s. (Od_Answer 200 (Inr ''body''), s)), oe_now = (\<lambda>_. 0),
     oe_token_response = (\<lambda>_. Inr (''jwt'', Some (2 ^ 64 - 1))), oe_collection = (\<lambda>_. Inr []), oe_partner = (\<lambda>_. Inl ''no'') \<rparr>"

definition oauth_client :: odata_client where
  "oauth_client = \<lparr> oh_config = odata_config_new ''https://s4'' (Odata_OAuth2 ''https://uaa/token'' ''id'' ''secret'' None),
     oh_token = None, oh_poisoned = False \<rparr>"

theorem odata_calls_authenticated_witness:
  "read_call ''https://s4/A_BusinessPartner('' (url_path (oq_url (partner_request (oh_config oauth_client) ''1?x''))) = None \<and>
   (\<exists>segment. oq_url (partner_request (oh_config oauth_client) ''17'') = ''https://s4/'' @ segment \<and>
      read_call ''A_BusinessPartner('' segment = Some ''17'')"
proof -
  have base: "trim_end_matches (CHR ''/'') (oc_base_url (oh_config oauth_client)) = ''https://s4''"
    by (simp add: oauth_client_def odata_config_new_def trim_end_matches_def)
  have ok: "list_all in_path (oc_base_url (oh_config oauth_client)) \<and> \<not> list_all in_path ''1?x''" "list_all pchar ''17''"
    by (simp_all add: oauth_client_def odata_config_new_def in_path_def pchar_def)
  have cut: "read_call ''https://s4/A_BusinessPartner('' (url_path (oq_url (partner_request (oh_config oauth_client) ''1?x''))) = None"
    using odata_calls_authenticated [of eternal_env oauth_client "''1?x''" 5, THEN conjunct2, THEN conjunct2, THEN conjunct2, THEN conjunct2]
      ok(1) by (simp add: base)
  from odata_calls_authenticated [of eternal_env oauth_client "''17''" 5, THEN conjunct2, THEN conjunct2, THEN conjunct2, THEN conjunct1]
  obtain segment where "oq_url (partner_request (oh_config oauth_client) ''17'') = ''https://s4/'' @ segment"
    "read_call ''A_BusinessPartner('' segment = Some ''17''"
    using ok(2) unfolding Let_def base by (elim conjE exE) simp
  with cut show ?thesis by blast
qed

section \<open>Panics\<close>

text \<open>A token is fetched now, and the lifetime it comes with ends past the range of the clock.\<close>

definition overlong_token :: "'s odata_env \<Rightarrow> odata_client \<Rightarrow> 's \<Rightarrow> bool" where
  "overlong_token E c s \<longleftrightarrow>
     (case oc_auth (oh_config c) of
        Odata_OAuth2 url client_id client_secret scope \<Rightarrow>
          good_token c (oe_now E s) = None \<and> \<not> oh_poisoned c \<and>
          (case oe_send E (token_post url client_id client_secret scope) s of (issue, s1) \<Rightarrow>
             (case answer_token E issue of
                Some (token, e) \<Rightarrow> 2 ^ 63 \<le> oe_now E s1 div 1000000000 + granted_ttl e
              | None \<Rightarrow> False))
      | _ \<Rightarrow> False)"

lemma answer_says_something: "answer_says decode ans r \<Longrightarrow> r \<noteq> None"
  by (auto simp: answer_says_def split: odata_answer.splits sum.splits if_splits)

lemma sent_after_returns: "\<not> sent_after E decode q c s l None c' s' sent"
  by (auto simp: sent_after_def dest: answer_says_something split: prod.split)

lemma exchanged_panics:
  assumes "odata_exchanged E decode rq c s r c' s' sent"
  shows "r = None \<longleftrightarrow> overlong_token E c s"
    "r = None \<Longrightarrow> c' = c\<lparr> oh_poisoned := True \<rparr> \<and>
       (\<exists>url client_id client_secret scope ans. oc_auth (oh_config c) = Odata_OAuth2 url client_id client_secret scope \<and>
          sent = [(token_post url client_id client_secret scope, ans)])"
  using assms
  by (cases r; auto simp: odata_exchanged_def overlong_token_def sent_after_returns
      split: odata_auth.splits option.splits prod.splits if_splits)+

text \<open>
  C40. The client panics exactly when it fetches a token whose lifetime, from the moment the answer is in, reaches past the
  range of the clock while the mutex is in order. Nothing but the token request was sent then; the mutex is
  poisoned, and no later read panics, but each one fetches its token anew.
\<close>

theorem odata_panics_only_on_lifetime:
  assumes "exchange (logged_odata E) decode rq (c, s, []) = (r, c', s', sent)"
  shows "(r = None \<longleftrightarrow> overlong_token E c s) \<and>
    (r = None \<longrightarrow> c' = c\<lparr> oh_poisoned := True \<rparr> \<and>
       (\<exists>url client_id client_secret scope ans. oc_auth (oh_config c) = Odata_OAuth2 url client_id client_secret scope \<and>
          sent = [(token_post url client_id client_secret scope, ans)]) \<and>
       (\<forall>rq s. fst (exchange (logged_odata E) decode rq (c', s, [])) \<noteq> None) \<and> (\<forall>now. usable_token c' now = None))"
proof -
  have run: "odata_exchanged E decode rq c s r c' s' sent" using exchange_exact [OF assms] .
  note panic = exchanged_panics [OF run]
  have later: "fst (exchange (logged_odata E) decode rq (c', s, [])) \<noteq> None" if "r = None" for rq s
  proof -
    obtain r2 c2 s2 l2 where two: "exchange (logged_odata E) decode rq (c', s, []) = (r2, c2, s2, l2)"
      by (metis prod_cases4)
    have "\<not> overlong_token E c' s" using panic(2) [OF that] by (auto simp: overlong_token_def split: odata_auth.splits option.splits)
    with exchanged_panics [OF exchange_exact [OF two]] two show ?thesis by simp
  qed
  have spent: "usable_token c' now = None" if "r = None" for now
    using panic(2) [OF that] by (simp add: usable_token_def)
  show ?thesis using panic(2) by (intro conjI impI allI panic(1) later spent) simp_all
qed

theorem odata_panics_only_on_lifetime_witness:
  "case exchange (logged_odata eternal_env) (\<lambda>_. Inr ()) (odata_get ''https://s4/A'' []) (oauth_client, (), []) of
     (r, c', s', sent) \<Rightarrow> r = None \<and> c' = oauth_client\<lparr> oh_poisoned := True \<rparr> \<and>
      (\<forall>rq s. fst (exchange (logged_odata eternal_env) (\<lambda>_. Inr ()) rq (c', s, [])) \<noteq> None)"
proof -
  obtain r c' s' sent where run:
    "exchange (logged_odata eternal_env) (\<lambda>_. Inr ()) (odata_get ''https://s4/A'' []) (oauth_client, (), []) = (r, c', s', sent)"
    by (metis prod_cases4)
  have "overlong_token eternal_env oauth_client ()"
    by (simp add: overlong_token_def oauth_client_def odata_config_new_def eternal_env_def good_token_def answer_token_def granted_ttl_def)
  with odata_panics_only_on_lifetime [OF run] have "r = None" "c' = oauth_client\<lparr> oh_poisoned := True \<rparr>"
    "\<forall>rq s. fst (exchange (logged_odata eternal_env) (\<lambda>_. Inr ()) rq (c', s, [])) \<noteq> None" by blast+
  then show ?thesis by (simp add: run)
qed

section \<open>The token source\<close>

lemma oauth_answer_fetched:
  assumes "\<not> oh_poisoned c" "oauth_answer E ans (c, s) = (Some (Inr t), c', s')"
  obtains e where "c' = c\<lparr> oh_token := Some (t, oe_now E s + token_ttl e * second) \<rparr>" "s' = s"
proof (rule oauth_answer_cases [of E ans c s])
  fix e assume "oauth_answer E ans (c, s) = (Some (Inl e), c, s)"
  then show thesis using assms(2) by simp
next
  fix token e assume "oauth_answer E ans (c, s) =
      (fst (store_token (oe_now E s) token e c), snd (store_token (oe_now E s) token e c), s)"
  then have "store_token (oe_now E s) token e c = (Some (Inr t), c')" "s' = s"
    using assms(2) by (simp_all add: prod_eq_iff)
  then show thesis using assms(1)
    by (intro that [of e]) (auto simp: store_token_def instant_add_def split: if_splits option.splits)
qed

interpretation oauth_source: token_source
    "oauth_token (logged_odata E)" "\<lambda>(c, s, l). oh_token c" "\<lambda>(c, s, l). oe_now E s" "\<lambda>(c, s, l). length l"
    "\<lambda>(c, s, l). \<not> oh_poisoned c \<and> (case oc_auth (oh_config c) of Odata_OAuth2 _ _ _ _ \<Rightarrow> True | _ \<Rightarrow> False)"
proof (unfold_locales, goal_cases)
  case (1 st t)
  obtain c s l where st: "st = (c, s, l)" by (cases st)
  then have "usable_token c (oe_now E s) = Some t" using 1 by (simp add: usable_token_def)
  then show ?case using 1 by (auto simp: st oauth_token_def split: odata_auth.splits)
next
  case (2 st t st')
  obtain c s l where st: "st = (c, s, l)" by (cases st)
  obtain url client_id client_secret scope where auth: "oc_auth (oh_config c) = Odata_OAuth2 url client_id client_secret scope"
    using 2(1) by (auto simp: st split: odata_auth.splits)
  have c: "\<not> oh_poisoned c" "usable_token c (oe_now E s) = None" using 2 by (auto simp: st usable_token_def)
  let ?q = "oauth_request url client_id client_secret scope"
  obtain ans s1 where send: "send_odata (logged_odata E) ?q (c, s, l) = (Some (Inr ans), c, s1, l @ [(?q, ans)])"
    by (rule send_odata_logged)
  have "oauth_answer (logged_odata E) ans (c, s1, l @ [(?q, ans)]) = (Some (Inr t), st')"
    using 2(3) bind_value [where m = "send_odata (logged_odata E) ?q" and f = "oauth_answer (logged_odata E)", OF send] c auth
    by (simp add: st oauth_token_def)
  then obtain c2 s2 where st': "st' = (c2, s2)" "oauth_answer (logged_odata E) ans (c, s1, l @ [(?q, ans)]) = (Some (Inr t), c2, s2)"
    by (cases st') auto
  obtain e where "c2 = c\<lparr> oh_token := Some (t, oe_now (logged_odata E) (s1, l @ [(?q, ans)]) + token_ttl e * second) \<rparr>"
    "s2 = (s1, l @ [(?q, ans)])"
    by (rule oauth_answer_fetched [OF c(1) st'(2)])
  then show ?case unfolding st st' using c(1) auth by auto
qed

end
