(* ===== verification/Adt_Types.thy ===== *)
theory Adt_Types
  imports Json
begin

text \<open>
  The data of the ADT client (\<open>sap-automate-adt/src/error.rs\<close>, \<open>types.rs\<close>, \<open>destination.rs\<close>): the error taxonomy,
  the object kinds with their URI paths, requests and results, and destinations with their loader. Case
  conversion, the environment, the file system and the TOML reader are parameters. Shown: what a redacted
  destination depends on, and which file a destination is loaded from.
\<close>

section \<open>Errors\<close>

datatype adt_error_code =
    Adt_Code_Timeout | Adt_Code_DestinationDown | Adt_Code_CsrfRefresh | Adt_Code_RateLimited
  | Adt_Code_AuthFailed | Adt_Code_NotFound | Adt_Code_Forbidden | Adt_Code_InvalidObjectName
  | Adt_Code_InactiveObject | Adt_Code_DataPreviewBlocked | Adt_Code_PermissionDenied | Adt_Code_Locked
  | Adt_Code_Internal

fun adt_as_i32 :: "adt_error_code \<Rightarrow> int" where
  "adt_as_i32 Adt_Code_Timeout = -32160"
| "adt_as_i32 Adt_Code_DestinationDown = -32161"
| "adt_as_i32 Adt_Code_CsrfRefresh = -32162"
| "adt_as_i32 Adt_Code_RateLimited = -32163"
| "adt_as_i32 Adt_Code_AuthFailed = -32260"
| "adt_as_i32 Adt_Code_NotFound = -32261"
| "adt_as_i32 Adt_Code_Forbidden = -32262"
| "adt_as_i32 Adt_Code_InvalidObjectName = -32263"
| "adt_as_i32 Adt_Code_InactiveObject = -32264"
| "adt_as_i32 Adt_Code_DataPreviewBlocked = -32265"
| "adt_as_i32 Adt_Code_PermissionDenied = -32266"
| "adt_as_i32 Adt_Code_Locked = -32267"
| "adt_as_i32 Adt_Code_Internal = -32298"

definition adt_code_is_transient :: "adt_error_code \<Rightarrow> bool" where
  "adt_code_is_transient c \<longleftrightarrow> -32199 \<le> adt_as_i32 c \<and> adt_as_i32 c \<le> -32100"

datatype adt_error =
    Adt_Timeout nat
  | Adt_DestinationDown string string
  | Adt_CsrfRefresh
  | Adt_RateLimited nat
  | Adt_AuthFailed string
  | Adt_NotFound string string
  | Adt_Forbidden string
  | Adt_InvalidObjectName string
  | Adt_InactiveObject string
  | Adt_DataPreviewBlocked string
  | Adt_PermissionDenied string
  | Adt_Locked string
  | Adt_Internal string

type_synonym 'a adt_result = "(adt_error, 'a) result"

fun adt_error_display :: "adt_error \<Rightarrow> string" where
  "adt_error_display (Adt_Timeout ms) = ''ADT timeout after '' @ show_nat ms @ '' ms''"
| "adt_error_display (Adt_DestinationDown d r) = ''ADT destination '' @ sq d @ '' unreachable: '' @ r"
| "adt_error_display Adt_CsrfRefresh = ''CSRF token refresh required''"
| "adt_error_display (Adt_RateLimited ms) = ''rate limited; retry after '' @ show_nat ms @ '' ms''"
| "adt_error_display (Adt_AuthFailed s) = ''authentication failed: '' @ s"
| "adt_error_display (Adt_NotFound k n) = ''object not found: '' @ k @ '' '' @ sq n"
| "adt_error_display (Adt_Forbidden s) = ''forbidden: '' @ s"
| "adt_error_display (Adt_InvalidObjectName s) = ''invalid object name '' @ sq s"
| "adt_error_display (Adt_InactiveObject s) = ''object is inactive: '' @ s"
| "adt_error_display (Adt_DataPreviewBlocked s) = ''data preview blocked by SAP backend policy: '' @ s"
| "adt_error_display (Adt_PermissionDenied s) = ''permission denied: '' @ s"
| "adt_error_display (Adt_Locked s) = ''object locked: '' @ s"
| "adt_error_display (Adt_Internal s) = ''internal: '' @ s"

fun adt_code :: "adt_error \<Rightarrow> adt_error_code" where
  "adt_code (Adt_Timeout _) = Adt_Code_Timeout"
| "adt_code (Adt_DestinationDown _ _) = Adt_Code_DestinationDown"
| "adt_code Adt_CsrfRefresh = Adt_Code_CsrfRefresh"
| "adt_code (Adt_RateLimited _) = Adt_Code_RateLimited"
| "adt_code (Adt_AuthFailed _) = Adt_Code_AuthFailed"
| "adt_code (Adt_NotFound _ _) = Adt_Code_NotFound"
| "adt_code (Adt_Forbidden _) = Adt_Code_Forbidden"
| "adt_code (Adt_InvalidObjectName _) = Adt_Code_InvalidObjectName"
| "adt_code (Adt_InactiveObject _) = Adt_Code_InactiveObject"
| "adt_code (Adt_DataPreviewBlocked _) = Adt_Code_DataPreviewBlocked"
| "adt_code (Adt_PermissionDenied _) = Adt_Code_PermissionDenied"
| "adt_code (Adt_Locked _) = Adt_Code_Locked"
| "adt_code (Adt_Internal _) = Adt_Code_Internal"

definition adt_is_transient :: "adt_error \<Rightarrow> bool" where
  "adt_is_transient e \<longleftrightarrow> adt_code_is_transient (adt_code e)"

lemma adt_is_transient_iff:
  "adt_is_transient e \<longleftrightarrow> adt_code e \<in> {Adt_Code_Timeout, Adt_Code_DestinationDown, Adt_Code_CsrfRefresh, Adt_Code_RateLimited}"
  by (cases e) (simp_all add: adt_is_transient_def adt_code_is_transient_def)

section \<open>Objects\<close>

definition MAX_TABLE_ROWS :: nat where "MAX_TABLE_ROWS = 1000"

datatype abap_kind =
    Kind_Program | Kind_Class | Kind_Interface | Kind_Include | Kind_FunctionGroup | Kind_FunctionModule
  | Kind_Table | Kind_Structure | Kind_DataElement | Kind_Domain | Kind_Package | Kind_CdsView
  | Kind_BehaviorDefinition | Kind_ServiceDefinition | Kind_MetadataExtension | Kind_EnhancementSpot
  | Kind_Transaction

fun kind_label :: "abap_kind \<Rightarrow> string" where
  "kind_label Kind_Program = ''Program''"
| "kind_label Kind_Class = ''Class''"
| "kind_label Kind_Interface = ''Interface''"
| "kind_label Kind_Include = ''Include''"
| "kind_label Kind_FunctionGroup = ''Function Group''"
| "kind_label Kind_FunctionModule = ''Function Module''"
| "kind_label Kind_Table = ''Table''"
| "kind_label Kind_Structure = ''Structure''"
| "kind_label Kind_DataElement = ''Data Element''"
| "kind_label Kind_Domain = ''Domain''"
| "kind_label Kind_Package = ''Package''"
| "kind_label Kind_CdsView = ''CDS View''"
| "kind_label Kind_BehaviorDefinition = ''Behavior Definition''"
| "kind_label Kind_ServiceDefinition = ''Service Definition''"
| "kind_label Kind_MetadataExtension = ''Metadata Extension''"
| "kind_label Kind_EnhancementSpot = ''Enhancement Spot''"
| "kind_label Kind_Transaction = ''Transaction''"

definition adt_path :: "(string \<Rightarrow> string) \<Rightarrow> abap_kind \<Rightarrow> string \<Rightarrow> string" where
  "adt_path lower k name =
     (let n = lower name in
      case k of
        Kind_Program \<Rightarrow> ''/sap/bc/adt/programs/programs/'' @ n @ ''/source/main''
      | Kind_Class \<Rightarrow> ''/sap/bc/adt/oo/classes/'' @ n @ ''/source/main''
      | Kind_Interface \<Rightarrow> ''/sap/bc/adt/oo/interfaces/'' @ n @ ''/source/main''
      | Kind_Include \<Rightarrow> ''/sap/bc/adt/programs/includes/'' @ n @ ''/source/main''
      | Kind_FunctionGroup \<Rightarrow> ''/sap/bc/adt/functions/groups/'' @ n @ ''/source/main''
      | Kind_FunctionModule \<Rightarrow> ''/sap/bc/adt/functions/groups/{group}/fmodules/'' @ n @ ''/source/main''
      | Kind_Table \<Rightarrow> ''/sap/bc/adt/ddic/tables/'' @ n @ ''/source/main''
      | Kind_Structure \<Rightarrow> ''/sap/bc/adt/ddic/structures/'' @ n @ ''/source/main''
      | Kind_DataElement \<Rightarrow> ''/sap/bc/adt/ddic/dataelements/'' @ n
      | Kind_Domain \<Rightarrow> ''/sap/bc/adt/ddic/domains/'' @ n @ ''/source/main''
      | Kind_CdsView \<Rightarrow> ''/sap/bc/adt/ddic/ddl/sources/'' @ n @ ''/source/main''
      | Kind_Package \<Rightarrow> ''/sap/bc/adt/repository/nodestructure''
      | Kind_Transaction \<Rightarrow>
          ''/sap/bc/adt/repository/informationsystem/objectproperties/values?uri=%2Fsap%2Fbc%2Fadt%2Fvit%2Fwb%2Fobject_type%2Ftrant%2Fobject_name%2F'' @ n
      | _ \<Rightarrow> ''/sap/bc/adt/objects/'' @ n)"

record program_source =
  ps_name :: string
  ps_kind :: abap_kind
  ps_package :: "string option"
  ps_description :: "string option"
  ps_source :: string
  ps_active :: bool
  ps_line_count :: nat

record cds_view =
  cds_name :: string
  cds_source :: string
  cds_root_entity :: string
  cds_annotations :: json
  cds_line_count :: nat

record package_member =
  pm_name :: string
  pm_kind :: abap_kind
  pm_description :: "string option"

record package_contents =
  pk_package :: string
  pk_description :: "string option"
  pk_members :: "package_member list"

record adt_search_request =
  asr_query :: string
  asr_kind :: "abap_kind option"
  asr_max_results :: nat

record 'f adt_search_hit =
  ash_name :: string
  ash_kind :: abap_kind
  ash_description :: "string option"
  ash_package :: "string option"
  ash_score :: 'f

record where_used_request =
  wur_name :: string
  wur_kind :: abap_kind

record where_used_hit =
  wuh_object :: string
  wuh_kind :: abap_kind
  wuh_location :: string
  wuh_usage :: string

type_synonym adt_table_row = jmap

record activation_request =
  act_name :: string
  act_kind :: abap_kind

record activation_outcome =
  ao_name :: string
  ao_kind :: abap_kind
  ao_activated :: bool
  ao_messages :: "string list"

record adt_call_context =
  ac_read_only :: bool

section \<open>Destinations\<close>

datatype adt_auth =
    Auth_Basic string string
  | Auth_Bearer string
  | Auth_ServiceKey string
  | Auth_Certificate string string
  | Auth_Mock

record adt_destination =
  ad_name :: string
  ad_base_url :: string
  ad_client :: string
  ad_language :: string
  ad_auth :: adt_auth

fun auth_type_label :: "adt_auth \<Rightarrow> string" where
  "auth_type_label (Auth_Basic _ _) = ''basic''"
| "auth_type_label (Auth_Bearer _) = ''bearer''"
| "auth_type_label (Auth_ServiceKey _) = ''service_key''"
| "auth_type_label (Auth_Certificate _ _) = ''certificate''"
| "auth_type_label Auth_Mock = ''mock''"

definition auth_debug :: "adt_auth \<Rightarrow> string" where
  "auth_debug a = ''AdtAuth::'' @ auth_type_label a"

definition destination_mock :: "string \<Rightarrow> adt_destination" where
  "destination_mock name = \<lparr> ad_name = name, ad_base_url = ''https://mock.sap.example'', ad_client = ''100'',
     ad_language = ''EN'', ad_auth = Auth_Mock \<rparr>"

definition redacted :: "adt_destination \<Rightarrow> json" where
  "redacted d = JObject (amap_of
     [(''name'', JString (ad_name d)), (''base_url'', JString (ad_base_url d)), (''client'', JString (ad_client d)),
      (''language'', JString (ad_language d)), (''auth_type'', JString (auth_type_label (ad_auth d)))])"

text \<open>\<open>PathBuf::join\<close>: an absolute path replaces the base, and no separator is doubled.\<close>

definition path_join :: "string \<Rightarrow> string \<Rightarrow> string" where
  "path_join base p =
     (if starts_with p ''/'' then p
      else if base = [] \<or> ends_with base ''/'' then base @ p
      else base @ ''/'' @ p)"

definition build_search_paths :: "string \<Rightarrow> string option \<Rightarrow> string option \<Rightarrow> string list" where
  "build_search_paths name dir_override config_home =
     (let file = name @ ''.toml'' in
      (case dir_override of Some dir \<Rightarrow> [path_join dir file] | None \<Rightarrow> [])
      @ [path_join ''./.sap-automate/destinations'' file]
      @ (case config_home of Some base \<Rightarrow> [path_join (path_join base ''sap-automate/destinations'') file] | None \<Rightarrow> []))"

text \<open>A variable of the environment that is set and not empty.\<close>

definition env_set :: "(string \<rightharpoonup> string) \<Rightarrow> string \<Rightarrow> string option" where
  "env_set env v = (case env v of Some s \<Rightarrow> if s = [] then None else Some s | None \<Rightarrow> None)"

definition config_search_paths :: "(string \<rightharpoonup> string) \<Rightarrow> string \<Rightarrow> string list" where
  "config_search_paths env name =
     build_search_paths name (env_set env ''SAP_AUTOMATE_DESTINATION_DIR'')
       (case env_set env ''XDG_CONFIG_HOME'' of
          Some p \<Rightarrow> Some p
        | None \<Rightarrow> map_option (\<lambda>h. path_join h ''.config'') (env ''HOME''))"

text \<open>The file system: whether a path is a file, and its text or the error of reading it.\<close>

record file_system =
  fs_is_file :: "string \<Rightarrow> bool"
  fs_read :: "string \<Rightarrow> (string, string) result"

definition load_from_path ::
  "file_system \<Rightarrow> (string \<Rightarrow> adt_destination option) \<Rightarrow> string \<Rightarrow> string \<Rightarrow> adt_destination adt_result" where
  "load_from_path fs toml path name =
     (case fs_read fs path of
        Inl e \<Rightarrow> Inl (Adt_Internal (''read destination '' @ path @ '': '' @ e))
      | Inr raw \<Rightarrow>
          (case toml raw of
             None \<Rightarrow> Inl (Adt_Internal (''destination '' @ path @
               '' is not valid TOML (syntax error; detail withheld to avoid logging credential lines)''))
           | Some dest \<Rightarrow> Inr (dest\<lparr> ad_name := name \<rparr>)))"

fun load_first ::
  "file_system \<Rightarrow> (string \<Rightarrow> adt_destination option) \<Rightarrow> string list \<Rightarrow> string \<Rightarrow> adt_destination adt_result" where
  "load_first fs toml [] name = Inl (Adt_NotFound ''Destination'' name)"
| "load_first fs toml (p # ps) name =
     (if fs_is_file fs p then load_from_path fs toml p name else load_first fs toml ps name)"

definition load_destination ::
  "file_system \<Rightarrow> (string \<rightharpoonup> string) \<Rightarrow> (string \<Rightarrow> adt_destination option) \<Rightarrow> string \<Rightarrow> adt_destination adt_result" where
  "load_destination fs env toml name = load_first fs toml (config_search_paths env name) name"

section \<open>Redaction and loading\<close>

text \<open>
  What is shown of a destination is the same for any two that differ only in their secrets, and tells the
  kind of authentication apart.
\<close>

lemma redacted_eq_iff:
  "redacted d = redacted d' \<longleftrightarrow>
     ad_name d = ad_name d' \<and> ad_base_url d = ad_base_url d' \<and> ad_client d = ad_client d' \<and>
     ad_language d = ad_language d' \<and> auth_type_label (ad_auth d) = auth_type_label (ad_auth d')"
  by (simp add: redacted_def amap_of_def) blast

lemma auth_debug_label: "auth_debug a = auth_debug a' \<longleftrightarrow> auth_type_label a = auth_type_label a'"
  by (simp add: auth_debug_def)

text \<open>
  A destination comes from the first file of its search path, under the name it was asked for whatever the
  file says; without a file it is not found.
\<close>

lemma load_destination_first:
  "load_destination fs env toml name =
     (case find (fs_is_file fs) (config_search_paths env name) of
        None \<Rightarrow> Inl (Adt_NotFound ''Destination'' name)
      | Some p \<Rightarrow> load_from_path fs toml p name)"
proof -
  have "load_first fs toml ps name = (case find (fs_is_file fs) ps of
      None \<Rightarrow> Inl (Adt_NotFound ''Destination'' name) | Some p \<Rightarrow> load_from_path fs toml p name)" for ps
    by (induction ps) auto
  then show ?thesis by (simp add: load_destination_def)
qed

lemma load_destination_name:
  "load_destination fs env toml name = Inr d \<Longrightarrow> ad_name d = name"
  by (auto simp: load_destination_first load_from_path_def split: option.splits sum.splits)

section \<open>The gate on activation\<close>

definition activation_refused :: "activation_request \<Rightarrow> adt_error" where
  "activation_refused rq = Adt_PermissionDenied
     (''activate('' @ kind_label (act_kind rq) @ '' '' @ act_name rq @ '') blocked: read-only mode'')"

text \<open>
  What the server relies on of every client: in read-only mode an activation is refused and changes nothing. The
  state is the client's together with the world's.
\<close>

locale activation_gate =
  fixes activate :: "activation_request \<Rightarrow> adt_call_context \<Rightarrow> 's \<Rightarrow> activation_outcome adt_result option \<times> 's"
  assumes gate: "ac_read_only ctx \<Longrightarrow> activate rq ctx s = (Some (Inl (activation_refused rq)), s)"
begin

text \<open>However many activations are asked for, the state stays and no outcome is reported.\<close>

lemma read_only_activations:
  assumes "ac_read_only ctx"
  shows "fold (\<lambda>rq (rs, s). case activate rq ctx s of (r, s') \<Rightarrow> (rs @ [r], s')) rqs (rs, s) =
    (rs @ map (\<lambda>rq. Some (Inl (activation_refused rq))) rqs, s)"
  using gate [OF assms] by (induction rqs arbitrary: rs) simp_all

end

end
