(* ===== verification/Adt_Wire.thy ===== *)
theory Adt_Wire
  imports Adt_Types "HOL-Library.Word"
begin

text \<open>
  What the HTTP client of ADT writes and reads (\<open>sap-automate-adt/src/http.rs\<close>): the Base64 and URL encoders, and
  the readers of the four XML answers as folds over the reader's events. Shown: both encoders can be undone
  and an encoded URL part has no reserved character; a data preview and a package listing printed in the
  forms SAP uses are read back.
\<close>

unbundle bit_operations_syntax

section \<open>Base64\<close>

definition b64_table :: string where
  "b64_table = ''ABCDEFGHIJKLMNOPQRSTUVWXYZabcdefghijklmnopqrstuvwxyz0123456789+/''"

definition b64_digit :: "8 word \<Rightarrow> char" where
  "b64_digit w = b64_table ! unat w"

definition byte_of :: "char \<Rightarrow> 8 word" where
  "byte_of c = word_of_nat (code c)"

fun base64_encode :: "string \<Rightarrow> string" where
  "base64_encode (c1 # c2 # c3 # s) =
     (let b1 = byte_of c1; b2 = byte_of c2; b3 = byte_of c3
      in b64_digit (drop_bit 2 b1) # b64_digit (push_bit 4 (b1 AND 0b11) OR drop_bit 4 b2)
         # b64_digit (push_bit 2 (b2 AND 0b1111) OR drop_bit 6 b3) # b64_digit (b3 AND 0b111111) # base64_encode s)"
| "base64_encode [c1] =
     (let b1 = byte_of c1
      in [b64_digit (drop_bit 2 b1), b64_digit (push_bit 4 (b1 AND 0b11)), CHR ''='', CHR ''=''])"
| "base64_encode [c1, c2] =
     (let b1 = byte_of c1; b2 = byte_of c2
      in [b64_digit (drop_bit 2 b1), b64_digit (push_bit 4 (b1 AND 0b11) OR drop_bit 4 b2),
          b64_digit (push_bit 2 (b2 AND 0b1111)), CHR ''=''])"
| "base64_encode [] = []"

text \<open>The decoder of RFC 4648, as the reference.\<close>

definition b64_value :: "char \<Rightarrow> 8 word option" where
  "b64_value c = map_option (\<lambda>n. word_of_nat n) (map_of (zip b64_table [0..<64]) c)"

definition char_of_byte :: "8 word \<Rightarrow> char" where
  "char_of_byte w = char_of (unat w)"

fun base64_decode :: "string \<Rightarrow> string option" where
  "base64_decode [] = Some []"
| "base64_decode (a # b # c # d # s) =
     (case (b64_value a, b64_value b) of
        (Some x, Some y) \<Rightarrow>
          (let c1 = char_of_byte (push_bit 2 x OR drop_bit 4 y) in
           if c = CHR ''='' then (if d = CHR ''='' \<and> s = [] then Some [c1] else None)
           else (case b64_value c of
                   None \<Rightarrow> None
                 | Some z \<Rightarrow>
                     (let c2 = char_of_byte (push_bit 4 y OR drop_bit 2 z) in
                      if d = CHR ''='' then (if s = [] then Some [c1, c2] else None)
                      else (case b64_value d of
                              None \<Rightarrow> None
                            | Some w \<Rightarrow> map_option (\<lambda>r. c1 # c2 # char_of_byte (push_bit 6 z OR w) # r) (base64_decode s)))))
      | _ \<Rightarrow> None)"
| "base64_decode _ = None"

lemma b64_digit_table: "list_all (\<lambda>n. b64_table ! n \<noteq> CHR ''='' \<and> map_of (zip b64_table [0..<64]) (b64_table ! n) = Some n) [0..<64]"
  by code_simp

lemma b64_digit:
  assumes "unat w < 64"
  shows "b64_digit w \<noteq> CHR ''=''" "b64_value (b64_digit w) = Some w"
  using assms b64_digit_table by (auto simp: list_all_iff b64_digit_def b64_value_def)

lemma masks: "b AND (0b11 :: 8 word) = take_bit 2 b" "b AND (0b1111 :: 8 word) = take_bit 4 b"
  "b AND (0b111111 :: 8 word) = take_bit 6 b"
  by (simp_all add: take_bit_eq_mask mask_numeral)

text \<open>A byte is a digit when only its lowest six bits are set.\<close>

lemma six_bits: "take_bit 6 w = w \<Longrightarrow> unat w < 64" for w :: "8 word"
proof -
  assume "take_bit 6 w = w"
  then have "unat w = take_bit 6 (unat w)"
    by (metis unsigned_take_bit_eq)
  also have "\<dots> < 64"
    using take_bit_nat_less_exp [of 6 "unat w"] by simp
  finally show ?thesis .
qed

lemma byte_eqI:
  fixes a b :: "8 word"
  assumes "bit a 0 = bit b 0" "bit a 1 = bit b 1" "bit a 2 = bit b 2" "bit a 3 = bit b 3" "bit a 4 = bit b 4"
    "bit a 5 = bit b 5" "bit a 6 = bit b 6" "bit a 7 = bit b 7"
  shows "a = b"
proof (rule bit_word_eqI)
  fix n assume "n < LENGTH(8)"
  then have "n = 0 \<or> n = 1 \<or> n = 2 \<or> n = 3 \<or> n = 4 \<or> n = 5 \<or> n = 6 \<or> n = 7" by simp arith
  then show "bit a n \<longleftrightarrow> bit b n" by (elim disjE; simp only: assms)
qed

lemma bit_beyond: "8 \<le> n \<Longrightarrow> \<not> bit b n" for b :: "8 word"
  using bit_imp_le_length [of b n] by auto

lemma digit_bits:
  "take_bit 6 (drop_bit 2 b) = drop_bit 2 b"
  "take_bit 6 (push_bit 4 (take_bit 2 b)) = push_bit 4 (take_bit 2 b)"
  "take_bit 6 (push_bit 4 (take_bit 2 b) OR drop_bit 4 c) = push_bit 4 (take_bit 2 b) OR drop_bit 4 c"
  "take_bit 6 (push_bit 2 (take_bit 4 b)) = push_bit 2 (take_bit 4 b)"
  "take_bit 6 (push_bit 2 (take_bit 4 b) OR drop_bit 6 c) = push_bit 2 (take_bit 4 b) OR drop_bit 6 c"
  for b c :: "8 word"
  by (rule byte_eqI; simp add: bit_simps bit_beyond)+

lemma join_bits:
  "push_bit 2 (drop_bit 2 b) OR drop_bit 4 (push_bit 4 (take_bit 2 b)) = b"
  "push_bit 2 (drop_bit 2 b) OR drop_bit 4 (push_bit 4 (take_bit 2 b) OR drop_bit 4 c) = b"
  "push_bit 4 (drop_bit 4 c) OR drop_bit 2 (push_bit 2 (take_bit 4 c)) = c"
  "push_bit 6 (drop_bit 6 c) OR take_bit 6 c = c"
  for b c :: "8 word"
  by (rule byte_eqI; simp add: bit_simps bit_beyond; simp add: numeral_2_eq_2 numeral_3_eq_3)+

lemma char_of_byte_of [simp]: "char_of_byte (byte_of c) = c"
proof -
  have "unat (byte_of c) = code c"
    using code_less_256 [of c] by (simp add: byte_of_def unat_of_nat)
  then show ?thesis by (simp add: char_of_byte_def)
qed

lemma digit_values: "take_bit 6 w = w \<Longrightarrow> b64_digit w \<noteq> CHR ''='' \<and> b64_value (b64_digit w) = Some w"
  using b64_digit [OF six_bits] by blast

lemma last_digit: "take_bit 6 (take_bit 6 b) = take_bit 6 b" for b :: "8 word"
  by simp

lemmas digits = digit_bits [THEN digit_values] last_digit [THEN digit_values]

lemma base64_roundtrip: "base64_decode (base64_encode s) = Some s"
  by (induction s rule: base64_encode.induct) (simp_all add: Let_def masks digits join_bits)

section \<open>URL encoding\<close>

definition unreserved :: "char \<Rightarrow> bool" where
  "unreserved c \<longleftrightarrow> is_ascii_upper c \<or> is_ascii_lower c \<or> is_ascii_digit c \<or> c \<in> set ''-_.~''"

definition hex_upper :: "nat \<Rightarrow> char" where
  "hex_upper n = ''0123456789ABCDEF'' ! n"

definition percent :: "char \<Rightarrow> string" where
  "percent c = [CHR ''%'', hex_upper (code c div 16), hex_upper (code c mod 16)]"

definition url_encode :: "string \<Rightarrow> string" where
  "url_encode s = concat (map (\<lambda>c. if unreserved c then [c] else percent c) s)"

text \<open>The decoder of RFC 3986, as the reference.\<close>

definition hex_value :: "char \<Rightarrow> nat option" where
  "hex_value c = map_of (zip ''0123456789ABCDEF'' [0..<16]) c"

fun url_decode :: "string \<Rightarrow> string option" where
  "url_decode [] = Some []"
| "url_decode (c # s) =
     (if c = CHR ''%'' then
        (case s of a # b # r \<Rightarrow>
           (case (hex_value a, hex_value b) of
              (Some x, Some y) \<Rightarrow> map_option (\<lambda>t. char_of (16 * x + y) # t) (url_decode r)
            | _ \<Rightarrow> None)
         | _ \<Rightarrow> None)
      else map_option (\<lambda>t. c # t) (url_decode s))"

lemma hex_digits: "list_all (\<lambda>n. hex_value (hex_upper n) = Some n \<and> unreserved (hex_upper n)) [0..<16]"
  by code_simp

lemma hex_digit: "n < 16 \<Longrightarrow> hex_value (hex_upper n) = Some n" "n < 16 \<Longrightarrow> unreserved (hex_upper n)"
  using hex_digits by (auto simp: list_all_iff)

lemma percent_reserved: "\<not> unreserved CHR ''%''"
  by code_simp

lemma nibbles: "code c div 16 < 16" "code c mod 16 < 16"
  using code_less_256 [of c] by (simp_all add: less_mult_imp_div_less)

lemma url_roundtrip: "url_decode (url_encode s) = Some s"
proof (induction s)
  case (Cons c s)
  show ?case
  proof (cases "unreserved c")
    case True
    then have "c \<noteq> CHR ''%''" using percent_reserved by auto
    then show ?thesis using True Cons by (simp add: url_encode_def)
  next
    case False
    have "url_decode (percent c @ url_encode s) = Some (c # s)"
      using Cons by (simp add: percent_def hex_digit nibbles)
    then show ?thesis using False by (simp add: url_encode_def)
  qed
qed (simp add: url_encode_def)

lemma url_encode_safe: "list_all (\<lambda>c. unreserved c \<or> c = CHR ''%'') (url_encode s)"
proof -
  have "unreserved (hex_upper (code c div 16)) \<and> unreserved (hex_upper (code c mod 16))" for c
    by (simp add: hex_digit nibbles)
  then show ?thesis
    by (auto simp: list_all_iff url_encode_def percent_def split: if_splits)
qed

section \<open>The readers of XML answers\<close>

text \<open>
  The events of an answer up to its end or its first error, where the readers stop. An attribute list has the
  well-formed attributes with their unescaped values, an end tag and a start tag their qualified name.
\<close>

datatype adt_event =
    Av_Start string "(string \<times> string) list"
  | Av_Empty string "(string \<times> string) list"
  | Av_Text string
  | Av_End string
  | Av_Other

definition map_kind :: "string \<Rightarrow> abap_kind" where
  "map_kind token =
     (if token \<in> {''CLAS/OC'', ''CLAS''} then Kind_Class
      else if token \<in> {''INTF/OI'', ''INTF''} then Kind_Interface
      else if token \<in> {''PROG/P'', ''PROG/I'', ''PROG''} then Kind_Program
      else if token \<in> {''FUGR/F'', ''FUGR''} then Kind_FunctionGroup
      else if token \<in> {''FUGR/FF'', ''FUNC''} then Kind_FunctionModule
      else if token \<in> {''DDLS/DF'', ''DDLS''} then Kind_CdsView
      else if token \<in> {''TABL/DT'', ''TABL''} then Kind_Table
      else if token \<in> {''STRU/DS'', ''STRU''} then Kind_Structure
      else if token \<in> {''DEVC/K'', ''DEVC''} then Kind_Package
      else Kind_Program)"

text \<open>\<open>rsplit(':').next()\<close>.\<close>

definition local_part :: "string \<Rightarrow> string" where
  "local_part q = rev (takeWhile (\<lambda>c. c \<noteq> CHR '':'') (rev q))"

definition attr_named :: "(string \<times> string) list \<Rightarrow> string \<Rightarrow> string option" where
  "attr_named attrs target = map_option snd (find (\<lambda>(k, v). local_part k = target) attrs)"

subsection \<open>Package contents\<close>

datatype current_field = Field_None | Field_ObjectType | Field_ObjectName | Field_Description

record node_reader =
  nr_out :: "package_member list"
  nr_in_node :: bool
  nr_field :: current_field
  nr_name :: string
  nr_desc :: "string option"
  nr_kind :: string

definition node_reader_new :: node_reader where
  "node_reader_new = \<lparr> nr_out = [], nr_in_node = False, nr_field = Field_None, nr_name = [], nr_desc = None, nr_kind = [] \<rparr>"

definition is_node_tag :: "string \<Rightarrow> bool" where
  "is_node_tag tag \<longleftrightarrow> ends_with tag ''SEU_ADT_REPOSITORY_OBJ_NODE'' \<or> tag = ''OBJECT''"

definition field_of_tag :: "string \<Rightarrow> current_field" where
  "field_of_tag tag =
     (if ends_with tag ''OBJECT_TYPE'' then Field_ObjectType
      else if ends_with tag ''OBJECT_NAME'' then Field_ObjectName
      else if ends_with tag ''DESCRIPTION'' then Field_Description
      else Field_None)"

text \<open>The attributes of a self-closing reference: name, description and type, later ones first.\<close>

definition reference_attrs :: "(string \<times> string) list \<Rightarrow> string \<times> string option \<times> string" where
  "reference_attrs attrs = fold (\<lambda>(key, val) (n, d, k).
     if contains_sub key ''name'' then (val, d, k)
     else if contains_sub key ''description'' then (n, Some val, k)
     else if contains_sub key ''type'' then (n, d, val)
     else (n, d, k)) attrs ([], None, [])"

fun node_step :: "adt_event \<Rightarrow> node_reader \<Rightarrow> node_reader" where
  "node_step (Av_Start tag attrs) r =
     (if is_node_tag tag then r\<lparr> nr_in_node := True, nr_name := [], nr_kind := [], nr_desc := None \<rparr>
      else if nr_in_node r then r\<lparr> nr_field := field_of_tag tag \<rparr>
      else r)"
| "node_step (Av_Empty tag attrs) r =
     (if ends_with tag ''objectReference'' \<or> tag = ''OBJECT''
      then (case reference_attrs attrs of (n, d, k) \<Rightarrow>
              if n \<noteq> [] then r\<lparr> nr_out := nr_out r @ [\<lparr> pm_name = n, pm_kind = map_kind k, pm_description = d \<rparr>] \<rparr> else r)
      else r)"
| "node_step (Av_Text s) r =
     (let trimmed = trim s in
      if trimmed \<noteq> [] \<and> nr_in_node r
      then (case nr_field r of
              Field_ObjectType \<Rightarrow> r\<lparr> nr_kind := trimmed \<rparr>
            | Field_ObjectName \<Rightarrow> r\<lparr> nr_name := trimmed \<rparr>
            | Field_Description \<Rightarrow> r\<lparr> nr_desc := Some trimmed \<rparr>
            | Field_None \<Rightarrow> r)
      else r)"
| "node_step (Av_End tag) r =
     (if is_node_tag tag
      then (if nr_in_node r \<and> nr_name r \<noteq> []
            then r\<lparr> nr_out := nr_out r @ [\<lparr> pm_name = nr_name r, pm_kind = map_kind (nr_kind r), pm_description = nr_desc r \<rparr>],
                    nr_name := [], nr_desc := None, nr_in_node := False, nr_field := Field_None \<rparr>
            else r\<lparr> nr_in_node := False, nr_field := Field_None \<rparr>)
      else r\<lparr> nr_field := Field_None \<rparr>)"
| "node_step Av_Other r = r"

definition parse_nodestructure :: "adt_event list \<Rightarrow> package_member list" where
  "parse_nodestructure evs = nr_out (fold node_step evs node_reader_new)"

subsection \<open>Search results and usage references\<close>

definition search_attrs :: "(string \<times> string) list \<Rightarrow> string \<times> string \<times> string option \<times> string option" where
  "search_attrs attrs = fold (\<lambda>(key, val) (n, k, d, p).
     if contains_sub key ''name'' then (val, k, d, p)
     else if contains_sub key ''type'' then (n, val, d, p)
     else if contains_sub key ''description'' then (n, k, Some val, p)
     else if contains_sub key ''packageName'' then (n, k, d, Some val)
     else (n, k, d, p)) attrs ([], [], None, None)"

definition search_hit_of :: "'f \<Rightarrow> string \<Rightarrow> (string \<times> string) list \<Rightarrow> 'f adt_search_hit list" where
  "search_hit_of one tag attrs =
     (if ends_with tag ''objectReference'' then
        (case search_attrs attrs of (n, k, d, p) \<Rightarrow>
           if n \<noteq> [] then [\<lparr> ash_name = n, ash_kind = map_kind k, ash_description = d, ash_package = p, ash_score = one \<rparr>] else [])
      else [])"

text \<open>The score of every hit is the float \<open>1.0\<close>, an argument.\<close>

definition parse_search_results :: "'f \<Rightarrow> adt_event list \<Rightarrow> 'f adt_search_hit list" where
  "parse_search_results one evs = concat (map (\<lambda>ev. case ev of
     Av_Start tag attrs \<Rightarrow> search_hit_of one tag attrs | Av_Empty tag attrs \<Rightarrow> search_hit_of one tag attrs | _ \<Rightarrow> []) evs)"

definition usage_attrs :: "(string \<times> string) list \<Rightarrow> string \<times> string \<times> string" where
  "usage_attrs attrs = fold (\<lambda>(key, val) (n, k, u).
     if contains_sub key ''name'' then (val, k, u)
     else if contains_sub key ''type'' then (n, val, u)
     else if contains_sub key ''uri'' then (n, k, val)
     else (n, k, u)) attrs ([], [], [])"

definition usage_of :: "string \<Rightarrow> (string \<times> string) list \<Rightarrow> where_used_hit list" where
  "usage_of tag attrs =
     (if ends_with tag ''referencedObject'' \<or> ends_with tag ''objectReference'' then
        (case usage_attrs attrs of (n, k, u) \<Rightarrow>
           if n \<noteq> [] then [\<lparr> wuh_object = n, wuh_kind = map_kind k, wuh_location = u, wuh_usage = ''reference'' \<rparr>] else [])
      else [])"

definition parse_usage_references :: "adt_event list \<Rightarrow> where_used_hit list" where
  "parse_usage_references evs = concat (map (\<lambda>ev. case ev of
     Av_Start tag attrs \<Rightarrow> usage_of tag attrs | Av_Empty tag attrs \<Rightarrow> usage_of tag attrs | _ \<Rightarrow> []) evs)"

subsection \<open>Data preview\<close>

record preview_reader =
  pv_columns :: "string list"
  pv_rows :: "adt_table_row list"
  pv_in_row :: bool
  pv_cell_idx :: nat
  pv_row :: adt_table_row
  pv_cell_text :: string
  pv_in_cell :: bool

definition preview_reader_new :: preview_reader where
  "preview_reader_new = \<lparr> pv_columns = [], pv_rows = [], pv_in_row = False, pv_cell_idx = 0, pv_row = [],
     pv_cell_text = [], pv_in_cell = False \<rparr>"

text \<open>The value goes under the column of the current cell, if there is one.\<close>

definition put_cell :: "string \<Rightarrow> preview_reader \<Rightarrow> preview_reader" where
  "put_cell v r =
     (if pv_cell_idx r < length (pv_columns r)
      then r\<lparr> pv_row := amap_insert (pv_columns r ! pv_cell_idx r) (JString v) (pv_row r) \<rparr>
      else r)"

definition add_column :: "(string \<times> string) list \<Rightarrow> preview_reader \<Rightarrow> preview_reader" where
  "add_column attrs r =
     (case attr_named attrs ''name'' of Some n \<Rightarrow> r\<lparr> pv_columns := pv_columns r @ [n] \<rparr> | None \<Rightarrow> r)"

fun preview_step :: "adt_event \<Rightarrow> preview_reader \<Rightarrow> preview_reader" where
  "preview_step (Av_Empty tag attrs) r =
     (if local_part tag = ''metadata'' then add_column attrs r
      else if local_part tag = ''cell'' then
        (case attr_named attrs ''value'' of
           Some v \<Rightarrow> (put_cell v r)\<lparr> pv_cell_idx := pv_cell_idx r + 1 \<rparr>
         | None \<Rightarrow>
             if pv_cell_idx r < length (pv_columns r) then (put_cell [] r)\<lparr> pv_cell_idx := pv_cell_idx r + 1 \<rparr> else r)
      else r)"
| "preview_step (Av_Start tag attrs) r =
     (if local_part tag = ''metadata'' then add_column attrs r
      else if local_part tag = ''row'' then r\<lparr> pv_in_row := True, pv_cell_idx := 0, pv_row := [] \<rparr>
      else if local_part tag = ''cell'' \<and> pv_in_row r then
        r\<lparr> pv_in_cell := True, pv_cell_text := (case attr_named attrs ''value'' of Some v \<Rightarrow> v | None \<Rightarrow> []) \<rparr>
      else r)"
| "preview_step (Av_Text s) r =
     (if pv_in_cell r \<and> trim s \<noteq> [] then r\<lparr> pv_cell_text := trim s \<rparr> else r)"
| "preview_step (Av_End tag) r =
     (if local_part tag = ''cell'' then
        (if pv_in_cell r \<and> pv_cell_idx r < length (pv_columns r)
         then (put_cell (pv_cell_text r) r)\<lparr> pv_cell_text := [], pv_cell_idx := pv_cell_idx r + 1, pv_in_cell := False \<rparr>
         else r\<lparr> pv_cell_idx := pv_cell_idx r + 1, pv_in_cell := False \<rparr>)
      else if local_part tag = ''row'' then
        (if pv_in_row r \<and> pv_row r \<noteq> []
         then r\<lparr> pv_rows := pv_rows r @ [pv_row r], pv_row := [], pv_in_row := False \<rparr>
         else r\<lparr> pv_in_row := False \<rparr>)
      else r)"
| "preview_step Av_Other r = r"

definition parse_data_preview :: "adt_event list \<Rightarrow> adt_table_row list" where
  "parse_data_preview evs = pv_rows (fold preview_step evs preview_reader_new)"

section \<open>What SAP prints is read back\<close>

text \<open>A cell in one of the three forms: a value attribute on an empty or on an opened tag, or a text.\<close>

datatype cell_form = Value_Empty | Value_Open | Text_Content

definition print_cell :: "cell_form \<times> string \<Rightarrow> adt_event list" where
  "print_cell = (\<lambda>(form, v). case form of
     Value_Empty \<Rightarrow> [Av_Empty ''dataPreview:cell'' [(''adtcore:value'', v)]]
   | Value_Open \<Rightarrow> [Av_Start ''dataPreview:cell'' [(''adtcore:value'', v)], Av_End ''dataPreview:cell'']
   | Text_Content \<Rightarrow> [Av_Start ''dataPreview:cell'' [], Av_Text v, Av_End ''dataPreview:cell''])"

definition print_row :: "(cell_form \<times> string) list \<Rightarrow> adt_event list" where
  "print_row cells = [Av_Start ''dataPreview:row'' [], Av_Start ''dataPreview:cells'' []] @ concat (map print_cell cells)
     @ [Av_End ''dataPreview:cells'', Av_End ''dataPreview:row'']"

definition print_preview :: "string list \<Rightarrow> (cell_form \<times> string) list list \<Rightarrow> adt_event list" where
  "print_preview cols rows =
     [Av_Start ''dataPreview:tableData'' [], Av_Start ''dataPreview:columns'' []]
     @ map (\<lambda>c. Av_Empty ''dataPreview:metadata'' [(''adtcore:name'', c), (''adtcore:type'', ''C'')]) cols
     @ [Av_End ''dataPreview:columns'', Av_Start ''dataPreview:rows'' []]
     @ concat (map print_row rows) @ [Av_End ''dataPreview:rows'', Av_End ''dataPreview:tableData'']"

text \<open>A cell's text has no white space at its ends.\<close>

definition cell_ok :: "cell_form \<times> string \<Rightarrow> bool" where
  "cell_ok = (\<lambda>(form, v). form = Text_Content \<longrightarrow> trim v = v)"

lemma local_parts:
  "local_part ''dataPreview:cell'' = ''cell''" "local_part ''dataPreview:cells'' = ''cells''"
  "local_part ''dataPreview:row'' = ''row''" "local_part ''dataPreview:rows'' = ''rows''"
  "local_part ''dataPreview:metadata'' = ''metadata''" "local_part ''dataPreview:columns'' = ''columns''"
  "local_part ''dataPreview:tableData'' = ''tableData''" "local_part ''adtcore:value'' = ''value''"
  "local_part ''adtcore:name'' = ''name''" "local_part ''adtcore:type'' = ''type''"
  by code_simp+

lemma read_columns:
  "fold preview_step (map (\<lambda>c. Av_Empty ''dataPreview:metadata'' [(''adtcore:name'', c), (''adtcore:type'', ''C'')]) cols) r
     = r\<lparr> pv_columns := pv_columns r @ cols \<rparr>"
  by (induction cols arbitrary: r) (simp_all add: local_parts add_column_def attr_named_def)

text \<open>Inside a row a cell puts its value under its column.\<close>

lemma read_cell:
  assumes "pv_in_row r" "\<not> pv_in_cell r" "pv_cell_idx r < length (pv_columns r)" "cell_ok (form, v)"
  shows "fold preview_step (print_cell (form, v)) r =
    r\<lparr> pv_row := amap_insert (pv_columns r ! pv_cell_idx r) (JString v) (pv_row r), pv_cell_idx := pv_cell_idx r + 1,
       pv_cell_text := (if form = Value_Empty then pv_cell_text r else []) \<rparr>"
  using assms by (cases form; cases r)
    (simp_all add: print_cell_def local_parts put_cell_def attr_named_def cell_ok_def)

definition fill_row :: "string list \<Rightarrow> string list \<Rightarrow> adt_table_row \<Rightarrow> adt_table_row" where
  "fill_row cols vs m = fold (\<lambda>(c, v). amap_insert c (JString v)) (zip cols vs) m"

lemma read_cells:
  assumes "pv_in_row r" "\<not> pv_in_cell r" "pv_cell_idx r + length cells \<le> length (pv_columns r)" "list_all cell_ok cells"
  shows "\<exists>t. fold preview_step (concat (map print_cell cells)) r =
    r\<lparr> pv_row := fill_row (drop (pv_cell_idx r) (pv_columns r)) (map snd cells) (pv_row r),
       pv_cell_idx := pv_cell_idx r + length cells, pv_cell_text := t \<rparr>"
  using assms
proof (induction cells arbitrary: r)
  case Nil
  then show ?case by (intro exI [of _ "pv_cell_text r"]) (simp add: fill_row_def)
next
  case (Cons cell cells)
  obtain form v where cell: "cell = (form, v)" by (cases cell)
  let ?r = "r\<lparr> pv_row := amap_insert (pv_columns r ! pv_cell_idx r) (JString v) (pv_row r), pv_cell_idx := pv_cell_idx r + 1,
       pv_cell_text := (if form = Value_Empty then pv_cell_text r else []) \<rparr>"
  have idx: "pv_cell_idx r < length (pv_columns r)" using Cons.prems(3) by simp
  have one: "fold preview_step (print_cell cell) r = ?r"
    using read_cell [of r form v] Cons.prems idx by (simp add: cell)
  obtain t where "fold preview_step (concat (map print_cell cells)) ?r =
      ?r\<lparr> pv_row := fill_row (drop (pv_cell_idx ?r) (pv_columns ?r)) (map snd cells) (pv_row ?r),
         pv_cell_idx := pv_cell_idx ?r + length cells, pv_cell_text := t \<rparr>"
    using Cons.IH [of ?r] Cons.prems by auto
  moreover have "drop (pv_cell_idx r) (pv_columns r) = pv_columns r ! pv_cell_idx r # drop (Suc (pv_cell_idx r)) (pv_columns r)"
    using idx by (rule Cons_nth_drop_Suc [symmetric])
  ultimately show ?case
    using one by (intro exI [of _ t]) (simp add: cell fill_row_def)
qed

lemma fill_row_not_Nil: "fill_row cols vs m \<noteq> []" if "m \<noteq> [] \<or> cols \<noteq> [] \<and> vs \<noteq> []"
proof -
  have ins: "amap_insert k v m \<noteq> []" for k :: string and v :: json and m
    by (cases m) (auto split: if_splits)
  have "fold (\<lambda>(c, v). amap_insert c (JString v)) ps m \<noteq> []" if "m \<noteq> []" for ps :: "(string \<times> string) list" and m
    using that ins by (induction ps arbitrary: m) auto
  then show ?thesis
    using that ins unfolding fill_row_def by (cases cols; cases vs) auto
qed

lemma read_row:
  assumes "\<not> pv_in_cell r" "length cells = length (pv_columns r)" "pv_columns r \<noteq> []" "list_all cell_ok cells"
  shows "\<exists>t. fold preview_step (print_row cells) r =
    r\<lparr> pv_rows := pv_rows r @ [fill_row (pv_columns r) (map snd cells) []], pv_in_row := False, pv_row := [],
       pv_cell_idx := length cells, pv_cell_text := t \<rparr>"
proof -
  let ?r = "r\<lparr> pv_in_row := True, pv_cell_idx := 0, pv_row := [] \<rparr>"
  obtain t where t: "fold preview_step (concat (map print_cell cells)) ?r =
      ?r\<lparr> pv_row := fill_row (pv_columns r) (map snd cells) [], pv_cell_idx := length cells, pv_cell_text := t \<rparr>"
    using read_cells [of ?r cells] assms by auto
  have "fill_row (pv_columns r) (map snd cells) [] \<noteq> []"
    using assms(2,3) by (intro fill_row_not_Nil) auto
  then show ?thesis
    using t by (intro exI [of _ t]) (simp add: print_row_def local_parts)
qed

lemma read_rows:
  assumes "\<not> pv_in_cell r" "pv_columns r \<noteq> []" "list_all (\<lambda>cells. length cells = length (pv_columns r) \<and> list_all cell_ok cells) rows"
  shows "pv_rows (fold preview_step (concat (map print_row rows)) r) =
      pv_rows r @ map (\<lambda>cells. fill_row (pv_columns r) (map snd cells) []) rows"
  using assms
proof (induction rows arbitrary: r)
  case (Cons cells rows)
  obtain t where t: "fold preview_step (print_row cells) r =
      r\<lparr> pv_rows := pv_rows r @ [fill_row (pv_columns r) (map snd cells) []], pv_in_row := False, pv_row := [],
         pv_cell_idx := length cells, pv_cell_text := t \<rparr>"
    using read_row [of r cells] Cons.prems by auto
  show ?case
    using Cons.IH [of "fold preview_step (print_row cells) r"] Cons.prems by (simp add: t)
qed simp

lemma fill_row_amap: "length vs = length cols \<Longrightarrow> fill_row cols vs [] = amap_of (zip cols (map JString vs))"
proof -
  have "fold (\<lambda>(c, v). amap_insert c (JString v)) (zip cols vs) m = fold (\<lambda>(k, v) m. amap_insert k v m) (zip cols (map JString vs)) m" for m
    by (simp add: zip_map2 fold_map comp_def split_def)
  then show ?thesis by (simp add: fill_row_def amap_of_def)
qed

text \<open>
  C36. A data preview that SAP prints, with its values in attributes, on empty or opened cells, or as texts, in
  any mixture, is read as its rows: each maps every column to the text of its cell.
\<close>

theorem data_preview_roundtrip:
  assumes "cols \<noteq> []" "\<forall>cells \<in> set rows. length cells = length cols \<and> list_all cell_ok cells"
  shows "parse_data_preview (print_preview cols rows) =
    map (\<lambda>cells. amap_of (zip cols (map (JString \<circ> snd) cells))) rows"
proof -
  let ?r = "preview_reader_new\<lparr> pv_columns := cols \<rparr>"
  have start: "preview_step (Av_Start ''dataPreview:tableData'' []) r = r"
    "preview_step (Av_Start ''dataPreview:columns'' []) r = r" "preview_step (Av_End ''dataPreview:columns'') r = r"
    "preview_step (Av_Start ''dataPreview:rows'' []) r = r" "preview_step (Av_End ''dataPreview:rows'') r = r"
    "preview_step (Av_End ''dataPreview:tableData'') r = r" for r
    by (simp_all add: local_parts)
  have "preview_reader_new\<lparr> pv_columns := pv_columns preview_reader_new @ cols \<rparr> = ?r"
    by (simp add: preview_reader_new_def)
  then have "parse_data_preview (print_preview cols rows) = pv_rows (fold preview_step (concat (map print_row rows)) ?r)"
    unfolding parse_data_preview_def print_preview_def fold_append comp_def fold_simps read_columns start by simp
  also have "\<dots> = map (\<lambda>cells. fill_row cols (map snd cells) []) rows"
    using assms by (subst read_rows) (auto simp: preview_reader_new_def list_all_iff)
  also have "\<dots> = map (\<lambda>cells. amap_of (zip cols (map (JString \<circ> snd) cells))) rows"
    using assms(2) by (intro map_cong) (simp_all add: fill_row_amap)
  finally show ?thesis .
qed

theorem data_preview_roundtrip_witness:
  "parse_data_preview (print_preview [''MANDT'', ''BUKRS''] [[(Value_Empty, ''100''), (Text_Content, ''1000'')]]) =
     [[(''BUKRS'', JString ''1000''), (''MANDT'', JString ''100'')]]"
proof -
  have "trim ''1000'' = ''1000''" by code_simp
  then show ?thesis
    by (subst data_preview_roundtrip) (simp_all add: cell_ok_def amap_of_def)
qed

subsection \<open>Package listings\<close>

definition print_field :: "string \<Rightarrow> string \<Rightarrow> adt_event list" where
  "print_field tag v = [Av_Start tag [], Av_Text v, Av_End tag]"

definition print_node :: "string \<times> string \<times> string option \<Rightarrow> adt_event list" where
  "print_node = (\<lambda>(kind, name, desc).
     [Av_Start ''SEU_ADT_REPOSITORY_OBJ_NODE'' []] @ print_field ''OBJECT_TYPE'' kind @ print_field ''OBJECT_NAME'' name
     @ (case desc of Some d \<Rightarrow> print_field ''DESCRIPTION'' d | None \<Rightarrow> [Av_Empty ''DESCRIPTION'' []])
     @ print_field ''OBJECT_URI'' ''/sap/bc/adt'' @ [Av_End ''SEU_ADT_REPOSITORY_OBJ_NODE''])"

definition text_value :: "string \<Rightarrow> bool" where
  "text_value s \<longleftrightarrow> s \<noteq> [] \<and> trim s = s"

definition node_ok :: "string \<times> string \<times> string option \<Rightarrow> bool" where
  "node_ok = (\<lambda>(kind, name, desc). text_value kind \<and> text_value name \<and> (case desc of Some d \<Rightarrow> text_value d | None \<Rightarrow> True))"

lemma node_tags:
  "is_node_tag ''SEU_ADT_REPOSITORY_OBJ_NODE''" "\<not> is_node_tag ''OBJECT_TYPE''" "\<not> is_node_tag ''OBJECT_NAME''"
  "\<not> is_node_tag ''DESCRIPTION''" "\<not> is_node_tag ''OBJECT_URI''" "\<not> is_node_tag ''asx:abap''"
  "field_of_tag ''OBJECT_TYPE'' = Field_ObjectType" "field_of_tag ''OBJECT_NAME'' = Field_ObjectName"
  "field_of_tag ''DESCRIPTION'' = Field_Description" "field_of_tag ''OBJECT_URI'' = Field_None"
  "\<not> ends_with ''DESCRIPTION'' ''objectReference''"
  by code_simp+

lemma read_field:
  assumes "nr_in_node r" "\<not> is_node_tag tag" "text_value v"
  shows "fold node_step (print_field tag v) r =
    (case field_of_tag tag of
       Field_ObjectType \<Rightarrow> r\<lparr> nr_kind := v, nr_field := Field_None \<rparr>
     | Field_ObjectName \<Rightarrow> r\<lparr> nr_name := v, nr_field := Field_None \<rparr>
     | Field_Description \<Rightarrow> r\<lparr> nr_desc := Some v, nr_field := Field_None \<rparr>
     | Field_None \<Rightarrow> r\<lparr> nr_field := Field_None \<rparr>)"
  using assms by (cases "field_of_tag tag") (simp_all add: print_field_def text_value_def)

lemma uri_value: "text_value ''/sap/bc/adt''"
  by code_simp

lemma read_node:
  assumes "node_ok (kind, name, desc)"
  shows "\<exists>k. fold node_step (print_node (kind, name, desc)) r =
    r\<lparr> nr_out := nr_out r @ [\<lparr> pm_name = name, pm_kind = map_kind kind, pm_description = desc \<rparr>], nr_name := [],
       nr_desc := None, nr_in_node := False, nr_field := Field_None, nr_kind := k \<rparr>"
proof (intro exI [of _ kind])
  let ?r0 = "r\<lparr> nr_in_node := True, nr_name := [], nr_kind := [], nr_desc := None \<rparr>"
  have ok: "text_value kind" "text_value name" "name \<noteq> []" "\<And>d. desc = Some d \<Longrightarrow> text_value d"
    using assms by (auto simp: node_ok_def text_value_def)
  show "fold node_step (print_node (kind, name, desc)) r =
    r\<lparr> nr_out := nr_out r @ [\<lparr> pm_name = name, pm_kind = map_kind kind, pm_description = desc \<rparr>], nr_name := [],
       nr_desc := None, nr_in_node := False, nr_field := Field_None, nr_kind := kind \<rparr>"
    using ok by (cases desc) (simp_all add: print_node_def read_field node_tags uri_value)
qed

lemma nodestructure_roundtrip:
  assumes "list_all node_ok nodes"
  shows "parse_nodestructure ([Av_Start ''asx:abap'' []] @ concat (map print_node nodes) @ [Av_End ''asx:abap'']) =
    map (\<lambda>(kind, name, desc). \<lparr> pm_name = name, pm_kind = map_kind kind, pm_description = desc \<rparr>) nodes"
proof -
  have "nr_out (fold node_step (concat (map print_node nodes)) r) =
      nr_out r @ map (\<lambda>(kind, name, desc). \<lparr> pm_name = name, pm_kind = map_kind kind, pm_description = desc \<rparr>) nodes" for r
    using assms
  proof (induction nodes arbitrary: r)
    case (Cons n ns)
    obtain kind name desc where n: "n = (kind, name, desc)" by (cases n)
    then obtain k where "fold node_step (print_node n) r =
        r\<lparr> nr_out := nr_out r @ [\<lparr> pm_name = name, pm_kind = map_kind kind, pm_description = desc \<rparr>], nr_name := [],
           nr_desc := None, nr_in_node := False, nr_field := Field_None, nr_kind := k \<rparr>"
      using read_node [of kind name desc r] Cons.prems by auto
    then show ?case using Cons by (simp add: n)
  qed simp
  then show ?thesis
    by (simp add: parse_nodestructure_def node_tags node_reader_new_def)
qed

text \<open>Every reader answers with objects that have a name.\<close>

lemma readers_name_objects:
  "h \<in> set (parse_search_results one evs) \<Longrightarrow> ash_name h \<noteq> [] \<and> ash_score h = one"
  "u \<in> set (parse_usage_references evs) \<Longrightarrow> wuh_object u \<noteq> []"
proof -
  have hit: "\<forall>h \<in> set (search_hit_of one tag attrs). ash_name h \<noteq> [] \<and> ash_score h = one" for tag attrs
    unfolding search_hit_of_def split_def
    by (cases "ends_with tag ''objectReference''"; simp only: if_True if_False; cases "fst (search_attrs attrs) = []") simp_all
  have use: "\<forall>u \<in> set (usage_of tag attrs). wuh_object u \<noteq> []" for tag attrs
    unfolding usage_of_def split_def
    by (cases "ends_with tag ''referencedObject'' \<or> ends_with tag ''objectReference''"; simp only: if_True if_False;
        cases "fst (usage_attrs attrs) = []") simp_all
  show "h \<in> set (parse_search_results one evs) \<Longrightarrow> ash_name h \<noteq> [] \<and> ash_score h = one"
    by (induction evs) (auto simp: parse_search_results_def simp: hit split: adt_event.splits)
  show "u \<in> set (parse_usage_references evs) \<Longrightarrow> wuh_object u \<noteq> []"
    by (induction evs) (auto simp: parse_usage_references_def simp: use split: adt_event.splits)
qed

text \<open>
  The encoders of the HTTP client lose nothing: a Base64 decoder gives back the credentials and a URL
  decoder the query, and an encoded query consists of unreserved characters and percent signs, so it cannot
  add a parameter to the URL it is put in.
\<close>

lemma encoders_roundtrip:
  "base64_decode (base64_encode s) = Some s \<and> url_decode (url_encode s) = Some s \<and>
   list_all (\<lambda>c. unreserved c \<or> c = CHR ''%'') (url_encode s)"
  by (simp add: base64_roundtrip url_roundtrip url_encode_safe)

end
