(* ===== verification/Graph_Store.thy ===== *)
theory Graph_Store
  imports Ranking
begin

text \<open>
  The knowledge graph's data (\<open>sap-automate-graph/src/entity.rs\<close>, \<open>store.rs\<close>): entities and weighted edges,
  the two adjacency maps kept beside the edge list, the text search for seed nodes, and the demo corpus.
  The order in which a hash map yields its elements is a parameter, some permutation of them; lower-casing
  is a parameter too.
\<close>

section \<open>Entities and edges\<close>

datatype entity_kind =
  AbapObject | Table | Field | Rfc | BpmnProcess | LeanixApp | HelpPage | Concept

record entity =
  e_id :: string
  e_kind :: entity_kind
  e_label :: string
  e_description :: "string option"
  e_uri :: "string option"
  e_tags :: "string list"

datatype edge_kind =
  Calls | Implements | Includes | ReadsTable | WritesTable | References | ContainedIn | DependsOn | Describes | Related

record 'f edge =
  ed_from :: string
  ed_to :: string
  ed_kind :: edge_kind
  ed_weight :: 'f

definition kind_debug :: "entity_kind \<Rightarrow> string" where
  "kind_debug k = (case k of
     AbapObject \<Rightarrow> ''AbapObject'' | Table \<Rightarrow> ''Table'' | Field \<Rightarrow> ''Field'' | Rfc \<Rightarrow> ''Rfc'' | BpmnProcess \<Rightarrow> ''BpmnProcess''
   | LeanixApp \<Rightarrow> ''LeanixApp'' | HelpPage \<Rightarrow> ''HelpPage'' | Concept \<Rightarrow> ''Concept'')"

section \<open>The graph\<close>

type_synonym 'f adjacency = "(string, (string \<times> edge_kind \<times> 'f) list) amap"

record 'f in_memory_graph =
  g_nodes :: "(string, entity) amap"
  g_out_edges :: "'f adjacency"
  g_in_edges :: "'f adjacency"
  g_edges :: "'f edge list"

definition graph_new :: "'f in_memory_graph" where
  "graph_new = \<lparr> g_nodes = [], g_out_edges = [], g_in_edges = [], g_edges = [] \<rparr>"

definition add_entity :: "entity \<Rightarrow> 'f in_memory_graph \<Rightarrow> 'f in_memory_graph" where
  "add_entity e g = g\<lparr> g_nodes := amap_insert (e_id e) e (g_nodes g) \<rparr>"

definition adj_list :: "'f adjacency \<Rightarrow> string \<Rightarrow> (string \<times> edge_kind \<times> 'f) list" where
  "adj_list m i = (case map_of m i of Some v \<Rightarrow> v | None \<Rightarrow> [])"

text \<open>\<open>entry(k).or_default().push(x)\<close>.\<close>

definition adj_push :: "string \<Rightarrow> string \<times> edge_kind \<times> 'f \<Rightarrow> 'f adjacency \<Rightarrow> 'f adjacency" where
  "adj_push k x m = amap_insert k (adj_list m k @ [x]) m"

definition add_edge :: "'f edge \<Rightarrow> 'f in_memory_graph \<Rightarrow> 'f in_memory_graph" where
  "add_edge e g =
     g\<lparr> g_out_edges := adj_push (ed_from e) (ed_to e, ed_kind e, ed_weight e) (g_out_edges g),
        g_in_edges := adj_push (ed_to e) (ed_from e, ed_kind e, ed_weight e) (g_in_edges g),
        g_edges := g_edges g @ [e] \<rparr>"

definition graph_node :: "'f in_memory_graph \<Rightarrow> string \<Rightarrow> entity option" where
  "graph_node g i = map_of (g_nodes g) i"

definition outbound :: "'f in_memory_graph \<Rightarrow> string \<Rightarrow> (string \<times> edge_kind \<times> 'f) list" where
  "outbound g i = adj_list (g_out_edges g) i"

definition inbound :: "'f in_memory_graph \<Rightarrow> string \<Rightarrow> (string \<times> edge_kind \<times> 'f) list" where
  "inbound g i = adj_list (g_in_edges g) i"

text \<open>\<open>*seen.entry(n).or_insert(0.0) += w\<close>.\<close>

definition bump :: "'f f32_ops \<Rightarrow> 'k::linorder \<Rightarrow> 'f \<Rightarrow> ('k, 'f) amap \<Rightarrow> ('k, 'f) amap" where
  "bump F k w m = amap_insert k (f_add F (case map_of m k of Some x \<Rightarrow> x | None \<Rightarrow> f_rat F (0, 1)) w) m"

definition undirected_map :: "'f f32_ops \<Rightarrow> 'f in_memory_graph \<Rightarrow> string \<Rightarrow> (string, 'f) amap" where
  "undirected_map F g i = fold (\<lambda>(n, _, w). bump F n w) (outbound g i @ inbound g i) []"

type_synonym 'a order = "'a list \<Rightarrow> 'a list"

definition undirected_neighbours ::
  "'f f32_ops \<Rightarrow> (string \<times> 'f) order \<Rightarrow> 'f in_memory_graph \<Rightarrow> string \<Rightarrow> (string \<times> 'f) list" where
  "undirected_neighbours F it g i = it (undirected_map F g i)"

record graph_stats =
  gs_node_count :: nat
  gs_edge_count :: nat
  gs_by_kind :: "(string, nat) amap"

definition stats :: "'f in_memory_graph \<Rightarrow> graph_stats" where
  "stats g = \<lparr> gs_node_count = length (g_nodes g), gs_edge_count = length (g_edges g),
     gs_by_kind = fold (\<lambda>e m. let k = kind_debug (e_kind e) in
       amap_insert k ((case map_of m k of Some n \<Rightarrow> n | None \<Rightarrow> 0) + 1) m) (map snd (g_nodes g)) [] \<rparr>"

section \<open>Seeds of a query\<close>

definition seed_terms :: "(string \<Rightarrow> string) \<Rightarrow> string \<Rightarrow> string list" where
  "seed_terms lower query = filter (\<lambda>t. length t \<ge> 2) (split_whitespace (lower query))"

definition term_hits :: "string list \<Rightarrow> string \<Rightarrow> nat" where
  "term_hits terms hay = sum_list (map (\<lambda>t. count_matches t hay) terms)"

definition entity_text :: "(string \<Rightarrow> string) \<Rightarrow> entity \<Rightarrow> string" where
  "entity_text lower e = lower (e_label e) @ '' '' @ lower (case e_description e of Some d \<Rightarrow> d | None \<Rightarrow> [])
     @ '' '' @ lower (join '' '' (e_tags e))"

definition find_seeds ::
  "(string \<Rightarrow> string) \<Rightarrow> entity order \<Rightarrow> 'f in_memory_graph \<Rightarrow> string \<Rightarrow> nat \<Rightarrow> string list" where
  "find_seeds lower it g query max_seeds =
     (let terms = seed_terms lower query in
      if terms = [] then []
      else (let scored = List.map_filter (\<lambda>e. let score = term_hits terms (entity_text lower e)
                           in if score = 0 then None else Some (score, e)) (it (map snd (g_nodes g)));
                ranked = sort_by (\<lambda>a b. compare_num (fst b) (fst a)) scored
            in map (\<lambda>(_, e). e_id e) (take max_seeds ranked)))"

section \<open>The demo corpus\<close>

definition demo_entity ::
  "string \<Rightarrow> entity_kind \<Rightarrow> string \<Rightarrow> string \<Rightarrow> string option \<Rightarrow> string list \<Rightarrow> entity" where
  "demo_entity i kind label desc uri tags =
     \<lparr> e_id = i, e_kind = kind, e_label = label, e_description = Some desc, e_uri = uri, e_tags = tags \<rparr>"

definition seed_entities :: "entity list" where
  "seed_entities =
    [demo_entity ''abap:ZFIN_POST_JE'' AbapObject ''ZFIN_POST_JE''
       ''ABAP report that posts FI journal entries via BAPI_ACC_DOCUMENT_POST.''
       (Some ''abap-obj://ZFIN/ZFIN_POST_JE'') [''module:FI'', ''package:ZFIN'', ''kind:program''],
     demo_entity ''abap:ZCL_FIN_POSTER'' AbapObject ''ZCL_FIN_POSTER''
       ''Helper class implementing ZIF_FIN_POSTABLE.''
       (Some ''abap-obj://ZFIN/ZCL_FIN_POSTER'') [''module:FI'', ''package:ZFIN'', ''kind:class''],
     demo_entity ''abap:ZIF_FIN_POSTABLE'' AbapObject ''ZIF_FIN_POSTABLE''
       ''FI posting contract interface.''
       (Some ''abap-obj://ZFIN/ZIF_FIN_POSTABLE'') [''module:FI'', ''package:ZFIN'', ''kind:interface''],
     demo_entity ''abap:ZFIN_TOP'' AbapObject ''ZFIN_TOP''
       ''Global data definitions for ZFIN programs.''
       (Some ''abap-obj://ZFIN/ZFIN_TOP'') [''module:FI'', ''package:ZFIN'', ''kind:include''],
     demo_entity ''abap:ZFIN_F01'' AbapObject ''ZFIN_F01''
       ''Form routines for FI posting.''
       (Some ''abap-obj://ZFIN/ZFIN_F01'') [''module:FI'', ''package:ZFIN'', ''kind:include''],
     demo_entity ''abap:ZMM_GRN_CHECK'' AbapObject ''ZMM_GRN_CHECK''
       ''Goods receipt reconciliation.''
       (Some ''abap-obj://ZMM/ZMM_GRN_CHECK'') [''module:MM'', ''package:ZMM'', ''kind:program''],
     demo_entity ''rfc:BAPI_ACC_DOCUMENT_POST'' Rfc ''BAPI_ACC_DOCUMENT_POST''
       ''Post an accounting document (FI journal entry).''
       (Some ''sap-rfc://BAPI_ACC_DOCUMENT_POST'') [''module:FI'', ''group:FBAS''],
     demo_entity ''rfc:BAPI_GOODSMVT_CREATE'' Rfc ''BAPI_GOODSMVT_CREATE''
       ''Post a goods movement (MM).''
       (Some ''sap-rfc://BAPI_GOODSMVT_CREATE'') [''module:MM''],
     demo_entity ''rfc:BAPI_MATERIAL_GET_DETAIL'' Rfc ''BAPI_MATERIAL_GET_DETAIL''
       ''Read material master detail.''
       (Some ''sap-rfc://BAPI_MATERIAL_GET_DETAIL'') [''module:MM'', ''group:MGV3''],
     demo_entity ''rfc:BAPI_SALESORDER_CREATEFROMDAT2'' Rfc ''BAPI_SALESORDER_CREATEFROMDAT2''
       ''Create a sales order.''
       (Some ''sap-rfc://BAPI_SALESORDER_CREATEFROMDAT2'') [''module:SD''],
     demo_entity ''tab:T001'' Table ''T001''
       ''Company codes.''
       (Some ''sap-table://T001/structure'') [''module:FI''],
     demo_entity ''tab:T001B'' Table ''T001B''
       ''Posting periods.''
       (Some ''sap-table://T001B/structure'') [''module:FI''],
     demo_entity ''tab:MARA'' Table ''MARA''
       ''General material data.''
       (Some ''sap-table://MARA/structure'') [''module:MM''],
     demo_entity ''tab:VBAK'' Table ''VBAK''
       ''Sales document header.''
       (Some ''sap-table://VBAK/structure'') [''module:SD''],
     demo_entity ''tab:BSEG'' Table ''BSEG''
       ''Accounting document segment.''
       (Some ''sap-table://BSEG/structure'') [''module:FI''],
     demo_entity ''tab:FAGLFLEXA'' Table ''FAGLFLEXA''
       ''Actual line items of general ledger.''
       (Some ''sap-table://FAGLFLEXA/structure'') [''module:FI''],
     demo_entity ''bpmn:P2P-001'' BpmnProcess ''Procure-to-Pay (P2P)''
       ''Purchase requisition through invoice verification.''
       (Some ''bpmn-proc://core/P2P-001'') [''process:p2p''],
     demo_entity ''bpmn:O2C-002'' BpmnProcess ''Order-to-Cash (O2C)''
       ''Sales order through cash application.''
       (Some ''bpmn-proc://core/O2C-002'') [''process:o2c''],
     demo_entity ''leanix:FS-12001'' LeanixApp ''S/4HANA Finance''
       ''Finance application running general ledger, AP, AR.''
       (Some ''leanix-fs://FS-12001'') [''lifecycle:active''],
     demo_entity ''leanix:FS-08823'' LeanixApp ''Legacy Billing Engine''
       ''Phase-out billing engine.''
       (Some ''leanix-fs://FS-08823'') [''lifecycle:phase_out''],
     demo_entity ''help:FI/period-close'' HelpPage ''Period-End Close in SAP FI''
       ''Procedure for FI period-end close.''
       (Some ''sap-help://FI/period-close'') [''module:FI''],
     demo_entity ''help:MM/goods-movement'' HelpPage ''Goods Movement Posting''
       ''Procedure for MM goods movements.''
       (Some ''sap-help://MM/goods-movement'') [''module:MM''],
     demo_entity ''concept:period_close'' Concept ''Period Close''
       ''FI period-end close: open/close posting periods, foreign currency revaluation, reconciliation.''
       (None) [''module:FI''],
     demo_entity ''concept:goods_movement'' Concept ''Goods Movement''
       ''Posting goods receipts, issues, and transfer postings against material master.''
       (None) [''module:MM''],
     demo_entity ''concept:journal_entry'' Concept ''Journal Entry''
       ''Accounting document posting that creates FI documents.''
       (None) [''module:FI'']]"

definition seed_edges :: "(string \<times> string \<times> edge_kind \<times> int \<times> int) list" where
  "seed_edges =
    [(''abap:ZCL_FIN_POSTER'', ''abap:ZIF_FIN_POSTABLE'', Implements, 1, 1),
     (''abap:ZFIN_POST_JE'', ''abap:ZCL_FIN_POSTER'', Calls, 1, 1),
     (''abap:ZFIN_POST_JE'', ''abap:ZFIN_TOP'', Includes, 1, 1),
     (''abap:ZFIN_POST_JE'', ''abap:ZFIN_F01'', Includes, 1, 1),
     (''abap:ZCL_FIN_POSTER'', ''rfc:BAPI_ACC_DOCUMENT_POST'', Calls, 2, 1),
     (''abap:ZFIN_POST_JE'', ''rfc:BAPI_ACC_DOCUMENT_POST'', Calls, 1, 1),
     (''abap:ZMM_GRN_CHECK'', ''rfc:BAPI_GOODSMVT_CREATE'', Calls, 1, 1),
     (''rfc:BAPI_ACC_DOCUMENT_POST'', ''tab:T001'', ReadsTable, 1, 1),
     (''rfc:BAPI_ACC_DOCUMENT_POST'', ''tab:T001B'', ReadsTable, 1, 1),
     (''rfc:BAPI_ACC_DOCUMENT_POST'', ''tab:BSEG'', WritesTable, 1, 1),
     (''rfc:BAPI_ACC_DOCUMENT_POST'', ''tab:FAGLFLEXA'', WritesTable, 1, 1),
     (''rfc:BAPI_GOODSMVT_CREATE'', ''tab:MARA'', ReadsTable, 1, 1),
     (''rfc:BAPI_SALESORDER_CREATEFROMDAT2'', ''tab:VBAK'', WritesTable, 1, 1),
     (''bpmn:P2P-001'', ''rfc:BAPI_GOODSMVT_CREATE'', DependsOn, 1, 1),
     (''bpmn:P2P-001'', ''rfc:BAPI_ACC_DOCUMENT_POST'', DependsOn, 1, 1),
     (''bpmn:O2C-002'', ''rfc:BAPI_SALESORDER_CREATEFROMDAT2'', DependsOn, 1, 1),
     (''bpmn:O2C-002'', ''rfc:BAPI_ACC_DOCUMENT_POST'', DependsOn, 1, 1),
     (''leanix:FS-12001'', ''tab:BSEG'', DependsOn, 1, 1),
     (''leanix:FS-12001'', ''tab:FAGLFLEXA'', DependsOn, 1, 1),
     (''leanix:FS-12001'', ''tab:T001'', DependsOn, 1, 1),
     (''leanix:FS-08823'', ''tab:VBAK'', DependsOn, 1, 1),
     (''concept:period_close'', ''help:FI/period-close'', Describes, 2, 1),
     (''concept:period_close'', ''tab:T001B'', Describes, 2, 1),
     (''concept:period_close'', ''tab:FAGLFLEXA'', Describes, 3, 2),
     (''concept:period_close'', ''leanix:FS-12001'', Describes, 1, 1),
     (''concept:journal_entry'', ''rfc:BAPI_ACC_DOCUMENT_POST'', Describes, 2, 1),
     (''concept:journal_entry'', ''tab:BSEG'', Describes, 3, 2),
     (''concept:journal_entry'', ''abap:ZFIN_POST_JE'', Describes, 3, 2),
     (''concept:goods_movement'', ''help:MM/goods-movement'', Describes, 2, 1),
     (''concept:goods_movement'', ''rfc:BAPI_GOODSMVT_CREATE'', Describes, 2, 1),
     (''concept:goods_movement'', ''abap:ZMM_GRN_CHECK'', Describes, 1, 1),
     (''help:FI/period-close'', ''tab:T001B'', References, 1, 1),
     (''help:FI/period-close'', ''tab:FAGLFLEXA'', References, 1, 1),
     (''help:MM/goods-movement'', ''rfc:BAPI_GOODSMVT_CREATE'', References, 1, 1)]"

text \<open>An edge is added unless its ends and kind were seen before.\<close>

fun add_new_edges ::
  "'f f32_ops \<Rightarrow> (string \<times> string \<times> edge_kind) list \<Rightarrow> (string \<times> string \<times> edge_kind \<times> int \<times> int) list
     \<Rightarrow> 'f in_memory_graph \<Rightarrow> 'f in_memory_graph" where
  "add_new_edges F seen [] g = g"
| "add_new_edges F seen ((a, b, k, w) # es) g =
     (if (a, b, k) \<in> set seen then add_new_edges F seen es g
      else add_new_edges F ((a, b, k) # seen) es
             (add_edge \<lparr> ed_from = a, ed_to = b, ed_kind = k, ed_weight = f_rat F w \<rparr> g))"

definition seed_graph :: "'f f32_ops \<Rightarrow> 'f in_memory_graph \<Rightarrow> 'f in_memory_graph" where
  "seed_graph F g = add_new_edges F [] seed_edges (fold add_entity seed_entities g)"

definition with_demo_corpus :: "'f f32_ops \<Rightarrow> 'f in_memory_graph" where
  "with_demo_corpus F = seed_graph F graph_new"

section \<open>The adjacency maps agree with the edge list\<close>

datatype 'f graph_op = Add_Entity entity | Add_Edge "'f edge"

fun graph_apply :: "'f graph_op \<Rightarrow> 'f in_memory_graph \<Rightarrow> 'f in_memory_graph" where
  "graph_apply (Add_Entity e) g = add_entity e g"
| "graph_apply (Add_Edge e) g = add_edge e g"

definition edges_of :: "'f graph_op list \<Rightarrow> 'f edge list" where
  "edges_of ops = List.map_filter (\<lambda>op. case op of Add_Edge e \<Rightarrow> Some e | _ \<Rightarrow> None) ops"

definition entities_of :: "'f graph_op list \<Rightarrow> entity list" where
  "entities_of ops = List.map_filter (\<lambda>op. case op of Add_Entity e \<Rightarrow> Some e | _ \<Rightarrow> None) ops"

definition out_of :: "'f edge list \<Rightarrow> string \<Rightarrow> (string \<times> edge_kind \<times> 'f) list" where
  "out_of es i = map (\<lambda>e. (ed_to e, ed_kind e, ed_weight e)) (filter (\<lambda>e. ed_from e = i) es)"

definition into_of :: "'f edge list \<Rightarrow> string \<Rightarrow> (string \<times> edge_kind \<times> 'f) list" where
  "into_of es i = map (\<lambda>e. (ed_from e, ed_kind e, ed_weight e)) (filter (\<lambda>e. ed_to e = i) es)"

definition graph_wf :: "'f in_memory_graph \<Rightarrow> bool" where
  "graph_wf g \<longleftrightarrow> amap_wf (g_nodes g) \<and> amap_wf (g_out_edges g) \<and> amap_wf (g_in_edges g) \<and>
     (\<forall>(i, e) \<in> set (g_nodes g). e_id e = i) \<and> outbound g = out_of (g_edges g) \<and> inbound g = into_of (g_edges g)"

lemma adj_push_list: "amap_wf m \<Longrightarrow> adj_list (adj_push k x m) i = (if i = k then adj_list m k @ [x] else adj_list m i)"
  by (simp add: adj_list_def adj_push_def)

lemma adj_push_wf [simp]: "amap_wf m \<Longrightarrow> amap_wf (adj_push k x m)"
  by (simp add: adj_push_def)

lemma set_amap_insert: "x \<in> set (amap_insert k v m) \<Longrightarrow> x = (k, v) \<or> x \<in> set m"
  by (induction m) (auto split: if_splits)

lemma graph_wf_new: "graph_wf graph_new"
  by (auto simp: graph_wf_def graph_new_def outbound_def inbound_def out_of_def into_of_def adj_list_def)

lemma graph_wf_add_entity: "graph_wf g \<Longrightarrow> graph_wf (add_entity e g)"
  by (auto simp: graph_wf_def add_entity_def outbound_def inbound_def fun_eq_iff dest!: set_amap_insert)

lemma graph_wf_add_edge: "graph_wf g \<Longrightarrow> graph_wf (add_edge e g)"
  by (auto simp: graph_wf_def add_edge_def outbound_def inbound_def fun_eq_iff adj_push_list out_of_def into_of_def)

lemma graph_wf_apply: "graph_wf g \<Longrightarrow> graph_wf (graph_apply op g)"
  by (cases op) (simp_all add: graph_wf_add_entity graph_wf_add_edge)

lemma edges_of_simps [simp]:
  "edges_of [] = []" "edges_of (Add_Edge e # ops) = e # edges_of ops" "edges_of (Add_Entity n # ops) = edges_of ops"
  by (simp_all add: edges_of_def List.map_filter_simps)

lemma entities_of_simps [simp]:
  "entities_of [] = []" "entities_of (Add_Edge e # ops) = entities_of ops" "entities_of (Add_Entity n # ops) = n # entities_of ops"
  by (simp_all add: entities_of_def List.map_filter_simps)

lemma graph_built:
  "graph_wf g \<Longrightarrow> graph_wf (fold graph_apply ops g) \<and> g_edges (fold graph_apply ops g) = g_edges g @ edges_of ops \<and>
     graph_node (fold graph_apply ops g) = fold (\<lambda>e m. m(e_id e \<mapsto> e)) (entities_of ops) (graph_node g)"
proof (induction ops arbitrary: g)
  case (Cons op ops)
  have wf: "graph_wf (graph_apply op g)" using graph_wf_apply [OF Cons.prems] .
  show ?case
  proof (cases op)
    case (Add_Entity e)
    have "graph_node (add_entity e g) = (graph_node g)(e_id e \<mapsto> e)"
      using Cons.prems by (auto simp: graph_node_def add_entity_def graph_wf_def fun_eq_iff)
    then show ?thesis
      using Cons.IH [OF wf] Add_Entity by (simp add: add_entity_def)
  next
    case (Add_Edge e)
    then show ?thesis
      using Cons.IH [OF wf] by (simp add: add_edge_def graph_node_def fun_eq_iff)
  qed
qed simp

lemma new_simps: "g_edges graph_new = []" "graph_node graph_new = Map.empty"
  by (simp_all add: graph_new_def graph_node_def fun_eq_iff)

lemma find_snoc: "find P (xs @ [x]) = (case find P xs of Some y \<Rightarrow> Some y | None \<Rightarrow> if P x then Some x else None)"
  by (induction xs) auto

lemma fold_last_entity:
  "fold (\<lambda>e m. m(e_id e \<mapsto> e)) es m i = (case find (\<lambda>e. e_id e = i) (rev es) of Some e \<Rightarrow> Some e | None \<Rightarrow> m i)"
  by (induction es arbitrary: m) (auto simp: find_snoc split: option.splits)

lemma built_from_new:
  "graph_wf (fold graph_apply ops graph_new)" "g_edges (fold graph_apply ops graph_new) = edges_of ops"
  "graph_node (fold graph_apply ops graph_new) i = find (\<lambda>e. e_id e = i) (rev (entities_of ops))"
  using graph_built [OF graph_wf_new, of ops] by (simp_all add: new_simps fold_last_entity split: option.splits)

text \<open>
  A graph stays well formed: after any sequence of added entities and edges, the outgoing and the
  incoming adjacency of every node are exactly the edges that start and end there, in the order they were
  added, and a node id names the entity added last under it.
\<close>

lemma graph_well_formed:
  "let g = fold graph_apply ops graph_new in
     g_edges g = edges_of ops \<and> outbound g i = out_of (edges_of ops) i \<and> inbound g i = into_of (edges_of ops) i \<and>
     graph_node g i = find (\<lambda>e. e_id e = i) (rev (entities_of ops)) \<and> distinct (map fst (g_nodes g))"
  using built_from_new [of ops] amap_wf_distinct [of "g_nodes (fold graph_apply ops graph_new)"]
  by (simp add: Let_def graph_wf_def)

section \<open>Undirected neighbours\<close>

lemma bump_wf [simp]: "amap_wf m \<Longrightarrow> amap_wf (bump F k w m)"
  by (simp add: bump_def)

lemma bump_keys: "fst ` set (bump F k w m) = insert k (fst ` set m)"
  using amap_insert_keys [of k _ m] by (simp add: bump_def)

lemma bump_fold_keys: "fst ` set (fold (\<lambda>(n, _, w). bump F n w) xs m) = fst ` set xs \<union> fst ` set m"
proof (induction xs arbitrary: m)
  case (Cons x xs)
  then show ?case by (cases x) (simp add: bump_keys)
qed simp

lemma bump_fold_wf: "amap_wf m \<Longrightarrow> amap_wf (fold (\<lambda>(n, _, w). bump F n w) xs m)"
  by (induction xs arbitrary: m) auto

lemma undirected_map_wf [simp]: "amap_wf (undirected_map F g i)"
  by (simp add: undirected_map_def bump_fold_wf)

text \<open>Two nodes are neighbours when an edge joins them, in either direction.\<close>

definition adjacent :: "'f in_memory_graph \<Rightarrow> string \<Rightarrow> string \<Rightarrow> bool" where
  "adjacent g i j \<longleftrightarrow> (\<exists>e \<in> set (g_edges g). ed_from e = i \<and> ed_to e = j \<or> ed_from e = j \<and> ed_to e = i)"

lemma undirected_keys: "graph_wf g \<Longrightarrow> fst ` set (undirected_map F g i) = {j. adjacent g i j}"
  by (auto simp: undirected_map_def bump_fold_keys graph_wf_def out_of_def into_of_def adjacent_def image_iff)

lemma adjacent_sym: "adjacent g i j \<longleftrightarrow> adjacent g j i"
  by (auto simp: adjacent_def)

definition permuting :: "'a order \<Rightarrow> bool" where
  "permuting it \<longleftrightarrow> (\<forall>xs. mset (it xs) = mset xs)"

lemma permuting_set: "permuting it \<Longrightarrow> set (it xs) = set xs"
  by (metis permuting_def set_mset_mset)

lemma permuting_distinct: "permuting it \<Longrightarrow> distinct (map f xs) \<Longrightarrow> distinct (map f (it xs))"
  by (metis permuting_def mset_map mset_eq_imp_distinct_iff)

lemma neighbours_keys:
  "graph_wf g \<Longrightarrow> permuting it \<Longrightarrow> fst ` set (undirected_neighbours F it g i) = {j. adjacent g i j}"
  by (simp add: undirected_neighbours_def permuting_set undirected_keys)

lemma permuting_id [simp]: "permuting (\<lambda>xs. xs)"
  by (simp add: permuting_def)

section \<open>Seeds\<close>

lemma find_seeds_sound:
  assumes "graph_wf g" "permuting it"
  shows "length (find_seeds lower it g query n) \<le> n" "distinct (find_seeds lower it g query n)"
    "i \<in> set (find_seeds lower it g query n) \<Longrightarrow>
       \<exists>e. graph_node g i = Some e \<and> 0 < term_hits (seed_terms lower query) (entity_text lower e)"
proof -
  let ?ts = "seed_terms lower query"
  let ?score = "\<lambda>e. let score = term_hits ?ts (entity_text lower e) in if score = 0 then None else Some (score, e)"
  let ?es = "it (map snd (g_nodes g))"
  let ?r = "sort_by (\<lambda>a b. compare_num (fst b) (fst a)) (List.map_filter ?score ?es)"
  show "length (find_seeds lower it g query n) \<le> n"
    by (simp add: find_seeds_def Let_def)
  have ids: "map e_id (map snd (g_nodes g)) = map fst (g_nodes g)"
    using assms(1) by (auto simp: graph_wf_def)
  then have "distinct (map e_id ?es)"
    using assms(1) by (intro permuting_distinct [OF assms(2)]) (simp only: ids, simp add: graph_wf_def amap_wf_distinct)
  moreover have "map (\<lambda>(_, e). e_id e) (List.map_filter ?score xs) = map e_id (filter (\<lambda>e. term_hits ?ts (entity_text lower e) \<noteq> 0) xs)" for xs
    by (induction xs) (auto simp: List.map_filter_simps)
  ultimately have "distinct (map (\<lambda>(_, e). e_id e) (List.map_filter ?score ?es))"
    by (simp add: distinct_map_filter)
  then have "distinct (map (\<lambda>(_, e). e_id e) (take n ?r))"
    by (intro distinct_map_take) (simp only: distinct_map_sort_by)
  then show "distinct (find_seeds lower it g query n)"
    by (simp add: find_seeds_def Let_def)
  assume "i \<in> set (find_seeds lower it g query n)"
  then obtain e where e: "e \<in> set ?es" "e_id e = i" "0 < term_hits ?ts (entity_text lower e)"
    by (auto simp: find_seeds_def Let_def map_filter_def dest!: in_set_takeD split: if_splits)
  then have "(i, e) \<in> set (g_nodes g)"
    using assms by (auto simp: permuting_set graph_wf_def)
  then have "graph_node g i = Some e"
    using assms(1) by (simp add: graph_node_def graph_wf_def amap_wf_distinct)
  then show "\<exists>e. graph_node g i = Some e \<and> 0 < term_hits ?ts (entity_text lower e)"
    using e(3) by blast
qed

section \<open>The demo corpus is closed\<close>

definition closed_graph :: "'f in_memory_graph \<Rightarrow> bool" where
  "closed_graph g \<longleftrightarrow> (\<forall>e \<in> set (g_edges g). graph_node g (ed_from e) \<noteq> None \<and> graph_node g (ed_to e) \<noteq> None)"

lemma closed_adjacent: "closed_graph g \<Longrightarrow> adjacent g i j \<Longrightarrow> graph_node g i \<noteq> None \<and> graph_node g j \<noteq> None"
  by (auto simp: closed_graph_def adjacent_def)

lemma add_new_edges_built:
  "\<exists>ops. add_new_edges F seen es g = fold graph_apply (map Add_Edge ops) g \<and>
     set ops \<subseteq> (\<lambda>(a, b, k, w). \<lparr> ed_from = a, ed_to = b, ed_kind = k, ed_weight = f_rat F w \<rparr>) ` set es"
proof (induction F seen es g rule: add_new_edges.induct)
  case (1 F seen g)
  show ?case by (rule exI [of _ "[]"]) simp
next
  case (2 F seen a b k w es g)
  let ?e = "\<lparr> ed_from = a, ed_to = b, ed_kind = k, ed_weight = f_rat F w \<rparr>"
  show ?case
  proof (cases "(a, b, k) \<in> set seen")
    case True
    then obtain ops where "add_new_edges F seen es g = fold graph_apply (map Add_Edge ops) g"
      "set ops \<subseteq> (\<lambda>(a, b, k, w). \<lparr> ed_from = a, ed_to = b, ed_kind = k, ed_weight = f_rat F w \<rparr>) ` set es"
      using 2(1) by blast
    then show ?thesis using True by (intro exI [of _ ops]) auto
  next
    case False
    then obtain ops where "add_new_edges F ((a, b, k) # seen) es (add_edge ?e g) = fold graph_apply (map Add_Edge ops) (add_edge ?e g)"
      "set ops \<subseteq> (\<lambda>(a, b, k, w). \<lparr> ed_from = a, ed_to = b, ed_kind = k, ed_weight = f_rat F w \<rparr>) ` set es"
      using 2(2) by blast
    then show ?thesis using False by (intro exI [of _ "?e # ops"]) auto
  qed
qed

lemma seed_ids: "map e_id seed_entities =
    [''abap:ZFIN_POST_JE'', ''abap:ZCL_FIN_POSTER'', ''abap:ZIF_FIN_POSTABLE'', ''abap:ZFIN_TOP'', ''abap:ZFIN_F01'',
     ''abap:ZMM_GRN_CHECK'', ''rfc:BAPI_ACC_DOCUMENT_POST'', ''rfc:BAPI_GOODSMVT_CREATE'', ''rfc:BAPI_MATERIAL_GET_DETAIL'',
     ''rfc:BAPI_SALESORDER_CREATEFROMDAT2'', ''tab:T001'', ''tab:T001B'', ''tab:MARA'', ''tab:VBAK'', ''tab:BSEG'', ''tab:FAGLFLEXA'',
     ''bpmn:P2P-001'', ''bpmn:O2C-002'', ''leanix:FS-12001'', ''leanix:FS-08823'', ''help:FI/period-close'',
     ''help:MM/goods-movement'', ''concept:period_close'', ''concept:goods_movement'', ''concept:journal_entry'']"
  by (simp add: seed_entities_def demo_entity_def)

lemma seed_edges_closed:
  "list_all (\<lambda>(a, b, _). a \<in> set (map e_id seed_entities) \<and> b \<in> set (map e_id seed_entities)) seed_edges"
  unfolding seed_ids by (simp add: seed_edges_def)

lemma fold_add_entity: "fold add_entity es g = fold graph_apply (map Add_Entity es) g"
  by (induction es arbitrary: g) auto

lemma split_ops [simp]:
  "entities_of (map Add_Entity es @ map Add_Edge os) = es" "edges_of (map Add_Entity es @ map Add_Edge os) = os"
proof -
  have "entities_of (map Add_Edge os) = []" "edges_of (map Add_Edge os) = os"
    by (induction os) simp_all
  then show "entities_of (map Add_Entity es @ map Add_Edge os) = es" "edges_of (map Add_Entity es @ map Add_Edge os) = os"
    by (induction es) simp_all
qed

lemma seed_closed_at:
  assumes "x \<in> (\<lambda>(a, b, k, w). \<lparr> ed_from = a, ed_to = b, ed_kind = k, ed_weight = f_rat F w \<rparr>) ` set seed_edges"
  shows "ed_from x \<in> set (map e_id seed_entities)" "ed_to x \<in> set (map e_id seed_entities)"
proof -
  obtain a b k w where "(a, b, k, w) \<in> set seed_edges" "ed_from x = a" "ed_to x = b"
    using assms by force
  then show "ed_from x \<in> set (map e_id seed_entities)" "ed_to x \<in> set (map e_id seed_entities)"
    using seed_edges_closed unfolding list_all_iff by blast+
qed

lemma demo_graph:
  "graph_wf (with_demo_corpus F)" "graph_node (with_demo_corpus F) i = find (\<lambda>e. e_id e = i) (rev seed_entities)"
  "set (g_edges (with_demo_corpus F)) \<subseteq> (\<lambda>(a, b, k, w). \<lparr> ed_from = a, ed_to = b, ed_kind = k, ed_weight = f_rat F w \<rparr>) ` set seed_edges"
proof -
  obtain ops where ops: "with_demo_corpus F = fold graph_apply (map Add_Edge ops) (fold graph_apply (map Add_Entity seed_entities) graph_new)"
    "set ops \<subseteq> (\<lambda>(a, b, k, w). \<lparr> ed_from = a, ed_to = b, ed_kind = k, ed_weight = f_rat F w \<rparr>) ` set seed_edges"
    using add_new_edges_built [of F "[]" seed_edges] by (metis with_demo_corpus_def seed_graph_def fold_add_entity)
  have g: "with_demo_corpus F = fold graph_apply (map Add_Entity seed_entities @ map Add_Edge ops) graph_new"
    using ops(1) by simp
  show "graph_wf (with_demo_corpus F)" "graph_node (with_demo_corpus F) i = find (\<lambda>e. e_id e = i) (rev seed_entities)"
    unfolding g built_from_new by (rule built_from_new) simp
  show "set (g_edges (with_demo_corpus F)) \<subseteq> (\<lambda>(a, b, k, w). \<lparr> ed_from = a, ed_to = b, ed_kind = k, ed_weight = f_rat F w \<rparr>) ` set seed_edges"
    unfolding g built_from_new using ops(2) by simp
qed

lemma demo_has: "i \<in> set (map e_id seed_entities) \<Longrightarrow> graph_node (with_demo_corpus F) i \<noteq> None"
  by (auto simp: demo_graph(2) find_None_iff)

lemma demo_corpus_closed: "graph_wf (with_demo_corpus F)" "closed_graph (with_demo_corpus F)"
  unfolding closed_graph_def using demo_graph(1) demo_has seed_closed_at [OF subsetD [OF demo_graph(3)]] by blast+

lemma demo_weights: "\<forall>e \<in> set (g_edges (with_demo_corpus rat_ops)). 0 \<le> ed_weight e"
proof -
  have "list_all (\<lambda>(_, _, _, n, d). 0 \<le> n \<and> 0 < d) seed_edges" by (simp add: seed_edges_def)
  then have "\<forall>e \<in> (\<lambda>(a, b, k, w). \<lparr> ed_from = a, ed_to = b, ed_kind = k, ed_weight = f_rat rat_ops w \<rparr>) ` set seed_edges. 0 \<le> ed_weight e"
    by (auto simp: list_all_iff zero_le_Fract_iff)
  then show ?thesis using demo_graph(3) [of rat_ops] by blast
qed

lemma graph_keys: "graph_wf g \<Longrightarrow> set (map fst (g_nodes g)) = {i. graph_node g i \<noteq> None}"
  by (auto simp: graph_node_def map_of_eq_None_iff)

lemma demo_node_count: "length (g_nodes (with_demo_corpus F)) \<le> 25"
proof -
  have "{i. graph_node (with_demo_corpus F) i \<noteq> None} \<subseteq> set (map e_id seed_entities)"
    by (auto simp: demo_graph(2) find_Some_iff) (metis image_eqI in_set_conv_nth length_rev set_rev nth_mem)
  then have "set (map fst (g_nodes (with_demo_corpus F))) \<subseteq> set (map e_id seed_entities)"
    unfolding graph_keys [OF demo_graph(1)] .
  moreover have "distinct (map fst (g_nodes (with_demo_corpus F)))"
    using demo_graph(1) [of F] unfolding graph_wf_def by (blast intro: amap_wf_distinct)
  ultimately have "length (map fst (g_nodes (with_demo_corpus F))) \<le> card (set (map e_id seed_entities))"
    by (metis card_mono distinct_card finite_set)
  also have "\<dots> \<le> length (map e_id seed_entities)" by (rule card_length)
  finally show ?thesis unfolding seed_ids by simp
qed

end
