(* ===== verification/Adt_Mock.thy ===== *)
theory Adt_Mock
  imports Adt_Types Ranking Graph_Store "HOL-Library.Product_Lexorder"
begin

text \<open>
  The offline ADT client (\<open>sap-automate-adt/src/mock.rs\<close>): its fixtures and every operation. Names are looked up in
  upper case; the case conversions, the float operations and the iteration order of the hash maps are
  parameters. Shown: the fixtures agree with each other, what a search returns, and the table limits.
\<close>

section \<open>Fixtures\<close>

record mock_adt_client =
  ma_destination :: adt_destination
  ma_programs :: "(string, program_source) amap"
  ma_classes :: "(string, program_source) amap"
  ma_interfaces :: "(string, program_source) amap"
  ma_includes :: "(string, program_source) amap"
  ma_function_modules :: "(string \<times> string, program_source) amap"
  ma_cds_views :: "(string, cds_view) amap"
  ma_packages :: "(string, package_contents) amap"
  ma_where_used :: "string \<times> abap_kind \<rightharpoonup> where_used_hit list"
  ma_tables :: "(string, adt_table_row list) amap"

definition prog :: "string \<Rightarrow> abap_kind \<Rightarrow> string \<Rightarrow> string \<Rightarrow> string \<Rightarrow> program_source" where
  "prog name kind package description source =
     \<lparr> ps_name = name, ps_kind = kind, ps_package = Some package, ps_description = Some description,
       ps_source = source, ps_active = True, ps_line_count = length (str_lines source) \<rparr>"

definition preview_row :: "(string \<times> string) list \<Rightarrow> adt_table_row" where
  "preview_row pairs = amap_of (map (\<lambda>(k, v). (k, JString v)) pairs)"

definition pkg_member :: "string \<Rightarrow> abap_kind \<Rightarrow> string \<Rightarrow> package_member" where
  "pkg_member name kind desc = \<lparr> pm_name = name, pm_kind = kind, pm_description = Some desc \<rparr>"

text \<open>A text given by its lines, each ended by a line feed.\<close>

definition abap_text :: "string list \<Rightarrow> string" where
  "abap_text ls = concat (map (\<lambda>l. l @ [CHR 0x0A]) ls)"

definition seed_programs :: "(string, program_source) amap" where
  "seed_programs = amap_of
   [(''ZFIN_POST_JE'', prog ''ZFIN_POST_JE'' Kind_Program ''ZFIN'' ''Post FI journal entries''
    (abap_text
      [''REPORT zfin_post_je.'',
       [],
       ''INCLUDE zfin_top.'',
       ''INCLUDE zfin_f01.'',
       [],
       ''START-OF-SELECTION.'',
       ''  PERFORM validate.'',
       ''  CALL FUNCTION '' @ sq ''BAPI_ACC_DOCUMENT_POST'',
       ''    EXPORTING documentheader = ls_header.'',
       ''  CALL FUNCTION '' @ sq ''BAPI_TRANSACTION_COMMIT'' @ ''.''])),
    (''ZMM_GRN_CHECK'', prog ''ZMM_GRN_CHECK'' Kind_Program ''ZMM'' ''Goods receipt reconciliation''
    (abap_text
      [''REPORT zmm_grn_check.'',
       [],
       ''START-OF-SELECTION.'',
       ''  CALL FUNCTION '' @ sq ''Z_MM_GRN_VALIDATE'' @ ''.'',
       ''  CALL FUNCTION '' @ sq ''BAPI_GOODSMVT_CREATE'' @ ''.'']))]"

definition seed_classes :: "(string, program_source) amap" where
  "seed_classes = amap_of
   [(''ZCL_FIN_POSTER'', prog ''ZCL_FIN_POSTER'' Kind_Class ''ZFIN'' ''FI posting helper class''
    (abap_text
      [''CLASS zcl_fin_poster DEFINITION PUBLIC FINAL.'',
       ''  PUBLIC SECTION.'',
       ''    INTERFACES zif_fin_postable.'',
       ''    METHODS post_document'',
       ''      IMPORTING is_header TYPE bapiache09'',
       ''      EXPORTING ev_obj_key TYPE awkey.'',
       ''ENDCLASS.'',
       [],
       ''CLASS zcl_fin_poster IMPLEMENTATION.'',
       ''  METHOD zif_fin_postable~validate.'',
       ''    '' @ [CHR 0x22] @ '' cost-centre check'',
       ''  ENDMETHOD.'',
       ''  METHOD post_document.'',
       ''    CALL FUNCTION '' @ sq ''BAPI_ACC_DOCUMENT_POST'',
       ''      EXPORTING documentheader = is_header.'',
       ''  ENDMETHOD.'',
       ''ENDCLASS.''])),
    (''ZCL_MM_GRN_VALIDATOR'', prog ''ZCL_MM_GRN_VALIDATOR'' Kind_Class ''ZMM'' ''Goods receipt validator''
    (abap_text
      [''CLASS zcl_mm_grn_validator DEFINITION PUBLIC FINAL.'',
       ''  PUBLIC SECTION.'',
       ''    METHODS validate IMPORTING is_grn TYPE mseg RETURNING VALUE(rv_ok) TYPE abap_bool.'',
       ''ENDCLASS.'']))]"

definition seed_interfaces :: "(string, program_source) amap" where
  "seed_interfaces = amap_of
   [(''ZIF_FIN_POSTABLE'', prog ''ZIF_FIN_POSTABLE'' Kind_Interface ''ZFIN'' ''Postable contract''
    (abap_text
      [''INTERFACE zif_fin_postable PUBLIC.'',
       ''  METHODS validate IMPORTING is_header TYPE bapiache09'',
       ''                    RETURNING VALUE(rv_ok) TYPE abap_bool.'',
       ''ENDINTERFACE.'']))]"

definition seed_includes :: "(string, program_source) amap" where
  "seed_includes = amap_of
   [(''ZFIN_TOP'', prog ''ZFIN_TOP'' Kind_Include ''ZFIN'' ''ZFIN top include''
    (abap_text
      [''* Global data definitions for ZFIN_POST_JE'',
       ''TYPES: BEGIN OF ty_line,'',
       ''         bukrs TYPE bukrs,'',
       ''         hkont TYPE hkont,'',
       ''         wrbtr TYPE wrbtr,'',
       ''       END OF ty_line.'',
       ''DATA: gt_lines TYPE STANDARD TABLE OF ty_line.''])),
    (''ZFIN_F01'', prog ''ZFIN_F01'' Kind_Include ''ZFIN'' ''ZFIN form routines''
    (abap_text
      [''FORM validate.'',
       ''  IF gt_lines IS INITIAL.'',
       ''    MESSAGE '' @ sq ''No lines to post'' @ '' TYPE '' @ sq ''E'' @ ''.'',
       ''  ENDIF.'',
       ''ENDFORM.'']))]"

definition seed_function_modules :: "(string \<times> string, program_source) amap" where
  "seed_function_modules = amap_of
   [((''ZFIN_UTIL'', ''Z_FIN_VALIDATE_BUKRS''), prog ''Z_FIN_VALIDATE_BUKRS'' Kind_FunctionModule ''ZFIN'' ''Validate company code''
    (abap_text
      [''FUNCTION z_fin_validate_bukrs.'',
       ''*'' @ [CHR 0x22] @ ''--------------------------------------------------------------'',
       ''*'' @ [CHR 0x22] @ ''*'' @ [CHR 0x22] @ ''Local Interface:'',
       ''*'' @ [CHR 0x22] @ ''  IMPORTING'',
       ''*'' @ [CHR 0x22] @ ''     VALUE(IV_BUKRS) TYPE  BUKRS'',
       ''*'' @ [CHR 0x22] @ ''  EXPORTING'',
       ''*'' @ [CHR 0x22] @ ''     VALUE(EV_OK) TYPE  ABAP_BOOL'',
       ''*'' @ [CHR 0x22] @ ''--------------------------------------------------------------'',
       ''  SELECT SINGLE bukrs FROM t001 INTO @DATA(lv_bukrs) WHERE bukrs = @iv_bukrs.'',
       ''  ev_ok = COND #( WHEN sy-subrc = 0 THEN abap_true ELSE abap_false ).'',
       ''ENDFUNCTION.'']))]"

definition seed_cds_views :: "(string, cds_view) amap" where
  "seed_cds_views = amap_of
   [(''Z_C_SALES_ORDER_KPI'', \<lparr> cds_name = ''Z_C_SALES_ORDER_KPI'',
     cds_source = abap_text
      [''@AbapCatalog.sqlViewName: '' @ sq ''ZSO_KPI'',
       ''@AccessControl.authorizationCheck: #NOT_REQUIRED'',
       ''@EndUserText.label: '' @ sq ''Sales order KPIs'',
       ''define view Z_C_SalesOrderKpi as select from vbak'',
       ''  inner join vbap on vbak.vbeln = vbap.vbeln'',
       ''{'',
       ''  key vbak.vbeln,'',
       ''      vbak.erdat,'',
       ''      vbak.auart,'',
       ''      vbak.kunnr,'',
       ''      sum( vbap.netwr ) as total_net_value'',
       ''}'',
       ''group by vbak.vbeln, vbak.erdat, vbak.auart, vbak.kunnr;''],
     cds_root_entity = ''Z_C_SalesOrderKpi'',
     cds_annotations = JObject (amap_of
       [(''AbapCatalog.sqlViewName'', JString ''ZSO_KPI''),
        (''AccessControl.authorizationCheck'', JString ''#NOT_REQUIRED''),
        (''EndUserText.label'', JString ''Sales order KPIs'')]),
     cds_line_count = 12 \<rparr>)]"

definition seed_packages :: "(string, package_contents) amap" where
  "seed_packages = amap_of
   [(''ZFIN'', \<lparr> pk_package = ''ZFIN'', pk_description = Some ''Finance customisations'', pk_members =
     [pkg_member ''ZFIN_POST_JE'' Kind_Program ''Post FI journal entries'',
      pkg_member ''ZCL_FIN_POSTER'' Kind_Class ''FI posting helper'',
      pkg_member ''ZIF_FIN_POSTABLE'' Kind_Interface ''Postable contract'',
      pkg_member ''ZFIN_TOP'' Kind_Include ''ZFIN top include'',
      pkg_member ''ZFIN_F01'' Kind_Include ''ZFIN form routines'',
      pkg_member ''ZFIN_UTIL'' Kind_FunctionGroup ''FI utility functions'',
      pkg_member ''Z_C_SALES_ORDER_KPI'' Kind_CdsView ''Sales order KPIs''] \<rparr>),
    (''ZMM'', \<lparr> pk_package = ''ZMM'', pk_description = Some ''Materials Management customisations'', pk_members =
     [pkg_member ''ZMM_GRN_CHECK'' Kind_Program ''Goods receipt reconciliation'',
      pkg_member ''ZCL_MM_GRN_VALIDATOR'' Kind_Class ''Goods receipt validator''] \<rparr>)]"

definition used_in :: "string \<Rightarrow> abap_kind \<Rightarrow> string \<Rightarrow> string \<Rightarrow> where_used_hit" where
  "used_in obj kind location usage = \<lparr> wuh_object = obj, wuh_kind = kind, wuh_location = location, wuh_usage = usage \<rparr>"

definition seed_where_used :: "string \<times> abap_kind \<rightharpoonup> where_used_hit list" where
  "seed_where_used = map_of
     [((''ZIF_FIN_POSTABLE'', Kind_Interface), [used_in ''ZCL_FIN_POSTER'' Kind_Class ''DEFINITION line 3'' ''implements'']),
      ((''ZCL_FIN_POSTER'', Kind_Class), [used_in ''ZFIN_POST_JE'' Kind_Program ''INCLUDE zfin_f01 line 8'' ''call method'']),
      ((''ZFIN_TOP'', Kind_Include), [used_in ''ZFIN_POST_JE'' Kind_Program ''main line 3'' ''include''])]"

definition seed_preview_tables :: "(string, adt_table_row list) amap" where
  "seed_preview_tables =
     [(''T001'', [preview_row [(''BUKRS'', ''1000''), (''BUTXT'', ''Acme Global HQ''), (''WAERS'', ''USD'')],
                  preview_row [(''BUKRS'', ''2000''), (''BUTXT'', ''Acme EMEA''), (''WAERS'', ''EUR'')]])]"

definition mock_adt_new :: "adt_destination \<Rightarrow> mock_adt_client" where
  "mock_adt_new d = \<lparr> ma_destination = d, ma_programs = seed_programs, ma_classes = seed_classes,
     ma_interfaces = seed_interfaces, ma_includes = seed_includes, ma_function_modules = seed_function_modules,
     ma_cds_views = seed_cds_views, ma_packages = seed_packages, ma_where_used = seed_where_used,
     ma_tables = seed_preview_tables \<rparr>"

section \<open>Operations\<close>

definition get_object ::
  "(string \<Rightarrow> string) \<Rightarrow> (string, program_source) amap \<Rightarrow> string \<Rightarrow> abap_kind \<Rightarrow> program_source adt_result" where
  "get_object upper m name kind =
     (case map_of m (upper name) of Some p \<Rightarrow> Inr p | None \<Rightarrow> Inl (Adt_NotFound (kind_label kind) name))"

definition mock_get_program :: "(string \<Rightarrow> string) \<Rightarrow> mock_adt_client \<Rightarrow> string \<Rightarrow> program_source adt_result" where
  "mock_get_program upper c name = get_object upper (ma_programs c) name Kind_Program"

definition mock_get_class :: "(string \<Rightarrow> string) \<Rightarrow> mock_adt_client \<Rightarrow> string \<Rightarrow> program_source adt_result" where
  "mock_get_class upper c name = get_object upper (ma_classes c) name Kind_Class"

definition mock_get_interface :: "(string \<Rightarrow> string) \<Rightarrow> mock_adt_client \<Rightarrow> string \<Rightarrow> program_source adt_result" where
  "mock_get_interface upper c name = get_object upper (ma_interfaces c) name Kind_Interface"

definition mock_get_include :: "(string \<Rightarrow> string) \<Rightarrow> mock_adt_client \<Rightarrow> string \<Rightarrow> program_source adt_result" where
  "mock_get_include upper c name = get_object upper (ma_includes c) name Kind_Include"

definition mock_get_function_module ::
  "(string \<Rightarrow> string) \<Rightarrow> mock_adt_client \<Rightarrow> string \<Rightarrow> string \<Rightarrow> program_source adt_result" where
  "mock_get_function_module upper c grp name =
     (case map_of (ma_function_modules c) (upper grp, upper name) of
        Some p \<Rightarrow> Inr p | None \<Rightarrow> Inl (Adt_NotFound ''FunctionModule'' (grp @ ''/'' @ name)))"

definition mock_get_package_contents ::
  "(string \<Rightarrow> string) \<Rightarrow> mock_adt_client \<Rightarrow> string \<Rightarrow> package_contents adt_result" where
  "mock_get_package_contents upper c package =
     (case map_of (ma_packages c) (upper package) of Some p \<Rightarrow> Inr p | None \<Rightarrow> Inl (Adt_NotFound ''Package'' package))"

definition mock_get_cds_view :: "(string \<Rightarrow> string) \<Rightarrow> mock_adt_client \<Rightarrow> string \<Rightarrow> cds_view adt_result" where
  "mock_get_cds_view upper c name =
     (case map_of (ma_cds_views c) (upper name) of Some v \<Rightarrow> Inr v | None \<Rightarrow> Inl (Adt_NotFound ''CdsView'' name))"

text \<open>What \<open>push\<close> is called with: name, kind, description, package and the text that is scored.\<close>

type_synonym search_entry = "string \<times> abap_kind \<times> string option \<times> string option \<times> string"

definition or_empty :: "string option \<Rightarrow> string" where
  "or_empty x = (case x of Some s \<Rightarrow> s | None \<Rightarrow> [])"

definition source_entry :: "bool \<Rightarrow> string \<times> program_source \<Rightarrow> search_entry" where
  "source_entry with_package = (\<lambda>(n, p).
     (n, ps_kind p, ps_description p, ps_package p,
      n @ '' '' @ or_empty (ps_description p) @ (if with_package then '' '' @ or_empty (ps_package p) else [])))"

definition cds_entry :: "string \<times> cds_view \<Rightarrow> search_entry" where
  "cds_entry = (\<lambda>(n, v). (n, Kind_CdsView, None, None, n @ '' '' @ cds_root_entity v))"

record adt_orders =
  am_sources :: "(string \<times> program_source) order"
  am_functions :: "((string \<times> string) \<times> program_source) order"
  am_cds :: "(string \<times> cds_view) order"

definition search_entries :: "adt_orders \<Rightarrow> mock_adt_client \<Rightarrow> search_entry list" where
  "search_entries H c =
     map (source_entry True) (am_sources H (ma_programs c))
     @ map (source_entry True) (am_sources H (ma_classes c))
     @ map (source_entry False) (am_sources H (ma_interfaces c))
     @ map (\<lambda>((g, n), p). source_entry False (n, p)) (am_functions H (ma_function_modules c))
     @ map cds_entry (am_cds H (ma_cds_views c))"

definition search_score :: "(string \<Rightarrow> string) \<Rightarrow> string \<Rightarrow> string \<Rightarrow> nat" where
  "search_score lower query hay = sum_list (map (\<lambda>t. count_matches t (lower hay)) (split_whitespace (lower query)))"

definition search_push ::
  "'f f32_ops \<Rightarrow> (string \<Rightarrow> string) \<Rightarrow> adt_search_request \<Rightarrow> search_entry \<Rightarrow> 'f adt_search_hit option" where
  "search_push F lower rq = (\<lambda>(name, kind, desc, pkg, hay).
     let score = search_score lower (asr_query rq) hay in
     if (case asr_kind rq of Some wanted \<Rightarrow> wanted = kind | None \<Rightarrow> True) \<and> score > 0
     then Some \<lparr> ash_name = name, ash_kind = kind, ash_description = desc, ash_package = pkg, ash_score = f_nat F score \<rparr>
     else None)"

definition mock_search ::
  "'f f32_ops \<Rightarrow> (string \<Rightarrow> string) \<Rightarrow> adt_orders \<Rightarrow> mock_adt_client \<Rightarrow> adt_search_request \<Rightarrow> 'f adt_search_hit list adt_result" where
  "mock_search F lower H c rq =
     Inr (take (max (asr_max_results rq) 1)
       (rank_desc F ash_score (List.map_filter (search_push F lower rq) (search_entries H c))))"

definition mock_where_used ::
  "(string \<Rightarrow> string) \<Rightarrow> mock_adt_client \<Rightarrow> where_used_request \<Rightarrow> where_used_hit list adt_result" where
  "mock_where_used upper c rq =
     Inr (case ma_where_used c (upper (wur_name rq), wur_kind rq) of Some hits \<Rightarrow> hits | None \<Rightarrow> [])"

definition mock_get_table_contents ::
  "(string \<Rightarrow> string) \<Rightarrow> mock_adt_client \<Rightarrow> string \<Rightarrow> nat \<Rightarrow> adt_table_row list adt_result" where
  "mock_get_table_contents upper c table max_rows =
     (if max_rows = 0 \<or> max_rows > MAX_TABLE_ROWS
      then Inl (Adt_InvalidObjectName (''max_rows must be in 1..='' @ show_nat MAX_TABLE_ROWS @ '', got '' @ show_nat max_rows))
      else if eq_ignore_ascii_case table ''BSEG''
      then Inl (Adt_DataPreviewBlocked (''table '' @ table @
             '' is blocked from ADT data preview; fall back to sap.table.read (RFC) or RFC_READ_TABLE''))
      else (case map_of (ma_tables c) (upper table) of
              None \<Rightarrow> Inl (Adt_NotFound ''Table'' table)
            | Some rows \<Rightarrow> Inr (take max_rows rows)))"

definition mock_activate :: "activation_request \<Rightarrow> adt_call_context \<Rightarrow> activation_outcome adt_result" where
  "mock_activate rq ctx =
     (if ac_read_only ctx then Inl (activation_refused rq)
      else Inr \<lparr> ao_name = act_name rq, ao_kind = act_kind rq, ao_activated = True,
             ao_messages = [kind_label (act_kind rq) @ '' '' @ act_name rq @ '' activated (mock)''] \<rparr>)"

section \<open>The fixtures agree\<close>

text \<open>The getter for the kind of a package member.\<close>

definition fetch_member :: "(string \<Rightarrow> string) \<Rightarrow> mock_adt_client \<Rightarrow> package_member \<Rightarrow> (abap_kind \<times> string) option" where
  "fetch_member upper c m =
     (let source = (\<lambda>r. case r of Inr p \<Rightarrow> Some (ps_kind p, ps_name p) | Inl _ \<Rightarrow> None) in
      case pm_kind m of
        Kind_Program \<Rightarrow> source (mock_get_program upper c (pm_name m))
      | Kind_Class \<Rightarrow> source (mock_get_class upper c (pm_name m))
      | Kind_Interface \<Rightarrow> source (mock_get_interface upper c (pm_name m))
      | Kind_Include \<Rightarrow> source (mock_get_include upper c (pm_name m))
      | Kind_CdsView \<Rightarrow>
          (case mock_get_cds_view upper c (pm_name m) of Inr v \<Rightarrow> Some (Kind_CdsView, cds_name v) | Inl _ \<Rightarrow> None)
      | _ \<Rightarrow> None)"

lemma seed_keys:
  "map fst seed_programs = [''ZFIN_POST_JE'', ''ZMM_GRN_CHECK'']"
  "map fst seed_classes = [''ZCL_FIN_POSTER'', ''ZCL_MM_GRN_VALIDATOR'']"
  "map fst seed_interfaces = [''ZIF_FIN_POSTABLE'']"
  "map fst seed_includes = [''ZFIN_F01'', ''ZFIN_TOP'']"
  "map fst seed_cds_views = [''Z_C_SALES_ORDER_KPI'']"
  by (simp_all add: seed_programs_def seed_classes_def seed_interfaces_def seed_includes_def seed_cds_views_def amap_of_def)


text \<open>
  Every object a seeded package lists can be fetched under its listed name and kind, but for the function
  group, which has no getter.
\<close>

definition resolves :: "mock_adt_client \<Rightarrow> package_member \<Rightarrow> bool" where
  "resolves c m \<longleftrightarrow> is_ascii (pm_name m) \<and>
     (pm_kind m = Kind_FunctionGroup \<or> fetch_member ascii_uppercase c m = Some (pm_kind m, pm_name m))"

lemma seed_members_resolve:
  "list_all (\<lambda>(p, contents). list_all (resolves (mock_adt_new (destination_mock ''dev''))) (pk_members contents)) seed_packages"
  by code_simp

lemma fetch_member_ascii:
  "uppercase_law upper \<Longrightarrow> is_ascii (pm_name m) \<Longrightarrow> fetch_member upper c m = fetch_member ascii_uppercase c m"
  by (cases "pm_kind m") (simp_all add: fetch_member_def uppercase_law_def mock_get_program_def mock_get_class_def
    mock_get_interface_def mock_get_include_def mock_get_cds_view_def get_object_def)

lemma fetch_member_destination: "fetch_member upper (mock_adt_new d) m = fetch_member upper (mock_adt_new d') m"
  by (cases "pm_kind m") (simp_all add: fetch_member_def mock_adt_new_def mock_get_program_def mock_get_class_def
    mock_get_interface_def mock_get_include_def mock_get_cds_view_def)

lemma package_members_resolve:
  assumes "uppercase_law upper" "map_of seed_packages p = Some contents" "m \<in> set (pk_members contents)"
    "pm_kind m \<noteq> Kind_FunctionGroup"
  shows "fetch_member upper (mock_adt_new d) m = Some (pm_kind m, pm_name m)"
proof -
  have "resolves (mock_adt_new (destination_mock ''dev'')) m"
    using seed_members_resolve map_of_SomeD [OF assms(2)] assms(3) by (fastforce simp: list_all_iff)
  then show ?thesis
    using assms(4) fetch_member_ascii [OF assms(1)] fetch_member_destination [of upper d m "destination_mock ''dev''"]
    by (auto simp: resolves_def)
qed

text \<open>The seeded CDS view claims a line less than its source has.\<close>

lemma seed_cds_line_count:
  "list_all (\<lambda>(n, v). length (str_lines (cds_source v)) = 13 \<and> cds_line_count v = 12) seed_cds_views"
  by code_simp

section \<open>What the operations return\<close>

text \<open>
  A search answers with entries of the client of the wanted kind that contain a term of the query, at most
  \<open>max_results\<close> of them but always room for one.
\<close>

lemma mock_search_sound:
  assumes "mock_search F lower H c rq = Inr hits"
  shows "length hits \<le> max (asr_max_results rq) 1"
    "h \<in> set hits \<Longrightarrow> (asr_kind rq = None \<or> asr_kind rq = Some (ash_kind h)) \<and>
      (\<exists>hay. (ash_name h, ash_kind h, ash_description h, ash_package h, hay) \<in> set (search_entries H c) \<and>
         0 < search_score lower (asr_query rq) hay \<and> ash_score h = f_nat F (search_score lower (asr_query rq) hay))"
proof -
  show "length hits \<le> max (asr_max_results rq) 1"
    using assms by (auto simp: mock_search_def)
  assume "h \<in> set hits"
  then obtain e where e: "e \<in> set (search_entries H c)" "search_push F lower rq e = Some h"
    using assms by (auto simp: mock_search_def set_map_filter dest!: in_set_takeD)
  obtain n k d p hay where "e = (n, k, d, p, hay)" by (cases e)
  with e show "(asr_kind rq = None \<or> asr_kind rq = Some (ash_kind h)) \<and>
      (\<exists>hay. (ash_name h, ash_kind h, ash_description h, ash_package h, hay) \<in> set (search_entries H c) \<and>
         0 < search_score lower (asr_query rq) hay \<and> ash_score h = f_nat F (search_score lower (asr_query rq) hay))"
    by (auto simp: search_push_def Let_def split: if_splits option.splits)
qed

lemma mock_table_limits:
  assumes "mock_get_table_contents upper c table max_rows = Inr rows"
  shows "0 < max_rows" "max_rows \<le> 1000" "length rows \<le> max_rows" "\<not> eq_ignore_ascii_case table ''BSEG''"
  using assms by (auto simp: mock_get_table_contents_def MAX_TABLE_ROWS_def split: if_splits option.splits)

text \<open>The offline client keeps no state that a call could change.\<close>

interpretation mock_gate: activation_gate "\<lambda>rq ctx s. (Some (mock_activate rq ctx), s)"
  by unfold_locales (simp add: mock_activate_def)

end
