(* ===== verification/Adt_Http.thy ===== *)
theory Adt_Http
  imports Adt_Wire Adt_Mock Http_Client
begin

text \<open>
  The HTTP client of ADT (\<open>sap-automate-adt/src/http.rs\<close>): authentication with its token cache, the CSRF token,
  and every operation as the requests it sends and what it makes of the answers. The HTTP library, the clock, the
  files, the header check and the JSON and XML readers are the environment. A panic is \<open>None\<close>: adding a lifetime to
  an instant panics past \<open>2 ^ 63\<close> seconds, the range of the clock. Shown: a read-only session sends only reads, an
  activation carries the CSRF token fetched for it, and a cached token is used until it expires and no longer.
\<close>

section \<open>Requests and the environment\<close>

record adt_request =
  hr_method :: http_method
  hr_url :: string
  hr_headers :: "(string \<times> string) list"
  hr_basic_auth :: "(string \<times> string) option"
  hr_body :: request_body

text \<open>
  \<open>Adt_Answer status shown csrf body\<close>: the status code and its display form, the CSRF header if there is one that is
  text, and the body or the error of reading it.
\<close>

datatype adt_answer =
    Adt_Failed string
  | Adt_Answer nat string "string option" "(string, string) result"

record service_key =
  sk_clientid :: string
  sk_clientsecret :: string
  sk_url :: string

record 's adt_env =
  ae_send :: "adt_request \<Rightarrow> 's \<Rightarrow> adt_answer \<times> 's"
  ae_now :: "'s \<Rightarrow> nat"
  ae_files :: file_system
  ae_header_error :: "string \<Rightarrow> string option"
  ae_service_key :: "string \<Rightarrow> service_key option"
  ae_token_response :: "string \<Rightarrow> (string \<times> nat option) option"
  ae_events :: "string \<Rightarrow> adt_event list"
  ae_lower :: "string \<Rightarrow> string"
  ae_upper :: "string \<Rightarrow> string"

text \<open>Instants are nanoseconds; a cached token has the instant at which it expires.\<close>

record adt_http =
  hc_destination :: adt_destination
  hc_csrf :: "string option"
  hc_token :: "(string \<times> nat) option"

type_synonym ('a, 's) adt_run = "adt_http \<times> 's \<Rightarrow> 'a adt_result option \<times> adt_http \<times> 's"

definition return_adt :: "'a adt_result \<Rightarrow> ('a, 's) adt_run" where
  "return_adt r st = (Some r, st)"

definition send_request :: "'s adt_env \<Rightarrow> adt_request \<Rightarrow> (adt_answer, 's) adt_run" where
  "send_request E rq = (\<lambda>(c, s). case ae_send E rq s of (ans, s') \<Rightarrow> (Some (Inr ans), c, s'))"

text \<open>Running with the client's destination, which never changes.\<close>

definition asking :: "(adt_destination \<Rightarrow> ('a, 's) adt_run) \<Rightarrow> ('a, 's) adt_run" where
  "asking f = (\<lambda>(c, s). f (hc_destination c) (c, s))"

definition destination_down :: "adt_http \<Rightarrow> string \<Rightarrow> adt_error" where
  "destination_down c reason = Adt_DestinationDown (ad_name (hc_destination c)) reason"

section \<open>The client\<close>

text \<open>
  The reader of a client certificate and the builder of the HTTP client answer with an error or nothing.
\<close>

definition http_adt_new ::
  "file_system \<Rightarrow> (string \<Rightarrow> string option) \<Rightarrow> string option \<Rightarrow> adt_destination \<Rightarrow> adt_http adt_result" where
  "http_adt_new fs pem_error build_error d =
     (let client = (case build_error of
            Some e \<Rightarrow> Inl (Adt_Internal (''reqwest: '' @ e))
          | None \<Rightarrow> Inr \<lparr> hc_destination = d, hc_csrf = None, hc_token = None \<rparr>)
      in case ad_auth d of
           Auth_Certificate cert_path key_path \<Rightarrow>
             (case fs_read fs cert_path of
                Inl e \<Rightarrow> Inl (Adt_Internal (''read cert '' @ cert_path @ '': '' @ e))
              | Inr cert \<Rightarrow>
                  (case fs_read fs key_path of
                     Inl e \<Rightarrow> Inl (Adt_Internal (''read key '' @ key_path @ '': '' @ e))
                   | Inr key \<Rightarrow>
                       (case pem_error (cert @ [CHR 0x0A] @ key) of
                          Some e \<Rightarrow> Inl (Adt_Internal (''invalid client certificate/key PEM: '' @ e))
                        | None \<Rightarrow> client)))
         | _ \<Rightarrow> client)"

definition adt_url :: "adt_destination \<Rightarrow> string \<Rightarrow> string" where
  "adt_url d path = trim_end_matches (CHR ''/'') (ad_base_url d) @ path"

definition header_value :: "'s adt_env \<Rightarrow> string \<Rightarrow> string adt_result" where
  "header_value E v = (case ae_header_error E v of None \<Rightarrow> Inr v | Some e \<Rightarrow> Inl (Adt_Internal e))"

definition header_insert :: "string \<Rightarrow> string \<Rightarrow> (string \<times> string) list \<Rightarrow> (string \<times> string) list" where
  "header_insert k v hs = filter (\<lambda>(k', _). k' \<noteq> k) hs @ [(k, v)]"

definition token_request :: "service_key \<Rightarrow> adt_request" where
  "token_request k = \<lparr> hr_method = Method_Post, hr_url = trim_end_matches (CHR ''/'') (sk_url k) @ ''/oauth/token'',
     hr_headers = [], hr_basic_auth = Some (sk_clientid k, sk_clientsecret k),
     hr_body = Form_Body [(''grant_type'', ''client_credentials'')] \<rparr>"

definition token_answer :: "'s adt_env \<Rightarrow> adt_answer \<Rightarrow> (string, 's) adt_run" where
  "token_answer E ans = (\<lambda>(c, s).
     case ans of
       Adt_Failed e \<Rightarrow> (Some (Inl (destination_down c (''XSUAA token request: '' @ e))), c, s)
     | Adt_Answer status shown csrf body \<Rightarrow>
         (case body of
            Inl e \<Rightarrow> (Some (Inl (Adt_Internal e)), c, s)
          | Inr text \<Rightarrow>
              if status = 401 \<or> status = 403
              then (Some (Inl (Adt_Forbidden (''XSUAA rejected the service key (HTTP '' @ shown @ '')''))), c, s)
              else if \<not> is_success status
              then (Some (Inl (Adt_Internal (''XSUAA token endpoint -> HTTP '' @ shown))), c, s)
              else (case ae_token_response E text of
                      None \<Rightarrow> (Some (Inl (Adt_Internal ''malformed XSUAA token response'')), c, s)
                    | Some (token, expires_in) \<Rightarrow>
                        (case instant_add (ae_now E s) (token_ttl expires_in) of
                           None \<Rightarrow> (None, c, s)
                         | Some expires_at \<Rightarrow> (Some (Inr token), c\<lparr> hc_token := Some (token, expires_at) \<rparr>, s)))))"

definition service_key_token :: "'s adt_env \<Rightarrow> string \<Rightarrow> (string, 's) adt_run" where
  "service_key_token E path = (\<lambda>(c, s).
     case live_token (hc_token c) (ae_now E s) of
       Some token \<Rightarrow> (Some (Inr token), c, s)
     | None \<Rightarrow>
         (case fs_read (ae_files E) path of
            Inl e \<Rightarrow> (Some (Inl (Adt_Internal (''read service key '' @ path @ '': '' @ e))), c, s)
          | Inr raw \<Rightarrow>
              (case ae_service_key E raw of
                 None \<Rightarrow> (Some (Inl (Adt_Internal (''service key '' @ path @ '' is not valid JSON''))), c, s)
               | Some key \<Rightarrow> bind_run (send_request E (token_request key)) (token_answer E) (c, s))))"

definition resolve_auth_header :: "'s adt_env \<Rightarrow> (string option, 's) adt_run" where
  "resolve_auth_header E = asking (\<lambda>d.
     case ad_auth d of
       Auth_Basic user password \<Rightarrow>
         return_adt (map_sum (\<lambda>e. e) Some (header_value E (''Basic '' @ base64_encode (user @ '':'' @ password))))
     | Auth_Bearer token \<Rightarrow> return_adt (map_sum (\<lambda>e. e) Some (header_value E (''Bearer '' @ token)))
     | Auth_ServiceKey path \<Rightarrow>
         bind_run (service_key_token E path) (\<lambda>token. return_adt (map_sum (\<lambda>e. e) Some (header_value E (''Bearer '' @ token))))
     | _ \<Rightarrow> return_adt (Inr None))"

definition base_headers :: "'s adt_env \<Rightarrow> ((string \<times> string) list, 's) adt_run" where
  "base_headers E = asking (\<lambda>d.
     case header_value E (ad_client d) of
       Inl e \<Rightarrow> return_adt (Inl e)
     | Inr client \<Rightarrow>
         (case header_value E (ad_language d) of
            Inl e \<Rightarrow> return_adt (Inl e)
          | Inr language \<Rightarrow>
              (let h = [(''accept'', ''*/*''), (''x-sap-client'', client), (''x-sap-language'', language)]
               in bind_run (resolve_auth_header E) (\<lambda>auth. return_adt (Inr
                    (case auth of Some a \<Rightarrow> header_insert ''authorization'' a h | None \<Rightarrow> h))))))"

definition get_request :: "string \<Rightarrow> (string \<times> string) list \<Rightarrow> adt_request" where
  "get_request url hs = \<lparr> hr_method = Method_Get, hr_url = url, hr_headers = hs, hr_basic_auth = None, hr_body = No_Body \<rparr>"

definition post_request :: "string \<Rightarrow> (string \<times> string) list \<Rightarrow> string \<Rightarrow> adt_request" where
  "post_request url hs body =
     \<lparr> hr_method = Method_Post, hr_url = url, hr_headers = hs, hr_basic_auth = None, hr_body = Text_Body body \<rparr>"

definition cache_csrf :: "string option \<Rightarrow> adt_http \<Rightarrow> adt_http" where
  "cache_csrf csrf c = (case csrf of Some t \<Rightarrow> c\<lparr> hc_csrf := Some t \<rparr> | None \<Rightarrow> c)"

definition fetch_answer :: "string \<Rightarrow> adt_answer \<Rightarrow> (string, 's) adt_run" where
  "fetch_answer path ans = (\<lambda>(c, s).
     case ans of
       Adt_Failed e \<Rightarrow> (Some (Inl (destination_down c e)), c, s)
     | Adt_Answer status shown csrf body \<Rightarrow>
         (Some (if status = 401 \<or> status = 403 then Inl (Adt_Forbidden (path @ '' -> '' @ shown))
                else if status = 404 then Inl (Adt_NotFound ''Object'' path)
                else if \<not> is_success status then Inl (Adt_Internal (path @ '' -> '' @ shown))
                else (case body of Inl e \<Rightarrow> Inl (Adt_Internal e) | Inr text \<Rightarrow> Inr text)),
          cache_csrf csrf c, s))"

definition fetch_text :: "'s adt_env \<Rightarrow> string \<Rightarrow> (string, 's) adt_run" where
  "fetch_text E path = asking (\<lambda>d.
     bind_run (base_headers E) (\<lambda>h.
     bind_run (send_request E (get_request (adt_url d path) h)) (fetch_answer path)))"

definition csrf_answer :: "adt_answer \<Rightarrow> (unit, 's) adt_run" where
  "csrf_answer ans = (\<lambda>(c, s).
     case ans of
       Adt_Failed e \<Rightarrow> (Some (Inl (destination_down c e)), c, s)
     | Adt_Answer status shown csrf body \<Rightarrow>
         (Some (if csrf = None then Inl Adt_CsrfRefresh else Inr ()), cache_csrf csrf c, s))"

definition discovery_request :: "adt_destination \<Rightarrow> (string \<times> string) list \<Rightarrow> adt_request" where
  "discovery_request d h = get_request (adt_url d ''/sap/bc/adt/discovery'') (header_insert ''x-csrf-token'' ''Fetch'' h)"

definition refresh_csrf :: "'s adt_env \<Rightarrow> (unit, 's) adt_run" where
  "refresh_csrf E = asking (\<lambda>d.
     bind_run (base_headers E) (\<lambda>h.
     bind_run (send_request E (discovery_request d h)) csrf_answer))"

section \<open>Operations\<close>

definition source_of :: "'s adt_env \<Rightarrow> string \<Rightarrow> abap_kind \<Rightarrow> string \<Rightarrow> program_source" where
  "source_of E name kind source =
     \<lparr> ps_name = ae_upper E name, ps_kind = kind, ps_package = None, ps_description = None, ps_source = source,
       ps_active = True, ps_line_count = length (str_lines source) \<rparr>"

definition adt_source :: "'s adt_env \<Rightarrow> string \<Rightarrow> abap_kind \<Rightarrow> (program_source, 's) adt_run" where
  "adt_source E name kind =
     bind_run (fetch_text E (adt_path (ae_lower E) kind name)) (\<lambda>source. return_adt (Inr (source_of E name kind source)))"

definition http_get_program :: "'s adt_env \<Rightarrow> string \<Rightarrow> (program_source, 's) adt_run" where
  "http_get_program E name = adt_source E name Kind_Program"

definition http_get_class :: "'s adt_env \<Rightarrow> string \<Rightarrow> (program_source, 's) adt_run" where
  "http_get_class E name = adt_source E name Kind_Class"

definition http_get_interface :: "'s adt_env \<Rightarrow> string \<Rightarrow> (program_source, 's) adt_run" where
  "http_get_interface E name = adt_source E name Kind_Interface"

definition http_get_include :: "'s adt_env \<Rightarrow> string \<Rightarrow> (program_source, 's) adt_run" where
  "http_get_include E name = adt_source E name Kind_Include"

definition http_get_function_module :: "'s adt_env \<Rightarrow> string \<Rightarrow> string \<Rightarrow> (program_source, 's) adt_run" where
  "http_get_function_module E grp name =
     bind_run (fetch_text E (replace_sub ''{group}'' (ae_lower E grp) (adt_path (ae_lower E) Kind_FunctionModule name)))
       (\<lambda>source. return_adt (Inr (source_of E name Kind_FunctionModule source)))"

definition package_request :: "adt_destination \<Rightarrow> (string \<times> string) list \<Rightarrow> string \<Rightarrow> adt_request" where
  "package_request d h package =
     post_request (adt_url d ''/sap/bc/adt/repository/nodestructure'')
       (header_insert ''content-type'' ''application/x-www-form-urlencoded'' h)
       (''parent_type=DEVC%2FK&parent_name='' @ url_encode package @ ''&withShortDescriptions=true'')"

definition package_answer :: "'s adt_env \<Rightarrow> string \<Rightarrow> adt_answer \<Rightarrow> (package_contents, 's) adt_run" where
  "package_answer E package ans = (\<lambda>(c, s).
     case ans of
       Adt_Failed e \<Rightarrow> (Some (Inl (destination_down c e)), c, s)
     | Adt_Answer status shown csrf body \<Rightarrow>
         (Some (if status = 401 \<or> status = 403 then Inl (Adt_Forbidden (''nodestructure -> '' @ shown))
                else if status = 404 then Inl (Adt_NotFound ''Package'' package)
                else if \<not> is_success status then Inl (Adt_Internal (''nodestructure -> '' @ shown))
                else (case body of
                        Inl e \<Rightarrow> Inl (Adt_Internal e)
                      | Inr text \<Rightarrow> Inr \<lparr> pk_package = ae_upper E package, pk_description = None,
                          pk_members = parse_nodestructure (ae_events E text) \<rparr>)), c, s))"

definition http_get_package_contents :: "'s adt_env \<Rightarrow> string \<Rightarrow> (package_contents, 's) adt_run" where
  "http_get_package_contents E package = asking (\<lambda>d.
     bind_run (base_headers E) (\<lambda>h.
     bind_run (send_request E (package_request d h package)) (package_answer E package)))"

definition http_get_cds_view :: "'s adt_env \<Rightarrow> string \<Rightarrow> (cds_view, 's) adt_run" where
  "http_get_cds_view E name =
     bind_run (fetch_text E (adt_path (ae_lower E) Kind_CdsView name)) (\<lambda>source. return_adt (Inr
       \<lparr> cds_name = ae_upper E name, cds_source = source, cds_root_entity = name, cds_annotations = JNull,
         cds_line_count = length (str_lines source) \<rparr>))"

definition search_path :: "adt_search_request \<Rightarrow> string" where
  "search_path rq = ''/sap/bc/adt/repository/informationsystem/search?operation=quickSearch&query='' @ url_encode (asr_query rq)
     @ ''&maxResults='' @ show_nat (asr_max_results rq)"

definition http_search :: "'s adt_env \<Rightarrow> 'f \<Rightarrow> adt_search_request \<Rightarrow> ('f adt_search_hit list, 's) adt_run" where
  "http_search E one rq =
     bind_run (fetch_text E (search_path rq)) (\<lambda>body. return_adt (Inr (parse_search_results one (ae_events E body))))"

definition usage_body :: string where
  "usage_body = ''<?xml version='' @ [CHR 0x22] @ ''1.0'' @ [CHR 0x22] @ '' encoding='' @ [CHR 0x22] @ ''UTF-8'' @ [CHR 0x22] @ ''?>''
     @ [CHR 0x0A] @ ''<usageReferences:usageReferenceRequest xmlns:usageReferences='' @ [CHR 0x22]
     @ ''http://www.sap.com/adt/ris/usageReferences'' @ [CHR 0x22] @ ''>'' @ [CHR 0x0A]
     @ ''  <usageReferences:affectedObjects/>'' @ [CHR 0x0A] @ ''</usageReferences:usageReferenceRequest>''"

definition usage_request :: "'s adt_env \<Rightarrow> adt_destination \<Rightarrow> (string \<times> string) list \<Rightarrow> where_used_request \<Rightarrow> adt_request" where
  "usage_request E d h rq =
     post_request
       (adt_url d (''/sap/bc/adt/repository/informationsystem/usageReferences?uri=''
          @ url_encode (adt_path (ae_lower E) (wur_kind rq) (wur_name rq))))
       (header_insert ''accept'' ''application/vnd.sap.adt.repository.usagereferences.result+xml''
         (header_insert ''content-type'' ''application/vnd.sap.adt.repository.usagereferences.request+xml'' h))
       usage_body"

definition usage_answer :: "'s adt_env \<Rightarrow> adt_answer \<Rightarrow> (where_used_hit list, 's) adt_run" where
  "usage_answer E ans = (\<lambda>(c, s).
     case ans of
       Adt_Failed e \<Rightarrow> (Some (Inl (destination_down c e)), c, s)
     | Adt_Answer status shown csrf body \<Rightarrow>
         (Some (if status = 404 then Inr []
                else if \<not> is_success status then Inl (Adt_Internal (''usageReferences -> '' @ shown))
                else (case body of
                        Inl e \<Rightarrow> Inl (Adt_Internal e)
                      | Inr text \<Rightarrow> Inr (parse_usage_references (ae_events E text)))), c, s))"

definition http_where_used :: "'s adt_env \<Rightarrow> where_used_request \<Rightarrow> (where_used_hit list, 's) adt_run" where
  "http_where_used E rq = asking (\<lambda>d.
     bind_run (base_headers E) (\<lambda>h.
     bind_run (send_request E (usage_request E d h rq)) (usage_answer E)))"

definition preview_request :: "adt_destination \<Rightarrow> (string \<times> string) list \<Rightarrow> string \<Rightarrow> nat \<Rightarrow> adt_request" where
  "preview_request d h table max_rows =
     post_request
       (adt_url d (''/sap/bc/adt/datapreview/freestyle?rowNumber='' @ show_nat max_rows @ ''&dataAging=true''))
       (header_insert ''content-type'' ''text/plain; charset=utf-8'' h) (''SELECT * FROM '' @ table @ '' '')"

definition preview_answer :: "'s adt_env \<Rightarrow> string \<Rightarrow> adt_answer \<Rightarrow> (adt_table_row list, 's) adt_run" where
  "preview_answer E table ans = (\<lambda>(c, s).
     case ans of
       Adt_Failed e \<Rightarrow> (Some (Inl (destination_down c e)), c, s)
     | Adt_Answer status shown csrf body \<Rightarrow>
         (Some (if status = 403
                then Inl (Adt_DataPreviewBlocked (''ADT data preview blocked for '' @ table @ ''; fall back to sap.table.read''))
                else if \<not> is_success status then Inl (Adt_Internal (''data preview '' @ table @ '' -> '' @ shown))
                else (case body of
                        Inl e \<Rightarrow> Inl (Adt_Internal e)
                      | Inr text \<Rightarrow> Inr (parse_data_preview (ae_events E text)))), c, s))"

definition http_get_table_contents :: "'s adt_env \<Rightarrow> string \<Rightarrow> nat \<Rightarrow> (adt_table_row list, 's) adt_run" where
  "http_get_table_contents E table max_rows = asking (\<lambda>d.
     if max_rows = 0 \<or> max_rows > MAX_TABLE_ROWS
     then return_adt (Inl (Adt_InvalidObjectName (''max_rows must be in 1..='' @ show_nat MAX_TABLE_ROWS)))
     else bind_run (base_headers E) (\<lambda>h.
          bind_run (send_request E (preview_request d h table max_rows)) (preview_answer E table)))"

definition activation_body :: "'s adt_env \<Rightarrow> activation_request \<Rightarrow> string" where
  "activation_body E rq =
     (let q = [CHR 0x22]; name = ae_lower E (act_name rq);
          kind = (case act_kind rq of Kind_Program \<Rightarrow> ''programs/programs'' | Kind_Class \<Rightarrow> ''oo/classes''
                  | Kind_Interface \<Rightarrow> ''oo/interfaces'' | _ \<Rightarrow> ''objects'')
      in ''<?xml version='' @ q @ ''1.0'' @ q @ '' encoding='' @ q @ ''UTF-8'' @ q @ ''?><adtcore:objectReferences xmlns:adtcore='' @ q
         @ ''http://www.sap.com/adt/core'' @ q @ ''><adtcore:objectReference adtcore:uri='' @ q @ ''/sap/bc/adt/'' @ kind @ ''/''
         @ name @ q @ '' adtcore:name='' @ q @ name @ q @ ''/></adtcore:objectReferences>'')"

definition activation_post :: "'s adt_env \<Rightarrow> adt_destination \<Rightarrow> (string \<times> string) list \<Rightarrow> string \<Rightarrow> activation_request \<Rightarrow> adt_request" where
  "activation_post E d h token rq =
     post_request (adt_url d ''/sap/bc/adt/activation'')
       (header_insert ''content-type'' ''application/xml'' (header_insert ''x-csrf-token'' token h)) (activation_body E rq)"

definition activation_answer :: "'s adt_env \<Rightarrow> activation_request \<Rightarrow> adt_answer \<Rightarrow> (activation_outcome, 's) adt_run" where
  "activation_answer E rq ans = (\<lambda>(c, s).
     case ans of
       Adt_Failed e \<Rightarrow> (Some (Inl (destination_down c e)), c, s)
     | Adt_Answer status shown csrf body \<Rightarrow>
         (Some (Inr \<lparr> ao_name = ae_upper E (act_name rq), ao_kind = act_kind rq, ao_activated = is_success status,
                  ao_messages = [''HTTP '' @ shown] \<rparr>), c, s))"

definition read_csrf :: "(string, 's) adt_run" where
  "read_csrf = (\<lambda>(c, s). (Some (case hc_csrf c of Some t \<Rightarrow> Inr t | None \<Rightarrow> Inl Adt_CsrfRefresh), c, s))"

definition http_activate :: "'s adt_env \<Rightarrow> activation_request \<Rightarrow> adt_call_context \<Rightarrow> (activation_outcome, 's) adt_run" where
  "http_activate E rq ctx = asking (\<lambda>d.
     if ac_read_only ctx then return_adt (Inl (activation_refused rq))
     else bind_run (refresh_csrf E) (\<lambda>_.
          bind_run read_csrf (\<lambda>token.
          bind_run (base_headers E) (\<lambda>h.
          bind_run (return_adt (header_value E token)) (\<lambda>t.
          bind_run (send_request E (activation_post E d h t rq)) (activation_answer E rq))))))"

section \<open>What an operation sends\<close>

text \<open>The environment with every request and its answer recorded.\<close>

type_synonym adt_log = "(adt_request \<times> adt_answer) list"

definition logged_env :: "'s adt_env \<Rightarrow> ('s \<times> adt_log) adt_env" where
  "logged_env E =
     \<lparr> ae_send = (\<lambda>rq (s, l). case ae_send E rq s of (ans, s') \<Rightarrow> (ans, s', l @ [(rq, ans)])),
       ae_now = (\<lambda>(s, l). ae_now E s), ae_files = ae_files E, ae_header_error = ae_header_error E,
       ae_service_key = ae_service_key E, ae_token_response = ae_token_response E, ae_events = ae_events E,
       ae_lower = ae_lower E, ae_upper = ae_upper E \<rparr>"

lemma logged_env_simps [simp]:
  "ae_now (logged_env E) (s, l) = ae_now E s" "ae_files (logged_env E) = ae_files E"
  "ae_header_error (logged_env E) = ae_header_error E" "ae_service_key (logged_env E) = ae_service_key E"
  "ae_token_response (logged_env E) = ae_token_response E" "ae_events (logged_env E) = ae_events E"
  "ae_lower (logged_env E) = ae_lower E" "ae_upper (logged_env E) = ae_upper E"
  "header_value (logged_env E) v = header_value E v"
  by (simp_all add: logged_env_def header_value_def)

text \<open>
  For a client of destination \<open>d\<close>: the destination stays, every request sent satisfies \<open>P\<close>, and a value
  returned satisfies \<open>Q\<close>.
\<close>

definition sends ::
  "adt_destination \<Rightarrow> (adt_request \<Rightarrow> bool) \<Rightarrow> ('a, 's \<times> adt_log) adt_run \<Rightarrow> ('a \<Rightarrow> bool) \<Rightarrow> bool" where
  "sends d P m Q \<longleftrightarrow> (\<forall>c s l. hc_destination c = d \<longrightarrow>
     (\<exists>r c' s' new. m (c, s, l) = (r, c', s', l @ new) \<and> hc_destination c' = d \<and> list_all (P \<circ> fst) new \<and>
        (\<forall>x. r = Some (Inr x) \<longrightarrow> Q x)))"

lemma sendsD:
  assumes "sends d P m Q" "hc_destination c = d"
  obtains r c' s' new where "m (c, s, l) = (r, c', s', l @ new)" "hc_destination c' = d" "list_all (P \<circ> fst) new"
    "\<And>x. r = Some (Inr x) \<Longrightarrow> Q x"
  using assms unfolding sends_def by blast

named_theorems sends_intros

lemma sends_bind [sends_intros]:
  assumes "sends d P m Q" "\<And>x. Q x \<Longrightarrow> sends d P (f x) R"
  shows "sends d P (bind_run m f) R"
  unfolding sends_def
proof (intro allI impI)
  fix c :: adt_http and s l
  assume c: "hc_destination c = d"
  obtain r1 c1 s1 new1 where one: "m (c, s, l) = (r1, c1, s1, l @ new1)" "hc_destination c1 = d"
    "list_all (P \<circ> fst) new1" "\<And>x. r1 = Some (Inr x) \<Longrightarrow> Q x"
    using assms(1) c by (rule sendsD [where s = s and l = l]) blast
  show "\<exists>r c' s' new. bind_run m f (c, s, l) = (r, c', s', l @ new) \<and> hc_destination c' = d \<and> list_all (P \<circ> fst) new \<and>
      (\<forall>x. r = Some (Inr x) \<longrightarrow> R x)"
  proof (cases "\<exists>x. r1 = Some (Inr x)")
    case True
    then obtain x where x: "r1 = Some (Inr x)" by blast
    obtain r c' s' new where two: "f x (c1, s1, l @ new1) = (r, c', s', (l @ new1) @ new)" "hc_destination c' = d"
      "list_all (P \<circ> fst) new" "\<And>x. r = Some (Inr x) \<Longrightarrow> R x"
      using assms(2) [OF one(4) [OF x]] one(2) by (rule sendsD [where s = s1 and l = "l @ new1"]) blast
    show ?thesis
      using one(1,3) two x by (intro exI [of _ r] exI [of _ c'] exI [of _ s'] exI [of _ "new1 @ new"]) (simp add: bind_run_def)
  next
    case False
    then obtain r where "bind_run m f (c, s, l) = (r, c1, s1, l @ new1)" "\<nexists>x. r = Some (Inr x)"
      using one(1) by (cases r1; cases "the r1") (force simp: bind_run_def)+
    then show ?thesis
      using one(2,3) by blast
  qed
qed

lemma sends_mono:
  assumes "sends d P m Q" "\<And>q. P q \<Longrightarrow> P' q" "\<And>x. Q x \<Longrightarrow> Q' x"
  shows "sends d P' m Q'"
  unfolding sends_def
proof (intro allI impI)
  fix c :: adt_http and s l
  assume "hc_destination c = d"
  with assms(1) obtain r c' s' new where "m (c, s, l) = (r, c', s', l @ new)" "hc_destination c' = d"
    "list_all (P \<circ> fst) new" "\<And>x. r = Some (Inr x) \<Longrightarrow> Q x"
    by (rule sendsD [where s = s and l = l]) blast
  then show "\<exists>r c' s' new. m (c, s, l) = (r, c', s', l @ new) \<and> hc_destination c' = d \<and> list_all (P' \<circ> fst) new \<and>
      (\<forall>x. r = Some (Inr x) \<longrightarrow> Q' x)"
    using assms(2,3) by (auto simp: list_all_iff)
qed

lemma sends_asking [sends_intros]: "sends d P (f d) Q \<Longrightarrow> sends d P (asking f) Q"
  by (auto simp: sends_def asking_def)

lemma sends_return [sends_intros]: "(\<And>x. r = Inr x \<Longrightarrow> Q x) \<Longrightarrow> sends d P (return_adt r) Q"
  unfolding sends_def by (intro allI impI exI [of _ "[]"]) (simp add: return_adt_def)

lemma sends_request [sends_intros]:
  assumes "P rq"
  shows "sends d P (send_request (logged_env E) rq) (\<lambda>_. True)"
  unfolding sends_def
proof (intro allI impI)
  fix c :: adt_http and s l
  assume "hc_destination c = d"
  then show "\<exists>r c' s' new. send_request (logged_env E) rq (c, s, l) = (r, c', s', l @ new) \<and> hc_destination c' = d \<and>
      list_all (P \<circ> fst) new \<and> (\<forall>x. r = Some (Inr x) \<longrightarrow> True)"
    using assms by (cases "ae_send E rq s") (simp add: send_request_def logged_env_def)
qed

text \<open>What is made of an answer sends nothing.\<close>

lemma sends_quiet:
  assumes "\<And>c s. hc_destination c = d \<Longrightarrow> \<exists>r c'. m (c, s) = (r, c', s) \<and> hc_destination c' = d"
  shows "sends d P m (\<lambda>_. True)"
  unfolding sends_def
proof (intro allI impI)
  fix c :: adt_http and s l
  assume "hc_destination c = d"
  from assms [OF this, of "(s, l)"]
  show "\<exists>r c' s' new. m (c, s, l) = (r, c', s', l @ new) \<and> hc_destination c' = d \<and> list_all (P \<circ> fst) new \<and>
      (\<forall>x. r = Some (Inr x) \<longrightarrow> True)"
    by force
qed

lemma sends_answers [sends_intros]:
  "sends d P (token_answer E ans) (\<lambda>_. True)" "sends d P (fetch_answer path ans) (\<lambda>_. True)"
  "sends d P (csrf_answer ans) (\<lambda>_. True)" "sends d P (package_answer E package ans) (\<lambda>_. True)"
  "sends d P (usage_answer E ans) (\<lambda>_. True)" "sends d P (preview_answer E table ans) (\<lambda>_. True)"
  "sends d P (activation_answer E rq ans) (\<lambda>_. True)" "sends d P read_csrf (\<lambda>_. True)"
  by (rule sends_quiet; force simp: token_answer_def fetch_answer_def csrf_answer_def package_answer_def usage_answer_def
        preview_answer_def activation_answer_def read_csrf_def cache_csrf_def
      split: adt_answer.splits sum.splits option.splits prod.splits)+

text \<open>Headers are made with token requests only, and carry no CSRF token.\<close>

definition is_token_request :: "adt_request \<Rightarrow> bool" where
  "is_token_request q \<longleftrightarrow> hr_method q = Method_Post \<and> hr_body q = Form_Body [(''grant_type'', ''client_credentials'')]"

lemma sends_service_key: "sends d is_token_request (service_key_token (logged_env E) path) (\<lambda>_. True)"
proof -
  have "is_token_request (token_request k)" for k
    by (simp add: is_token_request_def token_request_def)
  then have token: "sends d is_token_request (bind_run (send_request (logged_env E) (token_request k)) (token_answer (logged_env E))) (\<lambda>_. True)" for k
    by (intro sends_bind [OF sends_request] sends_answers)
  show ?thesis
    unfolding sends_def
  proof (intro allI impI)
    fix c :: adt_http and s l
    assume c: "hc_destination c = d"
    have "\<exists>r. service_key_token (logged_env E) path (c, s, l) = (r, c, s, l) \<or>
        (\<exists>k. service_key_token (logged_env E) path (c, s, l) =
           bind_run (send_request (logged_env E) (token_request k)) (token_answer (logged_env E)) (c, s, l))"
      unfolding service_key_token_def by (auto split: option.splits sum.splits if_splits)
    with token c show "\<exists>r c' s' new. service_key_token (logged_env E) path (c, s, l) = (r, c', s', l @ new) \<and>
        hc_destination c' = d \<and> list_all (is_token_request \<circ> fst) new \<and> (\<forall>x. r = Some (Inr x) \<longrightarrow> True)"
      unfolding sends_def by (metis append_Nil2 list.pred_inject(1))
  qed
qed

lemma sends_base_headers:
  "sends d is_token_request (base_headers (logged_env E)) (\<lambda>h. map_of h ''x-csrf-token'' = None)"
proof -
  have auth: "sends d is_token_request (resolve_auth_header (logged_env E)) (\<lambda>_. True)"
    unfolding resolve_auth_header_def
    by (intro sends_asking; cases "ad_auth d") (auto intro!: sends_return sends_bind [OF sends_service_key])
  have "map_of (case auth of Some a \<Rightarrow> header_insert ''authorization'' a h | None \<Rightarrow> h) ''x-csrf-token'' = None"
    if "h = [(''accept'', ''*/*''), (''x-sap-client'', client), (''x-sap-language'', language)]" for auth h client language
    using that by (cases auth) (simp_all add: header_insert_def)
  then show ?thesis
    unfolding base_headers_def Let_def
    by (intro sends_asking; cases "header_value E (ad_client d)"; cases "header_value E (ad_language d)")
      (auto intro!: sends_return sends_bind [OF auth])
qed

section \<open>Sessions\<close>

text \<open>The calls of the client, each run for its effect.\<close>

datatype adt_op =
    Do_Source abap_kind string
  | Do_Function_Module string string
  | Do_Package string
  | Do_Cds_View string
  | Do_Search adt_search_request
  | Do_Where_Used where_used_request
  | Do_Table string nat
  | Do_Activate activation_request

definition void :: "('a, 's) adt_run \<Rightarrow> (unit, 's) adt_run" where
  "void m = bind_run m (\<lambda>_. return_adt (Inr ()))"

fun adt_do :: "'s adt_env \<Rightarrow> adt_call_context \<Rightarrow> adt_op \<Rightarrow> (unit, 's) adt_run" where
  "adt_do E ctx (Do_Source kind name) = void (adt_source E name kind)"
| "adt_do E ctx (Do_Function_Module g name) = void (http_get_function_module E g name)"
| "adt_do E ctx (Do_Package package) = void (http_get_package_contents E package)"
| "adt_do E ctx (Do_Cds_View name) = void (http_get_cds_view E name)"
| "adt_do E ctx (Do_Search rq) = void (http_search E () rq)"
| "adt_do E ctx (Do_Where_Used rq) = void (http_where_used E rq)"
| "adt_do E ctx (Do_Table table n) = void (http_get_table_contents E table n)"
| "adt_do E ctx (Do_Activate rq) = void (http_activate E rq ctx)"

text \<open>A session goes on after an error of a call.\<close>

fun adt_session :: "'s adt_env \<Rightarrow> adt_call_context \<Rightarrow> adt_op list \<Rightarrow> adt_http \<times> 's \<Rightarrow> unit adt_result option list \<times> adt_http \<times> 's" where
  "adt_session E ctx [] st = ([], st)"
| "adt_session E ctx (op # ops) st =
     (case adt_do E ctx op st of (r, st') \<Rightarrow> case adt_session E ctx ops st' of (rs, st'') \<Rightarrow> (r # rs, st''))"

text \<open>
  A request that reads: a token request, a GET under the destination's URL, or a POST to one of the three
  queries; without a CSRF token.
\<close>

definition read_request :: "adt_destination \<Rightarrow> adt_request \<Rightarrow> bool" where
  "read_request d q \<longleftrightarrow> is_token_request q \<or>
     (map_of (hr_headers q) ''x-csrf-token'' = None \<and>
      (if hr_method q = Method_Get then starts_with (hr_url q) (adt_url d [])
       else hr_url q = adt_url d ''/sap/bc/adt/repository/nodestructure'' \<or>
         starts_with (hr_url q) (adt_url d ''/sap/bc/adt/repository/informationsystem/usageReferences?uri='') \<or>
         starts_with (hr_url q) (adt_url d ''/sap/bc/adt/datapreview/freestyle?rowNumber='')))"

lemma header_insert_other: "k \<noteq> k' \<Longrightarrow> map_of (header_insert k v hs) k' = map_of hs k'"
  by (induction hs) (auto simp: header_insert_def map_add_def split: option.splits)

lemma read_requests:
  assumes "map_of h ''x-csrf-token'' = None"
  shows "read_request d (get_request (adt_url d path) h)" "read_request d (package_request d h package)"
    "read_request d (usage_request E d h rq)" "read_request d (preview_request d h table n)"
  using assms
  by (simp_all add: read_request_def get_request_def package_request_def usage_request_def preview_request_def post_request_def
      header_insert_other adt_url_def)

lemma sends_read_headers: "sends d (read_request d) (base_headers (logged_env E)) (\<lambda>h. map_of h ''x-csrf-token'' = None)"
  by (rule sends_mono [OF sends_base_headers]) (simp_all add: read_request_def)

lemma sends_fetch: "sends d (read_request d) (fetch_text (logged_env E) path) (\<lambda>_. True)"
  unfolding fetch_text_def
  by (intro sends_asking sends_bind [OF sends_read_headers] sends_bind [OF sends_request] sends_answers read_requests)

lemma sends_void: "sends d P m Q \<Longrightarrow> sends d P (void m) (\<lambda>_. True)"
  unfolding void_def by (erule sends_bind) (rule sends_return, simp)

lemma sends_reads:
  "sends d (read_request d) (adt_source (logged_env E) name kind) (\<lambda>_. True)"
  "sends d (read_request d) (http_get_function_module (logged_env E) g name) (\<lambda>_. True)"
  "sends d (read_request d) (http_get_package_contents (logged_env E) package) (\<lambda>_. True)"
  "sends d (read_request d) (http_get_cds_view (logged_env E) name) (\<lambda>_. True)"
  "sends d (read_request d) (http_search (logged_env E) one srq) (\<lambda>_. True)"
  "sends d (read_request d) (http_where_used (logged_env E) wrq) (\<lambda>_. True)"
  "sends d (read_request d) (http_get_table_contents (logged_env E) table n) (\<lambda>_. True)"
  "ac_read_only ctx \<Longrightarrow> sends d (read_request d) (http_activate (logged_env E) arq ctx) (\<lambda>_. True)"
  unfolding adt_source_def http_get_function_module_def http_get_package_contents_def http_get_cds_view_def http_search_def
    http_where_used_def http_get_table_contents_def http_activate_def
  by (auto intro!: sends_asking sends_return sends_bind [OF sends_fetch] sends_bind [OF sends_read_headers]
      sends_bind [OF sends_request] sends_answers read_requests)

lemma sends_read_op:
  assumes "ac_read_only ctx"
  shows "sends d (read_request d) (adt_do (logged_env E) ctx op) (\<lambda>_. True)"
  using assms by (cases op) (auto intro!: sends_void sends_reads)

lemma session_sends:
  assumes "\<And>op. sends d P (adt_do (logged_env E) ctx op) (\<lambda>_. True)" "hc_destination c = d"
  shows "\<exists>rs c' s' new. adt_session (logged_env E) ctx ops (c, s, l) = (rs, c', s', l @ new) \<and> hc_destination c' = d \<and>
     list_all (P \<circ> fst) new"
  using assms(2)
proof (induction ops arbitrary: c s l)
  case (Cons op ops)
  obtain r c1 s1 new1 where one: "adt_do (logged_env E) ctx op (c, s, l) = (r, c1, s1, l @ new1)" "hc_destination c1 = d"
    "list_all (P \<circ> fst) new1"
    using assms(1) Cons.prems by (rule sendsD [where s = s and l = l]) blast
  obtain rs c' s' new where two: "adt_session (logged_env E) ctx ops (c1, s1, l @ new1) = (rs, c', s', (l @ new1) @ new)"
    "hc_destination c' = d" "list_all (P \<circ> fst) new"
    using Cons.IH [OF one(2)] by blast
  show ?case
    using one two by (intro exI [of _ "r # rs"] exI [of _ c'] exI [of _ s'] exI [of _ "new1 @ new"]) (simp add: comp_def)
qed simp

text \<open>
  A read-only ADT session only reads. Whatever calls are made in read-only mode, with whatever names and
  requests, and whatever the SAP system answers, every request sent is a token request, a GET below the
  destination's URL, or a POST to the package listing, the usage query or the data preview, and none carries a CSRF
  token; every activation is refused.
\<close>

lemma adt_session_read_only:
  "case adt_session (logged_env E) \<lparr> ac_read_only = True \<rparr> ops (c, s, []) of
     (rs, c', s', sent) \<Rightarrow> list_all (read_request (hc_destination c) \<circ> fst) sent \<and>
       list_all (\<lambda>(op, r). case op of Do_Activate rq \<Rightarrow> r = Some (Inl (activation_refused rq)) | _ \<Rightarrow> True) (zip ops rs)"
proof -
  have refused: "list_all (\<lambda>(op, r). case op of Do_Activate rq \<Rightarrow> r = Some (Inl (activation_refused rq)) | _ \<Rightarrow> True)
      (zip ops (fst (adt_session E' \<lparr> ac_read_only = True \<rparr> ops st)))" for E' :: "'b adt_env" and st
  proof (induction ops arbitrary: st)
    case (Cons op ops)
    have "case op of Do_Activate rq \<Rightarrow> fst (adt_do E' \<lparr> ac_read_only = True \<rparr> op st) = Some (Inl (activation_refused rq)) | _ \<Rightarrow> True"
      by (cases op; cases st) (simp_all add: http_activate_def asking_def void_def bind_run_def return_adt_def)
    then show ?case
      using Cons [of "snd (adt_do E' \<lparr> ac_read_only = True \<rparr> op st)"] by (cases op; simp add: split_def)
  qed simp
  have ro: "sends (hc_destination c) (read_request (hc_destination c)) (adt_do (logged_env E) \<lparr> ac_read_only = True \<rparr> op) (\<lambda>_. True)" for op
    by (rule sends_read_op) simp
  obtain rs c' s' new where "adt_session (logged_env E) \<lparr> ac_read_only = True \<rparr> ops (c, s, []) = (rs, c', s', [] @ new)"
    "list_all (read_request (hc_destination c) \<circ> fst) new"
    using session_sends [OF ro refl, where ops = ops and s = s and l = "[]"] by blast
  then show ?thesis using refused [of "logged_env E" "(c, s, [])"] by simp
qed

section \<open>Activation\<close>

text \<open>What was sent apart from token requests.\<close>

definition sap_log :: "adt_log \<Rightarrow> adt_log" where
  "sap_log l = filter (\<lambda>(q, a). \<not> is_token_request q) l"

definition answer_csrf :: "adt_answer \<Rightarrow> string option" where
  "answer_csrf a = (case a of Adt_Answer status shown csrf body \<Rightarrow> csrf | Adt_Failed e \<Rightarrow> None)"

definition no_value :: "'a adt_result option \<Rightarrow> bool" where
  "no_value r \<longleftrightarrow> (case r of Some (Inr x) \<Rightarrow> False | _ \<Rightarrow> True)"

lemma sap_log_simps [simp]:
  "sap_log [] = []" "sap_log (l @ l') = sap_log l @ sap_log l'"
  "sap_log [(discovery_request d h, a)] = [(discovery_request d h, a)]"
  "sap_log [(activation_post E d h t rq, a)] = [(activation_post E d h t rq, a)]"
  by (simp_all add: sap_log_def is_token_request_def discovery_request_def activation_post_def get_request_def post_request_def)

lemma sap_log_tokens: "list_all (is_token_request \<circ> fst) l \<Longrightarrow> sap_log l = []"
  by (auto simp: sap_log_def list_all_iff filter_empty_conv)

lemma bind_no_value:
  assumes "m st = (r, st')" "no_value r"
  obtains r' where "bind_run m f st = (r', st')" "no_value r'"
proof (cases r)
  case None
  then show ?thesis using assms by (intro that [of None]) (simp_all add: bind_run_def no_value_def)
next
  case (Some a)
  then obtain e where "r = Some (Inl e)" using assms(2) by (cases a) (auto simp: no_value_def)
  then show ?thesis using assms by (intro that [of "Some (Inl e)"]) (simp_all add: bind_run_def no_value_def)
qed

lemma no_value_cases: obtains "no_value r" | x where "r = Some (Inr x)"
  by (cases r; cases "the r") (auto simp: no_value_def)

text \<open>The headers take token requests; then either they are there or the call fails.\<close>

lemma headers_logged:
  assumes "hc_destination c = d"
  obtains (fails) r c' s' new where "base_headers (logged_env E) (c, s, l) = (r, c', s', l @ new)" "no_value r" "sap_log new = []"
    | (headers) h c' s' new where "base_headers (logged_env E) (c, s, l) = (Some (Inr h), c', s', l @ new)"
        "hc_destination c' = d" "sap_log new = []"
proof -
  obtain r c' s' new where b: "base_headers (logged_env E) (c, s, l) = (r, c', s', l @ new)" "hc_destination c' = d"
    "list_all (is_token_request \<circ> fst) new"
    using sends_base_headers assms by (rule sendsD [where s = s and l = l]) blast
  then show ?thesis
    using that sap_log_tokens [OF b(3)] by (cases r rule: no_value_cases) auto
qed

lemma send_logged:
  obtains ans s' where "send_request (logged_env E) q (c, s, l) = (Some (Inr ans), c, s', l @ [(q, ans)])"
  by (cases "ae_send E q s") (simp add: send_request_def logged_env_def)

lemma refresh_logged:
  assumes "hc_destination c = d"
  obtains (fails) r c' s' new where "refresh_csrf (logged_env E) (c, s, l) = (r, c', s', l @ new)" "no_value r" "sap_log new = []"
    | (no_token) r c' s' new h a where "refresh_csrf (logged_env E) (c, s, l) = (r, c', s', l @ new)" "no_value r"
        "sap_log new = [(discovery_request d h, a)]"
    | (token) c' s' new h a t where "refresh_csrf (logged_env E) (c, s, l) = (Some (Inr ()), c', s', l @ new)"
        "hc_destination c' = d" "sap_log new = [(discovery_request d h, a)]" "answer_csrf a = Some t" "hc_csrf c' = Some t"
proof -
  have run: "refresh_csrf (logged_env E) (c, s, l) =
      bind_run (base_headers (logged_env E)) (\<lambda>h. bind_run (send_request (logged_env E) (discovery_request d h)) csrf_answer) (c, s, l)"
    using assms by (simp add: refresh_csrf_def asking_def)
  show ?thesis
    using assms
  proof (cases rule: headers_logged [where E = E and s = s and l = l])
    case (fails r c' s' new)
    then show ?thesis
      using bind_no_value [where m = "base_headers (logged_env E)", OF fails(1,2)] that(1) run by metis
  next
    case (headers h c' s' new)
    obtain a s2 where send: "send_request (logged_env E) (discovery_request d h) (c', s', l @ new) =
        (Some (Inr a), c', s2, (l @ new) @ [(discovery_request d h, a)])"
      by (rule send_logged)
    have full: "refresh_csrf (logged_env E) (c, s, l) = csrf_answer a (c', s2, (l @ new) @ [(discovery_request d h, a)])"
      unfolding run bind_value [where m = "base_headers (logged_env E)", OF headers(1)] bind_value [where m = "send_request (logged_env E) (discovery_request d h)", OF send] ..
    have sap: "sap_log (new @ [(discovery_request d h, a)]) = [(discovery_request d h, a)]"
      using headers(3) by simp
    show ?thesis
    proof (cases "answer_csrf a")
      case None
      then obtain r c2 where "csrf_answer a (c', s2, (l @ new) @ [(discovery_request d h, a)]) = (r, c2, s2, l @ (new @ [(discovery_request d h, a)]))" "no_value r"
        by (cases a) (simp_all add: csrf_answer_def answer_csrf_def no_value_def)
      then show ?thesis using that(2) full sap by metis
    next
      case (Some t)
      then have "csrf_answer a (c', s2, (l @ new) @ [(discovery_request d h, a)]) =
          (Some (Inr ()), c'\<lparr> hc_csrf := Some t \<rparr>, s2, l @ (new @ [(discovery_request d h, a)]))"
        by (cases a) (simp_all add: csrf_answer_def answer_csrf_def cache_csrf_def)
      then show ?thesis
        using that(3) [of "c'\<lparr> hc_csrf := Some t \<rparr>"] full sap Some headers(2) by simp
    qed
  qed
qed

text \<open>
  The protocol of an activation: nothing but token requests, or a discovery that asks for a token, or a discovery
  answered with a token and the activation that carries it, whose answer alone decides the result.
\<close>

definition activation_protocol ::
  "'s adt_env \<Rightarrow> adt_destination \<Rightarrow> activation_request \<Rightarrow> adt_log \<Rightarrow> activation_outcome adt_result option \<Rightarrow> bool" where
  "activation_protocol E d rq sap r \<longleftrightarrow>
     (case sap of
        [] \<Rightarrow> no_value r
      | [(q, a)] \<Rightarrow> no_value r \<and> (\<exists>h. q = discovery_request d h)
      | [(q, a), (q', a')] \<Rightarrow>
          (\<exists>h h' t. q = discovery_request d h \<and> answer_csrf a = Some t \<and> q' = activation_post E d h' t rq) \<and>
          (case a' of
             Adt_Failed e \<Rightarrow> r = Some (Inl (Adt_DestinationDown (ad_name d) e))
           | Adt_Answer status shown csrf body \<Rightarrow>
               r = Some (Inr \<lparr> ao_name = ae_upper E (act_name rq), ao_kind = act_kind rq,
                     ao_activated = is_success status, ao_messages = [''HTTP '' @ shown] \<rparr>))
      | _ \<Rightarrow> False)"

lemma activate_logged:
  assumes "hc_destination c = d" "\<not> ac_read_only ctx"
  obtains r c' s' new where "http_activate (logged_env E) rq ctx (c, s, l) = (r, c', s', l @ new)"
    "activation_protocol E d rq (sap_log new) r"
proof -
  let ?post = "\<lambda>t h v. bind_run (send_request (logged_env E) (activation_post (logged_env E) d h v rq)) (activation_answer (logged_env E) rq)"
  let ?checked = "\<lambda>t h. bind_run (return_adt (header_value E t)) (?post t h)"
  let ?rest = "\<lambda>t. bind_run (base_headers (logged_env E)) (?checked t)"
  have run: "http_activate (logged_env E) rq ctx (c, s, l) =
      bind_run (refresh_csrf (logged_env E)) (\<lambda>_. bind_run read_csrf ?rest) (c, s, l)"
    using assms by (simp add: http_activate_def asking_def)
  have same: "activation_post (logged_env E) = activation_post E"
    by (simp add: fun_eq_iff activation_post_def activation_body_def)
  show ?thesis
    using assms(1)
  proof (cases rule: refresh_logged [where E = E and s = s and l = l])
    case (fails r c' s' new)
    obtain r' where "http_activate (logged_env E) rq ctx (c, s, l) = (r', c', s', l @ new)" "no_value r'"
      unfolding run by (rule bind_no_value [where m = "refresh_csrf (logged_env E)", OF fails(1,2)])
    then show ?thesis using that fails(3) by (simp add: activation_protocol_def)
  next
    case (no_token r c' s' new h a)
    obtain r' where "http_activate (logged_env E) rq ctx (c, s, l) = (r', c', s', l @ new)" "no_value r'"
      unfolding run by (rule bind_no_value [where m = "refresh_csrf (logged_env E)", OF no_token(1,2)])
    then show ?thesis using that no_token(3) by (auto simp: activation_protocol_def)
  next
    case (token c' s' new h a t)
    have csrf: "read_csrf (c', s', l @ new) = (Some (Inr t), c', s', l @ new)"
      using token(5) by (simp add: read_csrf_def)
    have rest: "http_activate (logged_env E) rq ctx (c, s, l) = ?rest t (c', s', l @ new)"
      unfolding run bind_value [where m = "refresh_csrf (logged_env E)", OF token(1)] bind_value [where m = read_csrf, OF csrf] ..
    show ?thesis
      using token(2)
    proof (cases rule: headers_logged [where E = E and s = s' and l = "l @ new"])
      case (fails r2 c2 s2 new2)
      obtain r' where "http_activate (logged_env E) rq ctx (c, s, l) = (r', c2, s2, (l @ new) @ new2)" "no_value r'"
        unfolding rest by (rule bind_no_value [where m = "base_headers (logged_env E)", OF fails(1,2)])
      then show ?thesis using that [of r' c2 s2 "new @ new2"] token(3) fails(3) by (auto simp: activation_protocol_def)
    next
      case (headers h2 c2 s2 new2)
      have at_post: "http_activate (logged_env E) rq ctx (c, s, l) = ?checked t h2 (c2, s2, (l @ new) @ new2)"
        unfolding rest bind_value [where m = "base_headers (logged_env E)", OF headers(1)] ..
      show ?thesis
      proof (cases "header_value E t")
        case (Inl e)
        then have "http_activate (logged_env E) rq ctx (c, s, l) = (Some (Inl e), c2, s2, l @ (new @ new2))"
          unfolding at_post by (simp add: bind_run_def return_adt_def)
        then show ?thesis using that token(3) headers(3) by (force simp: activation_protocol_def no_value_def)
      next
        case (Inr v)
        then have v: "v = t" by (simp add: header_value_def split: option.splits)
        obtain a2 s3 where send: "send_request (logged_env E) (activation_post E d h2 t rq) (c2, s2, (l @ new) @ new2) =
            (Some (Inr a2), c2, s3, ((l @ new) @ new2) @ [(activation_post E d h2 t rq, a2)])"
          by (rule send_logged)
        have full: "http_activate (logged_env E) rq ctx (c, s, l) =
            activation_answer (logged_env E) rq a2 (c2, s3, l @ (new @ new2 @ [(activation_post E d h2 t rq, a2)]))"
          unfolding at_post same using Inr v bind_value [where m = "send_request (logged_env E) (activation_post E d h2 t rq)", OF send] by (simp add: bind_run_def return_adt_def)
        have sap: "sap_log (new @ new2 @ [(activation_post E d h2 t rq, a2)]) = [(discovery_request d h, a), (activation_post E d h2 t rq, a2)]"
          using token(3) headers(3) by simp
        obtain r where "activation_answer (logged_env E) rq a2 (c2, s3, l @ (new @ new2 @ [(activation_post E d h2 t rq, a2)])) =
            (r, c2, s3, l @ (new @ new2 @ [(activation_post E d h2 t rq, a2)]))"
          "activation_protocol E d rq [(discovery_request d h, a), (activation_post E d h2 t rq, a2)] r"
          using token(4) headers(2)
          by (cases a2) (auto simp: activation_protocol_def activation_answer_def destination_down_def)
        then show ?thesis
          using that [of r c2 s3 "new @ new2 @ [(activation_post E d h2 t rq, a2)]"] full token(3) headers(3) by simp
      qed
    qed
  qed
qed

text \<open>
  C10. An activation follows its protocol: apart from token requests it sends nothing, or one discovery request, or a
  discovery and then one activation request with the CSRF token of that very discovery's answer; it reports an
  outcome only in the last case, with \<open>activated\<close> exactly for a success status. It never retries.
\<close>

theorem adt_activation_protocol:
  "case http_activate (logged_env E) rq \<lparr> ac_read_only = False \<rparr> (c, s, []) of
     (r, c', s', sent) \<Rightarrow> activation_protocol E (hc_destination c) rq (sap_log sent) r"
proof -
  obtain r c' s' new where "http_activate (logged_env E) rq \<lparr> ac_read_only = False \<rparr> (c, s, []) = (r, c', s', [] @ new)"
    "activation_protocol E (hc_destination c) rq (sap_log new) r"
    by (rule activate_logged [of c "hc_destination c" "\<lparr> ac_read_only = False \<rparr>" E rq s "[]"]) auto
  then show ?thesis by simp
qed

section \<open>The token cache\<close>

lemma token_answer_fresh:
  assumes "token_answer E ans (c, s) = (Some (Inr token), c', s')"
  obtains status shown csrf reply e where "ans = Adt_Answer status shown csrf (Inr reply)" "s' = s"
    "ae_token_response E reply = Some (token, e)" "is_success status"
    "c' = c\<lparr> hc_token := Some (token, ae_now E s + token_ttl e * second) \<rparr>"
proof (cases ans)
  case (Adt_Failed e)
  then show ?thesis using assms by (simp add: token_answer_def)
next
  case (Adt_Answer status shown csrf body)
  show ?thesis
  proof (cases body)
    case (Inl e)
    then show ?thesis using assms Adt_Answer by (simp add: token_answer_def)
  next
    case (Inr reply)
    have ok: "is_success status" "status \<noteq> 401" "status \<noteq> 403"
      using assms Adt_Answer Inr by (auto simp: token_answer_def split: if_splits)
    then obtain t e where te: "ae_token_response E reply = Some (t, e)"
      using assms Adt_Answer Inr by (auto simp: token_answer_def split: option.splits)
    then obtain expires_at where "instant_add (ae_now E s) (token_ttl e) = Some expires_at"
      using assms Adt_Answer Inr ok by (auto simp: token_answer_def split: option.splits)
    then have "expires_at = ae_now E s + token_ttl e * second" "t = token" "s' = s"
      "c' = c\<lparr> hc_token := Some (token, expires_at) \<rparr>"
      using assms Adt_Answer Inr ok te by (auto simp: token_answer_def instant_add_def split: if_splits)
    then show ?thesis using that Adt_Answer Inr te ok by blast
  qed
qed

text \<open>A token handed out is the cached one if it has not expired, or comes from one answer and is cached with its lifetime.\<close>

definition token_served ::
  "'s adt_env \<Rightarrow> adt_http \<Rightarrow> 's \<Rightarrow> string \<Rightarrow> adt_http \<Rightarrow> 's \<Rightarrow> adt_log \<Rightarrow> bool" where
  "token_served E c s token c' s' sent \<longleftrightarrow>
     (case live_token (hc_token c) (ae_now E s) of
        Some t \<Rightarrow> sent = [] \<and> c' = c \<and> s' = s \<and> token = t
      | None \<Rightarrow> (\<exists>key status shown csrf reply e.
              sent = [(token_request key, Adt_Answer status shown csrf (Inr reply))] \<and> is_success status \<and>
              ae_token_response E reply = Some (token, e) \<and>
              c' = c\<lparr> hc_token := Some (token, ae_now E s' + token_ttl e * second) \<rparr>))"

lemma service_key_token_served:
  assumes "service_key_token (logged_env E) path (c, s, l) = (Some (Inr token), c', s', l')"
  shows "\<exists>sent. l' = l @ sent \<and> token_served E c s token c' s' sent"
proof (cases "live_token (hc_token c) (ae_now E s)")
  case (Some t)
  then have "t = token \<and> c' = c \<and> s' = s \<and> l' = l"
    using assms unfolding service_key_token_def by simp
  then show ?thesis using Some by (simp add: token_served_def)
next
  case None
  then obtain key where run: "bind_run (send_request (logged_env E) (token_request key)) (token_answer (logged_env E)) (c, s, l) =
      (Some (Inr token), c', s', l')"
    using assms unfolding service_key_token_def by (auto split: sum.splits option.splits)
  obtain ans s1 where send: "send_request (logged_env E) (token_request key) (c, s, l) = (Some (Inr ans), c, s1, l @ [(token_request key, ans)])"
    by (rule send_logged)
  have "token_answer (logged_env E) ans (c, s1, l @ [(token_request key, ans)]) = (Some (Inr token), c', s', l')"
    using run bind_value [where m = "send_request (logged_env E) (token_request key)" and f = "token_answer (logged_env E)", OF send] by simp
  then obtain status shown csrf reply e where "ans = Adt_Answer status shown csrf (Inr reply)" "s' = s1"
    "l' = l @ [(token_request key, ans)]" "ae_token_response E reply = Some (token, e)" "is_success status"
    "c' = c\<lparr> hc_token := Some (token, ae_now E s1 + token_ttl e * second) \<rparr>"
    by (rule token_answer_fresh) auto
  then show ?thesis
    using None unfolding token_served_def by (intro exI [of _ "[(token_request key, ans)]"]) auto
qed

text \<open>The service key's source keeps the contract of a token source.\<close>

interpretation service_key_source: token_source
    "service_key_token (logged_env E) path" "\<lambda>(c, s, l). hc_token c" "\<lambda>(c, s, l). ae_now E s" "\<lambda>(c, s, l). length l" "\<lambda>_. True"
proof (unfold_locales, goal_cases)
  case (1 st t)
  then show ?case by (cases st) (simp add: service_key_token_def)
next
  case (2 st t st')
  obtain c s l c' s' l' where st: "st = (c, s, l)" "st' = (c', s', l')" by (cases st, cases st') auto
  have none: "live_token (hc_token c) (ae_now E s) = None" using 2(2) by (simp add: st)
  obtain new where new: "l' = l @ new" "token_served E c s t c' s' new"
    using service_key_token_served [OF 2(3) [unfolded st]] by auto
  obtain key status shown csrf reply e where e: "new = [(token_request key, Adt_Answer status shown csrf (Inr reply))]"
    "c' = c\<lparr> hc_token := Some (t, ae_now E s' + token_ttl e * second) \<rparr>"
    using new(2) unfolding token_served_def none option.case by blast
  have "hc_token c' = Some (t, ae_now E s' + token_ttl e * second)" by (simp add: e(2))
  then show ?case unfolding st using new(1) e(1) by auto
qed

text \<open>
  No stale token is sent. When the headers of a request are made for a service key, the bearer token in them
  is in the cache with an expiry later than the current time, and it is the cached one if that had not
  expired, or else the one of a single token request just answered, cached for its lifetime less a minute but
  at least a second.
\<close>

lemma bearer_token_fresh:
  assumes "ad_auth (hc_destination c) = Auth_ServiceKey path"
    "base_headers (logged_env E) (c, s, []) = (Some (Inr h), c', s', sent)"
  shows "\<exists>token expires_at. map_of h ''authorization'' = Some (''Bearer '' @ token) \<and>
    hc_token c' = Some (token, expires_at) \<and> ae_now E s' < expires_at \<and> token_served E c s token c' s' sent"
proof -
  obtain client language where h: "header_value E (ad_client (hc_destination c)) = Inr client"
    "header_value E (ad_language (hc_destination c)) = Inr language"
    using assms(2) by (auto simp: base_headers_def asking_def return_adt_def split: sum.splits)
  let ?h = "[(''accept'', ''*/*''), (''x-sap-client'', client), (''x-sap-language'', language)]"
  have "bind_run (resolve_auth_header (logged_env E))
      (\<lambda>auth. return_adt (Inr (case auth of Some a \<Rightarrow> header_insert ''authorization'' a ?h | None \<Rightarrow> ?h))) (c, s, []) =
      (Some (Inr h), c', s', sent)"
    using assms(2) h by (simp add: base_headers_def asking_def Let_def)
  then obtain auth st where auth: "resolve_auth_header (logged_env E) (c, s, []) = (Some (Inr auth), st)"
    "return_adt (Inr (case auth of Some a \<Rightarrow> header_insert ''authorization'' a ?h | None \<Rightarrow> ?h)) st = (Some (Inr h), c', s', sent)"
    by (rule bind_valueE)
  have "bind_run (service_key_token (logged_env E) path)
      (\<lambda>token. return_adt (map_sum (\<lambda>e. e) Some (header_value E (''Bearer '' @ token)))) (c, s, []) = (Some (Inr auth), st)"
    using auth(1) assms(1) by (simp add: resolve_auth_header_def asking_def)
  then obtain token st1 where token: "service_key_token (logged_env E) path (c, s, []) = (Some (Inr token), st1)"
    "return_adt (map_sum (\<lambda>e. e) Some (header_value E (''Bearer '' @ token))) st1 = (Some (Inr auth), st)"
    by (rule bind_valueE)
  have bearer: "h = header_insert ''authorization'' (''Bearer '' @ token) ?h" "st1 = (c', s', sent)"
    using auth(2) token(2) by (auto simp: return_adt_def header_value_def split: option.splits)
  have served: "token_served E c s token c' s' sent"
    using service_key_token_served [OF token(1) [unfolded bearer(2)]] by simp
  have "\<exists>expires_at. hc_token c' = Some (token, expires_at) \<and> ae_now E s' < expires_at"
    using service_key_source.returned_live [OF _ token(1)] bearer(2) by (simp add: live_token_Some)
  then show ?thesis
    using served bearer(1) by (auto simp: header_insert_def)
qed

section \<open>Both clients refuse to activate in read-only mode\<close>

interpretation http_gate: activation_gate "http_activate E"
  by unfold_locales (simp add: http_activate_def asking_def return_adt_def split: prod.splits)

text \<open>An issued lifetime past the range of the clock stops the task: \<open>Instant + Duration\<close> panics.\<close>

lemma huge_lifetime_panics:
  assumes "ae_token_response E reply = Some (token, Some n)" "2 ^ 63 + 60 \<le> n"
  shows "token_answer E (Adt_Answer 200 shown csrf (Inr reply)) (c, s) = (None, c, s)"
  using assms by (simp add: token_answer_def is_success_def token_ttl_def instant_add_def)

end
