(* ===== verification/Graph_Search.thy ===== *)
theory Graph_Search
  imports Graph_Store
begin

text \<open>
  Personalised PageRank over the knowledge graph (\<open>sap-automate-graph/src/ppr.rs\<close>): the power iteration with
  restart, the hop distances by breadth-first search, and the multi-hop search over both. The float
  operations and the iteration orders of the hash maps are parameters. What is shown: the hop counts are the
  distances from the seeds up to the budget, and over exact arithmetic the iteration keeps a probability
  distribution.
\<close>

section \<open>Configuration and results\<close>

record 'f ppr_config =
  pc_alpha :: 'f
  pc_max_iterations :: nat
  pc_tolerance :: 'f
  pc_max_hops :: nat

definition ppr_default :: "'f f32_ops \<Rightarrow> 'f ppr_config" where
  "ppr_default F = \<lparr> pc_alpha = f_rat F (15, 100), pc_max_iterations = 50, pc_tolerance = f_rat F (1, 100000), pc_max_hops = 4 \<rparr>"

record 'f ppr_hit =
  ph_id :: string
  ph_score :: 'f
  ph_hops :: nat

record 'f ppr_result =
  pr_seeds :: "string list"
  pr_ranked :: "'f ppr_hit list"
  pr_iterations :: nat

section \<open>Hop distances\<close>

abbreviation u32_max :: nat where
  "u32_max \<equiv> 4294967295"

type_synonym 'f neighbour_lists = "(nat \<times> 'f) list list"

definition bfs_visit :: "nat \<Rightarrow> nat \<Rightarrow> nat list \<times> nat list \<Rightarrow> nat list \<times> nat list" where
  "bfs_visit depth j = (\<lambda>(hops, next_frontier).
     if hops ! j = u32_max then (hops[j := depth + 1], next_frontier @ [j]) else (hops, next_frontier))"

definition bfs_layer :: "'f neighbour_lists \<Rightarrow> nat \<Rightarrow> nat list \<Rightarrow> nat list \<Rightarrow> nat list \<times> nat list" where
  "bfs_layer neighbours depth frontier hops =
     fold (\<lambda>i. fold (\<lambda>(j, _). bfs_visit depth j) (neighbours ! i)) frontier (hops, [])"

text \<open>The loop, over the hops that are left in the budget.\<close>

fun bfs_loop :: "'f neighbour_lists \<Rightarrow> nat \<Rightarrow> nat \<Rightarrow> nat list \<Rightarrow> nat list \<Rightarrow> nat list" where
  "bfs_loop neighbours 0 depth frontier hops = hops"
| "bfs_loop neighbours (Suc left) depth frontier hops =
     (if frontier = [] then hops
      else (case bfs_layer neighbours depth frontier hops of (hops', frontier') \<Rightarrow>
              bfs_loop neighbours left (depth + 1) frontier' hops'))"

definition bfs_hops :: "'f neighbour_lists \<Rightarrow> nat list \<Rightarrow> nat \<Rightarrow> nat list" where
  "bfs_hops neighbours seeds max_hops =
     bfs_loop neighbours max_hops 0 seeds
       (fold (\<lambda>s hops. hops[s := 0]) seeds (replicate (length neighbours) u32_max))"

section \<open>The power iteration\<close>

definition vec_add :: "'f f32_ops \<Rightarrow> nat \<Rightarrow> 'f \<Rightarrow> 'f list \<Rightarrow> 'f list" where
  "vec_add F j v xs = xs[j := f_add F (xs ! j) v]"

definition spread_mass ::
  "'f f32_ops \<Rightarrow> 'f \<Rightarrow> 'f neighbour_lists \<Rightarrow> 'f list \<Rightarrow> 'f list \<Rightarrow> nat \<Rightarrow> 'f list \<Rightarrow> 'f list" where
  "spread_mass F alpha neighbours out_weight p i next =
     (if f_le F (out_weight ! i) (f_rat F (0, 1)) \<or> f_eq F (p ! i) (f_rat F (0, 1)) then next
      else (let outgoing = f_mul F (f_sub F (f_rat F (1, 1)) alpha) (p ! i)
            in fold (\<lambda>(j, w). vec_add F j (f_mul F outgoing (f_div F w (out_weight ! i)))) (neighbours ! i) next))"

definition restart_mass ::
  "'f f32_ops \<Rightarrow> 'f \<Rightarrow> 'f list \<Rightarrow> 'f list \<Rightarrow> 'f list \<Rightarrow> nat \<Rightarrow> 'f list \<Rightarrow> 'f list" where
  "restart_mass F alpha out_weight teleport p i next =
     (let next = vec_add F i (f_mul F alpha (teleport ! i)) next in
      if f_le F (out_weight ! i) (f_rat F (0, 1)) \<and> f_gt F (p ! i) (f_rat F (0, 1))
      then (let dangling = f_mul F (f_sub F (f_rat F (1, 1)) alpha) (p ! i)
            in fold (\<lambda>j. vec_add F j (f_mul F dangling (teleport ! j))) [0..<length p] next)
      else next)"

definition ppr_step ::
  "'f f32_ops \<Rightarrow> 'f \<Rightarrow> 'f neighbour_lists \<Rightarrow> 'f list \<Rightarrow> 'f list \<Rightarrow> 'f list \<Rightarrow> 'f list" where
  "ppr_step F alpha neighbours out_weight teleport p =
     fold (restart_mass F alpha out_weight teleport p) [0..<length p]
       (fold (spread_mass F alpha neighbours out_weight p) [0..<length p] (replicate (length p) (f_rat F (0, 1))))"

definition l1_delta :: "'f f32_ops \<Rightarrow> 'f list \<Rightarrow> 'f list \<Rightarrow> 'f" where
  "l1_delta F p q = f_sum F (map (\<lambda>(a, b). f_abs F (f_sub F a b)) (zip p q))"

fun ppr_loop ::
  "'f f32_ops \<Rightarrow> 'f ppr_config \<Rightarrow> 'f neighbour_lists \<Rightarrow> 'f list \<Rightarrow> 'f list \<Rightarrow> nat \<Rightarrow> nat \<Rightarrow> 'f list \<Rightarrow> 'f list \<times> nat" where
  "ppr_loop F cfg neighbours out_weight teleport 0 iterations p = (p, iterations)"
| "ppr_loop F cfg neighbours out_weight teleport (Suc left) iterations p =
     (let next = ppr_step F (pc_alpha cfg) neighbours out_weight teleport p
      in if f_lt F (l1_delta F p next) (pc_tolerance cfg) then (next, iterations + 1)
         else ppr_loop F cfg neighbours out_weight teleport left (iterations + 1) next)"

definition index_of :: "string list \<Rightarrow> string \<Rightarrow> nat option" where
  "index_of node_ids i = map_of (zip node_ids [0..<length node_ids]) i"

definition neighbour_lists ::
  "'f f32_ops \<Rightarrow> (string \<times> 'f) order \<Rightarrow> 'f in_memory_graph \<Rightarrow> string list \<Rightarrow> 'f neighbour_lists" where
  "neighbour_lists F itn g node_ids = map (\<lambda>i. List.map_filter (\<lambda>(n, w).
     (case index_of node_ids n of None \<Rightarrow> None | Some j \<Rightarrow> Some (j, w))) (undirected_neighbours F itn g i)) node_ids"

definition out_weights :: "'f f32_ops \<Rightarrow> 'f neighbour_lists \<Rightarrow> 'f list" where
  "out_weights F neighbours = map (\<lambda>ns. f_sum F (map snd ns)) neighbours"

definition seed_vector :: "'f f32_ops \<Rightarrow> nat \<Rightarrow> nat list \<Rightarrow> 'f list" where
  "seed_vector F n seed_indices =
     (let seed_share = f_div F (f_rat F (1, 1)) (f_nat F (length seed_indices))
      in fold (\<lambda>i p. p[i := seed_share]) seed_indices (replicate n (f_rat F (0, 1))))"

definition personalised_pagerank ::
  "'f f32_ops \<Rightarrow> entity order \<Rightarrow> (string \<times> 'f) order \<Rightarrow> 'f in_memory_graph \<Rightarrow> string list \<Rightarrow> 'f ppr_config \<Rightarrow> 'f ppr_result" where
  "personalised_pagerank F ite itn g seeds cfg =
     (if seeds = [] then \<lparr> pr_seeds = [], pr_ranked = [], pr_iterations = 0 \<rparr>
      else
        (let node_ids = map e_id (ite (map snd (g_nodes g)));
             neighbours = neighbour_lists F itn g node_ids;
             out_weight = out_weights F neighbours;
             seed_indices = List.map_filter (index_of node_ids) seeds
         in if seed_indices = [] then \<lparr> pr_seeds = seeds, pr_ranked = [], pr_iterations = 0 \<rparr>
            else
              (let teleport = seed_vector F (length node_ids) seed_indices in
               case ppr_loop F cfg neighbours out_weight teleport (pc_max_iterations cfg) 0 teleport of (p, iterations) \<Rightarrow>
                 let hops = bfs_hops neighbours seed_indices (pc_max_hops cfg);
                     ranked = rank_desc F ph_score (map (\<lambda>i.
                       \<lparr> ph_id = node_ids ! i, ph_score = p ! i, ph_hops = hops ! i \<rparr>) [0..<length node_ids])
                 in \<lparr> pr_seeds = seeds, pr_ranked = ranked, pr_iterations = iterations \<rparr>)))"

definition multi_hop_search ::
  "'f f32_ops \<Rightarrow> (string \<Rightarrow> string) \<Rightarrow> entity order \<Rightarrow> (string \<times> 'f) order \<Rightarrow> 'f in_memory_graph \<Rightarrow> string \<Rightarrow> nat
     \<Rightarrow> 'f ppr_config \<Rightarrow> nat \<Rightarrow> 'f ppr_result" where
  "multi_hop_search F lower ite itn g query max_seeds cfg top_k =
     (let seeds = find_seeds lower ite g query max_seeds;
          result = personalised_pagerank F ite itn g seeds cfg
      in result\<lparr> pr_ranked := take top_k (filter (\<lambda>h. ph_hops h \<le> pc_max_hops cfg) (pr_ranked result)) \<rparr>)"

section \<open>Hop counts are distances\<close>

text \<open>The nodes within \<open>k\<close> steps of the seeds.\<close>

primrec ball :: "'f neighbour_lists \<Rightarrow> nat set \<Rightarrow> nat \<Rightarrow> nat set" where
  "ball nb S 0 = S"
| "ball nb S (Suc k) = ball nb S k \<union> {j. \<exists>i \<in> ball nb S k. j \<in> fst ` set (nb ! i)}"

definition nb_ok :: "'f neighbour_lists \<Rightarrow> bool" where
  "nb_ok nb \<longleftrightarrow> (\<forall>ns \<in> set nb. fst ` set ns \<subseteq> {..<length nb})"

lemma ball_mono: "k \<le> l \<Longrightarrow> ball nb S k \<subseteq> ball nb S l"
  by (induction l) (auto simp: le_Suc_eq)

lemma ball_bound: "nb_ok nb \<Longrightarrow> S \<subseteq> {..<length nb} \<Longrightarrow> ball nb S k \<subseteq> {..<length nb}"
proof (induction k)
  case (Suc k)
  then have IH: "ball nb S k \<subseteq> {..<length nb}" by simp
  have "j < length nb" if "i \<in> ball nb S k" "j \<in> fst ` set (nb ! i)" for i j
  proof -
    have "nb ! i \<in> set nb" using that(1) IH by auto
    then show ?thesis using that(2) Suc.prems(1) unfolding nb_ok_def by blast
  qed
  then show ?case using IH by auto
qed simp

lemma ball_stable: "ball nb S (Suc k) = ball nb S k \<Longrightarrow> ball nb S (k + m) = ball nb S k"
  by (induction m) auto

text \<open>One visit, one node's neighbours and one frontier mark exactly the unmarked nodes they reach.\<close>

definition marked :: "nat \<Rightarrow> nat set \<Rightarrow> nat list \<Rightarrow> nat list" where
  "marked d A hops = map (\<lambda>(j, h). if h = u32_max \<and> j \<in> A then d + 1 else h) (enumerate 0 hops)"

lemma marked_nth: "j < length hops \<Longrightarrow> marked d A hops ! j = (if hops ! j = u32_max \<and> j \<in> A then d + 1 else hops ! j)"
  by (simp add: marked_def nth_enumerate_eq)

lemma length_marked [simp]: "length (marked d A hops) = length hops"
  by (simp add: marked_def)

text \<open>The state of a layer: the nodes of \<open>A\<close> visited so far.\<close>

definition layer_state :: "nat \<Rightarrow> nat list \<Rightarrow> nat set \<Rightarrow> nat list \<times> nat list \<Rightarrow> bool" where
  "layer_state d hops A st \<longleftrightarrow> fst st = marked d A hops \<and> set (snd st) = {j \<in> A. hops ! j = u32_max}"

lemma bfs_visit_state:
  assumes "layer_state d hops A st" "j < length hops" "d + 1 < u32_max"
  shows "layer_state d hops (insert j A) (bfs_visit d j st)"
proof -
  obtain h nf where st: "st = (h, nf)" by (cases st)
  have h: "h = marked d A hops" "set nf = {j \<in> A. hops ! j = u32_max}"
    using assms(1) by (simp_all add: layer_state_def st)
  show ?thesis
  proof (cases "hops ! j = u32_max \<and> j \<notin> A")
    case True
    then have "marked d A hops ! j = u32_max"
      using assms(2) by (simp add: marked_nth)
    moreover have "(marked d A hops)[j := d + 1] = marked d (insert j A) hops"
      using True assms(2) by (intro nth_equalityI) (auto simp: marked_nth nth_list_update)
    ultimately show ?thesis
      using True h by (auto simp: layer_state_def st bfs_visit_def)
  next
    case False
    then have "marked d A hops ! j \<noteq> u32_max"
      using assms(2,3) by (auto simp: marked_nth)
    moreover have "marked d A hops = marked d (insert j A) hops"
      using False by (intro nth_equalityI) (auto simp: marked_nth)
    ultimately show ?thesis
      using False h by (auto simp: layer_state_def st bfs_visit_def)
  qed
qed

lemma bfs_visits_state:
  assumes "layer_state d hops A st" "fst ` set ns \<subseteq> {..<length hops}" "d + 1 < u32_max"
  shows "layer_state d hops (A \<union> fst ` set ns) (fold (\<lambda>(j, _). bfs_visit d j) ns st)"
  using assms(1,2)
proof (induction ns arbitrary: A st)
  case (Cons x ns)
  have "layer_state d hops (insert (fst x) A) (bfs_visit d (fst x) st)"
    using bfs_visit_state [OF Cons.prems(1) _ assms(3)] Cons.prems(2) by simp
  from Cons.IH [OF this] Cons.prems(2) show ?case by (simp add: split_def)
qed simp

lemma bfs_layer_state:
  assumes "\<And>i. i \<in> set frontier \<Longrightarrow> fst ` set (nb ! i) \<subseteq> {..<length hops}" "d + 1 < u32_max"
  shows "layer_state d hops (\<Union>i \<in> set frontier. fst ` set (nb ! i)) (bfs_layer nb d frontier hops)"
proof -
  have "layer_state d hops A st \<Longrightarrow> (\<And>i. i \<in> set xs \<Longrightarrow> fst ` set (nb ! i) \<subseteq> {..<length hops}) \<Longrightarrow>
      layer_state d hops (A \<union> (\<Union>i \<in> set xs. fst ` set (nb ! i))) (fold (\<lambda>i. fold (\<lambda>(j, _). bfs_visit d j) (nb ! i)) xs st)" for xs A st
  proof (induction xs arbitrary: A st)
    case (Cons x xs)
    have "layer_state d hops (A \<union> fst ` set (nb ! x)) (fold (\<lambda>(j, _). bfs_visit d j) (nb ! x) st)"
      by (rule bfs_visits_state [OF Cons.prems(1) _ assms(2)]) (rule Cons.prems(2), simp)
    from Cons.IH [OF this] Cons.prems(2) show ?case by (simp add: Un_assoc)
  qed simp
  moreover have "layer_state d hops {} (hops, [])"
    by (auto simp: layer_state_def marked_nth intro!: nth_equalityI)
  ultimately have "layer_state d hops ({} \<union> (\<Union>i \<in> set frontier. fst ` set (nb ! i)))
      (fold (\<lambda>i. fold (\<lambda>(j, _). bfs_visit d j) (nb ! i)) frontier (hops, []))"
    using assms(1) by blast
  then show ?thesis by (simp add: bfs_layer_def)
qed

text \<open>At depth \<open>d\<close> the marks up to \<open>d\<close> are the distances and the frontier is the sphere at \<open>d\<close>.\<close>

definition bfs_inv :: "'f neighbour_lists \<Rightarrow> nat set \<Rightarrow> nat \<Rightarrow> nat list \<Rightarrow> nat list \<Rightarrow> bool" where
  "bfs_inv nb S d frontier hops \<longleftrightarrow> length hops = length nb \<and>
     (\<forall>j < length nb. (\<forall>k \<le> d. hops ! j \<le> k \<longleftrightarrow> j \<in> ball nb S k) \<and> (hops ! j \<le> d \<or> hops ! j = u32_max)) \<and>
     set frontier = {j. j < length nb \<and> hops ! j = d}"

lemma bfs_invD:
  assumes "bfs_inv nb S d frontier hops"
  shows "length hops = length nb" "j < length nb \<Longrightarrow> k \<le> d \<Longrightarrow> hops ! j \<le> k \<longleftrightarrow> j \<in> ball nb S k"
    "j < length nb \<Longrightarrow> hops ! j \<le> d \<or> hops ! j = u32_max" "j \<in> set frontier \<longleftrightarrow> j < length nb \<and> hops ! j = d"
  using assms unfolding bfs_inv_def by blast+

lemma frontier_step:
  assumes "bfs_inv nb S d frontier hops" "nb_ok nb" "S \<subseteq> {..<length nb}" "d < u32_max"
  shows "ball nb S (Suc d) = ball nb S d \<union> (\<Union>i \<in> set frontier. fst ` set (nb ! i))"
proof
  show "ball nb S (Suc d) \<subseteq> ball nb S d \<union> (\<Union>i \<in> set frontier. fst ` set (nb ! i))"
  proof
    fix j assume "j \<in> ball nb S (Suc d)"
    then consider "j \<in> ball nb S d" | i where "i \<in> ball nb S d" "j \<in> fst ` set (nb ! i)" by auto
    then show "j \<in> ball nb S d \<union> (\<Union>i \<in> set frontier. fst ` set (nb ! i))"
    proof cases
      case 2
      have i: "i < length nb" using 2(1) ball_bound [OF assms(2,3)] by auto
      then have "hops ! i \<le> d" using 2(1) bfs_invD(2) [OF assms(1)] by simp
      then consider "hops ! i = d" | "hops ! i < d" by linarith
      then show ?thesis
      proof cases
        case 1
        then have "i \<in> set frontier" using i bfs_invD(4) [OF assms(1)] by simp
        then show ?thesis using 2(2) by blast
      next
        case lt: 2
        then have "i \<in> ball nb S (hops ! i)" using i bfs_invD(2) [OF assms(1) i, of "hops ! i"] by simp
        then have "j \<in> ball nb S (Suc (hops ! i))" using 2(2) by auto
        then show ?thesis using ball_mono [of "Suc (hops ! i)" d nb S] lt by (meson Suc_leI UnI1 subsetD)
      qed
    qed blast
  qed
  have "set frontier \<subseteq> ball nb S d" using bfs_invD(2,4) [OF assms(1)] by (metis order_refl subsetI)
  then show "ball nb S d \<union> (\<Union>i \<in> set frontier. fst ` set (nb ! i)) \<subseteq> ball nb S (Suc d)" by auto
qed

lemma bfs_inv_step:
  assumes "bfs_inv nb S d frontier hops" "nb_ok nb" "S \<subseteq> {..<length nb}" "d + 1 < u32_max"
    "bfs_layer nb d frontier hops = (hops', frontier')"
  shows "bfs_inv nb S (d + 1) frontier' hops'"
proof -
  define N where "N = (\<Union>i \<in> set frontier. fst ` set (nb ! i))"
  have len: "length hops = length nb" using assms(1) by (simp add: bfs_inv_def)
  have "fst ` set (nb ! i) \<subseteq> {..<length hops}" if "i \<in> set frontier" for i
  proof -
    have "nb ! i \<in> set nb" using that bfs_invD(4) [OF assms(1)] by simp
    then show ?thesis using assms(2) len by (simp add: nb_ok_def)
  qed
  then have "layer_state d hops N (hops', frontier')"
    unfolding N_def assms(5) [symmetric] using assms(4) by (intro bfs_layer_state)
  then have l: "hops' = marked d N hops" "set frontier' = {j \<in> N. hops ! j = u32_max}"
    by (simp_all add: layer_state_def)
  have ball: "ball nb S (Suc d) = ball nb S d \<union> N"
    unfolding N_def using frontier_step [OF assms(1-3)] assms(4) by linarith
  have N: "N \<subseteq> {..<length nb}"
    using ball ball_bound [OF assms(2,3), of "Suc d"] by blast
  have at: "hops' ! j = (if hops ! j = u32_max \<and> j \<in> N then d + 1 else hops ! j)" if "j < length nb" for j
    using l(1) that len by (simp add: marked_nth)
  have old: "(\<forall>k \<le> d. hops ! j \<le> k \<longleftrightarrow> j \<in> ball nb S k)" "hops ! j \<le> d \<or> hops ! j = u32_max" if "j < length nb" for j
    using bfs_invD [OF assms(1)] that by blast+
  have "(\<forall>k \<le> d + 1. hops' ! j \<le> k \<longleftrightarrow> j \<in> ball nb S k) \<and> (hops' ! j \<le> d + 1 \<or> hops' ! j = u32_max)" if j: "j < length nb" for j
  proof -
    have "hops' ! j \<le> k \<longleftrightarrow> j \<in> ball nb S k" if "k \<le> d + 1" for k
    proof (cases "k \<le> d")
      case True
      then show ?thesis using at [OF j] old [OF j] assms(4) by auto
    next
      case False
      then have k: "k = Suc d" using that by simp
      show ?thesis unfolding k ball using at [OF j] old [OF j] assms(4) by auto
    qed
    moreover have "hops' ! j \<le> d + 1 \<or> hops' ! j = u32_max"
      using at [OF j] old(2) [OF j] by (cases "hops ! j = u32_max \<and> j \<in> N") auto
    ultimately show ?thesis by blast
  qed
  moreover have "set frontier' = {j. j < length nb \<and> hops' ! j = d + 1}"
  proof -
    have "j \<in> N \<and> hops ! j = u32_max \<longleftrightarrow> j < length nb \<and> hops' ! j = d + 1" for j
    proof (cases "j \<in> N \<and> hops ! j = u32_max")
      case True
      then have "j < length nb" using N by blast
      then show ?thesis using True at [of j] by simp
    next
      case False
      have "hops' ! j \<noteq> d + 1" if "j < length nb"
        using False at [OF that] old(2) [OF that] assms(4) by presburger
      then show ?thesis using False by blast
    qed
    then show ?thesis using l(2) by blast
  qed
  moreover have "length hops' = length nb" using l(1) len by simp
  ultimately show ?thesis unfolding bfs_inv_def by blast
qed

lemma bfs_loop_distances:
  "bfs_inv nb S d frontier hops \<Longrightarrow> nb_ok nb \<Longrightarrow> S \<subseteq> {..<length nb} \<Longrightarrow> d + left < u32_max \<Longrightarrow>
    length (bfs_loop nb left d frontier hops) = length nb \<and>
    (\<forall>j < length nb. (\<forall>k \<le> d + left. bfs_loop nb left d frontier hops ! j \<le> k \<longleftrightarrow> j \<in> ball nb S k) \<and>
      (bfs_loop nb left d frontier hops ! j \<le> d + left \<or> bfs_loop nb left d frontier hops ! j = u32_max))"
proof (induction nb left d frontier hops rule: bfs_loop.induct)
  case (1 nb d frontier hops)
  then show ?case using bfs_invD [OF 1(1)] by auto
next
  case (2 nb left d frontier hops)
  show ?case
  proof (cases "frontier = []")
    case True
    have st: "ball nb S (d + m) = ball nb S d" for m
      using frontier_step [OF 2(2-4)] 2(5) True by (intro ball_stable) simp
    have "hops ! j \<le> k \<longleftrightarrow> j \<in> ball nb S k" if "j < length nb" "k \<le> d + Suc left" for j k
    proof (cases "k \<le> d")
      case True
      then show ?thesis using that bfs_invD(2) [OF 2(2)] by blast
    next
      case False
      then have "ball nb S k = ball nb S d" using st [of "k - d"] by simp
      moreover have "hops ! j \<le> k \<longleftrightarrow> hops ! j \<le> d"
        using that(2) 2(5) False bfs_invD(3) [OF 2(2) that(1)] by linarith
      ultimately show ?thesis using bfs_invD(2) [OF 2(2) that(1), of d] by blast
    qed
    moreover have "hops ! j \<le> d + Suc left \<or> hops ! j = u32_max" if "j < length nb" for j
      using bfs_invD(3) [OF 2(2) that] by linarith
    moreover have "bfs_loop nb (Suc left) d frontier hops = hops" using True by simp
    ultimately show ?thesis using bfs_invD(1) [OF 2(2)] by presburger
  next
    case False
    obtain hops' frontier' where l: "bfs_layer nb d frontier hops = (hops', frontier')" by fastforce
    have "bfs_inv nb S (d + 1) frontier' hops'"
      using bfs_inv_step [OF 2(2-4) _ l] 2(5) by simp
    note IH = 2(1) [OF False l [symmetric] this 2(3,4)]
    have "bfs_loop nb (Suc left) d frontier hops = bfs_loop nb left (d + 1) frontier' hops'"
      using False l by simp
    moreover have "d + 1 + left = d + Suc left" by simp
    ultimately show ?thesis using IH 2(5) by presburger
  qed
qed

lemma seed_hops:
  "set seeds \<subseteq> {..<n} \<Longrightarrow> length hs = n \<Longrightarrow>
    length (fold (\<lambda>s hops. hops[s := 0]) seeds hs) = n \<and>
    (\<forall>j < n. fold (\<lambda>s hops. hops[s := (0::nat)]) seeds hs ! j = (if j \<in> set seeds then 0 else hs ! j))"
  by (induction seeds arbitrary: hs) (auto simp: nth_list_update)

lemma bfs_hops_distances:
  assumes "nb_ok nb" "set seeds \<subseteq> {..<length nb}" "m < u32_max"
  shows "length (bfs_hops nb seeds m) = length nb"
    "j < length nb \<Longrightarrow> k \<le> m \<Longrightarrow> bfs_hops nb seeds m ! j \<le> k \<longleftrightarrow> j \<in> ball nb (set seeds) k"
    "j < length nb \<Longrightarrow> bfs_hops nb seeds m ! j \<le> m \<or> bfs_hops nb seeds m ! j = u32_max"
proof -
  let ?h = "fold (\<lambda>s hops. hops[s := 0]) seeds (replicate (length nb) u32_max)"
  have h: "length ?h = length nb" "\<forall>j < length nb. ?h ! j = (if j \<in> set seeds then 0 else u32_max)"
    using seed_hops [OF assms(2), of "replicate (length nb) u32_max"] by simp_all
  have "bfs_inv nb (set seeds) 0 seeds ?h"
    unfolding bfs_inv_def using h assms(2) by (auto split: if_splits)
  note B = bfs_loop_distances [OF this assms(1,2), of m]
  then show "length (bfs_hops nb seeds m) = length nb"
    "j < length nb \<Longrightarrow> k \<le> m \<Longrightarrow> bfs_hops nb seeds m ! j \<le> k \<longleftrightarrow> j \<in> ball nb (set seeds) k"
    "j < length nb \<Longrightarrow> bfs_hops nb seeds m ! j \<le> m \<or> bfs_hops nb seeds m ! j = u32_max"
    using assms(3) unfolding bfs_hops_def add_0 by blast+
qed

section \<open>Mass\<close>

text \<open>A vector of \<open>n\<close> non-negative masses with a given sum.\<close>

definition mass :: "nat \<Rightarrow> rat list \<Rightarrow> rat \<Rightarrow> bool" where
  "mass n p m \<longleftrightarrow> length p = n \<and> (\<forall>x \<in> set p. 0 \<le> x) \<and> sum_list p = m"

lemma sum_list_update_add: "j < length xs \<Longrightarrow> sum_list (xs[j := xs ! j + v]) = sum_list xs + (v :: rat)"
proof (induction xs arbitrary: j)
  case (Cons x xs)
  then show ?case by (cases j) auto
qed simp

lemma mass_add: "mass n p m \<Longrightarrow> j < n \<Longrightarrow> 0 \<le> v \<Longrightarrow> mass n (vec_add rat_ops j v p) (m + v)"
  using set_update_subset_insert [of p j "p ! j + v"] nth_mem [of j p]
  by (auto simp: mass_def vec_add_def sum_list_update_add)

lemma mass_fold:
  assumes "\<And>x. x \<in> set xs \<Longrightarrow> idx x < n \<and> 0 \<le> val x"
  shows "mass n p m \<Longrightarrow> mass n (fold (\<lambda>x. vec_add rat_ops (idx x) (val x)) xs p) (m + sum_list (map val xs))"
  using assms
proof (induction xs arbitrary: p m)
  case (Cons x xs)
  then have "mass n (vec_add rat_ops (idx x) (val x) p) (m + val x)"
    by (simp add: mass_add)
  from Cons.IH [OF this] Cons.prems(2) show ?case by (simp add: add.assoc)
qed simp

definition weights_ok :: "rat neighbour_lists \<Rightarrow> bool" where
  "weights_ok nb \<longleftrightarrow> (\<forall>ns \<in> set nb. \<forall>x \<in> set ns. 0 \<le> snd x)"

lemma sum_list_scaled: "sum_list (map (\<lambda>x. c * (f x / d)) xs) = c * (sum_list (map f xs) / d :: rat)"
  by (induction xs) (simp_all add: distrib_left add_divide_distrib)

lemma spread_mass:
  assumes "nb_ok nb" "weights_ok nb" "0 \<le> a" "a \<le> 1" "\<forall>x \<in> set p. 0 \<le> x" "length p = length nb" "i < length nb" "mass (length nb) q m"
  shows "mass (length nb) (spread_mass rat_ops a nb (out_weights rat_ops nb) p i q)
    (m + (if out_weights rat_ops nb ! i \<le> 0 then 0 else (1 - a) * p ! i))"
proof (cases "out_weights rat_ops nb ! i \<le> 0 \<or> p ! i = 0")
  case True
  then show ?thesis using assms(8) by (auto simp: spread_mass_def Fract_of_int_quotient)
next
  case False
  let ?w = "out_weights rat_ops nb ! i"
  let ?o = "(1 - a) * p ! i"
  have w: "?w = sum_list (map snd (nb ! i))"
    using assms(7) by (simp add: out_weights_def f_sum_rat)
  have ns: "nb ! i \<in> set nb" using assms(7) by simp
  have p: "0 \<le> p ! i" using assms(5-7) by simp
  have "fst x < length nb \<and> 0 \<le> ?o * (snd x / ?w)" if "x \<in> set (nb ! i)" for x
    using that ns assms(1-4) False p by (auto simp: nb_ok_def weights_ok_def intro!: mult_nonneg_nonneg divide_nonneg_nonneg)
  from mass_fold [of "nb ! i" fst "length nb" "\<lambda>x. ?o * (snd x / ?w)", OF this assms(8)]
  have "mass (length nb) (fold (\<lambda>x. vec_add rat_ops (fst x) (?o * (snd x / ?w))) (nb ! i) q) (m + ?o * (?w / ?w))"
    unfolding sum_list_scaled w .
  then show ?thesis
    using False by (simp add: spread_mass_def split_def Fract_of_int_quotient)
qed

lemma restart_mass:
  assumes "0 \<le> a" "a \<le> 1" "\<forall>x \<in> set p. 0 \<le> x" "length p = n" "i < n" "mass n tele 1" "mass n q m"
  shows "mass n (restart_mass rat_ops a ow tele p i q) (m + a * tele ! i + (if ow ! i \<le> 0 then (1 - a) * p ! i else 0))"
proof -
  have t: "0 \<le> tele ! j" if "j < n" for j using that assms(6) by (simp add: mass_def)
  have p: "0 \<le> p ! i" using assms(3-5) by simp
  have q: "mass n (vec_add rat_ops i (a * tele ! i) q) (m + a * tele ! i)"
    using assms t by (intro mass_add) auto
  show ?thesis
  proof (cases "ow ! i \<le> 0 \<and> 0 < p ! i")
    case False
    then show ?thesis using q p by (auto simp: restart_mass_def Fract_of_int_quotient)
  next
    case True
    let ?d = "(1 - a) * p ! i"
    have "j < n \<and> 0 \<le> ?d * (tele ! j / 1)" if "j \<in> set [0..<n]" for j
      using that t assms(2) True by (auto intro!: mult_nonneg_nonneg)
    from mass_fold [of "[0..<n]" "\<lambda>j. j" n "\<lambda>j. ?d * (tele ! j / 1)", OF this q]
    have "mass n (fold (\<lambda>j. vec_add rat_ops j (?d * (tele ! j / 1))) [0..<n] (vec_add rat_ops i (a * tele ! i) q))
        (m + a * tele ! i + ?d * (sum_list (map ((!) tele) [0..<n]) / 1))"
      unfolding sum_list_scaled .
    moreover have "map ((!) tele) [0..<n] = tele" "sum_list tele = 1"
      using assms(6) map_nth [of tele] by (auto simp: mass_def)
    ultimately show ?thesis
      using True assms(4) by (simp add: restart_mass_def Fract_of_int_quotient)
  qed
qed


lemma mass_steps:
  assumes "\<And>i q m. i \<in> set xs \<Longrightarrow> mass n q m \<Longrightarrow> mass n (f i q) (m + c i)"
  shows "mass n q m \<Longrightarrow> mass n (fold f xs q) (m + sum_list (map c xs))"
  using assms
proof (induction xs arbitrary: q m)
  case (Cons x xs)
  have "mass n (f x q) (m + c x)" using Cons.prems by simp
  from Cons.IH [OF this] Cons.prems(2) show ?case by (simp add: add.assoc)
qed simp

lemma sum_list_split:
  "sum_list (map (\<lambda>i. if P i then 0 else c * f i) xs) + (sum_list (map (\<lambda>i. a * g i + (if P i then c * f i else 0)) xs))
    = c * sum_list (map f xs) + a * sum_list (map g xs :: rat list)"
  by (induction xs) (simp_all add: distrib_left)

lemma ppr_step_mass:
  assumes "nb_ok nb" "weights_ok nb" "0 \<le> a" "a \<le> 1" "mass (length nb) tele 1" "mass (length nb) p 1"
  shows "mass (length nb) (ppr_step rat_ops a nb (out_weights rat_ops nb) tele p) 1"
proof -
  let ?n = "length nb"
  let ?ow = "out_weights rat_ops nb"
  have p: "length p = ?n" "\<forall>x \<in> set p. 0 \<le> x" "sum_list p = 1" using assms(6) by (simp_all add: mass_def)
  have "mass ?n (replicate ?n 0) 0"
    by (simp add: mass_def sum_list_replicate)
  then have "mass ?n (fold (spread_mass rat_ops a nb ?ow p) [0..<?n] (replicate ?n 0))
      (0 + sum_list (map (\<lambda>i. if ?ow ! i \<le> 0 then 0 else (1 - a) * p ! i) [0..<?n]))"
    by (rule mass_steps [rotated]) (use spread_mass [OF assms(1-4) p(2,1)] in simp)
  then have "mass ?n (fold (restart_mass rat_ops a ?ow tele p) [0..<?n] (fold (spread_mass rat_ops a nb ?ow p) [0..<?n] (replicate ?n 0)))
      (0 + sum_list (map (\<lambda>i. if ?ow ! i \<le> 0 then 0 else (1 - a) * p ! i) [0..<?n])
        + sum_list (map (\<lambda>i. a * tele ! i + (if ?ow ! i \<le> 0 then (1 - a) * p ! i else 0)) [0..<?n]))"
    by (rule mass_steps [rotated]) (use restart_mass [OF assms(3,4) p(2,1) _ assms(5)] in \<open>simp add: add.assoc\<close>)
  moreover have "map ((!) p) [0..<?n] = p" "map ((!) tele) [0..<?n] = tele" "sum_list tele = 1"
    using map_nth [of p] map_nth [of tele] p(1) assms(5) by (simp_all add: mass_def)
  ultimately show ?thesis
    using p by (simp add: ppr_step_def sum_list_split Fract_of_int_quotient)
qed

lemma ppr_loop_mass:
  assumes "nb_ok nb" "weights_ok nb" "0 \<le> pc_alpha cfg" "pc_alpha cfg \<le> 1" "mass (length nb) tele 1"
  shows "mass (length nb) p 1 \<Longrightarrow> mass (length nb) (fst (ppr_loop rat_ops cfg nb (out_weights rat_ops nb) tele k it p)) 1"
  by (induction k arbitrary: it p) (simp_all add: Let_def ppr_step_mass [OF assms])

lemma ppr_loop_iterations: "snd (ppr_loop F cfg nb ow tele k it p) \<le> it + k"
proof (induction k arbitrary: it p)
  case (Suc k)
  then show ?case using Suc.IH [of "Suc it"] by (simp add: Let_def)
qed simp

lemma seed_fold_add:
  "distinct is \<Longrightarrow> set is \<subseteq> {..<length p} \<Longrightarrow> (\<forall>i \<in> set is. p ! i = 0) \<Longrightarrow>
    fold (\<lambda>i p. p[i := s]) is p = fold (\<lambda>i. vec_add rat_ops i s) is p"
proof (induction "is" arbitrary: p)
  case (Cons i "is")
  have "vec_add rat_ops i s p = p[i := s]" using Cons.prems(3) by (simp add: vec_add_def)
  moreover have "\<forall>k \<in> set is. p[i := s] ! k = 0" using Cons.prems(1,3) by (metis distinct.simps(2) list.set_intros(2) nth_list_update_neq)
  ultimately show ?case using Cons.IH [of "p[i := s]"] Cons.prems(1,2) by simp
qed simp

lemma seed_vector_mass:
  assumes "distinct is" "set is \<subseteq> {..<n}" "is \<noteq> []"
  shows "mass n (seed_vector rat_ops n is) 1"
proof -
  let ?s = "1 / of_nat (length is) :: rat"
  have "mass n (fold (\<lambda>i. vec_add rat_ops i ?s) is (replicate n 0)) (0 + sum_list (map (\<lambda>_. ?s) is))"
    using assms(2) by (intro mass_fold) (auto simp: mass_def sum_list_replicate)
  moreover have "sum_list (map (\<lambda>_. ?s) is) = 1"
    using assms(3) by (simp add: sum_list_triv)
  moreover have "fold (\<lambda>i p. p[i := ?s]) is (replicate n 0) = fold (\<lambda>i. vec_add rat_ops i ?s) is (replicate n 0)"
    using assms(1,2) by (intro seed_fold_add) auto
  ultimately show ?thesis
    by (simp add: seed_vector_def Let_def Fract_of_int_quotient)
qed

section \<open>Nodes and their indices\<close>

lemma index_of_Some: "index_of ids i = Some j \<Longrightarrow> j < length ids \<and> ids ! j = i"
  unfolding index_of_def by (drule map_of_SomeD) (auto simp: set_zip)

lemma index_of_nth: "distinct ids \<Longrightarrow> j < length ids \<Longrightarrow> index_of ids (ids ! j) = Some j"
  by (simp add: index_of_def map_of_zip_nth)

lemma index_of_None: "index_of ids i = None \<longleftrightarrow> i \<notin> set ids"
  by (simp add: index_of_def map_of_zip_is_None)

lemma distinct_map_filter_inj:
  "distinct xs \<Longrightarrow> (\<And>x y z. f x = Some z \<Longrightarrow> f y = Some z \<Longrightarrow> x = y) \<Longrightarrow> distinct (List.map_filter f xs)"
  by (induction xs) (auto simp: List.map_filter_simps set_map_filter split: option.splits)

text \<open>The ids of the nodes in iteration order.\<close>

definition node_order :: "entity order \<Rightarrow> 'f in_memory_graph \<Rightarrow> string list" where
  "node_order ite g = map e_id (ite (map snd (g_nodes g)))"

lemma node_order_ids:
  assumes "graph_wf g" "permuting ite"
  shows "distinct (node_order ite g)" "set (node_order ite g) = {i. graph_node g i \<noteq> None}"
proof -
  have ids: "map e_id (map snd (g_nodes g)) = map fst (g_nodes g)"
    using assms(1) by (auto simp: graph_wf_def)
  have d: "distinct (map fst (g_nodes g))" using assms(1) by (simp add: graph_wf_def amap_wf_distinct)
  then show "distinct (node_order ite g)"
    unfolding node_order_def by (intro permuting_distinct [OF assms(2)]) (simp only: ids)
  have "set (node_order ite g) = set (map e_id (map snd (g_nodes g)))"
    by (simp add: node_order_def permuting_set [OF assms(2)] image_image)
  then show "set (node_order ite g) = {i. graph_node g i \<noteq> None}"
    unfolding ids by (auto simp: graph_node_def map_of_eq_None_iff)
qed

lemma neighbour_lists_ok:
  "length (neighbour_lists F itn g ids) = length ids" "nb_ok (neighbour_lists F itn g ids)"
  by (auto simp: neighbour_lists_def nb_ok_def set_map_filter dest: index_of_Some split: option.splits)

lemma neighbour_list_at:
  assumes "graph_wf g" "permuting itn" "i < length ids" "distinct ids"
  shows "fst ` set (neighbour_lists F itn g ids ! i) = {j. j < length ids \<and> adjacent g (ids ! i) (ids ! j)}"
proof -
  have "fst ` set (neighbour_lists F itn g ids ! i) = {j. \<exists>n \<in> fst ` set (undirected_neighbours F itn g (ids ! i)). index_of ids n = Some j}"
    using assms(3) by (force simp: neighbour_lists_def set_map_filter split: option.splits)
  also have "\<dots> = {j. j < length ids \<and> adjacent g (ids ! i) (ids ! j)}"
    unfolding neighbours_keys [OF assms(1,2)] using index_of_Some [of ids] index_of_nth [OF assms(4)] by blast
  finally show ?thesis .
qed

text \<open>The nodes within \<open>k\<close> edges, in either direction, of a seed that is in the graph.\<close>

primrec near :: "'f in_memory_graph \<Rightarrow> string set \<Rightarrow> nat \<Rightarrow> string set" where
  "near g S 0 = {i \<in> S. graph_node g i \<noteq> None}"
| "near g S (Suc k) = near g S k \<union> {j. graph_node g j \<noteq> None \<and> (\<exists>i \<in> near g S k. adjacent g i j)}"

lemma near_nodes: "near g S k \<subseteq> {i. graph_node g i \<noteq> None}"
  by (induction k) auto

lemma ball_near:
  assumes "graph_wf g" "permuting ite" "permuting itn"
  defines "ids \<equiv> node_order ite g"
  shows "ball (neighbour_lists F itn g ids) {j. j < length ids \<and> ids ! j \<in> S} k = {j. j < length ids \<and> ids ! j \<in> near g S k}"
proof (induction k)
  case 0
  show ?case
    using node_order_ids(2) [OF assms(1,2)] nth_mem [of _ ids] by (auto simp: ids_def)
next
  case (Suc k)
  let ?nb = "neighbour_lists F itn g ids"
  let ?B = "{j. j < length ids \<and> ids ! j \<in> near g S k}"
  have d: "distinct ids" "set ids = {i. graph_node g i \<noteq> None}"
    unfolding ids_def using node_order_ids [OF assms(1,2)] by blast+
  have "(\<exists>i \<in> ?B. j \<in> fst ` set (?nb ! i)) \<longleftrightarrow> j < length ids \<and> (\<exists>i \<in> near g S k. adjacent g i (ids ! j))" for j
  proof -
    have "(\<exists>i \<in> ?B. j \<in> fst ` set (?nb ! i)) \<longleftrightarrow> (\<exists>i \<in> ?B. j < length ids \<and> adjacent g (ids ! i) (ids ! j))"
      using neighbour_list_at [OF assms(1,3) _ d(1)] by blast
    moreover have "near g S k \<subseteq> set ids" using near_nodes [of g S k] d(2) by blast
    ultimately show ?thesis by (auto simp: in_set_conv_nth subset_iff)
  qed
  moreover have "graph_node g (ids ! j) \<noteq> None" if "j < length ids" for j
    using d(2) nth_mem [OF that] by blast
  ultimately show ?case using Suc by (auto simp del: not_None_eq)
qed


section \<open>What the search returns\<close>

definition seed_indices :: "string list \<Rightarrow> string list \<Rightarrow> nat list" where
  "seed_indices ids seeds = List.map_filter (index_of ids) seeds"

lemma seed_indices_set: "distinct ids \<Longrightarrow> set (seed_indices ids seeds) = {j. j < length ids \<and> ids ! j \<in> set seeds}"
  using index_of_Some [of ids] index_of_nth [of ids] by (force simp: seed_indices_def set_map_filter)

lemma seed_indices_distinct: "distinct seeds \<Longrightarrow> distinct (seed_indices ids seeds)"
  unfolding seed_indices_def by (rule distinct_map_filter_inj) (use index_of_Some in metis)+

text \<open>With a seed in the graph, the hits are all nodes with their score and their hop count.\<close>

lemma pagerank_hits:
  fixes F :: "'f f32_ops" and itn :: "(string \<times> 'f) order"
  assumes "graph_wf g" "permuting ite" "s \<in> set seeds" "graph_node g s \<noteq> None"
  defines "ids \<equiv> node_order ite g"
  defines "nb \<equiv> neighbour_lists F itn g ids"
  defines "tele \<equiv> seed_vector F (length ids) (seed_indices ids seeds)"
  shows "seed_indices ids seeds \<noteq> []"
    "pr_ranked (personalised_pagerank F ite itn g seeds cfg) = rank_desc F ph_score (map (\<lambda>i.
       \<lparr> ph_id = ids ! i, ph_score = fst (ppr_loop F cfg nb (out_weights F nb) tele (pc_max_iterations cfg) 0 tele) ! i,
         ph_hops = bfs_hops nb (seed_indices ids seeds) (pc_max_hops cfg) ! i \<rparr>) [0..<length ids])"
proof -
  have "s \<in> set ids" unfolding ids_def using node_order_ids(2) [OF assms(1,2)] assms(4) by blast
  then obtain j where "index_of ids s = Some j"
    using index_of_None [of ids s] by (cases "index_of ids s") auto
  then have "j \<in> set (seed_indices ids seeds)"
    using assms(3) by (auto simp: seed_indices_def set_map_filter)
  then show ne: "seed_indices ids seeds \<noteq> []" by auto
  have "seeds \<noteq> []" using assms(3) by auto
  then show "pr_ranked (personalised_pagerank F ite itn g seeds cfg) = rank_desc F ph_score (map (\<lambda>i.
       \<lparr> ph_id = ids ! i, ph_score = fst (ppr_loop F cfg nb (out_weights F nb) tele (pc_max_iterations cfg) 0 tele) ! i,
         ph_hops = bfs_hops nb (seed_indices ids seeds) (pc_max_hops cfg) ! i \<rparr>) [0..<length ids])"
    using ne by (simp add: personalised_pagerank_def Let_def split_def node_order_def [symmetric] seed_indices_def [symmetric]
        ids_def nb_def tele_def)
qed

lemma bump_fold_nonneg:
  "(\<forall>x \<in> set xs. 0 \<le> snd (snd x)) \<Longrightarrow> (\<forall>x \<in> set m. 0 \<le> snd x) \<Longrightarrow>
    \<forall>x \<in> set (fold (\<lambda>(n, _, w). bump rat_ops n w) xs m). 0 \<le> snd x"
proof (induction xs arbitrary: m)
  case (Cons x xs)
  obtain n k w where x: "x = (n, k, w)" by (cases x)
  have "0 \<le> (case map_of m n of Some y \<Rightarrow> y | None \<Rightarrow> f_rat rat_ops (0, 1))"
    using Cons.prems(2) by (force simp: Fract_of_int_quotient split: option.splits dest: map_of_SomeD)
  then have "\<forall>y \<in> set (bump rat_ops n w m). 0 \<le> snd y"
    using Cons.prems by (auto simp: bump_def x dest!: set_amap_insert)
  then show ?case using Cons by (simp add: x)
qed simp

lemma sum_list_rank_desc: "sum_list (map f (rank_desc F score xs)) = (sum_list (map f xs) :: rat)"
proof -
  have "mset (map f (rank_desc F score xs)) = mset (map f xs)" by simp
  then show ?thesis by (simp only: sum_mset_sum_list [symmetric])
qed

lemma neighbour_weights_ok:
  assumes "graph_wf g" "permuting itn" "\<forall>e \<in> set (g_edges g). 0 \<le> ed_weight e"
  shows "weights_ok (neighbour_lists rat_ops itn g ids)"
proof -
  have "\<forall>x \<in> set (undirected_map rat_ops g i). 0 \<le> snd x" for i
    unfolding undirected_map_def using assms(1,3) by (intro bump_fold_nonneg) (auto simp: graph_wf_def out_of_def into_of_def)
  then show ?thesis
    by (force simp: weights_ok_def neighbour_lists_def set_map_filter undirected_neighbours_def permuting_set [OF assms(2)] split: option.splits)
qed

text \<open>
  C26. Over exact arithmetic the scores of a PageRank run from distinct seeds, one of them in the graph, are a
  probability distribution over the nodes: every node is ranked once, no score is negative and they sum to 1,
  after however many iterations, with nodes without edges sending their mass back to the seeds.
\<close>

theorem pagerank_distribution:
  assumes "graph_wf g" "permuting ite" "permuting itn" "\<forall>e \<in> set (g_edges g). 0 \<le> ed_weight e"
    "0 \<le> pc_alpha cfg" "pc_alpha cfg \<le> 1" "distinct seeds" "s \<in> set seeds" "graph_node g s \<noteq> None"
  shows "let hits = pr_ranked (personalised_pagerank rat_ops ite itn g seeds cfg) in
    distinct (map ph_id hits) \<and> set (map ph_id hits) = {i. graph_node g i \<noteq> None} \<and>
    list_all (\<lambda>h. 0 \<le> ph_score h) hits \<and> sum_list (map ph_score hits) = 1"
proof -
  define ids where "ids = node_order ite g"
  define nb where "nb = neighbour_lists rat_ops itn g ids"
  define tele where "tele = seed_vector rat_ops (length ids) (seed_indices ids seeds)"
  define p where "p = fst (ppr_loop rat_ops cfg nb (out_weights rat_ops nb) tele (pc_max_iterations cfg) 0 tele)"
  let ?hops = "bfs_hops nb (seed_indices ids seeds) (pc_max_hops cfg)"
  let ?hs = "map (\<lambda>i. \<lparr> ph_id = ids ! i, ph_score = p ! i, ph_hops = ?hops ! i \<rparr>) [0..<length ids]"
  note d = node_order_ids [OF assms(1,2), folded ids_def]
  note P = pagerank_hits [OF assms(1,2,8,9), folded ids_def]
  have hits: "pr_ranked (personalised_pagerank rat_ops ite itn g seeds cfg) = rank_desc rat_ops ph_score ?hs"
    unfolding P(2) [where F = rat_ops] p_def tele_def nb_def ..
  have nb: "length nb = length ids" "nb_ok nb" "weights_ok nb"
    unfolding nb_def using neighbour_lists_ok neighbour_weights_ok [OF assms(1,3,4)] by blast+
  have "mass (length nb) tele 1"
    unfolding tele_def nb(1) using seed_indices_distinct [OF assms(7)] seed_indices_set [OF d(1)] P(1)
    by (intro seed_vector_mass) auto
  then have "mass (length nb) p 1"
    unfolding p_def by (intro ppr_loop_mass nb assms)
  then have p: "length p = length ids" "\<forall>x \<in> set p. 0 \<le> x" "sum_list p = 1"
    by (simp_all add: mass_def nb(1))
  have ids: "map ph_id ?hs = ids" and scores: "map ph_score ?hs = p"
    using map_nth [of ids] map_nth [of p] p(1) by (simp_all add: o_def)
  have "sum_list (map ph_score (rank_desc rat_ops ph_score ?hs)) = sum_list (map ph_score ?hs)"
    by (rule sum_list_rank_desc)
  moreover have "list_all (\<lambda>h. 0 \<le> ph_score h) (rank_desc rat_ops ph_score ?hs)"
    using p(1,2) by (auto simp: list_all_iff)
  moreover have "distinct (map ph_id (rank_desc rat_ops ph_score ?hs))"
    unfolding distinct_map_rank_desc ids by (rule d(1))
  moreover have "set (map ph_id (rank_desc rat_ops ph_score ?hs)) = set (map ph_id ?hs)"
    by (simp only: set_map set_rank_desc)
  ultimately show ?thesis
    unfolding Let_def hits scores p(3) ids d(2) by blast
qed

theorem pagerank_distribution_witness:
  "sum_list (map ph_score (pr_ranked (personalised_pagerank rat_ops (\<lambda>xs. xs) (\<lambda>xs. xs) (with_demo_corpus rat_ops) [''tab:T001'']
     (ppr_default rat_ops)))) = 1"
proof -
  have "0 \<le> pc_alpha (ppr_default rat_ops)" "pc_alpha (ppr_default rat_ops) \<le> 1" "''tab:T001'' \<in> set (map e_id seed_entities)"
    unfolding seed_ids by (simp_all add: ppr_default_def Fract_of_int_quotient)
  then show ?thesis
    using pagerank_distribution [OF demo_corpus_closed(1) permuting_id permuting_id demo_weights _ _ _ _ demo_has,
        of "ppr_default rat_ops" "[''tab:T001'']" "''tab:T001''"]
    unfolding Let_def by simp
qed

lemma pagerank_hops:
  assumes "graph_wf g" "permuting ite" "permuting itn" "pc_max_hops cfg < u32_max"
    "h \<in> set (pr_ranked (personalised_pagerank F ite itn g seeds cfg))" "k \<le> pc_max_hops cfg"
  shows "ph_hops h \<le> k \<longleftrightarrow> ph_id h \<in> near g (set seeds) k" "graph_node g (ph_id h) \<noteq> None"
proof -
  define ids where "ids = node_order ite g"
  define nb where "nb = neighbour_lists F itn g ids"
  have d: "distinct ids" "set ids = {i. graph_node g i \<noteq> None}"
    unfolding ids_def using node_order_ids [OF assms(1,2)] by blast+
  have "\<exists>s \<in> set seeds. graph_node g s \<noteq> None"
  proof (rule ccontr)
    assume no: "\<not> (\<exists>s \<in> set seeds. graph_node g s \<noteq> None)"
    then have "set (seed_indices ids seeds) = {}"
      unfolding seed_indices_set [OF d(1)] using d(2) nth_mem [of _ ids] by blast
    then have "seed_indices ids seeds = []" by simp
    then show False
      using assms(5) by (simp add: personalised_pagerank_def Let_def node_order_def [symmetric] seed_indices_def [symmetric] ids_def split: if_splits)
  qed
  then obtain s where s: "s \<in> set seeds" "graph_node g s \<noteq> None" by blast
  note P = pagerank_hits(2) [OF assms(1,2) s, where F = F and itn = itn and cfg = cfg, folded ids_def, folded nb_def]
  obtain j where j: "j < length ids" "ph_id h = ids ! j" "ph_hops h = bfs_hops nb (seed_indices ids seeds) (pc_max_hops cfg) ! j"
    using assms(5) unfolding P by auto
  have nb: "length nb = length ids" "nb_ok nb" unfolding nb_def using neighbour_lists_ok by blast+
  have sub: "set (seed_indices ids seeds) \<subseteq> {..<length nb}"
    unfolding seed_indices_set [OF d(1)] nb(1) by blast
  have "ph_hops h \<le> k \<longleftrightarrow> j \<in> ball nb (set (seed_indices ids seeds)) k"
    unfolding j(3) using bfs_hops_distances(2) [OF nb(2) sub assms(4) _ assms(6)] j(1) nb(1) by simp
  also have "\<dots> \<longleftrightarrow> ids ! j \<in> near g (set seeds) k"
    unfolding seed_indices_set [OF d(1)] nb_def using ball_near [OF assms(1-3), of F "set seeds" k, folded ids_def] j(1) by simp
  finally show "ph_hops h \<le> k \<longleftrightarrow> ph_id h \<in> near g (set seeds) k" by (simp add: j(2))
  show "graph_node g (ph_id h) \<noteq> None" unfolding j(2) using d(2) nth_mem [OF j(1)] by blast
qed

text \<open>
  C27. Multi-hop search returns at most the requested number of nodes, every one of them in the graph and within
  the hop budget of a seed found for the query, and its hop count is exact: it is at most \<open>k\<close> exactly when
  the node is within \<open>k\<close> edges, in either direction, of a seed.
\<close>

theorem multi_hop_within_budget:
  assumes "graph_wf g" "permuting ite" "permuting itn" "pc_max_hops cfg < u32_max" "k \<le> pc_max_hops cfg"
  shows "let result = multi_hop_search F lower ite itn g query max_seeds cfg top_k;
      seeds = set (find_seeds lower ite g query max_seeds)
    in length (pr_ranked result) \<le> top_k \<and>
       list_all (\<lambda>h. ph_id h \<in> near g seeds (pc_max_hops cfg) \<and> (ph_hops h \<le> k \<longleftrightarrow> ph_id h \<in> near g seeds k)) (pr_ranked result)"
proof -
  let ?seeds = "find_seeds lower ite g query max_seeds"
  let ?all = "pr_ranked (personalised_pagerank F ite itn g ?seeds cfg)"
  have "ph_id h \<in> near g (set ?seeds) (pc_max_hops cfg) \<and> (ph_hops h \<le> k \<longleftrightarrow> ph_id h \<in> near g (set ?seeds) k)"
    if "h \<in> set ?all" "ph_hops h \<le> pc_max_hops cfg" for h
    using pagerank_hops(1) [OF assms(1-4) that(1)] assms(5) that(2) by blast
  then show ?thesis
    by (auto simp: multi_hop_search_def Let_def list_all_iff dest: in_set_takeD)
qed

theorem multi_hop_within_budget_witness:
  "length (pr_ranked (multi_hop_search rat_ops ascii_lowercase (\<lambda>xs. xs) (\<lambda>xs. xs) (with_demo_corpus rat_ops) ''period close'' 3
     (ppr_default rat_ops) 8)) \<le> 8"
proof -
  have h: "pc_max_hops (ppr_default rat_ops) < u32_max" by (simp add: ppr_default_def)
  show ?thesis
    using multi_hop_within_budget [OF demo_corpus_closed(1) permuting_id permuting_id h le0, where lower = ascii_lowercase
        and query = "''period close''" and max_seeds = 3 and top_k = 8 and F = rat_ops] unfolding Let_def by blast
qed

end
