(* ===== verification/Communities.thy ===== *)
theory Communities
  imports Graph_Search
begin

text \<open>
  Communities, roll-ups and the graph retrieval engine (\<open>sap-automate-graph/src/community.rs\<close>, \<open>raptor.rs\<close>,
  \<open>sap-automate-rag/src/graph_layer.rs\<close>). Indexing a hash map with a missing key panics, \<open>None\<close> here. Elapsed
  times of the responses are left out. Shown: on a graph whose edges join known nodes detection returns and
  its communities partition the nodes, as do the levels of the summary tree.
\<close>

section \<open>Community detection\<close>

record community =
  cm_id :: nat
  cm_members :: "string list"
  cm_summary :: string

record communities =
  cs_communities :: "community list"
  cs_membership :: "(string, nat) amap"

definition for_node :: "communities \<Rightarrow> string \<Rightarrow> community option" where
  "for_node cs i = (case map_of (cs_membership cs) i of
     None \<Rightarrow> None | Some cid \<Rightarrow> find (\<lambda>c. cm_id c = cid) (cs_communities cs))"

text \<open>The orders in which the hash maps of a run yield their elements.\<close>

record 'f hash_orders =
  ho_entities :: "entity order"
  ho_neighbours :: "(string \<times> 'f) order"
  ho_degrees :: "'f order"
  ho_membership :: "(string \<times> nat) order"
  ho_groups :: "(nat \<times> string list) order"
  ho_modules :: "(string \<times> string list) order"

definition orders_ok :: "'f hash_orders \<Rightarrow> bool" where
  "orders_ok H \<longleftrightarrow> permuting (ho_entities H) \<and> permuting (ho_neighbours H) \<and> permuting (ho_degrees H) \<and>
     permuting (ho_membership H) \<and> permuting (ho_groups H) \<and> permuting (ho_modules H)"

definition sorted_nodes :: "'f hash_orders \<Rightarrow> 'f in_memory_graph \<Rightarrow> string list" where
  "sorted_nodes H g = map e_id (sort_by (\<lambda>a b. compare_num (e_id a) (e_id b)) (ho_entities H (map snd (g_nodes g))))"

definition initial_membership :: "string list \<Rightarrow> (string, nat) amap" where
  "initial_membership ids = fold (\<lambda>(i, n). amap_insert n (i mod 2 ^ 32)) (enumerate 0 ids) []"

definition sorted_neighbours :: "'f f32_ops \<Rightarrow> 'f hash_orders \<Rightarrow> 'f in_memory_graph \<Rightarrow> string \<Rightarrow> (string \<times> 'f) list" where
  "sorted_neighbours F H g i = sort_by (\<lambda>a b. compare_num (fst a) (fst b)) (undirected_neighbours F (ho_neighbours H) g i)"

definition degree_of :: "'f f32_ops \<Rightarrow> 'f hash_orders \<Rightarrow> 'f in_memory_graph \<Rightarrow> string \<Rightarrow> 'f" where
  "degree_of F H g i = f_sum F (map snd (sorted_neighbours F H g i))"

definition total_weight :: "'f f32_ops \<Rightarrow> 'f hash_orders \<Rightarrow> 'f in_memory_graph \<Rightarrow> 'f" where
  "total_weight F H g = f_div F (f_sum F (ho_degrees H (map (degree_of F H g) (sorted_nodes H g)))) (f_rat F (2, 1))"

text \<open>\<open>*m.entry(membership[n]).or_insert(0.0) += w\<close> over a list of nodes and weights.\<close>

fun per_community :: "'f f32_ops \<Rightarrow> (string, nat) amap \<Rightarrow> (string \<times> 'f) list \<Rightarrow> (nat, 'f) amap \<Rightarrow> (nat, 'f) amap option" where
  "per_community F mem [] m = Some m"
| "per_community F mem ((n, w) # ns) m =
     (case map_of mem n of None \<Rightarrow> None | Some c \<Rightarrow> per_community F mem ns (bump F c w m))"

text \<open>The candidate with the best gain, if any has one above zero.\<close>

definition best_community ::
  "'f f32_ops \<Rightarrow> 'f \<Rightarrow> 'f \<Rightarrow> nat \<Rightarrow> (nat, 'f) amap \<Rightarrow> (nat \<times> 'f) list \<Rightarrow> nat" where
  "best_community F m k_i cur sigma_tot cands =
     fst (fold (\<lambda>(cand, k_i_to_c) (best_comm, best_gain).
       if cand = cur then (best_comm, best_gain)
       else (let sigma_c = (case map_of sigma_tot cand of Some x \<Rightarrow> x | None \<Rightarrow> f_rat F (0, 1));
                 gain = f_sub F (f_div F k_i_to_c m) (f_div F (f_mul F sigma_c k_i) (f_mul F (f_mul F (f_rat F (2, 1)) m) m))
             in if f_gt F gain best_gain then (cand, gain) else (best_comm, best_gain)))
       cands (cur, f_rat F (0, 1)))"

definition move_node ::
  "'f f32_ops \<Rightarrow> 'f hash_orders \<Rightarrow> 'f in_memory_graph \<Rightarrow> string list \<Rightarrow> string \<Rightarrow> bool \<times> (string, nat) amap
     \<Rightarrow> (bool \<times> (string, nat) amap) option" where
  "move_node F H g nodes node = (\<lambda>(moved, mem).
     case map_of mem node of
       None \<Rightarrow> None
     | Some cur \<Rightarrow>
         (let neighbours = sorted_neighbours F H g node in
          if neighbours = [] then Some (moved, mem)
          else
            (case per_community F mem neighbours [] of
               None \<Rightarrow> None
             | Some to_comm \<Rightarrow>
                 (case per_community F mem (map (\<lambda>n. (n, degree_of F H g n)) (filter (\<lambda>n. n \<noteq> node) nodes)) [] of
                    None \<Rightarrow> None
                  | Some sigma_tot \<Rightarrow>
                      (let best = best_community F (total_weight F H g) (degree_of F H g node) cur sigma_tot
                                    (sort_by (\<lambda>a b. compare_num (fst a) (fst b)) to_comm)
                       in if best \<noteq> cur then Some (True, amap_insert node best mem) else Some (moved, mem))))))"

fun move_pass ::
  "'f f32_ops \<Rightarrow> 'f hash_orders \<Rightarrow> 'f in_memory_graph \<Rightarrow> string list \<Rightarrow> string list \<Rightarrow> bool \<times> (string, nat) amap
     \<Rightarrow> (bool \<times> (string, nat) amap) option" where
  "move_pass F H g nodes [] st = Some st"
| "move_pass F H g nodes (n # ns) st =
     (case move_node F H g nodes n st of None \<Rightarrow> None | Some st' \<Rightarrow> move_pass F H g nodes ns st')"

text \<open>The repeated passes, over the passes left of the eight.\<close>

fun louvain ::
  "'f f32_ops \<Rightarrow> 'f hash_orders \<Rightarrow> 'f in_memory_graph \<Rightarrow> string list \<Rightarrow> nat \<Rightarrow> (string, nat) amap \<Rightarrow> (string, nat) amap option" where
  "louvain F H g nodes 0 mem = Some mem"
| "louvain F H g nodes (Suc left) mem =
     (case move_pass F H g nodes nodes (False, mem) of
        None \<Rightarrow> None
      | Some (moved, mem') \<Rightarrow> if moved then louvain F H g nodes left mem' else Some mem')"

definition push_group :: "'k::linorder \<Rightarrow> string \<Rightarrow> ('k, string list) amap \<Rightarrow> ('k, string list) amap" where
  "push_group c i m = amap_insert c ((case map_of m c of Some is \<Rightarrow> is | None \<Rightarrow> []) @ [i]) m"

definition middle_dot :: string where
  "middle_dot = [CHR '' '', CHR 0xC2, CHR 0xB7, CHR '' '']"

definition community_summary :: "'f in_memory_graph \<Rightarrow> string list \<Rightarrow> string" where
  "community_summary g members =
     join middle_dot (remdups_adj (sort (List.map_filter (\<lambda>m. map_option e_label (graph_node g m)) members)))"

definition build_communities :: "'f hash_orders \<Rightarrow> 'f in_memory_graph \<Rightarrow> (string, nat) amap \<Rightarrow> community list" where
  "build_communities H g mem =
     (let grouped = fold (\<lambda>(i, c). push_group c i) (ho_membership H mem) []
      in map (\<lambda>(c, members). let members = sort members in
           \<lparr> cm_id = c, cm_members = members, cm_summary = community_summary g members \<rparr>) (ho_groups H grouped))"

text \<open>The largest communities first; the membership follows the new numbers, panicking on an old one that is missing.\<close>

definition remap_membership :: "(nat \<rightharpoonup> nat) \<Rightarrow> (string, nat) amap \<Rightarrow> (string, nat) amap option" where
  "remap_membership remap mem =
     (if list_all (\<lambda>(_, c). remap c \<noteq> None) mem then Some (map (\<lambda>(i, c). (i, the (remap c))) mem) else None)"

definition renumber :: "community list \<Rightarrow> (string, nat) amap \<Rightarrow> communities option" where
  "renumber cs mem =
     (let cs = sort_by (\<lambda>a b. compare_num (length (cm_members b)) (length (cm_members a))) cs;
          remap = fold (\<lambda>(n, c) m. m(cm_id c \<mapsto> n mod 2 ^ 32)) (enumerate 0 cs) Map.empty;
          renumbered = map (\<lambda>(n, c). c\<lparr> cm_id := n mod 2 ^ 32 \<rparr>) (enumerate 0 cs)
      in map_option (\<lambda>mem'. \<lparr> cs_communities = renumbered, cs_membership = mem' \<rparr>) (remap_membership remap mem))"

definition detect_communities :: "'f f32_ops \<Rightarrow> 'f hash_orders \<Rightarrow> 'f in_memory_graph \<Rightarrow> communities option" where
  "detect_communities F H g =
     (let nodes = sorted_nodes H g; mem = initial_membership nodes in
      if f_eq F (total_weight F H g) (f_rat F (0, 1))
      then Some \<lparr> cs_communities = build_communities H g mem, cs_membership = mem \<rparr>
      else (case louvain F H g nodes 8 mem of
              None \<Rightarrow> None
            | Some mem' \<Rightarrow> renumber (build_communities H g mem') mem'))"

section \<open>The summary tree\<close>

record raptor_node =
  rn_id :: string
  rn_level :: nat
  rn_summary :: string
  rn_members :: "string list"

record raptor_level =
  rl_level :: nat
  rl_nodes :: "raptor_node list"

record raptor_tree =
  rt_levels :: "raptor_level list"

definition raptor_leaves :: "raptor_tree \<Rightarrow> raptor_node list" where
  "raptor_leaves t = (case find (\<lambda>l. rl_level l = 0) (rt_levels t) of Some l \<Rightarrow> rl_nodes l | None \<Rightarrow> [])"

definition leaf_of :: "entity \<Rightarrow> raptor_node" where
  "leaf_of e = \<lparr> rn_id = ''leaf:'' @ e_id e, rn_level = 0,
     rn_summary = e_label e @ '' '' @ em_dash @ '' '' @ (case e_description e of Some d \<Rightarrow> d | None \<Rightarrow> []), rn_members = [e_id e] \<rparr>"

definition community_node :: "community \<Rightarrow> raptor_node" where
  "community_node c = \<lparr> rn_id = ''community:'' @ show_nat (cm_id c), rn_level = 1,
     rn_summary = ''Community #'' @ show_nat (cm_id c) @ '' ('' @ show_nat (length (cm_members c)) @ '' members): '' @ cm_summary c,
     rn_members = cm_members c \<rparr>"

definition module_of :: "entity \<Rightarrow> string" where
  "module_of e = (case find (\<lambda>t. starts_with t ''module:'') (e_tags e) of Some t \<Rightarrow> drop 7 t | None \<Rightarrow> ''other'')"

definition module_node :: "(string \<Rightarrow> string) \<Rightarrow> 'f in_memory_graph \<Rightarrow> string \<times> string list \<Rightarrow> raptor_node" where
  "module_node upper g = (\<lambda>(module, members).
     \<lparr> rn_id = ''module:'' @ module, rn_level = 2,
       rn_summary = ''Module '' @ upper module @ '': '' @ show_nat (length members) @ '' entities '' @ em_dash @ '' ''
         @ join '', '' (List.map_filter (\<lambda>m. map_option e_label (graph_node g m)) members),
       rn_members = members \<rparr>)"

definition build_raptor_tree :: "(string \<Rightarrow> string) \<Rightarrow> 'f hash_orders \<Rightarrow> 'f in_memory_graph \<Rightarrow> communities \<Rightarrow> raptor_tree" where
  "build_raptor_tree upper H g cs =
     (let nodes = ho_entities H (map snd (g_nodes g));
          module_groups = fold (\<lambda>e. push_group (module_of e) (e_id e)) nodes []
      in \<lparr> rt_levels =
           [\<lparr> rl_level = 0, rl_nodes = map leaf_of nodes \<rparr>,
            \<lparr> rl_level = 1, rl_nodes = map community_node (cs_communities cs) \<rparr>,
            \<lparr> rl_level = 2, rl_nodes = map (module_node upper g) (ho_modules H module_groups) \<rparr>] \<rparr>)"

section \<open>The graph engine\<close>

record 'f graph_search_hit =
  gh_id :: string
  gh_label :: string
  gh_kind :: string
  gh_uri :: "string option"
  gh_score :: 'f
  gh_hops :: nat

record 'f graph_search_response =
  gr_layer :: string
  gr_seeds :: "string list"
  gr_hits :: "'f graph_search_hit list"
  gr_community_summary :: "string option"

record community_view =
  cv_id :: nat
  cv_members :: "string list"
  cv_summary :: string
  cv_overlap_score :: nat

record raptor_view =
  rv_id :: string
  rv_level :: nat
  rv_summary :: string
  rv_member_count :: nat

record 'f graph_engine =
  ge_graph :: "'f in_memory_graph"
  ge_communities :: communities
  ge_raptor :: raptor_tree

definition graph_engine_new :: "'f f32_ops \<Rightarrow> (string \<Rightarrow> string) \<Rightarrow> 'f hash_orders \<Rightarrow> 'f in_memory_graph \<Rightarrow> 'f graph_engine option" where
  "graph_engine_new F upper H g =
     map_option (\<lambda>cs. \<lparr> ge_graph = g, ge_communities = cs, ge_raptor = build_raptor_tree upper H g cs \<rparr>) (detect_communities F H g)"

definition graph_hit :: "'f in_memory_graph \<Rightarrow> 'f ppr_hit \<Rightarrow> 'f graph_search_hit option" where
  "graph_hit g h = map_option (\<lambda>e.
     \<lparr> gh_id = e_id e, gh_label = e_label e, gh_kind = kind_debug (e_kind e), gh_uri = e_uri e, gh_score = ph_score h,
       gh_hops = ph_hops h \<rparr>) (graph_node g (ph_id h))"

definition multi_hop ::
  "'f f32_ops \<Rightarrow> (string \<Rightarrow> string) \<Rightarrow> 'f hash_orders \<Rightarrow> 'f graph_engine \<Rightarrow> string \<Rightarrow> nat \<Rightarrow> nat \<Rightarrow> nat \<Rightarrow> 'f graph_search_response" where
  "multi_hop F lower H eng query max_hops top_k max_seeds =
     (let cfg = (ppr_default F)\<lparr> pc_max_hops := max_hops \<rparr>;
          r = multi_hop_search F lower (ho_entities H) (ho_neighbours H) (ge_graph eng) query max_seeds cfg top_k
      in \<lparr> gr_layer = ''L4 HippoRAG'', gr_seeds = pr_seeds r, gr_hits = List.map_filter (graph_hit (ge_graph eng)) (pr_ranked r),
           gr_community_summary = None \<rparr>)"

definition neighborhood ::
  "'f f32_ops \<Rightarrow> 'f hash_orders \<Rightarrow> 'f graph_engine \<Rightarrow> string list \<Rightarrow> nat \<Rightarrow> nat \<Rightarrow> 'f graph_search_response" where
  "neighborhood F H eng seeds max_hops top_k =
     (let cfg = (ppr_default F)\<lparr> pc_max_hops := max_hops \<rparr>;
          r = personalised_pagerank F (ho_entities H) (ho_neighbours H) (ge_graph eng) seeds cfg
      in \<lparr> gr_layer = ''L4 HippoRAG (explicit seeds)'', gr_seeds = seeds,
           gr_hits = List.map_filter (graph_hit (ge_graph eng)) (take top_k (filter (\<lambda>h. ph_hops h \<le> max_hops) (pr_ranked r))),
           gr_community_summary = None \<rparr>)"

definition community_query :: "(string \<Rightarrow> string) \<Rightarrow> 'f graph_engine \<Rightarrow> string \<Rightarrow> nat \<Rightarrow> community_view list" where
  "community_query lower eng query top_k =
     (let terms = seed_terms lower query;
          views = map (\<lambda>c. \<lparr> cv_id = cm_id c, cv_members = cm_members c, cv_summary = cm_summary c,
                     cv_overlap_score = term_hits terms (lower (cm_summary c)) \<rparr>) (cs_communities (ge_communities eng));
          scored = filter (\<lambda>v. cv_overlap_score v > 0) views
      in take top_k (sort_by (\<lambda>a b. compare_num (cv_overlap_score b) (cv_overlap_score a)) scored))"

definition raptor_view_of :: "raptor_node \<Rightarrow> raptor_view" where
  "raptor_view_of n = \<lparr> rv_id = rn_id n, rv_level = rn_level n, rv_summary = rn_summary n, rv_member_count = length (rn_members n) \<rparr>"

definition raptor_summary :: "'f graph_engine \<Rightarrow> nat \<Rightarrow> nat \<Rightarrow> raptor_view list" where
  "raptor_summary eng level top_k =
     (let nodes = (case find (\<lambda>l. rl_level l = level) (rt_levels (ge_raptor eng)) of Some l \<Rightarrow> rl_nodes l | None \<Rightarrow> [])
      in map raptor_view_of (take top_k nodes))"

definition global_words :: "string list" where
  "global_words = [''across'', ''all'', ''every'', ''summarise'', ''summarize'', ''overall'', ''in general'']"

definition multi_hop_words :: "string list" where
  "multi_hop_words = [''impact'', ''where used'', ''depends on'', ''calls'', ''callers'', ''downstream'', ''upstream'', ''trace'']"

definition route :: "(string \<Rightarrow> string) \<Rightarrow> string \<Rightarrow> string option \<Rightarrow> string list" where
  "route lower query scope_hint =
     (let lc = lower query;
          global = (scope_hint = Some ''global'' \<or> list_ex (\<lambda>kw. contains_sub lc kw) global_words);
          multi_hop = list_ex (\<lambda>kw. contains_sub lc kw) multi_hop_words;
          layers = (if global \<and> \<not> multi_hop then [''L3'', ''L5''] else []) @ (if multi_hop then [''L4''] else [])
      in if layers = [] then [''L2''] else layers)"

section \<open>Detection returns\<close>

lemma sorted_nodes_set:
  assumes "graph_wf g" "orders_ok H"
  shows "set (sorted_nodes H g) = {i. graph_node g i \<noteq> None}" "distinct (sorted_nodes H g)"
  using node_order_ids [OF assms(1), of "ho_entities H"] assms(2)
  by (simp_all add: sorted_nodes_def node_order_def orders_ok_def)

lemma amap_insert_dom: "fst ` set (amap_insert k v m) = insert k (fst ` set m)"
  using amap_insert_keys [of k v m] by simp

lemma fold_insert_keys:
  "fst ` set (fold (\<lambda>(i, n). amap_insert n (f i)) xs m) = snd ` set xs \<union> fst ` set m"
proof (induction xs arbitrary: m)
  case (Cons x xs)
  then show ?case by (cases x) (simp add: amap_insert_dom)
qed simp

lemma fold_insert_wf: "amap_wf m \<Longrightarrow> amap_wf (fold (\<lambda>(i, n). amap_insert n (f i)) xs m)"
  by (induction xs arbitrary: m) auto

lemma initial_membership_ok: "amap_wf (initial_membership ids)" "fst ` set (initial_membership ids) = set ids"
  by (simp_all add: initial_membership_def fold_insert_wf fold_insert_keys) (metis image_set map_snd_enumerate)

text \<open>A membership of exactly these nodes.\<close>

definition members_of :: "string list \<Rightarrow> (string, nat) amap \<Rightarrow> bool" where
  "members_of nodes mem \<longleftrightarrow> amap_wf mem \<and> fst ` set mem = set nodes"

lemma members_of_lookup: "members_of nodes mem \<Longrightarrow> n \<in> set nodes \<Longrightarrow> \<exists>c. map_of mem n = Some c"
  by (metis members_of_def map_of_eq_None_iff option.exhaust)

lemma per_community_total:
  "members_of nodes mem \<Longrightarrow> fst ` set ns \<subseteq> set nodes \<Longrightarrow> \<exists>m'. per_community F mem ns m = Some m'"
proof (induction ns arbitrary: m)
  case (Cons x ns)
  obtain n w where x: "x = (n, w)" by (cases x)
  obtain c where "map_of mem n = Some c"
    using Cons.prems members_of_lookup [of nodes mem n] by (auto simp: x)
  then show ?case using Cons by (simp add: x)
qed simp

lemma move_node_total:
  assumes "members_of nodes mem" "node \<in> set nodes" "fst ` set (sorted_neighbours F H g node) \<subseteq> set nodes"
  shows "\<exists>moved' mem'. move_node F H g nodes node (moved, mem) = Some (moved', mem') \<and> members_of nodes mem'"
proof -
  obtain cur where cur: "map_of mem node = Some cur"
    using members_of_lookup [OF assms(1,2)] by blast
  obtain to_comm where tc: "per_community F mem (sorted_neighbours F H g node) [] = Some to_comm"
    using per_community_total [OF assms(1,3)] by blast
  obtain sg where sg: "per_community F mem (map (\<lambda>n. (n, degree_of F H g n)) (filter (\<lambda>n. n \<noteq> node) nodes)) [] = Some sg"
    using per_community_total [OF assms(1)] by (metis (no_types, lifting) filter_is_subset fst_conv image_set list.map_comp list.map_ident_strong comp_apply)
  have "members_of nodes (amap_insert node c mem)" for c
    using assms(1,2) by (auto simp: members_of_def amap_insert_dom)
  then show ?thesis
    using assms(1) by (simp add: move_node_def cur tc sg Let_def) blast
qed

lemma move_pass_total:
  assumes "\<And>n. n \<in> set nodes \<Longrightarrow> fst ` set (sorted_neighbours F H g n) \<subseteq> set nodes"
  shows "members_of nodes mem \<Longrightarrow> set ns \<subseteq> set nodes \<Longrightarrow>
    \<exists>moved' mem'. move_pass F H g nodes ns (moved, mem) = Some (moved', mem') \<and> members_of nodes mem'"
proof (induction ns arbitrary: moved mem)
  case (Cons n ns)
  obtain moved1 mem1 where "move_node F H g nodes n (moved, mem) = Some (moved1, mem1)" "members_of nodes mem1"
    using move_node_total [OF Cons.prems(1) _ assms, where node = n and moved = moved] Cons.prems(2) by auto
  then show ?case using Cons.IH [of mem1 moved1] Cons.prems(2) by simp
qed simp

lemma louvain_total:
  assumes "\<And>n. n \<in> set nodes \<Longrightarrow> fst ` set (sorted_neighbours F H g n) \<subseteq> set nodes"
  shows "members_of nodes mem \<Longrightarrow> \<exists>mem'. louvain F H g nodes k mem = Some mem' \<and> members_of nodes mem'"
proof (induction k arbitrary: mem)
  case (Suc k)
  obtain moved1 mem1 where "move_pass F H g nodes nodes (False, mem) = Some (moved1, mem1)" "members_of nodes mem1"
    using move_pass_total [OF assms Suc.prems subset_refl, where moved = False] by blast
  then show ?case using Suc.IH [of mem1] by simp
qed simp

lemma sorted_neighbours_closed:
  assumes "graph_wf g" "closed_graph g" "orders_ok H"
  shows "fst ` set (sorted_neighbours F H g n) \<subseteq> set (sorted_nodes H g)"
proof -
  have "fst ` set (sorted_neighbours F H g n) = {j. adjacent g n j}"
    using neighbours_keys [OF assms(1), of "ho_neighbours H" F n] assms(3) by (simp add: sorted_neighbours_def orders_ok_def)
  then show ?thesis
    unfolding sorted_nodes_set(1) [OF assms(1,3)] using closed_adjacent [OF assms(2)] by blast
qed

section \<open>Communities are the classes of the membership\<close>

definition classes :: "(string, nat) amap \<Rightarrow> community list \<Rightarrow> bool" where
  "classes mem cs \<longleftrightarrow> distinct (map cm_id cs) \<and> cm_id ` set cs = snd ` set mem \<and>
     (\<forall>c \<in> set cs. distinct (cm_members c) \<and> set (cm_members c) = {i. map_of mem i = Some (cm_id c)})"

lemma push_group_fold:
  fixes key :: "'a \<Rightarrow> 'k::linorder"
  assumes "amap_wf m"
  shows "amap_wf (fold (\<lambda>x. push_group (key x) (nm x)) xs m) \<and>
    map_of (fold (\<lambda>x. push_group (key x) (nm x)) xs m) c =
      (let old = map_of m c; new = map nm (filter (\<lambda>x. key x = c) xs)
       in if new = [] then old else Some ((case old of Some is \<Rightarrow> is | None \<Rightarrow> []) @ new))"
  using assms
proof (induction xs arbitrary: m)
  case (Cons x xs)
  have "amap_wf (push_group (key x) (nm x) m)" using Cons.prems by (simp add: push_group_def)
  then show ?case
    using Cons.IH [of "push_group (key x) (nm x) m"] Cons.prems by (auto simp: push_group_def Let_def split: option.splits)
qed simp

lemma amap_mem: "amap_wf m \<Longrightarrow> (k, v) \<in> set m \<longleftrightarrow> map_of m k = Some v"
  by (simp add: amap_wf_distinct)

lemma build_classes:
  assumes "amap_wf mem" "orders_ok H"
  shows "classes mem (build_communities H g mem)"
proof -
  let ?xs = "ho_membership H mem"
  let ?gr = "fold (\<lambda>x. push_group (snd x) (fst x)) ?xs []"
  have xs: "set ?xs = set mem" "distinct (map fst ?xs)"
    using assms permuting_set [of "ho_membership H"] permuting_distinct [of "ho_membership H" fst mem]
    by (simp_all add: orders_ok_def amap_wf_distinct)
  have wf: "amap_wf ?gr" and gr: "map_of ?gr c = (let new = map fst (filter (\<lambda>x. snd x = c) ?xs) in if new = [] then None else Some new)" for c
    using push_group_fold [of "[]" snd fst ?xs] by (auto simp: Let_def)
  have gs: "set (ho_groups H ?gr) = set ?gr" "distinct (map fst (ho_groups H ?gr))"
    using assms(2) wf permuting_set [of "ho_groups H"] permuting_distinct [of "ho_groups H" fst ?gr]
    by (simp_all add: orders_ok_def amap_wf_distinct)
  have b: "build_communities H g mem = map (\<lambda>(c, members). \<lparr> cm_id = c, cm_members = sort members,
      cm_summary = community_summary g (sort members) \<rparr>) (ho_groups H ?gr)"
    by (simp add: build_communities_def Let_def split_def)
  have ids: "map cm_id (build_communities H g mem) = map fst (ho_groups H ?gr)"
    unfolding b by (simp add: split_def)
  have "fst ` set ?gr = snd ` set mem"
  proof -
    have "c \<in> fst ` set ?gr \<longleftrightarrow> c \<in> snd ` set ?xs" for c
    proof -
      have "c \<in> fst ` set ?gr \<longleftrightarrow> filter (\<lambda>x. snd x = c) ?xs \<noteq> []"
        using map_of_eq_None_iff [of ?gr c] gr [of c] by (simp add: Let_def split: if_splits)
      then show ?thesis unfolding filter_empty_conv by (metis (no_types, lifting) image_iff)
    qed
    then show ?thesis unfolding xs(1) by blast
  qed
  then have keys: "cm_id ` set (build_communities H g mem) = snd ` set mem"
  proof -
    have "set (map cm_id (build_communities H g mem)) = set (map fst (ho_groups H ?gr))" unfolding ids ..
    then show ?thesis using \<open>fst ` set ?gr = snd ` set mem\<close> gs(1) by simp
  qed
  have "distinct (cm_members c) \<and> set (cm_members c) = {i. map_of mem i = Some (cm_id c)}"
    if c: "c \<in> set (build_communities H g mem)" for c
  proof -
    obtain k ms where k: "(k, ms) \<in> set ?gr" "cm_id c = k" "cm_members c = sort ms"
      using c unfolding b by (auto simp: gs(1))
    then have ms: "ms = map fst (filter (\<lambda>x. snd x = k) ?xs)"
      using amap_mem [OF wf, of k ms] gr [of k] k(1) by (auto simp: Let_def split: if_splits)
    have "set ms = {i. map_of mem i = Some k}"
      unfolding ms using amap_mem [OF assms(1)] xs(1) by force
    then show ?thesis
      using xs(2) by (simp add: k ms distinct_map_filter)
  qed
  then show ?thesis using ids gs(2) keys by (simp add: classes_def)
qed

lemma classes_partition:
  assumes "classes mem cs" "amap_wf mem"
  shows "distinct (concat (map cm_members cs))" "set (concat (map cm_members cs)) = fst ` set mem"
    "list_all (\<lambda>c. list_all (\<lambda>i. for_node \<lparr> cs_communities = cs, cs_membership = mem \<rparr> i = Some c) (cm_members c)) cs"
proof -
  have cl: "distinct (map cm_id cs)" "cm_id ` set cs = snd ` set mem"
    "\<And>c. c \<in> set cs \<Longrightarrow> distinct (cm_members c) \<and> set (cm_members c) = {i. map_of mem i = Some (cm_id c)}"
    using assms(1) by (auto simp: classes_def)
  have uniq: "c = d" if "c \<in> set cs" "d \<in> set cs" "cm_id c = cm_id d" for c d
    using that cl(1) by (metis distinct_map inj_on_def)
  show "list_all (\<lambda>c. list_all (\<lambda>i. for_node \<lparr> cs_communities = cs, cs_membership = mem \<rparr> i = Some c) (cm_members c)) cs"
    unfolding list_all_iff
  proof (intro ballI)
    fix c i assume c: "c \<in> set cs" and "i \<in> set (cm_members c)"
    then have i: "map_of mem i = Some (cm_id c)" using cl(3) by blast
    obtain d where d: "find (\<lambda>x. cm_id x = cm_id c) cs = Some d"
      using c by (cases "find (\<lambda>x. cm_id x = cm_id c) cs") (auto simp: find_None_iff)
    then have "d \<in> set cs" "cm_id d = cm_id c" by (auto simp: find_Some_iff)
    then show "for_node \<lparr> cs_communities = cs, cs_membership = mem \<rparr> i = Some c"
      using i d uniq [OF _ c] by (simp add: for_node_def)
  qed
  show "set (concat (map cm_members cs)) = fst ` set mem"
  proof -
    have "(\<exists>c \<in> set cs. map_of mem i = Some (cm_id c)) \<longleftrightarrow> i \<in> fst ` set mem" for i
      using cl(2) amap_mem [OF assms(2), of i] by (metis (no_types, lifting) image_iff fst_conv prod.collapse snd_conv)
    moreover have "set (concat (map cm_members cs)) = {i. \<exists>c \<in> set cs. map_of mem i = Some (cm_id c)}"
      using cl(3) by auto
    ultimately show ?thesis by blast
  qed
  show "distinct (concat (map cm_members cs))"
    using cl(1,3)
  proof (induction cs)
    case (Cons c cs)
    have "set (cm_members c) \<inter> set (cm_members d) = {}" if "d \<in> set cs" for d
      using that Cons.prems by (fastforce simp: image_iff)
    then show ?case using Cons by auto
  qed simp
qed

section \<open>Renumbering\<close>

lemma remap_fold:
  "distinct (map cm_id cs) \<Longrightarrow> n < length cs \<Longrightarrow>
    fold (\<lambda>(n, c) m. m(cm_id c \<mapsto> f n)) (enumerate k cs) m (cm_id (cs ! n)) = Some (f (k + n) :: nat)"
proof (induction cs arbitrary: k m n)
  case (Cons c cs)
  have other: "fold (\<lambda>(n, c) m. m(cm_id c \<mapsto> f n)) (enumerate k cs) m i = m i" if "i \<notin> cm_id ` set cs" for k m i
    using that by (induction cs arbitrary: k m) auto
  show ?case
  proof (cases n)
    case 0
    have "fold (\<lambda>(n, c) m. m(cm_id c \<mapsto> f n)) (enumerate (Suc k) cs) (m(cm_id c \<mapsto> f k)) (cm_id c) = Some (f k)"
      using Cons.prems(1) by (subst other) auto
    then show ?thesis using 0 by (simp del: fun_upd_apply)
  next
    case (Suc n')
    then show ?thesis using Cons.IH [of n' "Suc k"] Cons.prems by simp
  qed
qed simp

lemma renumber_classes:
  assumes "classes mem cs" "amap_wf mem" "length mem \<le> 2 ^ 32"
  shows "\<exists>cs' mem'. renumber cs mem = Some \<lparr> cs_communities = cs', cs_membership = mem' \<rparr> \<and> classes mem' cs' \<and>
    amap_wf mem' \<and> fst ` set mem' = fst ` set mem"
proof -
  define cs0 where "cs0 = sort_by (\<lambda>a b. compare_num (length (cm_members b)) (length (cm_members a))) cs"
  define remap where "remap = fold (\<lambda>(n, c) m. m(cm_id c \<mapsto> n mod 2 ^ 32)) (enumerate 0 cs0) (Map.empty :: nat \<rightharpoonup> nat)"
  have set0: "set cs0 = set cs" by (simp add: cs0_def)
  have d0: "distinct (map cm_id cs0)" using assms(1) by (simp add: cs0_def classes_def)
  have "length cs0 = card (cm_id ` set cs0)" using d0 by (metis distinct_card image_set length_map)
  also have "\<dots> = card (snd ` set mem)" using assms(1) set0 by (simp add: classes_def)
  also have "\<dots> \<le> length mem" by (meson card_image_le card_length finite_set order_trans)
  finally have len: "length cs0 \<le> 2 ^ 32" using assms(3) by simp
  have rm: "remap (cm_id (cs0 ! n)) = Some n" if "n < length cs0" for n
    unfolding remap_def using remap_fold [OF d0 that, of "\<lambda>n. n mod 2 ^ 32" 0 Map.empty] that len by simp
  have total: "\<exists>n < length cs0. cm_id (cs0 ! n) = c" if "(i, c) \<in> set mem" for i c
  proof -
    have "c \<in> cm_id ` set cs0" using that assms(1) set0 by (force simp: classes_def)
    then show ?thesis by (auto simp: in_set_conv_nth)
  qed
  have all: "list_all (\<lambda>(_, c). remap c \<noteq> None) mem"
    unfolding list_all_iff using total rm by fastforce
  define mem' where "mem' = map (\<lambda>(i, c). (i, the (remap c))) mem"
  define cs' where "cs' = map (\<lambda>(n, c). c\<lparr> cm_id := n mod 2 ^ 32 \<rparr>) (enumerate 0 cs0)"
  have keys: "map fst mem' = map fst mem" by (simp add: mem'_def split_def)
  then have wf': "amap_wf mem'" using assms(2) by (simp add: amap_wf_def)
  have look: "map_of mem' i = Some n \<longleftrightarrow> map_of mem i = Some (cm_id (cs0 ! n))" if n: "n < length cs0" for i n
  proof -
    have "map_of mem' i = map_option (\<lambda>c. the (remap c)) (map_of mem i)"
      unfolding mem'_def by (simp add: map_of_map)
    moreover have "the (remap c) = n \<longleftrightarrow> c = cm_id (cs0 ! n)" if c: "map_of mem i = Some c" for c
    proof -
      obtain k where k: "k < length cs0" "cm_id (cs0 ! k) = c" using total [OF map_of_SomeD [OF c]] by blast
      have "remap c = Some k" using rm [OF k(1)] unfolding k(2) .
      then have "the (remap c) = k" by simp
      show ?thesis
      proof
        assume "the (remap c) = n"
        with \<open>the (remap c) = k\<close> have "k = n" by simp
        then show "c = cm_id (cs0 ! n)" using k(2) by simp
      next
        assume "c = cm_id (cs0 ! n)"
        then show "the (remap c) = n" using rm [OF n] by simp
      qed
    qed
    ultimately show ?thesis by (cases "map_of mem i") auto
  qed
  have nth: "length cs' = length cs0" "\<And>n. n < length cs0 \<Longrightarrow> cs' ! n = (cs0 ! n)\<lparr> cm_id := n \<rparr>"
    using len by (simp_all add: cs'_def nth_enumerate_eq)
  have ids: "map cm_id cs' = [0..<length cs0]"
    using nth by (intro nth_equalityI) simp_all
  have "snd ` set mem' = {0..<length cs0}"
  proof -
    have "n \<in> snd ` set mem'" if "n < length cs0" for n
    proof -
      have "cm_id (cs0 ! n) \<in> snd ` set mem" using assms(1) set0 that by (metis classes_def image_eqI nth_mem)
      then obtain i where "map_of mem i = Some (cm_id (cs0 ! n))" using amap_mem [OF assms(2)] by force
      then show ?thesis using look [OF that, of i] amap_mem [OF wf'] by force
    qed
    moreover have "snd ` set mem' \<subseteq> {0..<length cs0}"
      unfolding mem'_def using total rm by fastforce
    ultimately show ?thesis by auto
  qed
  moreover have "distinct (cm_members c) \<and> set (cm_members c) = {i. map_of mem' i = Some (cm_id c)}" if "c \<in> set cs'" for c
  proof -
    obtain n where n: "n < length cs0" "c = (cs0 ! n)\<lparr> cm_id := n \<rparr>"
    proof -
      obtain n where "n < length cs'" "cs' ! n = c" using \<open>c \<in> set cs'\<close> by (metis in_set_conv_nth)
      then show thesis using nth by (intro that [of n]) simp_all
    qed
    have "cs0 ! n \<in> set cs" using n(1) set0 nth_mem by blast
    then have "distinct (cm_members (cs0 ! n)) \<and> set (cm_members (cs0 ! n)) = {i. map_of mem i = Some (cm_id (cs0 ! n))}"
      using assms(1) unfolding classes_def by blast
    then show ?thesis using look [OF n(1)] by (simp add: n(2))
  qed
  ultimately have "classes mem' cs'"
    unfolding classes_def using ids by (simp add: image_set [symmetric] del: image_set) (metis atLeast_upt list.set_map set_upt)
  moreover have "renumber cs mem = Some \<lparr> cs_communities = cs', cs_membership = mem' \<rparr>"
    unfolding renumber_def Let_def cs0_def [symmetric] remap_def [symmetric] mem'_def cs'_def remap_membership_def if_P [OF all] by simp
  moreover have "fst ` set mem' = fst ` set mem" using keys by (metis image_set)
  ultimately show ?thesis using wf' by blast
qed

section \<open>Partitions\<close>

lemma amap_length: "amap_wf m \<Longrightarrow> length m = card (fst ` set m)"
  by (metis amap_wf_distinct distinct_card image_set length_map)

lemma detect_partition:
  assumes "graph_wf g" "closed_graph g" "orders_ok H" "length (g_nodes g) \<le> 2 ^ 32"
  shows "\<exists>cs. detect_communities F H g = Some cs \<and> distinct (concat (map cm_members (cs_communities cs))) \<and>
    set (concat (map cm_members (cs_communities cs))) = {i. graph_node g i \<noteq> None} \<and>
    list_all (\<lambda>c. list_all (\<lambda>i. for_node cs i = Some c) (cm_members c)) (cs_communities cs)"
proof -
  let ?nodes = "sorted_nodes H g"
  let ?mem = "initial_membership ?nodes"
  have nodes: "set ?nodes = {i. graph_node g i \<noteq> None}" using sorted_nodes_set [OF assms(1,3)] by blast
  have fin: "distinct (concat (map cm_members cs)) \<and> set (concat (map cm_members cs)) = {i. graph_node g i \<noteq> None} \<and>
      list_all (\<lambda>c. list_all (\<lambda>i. for_node \<lparr> cs_communities = cs, cs_membership = mem \<rparr> i = Some c) (cm_members c)) cs"
    if "classes mem cs" "amap_wf mem" "fst ` set mem = set ?nodes" for cs mem
    using classes_partition [OF that(1,2)] that(3) nodes by simp
  have m0: "members_of ?nodes ?mem"
    using initial_membership_ok [of ?nodes] by (simp add: members_of_def)
  show ?thesis
  proof (cases "f_eq F (total_weight F H g) (f_rat F (0, 1))")
    case True
    have "detect_communities F H g = Some \<lparr> cs_communities = build_communities H g ?mem, cs_membership = ?mem \<rparr>"
      using True by (simp add: detect_communities_def Let_def)
    moreover have "classes ?mem (build_communities H g ?mem)" "amap_wf ?mem" "fst ` set ?mem = set ?nodes"
      using m0 build_classes [OF _ assms(3)] by (simp_all add: members_of_def)
    ultimately show ?thesis using fin by fastforce
  next
    case False
    obtain mem where mem: "louvain F H g ?nodes 8 ?mem = Some mem" "members_of ?nodes mem"
      using louvain_total [OF sorted_neighbours_closed [OF assms(1-3)] m0] by blast
    have wf: "amap_wf mem" "fst ` set mem = set ?nodes" using mem(2) by (simp_all add: members_of_def)
    have "length mem = length (g_nodes g)"
      using amap_length [OF wf(1)] amap_length [of "g_nodes g"] wf(2) nodes graph_keys [OF assms(1)] assms(1)
      by (simp add: graph_wf_def)
    then obtain cs' mem' where r: "renumber (build_communities H g mem) mem = Some \<lparr> cs_communities = cs', cs_membership = mem' \<rparr>"
      "classes mem' cs'" "amap_wf mem'" "fst ` set mem' = set ?nodes"
      using renumber_classes [OF build_classes [OF wf(1) assms(3)] wf(1)] assms(4) wf(2) by metis
    then have "detect_communities F H g = Some \<lparr> cs_communities = cs', cs_membership = mem' \<rparr>"
      using False mem(1) by (simp add: detect_communities_def Let_def)
    then show ?thesis using fin [OF r(2-4)] by simp
  qed
qed

text \<open>
  C28. On a graph whose edges join known nodes, community detection returns, whatever the order of the hash
  maps and whatever the floats, and its communities partition the nodes: every node is a member of exactly
  one, and looking a node up gives the community it is listed in.
\<close>

theorem communities_partition:
  assumes "graph_wf g" "closed_graph g" "orders_ok H" "length (g_nodes g) \<le> 2 ^ 32"
  shows "\<exists>cs. detect_communities F H g = Some cs \<and> distinct (concat (map cm_members (cs_communities cs))) \<and>
    set (concat (map cm_members (cs_communities cs))) = {i. graph_node g i \<noteq> None} \<and>
    list_all (\<lambda>c. list_all (\<lambda>i. for_node cs i = Some c) (cm_members c)) (cs_communities cs)"
  by (rule detect_partition [OF assms])

definition plain_orders :: "'f hash_orders" where
  "plain_orders = \<lparr> ho_entities = (\<lambda>xs. xs), ho_neighbours = (\<lambda>xs. xs), ho_degrees = (\<lambda>xs. xs), ho_membership = (\<lambda>xs. xs),
     ho_groups = (\<lambda>xs. xs), ho_modules = (\<lambda>xs. xs) \<rparr>"

lemma plain_orders_ok [simp]: "orders_ok plain_orders"
  by (simp add: orders_ok_def plain_orders_def)

theorem communities_partition_witness:
  "\<exists>cs. detect_communities rat_ops plain_orders (with_demo_corpus rat_ops) = Some cs"
  using communities_partition [OF demo_corpus_closed plain_orders_ok, of rat_ops] demo_node_count [of rat_ops] by fastforce

text \<open>An edge to an unknown node makes detection panic.\<close>

lemma dangling_edge_panics:
  "detect_communities rat_ops plain_orders
     (add_edge \<lparr> ed_from = ''a'', ed_to = ''b'', ed_kind = Calls, ed_weight = 1 \<rparr>
       (add_entity \<lparr> e_id = ''a'', e_kind = Rfc, e_label = ''a'', e_description = None, e_uri = None, e_tags = [] \<rparr> graph_new)) = None"
  (is "detect_communities _ _ ?g = None")
proof -
  have nb: "sorted_neighbours rat_ops plain_orders ?g ''a'' = [(''b'', 1)]"
    by (simp add: sorted_neighbours_def undirected_neighbours_def undirected_map_def outbound_def inbound_def add_edge_def add_entity_def
        graph_new_def adj_push_def adj_list_def bump_def plain_orders_def Fract_of_int_quotient)
  have nodes: "sorted_nodes plain_orders ?g = [''a'']"
    by (simp add: sorted_nodes_def add_edge_def add_entity_def graph_new_def plain_orders_def)
  have total: "total_weight rat_ops plain_orders ?g = 1 / 2"
  proof -
    have d: "map (degree_of rat_ops plain_orders ?g) (sorted_nodes plain_orders ?g) = [1]"
      by (simp add: nodes degree_of_def nb f_sum_rat)
    show ?thesis unfolding total_weight_def d by (simp add: f_sum_rat plain_orders_def Fract_of_int_quotient)
  qed
  have "louvain rat_ops plain_orders ?g [''a''] (Suc k) (initial_membership [''a'']) = None" for k
    by (simp add: initial_membership_def move_node_def nb)
  from this [of 7] show ?thesis
    unfolding detect_communities_def Let_def nodes total by (simp add: Fract_of_int_quotient del: louvain.simps)
qed

section \<open>Levels of the summary tree\<close>

lemma mset_concat_eq: "mset xs = mset ys \<Longrightarrow> mset (concat xs) = mset (concat ys)"
proof -
  assume "mset xs = mset ys"
  then have "mset (map mset xs) = mset (map mset ys)" by simp
  then show ?thesis unfolding mset_concat by (simp only: sum_mset_sum_list [symmetric])
qed

lemma distinct_concat_groups:
  "distinct (map fst gr) \<Longrightarrow> \<forall>c a. (c, a) \<in> set gr \<longrightarrow> distinct a \<Longrightarrow>
    \<forall>c a d b. (c, a) \<in> set gr \<longrightarrow> (d, b) \<in> set gr \<longrightarrow> c \<noteq> d \<longrightarrow> set a \<inter> set b = {} \<Longrightarrow> distinct (concat (map snd gr))"
proof (induction gr)
  case (Cons x gr)
  obtain c a where x: "x = (c, a)" by (cases x)
  have "set a \<inter> set b = {}" if b: "b \<in> snd ` set gr" for b
  proof -
    obtain d where d: "(d, b) \<in> set gr" using b by force
    then have "c \<noteq> d" using Cons.prems(1) x by force
    then show ?thesis using Cons.prems(3) d x by (metis list.set_intros)
  qed
  then have "set a \<inter> set (concat (map snd gr)) = {}" by auto
  moreover have "distinct a" using Cons.prems(2) x by (metis list.set_intros(1))
  moreover have "distinct (concat (map snd gr))"
    using Cons.prems by (intro Cons.IH) (simp, meson list.set_intros(2), meson list.set_intros(2))
  ultimately show ?case by (simp add: x)
qed simp

lemma concat_groups:
  fixes key :: "'a \<Rightarrow> 'k::linorder"
  assumes "distinct (map nm xs)"
  defines "gr \<equiv> fold (\<lambda>x. push_group (key x) (nm x)) xs []"
  shows "amap_wf gr" "distinct (concat (map snd gr))" "set (concat (map snd gr)) = nm ` set xs"
proof -
  have gr: "amap_wf gr" "map_of gr c = (let new = map nm (filter (\<lambda>x. key x = c) xs) in if new = [] then None else Some new)" for c
    using push_group_fold [of "[]" key nm xs] by (auto simp: gr_def Let_def)
  show wf: "amap_wf gr" by (rule gr(1))
  have mem: "(c, is) \<in> set gr \<longleftrightarrow> is \<noteq> [] \<and> is = map nm (filter (\<lambda>x. key x = c) xs)" for c "is"
    using amap_mem [OF wf, of c "is"] gr(2) [of c] by (auto simp: Let_def split: if_splits)
  show "set (concat (map snd gr)) = nm ` set xs"
  proof
    show "set (concat (map snd gr)) \<subseteq> nm ` set xs" using mem by fastforce
    show "nm ` set xs \<subseteq> set (concat (map snd gr))"
    proof
      fix i assume "i \<in> nm ` set xs"
      then obtain x where x: "x \<in> set xs" "i = nm x" by blast
      then have "(key x, map nm (filter (\<lambda>y. key y = key x) xs)) \<in> set gr"
        unfolding mem by (auto simp: filter_empty_conv)
      then have "map nm (filter (\<lambda>y. key y = key x) xs) \<in> set (map snd gr)" by force
      then show "i \<in> set (concat (map snd gr))" unfolding set_concat by (rule UN_I) (use x in auto)
    qed
  qed
  have inj: "x = y" if "x \<in> set xs" "y \<in> set xs" "nm x = nm y" for x y
    using that assms(1) by (metis distinct_map inj_on_def)
  have disj: "set a \<inter> set b = {}" if "(c, a) \<in> set gr" "(d, b) \<in> set gr" "c \<noteq> d" for a b c d
  proof -
    have "a = map nm (filter (\<lambda>x. key x = c) xs)" "b = map nm (filter (\<lambda>x. key x = d) xs)"
      using that(1,2) mem by blast+
    then show ?thesis using that(3) inj by auto
  qed
  have "distinct a" if "(c, a) \<in> set gr" for a c
    using that assms(1) unfolding mem by (auto simp: distinct_map_filter)
  then show "distinct (concat (map snd gr))"
    using amap_wf_distinct [OF wf] disj by (intro distinct_concat_groups) blast+
qed

definition level_members :: "raptor_level \<Rightarrow> string list" where
  "level_members l = concat (map rn_members (rl_nodes l))"

text \<open>
  Building the graph engine on a graph whose edges join known nodes returns an engine with a summary tree of
  three levels, the entities, the communities and the modules, each of which mentions every node exactly once.
\<close>

lemma raptor_levels_partition:
  assumes "graph_wf g" "closed_graph g" "orders_ok H" "length (g_nodes g) \<le> 2 ^ 32"
  shows "\<exists>eng. graph_engine_new F upper H g = Some eng \<and> map rl_level (rt_levels (ge_raptor eng)) = [0, 1, 2] \<and>
    list_all (\<lambda>l. distinct (level_members l) \<and> set (level_members l) = {i. graph_node g i \<noteq> None}) (rt_levels (ge_raptor eng))"
proof -
  obtain cs where cs: "detect_communities F H g = Some cs" "distinct (concat (map cm_members (cs_communities cs)))"
    "set (concat (map cm_members (cs_communities cs))) = {i. graph_node g i \<noteq> None}"
    using detect_partition [OF assms] by blast
  let ?es = "ho_entities H (map snd (g_nodes g))"
  let ?gr = "fold (\<lambda>e. push_group (module_of e) (e_id e)) ?es []"
  have es: "distinct (map e_id ?es)" "e_id ` set ?es = {i. graph_node g i \<noteq> None}"
    using node_order_ids [OF assms(1), of "ho_entities H"] assms(3) by (simp_all add: node_order_def orders_ok_def)
  note gr = concat_groups [OF es(1), of module_of]
  have perm: "mset (map snd (ho_modules H ?gr)) = mset (map snd ?gr)"
    using assms(3) by (simp add: orders_ok_def permuting_def)
  note m = mset_concat_eq [OF perm]
  have "distinct (concat (map snd (ho_modules H ?gr)))" "set (concat (map snd (ho_modules H ?gr))) = e_id ` set ?es"
    using gr(2,3) mset_eq_imp_distinct_iff [OF m] mset_eq_setD [OF m] by simp_all
  then have l2: "distinct (level_members \<lparr> rl_level = 2, rl_nodes = map (module_node upper g) (ho_modules H ?gr) \<rparr>)"
    "set (level_members \<lparr> rl_level = 2, rl_nodes = map (module_node upper g) (ho_modules H ?gr) \<rparr>) = {i. graph_node g i \<noteq> None}"
    by (simp_all add: level_members_def module_node_def o_def split_def es(2))
  have l0: "level_members \<lparr> rl_level = 0, rl_nodes = map leaf_of ?es \<rparr> = map e_id ?es"
    by (simp add: level_members_def leaf_of_def o_def concat_map_singleton)
  have l1: "level_members \<lparr> rl_level = 1, rl_nodes = map community_node (cs_communities cs) \<rparr> = concat (map cm_members (cs_communities cs))"
    by (simp add: level_members_def community_node_def o_def)
  have "graph_engine_new F upper H g = Some \<lparr> ge_graph = g, ge_communities = cs, ge_raptor = build_raptor_tree upper H g cs \<rparr>"
    by (simp add: graph_engine_new_def cs(1))
  then show ?thesis
    using es l0 l1 l2 cs(2,3) by (simp add: build_raptor_tree_def Let_def)
qed

text \<open>The router always picks a layer, the multi-hop layer whenever a multi-hop word occurs and otherwise the global layers only for global questions.\<close>

lemma route_layers:
  "route lower query hint = (if list_ex (contains_sub (lower query)) multi_hop_words then [''L4'']
     else if hint = Some ''global'' \<or> list_ex (contains_sub (lower query)) global_words then [''L3'', ''L5''] else [''L2''])"
  by (simp add: route_def Let_def)

end
