(* ===== verification/Fixtures.thy ===== *)
theory Fixtures
  imports Sap_Client
begin

text \<open>
  The fixtures of the offline client (\<open>crates/sap-automate-rfc/src/client.rs\<close>, \<open>seed_functions\<close> and
  \<open>seed_tables\<close>), one definition per entry, and \<open>MockSapClient::new\<close>. A character outside ASCII is
  written as its UTF-8 bytes.
\<close>

definition opt_desc :: "string \<Rightarrow> string option" where
  "opt_desc d = (if d = [] then None else Some d)"

definition p_imp :: "string \<Rightarrow> string \<Rightarrow> bool \<Rightarrow> string \<Rightarrow> rfc_parameter" where
  "p_imp name ty opt desc =
     \<lparr> rp_name = name, rp_direction = Import, rp_type_token = ty, rp_optional = opt,
       rp_description = opt_desc desc, rp_default_value = None \<rparr>"

definition p_exp :: "string \<Rightarrow> string \<Rightarrow> bool \<Rightarrow> string \<Rightarrow> rfc_parameter" where
  "p_exp name ty opt desc =
     \<lparr> rp_name = name, rp_direction = Export, rp_type_token = ty, rp_optional = opt,
       rp_description = opt_desc desc, rp_default_value = None \<rparr>"

definition p_tab :: "string \<Rightarrow> string \<Rightarrow> bool \<Rightarrow> string \<Rightarrow> rfc_parameter" where
  "p_tab name ty opt desc =
     \<lparr> rp_name = name, rp_direction = Tables, rp_type_token = ty, rp_optional = opt,
       rp_description = opt_desc desc, rp_default_value = None \<rparr>"

definition p_imp_default :: "string \<Rightarrow> string \<Rightarrow> string \<Rightarrow> string \<Rightarrow> rfc_parameter" where
  "p_imp_default name ty def desc =
     \<lparr> rp_name = name, rp_direction = Import, rp_type_token = ty, rp_optional = True,
       rp_description = opt_desc desc, rp_default_value = Some def \<rparr>"

definition field_key :: "string \<Rightarrow> string \<Rightarrow> string \<Rightarrow> nat \<Rightarrow> string \<Rightarrow> table_field" where
  "field_key name data_element ty len desc =
     \<lparr> tf_name = name, tf_data_element = data_element, tf_type_token = ty, tf_length = len,
       tf_description = Some desc, tf_key = True \<rparr>"

definition field_plain :: "string \<Rightarrow> string \<Rightarrow> string \<Rightarrow> nat \<Rightarrow> string \<Rightarrow> table_field" where
  "field_plain name data_element ty len desc =
     \<lparr> tf_name = name, tf_data_element = data_element, tf_type_token = ty, tf_length = len,
       tf_description = Some desc, tf_key = False \<rparr>"

definition row_of :: "(string \<times> string) list \<Rightarrow> jmap" where
  "row_of pairs = fold (\<lambda>(k, v) m. amap_insert k (JString v) m) pairs []"

section \<open>Functions and tables\<close>

definition fn_RFC_SYSTEM_INFO :: rfc_function_meta where
  "fn_RFC_SYSTEM_INFO =
    \<lparr> fm_function = ''RFC_SYSTEM_INFO'',
      fm_description = ''Retrieve system identity (SID, client, release, host).'',
      fm_function_group = ''SUTL'',
      fm_package = Some ''SCSR'',
      fm_parameters = [p_exp ''RFCSI_EXPORT'' ''STRUCT(RFCSI)'' False ''System identity structure (RFCSI)''],
      fm_deprecated = False,
      fm_read_only = True,
      fm_commit_required = False,
      fm_authorization = [execute_group ''SUTL''],
      fm_s4hana_notes = None \<rparr>"

definition fn_BAPI_MATERIAL_GET_DETAIL :: rfc_function_meta where
  "fn_BAPI_MATERIAL_GET_DETAIL =
    \<lparr> fm_function = ''BAPI_MATERIAL_GET_DETAIL'',
      fm_description = ''Read material master detail.  Read-only; ECC and S/4HANA signatures identical.'',
      fm_function_group = ''MGV3'',
      fm_package = Some ''MGV3'',
      fm_parameters = [
        p_imp ''MATERIAL'' ''MATNR'' False (''Material number (CHAR 40 in S/4HANA, was CHAR 18 in ECC '' @ [CHR 0xE2, CHR 0x89, CHR 0xA4] @ '' 7.50)''),
        p_imp ''PLANT'' ''WERKS_D'' True ''Plant (for plant-specific view)'',
        p_imp ''VALUATIONAREA'' ''BWKEY'' True ''Valuation area'',
        p_imp ''MATERIALEVG'' ''STRUCT(BAPIMATEVG)'' True ''EAN / GTIN-only view filter'',
        p_exp ''MATERIAL_GENERAL_DATA'' ''STRUCT(BAPIMATDOA)'' False ''General data view (MARA)'',
        p_exp ''RETURN'' ''STRUCT(BAPIRET2)'' False ''Standard return structure'',
        p_exp ''MATERIALPLANTDATA'' ''STRUCT(BAPIE1MARCRT)'' True ''Plant view (MARC)'',
        p_exp ''MATERIALVALUATIONDATA'' ''STRUCT(BAPIE1MBEWRT)'' True ''Valuation view (MBEW)''],
      fm_deprecated = False,
      fm_read_only = True,
      fm_commit_required = False,
      fm_authorization = [execute_group ''MGV3''],
      fm_s4hana_notes = Some (''Material number length increased to CHAR(40) in S/4HANA per the MATN1 '' @ [CHR 0xE2, CHR 0x86, CHR 0x92] @ '' MATN9 conversion exit change.'') \<rparr>"

definition fn_BAPI_ACC_DOCUMENT_POST :: rfc_function_meta where
  "fn_BAPI_ACC_DOCUMENT_POST =
    \<lparr> fm_function = ''BAPI_ACC_DOCUMENT_POST'',
      fm_description = ''Post an accounting document (FI journal entry).  Does NOT auto-commit; caller must invoke BAPI_TRANSACTION_COMMIT.'',
      fm_function_group = ''ACC4'',
      fm_package = Some ''FBAS'',
      fm_parameters = [
        p_imp ''DOCUMENTHEADER'' ''STRUCT(BAPIACHE09)'' False ''Document header'',
        p_imp ''CUSTOMERCPD'' ''STRUCT(BAPIACPCA09)'' True ''One-time customer header'',
        p_imp ''CONTRACTHEADER'' ''STRUCT(BAPIACCAHD)'' True ''Contract header (FI-CA)'',
        p_exp ''OBJ_TYPE'' ''AWTYP'' False ''Reference object type'',
        p_exp ''OBJ_KEY'' ''AWKEY'' False ''Reference object key'',
        p_exp ''OBJ_SYS'' ''AWSYS'' False ''Logical system of object'',
        p_tab ''ACCOUNTGL'' ''STRUCT(BAPIACGL09)'' True ''G/L account items'',
        p_tab ''ACCOUNTRECEIVABLE'' ''STRUCT(BAPIACAR09)'' True ''Customer (AR) items'',
        p_tab ''ACCOUNTPAYABLE'' ''STRUCT(BAPIACAP09)'' True ''Vendor (AP) items'',
        p_tab ''ACCOUNTTAX'' ''STRUCT(BAPIACTX09)'' True ''Tax items'',
        p_tab ''CURRENCYAMOUNT'' ''STRUCT(BAPIACCR09)'' False ''Currency amounts per item'',
        p_tab ''CRITERIA'' ''STRUCT(BAPIACKEC9)'' True ''CO-PA characteristics'',
        p_tab ''VALUEFIELD'' ''STRUCT(BAPIACKEV9)'' True ''CO-PA value fields'',
        p_tab ''EXTENSION1'' ''STRUCT(BAPIPAREX)'' True ''Customer extension'',
        p_tab ''RETURN'' ''STRUCT(BAPIRET2)'' False ''Return messages'',
        p_tab ''PAYMENTCARD'' ''STRUCT(BAPIACPC09)'' True ''Payment card data'',
        p_tab ''REALESTATE'' ''STRUCT(BAPIACRE09)'' True ''Real estate items (FI-RE)'',
        p_tab ''ACCOUNTWT'' ''STRUCT(BAPIACWT09)'' True ''Withholding tax items'',
        p_tab ''EXTENSION2'' ''STRUCT(BAPIPAREXC)'' True ''Customer extension v2''],
      fm_deprecated = False,
      fm_read_only = False,
      fm_commit_required = True,
      fm_authorization = [execute_group ''ACC4''],
      fm_s4hana_notes = Some (''In S/4HANA the data lands in ACDOCA (Universal Journal). BSEG/BKPF/FAGLFLEXA remain queryable as compatibility views. ACDOCA carries the granular cost/profitability accounting too '' @ [CHR 0xE2, CHR 0x80, CHR 0x94] @ '' no separate CO-PA database.'') \<rparr>"

definition fn_BAPI_TRANSACTION_COMMIT :: rfc_function_meta where
  "fn_BAPI_TRANSACTION_COMMIT =
    \<lparr> fm_function = ''BAPI_TRANSACTION_COMMIT'',
      fm_description = ''Persist the current LUW.  Call this after any state-changing BAPI to actually commit the changes.'',
      fm_function_group = ''SBPT'',
      fm_package = Some ''SBPT'',
      fm_parameters = [
        p_imp_default ''WAIT'' ''CHAR(1)'' '' '' (''If '' @ [CHR 0x27] @ ''X'' @ [CHR 0x27] @ '', commit synchronously and wait for completion.''),
        p_exp ''RETURN'' ''STRUCT(BAPIRET2)'' False ''Standard return''],
      fm_deprecated = False,
      fm_read_only = False,
      fm_commit_required = False,
      fm_authorization = [execute_group ''SBPT''],
      fm_s4hana_notes = None \<rparr>"

definition fn_BAPI_TRANSACTION_ROLLBACK :: rfc_function_meta where
  "fn_BAPI_TRANSACTION_ROLLBACK =
    \<lparr> fm_function = ''BAPI_TRANSACTION_ROLLBACK'',
      fm_description = ''Roll back the current LUW.  Call after any failed BAPI to discard partial changes.'',
      fm_function_group = ''SBPT'',
      fm_package = Some ''SBPT'',
      fm_parameters = [p_exp ''RETURN'' ''STRUCT(BAPIRET2)'' False []],
      fm_deprecated = False,
      fm_read_only = False,
      fm_commit_required = False,
      fm_authorization = [execute_group ''SBPT''],
      fm_s4hana_notes = None \<rparr>"

definition fn_BAPI_PO_CREATE1 :: rfc_function_meta where
  "fn_BAPI_PO_CREATE1 =
    \<lparr> fm_function = ''BAPI_PO_CREATE1'',
      fm_description = ''Create a purchase order.  Does NOT auto-commit.'',
      fm_function_group = ''2012'',
      fm_package = Some ''MEBAPI'',
      fm_parameters = [
        p_imp ''POHEADER'' ''STRUCT(BAPIMEPOHEADER)'' False ''Purchase order header'',
        p_imp ''POHEADERX'' ''STRUCT(BAPIMEPOHEADERX)'' False ''Change indicators for header'',
        p_imp_default ''TESTRUN'' ''CHAR(1)'' '' '' (''If '' @ [CHR 0x27] @ ''X'' @ [CHR 0x27] @ '', simulate without DB writes''),
        p_exp ''EXPHEADER'' ''STRUCT(BAPIMEPOHEADER)'' False [],
        p_exp ''EXPPOEXPIMPHEADER'' ''STRUCT(BAPIMEPOEXPIMPHEADER)'' True ''Export/import header'',
        p_exp ''EXPPURCHASEORDER'' ''EBELN'' False ''Resulting PO number'',
        p_tab ''POITEM'' ''STRUCT(BAPIMEPOITEM)'' False ''Purchase order items'',
        p_tab ''POITEMX'' ''STRUCT(BAPIMEPOITEMX)'' False ''Change indicators for items'',
        p_tab ''POSCHEDULE'' ''STRUCT(BAPIMEPOSCHEDULE)'' True ''Schedule lines'',
        p_tab ''POSCHEDULEX'' ''STRUCT(BAPIMEPOSCHEDULX)'' True [],
        p_tab ''POACCOUNT'' ''STRUCT(BAPIMEPOACCOUNT)'' True ''Account assignment'',
        p_tab ''POACCOUNTX'' ''STRUCT(BAPIMEPOACCOUNTX)'' True [],
        p_tab ''POSERVICES'' ''STRUCT(BAPIESLLC)'' True ''Services lines'',
        p_tab ''RETURN'' ''STRUCT(BAPIRET2)'' False []],
      fm_deprecated = False,
      fm_read_only = False,
      fm_commit_required = True,
      fm_authorization = [execute_group ''2012''],
      fm_s4hana_notes = Some ''Cost-centre validation is stricter in S/4HANA (CKM3N replaced by ML simplification); the BAPI rejects postings to closed periods (T001B) earlier in the flow.'' \<rparr>"

definition fn_BAPI_SALESORDER_CREATEFROMDAT2 :: rfc_function_meta where
  "fn_BAPI_SALESORDER_CREATEFROMDAT2 =
    \<lparr> fm_function = ''BAPI_SALESORDER_CREATEFROMDAT2'',
      fm_description = ''Create a sales order from external data.  Does NOT auto-commit.'',
      fm_function_group = ''2032'',
      fm_package = Some ''V_BAPI'',
      fm_parameters = [
        p_imp ''ORDER_HEADER_IN'' ''STRUCT(BAPISDHD1)'' False ''Header data'',
        p_imp ''ORDER_HEADER_INX'' ''STRUCT(BAPISDHD1X)'' True ''Change indicators for header'',
        p_imp_default ''TESTRUN'' ''CHAR(1)'' '' '' ''Simulate without DB writes'',
        p_imp_default ''CONVERT'' ''CHAR(1)'' '' '' ''Convert business partner numbers'',
        p_exp ''SALESDOCUMENT'' ''VBELN'' False ''Resulting sales document'',
        p_tab ''ORDER_ITEMS_IN'' ''STRUCT(BAPISDITM)'' False ''Item data'',
        p_tab ''ORDER_ITEMS_INX'' ''STRUCT(BAPISDITMX)'' True [],
        p_tab ''ORDER_PARTNERS'' ''STRUCT(BAPIPARNR)'' True ''Partner functions'',
        p_tab ''ORDER_SCHEDULES_IN'' ''STRUCT(BAPISCHDL)'' True ''Schedule lines'',
        p_tab ''ORDER_CONDITIONS_IN'' ''STRUCT(BAPICOND)'' True ''Conditions (pricing)'',
        p_tab ''ORDER_TEXT'' ''STRUCT(BAPISDTEXT)'' True ''Text'',
        p_tab ''EXTENSIONIN'' ''STRUCT(BAPIPAREX)'' True [],
        p_tab ''RETURN'' ''STRUCT(BAPIRET2)'' False []],
      fm_deprecated = False,
      fm_read_only = False,
      fm_commit_required = True,
      fm_authorization = [execute_group ''2032''],
      fm_s4hana_notes = Some (''Customer (KUNNR) '' @ [CHR 0xE2, CHR 0x86, CHR 0x92] @ '' Business Partner (BUT000) unification: in S/4HANA the sold-to party in ORDER_PARTNERS is the BP role FLCU01.'') \<rparr>"

definition fn_BAPI_CUSTOMER_CHANGEFROMDATA1 :: rfc_function_meta where
  "fn_BAPI_CUSTOMER_CHANGEFROMDATA1 =
    \<lparr> fm_function = ''BAPI_CUSTOMER_CHANGEFROMDATA1'',
      fm_description = ''Change customer master data.  Does NOT auto-commit.'',
      fm_function_group = ''DEBI'',
      fm_package = Some ''VS'',
      fm_parameters = [
        p_imp ''CUSTOMERNO'' ''KUNNR'' False ''Customer (KUNNR)'',
        p_imp ''PI_CUSTOMERHEADER'' ''STRUCT(BAPIKNA101_HEAD)'' True ''General data (KNA1)'',
        p_imp ''PI_CUSTOMERCOMPANY'' ''STRUCT(BAPIKNB101)'' True ''Company-code data (KNB1)'',
        p_imp ''PI_CUSTOMERSALES'' ''STRUCT(BAPIKNVV01)'' True ''Sales-area data (KNVV)'',
        p_imp ''PI_COPYREFERENCE'' ''STRUCT(BAPIKNA110)'' True ''Copy reference customer'',
        p_tab ''PIT_BANKDETAILS'' ''STRUCT(BAPIKNBK01)'' True ''Bank details (KNBK)'',
        p_tab ''RETURN'' ''STRUCT(BAPIRET2)'' False []],
      fm_deprecated = False,
      fm_read_only = False,
      fm_commit_required = True,
      fm_authorization = [execute_group ''DEBI''],
      fm_s4hana_notes = Some ''In S/4HANA, customers are part of Business Partner.  This BAPI still works (KNA1 is a compatibility view) but the recommended path is the BP BAPI surface (CVI_*).'' \<rparr>"

definition fn_TMS_MGR_FORWARD_TR_REQUEST :: rfc_function_meta where
  "fn_TMS_MGR_FORWARD_TR_REQUEST =
    \<lparr> fm_function = ''TMS_MGR_FORWARD_TR_REQUEST'',
      fm_description = ''Forward a transport request to a target SAP system via TMS.'',
      fm_function_group = ''STMS_QA'',
      fm_package = Some ''STMS'',
      fm_parameters = [
        p_imp ''IV_TARGET_SYSTEM'' ''TMSSYSNAM'' False ''Target system (e.g. QAA, PRD)'',
        p_imp ''IV_REQUEST'' ''TRKORR'' False ''Transport request ID (TRKORR)'',
        p_imp_default ''IV_LANGU'' ''LANGU'' ''EN'' ''Language'',
        p_imp_default ''IV_TEST_IMPORT'' ''CHAR(1)'' '' '' ''Test import without commit'',
        p_exp ''EV_RC'' ''INT4'' False ''Return code (0 = ok)'',
        p_tab ''ET_MSG'' ''STRUCT(STMSMESS)'' True ''TMS messages''],
      fm_deprecated = False,
      fm_read_only = False,
      fm_commit_required = False,
      fm_authorization = [
        execute_group ''STMS_QA'',
        \<lparr> sa_object = ''S_CTS_ADMI'',
          sa_rfc_type = ''CTS_ADMFCT'',
          sa_rfc_name = ''TABL'',
          sa_actvt = ''*'' \<rparr>],
      fm_s4hana_notes = Some ''Transport request shape is unchanged in S/4HANA.  E070/E071 still authoritative.'' \<rparr>"

definition fn_RFC_READ_TABLE :: rfc_function_meta where
  "fn_RFC_READ_TABLE =
    \<lparr> fm_function = ''RFC_READ_TABLE'',
      fm_description = ''Generic transparent-table read with field projection + WHERE clause.  Subject to T999 row-length cap (512 bytes per row).'',
      fm_function_group = ''SDTX'',
      fm_package = Some ''SDTX'',
      fm_parameters = [
        p_imp ''QUERY_TABLE'' ''DDOBJNAME'' False ''Table name (DDIC)'',
        p_imp_default ''DELIMITER'' ''CHAR(1)'' '' '' ''Field delimiter for DATA rows'',
        p_imp_default ''NO_DATA'' ''CHAR(1)'' '' '' (''If '' @ [CHR 0x27] @ ''X'' @ [CHR 0x27] @ '', return only field metadata, no rows''),
        p_imp_default ''ROWSKIPS'' ''INT4'' ''0'' ''Skip n rows (paging)'',
        p_imp_default ''ROWCOUNT'' ''INT4'' ''0'' ''Max rows; 0 = unlimited (subject to memory)'',
        p_tab ''OPTIONS'' ''STRUCT(RFC_DB_OPT)'' True (''WHERE clauses (each row = one fragment '' @ [CHR 0xE2, CHR 0x89, CHR 0xA4] @ '' 72 chars)''),
        p_tab ''FIELDS'' ''STRUCT(RFC_DB_FLD)'' True ''Field projection'',
        p_tab ''DATA'' ''STRUCT(TAB512)'' False ''Returned rows (delimited)''],
      fm_deprecated = False,
      fm_read_only = True,
      fm_commit_required = False,
      fm_authorization = [
        execute_group ''SDTX'',
        \<lparr> sa_object = ''S_TABU_DIS'',
          sa_rfc_type = ''DICBERCLS'',
          sa_rfc_name = ''*'',
          sa_actvt = ''03'' \<rparr>],
      fm_s4hana_notes = Some ''In S/4HANA, RFC_READ_TABLE returns data from the underlying ACDOCA when the queried table (BSEG, FAGLFLEXA, COEP, etc.) is a compatibility view.  Per-row 512-byte cap still applies.'' \<rparr>"

definition fn_DDIF_FIELDINFO_GET :: rfc_function_meta where
  "fn_DDIF_FIELDINFO_GET =
    \<lparr> fm_function = ''DDIF_FIELDINFO_GET'',
      fm_description = ''Retrieve DDIC field metadata for a table or structure.'',
      fm_function_group = ''SDIC'',
      fm_package = Some ''SDIC'',
      fm_parameters = [
        p_imp ''TABNAME'' ''DDOBJNAME'' False ''Table or structure name'',
        p_imp ''FIELDNAME'' ''DFIES-FIELDNAME'' True ''Restrict to one field'',
        p_imp_default ''LANGU'' ''LANGU'' ''EN'' ''Description language'',
        p_imp ''LFIELDNAME'' ''DFIES-LFIELDNAME'' True ''Long-text restriction'',
        p_imp_default ''ALL_TYPES'' ''CHAR(1)'' '' '' ''Include reference + table types'',
        p_imp_default ''GROUP_NAMES'' ''CHAR(1)'' '' '' ''Include group field names'',
        p_exp ''X030L_WA'' ''STRUCT(X030L)'' False ''Header metadata'',
        p_exp ''DDOBJTYPE'' ''DDOBJTYP'' False ''Object type (TABL / STRU / VIEW / ...)'',
        p_exp ''DFIES_WA'' ''STRUCT(DFIES)'' True ''Single-field metadata'',
        p_exp ''LINES_DESCR'' ''STRUCT(DDFIELDDESCR)'' True [],
        p_tab ''DFIES_TAB'' ''STRUCT(DFIES)'' False ''Field metadata rows'',
        p_tab ''FIXED_VALUES'' ''STRUCT(DDFIXVALUES)'' True ''Domain fixed values''],
      fm_deprecated = False,
      fm_read_only = True,
      fm_commit_required = False,
      fm_authorization = [execute_group ''SDIC''],
      fm_s4hana_notes = None \<rparr>"

definition seed_functions :: "rfc_function_meta list" where
  "seed_functions = [fn_RFC_SYSTEM_INFO, fn_BAPI_MATERIAL_GET_DETAIL, fn_BAPI_ACC_DOCUMENT_POST, fn_BAPI_TRANSACTION_COMMIT, fn_BAPI_TRANSACTION_ROLLBACK, fn_BAPI_PO_CREATE1, fn_BAPI_SALESORDER_CREATEFROMDAT2, fn_BAPI_CUSTOMER_CHANGEFROMDATA1, fn_TMS_MGR_FORWARD_TR_REQUEST, fn_RFC_READ_TABLE, fn_DDIF_FIELDINFO_GET]"

definition tab_MARA :: mock_table where
  "tab_MARA =
    \<lparr> mt_structure = \<lparr> ts_table = ''MARA'',
        ts_description = ''General Material Data'',
        ts_fields = [
          field_key ''MANDT'' ''MANDT'' ''CLNT'' 3 ''Client (SAP system tenant)'',
          field_key ''MATNR'' ''MATNR'' ''CHAR'' 40 (''Material number '' @ [CHR 0xE2, CHR 0x80, CHR 0x94] @ '' CHAR(40) in S/4HANA, CHAR(18) in ECC '' @ [CHR 0xE2, CHR 0x89, CHR 0xA4] @ '' 7.50''),
          field_plain ''ERSDA'' ''ERSDA'' ''DATS'' 8 ''Created on (YYYYMMDD)'',
          field_plain ''ERNAM'' ''ERNAM'' ''CHAR'' 12 ''Created by (user)'',
          field_plain ''MTART'' ''MTART'' ''CHAR'' 4 ''Material type (ROH, FERT, HAWA, ...)'',
          field_plain ''MBRSH'' ''MBRSH'' ''CHAR'' 1 ''Industry sector'',
          field_plain ''MATKL'' ''MATKL'' ''CHAR'' 9 ''Material group'',
          field_plain ''MEINS'' ''MEINS'' ''UNIT'' 3 ''Base unit of measure (T006)'',
          field_plain ''BISMT'' ''BISMT'' ''CHAR'' 18 ''Old material number (ECC backwards)''],
        ts_key_fields = [''MANDT'', ''MATNR''],
        ts_authorization_group = ''MA'',
        ts_s4hana_storage = None \<rparr>,
      mt_rows = [
        row_of [(''MANDT'', ''100''), (''MATNR'', ''FIN-RAW-001''), (''MTART'', ''ROH''), (''MEINS'', ''KG''), (''MBRSH'', ''M''), (''ERSDA'', ''20240901''), (''ERNAM'', ''SAP_DEV'')],
        row_of [(''MANDT'', ''100''), (''MATNR'', ''FIN-FERT-77''), (''MTART'', ''FERT''), (''MEINS'', ''PC''), (''MBRSH'', ''M''), (''ERSDA'', ''20240915''), (''ERNAM'', ''SAP_DEV'')],
        row_of [(''MANDT'', ''100''), (''MATNR'', ''TRADE-HAWA-12''), (''MTART'', ''HAWA''), (''MEINS'', ''PC''), (''MBRSH'', ''H''), (''ERSDA'', ''20251001''), (''ERNAM'', ''SAP_DEV'')]] \<rparr>"

definition tab_T001 :: mock_table where
  "tab_T001 =
    \<lparr> mt_structure = \<lparr> ts_table = ''T001'',
        ts_description = ''Company Codes'',
        ts_fields = [
          field_key ''MANDT'' ''MANDT'' ''CLNT'' 3 ''Client'',
          field_key ''BUKRS'' ''BUKRS'' ''CHAR'' 4 ''Company code'',
          field_plain ''BUTXT'' ''BUTXT'' ''CHAR'' 25 ''Company code name'',
          field_plain ''ORT01'' ''ORT01'' ''CHAR'' 25 ''City'',
          field_plain ''LAND1'' ''LAND1'' ''CHAR'' 3 ''Country key (ISO 3166-1 alpha-3 mapping in T005)'',
          field_plain ''WAERS'' ''WAERS'' ''CUKY'' 5 ''Local currency'',
          field_plain ''SPRAS'' ''SPRAS'' ''LANG'' 1 ''Language'',
          field_plain ''KTOPL'' ''KTOPL'' ''CHAR'' 4 ''Chart of accounts'',
          field_plain ''PERIV'' ''PERIV'' ''CHAR'' 2 ''Fiscal year variant''],
        ts_key_fields = [''MANDT'', ''BUKRS''],
        ts_authorization_group = ''FC'',
        ts_s4hana_storage = None \<rparr>,
      mt_rows = [
        row_of [(''MANDT'', ''100''), (''BUKRS'', ''1000''), (''BUTXT'', ''Acme Global HQ''), (''ORT01'', ''New York''), (''LAND1'', ''USA''), (''WAERS'', ''USD''), (''SPRAS'', ''E''), (''KTOPL'', ''CAUS''), (''PERIV'', ''K4'')],
        row_of [(''MANDT'', ''100''), (''BUKRS'', ''2000''), (''BUTXT'', ''Acme EMEA''), (''ORT01'', ''Berlin''), (''LAND1'', ''DEU''), (''WAERS'', ''EUR''), (''SPRAS'', ''D''), (''KTOPL'', ''CADE''), (''PERIV'', ''K4'')],
        row_of [(''MANDT'', ''100''), (''BUKRS'', ''3000''), (''BUTXT'', ''Acme APAC''), (''ORT01'', ''Singapore''), (''LAND1'', ''SGP''), (''WAERS'', ''SGD''), (''SPRAS'', ''E''), (''KTOPL'', ''CASG''), (''PERIV'', ''K4'')]] \<rparr>"

definition tab_T001B :: mock_table where
  "tab_T001B =
    \<lparr> mt_structure = \<lparr> ts_table = ''T001B'',
        ts_description = ''Posting periods: permitted intervals per variant'',
        ts_fields = [
          field_key ''MANDT'' ''MANDT'' ''CLNT'' 3 ''Client'',
          field_key ''RRCTY'' ''RRCTY'' ''CHAR'' 1 ''Record type'',
          field_key ''BUKRS'' ''BUKRS'' ''CHAR'' 4 ''Company code (or PERSL = period variant)'',
          field_key ''MKOAR'' ''KOART'' ''CHAR'' 1 ''Account type (+/A/D/K/M/S)'',
          field_key ''BKONT'' ''BKONT'' ''CHAR'' 10 ''Account-from'',
          field_plain ''BUKON'' ''BUKON'' ''CHAR'' 10 ''Account-to'',
          field_plain ''FRPE1'' ''FRPE1_BKPF'' ''NUMC'' 3 ''From period 1'',
          field_plain ''FRYE1'' ''FRYE1_BKPF'' ''NUMC'' 4 ''From fiscal year 1'',
          field_plain ''TOPE1'' ''TOPE1_BKPF'' ''NUMC'' 3 ''To period 1'',
          field_plain ''TOYE1'' ''TOYE1_BKPF'' ''NUMC'' 4 ''To fiscal year 1''],
        ts_key_fields = [''MANDT'', ''RRCTY'', ''BUKRS'', ''MKOAR'', ''BKONT''],
        ts_authorization_group = ''FC'',
        ts_s4hana_storage = None \<rparr>,
      mt_rows = [
        row_of [(''MANDT'', ''100''), (''RRCTY'', ''0''), (''BUKRS'', ''1000''), (''MKOAR'', ''+''), (''BKONT'', ''0''), (''BUKON'', ''ZZZZZZZZZZ''), (''FRPE1'', ''003''), (''FRYE1'', ''2026''), (''TOPE1'', ''003''), (''TOYE1'', ''2026'')],
        row_of [(''MANDT'', ''100''), (''RRCTY'', ''0''), (''BUKRS'', ''2000''), (''MKOAR'', ''+''), (''BKONT'', ''0''), (''BUKON'', ''ZZZZZZZZZZ''), (''FRPE1'', ''003''), (''FRYE1'', ''2026''), (''TOPE1'', ''003''), (''TOYE1'', ''2026'')]] \<rparr>"

definition tab_BSEG :: mock_table where
  "tab_BSEG =
    \<lparr> mt_structure = \<lparr> ts_table = ''BSEG'',
        ts_description = ''Accounting document segment'',
        ts_fields = [
          field_key ''MANDT'' ''MANDT'' ''CLNT'' 3 ''Client'',
          field_key ''BUKRS'' ''BUKRS'' ''CHAR'' 4 ''Company code'',
          field_key ''BELNR'' ''BELNR_D'' ''CHAR'' 10 ''Accounting document number'',
          field_key ''GJAHR'' ''GJAHR'' ''NUMC'' 4 ''Fiscal year'',
          field_key ''BUZEI'' ''BUZEI'' ''NUMC'' 3 ''Line item'',
          field_plain ''HKONT'' ''HKONT'' ''CHAR'' 10 ''G/L account'',
          field_plain ''KOART'' ''KOART'' ''CHAR'' 1 ''Account type (+/A/D/K/M/S)'',
          field_plain ''SHKZG'' ''SHKZG'' ''CHAR'' 1 ''Debit/credit indicator (S/H)'',
          field_plain ''DMBTR'' ''DMBTR'' ''CURR'' 13 ''Amount in local currency'',
          field_plain ''WRBTR'' ''WRBTR'' ''CURR'' 13 ''Amount in document currency'',
          field_plain ''WAERS'' ''WAERS'' ''CUKY'' 5 ''Document currency'',
          field_plain ''KOSTL'' ''KOSTL'' ''CHAR'' 10 ''Cost centre''],
        ts_key_fields = [''MANDT'', ''BUKRS'', ''BELNR'', ''GJAHR'', ''BUZEI''],
        ts_authorization_group = ''FC'',
        ts_s4hana_storage = Some ''S/4HANA compatibility view: actual storage is ACDOCA (Universal Journal). Schema unchanged for backward compatibility.'' \<rparr>,
      mt_rows = [
        row_of [(''MANDT'', ''100''), (''BUKRS'', ''1000''), (''BELNR'', ''0100000123''), (''GJAHR'', ''2026''), (''BUZEI'', ''001''), (''HKONT'', ''0000400000''), (''KOART'', ''S''), (''SHKZG'', ''S''), (''DMBTR'', ''1500.00''), (''WAERS'', ''USD''), (''KOSTL'', ''CC-FIN-100'')],
        row_of [(''MANDT'', ''100''), (''BUKRS'', ''1000''), (''BELNR'', ''0100000123''), (''GJAHR'', ''2026''), (''BUZEI'', ''002''), (''HKONT'', ''0000113100''), (''KOART'', ''S''), (''SHKZG'', ''H''), (''DMBTR'', ''1500.00''), (''WAERS'', ''USD''), (''KOSTL'', [])]] \<rparr>"

definition tab_FAGLFLEXA :: mock_table where
  "tab_FAGLFLEXA =
    \<lparr> mt_structure = \<lparr> ts_table = ''FAGLFLEXA'',
        ts_description = ''General Ledger: actual line items'',
        ts_fields = [
          field_key ''RCLNT'' ''MANDT'' ''CLNT'' 3 ''Client'',
          field_key ''RLDNR'' ''RLDNR'' ''CHAR'' 2 ''Ledger'',
          field_key ''RRCTY'' ''RRCTY'' ''CHAR'' 1 ''Record type'',
          field_key ''RVERS'' ''RVERS'' ''CHAR'' 3 ''Version'',
          field_key ''RYEAR'' ''GJAHR'' ''NUMC'' 4 ''Fiscal year'',
          field_key ''DOCNR'' ''BELNR_D'' ''CHAR'' 10 ''Document number'',
          field_key ''DOCLN'' ''DOCLN6'' ''NUMC'' 6 ''Line item (6-digit)'',
          field_plain ''RBUKRS'' ''BUKRS'' ''CHAR'' 4 ''Company code'',
          field_plain ''RACCT'' ''RACCT'' ''CHAR'' 10 ''Account number'',
          field_plain ''HSL'' ''HSL'' ''CURR'' 23 ''Amount in local currency'',
          field_plain ''KSL'' ''KSL'' ''CURR'' 23 ''Amount in group currency''],
        ts_key_fields = [''RCLNT'', ''RLDNR'', ''RRCTY'', ''RVERS'', ''DOCNR'', ''DOCLN'', ''RYEAR''],
        ts_authorization_group = ''FC'',
        ts_s4hana_storage = Some ''S/4HANA compatibility view: actual storage is ACDOCA. Existing reports continue to work; new reports should query ACDOCA directly.'' \<rparr>,
      mt_rows = [] \<rparr>"

definition tab_ACDOCA :: mock_table where
  "tab_ACDOCA =
    \<lparr> mt_structure = \<lparr> ts_table = ''ACDOCA'',
        ts_description = ''S/4HANA Universal Journal: single primary table for FI, CO, COPA, ML, FA, etc.'',
        ts_fields = [
          field_key ''RCLNT'' ''MANDT'' ''CLNT'' 3 ''Client'',
          field_key ''RLDNR'' ''RLDNR'' ''CHAR'' 2 ''Ledger'',
          field_key ''RBUKRS'' ''BUKRS'' ''CHAR'' 4 ''Company code'',
          field_key ''GJAHR'' ''GJAHR'' ''NUMC'' 4 ''Fiscal year'',
          field_key ''BELNR'' ''BELNR_D'' ''CHAR'' 10 ''Document number'',
          field_key ''DOCLN'' ''DOCLN6'' ''NUMC'' 6 ''Line item'',
          field_plain ''RACCT'' ''RACCT'' ''CHAR'' 10 ''G/L account'',
          field_plain ''KOSTL'' ''KOSTL'' ''CHAR'' 10 ''Cost centre'',
          field_plain ''PRCTR'' ''PRCTR'' ''CHAR'' 10 ''Profit centre'',
          field_plain ''HSL'' ''HSL'' ''CURR'' 23 ''Amount in local currency'',
          field_plain ''WSL'' ''WSL'' ''CURR'' 23 ''Amount in document currency'',
          field_plain ''RUNIT'' ''MEINS'' ''UNIT'' 3 ''Base unit of measure'',
          field_plain ''BUDAT'' ''BUDAT'' ''DATS'' 8 ''Posting date''],
        ts_key_fields = [''RCLNT'', ''RLDNR'', ''RBUKRS'', ''GJAHR'', ''BELNR'', ''DOCLN''],
        ts_authorization_group = ''FC'',
        ts_s4hana_storage = Some ''Universal Journal (ACDOCA): primary FI / CO line-item store in S/4HANA. Replaces BSEG, FAGLFLEXA, COEP, COSP, COSS, MLIT, MLPP, MLCD, ANEP, ANEK, ANLP at the storage layer; those remain queryable as compatibility views.'' \<rparr>,
      mt_rows = [row_of [(''RCLNT'', ''100''), (''RLDNR'', ''0L''), (''RBUKRS'', ''1000''), (''GJAHR'', ''2026''), (''BELNR'', ''0100000123''), (''DOCLN'', ''000001''), (''RACCT'', ''0000400000''), (''KOSTL'', ''CC-FIN-100''), (''PRCTR'', ''PC-1000-FIN''), (''HSL'', ''1500.00''), (''WSL'', ''1500.00''), (''BUDAT'', ''20260315'')]] \<rparr>"

definition tab_VBAK :: mock_table where
  "tab_VBAK =
    \<lparr> mt_structure = \<lparr> ts_table = ''VBAK'',
        ts_description = ''Sales Document: Header Data'',
        ts_fields = [
          field_key ''MANDT'' ''MANDT'' ''CLNT'' 3 ''Client'',
          field_key ''VBELN'' ''VBELN_VA'' ''CHAR'' 10 ''Sales document'',
          field_plain ''ERDAT'' ''ERDAT'' ''DATS'' 8 ''Created on'',
          field_plain ''ERZET'' ''ERZET'' ''TIMS'' 6 ''Created at'',
          field_plain ''ERNAM'' ''ERNAM'' ''CHAR'' 12 ''Created by'',
          field_plain ''AUART'' ''AUART'' ''CHAR'' 4 ''Sales document type (OR, RE, ...)'',
          field_plain ''AUGRU'' ''AUGRU'' ''CHAR'' 3 ''Order reason'',
          field_plain ''KUNNR'' ''KUNNR'' ''CHAR'' 10 ''Sold-to party (in S/4HANA the master is Business Partner)'',
          field_plain ''VKORG'' ''VKORG'' ''CHAR'' 4 ''Sales organisation'',
          field_plain ''VTWEG'' ''VTWEG'' ''CHAR'' 2 ''Distribution channel'',
          field_plain ''NETWR'' ''NETWR'' ''CURR'' 15 ''Net value of order'',
          field_plain ''WAERK'' ''WAERK'' ''CUKY'' 5 ''Document currency''],
        ts_key_fields = [''MANDT'', ''VBELN''],
        ts_authorization_group = ''VC'',
        ts_s4hana_storage = None \<rparr>,
      mt_rows = [
        row_of [(''MANDT'', ''100''), (''VBELN'', ''0000005001''), (''ERDAT'', ''20260112''), (''AUART'', ''OR''), (''KUNNR'', ''C-100''), (''VKORG'', ''1000''), (''VTWEG'', ''10''), (''NETWR'', ''12500.00''), (''WAERK'', ''USD'')],
        row_of [(''MANDT'', ''100''), (''VBELN'', ''0000005002''), (''ERDAT'', ''20260115''), (''AUART'', ''OR''), (''KUNNR'', ''C-100''), (''VKORG'', ''1000''), (''VTWEG'', ''10''), (''NETWR'', ''8990.00''), (''WAERK'', ''USD'')],
        row_of [(''MANDT'', ''100''), (''VBELN'', ''0000005003''), (''ERDAT'', ''20260120''), (''AUART'', ''RE''), (''KUNNR'', ''C-200''), (''VKORG'', ''2000''), (''VTWEG'', ''10''), (''NETWR'', ''-450.00''), (''WAERK'', ''EUR'')]] \<rparr>"

definition tab_E070 :: mock_table where
  "tab_E070 =
    \<lparr> mt_structure = \<lparr> ts_table = ''E070'',
        ts_description = ''Transport request header (TR / task)'',
        ts_fields = [
          field_key ''TRKORR'' ''TRKORR'' ''CHAR'' 20 ''Transport request'',
          field_plain ''TRFUNCTION'' ''TRFUNCTION'' ''CHAR'' 1 ''Type: K=customising, W=workbench, T=task, ...'',
          field_plain ''TRSTATUS'' ''TRSTATUS'' ''CHAR'' 1 ''Status: D=modifiable, L=locked, R=released'',
          field_plain ''TARSYSTEM'' ''TARSYSTEM'' ''CHAR'' 10 ''Target system'',
          field_plain ''AS4USER'' ''AS4USER'' ''CHAR'' 12 ''Owner'',
          field_plain ''AS4DATE'' ''AS4DATE'' ''DATS'' 8 ''Created on'',
          field_plain ''AS4TIME'' ''AS4TIME'' ''TIMS'' 6 ''Created at'',
          field_plain ''STRKORR'' ''STRKORR'' ''CHAR'' 20 ''Parent request (for sub-tasks)''],
        ts_key_fields = [''TRKORR''],
        ts_authorization_group = ''&NC&'',
        ts_s4hana_storage = None \<rparr>,
      mt_rows = [row_of [(''TRKORR'', ''ZTRA01K900123''), (''TRFUNCTION'', ''K''), (''TRSTATUS'', ''D''), (''TARSYSTEM'', ''QAA''), (''AS4USER'', ''DEV01''), (''AS4DATE'', ''20260318''), (''STRKORR'', [])]] \<rparr>"

definition seed_tables :: "mock_table list" where
  "seed_tables = [tab_MARA, tab_T001, tab_T001B, tab_BSEG, tab_FAGLFLEXA, tab_ACDOCA, tab_VBAK, tab_E070]"

section \<open>The seeded client\<close>

definition insert_functions :: "rfc_function_meta list \<Rightarrow> (string \<rightharpoonup> rfc_function_meta) \<Rightarrow> (string \<rightharpoonup> rfc_function_meta)" where
  "insert_functions fs m = fold (\<lambda>f m. m(fm_function f \<mapsto> f)) fs m"

definition insert_tables :: "mock_table list \<Rightarrow> (string \<rightharpoonup> mock_table) \<Rightarrow> (string \<rightharpoonup> mock_table)" where
  "insert_tables ts m = fold (\<lambda>t m. m(ts_table (mt_structure t) \<mapsto> t)) ts m"

definition mock_new :: "(nat \<Rightarrow> 'sem) \<Rightarrow> nat \<Rightarrow> json \<Rightarrow> 'sem mock_sap_client" where
  "mock_new sem_new pool_size identity =
     \<lparr> mc_pool = pool_new sem_new pool_size,
       mc_functions = insert_functions seed_functions Map.empty,
       mc_tables = insert_tables seed_tables Map.empty,
       mc_identity = identity \<rparr>"

section \<open>Facts\<close>

lemma insert_functions_Some:
  "insert_functions fs m k = Some f \<Longrightarrow> (f \<in> set fs \<and> fm_function f = k) \<or> m k = Some f"
proof (induction fs arbitrary: m)
  case (Cons g fs)
  have "insert_functions (g # fs) m = insert_functions fs (m(fm_function g \<mapsto> g))"
    by (simp add: insert_functions_def)
  with Cons.IH [of "m(fm_function g \<mapsto> g)"] Cons.prems
  have "f \<in> set fs \<and> fm_function f = k \<or> (m(fm_function g \<mapsto> g)) k = Some f" by metis
  then show ?case by (cases "k = fm_function g") auto
qed (simp add: insert_functions_def)

definition catalogue_read_only :: "string list" where
  "catalogue_read_only = map fm_function (filter fm_read_only seed_functions)"

lemma catalogue_read_only_eq:
  "catalogue_read_only = [''RFC_SYSTEM_INFO'', ''BAPI_MATERIAL_GET_DETAIL'', ''RFC_READ_TABLE'', ''DDIF_FIELDINFO_GET'']"
  by code_simp

definition is_write_bapi :: "rfc_function_meta \<Rightarrow> bool" where
  "is_write_bapi f \<longleftrightarrow> \<not> fm_read_only f \<and> \<not> starts_with (fm_function f) ''BAPI_TRANSACTION_''
     \<and> \<not> starts_with (fm_function f) ''TMS_''"

definition declares_return :: "rfc_function_meta \<Rightarrow> bool" where
  "declares_return f \<longleftrightarrow> list_ex (\<lambda>p. rp_direction p = Tables \<and> rp_name p = ''RETURN'' \<and>
     contains_sub (rp_type_token p) ''BAPIRET2'') (fm_parameters f)"

definition is_client_key :: "table_field \<Rightarrow> bool" where
  "is_client_key f \<longleftrightarrow> (tf_name f = ''MANDT'' \<or> tf_name f = ''RCLNT'') \<and> tf_type_token f = ''CLNT'' \<and>
     tf_length f = 3 \<and> tf_key f"

definition table_ok :: "mock_table \<Rightarrow> bool" where
  "table_ok t \<longleftrightarrow>
     (let s = mt_structure t in
      ts_fields s \<noteq> [] \<and>
      (ts_table s = ''E070'' \<or> is_client_key (hd (ts_fields s)) \<and> hd (ts_key_fields s) = tf_name (hd (ts_fields s))) \<and>
      distinct (map tf_name (ts_fields s)) \<and>
      set (ts_key_fields s) = set (map tf_name (filter tf_key (ts_fields s))) \<and>
      list_all (\<lambda>r. amap_wf r \<and> list_all (\<lambda>(k, v). k \<in> set (map tf_name (ts_fields s))) r \<and>
        list_all (\<lambda>k. has_key k r) (ts_key_fields s)) (mt_rows t))"

section \<open>Properties\<close>

text \<open>
  The catalogue's rules: function names are distinct; every write BAPI (other than the transaction
  and transport functions) declares a \<open>RETURN\<close> table of \<open>BAPIRET2\<close> and requires a commit, and no
  read-only function does; every function carries an authorization entry on an \<open>S_\<close> object; table
  names are distinct; every table except the cross-client \<open>E070\<close> starts with a client key of type
  \<open>CLNT(3)\<close>; key fields are exactly the fields flagged as key; and every stored row only has
  columns of its table and has all its key columns.
\<close>

lemma catalogue_rules:
  "distinct (map fm_function seed_functions)
   \<and> list_all (\<lambda>f. is_write_bapi f \<longrightarrow> declares_return f \<and> fm_commit_required f) seed_functions
   \<and> list_all (\<lambda>f. fm_read_only f \<longrightarrow> \<not> fm_commit_required f) seed_functions
   \<and> list_all (\<lambda>f. fm_authorization f \<noteq> [] \<and>
        list_all (\<lambda>a. starts_with (sa_object a) ''S_'') (fm_authorization f)) seed_functions
   \<and> distinct (map (\<lambda>t. ts_table (mt_structure t)) seed_tables)
   \<and> list_all table_ok seed_tables"
  by (intro conjI; code_simp)

text \<open>
  In read-only mode the seeded client executes only the four read-only functions of its catalogue,
  whatever the pool size, the identity and the parameters; in particular no write BAPI, no commit
  and no transport release gets through.
\<close>

lemma seeded_client_read_only:
  "is_ok (mock_call_rfc (mock_new sem_new n identity) rq True) \<Longrightarrow>
     rq_function rq \<in> {''RFC_SYSTEM_INFO'', ''BAPI_MATERIAL_GET_DETAIL'', ''RFC_READ_TABLE'', ''DDIF_FIELDINFO_GET''}"
proof -
  assume "is_ok (mock_call_rfc (mock_new sem_new n identity) rq True)"
  then obtain meta where "insert_functions seed_functions Map.empty (rq_function rq) = Some meta"
    and ro: "fm_read_only meta"
    using mock_call_read_only by (fastforce simp: mock_new_def)
  from insert_functions_Some [OF this(1)] ro have "rq_function rq \<in> set catalogue_read_only"
    by (force simp: catalogue_read_only_def)
  then show ?thesis by (simp add: catalogue_read_only_eq)
qed

end
