(* ===== verification/Metadata_Cache.thy ===== *)
theory Metadata_Cache
  imports Fixtures "HOL-Library.AList" "HOL-Library.Multiset"
begin

text \<open>
  \<open>crates/sap-automate-rfc/src/metadata_cache.rs\<close>: the decorator that serves \<open>rfc_metadata\<close> and
  \<open>bulk_rfc_metadata\<close> from a map with a time to live.

  The inner client is a state-passing function. \<open>clock i\<close> is the \<open>i\<close>-th reading of the monotonic clock
  that an operation may take, in nanoseconds: one per lookup, in order, then one per store. Shown: in front of any
  client the cache serves the newest answer since the last invalidation while it is fresh, and asks the client otherwise.
\<close>

record cache_stats =
  hits :: nat
  misses :: nat
  evictions :: nat
  entry_count :: nat

record cache_entry =
  entry_meta :: rfc_function_meta
  cached_at :: nat

type_synonym cache_key = "string \<times> string"

record metadata_cache =
  ttl :: nat
  entries :: "(cache_key \<times> cache_entry) list"
  stats :: cache_stats

type_synonym 's meta_call = "string \<Rightarrow> string \<Rightarrow> 's \<Rightarrow> rfc_function_meta rfc_result \<times> 's"
type_synonym 's bulk_call = "string list \<Rightarrow> string \<Rightarrow> 's \<Rightarrow> bulk_metadata rfc_result \<times> 's"

definition cache_new :: "nat \<Rightarrow> metadata_cache" where
  "cache_new t =
     \<lparr> ttl = t, entries = [], stats = \<lparr> hits = 0, misses = 0, evictions = 0, entry_count = 0 \<rparr> \<rparr>"

definition cache_stats_of :: "metadata_cache \<Rightarrow> cache_stats" where
  "cache_stats_of c = (stats c)\<lparr>entry_count := length (entries c)\<rparr>"

definition invalidate_all :: "metadata_cache \<Rightarrow> metadata_cache" where
  "invalidate_all c =
     (let evicted = length (entries c)
      in c\<lparr>entries := [], stats := (stats c)\<lparr>evictions := evictions (stats c) + evicted\<rparr>\<rparr>)"

definition get_fresh :: "nat \<Rightarrow> metadata_cache \<Rightarrow> cache_key \<Rightarrow> rfc_function_meta option" where
  "get_fresh now c key =
     (case map_of (entries c) key of
        None \<Rightarrow> None
      | Some e \<Rightarrow> if ttl c = 0 \<or> now - cached_at e \<le> ttl c then Some (entry_meta e) else None)"

definition store :: "nat \<Rightarrow> cache_key \<Rightarrow> rfc_function_meta \<Rightarrow> metadata_cache \<Rightarrow> metadata_cache" where
  "store now key m c =
     (if ttl c = 0 then c
      else c\<lparr>entries := AList.update key \<lparr> entry_meta = m, cached_at = now \<rparr> (entries c)\<rparr>)"

definition count_hits :: "nat \<Rightarrow> nat \<Rightarrow> metadata_cache \<Rightarrow> metadata_cache" where
  "count_hits h m c = c\<lparr>stats := (stats c)\<lparr>hits := hits (stats c) + h, misses := misses (stats c) + m\<rparr>\<rparr>"

definition cache_rfc_metadata ::
  "(nat \<Rightarrow> nat) \<Rightarrow> 's meta_call \<Rightarrow> string \<Rightarrow> string \<Rightarrow> metadata_cache \<times> 's
     \<Rightarrow> rfc_function_meta rfc_result \<times> metadata_cache \<times> 's" where
  "cache_rfc_metadata clock inner f lang st =
     (case st of (c, s) \<Rightarrow>
        if ttl c = 0 then
          (case inner f lang s of (r, s') \<Rightarrow> (r, count_hits 0 1 c, s'))
        else
          (case get_fresh (clock 0) c (f, lang) of
             Some m \<Rightarrow> (Inr m, count_hits 1 0 c, s)
           | None \<Rightarrow>
               (case inner f lang s of
                  (Inl e, s') \<Rightarrow> (Inl e, count_hits 0 1 c, s')
                | (Inr m, s') \<Rightarrow> (Inr m, store (clock 1) (f, lang) m (count_hits 0 1 c), s'))))"

text \<open>The lookup loop: the metadata found and the names left to fetch, both in request order.\<close>

fun split_hits ::
  "(nat \<Rightarrow> nat) \<Rightarrow> nat \<Rightarrow> metadata_cache \<Rightarrow> string \<Rightarrow> string list \<Rightarrow> rfc_function_meta list \<times> string list" where
  "split_hits clock i c lang [] = ([], [])"
| "split_hits clock i c lang (f # fs) =
     (case split_hits clock (Suc i) c lang fs of (hs, ms) \<Rightarrow>
        (case get_fresh (clock i) c (f, lang) of
           Some m \<Rightarrow> (m # hs, ms)
         | None \<Rightarrow> (hs, f # ms)))"

fun store_all :: "(nat \<Rightarrow> nat) \<Rightarrow> nat \<Rightarrow> string \<Rightarrow> rfc_function_meta list \<Rightarrow> metadata_cache \<Rightarrow> metadata_cache" where
  "store_all clock i lang [] c = c"
| "store_all clock i lang (m # ms) c =
     store_all clock (Suc i) lang ms (store (clock i) (fm_function m, lang) m c)"

definition cache_bulk_rfc_metadata ::
  "(nat \<Rightarrow> nat) \<Rightarrow> 's bulk_call \<Rightarrow> string list \<Rightarrow> string \<Rightarrow> metadata_cache \<times> 's
     \<Rightarrow> bulk_metadata rfc_result \<times> metadata_cache \<times> 's" where
  "cache_bulk_rfc_metadata clock inner fs lang st =
     (case st of (c, s) \<Rightarrow>
        (case split_hits clock 0 c lang fs of (found, to_fetch) \<Rightarrow>
           let c1 = count_hits (length found) (length to_fetch) c in
           if to_fetch = [] then
             (Inr \<lparr> bm_language = lang, bm_functions = found, bm_missing = [] \<rparr>, c1, s)
           else
             (case inner to_fetch lang s of
                (Inl e, s') \<Rightarrow> (Inl e, c1, s')
              | (Inr fetched, s') \<Rightarrow>
                  (Inr \<lparr> bm_language = lang, bm_functions = found @ bm_functions fetched,
                         bm_missing = bm_missing fetched \<rparr>,
                   store_all clock (length fs) lang (bm_functions fetched) c1, s'))))"

section \<open>Structure of the cache\<close>

definition cache_wf :: "metadata_cache \<Rightarrow> bool" where
  "cache_wf c \<longleftrightarrow> distinct (map fst (entries c)) \<and> (ttl c = 0 \<longrightarrow> entries c = [])"

lemma store_simps [state_simps]:
  "ttl (store now k m c) = ttl c" "stats (store now k m c) = stats c"
  "ttl (count_hits h n c) = ttl c" "entries (count_hits h n c) = entries c"
  by (simp_all add: store_def count_hits_def)

lemma store_all_simps [state_simps]:
  "ttl (store_all clock i l ms c) = ttl c" "stats (store_all clock i l ms c) = stats c"
  by (induction ms arbitrary: i c) (simp_all add: state_simps)

lemma cache_wf_store: "cache_wf c \<Longrightarrow> cache_wf (store now k m c)"
  by (simp add: cache_wf_def store_def distinct_update)

lemma cache_wf_store_all: "cache_wf c \<Longrightarrow> cache_wf (store_all clock i l ms c)"
  by (induction ms arbitrary: i c) (simp_all add: cache_wf_store)

lemma cache_wf_count: "cache_wf (count_hits h n c) = cache_wf c"
  by (simp add: cache_wf_def state_simps)

lemma cache_wf_new: "cache_wf (cache_new t)"
  by (simp add: cache_wf_def cache_new_def)

lemma cache_wf_invalidate: "cache_wf (invalidate_all c)"
  by (simp add: cache_wf_def invalidate_all_def Let_def)

lemma map_of_store:
  "map_of (entries (store now k m c)) =
     (if ttl c = 0 then map_of (entries c) else (map_of (entries c))(k \<mapsto> \<lparr>entry_meta = m, cached_at = now\<rparr>))"
  by (simp add: store_def update_conv')

lemma split_hits_lengths: "length (fst (split_hits clock i c l fs)) + length (snd (split_hits clock i c l fs)) = length fs"
proof (induction fs arbitrary: i)
  case (Cons f fs)
  obtain hs ms where "split_hits clock (Suc i) c l fs = (hs, ms)" by fastforce
  with Cons.IH [of "Suc i"] show ?case by (cases "get_fresh (clock i) c (f, l)") simp_all
qed simp

section \<open>A metadata source and the cache in front of it\<close>

text \<open>
  What the cache relies on in its inner client: a lookup returns metadata under the name asked for,
  and the bulk operation returns, in order, the metadata of the names the source knows, and the
  names it does not know.
\<close>

definition known :: "(string \<Rightarrow> string \<Rightarrow> rfc_function_meta rfc_result) \<Rightarrow> string \<Rightarrow> string \<Rightarrow> rfc_function_meta option" where
  "known src l f = (case src f l of Inr m \<Rightarrow> Some m | Inl _ \<Rightarrow> None)"

text \<open>A source without state as an inner client.\<close>

definition lift_meta :: "(string \<Rightarrow> string \<Rightarrow> rfc_function_meta rfc_result) \<Rightarrow> 's meta_call" where
  "lift_meta src f l s = (src f l, s)"

definition lift_bulk :: "(string list \<Rightarrow> string \<Rightarrow> bulk_metadata rfc_result) \<Rightarrow> 's bulk_call" where
  "lift_bulk src fs l s = (src fs l, s)"

text \<open>The two results of a bulk request agree up to the order of the metadata.\<close>

definition same_bulk :: "bulk_metadata rfc_result \<Rightarrow> bulk_metadata rfc_result \<Rightarrow> bool" where
  "same_bulk a b \<longleftrightarrow> (case (a, b) of
     (Inr x, Inr y) \<Rightarrow> bm_language x = bm_language y \<and> mset (bm_functions x) = mset (bm_functions y)
        \<and> bm_missing x = bm_missing y
   | _ \<Rightarrow> a = b)"

text \<open>A sequence of cache operations.\<close>

datatype cache_op =
    Op_Meta "nat \<Rightarrow> nat" string string
  | Op_Bulk "nat \<Rightarrow> nat" "string list" string
  | Op_Invalidate

fun cache_step :: "'s meta_call \<Rightarrow> 's bulk_call \<Rightarrow> cache_op \<Rightarrow> metadata_cache \<times> 's \<Rightarrow> metadata_cache \<times> 's" where
  "cache_step im ib (Op_Meta clock f l) st = snd (cache_rfc_metadata clock im f l st)"
| "cache_step im ib (Op_Bulk clock fs l) st = snd (cache_bulk_rfc_metadata clock ib fs l st)"
| "cache_step im ib Op_Invalidate st = (invalidate_all (fst st), snd st)"

definition cache_run :: "'s meta_call \<Rightarrow> 's bulk_call \<Rightarrow> cache_op list \<Rightarrow> metadata_cache \<times> 's \<Rightarrow> metadata_cache \<times> 's" where
  "cache_run im ib ops st = fold (cache_step im ib) ops st"

locale metadata_source =
  fixes src_meta :: "string \<Rightarrow> string \<Rightarrow> rfc_function_meta rfc_result"
    and src_bulk :: "string list \<Rightarrow> string \<Rightarrow> bulk_metadata rfc_result"
  assumes src_name: "src_meta f l = Inr m \<Longrightarrow> fm_function m = f"
    and src_bulk_eq: "src_bulk fs l = Inr \<lparr> bm_language = l,
        bm_functions = List.map_filter (known src_meta l) fs,
        bm_missing = filter (\<lambda>f. known src_meta l f = None) fs \<rparr>"
begin

text \<open>Every entry is what the source answers for its key.\<close>

definition coherent :: "metadata_cache \<Rightarrow> bool" where
  "coherent c \<longleftrightarrow> cache_wf c \<and>
     (\<forall>f l e. map_of (entries c) (f, l) = Some e \<longrightarrow> src_meta f l = Inr (entry_meta e))"

lemma coherent_store: "coherent c \<Longrightarrow> src_meta f l = Inr m \<Longrightarrow> coherent (store now (f, l) m c)"
  by (auto simp: coherent_def cache_wf_store map_of_store split: if_splits)

lemma coherent_count: "coherent (count_hits h n c) = coherent c"
  by (simp add: coherent_def cache_wf_count state_simps)

lemma coherent_store_all:
  "coherent c \<Longrightarrow> \<forall>m \<in> set ms. src_meta (fm_function m) l = Inr m \<Longrightarrow> coherent (store_all clock i l ms c)"
  by (induction ms arbitrary: i c) (auto simp: coherent_store)

lemma coherent_new: "coherent (cache_new t)"
  by (simp add: coherent_def cache_wf_new) (simp add: cache_new_def)

lemma coherent_invalidate: "coherent (invalidate_all c)"
  by (simp add: coherent_def cache_wf_invalidate) (simp add: invalidate_all_def Let_def)

lemma get_fresh_coherent: "coherent c \<Longrightarrow> get_fresh now c (f, l) = Some m \<Longrightarrow> src_meta f l = Inr m"
  by (auto simp: get_fresh_def coherent_def split: option.splits if_splits)

lemma meta_transparent:
  assumes "coherent c"
  shows "fst (cache_rfc_metadata clock (lift_meta src_meta) f l (c, s)) = src_meta f l
    \<and> coherent (fst (snd (cache_rfc_metadata clock (lift_meta src_meta) f l (c, s))))"
  using assms get_fresh_coherent [OF assms, of "clock 0" f l]
  by (auto simp: cache_rfc_metadata_def lift_meta_def coherent_count coherent_store
      split: option.splits sum.splits)

lemma known_named: "known src_meta l f = Some m \<Longrightarrow> fm_function m = f \<and> src_meta f l = Inr m"
  by (auto simp: known_def src_name split: sum.splits)

lemma map_filter_known: "m \<in> set (List.map_filter (known src_meta l) fs) \<Longrightarrow> src_meta (fm_function m) l = Inr m"
  using known_named by (fastforce simp: map_filter_def)

lemma split_hits_mset:
  assumes "coherent c"
  shows "mset (fst (split_hits clock i c l fs)) + mset (List.map_filter (known src_meta l) (snd (split_hits clock i c l fs)))
      = mset (List.map_filter (known src_meta l) fs)
    \<and> filter (\<lambda>f. known src_meta l f = None) (snd (split_hits clock i c l fs))
      = filter (\<lambda>f. known src_meta l f = None) fs"
proof (induction fs arbitrary: i)
  case (Cons f fs)
  obtain hs ms where s: "split_hits clock (Suc i) c l fs = (hs, ms)" by fastforce
  show ?case
  proof (cases "get_fresh (clock i) c (f, l)")
    case (Some m)
    then have "known src_meta l f = Some m" using get_fresh_coherent [OF assms] by (simp add: known_def)
    with Some Cons.IH [of "Suc i"] s show ?thesis by (simp add: map_filter_simps)
  next
    case None
    with Cons.IH [of "Suc i"] s show ?thesis by (auto simp: map_filter_simps split: option.splits)
  qed
qed (simp add: map_filter_simps)

lemma bulk_transparent:
  assumes "coherent c"
  shows "same_bulk (fst (cache_bulk_rfc_metadata clock (lift_bulk src_bulk) fs l (c, s))) (src_bulk fs l)
    \<and> coherent (fst (snd (cache_bulk_rfc_metadata clock (lift_bulk src_bulk) fs l (c, s))))"
proof -
  obtain hs ms where sp: "split_hits clock 0 c l fs = (hs, ms)" by fastforce
  with split_hits_mset [OF assms, of clock 0 l fs]
  have m: "mset hs + mset (List.map_filter (known src_meta l) ms) = mset (List.map_filter (known src_meta l) fs)"
    and f: "filter (\<lambda>f. known src_meta l f = None) ms = filter (\<lambda>f. known src_meta l f = None) fs" by simp_all
  show ?thesis
  proof (cases "ms = []")
    case True
    with m f assms show ?thesis
      by (simp add: cache_bulk_rfc_metadata_def sp same_bulk_def src_bulk_eq coherent_count map_filter_simps)
  next
    case False
    have "coherent (store_all clock (length fs) l (List.map_filter (known src_meta l) ms) (count_hits (length hs) (length ms) c))"
      using map_filter_known assms by (intro coherent_store_all) (auto simp: coherent_count)
    with False m f show ?thesis
      by (simp add: cache_bulk_rfc_metadata_def sp same_bulk_def src_bulk_eq lift_bulk_def Let_def)
  qed
qed

lemma coherent_step:
  assumes "coherent (fst st)"
  shows "coherent (fst (cache_step (lift_meta src_meta) (lift_bulk src_bulk) op st))"
proof -
  obtain c s where st: "st = (c, s)" by (cases st)
  with assms have c: "coherent c" by simp
  show ?thesis
  proof (cases op)
    case (Op_Meta clock f l)
    then show ?thesis using meta_transparent [OF c, of clock f l s] by (simp add: st)
  next
    case (Op_Bulk clock fs l)
    then show ?thesis using bulk_transparent [OF c, of clock fs l s] by (simp add: st)
  next
    case Op_Invalidate
    then show ?thesis by (simp add: coherent_invalidate)
  qed
qed

lemma coherent_run:
  "coherent (fst st) \<Longrightarrow> coherent (fst (cache_run (lift_meta src_meta) (lift_bulk src_bulk) ops st))"
  by (induction ops arbitrary: st) (simp_all add: cache_run_def coherent_step)

lemma run_transparent:
  assumes "cache_run (lift_meta src_meta) (lift_bulk src_bulk) ops (cache_new t, s0) = (c, s)"
  shows "fst (cache_rfc_metadata clock (lift_meta src_meta) f l (c, s)) = src_meta f l
    \<and> same_bulk (fst (cache_bulk_rfc_metadata clock (lift_bulk src_bulk) fs l (c, s))) (src_bulk fs l)"
proof -
  have "coherent (fst (cache_new t, s0))" by (simp add: coherent_new)
  from coherent_run [OF this, of ops] have "coherent c" by (simp only: assms fst_conv)
  from meta_transparent [OF this, of clock f l s] bulk_transparent [OF this, of clock fs l s]
  show ?thesis by simp
qed

end

text \<open>The seeded offline client is such a source.\<close>

lemma mock_known: "known (mock_rfc_metadata c) l f = mc_functions c f"
  by (simp add: known_def mock_rfc_metadata_def split: option.splits)

interpretation mock_source: metadata_source
  "mock_rfc_metadata (mock_new sem_new n identity)" "mock_bulk_rfc_metadata (mock_new sem_new n identity)"
  for sem_new :: "nat \<Rightarrow> 'sem" and n identity
proof unfold_locales
  fix f l m
  assume "mock_rfc_metadata (mock_new sem_new n identity) f l = Inr m"
  then show "fm_function m = f"
    using insert_functions_Some [of seed_functions Map.empty f m]
    by (auto simp: mock_rfc_metadata_def mock_new_def split: option.splits)
next
  fix fs l
  have "known (mock_rfc_metadata (mock_new sem_new n identity)) l = mc_functions (mock_new sem_new n identity)"
    by (rule ext) (rule mock_known)
  then show "mock_bulk_rfc_metadata (mock_new sem_new n identity) fs l = Inr \<lparr> bm_language = l,
      bm_functions = List.map_filter (known (mock_rfc_metadata (mock_new sem_new n identity)) l) fs,
      bm_missing = filter (\<lambda>f. known (mock_rfc_metadata (mock_new sem_new n identity)) l f = None) fs \<rparr>"
    by (simp add: mock_bulk_rfc_metadata_def mock_bulk_loop_eq)
qed

section \<open>Any source, and the history of a cache\<close>

text \<open>
  The calls an operation passes on to the inner client, with their answers; the inner client is any, and may answer
  differently from one call to the next.
\<close>

datatype source_call =
    Asked_Meta string string "rfc_function_meta rfc_result"
  | Asked_Bulk "string list" string "bulk_metadata rfc_result"

definition logged_meta :: "'s meta_call \<Rightarrow> ('s \<times> source_call list) meta_call" where
  "logged_meta im f l st = (case st of (s, calls) \<Rightarrow> (case im f l s of (r, s') \<Rightarrow> (r, s', calls @ [Asked_Meta f l r])))"

definition logged_bulk :: "'s bulk_call \<Rightarrow> ('s \<times> source_call list) bulk_call" where
  "logged_bulk ib fs l st = (case st of (s, calls) \<Rightarrow> (case ib fs l s of (r, s') \<Rightarrow> (r, s', calls @ [Asked_Bulk fs l r])))"

text \<open>The history of a cache: its operations with the calls each passed on, the newest first.\<close>

type_synonym cache_history = "(cache_op \<times> source_call list) list"

definition cache_observe :: "'s meta_call \<Rightarrow> 's bulk_call \<Rightarrow> cache_op \<Rightarrow> metadata_cache \<times> 's \<times> cache_history
    \<Rightarrow> metadata_cache \<times> 's \<times> cache_history" where
  "cache_observe im ib op st =
     (case st of (c, s, h) \<Rightarrow>
        (case cache_step (logged_meta im) (logged_bulk ib) op (c, s, []) of (c', s', calls) \<Rightarrow> (c', s', (op, calls) # h)))"

text \<open>
  The metadata an operation was answered with, under its name, with the reading of the clock that followed; and the
  newest answer for a name and language since the cache was last invalidated.
\<close>

fun brought_by :: "cache_op \<times> source_call list \<Rightarrow> (cache_key \<times> nat \<times> rfc_function_meta) list" where
  "brought_by (Op_Meta clock f l, [Asked_Meta g k (Inr m)]) = [((f, l), clock 1, m)]"
| "brought_by (Op_Bulk clock fs l, [Asked_Bulk gs k (Inr b)]) =
     map (\<lambda>(i, m). ((fm_function m, l), clock i, m)) (List.enumerate (length fs) (bm_functions b))"
| "brought_by _ = []"

fun newest_answer :: "cache_history \<Rightarrow> cache_key \<Rightarrow> (nat \<times> rfc_function_meta) option" where
  "newest_answer [] = Map.empty"
| "newest_answer ((Op_Invalidate, calls) # h) = Map.empty"
| "newest_answer (x # h) = newest_answer h ++ map_of (rev (brought_by x))"

text \<open>What may be served at a reading of the clock: that answer, while it is not older than the time to live.\<close>

definition served_fresh :: "nat \<Rightarrow> cache_history \<Rightarrow> string \<Rightarrow> nat \<times> string \<Rightarrow> rfc_function_meta option" where
  "served_fresh t h l = (\<lambda>(now, f).
     case newest_answer h (f, l) of
       Some (at, m) \<Rightarrow> if t \<noteq> 0 \<and> now - at \<le> t then Some m else None
     | None \<Rightarrow> None)"

fun names_looked_up :: "cache_op \<Rightarrow> nat" where
  "names_looked_up (Op_Meta clock f l) = 1"
| "names_looked_up (Op_Bulk clock fs l) = length fs"
| "names_looked_up Op_Invalidate = 0"

fun names_asked :: "source_call \<Rightarrow> nat" where
  "names_asked (Asked_Meta f l r) = 1"
| "names_asked (Asked_Bulk fs l r) = length fs"

text \<open>A cache that holds what its history says, and counts it.\<close>

definition stamped_entry :: "nat \<times> rfc_function_meta \<Rightarrow> cache_entry" where
  "stamped_entry = (\<lambda>(at, m). \<lparr> entry_meta = m, cached_at = at \<rparr>)"

definition cache_holds :: "nat \<Rightarrow> cache_history \<Rightarrow> metadata_cache \<Rightarrow> bool" where
  "cache_holds t h c \<longleftrightarrow> cache_wf c \<and> ttl c = t \<and> (t \<noteq> 0 \<longrightarrow> map_of (entries c) = map_option stamped_entry \<circ> newest_answer h) \<and>
     misses (stats c) = sum_list (map (\<lambda>(op, calls). sum_list (map names_asked calls)) h) \<and>
     hits (stats c) + misses (stats c) = sum_list (map (names_looked_up \<circ> fst) h)"

lemma get_fresh_served: "cache_holds t h c \<Longrightarrow> get_fresh now c (f, l) = served_fresh t h l (now, f)"
  by (cases "t = 0") (auto simp: cache_holds_def cache_wf_def get_fresh_def served_fresh_def stamped_entry_def split: option.split)

lemma split_hits_served:
  assumes "cache_holds t h c"
  shows "split_hits clock i c l fs =
    (List.map_filter (served_fresh t h l \<circ> apfst clock) (List.enumerate i fs),
     map snd (filter (\<lambda>x. served_fresh t h l (apfst clock x) = None) (List.enumerate i fs)))"
  by (induction fs arbitrary: i) (simp_all add: map_filter_simps get_fresh_served [OF assms] split: option.split)

lemma map_of_store_all:
  "ttl c \<noteq> 0 \<Longrightarrow> map_of (entries (store_all clock i l ms c)) =
     map_of (entries c) ++ (map_option stamped_entry \<circ> map_of (rev (map (\<lambda>(j, m). ((fm_function m, l), clock j, m)) (List.enumerate i ms))))"
proof (induction ms arbitrary: i c)
  case (Cons m ms)
  then show ?case
    by (auto simp: state_simps map_of_store fun_eq_iff map_add_def stamped_entry_def split: option.split)
qed (simp add: fun_eq_iff map_add_def)

lemma cache_wf_stats [simp]: "cache_wf (c\<lparr>stats := x\<rparr>) = cache_wf c"
  by (simp add: cache_wf_def)

lemma holds_cache_observe:
  assumes "cache_holds t h c" "cache_observe im ib op (c, s, h) = (c', s', h')"
  shows "cache_holds t h' c'"
proof (cases op)
  case (Op_Meta clock f l)
  note step = assms(2) [unfolded cache_observe_def Op_Meta]
  show ?thesis
  proof (cases "get_fresh (clock 0) c (f, l)")
    case hit: (Some m)
    then have "ttl c \<noteq> 0" using assms(1) by (auto simp: get_fresh_def cache_holds_def cache_wf_def split: option.splits)
    with hit step assms(1) show ?thesis
      by (auto simp: cache_rfc_metadata_def cache_holds_def state_simps count_hits_def fun_eq_iff)
  next
    case miss: None
    obtain r s2 where ask: "im f l s = (r, s2)" by (cases "im f l s")
    then have asked: "logged_meta im f l (s, []) = (r, s2, [Asked_Meta f l r])" by (simp add: logged_meta_def)
    show ?thesis
    proof (cases r)
      case (Inl e)
      with miss step assms(1) asked show ?thesis
        by (auto simp: cache_rfc_metadata_def cache_holds_def state_simps count_hits_def fun_eq_iff split: if_splits)
    next
      case (Inr m)
      with miss step assms(1) asked show ?thesis
        by (auto simp: cache_rfc_metadata_def cache_holds_def cache_wf_def distinct_update state_simps count_hits_def
            store_def stamped_entry_def update_conv fun_eq_iff split: if_splits)
    qed
  qed
next
  case (Op_Bulk clock fs l)
  obtain found rest where sp: "split_hits clock 0 c l fs = (found, rest)" by fastforce
  then have len: "length found + length rest = length fs" using split_hits_lengths [of clock 0 c l fs] by simp
  obtain r s2 where "ib rest l s = (r, s2)" by (cases "ib rest l s")
  then have asked: "logged_bulk ib rest l (s, []) = (r, s2, [Asked_Bulk rest l r])" by (simp add: logged_bulk_def)
  show ?thesis
  proof (cases "rest = []")
    case True
    with assms len show ?thesis
      by (auto simp: cache_observe_def Op_Bulk cache_bulk_rfc_metadata_def sp Let_def cache_holds_def state_simps
          count_hits_def fun_eq_iff)
  next
    case rest: False
    show ?thesis
    proof (cases r)
      case (Inl e)
      with assms len rest asked show ?thesis
        by (auto simp: cache_observe_def Op_Bulk cache_bulk_rfc_metadata_def sp Let_def cache_holds_def state_simps
            count_hits_def fun_eq_iff)
    next
      case (Inr b)
      let ?c1 = "count_hits (length found) (length rest) c"
      have c': "c' = store_all clock (length fs) l (bm_functions b) ?c1" "h' = (op, [Asked_Bulk rest l r]) # h"
        using assms(2) rest asked Inr by (auto simp: cache_observe_def Op_Bulk cache_bulk_rfc_metadata_def sp Let_def)
      have "cache_wf c'" using assms(1) by (simp add: c' cache_wf_store_all cache_wf_count cache_holds_def)
      moreover have "map_of (entries c') = map_option stamped_entry \<circ> newest_answer h'" if "t \<noteq> 0"
        using that assms(1) map_of_store_all [of ?c1 clock "length fs" l "bm_functions b"]
        by (auto simp: c' Op_Bulk Inr cache_holds_def state_simps fun_eq_iff map_add_def split: option.split)
      moreover have "ttl c' = t" "stats c' = stats ?c1" using assms(1) by (simp_all add: c' state_simps cache_holds_def)
      ultimately show ?thesis using assms(1) len by (simp add: cache_holds_def c'(2) Op_Bulk count_hits_def)
    qed
  qed
next
  case Op_Invalidate
  with assms show ?thesis
    by (auto simp: cache_observe_def cache_holds_def cache_wf_invalidate) (auto simp: invalidate_all_def Let_def)
qed

lemma holds_fold:
  "cache_holds t h c \<Longrightarrow> fold (cache_observe im ib) ops (c, s, h) = (c', s', h') \<Longrightarrow> cache_holds t h' c'"
proof (induction ops arbitrary: c s h)
  case (Cons op ops)
  obtain c1 s1 h1 where one: "cache_observe im ib op (c, s, h) = (c1, s1, h1)" by (metis prod_cases3)
  from Cons.IH [OF holds_cache_observe [OF Cons.prems(1) one]] Cons.prems(2) one show ?case by simp
qed simp

lemma holds_new: "cache_holds t [] (cache_new t)"
  by (simp add: cache_holds_def cache_wf_new) (simp add: cache_new_def fun_eq_iff)

section \<open>Properties\<close>

text \<open>
  C30. What the cache serves, in front of any client, whatever that client answers and however its answers change. After
  any sequence of operations a lookup serves the newest answer the client gave for that name and language since the
  last invalidation, while it is at most the time to live old, without asking the client; in every other case
  it asks the client, once and for that name, and returns its answer. A bulk lookup serves in the same way the
  names it can, and passes exactly the others on in one call, in their order; the metadata served come before those
  fetched. Misses count the names the client was asked for, hits the other names looked up.
\<close>

theorem cache_serves_newest:
  "case fold (cache_observe im ib) ops (cache_new t, s0, []) of (c, s, h) \<Rightarrow>
     (case cache_rfc_metadata clock (logged_meta im) f l (c, s, []) of (r, c', s', calls) \<Rightarrow>
        (case served_fresh t h l (clock 0, f) of
           Some m \<Rightarrow> r = Inr m \<and> calls = [] \<and> s' = s
         | None \<Rightarrow> im f l s = (r, s') \<and> calls = [Asked_Meta f l r])) \<and>
     (let asked = List.enumerate 0 fs; hit = List.map_filter (served_fresh t h l \<circ> apfst clock) asked;
          rest = map snd (filter (\<lambda>x. served_fresh t h l (apfst clock x) = None) asked) in
      case cache_bulk_rfc_metadata clock (logged_bulk ib) fs l (c, s, []) of (r, c', s', calls) \<Rightarrow>
        if rest = [] then r = Inr \<lparr> bm_language = l, bm_functions = hit, bm_missing = [] \<rparr> \<and> calls = [] \<and> s' = s
        else \<exists>x. ib rest l s = (x, s') \<and> calls = [Asked_Bulk rest l x] \<and>
          r = map_sum id (\<lambda>b. b\<lparr> bm_language := l, bm_functions := hit @ bm_functions b \<rparr>) x) \<and>
     misses (stats c) = sum_list (map (\<lambda>(op, calls). sum_list (map names_asked calls)) h) \<and>
     hits (stats c) + misses (stats c) = sum_list (map (names_looked_up \<circ> fst) h)"
proof -
  obtain c s h where run: "fold (cache_observe im ib) ops (cache_new t, s0, []) = (c, s, h)" by (metis prod_cases3)
  have c: "cache_holds t h c" using holds_fold [OF holds_new run] .
  have lookup: "case cache_rfc_metadata clock (logged_meta im) f l (c, s, []) of (r, c', s', calls) \<Rightarrow>
      (case served_fresh t h l (clock 0, f) of
         Some m \<Rightarrow> r = Inr m \<and> calls = [] \<and> s' = s
       | None \<Rightarrow> im f l s = (r, s') \<and> calls = [Asked_Meta f l r])"
    using get_fresh_served [OF c, of "clock 0" f l] c
    by (auto simp: cache_rfc_metadata_def logged_meta_def cache_holds_def served_fresh_def
        split: option.splits sum.splits prod.splits if_splits)
  show ?thesis
    unfolding run prod.case Let_def cache_bulk_rfc_metadata_def split_hits_served [OF c]
    using lookup c by (auto simp: logged_bulk_def cache_holds_def split: prod.splits sum.splits)
qed

text \<open>
  A source that changes: the metadata looked up at 0 are served at 60, are fetched anew at 61, and at once after an
  invalidation.
\<close>

definition versioned :: "nat \<Rightarrow> rfc_function_meta" where
  "versioned n = \<lparr> fm_function = ''F'', fm_description = show_nat n, fm_function_group = [], fm_package = None,
     fm_parameters = [], fm_deprecated = False, fm_read_only = True, fm_commit_required = False, fm_authorization = [], fm_s4hana_notes = None \<rparr>"

lemma cache_serves_newest_example:
  "map (\<lambda>(ops, now). fst (cache_rfc_metadata (\<lambda>_. now) (\<lambda>f l n. (Inr (versioned n), Suc n)) ''F'' ''EN''
       (case fold (cache_observe (\<lambda>f l n. (Inr (versioned n), Suc n)) (\<lambda>fs l n. (Inl (Timeout 1), n))) ops (cache_new 60, 0, []) of
          (c, n, h) \<Rightarrow> (c, n))))
     [([Op_Meta (\<lambda>_. 0) ''F'' ''EN''], 60), ([Op_Meta (\<lambda>_. 0) ''F'' ''EN''], 61), ([Op_Meta (\<lambda>_. 0) ''F'' ''EN'', Op_Invalidate], 1)] =
   [Inr (versioned 0), Inr (versioned 1), Inr (versioned 1)]"
  by (simp add: cache_observe_def logged_meta_def cache_rfc_metadata_def cache_new_def get_fresh_def store_def count_hits_def
      invalidate_all_def Let_def)

text \<open>
  In front of the seeded client, whose answers never change, the cache is transparent: a lookup returns what the client
  returns, and a bulk lookup the same metadata, in an order of its own, and the same missing names in the same order.
\<close>

lemma cache_transparent:
  assumes "cache_run (lift_meta (mock_rfc_metadata (mock_new sem_new n identity)))
      (lift_bulk (mock_bulk_rfc_metadata (mock_new sem_new n identity))) ops (cache_new t, s0) = (c, s)"
  shows "fst (cache_rfc_metadata clock (lift_meta (mock_rfc_metadata (mock_new sem_new n identity))) f l (c, s))
      = mock_rfc_metadata (mock_new sem_new n identity) f l
    \<and> same_bulk (fst (cache_bulk_rfc_metadata clock (lift_bulk (mock_bulk_rfc_metadata (mock_new sem_new n identity))) fs l (c, s)))
      (mock_bulk_rfc_metadata (mock_new sem_new n identity) fs l)"
  using assms by (rule mock_source.run_transparent)

text \<open>
  One lookup, on every path and for any inner client. It is answered from the cache, without
  touching the inner client, exactly when the time to live is not zero and an entry for the name and
  language is at most that old; otherwise the inner client's answer is returned, stored with the
  time of the store if it is a success and the time to live is not zero, and nothing else changes but
  the counters: one hit or one miss.
\<close>

lemma cache_lookup_spec:
  "cache_rfc_metadata clock inner f l (c, s) =
     (if ttl c \<noteq> 0 \<and> (\<exists>e. map_of (entries c) (f, l) = Some e \<and> clock 0 - cached_at e \<le> ttl c)
      then (Inr (entry_meta (the (map_of (entries c) (f, l)))), count_hits 1 0 c, s)
      else (case inner f l s of (r, s') \<Rightarrow>
        (r, (case r of
               Inr m \<Rightarrow> if ttl c = 0 then count_hits 0 1 c
                 else (count_hits 0 1 c)\<lparr>entries := AList.update (f, l) \<lparr>entry_meta = m, cached_at = clock 1\<rparr> (entries c)\<rparr>
             | Inl _ \<Rightarrow> count_hits 0 1 c), s')))"
  by (auto simp: cache_rfc_metadata_def get_fresh_def store_def count_hits_def
      split: option.splits sum.splits prod.splits)

text \<open>
  Accounting: a bulk lookup adds to hits and misses together exactly the number of names asked
  for, and if every name is fresh in the cache the inner client is not called.
\<close>

lemma cache_bulk_accounting:
  assumes "cache_bulk_rfc_metadata clock inner fs l (c, s) = (r, c', s')"
  shows "hits (stats c') + misses (stats c') = hits (stats c) + misses (stats c) + length fs
    \<and> (misses (stats c') = misses (stats c) \<longrightarrow> s' = s \<and> is_ok r)"
proof -
  obtain found rest where sp: "split_hits clock 0 c l fs = (found, rest)" by fastforce
  with split_hits_lengths [of clock 0 c l fs] have len: "length found + length rest = length fs" by simp
  show ?thesis
    using assms len
    by (auto simp: cache_bulk_rfc_metadata_def sp Let_def state_simps count_hits_def split: if_splits prod.splits sum.splits)
qed

end
