(* ===== verification/Read_Tools.thy ===== *)
theory Read_Tools
  imports Tool_Schemas Odata Adt_Http Retrieval Communities Metadata_Cache
begin

text \<open>
  The handlers of the tools that only read, and of the ADT tools (\<open>apps/sap-automate-server/src/tools.rs\<close>): arguments are
  decoded, one client is called, and its answer or its error becomes the result. A handler works on the state \<open>'w\<close> of
  its client; \<open>None\<close> is a panic of the client, which ends the task of the call. Decoders, serialisers and float formats are
  arguments (\<open>read_serde\<close>); an optional component of a decoder's value is a field serde fills in with the default.
  Shown: tools fail in band, a read-only session over the HTTP client of ADT sends only reads, and what a section
  view, a partner search and a cache invalidation return.
\<close>

section \<open>Answers\<close>

type_synonym 'w tool_call = "json \<Rightarrow> 'w \<Rightarrow> call_tool_result mcp_result option \<times> 'w"

record 'f read_serde =
  de_kb_navigate :: "json \<Rightarrow> (string, string \<times> string option \<times> nat option) result"
  de_rag_search :: "json \<Rightarrow> (string, string \<times> nat option) result"
  de_docs_search :: "json \<Rightarrow> (string, string \<times> nat option \<times> string option) result"
  de_bp_search :: "json \<Rightarrow> (string, string \<times> nat option) result"
  de_bp_get :: "json \<Rightarrow> (string, string) result"
  de_rfc_search :: "json \<Rightarrow> (string, string \<times> nat option) result"
  de_rfc_meta :: "json \<Rightarrow> (string, string \<times> string option) result"
  de_table_struct :: "json \<Rightarrow> (string, string) result"
  de_name :: "json \<Rightarrow> (string, string) result"
  de_fm :: "json \<Rightarrow> (string, string \<times> string) result"
  de_package :: "json \<Rightarrow> (string, string) result"
  de_adt_search :: "json \<Rightarrow> (string, string \<times> abap_kind option \<times> nat option) result"
  de_where_used :: "json \<Rightarrow> (string, string \<times> abap_kind) result"
  de_table_contents :: "json \<Rightarrow> (string, string \<times> nat option) result"
  de_activate :: "json \<Rightarrow> (string, string \<times> abap_kind) result"
  de_multi_hop :: "json \<Rightarrow> (string, string \<times> nat option \<times> nat option \<times> nat option) result"
  de_global_query :: "json \<Rightarrow> (string, string \<times> nat option) result"
  de_summarise :: "json \<Rightarrow> (string, nat option \<times> nat option) result"
  de_neighborhood :: "json \<Rightarrow> (string, string list \<times> nat option \<times> nat option) result"
  ser_partner :: "business_partner \<Rightarrow> json"
  ser_system_info :: "system_info \<Rightarrow> json"
  ser_rfc_search :: "rfc_search_result \<Rightarrow> json"
  ser_rfc_meta :: "rfc_function_meta \<Rightarrow> json"
  ser_table_structure :: "table_structure \<Rightarrow> json"
  ser_program :: "program_source \<Rightarrow> json"
  ser_package :: "package_contents \<Rightarrow> json"
  ser_cds_view :: "cds_view \<Rightarrow> json"
  ser_adt_hit :: "'f adt_search_hit \<Rightarrow> json"
  ser_used :: "where_used_hit \<Rightarrow> json"
  ser_adt_row :: "adt_table_row \<Rightarrow> json"
  ser_outcome :: "activation_outcome \<Rightarrow> json"
  ser_graph_response :: "'f graph_search_response \<Rightarrow> json"
  ser_communities :: "community_view list \<Rightarrow> json"
  ser_raptor :: "raptor_view list \<Rightarrow> json"
  ser_score :: "'f \<Rightarrow> json"
  ser_ratio :: "cache_stats \<Rightarrow> json"
  show_score :: "'f \<Rightarrow> string"

definition or_default :: "'a \<Rightarrow> 'a option \<Rightarrow> 'a" where
  "or_default d x = (case x of Some y \<Rightarrow> y | None \<Rightarrow> d)"

definition json_nat :: "nat \<Rightarrow> json" where "json_nat n = JNumber (NInt (int n))"

definition tool_failed :: "string \<Rightarrow> call_tool_result mcp_result option" where
  "tool_failed message = Some (Inr (call_result_error message))"

definition invalid_arguments :: "string \<Rightarrow> string \<Rightarrow> call_tool_result mcp_result option" where
  "invalid_arguments tname e = tool_failed (tname @ '': invalid arguments: '' @ e)"

definition rendered :: "tool_serde \<Rightarrow> string \<Rightarrow> json \<Rightarrow> call_tool_result mcp_result option" where
  "rendered se tname v = Some (render_json se tname v)"

section \<open>Knowledge tools\<close>

definition stub_view :: "doc_tree_node \<Rightarrow> json" where
  "stub_view c = json_object
     [(''path'', JString (ni_path (dn_info c))), (''title'', JString (ni_title (dn_info c))),
      (''summary'', JString (ni_summary (dn_info c))), (''approx_tokens'', json_nat (ni_approx_tokens (dn_info c))),
      (''child_count'', json_nat (length (dn_children c)))]"

fun serialize_node_bounded :: "doc_tree_node \<Rightarrow> nat \<Rightarrow> json" where
  "serialize_node_bounded (Doc_Node i cs) depth = json_object
     [(''path'', JString (ni_path i)), (''depth'', json_nat (ni_depth i)), (''title'', JString (ni_title i)),
      (''summary'', JString (ni_summary i)), (''start_index'', json_nat (ni_start i)), (''end_index'', json_nat (ni_end i)),
      (''approx_tokens'', json_nat (ni_approx_tokens i)),
      (''children'', JArray (if depth = 0 then map stub_view cs else map (\<lambda>c. serialize_node_bounded c (depth - 1)) cs))]"

definition tool_kb_navigate ::
  "tool_serde \<Rightarrow> 'f read_serde \<Rightarrow> (string \<Rightarrow> 'w \<Rightarrow> (string, document_tree option) result \<times> 'w) \<Rightarrow> 'w tool_call" where
  "tool_kb_navigate se rs tree_of arguments w =
     (case de_kb_navigate rs arguments of
        Inl e \<Rightarrow> (invalid_arguments ''sap.kb.navigate'' e, w)
      | Inr (document_id, p, d) \<Rightarrow>
          (case tree_of document_id w of
             (Inr (Some tree), w') \<Rightarrow>
               (let path = or_default [] p
                in case (if path = [] then Some (tree_root tree) else find_node path (tree_root tree)) of
                     None \<Rightarrow> tool_failed (''sap.kb.navigate: path '' @ sq path @ '' not found in document tree (max_depth='' @
                       show_nat (tree_max_depth tree) @ '', leaf_count='' @ show_nat (tree_leaf_count tree) @ '')'')
                   | Some node \<Rightarrow> rendered se ''sap.kb.navigate'' (json_object
                       [(''document_id'', JString (tree_document_id tree)), (''max_depth'', json_nat (tree_max_depth tree)),
                        (''leaf_count'', json_nat (tree_leaf_count tree)),
                        (''node'', serialize_node_bounded node (or_default default_navigate_depth d))]), w')
           | (Inr None, w') \<Rightarrow> (tool_failed (''sap.kb.navigate: document '' @ sq document_id @ '' not found''), w')
           | (Inl e, w') \<Rightarrow> (tool_failed (''sap.kb.navigate: '' @ e), w')))"

text \<open>The engine behind a search: an embedding of the query if there is one, and ranked chunks.\<close>

record ('f, 'w) rag_ops =
  ro_embed :: "string \<Rightarrow> 'w \<Rightarrow> 'f list option \<times> 'w"
  ro_search :: "'f rag_query \<Rightarrow> 'w \<Rightarrow> (string, ('f search_hit \<times> rag_layer) list) result \<times> 'w"

fun layer_debug :: "rag_layer \<Rightarrow> string" where
  "layer_debug Hybrid = ''Hybrid''"
| "layer_debug GraphRag = ''GraphRag''"
| "layer_debug HippoRag = ''HippoRag''"
| "layer_debug Raptor = ''Raptor''"

definition dq :: "string \<Rightarrow> string" where
  "dq s = [CHR 0x22] @ s @ [CHR 0x22]"

definition hit_line :: "'f read_serde \<Rightarrow> 'f search_hit \<times> rag_layer \<Rightarrow> string" where
  "hit_line rs = (\<lambda>(h, layer). ''- ['' @ layer_debug layer @ ''] '' @ ch_title (sh_chunk h) @ '' ('' @ show_score rs (sh_score h) @ '') '' @
     em_dash @ '' '' @ truncate_chars 160 (ch_text (sh_chunk h)) @ nl @ ''  uri: '' @ ch_uri (sh_chunk h))"

definition make_rag_tool :: "'f read_serde \<Rightarrow> ('f, 'w) rag_ops \<Rightarrow> string \<Rightarrow> domain \<Rightarrow> 'w tool_call" where
  "make_rag_tool rs ops tname d arguments w =
     (case de_rag_search rs arguments of
        Inl e \<Rightarrow> (invalid_arguments tname e, w)
      | Inr (query, k) \<Rightarrow>
          (case ro_embed ops query w of (q_vec, w1) \<Rightarrow>
           case ro_search ops \<lparr> rq_text = query, rq_domain = Some d, rq_top_k = or_default default_top_k k, rq_embedding = q_vec \<rparr> w1 of
             (Inl e, w2) \<Rightarrow> (tool_failed (tname @ '': '' @ e), w2)
           | (Inr hs, w2) \<Rightarrow>
               (Some (Inr (if hs = [] then call_result_text (tname @ '': no matches for '' @ dq query)
                  else \<lparr> ctr_content = [Content_Text (join nl
                    ((tname @ '': '' @ show_nat (length hs) @ '' hit(s) for '' @ dq query) # map (hit_line rs) hs))], ctr_is_error = False \<rparr>)),
                w2)))"

definition docs_domain :: "string option \<Rightarrow> (string, domain option) result" where
  "docs_domain d =
     (if d = None \<or> d = Some ''all'' then Inr None
      else if d = Some ''sap_help'' then Inr (Some SapHelp)
      else if d = Some ''abap'' then Inr (Some Abap)
      else if d = Some ''bpmn'' then Inr (Some Bpmn)
      else if d = Some ''leanix'' then Inr (Some Leanix)
      else Inl (or_default [] d))"

definition tool_docs_search :: "tool_serde \<Rightarrow> 'f read_serde \<Rightarrow> ('f, 'w) rag_ops \<Rightarrow> 'w tool_call" where
  "tool_docs_search se rs ops arguments w =
     (case de_docs_search rs arguments of
        Inl e \<Rightarrow> (invalid_arguments ''sap.docs.search'' e, w)
      | Inr (query, k, d) \<Rightarrow>
          (case docs_domain d of
             Inl other \<Rightarrow> (tool_failed (''sap.docs.search: unknown domain '' @ sq other), w)
           | Inr dm \<Rightarrow>
               (case ro_embed ops query w of (q_vec, w1) \<Rightarrow>
                case ro_search ops \<lparr> rq_text = query, rq_domain = dm, rq_top_k = or_default default_top_k k, rq_embedding = q_vec \<rparr> w1 of
                  (Inl e, w2) \<Rightarrow> (tool_failed (''sap.docs.search: '' @ e), w2)
                | (Inr hs, w2) \<Rightarrow>
                    (rendered se ''sap.docs.search'' (json_object [(''hits'', JArray (map (\<lambda>(h, layer). json_object
                       [(''uri'', JString (ch_uri (sh_chunk h))), (''title'', JString (ch_title (sh_chunk h))),
                        (''score'', ser_score rs (sh_score h)),
                        (''snippet'', JString (truncate_chars 200 (ch_text (sh_chunk h))))]) hs))]), w2))))"

section \<open>System tools\<close>

definition tool_system_info ::
  "tool_serde \<Rightarrow> 'f read_serde \<Rightarrow> ('w \<Rightarrow> system_info rfc_result \<times> 'w) \<Rightarrow> 'w tool_call" where
  "tool_system_info se rs info arguments w =
     (case info w of
        (Inr i, w') \<Rightarrow> (rendered se ''sap.system.info'' (ser_system_info rs i), w')
      | (Inl e, w') \<Rightarrow> (tool_failed (''sap.system.info: '' @ rfc_error_display e), w'))"

text \<open>The pool has at most its cap available; the subtraction of a checked build panics otherwise.\<close>

definition tool_system_health ::
  "tool_serde \<Rightarrow> bool \<Rightarrow> adt_destination \<Rightarrow> 'f graph_engine \<Rightarrow> pool_status \<Rightarrow> call_tool_result mcp_result option" where
  "tool_system_health se read_only d eng pool =
     (if ps_available pool \<le> ps_cap pool then rendered se ''sap.system.health'' (json_object
        [(''pool'', json_object [(''cap'', json_nat (ps_cap pool)), (''available'', json_nat (ps_available pool)),
            (''in_use'', json_nat (ps_cap pool - ps_available pool))]),
         (''read_only_mode'', JBool read_only), (''adt_destination'', redacted d),
         (''graph'', json_object [(''nodes'', json_nat (gs_node_count (Graph_Store.stats (ge_graph eng)))),
            (''edges'', json_nat (gs_edge_count (Graph_Store.stats (ge_graph eng)))),
            (''communities'', json_nat (length (cs_communities (ge_communities eng))))]),
         (''protocol_version'', JString PROTOCOL_VERSION)])
      else None)"

definition tool_system_cache_stats :: "tool_serde \<Rightarrow> 'f read_serde \<Rightarrow> metadata_cache option tool_call" where
  "tool_system_cache_stats se rs arguments c =
     (rendered se ''sap.system.cache_stats'' (case c of
        None \<Rightarrow> json_object [(''enabled'', JBool False),
          (''note'', JString ''RFC metadata cache is disabled. Restart the server with --metadata-cache-ttl-secs > 0.'')]
      | Some cache \<Rightarrow> (let s = cache_stats_of cache in json_object
          [(''enabled'', JBool True), (''hits'', json_nat (hits s)), (''misses'', json_nat (misses s)),
           (''entries'', json_nat (entry_count s)), (''evictions'', json_nat (evictions s)), (''hit_ratio'', ser_ratio rs s)])), c)"

definition tool_system_cache_invalidate :: "tool_serde \<Rightarrow> metadata_cache option tool_call" where
  "tool_system_cache_invalidate se arguments c =
     (case c of
        None \<Rightarrow> (rendered se ''sap.system.cache_invalidate'' (json_object [(''enabled'', JBool False),
          (''note'', JString ''RFC metadata cache is disabled. Nothing to invalidate.'')]), c)
      | Some cache \<Rightarrow> (let before = entry_count (cache_stats_of cache)
          in (rendered se ''sap.system.cache_invalidate'' (json_object [(''ok'', JBool True), (''entries_dropped'', json_nat before)]),
              Some (invalidate_all cache))))"

section \<open>RFC catalogue tools\<close>

definition tool_rfc_search ::
  "tool_serde \<Rightarrow> 'f read_serde \<Rightarrow> (string \<Rightarrow> nat \<Rightarrow> 'w \<Rightarrow> rfc_search_result rfc_result \<times> 'w) \<Rightarrow> 'w tool_call" where
  "tool_rfc_search se rs search_rfc arguments w =
     (case de_rfc_search rs arguments of
        Inl e \<Rightarrow> (invalid_arguments ''sap.rfc.search'' e, w)
      | Inr (query, limit) \<Rightarrow>
          (case search_rfc query (or_default default_limit_20 limit) w of
             (Inr r, w') \<Rightarrow> (rendered se ''sap.rfc.search'' (ser_rfc_search rs r), w')
           | (Inl e, w') \<Rightarrow> (tool_failed (''sap.rfc.search: '' @ rfc_error_display e), w')))"

definition tool_rfc_metadata :: "tool_serde \<Rightarrow> 'f read_serde \<Rightarrow> 'w meta_call \<Rightarrow> 'w tool_call" where
  "tool_rfc_metadata se rs rfc_metadata arguments w =
     (case de_rfc_meta rs arguments of
        Inl e \<Rightarrow> (invalid_arguments ''sap.rfc.metadata'' e, w)
      | Inr (fn, language) \<Rightarrow>
          (case rfc_metadata fn (or_default default_lang language) w of
             (Inr m, w') \<Rightarrow> (rendered se ''sap.rfc.metadata'' (ser_rfc_meta rs m), w')
           | (Inl e, w') \<Rightarrow> (tool_failed (''sap.rfc.metadata: '' @ rfc_error_display e), w')))"

definition tool_table_structure ::
  "tool_serde \<Rightarrow> 'f read_serde \<Rightarrow> (string \<Rightarrow> 'w \<Rightarrow> table_structure rfc_result \<times> 'w) \<Rightarrow> 'w tool_call" where
  "tool_table_structure se rs structure_of arguments w =
     (case de_table_struct rs arguments of
        Inl e \<Rightarrow> (invalid_arguments ''sap.table.structure'' e, w)
      | Inr table \<Rightarrow>
          (case structure_of table w of
             (Inr t, w') \<Rightarrow> (rendered se ''sap.table.structure'' (ser_table_structure rs t), w')
           | (Inl e, w') \<Rightarrow> (tool_failed (''sap.table.structure: '' @ rfc_error_display e), w')))"

section \<open>Business partners\<close>

type_synonym ('a, 's) partner_run = "odata_client \<times> 's \<Rightarrow> 'a odata_result option \<times> odata_client \<times> 's"

definition bp_failed :: "string \<Rightarrow> 'a odata_result option \<Rightarrow> ('a \<Rightarrow> call_tool_result mcp_result option) \<Rightarrow> call_tool_result mcp_result option" where
  "bp_failed tname r f =
     (case r of
        None \<Rightarrow> None
      | Some (Inl e) \<Rightarrow> tool_failed (tname @ '': '' @ odata_error_display e)
      | Some (Inr x) \<Rightarrow> f x)"

text \<open>The hub is configured or not; its client's state is the world.\<close>

definition tool_bp_search ::
  "tool_serde \<Rightarrow> 'f read_serde \<Rightarrow> 's odata_env option \<Rightarrow> (odata_client \<times> 's) tool_call" where
  "tool_bp_search se rs hub arguments w =
     (case de_bp_search rs arguments of
        Inl e \<Rightarrow> (invalid_arguments ''sap.bp.search'' e, w)
      | Inr (query, limit) \<Rightarrow>
          (case hub of
             None \<Rightarrow> (tool_failed (''sap.bp.search: SAP Business Accelerator Hub disabled. Set SAP_BUSINESS_HUB_KEY '' @
               ''(free key from a SAP Community account) and restart the server.''), w)
           | Some E \<Rightarrow>
               (case search_business_partners E query (max 1 (min 100 (or_default default_bp_limit limit))) w of
                  (r, w') \<Rightarrow> (bp_failed ''sap.bp.search'' r (\<lambda>rows. rendered se ''sap.bp.search'' (json_object
                     [(''query'', JString query), (''count'', json_nat (length rows)), (''results'', JArray (map (ser_partner rs) rows))])), w'))))"

definition tool_bp_get ::
  "tool_serde \<Rightarrow> 'f read_serde \<Rightarrow> 's odata_env option \<Rightarrow> (odata_client \<times> 's) tool_call" where
  "tool_bp_get se rs hub arguments w =
     (case de_bp_get rs arguments of
        Inl e \<Rightarrow> (invalid_arguments ''sap.bp.get'' e, w)
      | Inr i \<Rightarrow>
          (case hub of
             None \<Rightarrow> (tool_failed ''sap.bp.get: SAP Business Accelerator Hub disabled. Set SAP_BUSINESS_HUB_KEY.'', w)
           | Some E \<Rightarrow>
               (case get_business_partner E i w of
                  (r, w') \<Rightarrow> (bp_failed ''sap.bp.get'' r (\<lambda>bp. rendered se ''sap.bp.get'' (ser_partner rs bp)), w'))))"

section \<open>ADT tools\<close>

text \<open>The trait the tools call; a client is one record of its operations.\<close>

record ('f, 'w) adt_ops =
  dc_get_program :: "string \<Rightarrow> 'w \<Rightarrow> program_source adt_result option \<times> 'w"
  dc_get_class :: "string \<Rightarrow> 'w \<Rightarrow> program_source adt_result option \<times> 'w"
  dc_get_interface :: "string \<Rightarrow> 'w \<Rightarrow> program_source adt_result option \<times> 'w"
  dc_get_include :: "string \<Rightarrow> 'w \<Rightarrow> program_source adt_result option \<times> 'w"
  dc_get_function_module :: "string \<Rightarrow> string \<Rightarrow> 'w \<Rightarrow> program_source adt_result option \<times> 'w"
  dc_get_package_contents :: "string \<Rightarrow> 'w \<Rightarrow> package_contents adt_result option \<times> 'w"
  dc_get_cds_view :: "string \<Rightarrow> 'w \<Rightarrow> cds_view adt_result option \<times> 'w"
  dc_search :: "adt_search_request \<Rightarrow> 'w \<Rightarrow> 'f adt_search_hit list adt_result option \<times> 'w"
  dc_where_used :: "where_used_request \<Rightarrow> 'w \<Rightarrow> where_used_hit list adt_result option \<times> 'w"
  dc_get_table_contents :: "string \<Rightarrow> nat \<Rightarrow> 'w \<Rightarrow> adt_table_row list adt_result option \<times> 'w"
  dc_activate :: "activation_request \<Rightarrow> adt_call_context \<Rightarrow> 'w \<Rightarrow> activation_outcome adt_result option \<times> 'w"

definition http_adt_ops :: "'s adt_env \<Rightarrow> 'f \<Rightarrow> ('f, adt_http \<times> 's) adt_ops" where
  "http_adt_ops E one =
     \<lparr> dc_get_program = http_get_program E, dc_get_class = http_get_class E, dc_get_interface = http_get_interface E,
       dc_get_include = http_get_include E, dc_get_function_module = http_get_function_module E,
       dc_get_package_contents = http_get_package_contents E, dc_get_cds_view = http_get_cds_view E,
       dc_search = http_search E one, dc_where_used = http_where_used E, dc_get_table_contents = http_get_table_contents E,
       dc_activate = http_activate E \<rparr>"

definition mock_adt_ops ::
  "'f f32_ops \<Rightarrow> (string \<Rightarrow> string) \<Rightarrow> (string \<Rightarrow> string) \<Rightarrow> adt_orders \<Rightarrow> mock_adt_client \<Rightarrow> ('f, 'w) adt_ops" where
  "mock_adt_ops F lower upper H c =
     \<lparr> dc_get_program = (\<lambda>n w. (Some (mock_get_program upper c n), w)),
       dc_get_class = (\<lambda>n w. (Some (mock_get_class upper c n), w)),
       dc_get_interface = (\<lambda>n w. (Some (mock_get_interface upper c n), w)),
       dc_get_include = (\<lambda>n w. (Some (mock_get_include upper c n), w)),
       dc_get_function_module = (\<lambda>g n w. (Some (mock_get_function_module upper c g n), w)),
       dc_get_package_contents = (\<lambda>p w. (Some (mock_get_package_contents upper c p), w)),
       dc_get_cds_view = (\<lambda>n w. (Some (mock_get_cds_view upper c n), w)),
       dc_search = (\<lambda>rq w. (Some (mock_search F lower H c rq), w)),
       dc_where_used = (\<lambda>rq w. (Some (mock_where_used upper c rq), w)),
       dc_get_table_contents = (\<lambda>t n w. (Some (mock_get_table_contents upper c t n), w)),
       dc_activate = (\<lambda>rq ctx w. (Some (mock_activate rq ctx), w)) \<rparr>"

text \<open>\<open>{:?}\<close> of an error code.\<close>

fun adt_code_debug :: "adt_error_code \<Rightarrow> string" where
  "adt_code_debug Adt_Code_Timeout = ''Timeout''"
| "adt_code_debug Adt_Code_DestinationDown = ''DestinationDown''"
| "adt_code_debug Adt_Code_CsrfRefresh = ''CsrfRefresh''"
| "adt_code_debug Adt_Code_RateLimited = ''RateLimited''"
| "adt_code_debug Adt_Code_AuthFailed = ''AuthFailed''"
| "adt_code_debug Adt_Code_NotFound = ''NotFound''"
| "adt_code_debug Adt_Code_Forbidden = ''Forbidden''"
| "adt_code_debug Adt_Code_InvalidObjectName = ''InvalidObjectName''"
| "adt_code_debug Adt_Code_InactiveObject = ''InactiveObject''"
| "adt_code_debug Adt_Code_DataPreviewBlocked = ''DataPreviewBlocked''"
| "adt_code_debug Adt_Code_PermissionDenied = ''PermissionDenied''"
| "adt_code_debug Adt_Code_Locked = ''Locked''"
| "adt_code_debug Adt_Code_Internal = ''Internal''"

definition adt_failure :: "string \<Rightarrow> adt_error \<Rightarrow> call_tool_result" where
  "adt_failure tname e = call_result_error (tname @ '' ['' @ adt_code_debug (adt_code e) @ '']: '' @ adt_error_display e)"

text \<open>The shape all ADT handlers have: decode, call, render.\<close>

definition adt_tool ::
  "tool_serde \<Rightarrow> string \<Rightarrow> (json \<Rightarrow> (string, 'a) result) \<Rightarrow> ('a \<Rightarrow> 'w \<Rightarrow> 'r adt_result option \<times> 'w) \<Rightarrow> ('r \<Rightarrow> json) \<Rightarrow> 'w tool_call" where
  "adt_tool se tname decode call ser arguments w =
     (case decode arguments of
        Inl e \<Rightarrow> (tool_failed (tname @ '': '' @ e), w)
      | Inr args \<Rightarrow>
          (case call args w of
             (Some (Inr v), w') \<Rightarrow> (rendered se tname (ser v), w')
           | (Some (Inl e), w') \<Rightarrow> (Some (Inr (adt_failure tname e)), w')
           | (None, w') \<Rightarrow> (None, w')))"

definition adt_get_program :: "tool_serde \<Rightarrow> 'f read_serde \<Rightarrow> ('f, 'w) adt_ops \<Rightarrow> 'w tool_call" where
  "adt_get_program se rs ops = adt_tool se ''abap.adt.get_program'' (de_name rs) (dc_get_program ops) (ser_program rs)"

definition adt_get_class :: "tool_serde \<Rightarrow> 'f read_serde \<Rightarrow> ('f, 'w) adt_ops \<Rightarrow> 'w tool_call" where
  "adt_get_class se rs ops = adt_tool se ''abap.adt.get_class'' (de_name rs) (dc_get_class ops) (ser_program rs)"

definition adt_get_interface :: "tool_serde \<Rightarrow> 'f read_serde \<Rightarrow> ('f, 'w) adt_ops \<Rightarrow> 'w tool_call" where
  "adt_get_interface se rs ops = adt_tool se ''abap.adt.get_interface'' (de_name rs) (dc_get_interface ops) (ser_program rs)"

definition adt_get_include :: "tool_serde \<Rightarrow> 'f read_serde \<Rightarrow> ('f, 'w) adt_ops \<Rightarrow> 'w tool_call" where
  "adt_get_include se rs ops = adt_tool se ''abap.adt.get_include'' (de_name rs) (dc_get_include ops) (ser_program rs)"

definition adt_get_function_module :: "tool_serde \<Rightarrow> 'f read_serde \<Rightarrow> ('f, 'w) adt_ops \<Rightarrow> 'w tool_call" where
  "adt_get_function_module se rs ops = adt_tool se ''abap.adt.get_function_module'' (de_fm rs)
     (\<lambda>(g, n). dc_get_function_module ops g n) (ser_program rs)"

definition adt_get_package_contents :: "tool_serde \<Rightarrow> 'f read_serde \<Rightarrow> ('f, 'w) adt_ops \<Rightarrow> 'w tool_call" where
  "adt_get_package_contents se rs ops =
     adt_tool se ''abap.adt.get_package_contents'' (de_package rs) (dc_get_package_contents ops) (ser_package rs)"

definition adt_get_cds_view :: "tool_serde \<Rightarrow> 'f read_serde \<Rightarrow> ('f, 'w) adt_ops \<Rightarrow> 'w tool_call" where
  "adt_get_cds_view se rs ops = adt_tool se ''abap.adt.get_cds_view'' (de_name rs) (dc_get_cds_view ops) (ser_cds_view rs)"

definition adt_search :: "tool_serde \<Rightarrow> 'f read_serde \<Rightarrow> ('f, 'w) adt_ops \<Rightarrow> 'w tool_call" where
  "adt_search se rs ops = adt_tool se ''abap.adt.search'' (de_adt_search rs)
     (\<lambda>(query, kind, n). dc_search ops
        \<lparr> asr_query = query, asr_kind = kind, asr_max_results = or_default default_max_results n \<rparr>)
     (\<lambda>hs. json_object [(''hits'', JArray (map (ser_adt_hit rs) hs))])"

definition adt_where_used :: "tool_serde \<Rightarrow> 'f read_serde \<Rightarrow> ('f, 'w) adt_ops \<Rightarrow> 'w tool_call" where
  "adt_where_used se rs ops = adt_tool se ''abap.adt.where_used'' (de_where_used rs)
     (\<lambda>(name, kind). dc_where_used ops \<lparr> wur_name = name, wur_kind = kind \<rparr>)
     (\<lambda>hs. json_object [(''hits'', JArray (map (ser_used rs) hs))])"

definition adt_get_table_contents :: "tool_serde \<Rightarrow> 'f read_serde \<Rightarrow> ('f, 'w) adt_ops \<Rightarrow> 'w tool_call" where
  "adt_get_table_contents se rs ops = adt_tool se ''abap.adt.get_table_contents'' (de_table_contents rs)
     (\<lambda>(table, n). dc_get_table_contents ops table (or_default default_max_rows_100 n))
     (\<lambda>rows. json_object [(''rows'', JArray (map (ser_adt_row rs) rows)), (''count'', json_nat (length rows))])"

definition adt_activate :: "tool_serde \<Rightarrow> 'f read_serde \<Rightarrow> ('f, 'w) adt_ops \<Rightarrow> bool \<Rightarrow> 'w tool_call" where
  "adt_activate se rs ops read_only = adt_tool se ''abap.adt.activate'' (de_activate rs)
     (\<lambda>(name, kind). dc_activate ops \<lparr> act_name = name, act_kind = kind \<rparr> \<lparr> ac_read_only = read_only \<rparr>)
     (ser_outcome rs)"

text \<open>\<open>adt_tools\<close>: the handlers in the order of registration.\<close>

definition adt_handlers :: "tool_serde \<Rightarrow> 'f read_serde \<Rightarrow> ('f, 'w) adt_ops \<Rightarrow> bool \<Rightarrow> (string \<times> 'w tool_call) list" where
  "adt_handlers se rs ops read_only =
     [(''abap.adt.get_program'', adt_get_program se rs ops), (''abap.adt.get_class'', adt_get_class se rs ops),
      (''abap.adt.get_interface'', adt_get_interface se rs ops), (''abap.adt.get_include'', adt_get_include se rs ops),
      (''abap.adt.get_function_module'', adt_get_function_module se rs ops),
      (''abap.adt.get_package_contents'', adt_get_package_contents se rs ops),
      (''abap.adt.get_cds_view'', adt_get_cds_view se rs ops), (''abap.adt.search'', adt_search se rs ops),
      (''abap.adt.where_used'', adt_where_used se rs ops), (''abap.adt.get_table_contents'', adt_get_table_contents se rs ops),
      (''abap.adt.activate'', adt_activate se rs ops read_only)]"

section \<open>Graph tools\<close>

definition kb_multi_hop ::
  "tool_serde \<Rightarrow> 'f read_serde \<Rightarrow> 'f f32_ops \<Rightarrow> (string \<Rightarrow> string) \<Rightarrow> 'f hash_orders \<Rightarrow> 'f graph_engine \<Rightarrow> json \<Rightarrow> call_tool_result mcp_result option" where
  "kb_multi_hop se rs F lower H eng arguments =
     (case de_multi_hop rs arguments of
        Inl e \<Rightarrow> invalid_arguments ''kb.multi_hop'' e
      | Inr (query, mh, k, ms) \<Rightarrow> rendered se ''kb.multi_hop'' (ser_graph_response rs (multi_hop F lower H eng query
          (or_default default_max_hops mh) (or_default default_top_k_graph k) (or_default default_max_seeds ms))))"

definition kb_global_query ::
  "tool_serde \<Rightarrow> 'f read_serde \<Rightarrow> (string \<Rightarrow> string) \<Rightarrow> 'f graph_engine \<Rightarrow> json \<Rightarrow> call_tool_result mcp_result option" where
  "kb_global_query se rs lower eng arguments =
     (case de_global_query rs arguments of
        Inl e \<Rightarrow> invalid_arguments ''kb.global_query'' e
      | Inr (query, k) \<Rightarrow> rendered se ''kb.global_query'' (ser_communities rs (community_query lower eng query (or_default default_top_k_3 k))))"

definition kb_summarise ::
  "tool_serde \<Rightarrow> 'f read_serde \<Rightarrow> 'f graph_engine \<Rightarrow> json \<Rightarrow> call_tool_result mcp_result option" where
  "kb_summarise se rs eng arguments =
     (case de_summarise rs arguments of
        Inl e \<Rightarrow> invalid_arguments ''kb.summarise'' e
      | Inr (level, k) \<Rightarrow> rendered se ''kb.summarise''
          (ser_raptor rs (raptor_summary eng (or_default default_level_2 level) (or_default default_top_k_10 k))))"

definition kb_graph_neighborhood ::
  "tool_serde \<Rightarrow> 'f read_serde \<Rightarrow> 'f f32_ops \<Rightarrow> 'f hash_orders \<Rightarrow> 'f graph_engine \<Rightarrow> json \<Rightarrow> call_tool_result mcp_result option" where
  "kb_graph_neighborhood se rs F H eng arguments =
     (case de_neighborhood rs arguments of
        Inl e \<Rightarrow> invalid_arguments ''kb.graph_neighborhood'' e
      | Inr (seeds, mh, k) \<Rightarrow>
          if seeds = [] then tool_failed ''kb.graph_neighborhood: seeds must not be empty''
          else rendered se ''kb.graph_neighborhood'' (ser_graph_response rs (neighborhood F H eng seeds
            (or_default default_max_hops mh) (or_default default_top_k_graph k))))"

section \<open>Tools fail in band\<close>

lemma rendered_ok: "\<exists>res. rendered se tname v = Some (Inr res)"
  by (auto simp: rendered_def render_json_def split: sum.split)

lemma tool_failed_ok: "tool_failed m = Some (Inr (call_result_error m))"
  by (simp add: tool_failed_def)

text \<open>What a client makes of a call is a result, never a protocol error; a panic of the client is a panic of the tool.\<close>

lemma adt_tool_in_band:
  "fst (adt_tool se tname decode call ser arguments w) = None \<longleftrightarrow> (\<exists>args. decode arguments = Inr args \<and> fst (call args w) = None)"
  "fst (adt_tool se tname decode call ser arguments w) \<noteq> Some (Inl e)"
  using rendered_ok [of se tname]
  by (auto simp: adt_tool_def tool_failed_def split: sum.splits prod.splits option.splits) (metis option.distinct(1) sum.distinct(1) option.inject)+

section \<open>Read-only sessions\<close>

text \<open>A session calls registered tools by name; a call of another name changes nothing.\<close>

fun tool_session :: "(string \<times> 'w tool_call) list \<Rightarrow> (string \<times> json) list \<Rightarrow> 'w \<Rightarrow> call_tool_result mcp_result option list \<times> 'w" where
  "tool_session handlers [] w = ([], w)"
| "tool_session handlers ((n, arguments) # calls) w =
     (case map_of handlers n of
        None \<Rightarrow> tool_session handlers calls w
      | Some t \<Rightarrow>
          (case t arguments w of (r, w') \<Rightarrow> case tool_session handlers calls w' of (rs, w'') \<Rightarrow> (r # rs, w'')))"

text \<open>
  What a client promises to a read-only server: its calls change its world only within \<open>quiet\<close>, and so does
  an activation in read-only mode.
\<close>

locale read_only_adt =
  fixes ops :: "('f, 'w) adt_ops" and quiet :: "'w \<Rightarrow> 'w \<Rightarrow> bool"
  assumes quiet_refl: "quiet w w"
    and quiet_trans: "quiet w w' \<Longrightarrow> quiet w' w'' \<Longrightarrow> quiet w w''"
    and quiet_sources: "quiet w (snd (dc_get_program ops n w))" "quiet w (snd (dc_get_class ops n w))"
      "quiet w (snd (dc_get_interface ops n w))" "quiet w (snd (dc_get_include ops n w))"
      "quiet w (snd (dc_get_function_module ops g n w))" "quiet w (snd (dc_get_cds_view ops n w))"
    and quiet_lists: "quiet w (snd (dc_get_package_contents ops p w))" "quiet w (snd (dc_search ops srq w))"
      "quiet w (snd (dc_where_used ops wrq w))" "quiet w (snd (dc_get_table_contents ops t k w))"
    and quiet_activate: "ac_read_only ctx \<Longrightarrow> quiet w (snd (dc_activate ops arq ctx w))"
begin

lemma quiet_tool:
  assumes "\<And>args. quiet w (snd (call args w))"
  shows "quiet w (snd (adt_tool se tname decode call ser arguments w))"
proof (cases "decode arguments")
  case (Inl e)
  then show ?thesis using quiet_refl by (simp add: adt_tool_def)
next
  case (Inr args)
  have "snd (adt_tool se tname decode call ser arguments w) = snd (call args w)"
    by (simp add: adt_tool_def Inr split: prod.split option.split sum.split)
  then show ?thesis using assms by simp
qed

lemma quiet_handler:
  assumes "(n, t) \<in> set (adt_handlers se rs ops True)"
  shows "quiet w (snd (t arguments w))"
proof -
  have "t \<in> snd ` set (adt_handlers se rs ops True)" using assms by (metis image_eqI snd_conv)
  then show ?thesis
    unfolding adt_handlers_def adt_get_program_def adt_get_class_def adt_get_interface_def adt_get_include_def
      adt_get_function_module_def adt_get_package_contents_def adt_get_cds_view_def adt_search_def adt_where_used_def
      adt_get_table_contents_def adt_activate_def
    by (auto intro!: quiet_tool quiet_sources quiet_lists quiet_activate split: prod.split)
qed

lemma quiet_session: "quiet w (snd (tool_session (adt_handlers se rs ops True) calls w))"
proof (induction "adt_handlers se rs ops True" calls w rule: tool_session.induct)
  case (2 n arguments calls w)
  show ?case
  proof (cases "map_of (adt_handlers se rs ops True) n")
    case None
    then show ?thesis using 2(1) by simp
  next
    case (Some t)
    obtain r w' where t: "t arguments w = (r, w')" by (cases "t arguments w")
    have "quiet w w'" using quiet_handler [OF map_of_SomeD [OF Some], of w arguments] t by simp
    moreover have "quiet w' (snd (tool_session (adt_handlers se rs ops True) calls w'))"
      using 2(2) [OF Some t [symmetric]] by simp
    ultimately show ?thesis using quiet_trans by (simp add: Some t split_def)
  qed
qed (simp add: quiet_refl)

end

text \<open>The offline client changes nothing.\<close>

interpretation mock_tools: read_only_adt "mock_adt_ops F lower upper H c" "(=)"
  by unfold_locales (simp_all add: mock_adt_ops_def)

text \<open>The HTTP client sends reads only.\<close>

definition reads_only :: "adt_http \<times> 's \<times> adt_log \<Rightarrow> adt_http \<times> 's \<times> adt_log \<Rightarrow> bool" where
  "reads_only = (\<lambda>(c, s, l) (c', s', l'). hc_destination c' = hc_destination c \<and>
     (\<exists>new. l' = l @ new \<and> list_all (read_request (hc_destination c) \<circ> fst) new))"

lemma sends_reads_only:
  assumes "\<And>d. sends d (read_request d) m (\<lambda>_. True)"
  shows "reads_only w (snd (m w))"
proof -
  obtain c s l where w: "w = (c, s, l)" by (cases w)
  obtain r c' s' new where "m (c, s, l) = (r, c', s', l @ new)" "hc_destination c' = hc_destination c"
    "list_all (read_request (hc_destination c) \<circ> fst) new"
    by (rule sendsD [OF assms refl, of c s l]) blast
  then show ?thesis by (simp add: w reads_only_def)
qed

lemma reads_only_refl: "reads_only w w"
  by (cases w) (simp add: reads_only_def)

lemma reads_only_trans: "reads_only w w' \<Longrightarrow> reads_only w' w'' \<Longrightarrow> reads_only w w''"
  by (cases w; cases w'; cases w'') (fastforce simp: reads_only_def)

interpretation http_tools: read_only_adt "http_adt_ops (logged_env E) one" reads_only
  by unfold_locales
    (auto simp: http_adt_ops_def http_get_program_def http_get_class_def http_get_interface_def http_get_include_def
      intro: reads_only_refl reads_only_trans intro!: sends_reads_only sends_reads)

text \<open>
  C9. A read-only server over the HTTP client of ADT only reads. Whatever tools are called with whatever arguments,
  and whatever the SAP system answers, every request sent is a token request, a GET below the destination's URL
  or one of the three reading POSTs, and none carries a CSRF token; and an activation whose arguments decode is
  answered with the refusal.
\<close>

theorem adt_tools_read_only:
  "(case tool_session (adt_handlers se rs (http_adt_ops (logged_env E) one) True) calls (c, s, []) of
      (res, c', s', sent) \<Rightarrow> hc_destination c' = hc_destination c \<and> list_all (read_request (hc_destination c) \<circ> fst) sent) \<and>
   (case de_activate rs arguments of
      Inr (name, kind) \<Rightarrow> adt_activate se rs (http_adt_ops (logged_env E) one) True arguments (c, s, []) =
        (Some (Inr (adt_failure ''abap.adt.activate'' (activation_refused \<lparr> act_name = name, act_kind = kind \<rparr>))), c, s, [])
    | Inl e \<Rightarrow> True)"
proof
  show "case tool_session (adt_handlers se rs (http_adt_ops (logged_env E) one) True) calls (c, s, []) of
      (res, c', s', sent) \<Rightarrow> hc_destination c' = hc_destination c \<and> list_all (read_request (hc_destination c) \<circ> fst) sent"
  proof -
    have "reads_only (c, s, []) (snd (tool_session (adt_handlers se rs (http_adt_ops (logged_env E) one) True) calls (c, s, [])))"
      by (rule http_tools.quiet_session)
    then show ?thesis by (auto simp: reads_only_def split: prod.splits)
  qed
  show "case de_activate rs arguments of
      Inr (name, kind) \<Rightarrow> adt_activate se rs (http_adt_ops (logged_env E) one) True arguments (c, s, []) =
        (Some (Inr (adt_failure ''abap.adt.activate'' (activation_refused \<lparr> act_name = name, act_kind = kind \<rparr>))), c, s, [])
    | Inl e \<Rightarrow> True"
    by (auto simp: adt_activate_def adt_tool_def http_adt_ops_def http_gate.gate split: sum.split)
qed

section \<open>Partners, sections and the cache\<close>

text \<open>A partner search asks for at least one and at most a hundred rows, and for nothing without a hub.\<close>

lemma bp_search_bounded:
  "de_bp_search rs arguments = Inr (query, limit) \<Longrightarrow>
    \<exists>n. 1 \<le> n \<and> n \<le> 100 \<and> snd (tool_bp_search se rs (Some E) arguments w) = snd (search_business_partners E query n w)"
  "snd (tool_bp_search se rs None arguments w) = w"
  "fst (tool_bp_search se rs None arguments w) \<noteq> None"
  by (auto simp: tool_bp_search_def tool_failed_def invalid_arguments_def split: sum.splits prod.splits
      intro!: exI [of _ "max 1 (min 100 (or_default default_bp_limit limit))"])

text \<open>The view of a section: its own path, and at depth \<open>d\<close> exactly the descendants down to \<open>d + 1\<close> levels.\<close>

primrec json_paths :: "nat \<Rightarrow> json \<Rightarrow> string list" where
  "json_paths 0 v = []"
| "json_paths (Suc n) v =
     (case Option.bind (json_get ''path'' v) as_str of Some p \<Rightarrow> [p] | None \<Rightarrow> []) @
     (case Option.bind (json_get ''children'' v) as_array of Some cs \<Rightarrow> concat (map (json_paths n) cs) | None \<Rightarrow> [])"

fun paths_to :: "nat \<Rightarrow> doc_tree_node \<Rightarrow> string list" where
  "paths_to n (Doc_Node i cs) = ni_path i # (case n of 0 \<Rightarrow> [] | Suc m \<Rightarrow> concat (map (paths_to m) cs))"

lemma view_members:
  "json_get ''path'' (stub_view c) = Some (JString (ni_path (dn_info c)))" "json_get ''children'' (stub_view c) = None"
  "json_get ''path'' (serialize_node_bounded (Doc_Node i cs) d) = Some (JString (ni_path i))"
  "json_get ''children'' (serialize_node_bounded (Doc_Node i cs) d) =
     Some (JArray (if d = 0 then map stub_view cs else map (\<lambda>c. serialize_node_bounded c (d - 1)) cs))"
  by (simp_all add: stub_view_def json_object_def amap_of_def del: amap_insert.simps)

lemma stub_paths: "json_paths (Suc n) (stub_view c) = [ni_path (dn_info c)]"
  by (simp add: view_members)

lemma paths_to_0: "paths_to 0 c = [ni_path (dn_info c)]"
  by (cases c) simp

lemma concat_paths_0: "concat (map (paths_to 0) cs) = map (\<lambda>c. ni_path (dn_info c)) cs"
  by (induction cs) (simp_all add: paths_to_0)

lemma navigate_view_paths: "json_paths (d + 2) (serialize_node_bounded node d) = paths_to (Suc d) node"
proof (induction d arbitrary: node)
  case 0
  obtain i cs where n: "node = Doc_Node i cs" by (cases node)
  show ?case by (simp add: n view_members numeral_2_eq_2 o_def concat_paths_0 del: serialize_node_bounded.simps)
next
  case (Suc d)
  obtain i cs where n: "node = Doc_Node i cs" by (cases node)
  have eq: "json_paths (Suc (Suc d)) (serialize_node_bounded c d) = paths_to (Suc d) c" for c
    using Suc by (simp add: numeral_2_eq_2)
  show ?case
    by (simp add: n view_members numeral_2_eq_2 o_def eq json_paths.simps(2) [of "Suc (Suc d)"]
        del: serialize_node_bounded.simps json_paths.simps)
qed

text \<open>Dropping the cache leaves it empty and reports what it held; the next lookup asks SAP again.\<close>

lemma cache_invalidate_empties:
  "case tool_system_cache_invalidate se arguments (Some cache) of
     (r, Some cache') \<Rightarrow> entries cache' = [] \<and> get_fresh now cache' key = None \<and>
       evictions (metadata_cache.stats cache') = evictions (metadata_cache.stats cache) + length (entries cache) \<and>
       r = rendered se ''sap.system.cache_invalidate'' (json_object [(''ok'', JBool True), (''entries_dropped'', json_nat (length (entries cache)))])
   | (r, None) \<Rightarrow> False"
  by (simp add: tool_system_cache_invalidate_def invalidate_all_def cache_stats_of_def get_fresh_def Let_def)

end
