(* ===== verification/Credentials.thy ===== *)
theory Credentials
  imports Rfc_Error Json
begin

text \<open>
  Credential providers (\<open>sap-automate-rfc/src/credentials.rs\<close>): the environment, static values and the chain of
  providers. A provider is a state-passing function; a panic of \<open>unwrap\<close> is \<open>None\<close>. Shown: the environment gives all
  or nothing and never panics, the first provider that has an answer decides, and no password in a summary.
\<close>

section \<open>Credentials\<close>

datatype credential_source = Source_Env | Source_Keyring | Source_EncryptedFile | Source_DotEnv | Source_Static | Source_None

record credentials =
  cr_ashost :: string
  cr_sysnr :: string
  cr_client :: string
  cr_user :: string
  cr_password :: string
  cr_language :: string
  cr_saprouter :: "string option"
  cr_source :: credential_source

fun source_debug :: "credential_source \<Rightarrow> string" where
  "source_debug Source_Env = ''Env''"
| "source_debug Source_Keyring = ''Keyring''"
| "source_debug Source_EncryptedFile = ''EncryptedFile''"
| "source_debug Source_DotEnv = ''DotEnv''"
| "source_debug Source_Static = ''Static''"
| "source_debug Source_None = ''None''"

definition credentials_redacted :: "credentials \<Rightarrow> json" where
  "credentials_redacted c = json_object
     [(''ashost'', JString (cr_ashost c)), (''sysnr'', JString (cr_sysnr c)), (''client'', JString (cr_client c)),
      (''user'', JString (cr_user c)), (''language'', JString (cr_language c)),
      (''saprouter'', case cr_saprouter c of Some r \<Rightarrow> JString r | None \<Rightarrow> JNull),
      (''source'', JString (source_debug (cr_source c))), (''password'', JString ''***'')]"

section \<open>Providers\<close>

type_synonym 's credential_provider = "'s \<Rightarrow> credentials option rfc_result option \<times> 's"

definition needed_vars :: "string list" where
  "needed_vars = [''SAP_ASHOST'', ''SAP_SYSNR'', ''SAP_CLIENT'', ''SAP_USER'', ''SAP_PASSWD'']"

text \<open>\<open>{:?}\<close> of a list of names without special characters.\<close>

definition debug_names :: "string list \<Rightarrow> string" where
  "debug_names xs = ''['' @ join '', '' (map (\<lambda>x. [CHR 0x22] @ x @ [CHR 0x22]) xs) @ '']''"

text \<open>The environment maps a variable to its value if it is set to Unicode text.\<close>

definition env_fetch :: "(string \<Rightarrow> string option) \<Rightarrow> credentials option rfc_result option" where
  "env_fetch env =
     (let present = filter (\<lambda>k. env k \<noteq> None) needed_vars
      in if present = [] then Some (Inr None)
         else if length present < length needed_vars
         then Some (Inl (AuthFailed (''partial SAP env vars: missing '' @ debug_names (filter (\<lambda>k. env k = None) needed_vars))))
         else (case (env ''SAP_ASHOST'', env ''SAP_SYSNR'', env ''SAP_CLIENT'', env ''SAP_USER'', env ''SAP_PASSWD'') of
                 (Some ashost, Some sysnr, Some client, Some user, Some passwd) \<Rightarrow>
                   Some (Inr (Some \<lparr> cr_ashost = ashost, cr_sysnr = sysnr, cr_client = client, cr_user = user, cr_password = passwd,
                     cr_language = (case env ''SAP_LANG'' of Some l \<Rightarrow> l | None \<Rightarrow> ''EN''),
                     cr_saprouter = env ''SAP_SAPROUTER'', cr_source = Source_Env \<rparr>))
               | _ \<Rightarrow> None))"

definition static_fetch :: "credentials \<Rightarrow> 's credential_provider" where
  "static_fetch creds s = (Some (Inr (Some creds)), s)"

fun layered_fetch :: "'s credential_provider list \<Rightarrow> 's credential_provider" where
  "layered_fetch [] s = (Some (Inr None), s)"
| "layered_fetch (p # ps) s =
     (case p s of
        (Some (Inr (Some c)), s') \<Rightarrow> (Some (Inr (Some c)), s')
      | (Some (Inr None), s') \<Rightarrow> layered_fetch ps s'
      | (Some (Inl e), s') \<Rightarrow> (Some (Inl e), s')
      | (None, s') \<Rightarrow> (None, s'))"

definition layered_add :: "'s credential_provider list \<Rightarrow> 's credential_provider \<Rightarrow> 's credential_provider list" where
  "layered_add ps p = ps @ [p]"

section \<open>What they give\<close>

text \<open>Two credentials that differ in the password have the same summary.\<close>

lemma redacted_hides_password: "credentials_redacted (c\<lparr> cr_password := p \<rparr>) = credentials_redacted c"
  by (simp add: credentials_redacted_def)

text \<open>All five variables give credentials, none gives nothing, anything between is an error that names the missing ones.\<close>

lemma all_or_nothing:
  "(\<forall>k \<in> set needed_vars. env k = None) \<Longrightarrow> env_fetch env = Some (Inr None)"
  "(\<forall>k \<in> set needed_vars. env k \<noteq> None) \<Longrightarrow> \<exists>c. env_fetch env = Some (Inr (Some c)) \<and> Some (cr_password c) = env ''SAP_PASSWD'' \<and>
     Some (cr_ashost c) = env ''SAP_ASHOST'' \<and> Some (cr_user c) = env ''SAP_USER''"
  by (auto simp: env_fetch_def needed_vars_def)

lemma env_fetch_partial:
  assumes "k \<in> set needed_vars" "env k = None" "k' \<in> set needed_vars" "env k' \<noteq> None"
  shows "\<exists>missing. env_fetch env = Some (Inl (AuthFailed (''partial SAP env vars: missing '' @ debug_names missing))) \<and>
    set missing = {k \<in> set needed_vars. env k = None}"
proof -
  have "filter (\<lambda>k. env k \<noteq> None) needed_vars \<noteq> []" using assms(3,4) by (auto simp: filter_empty_conv)
  moreover have "length (filter (\<lambda>k. env k \<noteq> None) needed_vars) < length needed_vars"
    using assms(1,2) by (intro length_filter_less) auto
  ultimately show ?thesis by (auto simp: env_fetch_def Let_def)
qed

lemma env_fetch_never_panics: "env_fetch env \<noteq> None"
proof (cases "(\<forall>k \<in> set needed_vars. env k = None) \<or> (\<forall>k \<in> set needed_vars. env k \<noteq> None)")
  case True
  then show ?thesis using all_or_nothing [of env] by auto
next
  case False
  then show ?thesis using env_fetch_partial [of _ env] by blast
qed

text \<open>A chain is a provider: providers with nothing are passed over, the first other answer is the chain's.\<close>

lemma layered_append:
  "layered_fetch (ps @ qs) s =
     (case layered_fetch ps s of (Some (Inr None), s') \<Rightarrow> layered_fetch qs s' | r \<Rightarrow> r)"
  by (induction ps s rule: layered_fetch.induct) (auto split: prod.split option.split sum.split)

lemma layered_add_static:
  "layered_fetch (layered_add ps (static_fetch creds)) s =
     (case layered_fetch ps s of (Some (Inr None), s') \<Rightarrow> (Some (Inr (Some creds)), s') | r \<Rightarrow> r)"
  by (simp add: layered_add_def layered_append static_fetch_def split: prod.split option.split sum.split)

end
