(* ===== verification/Qdrant.thy ===== *)
theory Qdrant
  imports Kb_Store Json Http_Client "HOL-Library.Word"
begin

unbundle bit_operations_syntax

text \<open>
  The store over Qdrant's REST interface (\<open>sap-automate-kb/src/qdrant.rs\<close>): one collection per domain, points with
  the chunk as payload, documents beside it in a map. The service, the decoding of its answers, SHA-256, the
  JSON form of a float and the iteration order of a hash map are parameters. Shown: payloads round trip, the
  identifiers of points are UUIDs, and over a service that keeps what it is given a search returns chunks that were
  upserted, of the wanted domains.
\<close>

section \<open>The client\<close>

datatype qdrant_request = Q_Get string | Q_Put string json | Q_Post string json

record ('f, 'b, 'w) qdrant_env =
  qe_send :: "qdrant_request \<Rightarrow> 'w \<Rightarrow> (string, nat \<times> 'b) result \<times> 'w"
  qe_text :: "'b \<Rightarrow> string"
  qe_hits :: "'b \<Rightarrow> (string, ('f \<times> json) list) result"
  qe_json :: "'b \<Rightarrow> (string, json) result"
  qe_float :: "'f \<Rightarrow> json"
  qe_sha256 :: "string \<Rightarrow> 8 word list"
  qe_order :: "domain list \<Rightarrow> domain list"

record qdrant_store =
  qd_base_url :: string
  qd_embedding_dim :: nat
  qd_documents :: "(string, document) amap"

definition qdrant_new :: "string \<Rightarrow> nat \<Rightarrow> qdrant_store" where
  "qdrant_new base_url embedding_dim =
     \<lparr> qd_base_url = trim_end_matches (CHR ''/'') base_url, qd_embedding_dim = embedding_dim, qd_documents = [] \<rparr>"

definition all_domains :: "domain list" where
  "all_domains = [SapHelp, Abap, Bpmn, Leanix]"

definition collection_url :: "qdrant_store \<Rightarrow> domain \<Rightarrow> string" where
  "collection_url st d = qd_base_url st @ ''/collections/'' @ collection d"

definition upsert_url :: "qdrant_store \<Rightarrow> domain \<Rightarrow> string" where
  "upsert_url st d = collection_url st d @ ''/points?wait=true''"

definition search_url :: "qdrant_store \<Rightarrow> domain \<Rightarrow> string" where
  "search_url st d = collection_url st d @ ''/points/search''"

definition req_err :: "string \<Rightarrow> store_error" where
  "req_err e = BackendError (''qdrant http: '' @ e)"

text \<open>A request whose failure to be sent is an error of the store.\<close>

definition ask :: "('f, 'b, 'w) qdrant_env \<Rightarrow> qdrant_request \<Rightarrow> 'w \<Rightarrow> (store_error, nat \<times> 'b) result \<times> 'w" where
  "ask E rq w = (case qe_send E rq w of (Inl e, w') \<Rightarrow> (Inl (req_err e), w') | (Inr a, w') \<Rightarrow> (Inr a, w'))"

section \<open>Collections\<close>

definition create_body :: "qdrant_store \<Rightarrow> json" where
  "create_body st = JObject [(''vectors'', JObject (amap_of
     [(''size'', JNumber (NInt (int (qd_embedding_dim st)))), (''distance'', JString ''Cosine'')]))]"

definition ensure_collection :: "('f, 'b, 'w) qdrant_env \<Rightarrow> qdrant_store \<Rightarrow> domain \<Rightarrow> 'w \<Rightarrow> (store_error, unit) result \<times> 'w" where
  "ensure_collection E st d w =
     (case ask E (Q_Get (collection_url st d)) w of
        (Inl e, w1) \<Rightarrow> (Inl e, w1)
      | (Inr (status, _), w1) \<Rightarrow>
          if is_success status then (Inr (), w1)
          else (case ask E (Q_Put (collection_url st d) (create_body st)) w1 of
                  (Inl e, w2) \<Rightarrow> (Inl e, w2)
                | (Inr (status, body), w2) \<Rightarrow>
                    if is_success status then (Inr (), w2)
                    else (Inl (BackendError (''create '' @ collection d @ '': '' @ qe_text E body)), w2)))"

fun ensure_each :: "('f, 'b, 'w) qdrant_env \<Rightarrow> qdrant_store \<Rightarrow> domain list \<Rightarrow> 'w \<Rightarrow> (store_error, unit) result \<times> 'w" where
  "ensure_each E st [] w = (Inr (), w)"
| "ensure_each E st (d # ds) w =
     (case ensure_collection E st d w of (Inl e, w') \<Rightarrow> (Inl e, w') | (Inr _, w') \<Rightarrow> ensure_each E st ds w')"

definition ensure_collections :: "('f, 'b, 'w) qdrant_env \<Rightarrow> qdrant_store \<Rightarrow> 'w \<Rightarrow> (store_error, unit) result \<times> 'w" where
  "ensure_collections E st w = ensure_each E st all_domains w"

section \<open>Points\<close>

definition hex_lower :: "nat \<Rightarrow> char" where
  "hex_lower n = ''0123456789abcdef'' ! n"

definition hex_byte :: "8 word \<Rightarrow> string" where
  "hex_byte b = [hex_lower (unat b div 16), hex_lower (unat b mod 16)]"

text \<open>The first 16 bytes of a hash, with the version and variant of a UUID; groups of 4, 2, 2, 2 and 6 bytes.\<close>

definition uuid_bytes :: "8 word list \<Rightarrow> 8 word list" where
  "uuid_bytes hash =
     (let b = take 16 hash
      in b[6 := (b ! 6 AND 0x0f) OR 0x50, 8 := (b ! 8 AND 0x3f) OR 0x80])"

definition uuid_for :: "('f, 'b, 'w) qdrant_env \<Rightarrow> string \<Rightarrow> string" where
  "uuid_for E chunk_id =
     (let b = uuid_bytes (qe_sha256 E chunk_id); hex = (\<lambda>bs. concat (map hex_byte bs))
      in hex (take 4 b) @ ''-'' @ hex (take 2 (drop 4 b)) @ ''-'' @ hex (take 2 (drop 6 b)) @ ''-'' @
         hex (take 2 (drop 8 b)) @ ''-'' @ hex (drop 10 b))"

definition chunk_payload :: "'f chunk \<Rightarrow> json" where
  "chunk_payload c = JObject (amap_of
     [(''chunk_id'', JString (ch_id c)), (''document_id'', JString (ch_document_id c)),
      (''ordinal'', JNumber (NInt (int (ch_ordinal c)))), (''text'', JString (ch_text c)), (''title'', JString (ch_title c)),
      (''uri'', JString (ch_uri c)), (''breadcrumbs'', JArray (map JString (ch_breadcrumbs c)))])"

definition get_str :: "string \<Rightarrow> json \<Rightarrow> string option" where
  "get_str k v = Option.bind (json_get k v) as_str"

definition chunk_from_payload :: "domain \<Rightarrow> json \<Rightarrow> 'f chunk option" where
  "chunk_from_payload d payload =
     (case (get_str ''chunk_id'' payload, get_str ''document_id'' payload, get_str ''text'' payload) of
        (Some chunk_id, Some document_id, Some body) \<Rightarrow> Some
          \<lparr> ch_id = chunk_id, ch_document_id = document_id, ch_domain = d,
            ch_ordinal = (case Option.bind (json_get ''ordinal'' payload) as_u64 of Some n \<Rightarrow> n | None \<Rightarrow> 0) mod 2 ^ 32,
            ch_text = body, ch_embedding = None,
            ch_breadcrumbs = (case Option.bind (json_get ''breadcrumbs'' payload) as_array of
                Some xs \<Rightarrow> List.map_filter as_str xs | None \<Rightarrow> []),
            ch_title = (case get_str ''title'' payload of Some s \<Rightarrow> s | None \<Rightarrow> []),
            ch_uri = (case get_str ''uri'' payload of Some s \<Rightarrow> s | None \<Rightarrow> []) \<rparr>
      | _ \<Rightarrow> None)"

definition point_of :: "('f, 'b, 'w) qdrant_env \<Rightarrow> qdrant_store \<Rightarrow> 'f chunk \<Rightarrow> (store_error, json) result" where
  "point_of E st c =
     (case ch_embedding c of
        None \<Rightarrow> Inl (BackendError (''chunk '' @ ch_id c @ '' missing embedding''))
      | Some embedding \<Rightarrow>
          if length embedding \<noteq> qd_embedding_dim st
          then Inl (BackendError (''chunk '' @ ch_id c @ '' embedding dim '' @ show_nat (length embedding) @
                 '' != configured '' @ show_nat (qd_embedding_dim st)))
          else Inr (JObject (amap_of [(''id'', JString (uuid_for E (ch_id c))),
                 (''vector'', JArray (map (qe_float E) embedding)), (''payload'', chunk_payload c)])))"

fun points_of :: "('f, 'b, 'w) qdrant_env \<Rightarrow> qdrant_store \<Rightarrow> 'f chunk list \<Rightarrow> (store_error, json list) result" where
  "points_of E st [] = Inr []"
| "points_of E st (c # cs) =
     (case point_of E st c of
        Inl e \<Rightarrow> Inl e
      | Inr p \<Rightarrow> (case points_of E st cs of Inl e \<Rightarrow> Inl e | Inr ps \<Rightarrow> Inr (p # ps)))"

section \<open>Upserting\<close>

definition group_chunks :: "('f, 'b, 'w) qdrant_env \<Rightarrow> 'f chunk list \<Rightarrow> (domain \<times> 'f chunk list) list" where
  "group_chunks E cs =
     map (\<lambda>d. (d, filter (\<lambda>c. ch_domain c = d) cs)) (qe_order E (remdups (map ch_domain cs)))"

fun put_groups :: "('f, 'b, 'w) qdrant_env \<Rightarrow> qdrant_store \<Rightarrow> (domain \<times> 'f chunk list) list \<Rightarrow> 'w \<Rightarrow>
    (store_error, unit) result \<times> 'w" where
  "put_groups E st [] w = (Inr (), w)"
| "put_groups E st ((d, cs) # gs) w =
     (case points_of E st cs of
        Inl e \<Rightarrow> (Inl e, w)
      | Inr points \<Rightarrow>
          (case ask E (Q_Put (upsert_url st d) (JObject [(''points'', JArray points)])) w of
             (Inl e, w') \<Rightarrow> (Inl e, w')
           | (Inr (status, body), w') \<Rightarrow>
               if is_success status then put_groups E st gs w'
               else (Inl (BackendError (''upsert '' @ collection d @ '': '' @ qe_text E body)), w')))"

definition stash_documents :: "'f upsert_batch \<Rightarrow> qdrant_store \<Rightarrow> qdrant_store" where
  "stash_documents b st = st\<lparr> qd_documents := fold (\<lambda>d m. amap_insert (doc_id d) d m) (ub_documents b) (qd_documents st) \<rparr>"

definition qdrant_upsert :: "('f, 'b, 'w) qdrant_env \<Rightarrow> 'f upsert_batch \<Rightarrow> qdrant_store \<times> 'w \<Rightarrow>
    (store_error, unit) result \<times> qdrant_store \<times> 'w" where
  "qdrant_upsert E b = (\<lambda>(st, w).
     let st' = stash_documents b st
     in case put_groups E st' (group_chunks E (ub_chunks b)) w of (r, w') \<Rightarrow> (r, st', w'))"

definition qdrant_get_document :: "string \<Rightarrow> qdrant_store \<Rightarrow> document option" where
  "qdrant_get_document i st = map_of (qd_documents st) i"

section \<open>Searching and counting\<close>

fun read_hits :: "domain \<Rightarrow> ('f \<times> json) list \<Rightarrow> (store_error, 'f search_hit list) result" where
  "read_hits d [] = Inr []"
| "read_hits d ((score, payload) # hs) =
     (case chunk_from_payload d payload of
        None \<Rightarrow> Inl (BackendError ''malformed qdrant payload'')
      | Some c \<Rightarrow> (case read_hits d hs of Inl e \<Rightarrow> Inl e | Inr rest \<Rightarrow> Inr (\<lparr> sh_chunk = c, sh_score = score \<rparr> # rest)))"

definition search_body :: "('f, 'b, 'w) qdrant_env \<Rightarrow> 'f list \<Rightarrow> nat \<Rightarrow> json" where
  "search_body E embedding top_k = JObject (amap_of [(''vector'', JArray (map (qe_float E) embedding)),
     (''limit'', JNumber (NInt (int top_k))), (''with_payload'', JBool True)])"

text \<open>A collection whose search fails is passed over; an answer that cannot be read ends the search.\<close>

fun search_targets :: "('f, 'b, 'w) qdrant_env \<Rightarrow> qdrant_store \<Rightarrow> json \<Rightarrow> domain list \<Rightarrow> 'w \<Rightarrow>
    (store_error, 'f search_hit list) result \<times> 'w" where
  "search_targets E st body [] w = (Inr [], w)"
| "search_targets E st body (d # ds) w =
     (case ask E (Q_Post (search_url st d) body) w of
        (Inl e, w') \<Rightarrow> (Inl e, w')
      | (Inr (status, answer), w') \<Rightarrow>
          if \<not> is_success status then search_targets E st body ds w'
          else (case qe_hits E answer of
                  Inl e \<Rightarrow> (Inl (req_err e), w')
                | Inr hs \<Rightarrow>
                    (case read_hits d hs of
                       Inl e \<Rightarrow> (Inl e, w')
                     | Inr found \<Rightarrow>
                         (case search_targets E st body ds w' of
                            (Inl e, w'') \<Rightarrow> (Inl e, w'')
                          | (Inr rest, w'') \<Rightarrow> (Inr (found @ rest), w'')))))"

definition query_targets :: "'f search_query \<Rightarrow> domain list" where
  "query_targets q = (if sq_domains q = [] then all_domains else sq_domains q)"

definition qdrant_search :: "'f f32_ops \<Rightarrow> ('f, 'b, 'w) qdrant_env \<Rightarrow> 'f search_query \<Rightarrow> qdrant_store \<times> 'w \<Rightarrow>
    (store_error, 'f search_hit list) result \<times> 'w" where
  "qdrant_search F E q = (\<lambda>(st, w).
     case sq_embedding q of
       None \<Rightarrow> (Inl (BackendError ''qdrant search requires an embedding''), w)
     | Some embedding \<Rightarrow>
         (case search_targets E st (search_body E embedding (sq_top_k q)) (query_targets q) w of
            (Inl e, w') \<Rightarrow> (Inl e, w')
          | (Inr hits, w') \<Rightarrow> (Inr (take (sq_top_k q) (rank_desc F sh_score hits)), w')))"

text \<open>The count of a collection that answers; counts add up below \<open>2 ^ 64\<close>.\<close>

definition points_count :: "json \<Rightarrow> nat" where
  "points_count v = (case Option.bind (Option.bind (json_get ''result'' v) (json_get ''points_count'')) as_u64 of Some n \<Rightarrow> n | None \<Rightarrow> 0)"

fun count_collections :: "('f, 'b, 'w) qdrant_env \<Rightarrow> qdrant_store \<Rightarrow> domain list \<Rightarrow> nat \<Rightarrow> 'w \<Rightarrow> (store_error, nat) result \<times> 'w" where
  "count_collections E st [] n w = (Inr n, w)"
| "count_collections E st (d # ds) n w =
     (case ask E (Q_Get (collection_url st d)) w of
        (Inl e, w') \<Rightarrow> (Inl e, w')
      | (Inr (status, answer), w') \<Rightarrow>
          if \<not> is_success status then count_collections E st ds n w'
          else (case qe_json E answer of
                  Inl e \<Rightarrow> (Inl (req_err e), w')
                | Inr v \<Rightarrow> count_collections E st ds (n + points_count v) w'))"

definition qdrant_chunk_count :: "('f, 'b, 'w) qdrant_env \<Rightarrow> qdrant_store \<times> 'w \<Rightarrow> (store_error, nat) result \<times> 'w" where
  "qdrant_chunk_count E = (\<lambda>(st, w). count_collections E st all_domains 0 w)"


section \<open>Payloads and identifiers\<close>

lemma json_get_insert: "json_get k (JObject (amap_insert k' v m)) = (if k = k' then Some v else map_of m k)" if "amap_wf m"
  using that by simp

lemma map_filter_strings: "List.map_filter as_str (map JString xs) = xs"
  by (induction xs) (simp_all add: List.map_filter_simps)

lemma payload_fields:
  "json_get ''chunk_id'' (chunk_payload c) = Some (JString (ch_id c))"
  "json_get ''document_id'' (chunk_payload c) = Some (JString (ch_document_id c))"
  "json_get ''ordinal'' (chunk_payload c) = Some (JNumber (NInt (int (ch_ordinal c))))"
  "json_get ''text'' (chunk_payload c) = Some (JString (ch_text c))"
  "json_get ''title'' (chunk_payload c) = Some (JString (ch_title c))"
  "json_get ''uri'' (chunk_payload c) = Some (JString (ch_uri c))"
  "json_get ''breadcrumbs'' (chunk_payload c) = Some (JArray (map JString (ch_breadcrumbs c)))"
  by (simp_all add: chunk_payload_def amap_of_def)

lemma payload_roundtrip:
  assumes "ch_ordinal c < 2 ^ 32"
  shows "chunk_from_payload (ch_domain c) (chunk_payload c) = Some (c\<lparr> ch_embedding := None \<rparr>)"
proof -
  have "int (ch_ordinal c) < 2 ^ 64" using assms by simp
  then show ?thesis
    using assms by (simp add: chunk_from_payload_def get_str_def payload_fields map_filter_strings del: amap_insert.simps)
qed

lemma hex_byte_length [simp]: "length (hex_byte b) = 2"
  by (simp add: hex_byte_def)

lemma hex_length: "length (concat (map hex_byte bs)) = 2 * length bs"
  by (induction bs) simp_all

text \<open>A version 5 identifier of 36 characters whose variant digit is 8, 9, a or b.\<close>

lemma version_byte: "unat (((b :: 8 word) AND 0x0f) OR 0x50) div 16 = 5"
proof -
  have "drop_bit 4 (((b :: 8 word) AND 0x0f) OR 0x50) = 5" by simp
  then have "unat (drop_bit 4 ((b AND 0x0f) OR 0x50)) = 5" by simp
  then show ?thesis by (simp add: drop_bit_eq_div unat_div)
qed

lemma variant_byte: "hex_lower (unat (((b :: 8 word) AND 0x3f) OR 0x80) div 16) \<in> set ''89ab''"
proof -
  have masks: "(0x3f :: 8 word) = mask 6" "(0x80 :: 8 word) = 2 ^ 7" by (simp_all add: mask_eq_exp_minus_1)
  have "(b AND 0x3f) OR 0x80 = take_bit 6 b + 2 ^ 7"
    unfolding masks take_bit_eq_mask [symmetric]
  proof (rule disjunctive_add [symmetric])
    show "\<not> bit (take_bit 6 b) n \<or> \<not> bit ((2 :: 8 word) ^ 7) n" for n
      by (simp only: bit_exp_iff bit_take_bit_iff) auto
  qed
  moreover have less: "unat (take_bit 6 b) < 2 ^ 6" using take_bit_nat_less_exp [of 6 "unat b"] by (simp add: unsigned_take_bit_eq)
  then have "unat (take_bit 6 b + 2 ^ 7) = unat (take_bit 6 b) + 128"
    by (subst unat_add_lem [THEN iffD1]) auto
  ultimately have u: "unat ((b AND 0x3f) OR 0x80) div 16 = 8 + unat (take_bit 6 b) div 16" by simp
  have "unat (take_bit 6 b) div 16 < 4" using less by (simp add: less_mult_imp_div_less)
  then have "unat (take_bit 6 b) div 16 \<in> {0, 1, 2, 3}" by auto
  then show ?thesis unfolding u by (auto simp: hex_lower_def)
qed

lemma uuid_shape:
  assumes "length (qe_sha256 E i) = 32"
  shows "length (uuid_for E i) = 36" "uuid_for E i ! 14 = CHR ''5''" "uuid_for E i ! 19 \<in> set ''89ab''"
proof -
  have "length (take 16 (qe_sha256 E i)) = Suc (Suc (Suc (Suc (Suc (Suc (Suc (Suc (Suc (Suc (Suc (Suc (Suc (Suc (Suc (Suc 0)))))))))))))))"
    using assms by simp
  then obtain b0 b1 b2 b3 b4 b5 b6 b7 b8 b9 b10 b11 b12 b13 b14 b15 where
    b: "take 16 (qe_sha256 E i) = [b0, b1, b2, b3, b4, b5, b6, b7, b8, b9, b10, b11, b12, b13, b14, b15]"
    unfolding length_Suc_conv by auto
  show "length (uuid_for E i) = 36" "uuid_for E i ! 14 = CHR ''5''" "uuid_for E i ! 19 \<in> set ''89ab''"
    using variant_byte [of b8] version_byte [of b6] by (simp_all add: uuid_for_def uuid_bytes_def b hex_byte_def hex_lower_def [of 5])
qed


section \<open>A service that keeps its points\<close>

definition point_entry :: "json \<Rightarrow> (string \<times> json) option" where
  "point_entry p = (case (get_str ''id'' p, json_get ''payload'' p) of (Some i, Some v) \<Rightarrow> Some (i, v) | _ \<Rightarrow> None)"

definition points_in :: "json \<Rightarrow> (string \<times> json) list" where
  "points_in body = (case Option.bind (json_get ''points'' body) as_array of Some ps \<Rightarrow> List.map_filter point_entry ps | None \<Rightarrow> [])"

type_synonym points = "string \<Rightarrow> string \<Rightarrow> json option"

text \<open>
  What is relied on: an upsert stores the points of its body under their identifiers, or nothing when it is not
  carried out; a search changes nothing and finds payloads of different points of the collection.
\<close>

definition qdrant_law :: "('f, 'b, 'w) qdrant_env \<Rightarrow> qdrant_store \<Rightarrow> ('w \<Rightarrow> points) \<Rightarrow> bool" where
  "qdrant_law E st points \<longleftrightarrow>
     (\<forall>d body w. let (_, w') = qe_send E (Q_Put (upsert_url st d) body) w in
        points w' \<in> {points w, (points w)(collection d := points w (collection d) ++ map_of (rev (points_in body)))}) \<and>
     (\<forall>d body w. let (r, w') = qe_send E (Q_Post (search_url st d) body) w in
        points w' = points w \<and>
        (\<forall>status answer hits. r = Inr (status, answer) \<longrightarrow> is_success status \<longrightarrow> qe_hits E answer = Inr hits \<longrightarrow>
           (\<exists>ids. distinct ids \<and> list_all2 (\<lambda>i h. points w (collection d) i = Some (snd h)) ids hits)))"

definition keeps :: "('f, 'b, 'w) qdrant_env \<Rightarrow> 'f chunk set \<Rightarrow> points \<Rightarrow> bool" where
  "keeps E cs ps \<longleftrightarrow> (\<forall>d i p. ps (collection d) i = Some p \<longrightarrow>
     (\<exists>c \<in> cs. p = chunk_payload c \<and> ch_domain c = d \<and> i = uuid_for E (ch_id c)))"

lemma urls_stashed [simp]: "upsert_url (stash_documents b st) = upsert_url st" "search_url (stash_documents b st) = search_url st"
  "qdrant_law E (stash_documents b st) = qdrant_law E st"
  by (simp_all add: fun_eq_iff upsert_url_def search_url_def collection_url_def stash_documents_def qdrant_law_def)

lemma point_of_entry:
  assumes "point_of E st c = Inr p"
  shows "point_entry p = Some (uuid_for E (ch_id c), chunk_payload c)"
proof -
  obtain e where "p = JObject (amap_of [(''id'', JString (uuid_for E (ch_id c))), (''vector'', e), (''payload'', chunk_payload c)])"
    using assms by (auto simp: point_of_def split: option.splits if_splits)
  then show ?thesis by (simp add: point_entry_def get_str_def amap_of_def)
qed

lemma points_of_entries:
  "points_of E st cs = Inr ps \<Longrightarrow> List.map_filter point_entry ps = map (\<lambda>c. (uuid_for E (ch_id c), chunk_payload c)) cs"
proof (induction cs arbitrary: ps)
  case (Cons c cs)
  then obtain p ps' where "point_of E st c = Inr p" "points_of E st cs = Inr ps'" "ps = p # ps'"
    by (auto split: sum.splits)
  with Cons.IH show ?case by (simp add: List.map_filter_simps point_of_entry)
qed (simp add: List.map_filter_simps)

lemma keeps_put:
  assumes "keeps E cs ps" "points_of E st members = Inr points" "set members \<subseteq> {c \<in> cs. ch_domain c = d}"
  shows "keeps E cs (ps(collection d := ps (collection d) ++ map_of (rev (points_in (JObject [(''points'', JArray points)])))))"
proof -
  have body: "points_in (JObject [(''points'', JArray points)]) = map (\<lambda>c. (uuid_for E (ch_id c), chunk_payload c)) members"
    using points_of_entries [OF assms(2)] by (simp add: points_in_def)
  have "\<exists>c \<in> cs. p = chunk_payload c \<and> ch_domain c = d \<and> i = uuid_for E (ch_id c)"
    if "map_of (rev (map (\<lambda>c. (uuid_for E (ch_id c), chunk_payload c)) members)) i = Some p" for i p
    using map_of_SomeD [OF that] assms(3) by auto
  with assms(1) show ?thesis
    unfolding body keeps_def by (auto simp: map_add_Some_iff dest: collection_inj split: if_splits)
qed

lemma law_put:
  assumes "qdrant_law E st points" "qe_send E (Q_Put (upsert_url st d) body) w = (r, w')"
  shows "points w' \<in> {points w, (points w)(collection d := points w (collection d) ++ map_of (rev (points_in body)))}"
proof -
  from assms(1) have "let (_, w') = qe_send E (Q_Put (upsert_url st d) body) w in
        points w' \<in> {points w, (points w)(collection d := points w (collection d) ++ map_of (rev (points_in body)))}"
    unfolding qdrant_law_def by blast
  with assms(2) show ?thesis by simp
qed

lemma law_search:
  assumes "qdrant_law E st points" "qe_send E (Q_Post (search_url st d) body) w = (r, w')"
  shows "points w' = points w"
    and "r = Inr (status, answer) \<Longrightarrow> is_success status \<Longrightarrow> qe_hits E answer = Inr hits \<Longrightarrow>
      \<exists>ids. distinct ids \<and> list_all2 (\<lambda>i h. points w (collection d) i = Some (snd h)) ids hits"
proof -
  from assms(1) have "let (r, w') = qe_send E (Q_Post (search_url st d) body) w in
        points w' = points w \<and>
        (\<forall>status answer hits. r = Inr (status, answer) \<longrightarrow> is_success status \<longrightarrow> qe_hits E answer = Inr hits \<longrightarrow>
           (\<exists>ids. distinct ids \<and> list_all2 (\<lambda>i h. points w (collection d) i = Some (snd h)) ids hits))"
    unfolding qdrant_law_def by blast
  with assms(2) show "points w' = points w"
    "r = Inr (status, answer) \<Longrightarrow> is_success status \<Longrightarrow> qe_hits E answer = Inr hits \<Longrightarrow>
      \<exists>ids. distinct ids \<and> list_all2 (\<lambda>i h. points w (collection d) i = Some (snd h)) ids hits"
    by auto
qed

lemma keeps_put_groups:
  assumes "qdrant_law E st points" "list_all (\<lambda>(d, members). set members \<subseteq> {c \<in> cs. ch_domain c = d}) gs" "keeps E cs (points w)"
  shows "keeps E cs (points (snd (put_groups E st gs w)))"
  using assms(2,3)
proof (induction gs arbitrary: w)
  case (Cons g gs)
  obtain d members where g: "g = (d, members)" by (cases g)
  show ?case
  proof (cases "points_of E st members")
    case (Inl e)
    with Cons.prems g show ?thesis by simp
  next
    case (Inr ps)
    let ?body = "JObject [(''points'', JArray ps)]"
    obtain r w' where send: "qe_send E (Q_Put (upsert_url st d) ?body) w = (r, w')"
      by (cases "qe_send E (Q_Put (upsert_url st d) ?body) w")
    from law_put [OF assms(1) send]
    have "keeps E cs (points w')"
      using keeps_put [OF _ Inr, where cs = cs and d = d] Cons.prems g by auto
    moreover have "keeps E cs (points (snd (put_groups E st gs w')))"
      using Cons.IH Cons.prems(1) calculation by simp
    ultimately show ?thesis
      using g Inr send by (auto simp: ask_def split: sum.splits)
  qed
qed simp

lemma keeps_mono: "keeps E cs ps \<Longrightarrow> cs \<subseteq> cs' \<Longrightarrow> keeps E cs' ps"
  unfolding keeps_def by blast

lemma keeps_upsert:
  assumes "qdrant_law E st points" "keeps E cs (points w)" "qdrant_upsert E b (st, w) = (r, st', w')"
  shows "keeps E (cs \<union> set (ub_chunks b)) (points w')" "st' = stash_documents b st"
proof -
  have "keeps E (cs \<union> set (ub_chunks b)) (points (snd (put_groups E (stash_documents b st) (group_chunks E (ub_chunks b)) w)))"
  proof (rule keeps_put_groups)
    show "qdrant_law E (stash_documents b st) points" using assms(1) by simp
    show "list_all (\<lambda>(d, members). set members \<subseteq> {c \<in> cs \<union> set (ub_chunks b). ch_domain c = d}) (group_chunks E (ub_chunks b))"
      by (auto simp: group_chunks_def list_all_iff)
    show "keeps E (cs \<union> set (ub_chunks b)) (points w)" using assms(2) by (rule keeps_mono) blast
  qed
  with assms(3) show "keeps E (cs \<union> set (ub_chunks b)) (points w')" "st' = stash_documents b st"
    by (auto simp: qdrant_upsert_def Let_def split: prod.splits)
qed


section \<open>What a search finds\<close>

definition without_embedding :: "'f chunk \<Rightarrow> 'f chunk" where
  "without_embedding c = c\<lparr> ch_embedding := None \<rparr>"

text \<open>Ordinals are \<open>u32\<close>.\<close>

definition ordinals_ok :: "'f chunk set \<Rightarrow> bool" where
  "ordinals_ok cs \<longleftrightarrow> (\<forall>c \<in> cs. ch_ordinal c < 2 ^ 32)"

definition found_at :: "'f search_hit \<Rightarrow> domain \<times> string" where
  "found_at h = (ch_domain (sh_chunk h), ch_id (sh_chunk h))"

lemma read_hits_sound:
  assumes "keeps E cs ps" "ordinals_ok cs"
  shows "read_hits d hs = Inr found \<Longrightarrow> list_all2 (\<lambda>i h. ps (collection d) i = Some (snd h)) ids hs \<Longrightarrow>
    map (\<lambda>h. uuid_for E (ch_id (sh_chunk h))) found = ids \<and>
    (\<forall>h \<in> set found. sh_chunk h \<in> without_embedding ` cs \<and> ch_domain (sh_chunk h) = d)"
proof (induction hs arbitrary: found ids)
  case (Cons h hs)
  obtain score p where h: "h = (score, p)" by (cases h)
  with Cons.prems(1) obtain c rest where c: "chunk_from_payload d p = Some c" and rest: "read_hits d hs = Inr rest"
    and found: "found = \<lparr> sh_chunk = c, sh_score = score \<rparr> # rest"
    by (auto split: option.splits sum.splits)
  from Cons.prems(2) h obtain i js where ids: "ids = i # js" "ps (collection d) i = Some p"
    "list_all2 (\<lambda>i h. ps (collection d) i = Some (snd h)) js hs"
    by (auto simp: list_all2_Cons2)
  from assms(1) ids(2) obtain k where k: "k \<in> cs" "p = chunk_payload k" "ch_domain k = d" "i = uuid_for E (ch_id k)"
    unfolding keeps_def by blast
  have "c = without_embedding k"
    using c payload_roundtrip [of k] k assms(2) by (auto simp: ordinals_ok_def without_embedding_def)
  with Cons.IH [OF rest ids(3)] found ids(1) k show ?case by (auto simp: without_embedding_def)
qed simp

lemma search_targets_sound:
  assumes "qdrant_law E st points" "ordinals_ok cs"
  shows "search_targets E st body ds w = (Inr hits, w') \<Longrightarrow> keeps E cs (points w) \<Longrightarrow> distinct ds \<Longrightarrow>
    distinct (map found_at hits) \<and> (\<forall>h \<in> set hits. sh_chunk h \<in> without_embedding ` cs \<and> ch_domain (sh_chunk h) \<in> set ds)"
proof (induction ds arbitrary: w hits)
  case (Cons d ds)
  obtain r w1 where send: "qe_send E (Q_Post (search_url st d) body) w = (r, w1)"
    by (cases "qe_send E (Q_Post (search_url st d) body) w")
  note same = law_search(1) [OF assms(1) send]
  from Cons.prems(1) send obtain status answer where r: "r = Inr (status, answer)"
    by (auto simp: ask_def split: sum.splits)
  show ?case
  proof (cases "is_success status")
    case False
    then have "search_targets E st body ds w1 = (Inr hits, w')"
      using Cons.prems(1) send r by (simp add: ask_def)
    with Cons.IH [OF this] Cons.prems same show ?thesis by auto
  next
    case True
    with Cons.prems(1) send r obtain hs found rest where hs: "qe_hits E answer = Inr hs"
      and found: "read_hits d hs = Inr found" and rest: "search_targets E st body ds w1 = (Inr rest, w')"
      and hits: "hits = found @ rest"
      by (auto simp: ask_def split: sum.splits prod.splits)
    obtain ids where ids: "distinct ids" "list_all2 (\<lambda>i h. points w (collection d) i = Some (snd h)) ids hs"
      using law_search(2) [OF assms(1) send r True hs] by blast
    note here = read_hits_sound [OF Cons.prems(2) assms(2) found ids(2)]
    have "distinct (map (\<lambda>h. uuid_for E (ch_id (sh_chunk h))) found)" using here ids(1) by simp
    then have "distinct (map found_at found)"
      by (auto simp: distinct_map found_at_def inj_on_def)
    moreover have "distinct (map found_at rest) \<and> (\<forall>h \<in> set rest. sh_chunk h \<in> without_embedding ` cs \<and> ch_domain (sh_chunk h) \<in> set ds)"
      using Cons.IH [OF rest] Cons.prems(2,3) same by simp
    moreover have "d \<notin> set ds" using Cons.prems(3) by simp
    ultimately have "distinct (map found_at (found @ rest))"
      using here by (auto simp: found_at_def)
    then show ?thesis
      using here \<open>distinct (map found_at rest) \<and> _\<close> by (auto simp: hits)
  qed
qed simp

primrec qdrant_upserts :: "('f, 'b, 'w) qdrant_env \<Rightarrow> 'f upsert_batch list \<Rightarrow> qdrant_store \<times> 'w \<Rightarrow> qdrant_store \<times> 'w" where
  "qdrant_upserts E [] s = s"
| "qdrant_upserts E (b # bs) s = qdrant_upserts E bs (snd (qdrant_upsert E b s))"

definition upserted :: "'f upsert_batch list \<Rightarrow> 'f chunk set" where
  "upserted bs = (\<Union>b \<in> set bs. set (ub_chunks b))"

lemma keeps_upserts:
  "qdrant_law E st points \<Longrightarrow> keeps E cs (points w) \<Longrightarrow> qdrant_upserts E bs (st, w) = (st', w') \<Longrightarrow>
   keeps E (cs \<union> upserted bs) (points w') \<and> qdrant_law E st' points"
proof (induction bs arbitrary: st w cs)
  case (Cons b bs)
  obtain r st1 w1 where b: "qdrant_upsert E b (st, w) = (r, st1, w1)" by (cases "qdrant_upsert E b (st, w)") auto
  note kept = keeps_upsert [OF Cons.prems(1,2) b]
  have "qdrant_law E st1 points" using Cons.prems(1) kept(2) by simp
  from Cons.IH [OF this kept(1)] Cons.prems(3) b show ?case by (simp add: upserted_def Un_assoc)
qed (simp add: upserted_def)

text \<open>
  Over a service that keeps its points, whatever batches were upserted, also failed ones, a search gives at most
  \<open>top_k\<close> hits, each a chunk of some batch without its embedding and of a wanted domain, and none twice in a domain.
\<close>

lemma qdrant_search_sound:
  assumes "qdrant_law E st points" "points w = (\<lambda>_ _. None)" "ordinals_ok (upserted bs)" "distinct (sq_domains q)"
  shows "case fst (qdrant_search F E q (qdrant_upserts E bs (st, w))) of
      Inl _ \<Rightarrow> True
    | Inr hits \<Rightarrow> length hits \<le> sq_top_k q \<and> distinct (map found_at hits) \<and>
        list_all (\<lambda>h. sh_chunk h \<in> without_embedding ` upserted bs \<and> want_domain q (ch_domain (sh_chunk h))) hits"
proof -
  obtain st' w' where run: "qdrant_upserts E bs (st, w) = (st', w')" by (cases "qdrant_upserts E bs (st, w)")
  have start: "keeps E {} (points w)" using assms(2) by (simp add: keeps_def)
  from keeps_upserts [OF assms(1) start run]
  have kept: "keeps E (upserted bs) (points w')" "qdrant_law E st' points" by simp_all
  have targets: "distinct (query_targets q)" "d \<in> set (query_targets q) \<Longrightarrow> want_domain q d" for d
    using assms(4) by (auto simp: query_targets_def all_domains_def want_domain_def split: if_splits)
  have "length (take k (rank_desc F sh_score hits)) \<le> k \<and> distinct (map found_at (take k (rank_desc F sh_score hits))) \<and>
      list_all (\<lambda>h. sh_chunk h \<in> without_embedding ` upserted bs \<and> want_domain q (ch_domain (sh_chunk h)))
        (take k (rank_desc F sh_score hits))"
    if "search_targets E st' body (query_targets q) w' = (Inr hits, w'')" for body hits w'' k
    using search_targets_sound [OF kept(2) assms(3) that kept(1) targets(1)] targets(2)
    by (auto simp: list_all_iff dest!: in_set_takeD intro!: distinct_map_take)
  then show ?thesis
    by (auto simp: run qdrant_search_def split: option.split sum.split prod.split)
qed


text \<open>Such a service: it keeps, for every collection, the list of points it was given, newest first.\<close>

definition domain_at :: "(domain \<Rightarrow> string) \<Rightarrow> string \<Rightarrow> domain option" where
  "domain_at url s = find (\<lambda>d. url d = s) all_domains"

definition listed :: "(string \<times> json) list \<Rightarrow> (rat \<times> json) list" where
  "listed ps = map (\<lambda>i. (1, the (map_of ps i))) (remdups (map fst ps))"

definition listing_send :: "qdrant_store \<Rightarrow> qdrant_request \<Rightarrow> (string \<Rightarrow> (string \<times> json) list) \<Rightarrow>
    (string, nat \<times> (rat \<times> json) list) result \<times> (string \<Rightarrow> (string \<times> json) list)" where
  "listing_send st rq w =
     (case rq of
        Q_Put url body \<Rightarrow> (case domain_at (upsert_url st) url of
            Some d \<Rightarrow> (Inr (200, []), w(collection d := rev (points_in body) @ w (collection d)))
          | None \<Rightarrow> (Inr (404, []), w))
      | Q_Post url _ \<Rightarrow> (case domain_at (search_url st) url of
            Some d \<Rightarrow> (Inr (200, listed (w (collection d))), w)
          | None \<Rightarrow> (Inr (404, []), w))
      | Q_Get _ \<Rightarrow> (Inr (200, []), w))"

definition listing :: "qdrant_store \<Rightarrow> (rat, (rat \<times> json) list, string \<Rightarrow> (string \<times> json) list) qdrant_env" where
  "listing st =
     \<lparr> qe_send = listing_send st, qe_text = (\<lambda>_. []), qe_hits = Inr, qe_json = (\<lambda>_. Inr JNull), qe_float = (\<lambda>_. JNull),
       qe_sha256 = (\<lambda>_. replicate 32 0), qe_order = (\<lambda>ds. ds) \<rparr>"

lemma domain_at_url [simp]: "domain_at (upsert_url st) (upsert_url st d) = Some d" "domain_at (search_url st) (search_url st d) = Some d"
  by (cases d; simp add: domain_at_def all_domains_def upsert_url_def search_url_def collection_url_def)+

lemma listed_law: "\<exists>ids. distinct ids \<and> list_all2 (\<lambda>i h. map_of ps i = Some (snd h)) ids (listed ps)"
proof (intro exI conjI)
  show "list_all2 (\<lambda>i h. map_of ps i = Some (snd h)) (remdups (map fst ps)) (listed ps)"
    by (auto simp: listed_def list_all2_map2 list_all2_same weak_map_of_SomeI)
qed simp

lemma listing_law: "qdrant_law (listing st) st (\<lambda>w c. map_of (w c))"
  using listed_law by (auto simp: qdrant_law_def listing_def listing_send_def fun_eq_iff)

end
