(* ===== verification/Embedders.thy ===== *)
theory Embedders
  imports Ingest Qdrant
begin

text \<open>
  The embedding clients (\<open>sap-automate-ingest/src/embed.rs\<close>): the offline one over the token bags of \<open>Ingest\<close> and the
  client of an OpenAI-compatible service, whose answers are a parameter. What the stores rely on, vectors of the
  client's dimension, is a locale that both clients interpret; in it, what the pipeline embeds has that dimension
  and is never refused by a Qdrant store made for it.
\<close>

section \<open>Clients\<close>

datatype embedding_error = Embed_Http string | Embed_Api string | Embed_Malformed string

fun embedding_error_display :: "embedding_error \<Rightarrow> string" where
  "embedding_error_display (Embed_Http e) = ''http: '' @ e"
| "embedding_error_display (Embed_Api e) = ''api: '' @ e"
| "embedding_error_display (Embed_Malformed e) = ''malformed response: '' @ e"

text \<open>\<open>None\<close> is the panic of a token in a bag of no buckets.\<close>

definition mock_embed ::
  "'f f32_ops \<Rightarrow> (string \<Rightarrow> bool) \<Rightarrow> (string \<Rightarrow> string) \<Rightarrow> (string \<Rightarrow> nat) \<Rightarrow> nat \<Rightarrow> string list \<Rightarrow> 'f list list option" where
  "mock_embed F alnum lower hash32 dm texts = those (map (token_bag_vector F alnum lower hash32 dm) texts)"

record openai_embedder =
  oa_base_url :: string
  oa_model :: string
  oa_api_key :: string
  oa_dim :: nat

definition openai_new :: "string \<Rightarrow> string \<Rightarrow> string \<Rightarrow> nat \<Rightarrow> openai_embedder" where
  "openai_new base_url api_key model dm =
     \<lparr> oa_base_url = trim_end_matches (CHR ''/'') base_url, oa_model = model, oa_api_key = api_key, oa_dim = dm \<rparr>"

record embed_request =
  er_url :: string
  er_bearer :: string
  er_input :: "string list"
  er_model :: string

text \<open>The service: the status and body of its answer; the reader gives the vectors with their indices.\<close>

record ('f, 'b) openai_env =
  ev_send :: "embed_request \<Rightarrow> (string, nat \<times> 'b) result"
  ev_body :: "'b \<Rightarrow> string"
  ev_data :: "'b \<Rightarrow> (string, ('f list \<times> nat) list) result"

fun check_dims :: "nat \<Rightarrow> 'f list list \<Rightarrow> (embedding_error, unit) result" where
  "check_dims dm [] = Inr ()"
| "check_dims dm (v # vs) =
     (if length v \<noteq> dm
      then Inl (Embed_Malformed (''expected dim '' @ show_nat dm @ '', got '' @ show_nat (length v)))
      else check_dims dm vs)"

definition openai_embed :: "('f, 'b) openai_env \<Rightarrow> openai_embedder \<Rightarrow> string list \<Rightarrow> (embedding_error, 'f list list) result" where
  "openai_embed V c texts =
     (case ev_send V \<lparr> er_url = oa_base_url c @ ''/embeddings'', er_bearer = oa_api_key c, er_input = texts, er_model = oa_model c \<rparr> of
        Inl e \<Rightarrow> Inl (Embed_Http e)
      | Inr (status, body) \<Rightarrow>
          if \<not> is_success status then Inl (Embed_Api (ev_body V body))
          else (case ev_data V body of
                  Inl e \<Rightarrow> Inl (Embed_Malformed e)
                | Inr data \<Rightarrow>
                    (case check_dims (oa_dim c) (map fst data) of
                       Inl e \<Rightarrow> Inl e
                     | Inr _ \<Rightarrow> Inr (map fst data))))"

text \<open>As the pipeline sees a client: its error is displayed.\<close>

definition openai_client :: "('f, 'b) openai_env \<Rightarrow> openai_embedder \<Rightarrow> 'f embedder" where
  "openai_client V c texts = (case openai_embed V c texts of Inl e \<Rightarrow> Inl (embedding_error_display e) | Inr vs \<Rightarrow> Inr vs)"

text \<open>The offline client, with at least one bucket.\<close>

definition mock_client :: "'f f32_ops \<Rightarrow> (string \<Rightarrow> bool) \<Rightarrow> (string \<Rightarrow> string) \<Rightarrow> (string \<Rightarrow> nat) \<Rightarrow> nat \<Rightarrow> 'f embedder" where
  "mock_client F alnum lower hash32 n texts =
     (case mock_embed F alnum lower hash32 (Suc n) texts of Some vs \<Rightarrow> Inr vs | None \<Rightarrow> Inl [])"

section \<open>The contract of a client\<close>

definition dim_ok :: "nat \<Rightarrow> 'f chunk \<Rightarrow> bool" where
  "dim_ok n c \<longleftrightarrow> (\<exists>v. ch_embedding c = Some v \<and> length v = n)"

lemma points_of_dim_ok: "list_all (dim_ok (qd_embedding_dim st)) cs \<Longrightarrow> \<exists>ps. points_of E st cs = Inr ps \<and> length ps = length cs"
proof (induction cs)
  case (Cons c cs)
  then obtain ps where "points_of E st cs = Inr ps" "length ps = length cs" by auto
  moreover have "\<exists>p. point_of E st c = Inr p" using Cons.prems by (auto simp: point_of_def dim_ok_def)
  ultimately show ?case by auto
qed simp

locale embedding_client =
  fixes width :: nat and embed_texts :: "'f embedder"
  assumes widths: "embed_texts texts = Inr vs \<Longrightarrow> list_all (\<lambda>v. length v = width) vs"
begin

lemma embedded_dims: "embed_batches embed_texts bs = Inr cs \<Longrightarrow> list_all (dim_ok width) cs"
proof (induction bs arbitrary: cs)
  case (Cons b bs)
  then obtain vs rest where vs: "embed_texts (map ch_text b) = Inr vs" and rest: "embed_batches embed_texts bs = Inr rest"
    and cs: "cs = map (\<lambda>(c, v). c\<lparr> ch_embedding := Some v \<rparr>) (zip b vs) @ rest"
    by (auto simp: bind_result_eq_Inr)
  have "list_all (dim_ok width) (map (\<lambda>(c, v). c\<lparr> ch_embedding := Some v \<rparr>) (zip b vs))"
    using widths [OF vs] by (auto simp: list_all_iff dim_ok_def dest: set_zip_rightD)
  with Cons.IH [OF rest] cs show ?case by simp
qed simp

lemma qdrant_takes_embedded:
  assumes "embed_batches embed_texts bs = Inr cs" "qd_embedding_dim st = width"
  shows "\<exists>ps. points_of E st cs = Inr ps \<and> length ps = length cs"
  using points_of_dim_ok embedded_dims [OF assms(1)] assms(2) by blast

end

lemma fold_update_length: "length (fold (\<lambda>t v. v[k t := g t v]) ts v) = length v"
  by (induction ts arbitrary: v) simp_all

lemma token_bag_length: "token_bag_vector F alnum lower hash32 dm s = Some v \<Longrightarrow> length v = dm"
  by (auto simp: token_bag_vector_def Let_def fold_update_length split: if_splits)

lemma mock_embed_total: "\<exists>vs. mock_embed F alnum lower hash32 (Suc n) texts = Some vs \<and> length vs = length texts"
  by (induction texts) (auto simp: mock_embed_def token_bag_vector_def Let_def)

lemma those_all: "those xs = Some ys \<Longrightarrow> (\<And>y. Some y \<in> set xs \<Longrightarrow> P y) \<Longrightarrow> list_all P ys"
proof (induction xs arbitrary: ys)
  case (Cons x xs)
  then show ?case by (cases x) (auto split: option.splits)
qed simp

lemma check_dims_ok: "check_dims dm vs = Inr x \<Longrightarrow> list_all (\<lambda>v. length v = dm) vs"
  by (induction vs) (auto split: if_splits)

interpretation mock_vectors: embedding_client "Suc n" "mock_client F alnum lower hash32 n" for F alnum lower hash32 n
proof
  fix texts vs
  assume "mock_client F alnum lower hash32 n texts = Inr vs"
  then have "those (map (token_bag_vector F alnum lower hash32 (Suc n)) texts) = Some vs"
    by (auto simp: mock_client_def mock_embed_def split: option.splits)
  then show "list_all (\<lambda>v. length v = Suc n) vs"
    by (rule those_all) (auto dest: sym [THEN token_bag_length])
qed

interpretation openai_vectors: embedding_client "oa_dim c" "openai_client V c" for V c
proof
  fix texts vs
  assume "openai_client V c texts = Inr vs"
  then have "check_dims (oa_dim c) vs = Inr ()"
    by (auto simp: openai_client_def openai_embed_def split: sum.splits if_splits)
  then show "list_all (\<lambda>v. length v = oa_dim c) vs" by (rule check_dims_ok)
qed

section \<open>From the service to the store\<close>

text \<open>What a service of the store's dimension embeds is stored without a refusal of the store itself.\<close>

lemma openai_to_qdrant:
  assumes "embed_batches (openai_client V c) bs = Inr cs" "qd_embedding_dim st = oa_dim c"
  shows "\<exists>ps. points_of E st cs = Inr ps \<and> length ps = length cs"
  by (rule openai_vectors.qdrant_takes_embedded [OF assms])

lemma mock_to_qdrant:
  assumes "embed_batches (mock_client F alnum lower hash32 n) bs = Inr cs" "qd_embedding_dim st = Suc n"
  shows "\<exists>ps. points_of E st cs = Inr ps \<and> length ps = length cs"
  by (rule mock_vectors.qdrant_takes_embedded [OF assms])

text \<open>The offline client answers one vector per text, as ingestion needs it.\<close>

lemma mock_embedder_ok: "embedder_ok (mock_client F alnum lower hash32 n)"
  unfolding embedder_ok_def
proof
  fix texts
  obtain vs where "mock_embed F alnum lower hash32 (Suc n) texts = Some vs" "length vs = length texts"
    using mock_embed_total by blast
  then show "\<exists>vs. mock_client F alnum lower hash32 n texts = Inr vs \<and> length vs = length texts"
    by (simp add: mock_client_def)
qed

text \<open>A service that answers fewer vectors than texts loses the chunks that are left over; nothing reports it.\<close>

lemma short_answer_loses_chunks:
  assumes "openai_client V c (map ch_text b) = Inr vs" "length vs < length b"
  shows "\<exists>cs. embed_batches (openai_client V c) [b] = Inr cs \<and> length cs < length b"
  using assms by (simp add: bind_result_def)

lemma forget_index: "fst \<circ> (\<lambda>(v, i). (v, f i)) = fst"
  by (auto simp: fun_eq_iff)

text \<open>The index of a vector is not looked at: vectors belong to texts in the order they are listed.\<close>

lemma index_ignored:
  assumes "ev_data V' = (\<lambda>body. map_sum id (map (\<lambda>(v, i). (v, f i))) (ev_data V body))" "ev_send V' = ev_send V" "ev_body V' = ev_body V"
  shows "openai_embed V' c texts = openai_embed V c texts"
  using assms by (auto simp: openai_embed_def forget_index split: sum.split)

end
