(* ===== verification/Server_Content.thy ===== *)
theory Server_Content
  imports Read_Tools Skills
begin

text \<open>
  What the server publishes beside its tools: its resources (\<open>apps/sap-automate-server/src/resources.rs\<close>), its prompts
  (\<open>prompts.rs\<close>, with the skills loaded from disk), the completions of prompt arguments (\<open>lib.rs\<close>) and the
  instructions and the assembly of the server (\<open>build_instructions\<close> and \<open>build_server\<close> of \<open>main.rs\<close>). A handler of
  a resource works on the state of the \<open>SapClient\<close> it asks. Serialisers are arguments. Shown: the catalogue has no
  clashing names, a resource that is read carries its own URI and type, and completions are options with the prefix.
\<close>

section \<open>Resources\<close>

text \<open>The part of a \<open>SapClient\<close> that resources ask, and the handle of the metadata cache.\<close>

record 's content_source =
  cs_system_info :: "'s \<Rightarrow> system_info rfc_result \<times> 's"
  cs_table_structure :: "string \<Rightarrow> 's \<Rightarrow> table_structure rfc_result \<times> 's"
  cs_rfc_metadata :: "string \<Rightarrow> string \<Rightarrow> 's \<Rightarrow> rfc_function_meta rfc_result \<times> 's"
  cs_cache_stats :: "('s \<Rightarrow> cache_stats) option"
  cs_destination :: adt_destination
  cs_agents_md :: "string option"

definition json_type :: string where "json_type = ''application/json''"

definition markdown_type :: string where "markdown_type = ''text/markdown''"

definition contents_of :: "string \<Rightarrow> string \<Rightarrow> string \<Rightarrow> read_resource_result" where
  "contents_of uri mime body =
     \<lparr> rrr_contents = [\<lparr> rcon_uri = uri, rcon_mime_type = Some mime, rcon_text = Some body, rcon_blob = None \<rparr>] \<rparr>"

definition pretty_contents :: "tool_serde \<Rightarrow> string \<Rightarrow> json \<Rightarrow> read_resource_result mcp_result" where
  "pretty_contents se uri v =
     (case pretty se v of Inl e \<Rightarrow> Inl (Json_Error e) | Inr body \<Rightarrow> Inr (contents_of uri json_type body))"

text \<open>An answer of the client, serialised; its error is displayed.\<close>

definition answered :: "tool_serde \<Rightarrow> string \<Rightarrow> ('a \<Rightarrow> json) \<Rightarrow> 'a rfc_result \<times> 's \<Rightarrow> read_resource_result mcp_result \<times> 's" where
  "answered se uri ser = (\<lambda>(r, s). (case r of
       Inl e \<Rightarrow> Inl (Other_Error (rfc_error_display e))
     | Inr x \<Rightarrow> pretty_contents se uri (ser x), s))"

definition resource_at :: "string \<Rightarrow> string \<Rightarrow> string \<Rightarrow> string \<Rightarrow> (string \<Rightarrow> 's \<Rightarrow> read_resource_result mcp_result \<times> 's) \<Rightarrow> 's resource_descriptor" where
  "resource_at uri name descr mime h =
     \<lparr> rd_resource = \<lparr> res_uri = uri, res_name = name, res_description = Some descr, res_mime_type = Some mime \<rparr>, rd_handler = h \<rparr>"

definition make_system_info :: "tool_serde \<Rightarrow> 'f read_serde \<Rightarrow> 's content_source \<Rightarrow> 's resource_descriptor" where
  "make_system_info se rs S = resource_at ''sap-system://info'' ''SAP system identity''
     ''Live SID, client, release, host, and identity. JSON.'' json_type
     (\<lambda>uri s. answered se uri (ser_system_info rs) (cs_system_info S s))"

definition make_table_structure :: "tool_serde \<Rightarrow> 'f read_serde \<Rightarrow> 's content_source \<Rightarrow> string \<Rightarrow> 's resource_descriptor" where
  "make_table_structure se rs S table = resource_at (''sap-table://'' @ table @ ''/structure'') (''DDIC structure of '' @ table)
     (''Field metadata for SAP table '' @ table @ ''.'') json_type
     (\<lambda>uri s. answered se uri (ser_table_structure rs) (cs_table_structure S table s))"

definition make_rfc_meta :: "tool_serde \<Rightarrow> 'f read_serde \<Rightarrow> 's content_source \<Rightarrow> string \<Rightarrow> 's resource_descriptor" where
  "make_rfc_meta se rs S function_name = resource_at (''sap-rfc://'' @ function_name) (''RFC metadata: '' @ function_name)
     (''Parameter signature and read-only flag for '' @ function_name @ ''.'') json_type
     (\<lambda>uri s. answered se uri (ser_rfc_meta rs) (cs_rfc_metadata S function_name ''EN'' s))"

definition make_adt_destination :: "tool_serde \<Rightarrow> 's content_source \<Rightarrow> 's resource_descriptor" where
  "make_adt_destination se S = resource_at ''adt-destination://info'' ''ADT destination''
     ''Redacted view of the configured ABAP Development Tools destination (name, base URL, client, language, auth type).'' json_type
     (\<lambda>uri s. (pretty_contents se uri (redacted (cs_destination S)), s))"

definition cache_stats_json :: "'f read_serde \<Rightarrow> cache_stats \<Rightarrow> json" where
  "cache_stats_json rs st = JObject (amap_of
     [(''hits'', json_nat (hits st)), (''misses'', json_nat (misses st)), (''entries'', json_nat (entry_count st)),
      (''evictions'', json_nat (evictions st)), (''hit_ratio'', ser_ratio rs st)])"

definition make_cache_stats :: "tool_serde \<Rightarrow> 'f read_serde \<Rightarrow> 's content_source \<Rightarrow> 's resource_descriptor" where
  "make_cache_stats se rs S = resource_at ''sap-cache://stats'' ''RFC metadata cache stats''
     ''Live hit/miss counters for the RFC metadata cache (thupalo/sap-rfc-mcp-server pattern). JSON.'' json_type
     (\<lambda>uri s. (case cs_cache_stats S of
          None \<Rightarrow> Inl (Other_Error ''metadata cache disabled'')
        | Some stats_of \<Rightarrow> pretty_contents se uri (cache_stats_json rs (stats_of s)), s))"

definition make_agents_md :: "'s content_source \<Rightarrow> 's resource_descriptor" where
  "make_agents_md S = resource_at ''agents://guardrails'' ''Agent guardrails''
     ''Project-local AGENTS.md, surfaced from disk on server start.'' markdown_type
     (\<lambda>uri s. (Inr (contents_of uri markdown_type (case cs_agents_md S of Some md \<Rightarrow> md | None \<Rightarrow> [])), s))"

definition resource_tables :: "string list" where
  "resource_tables = [''MARA'', ''T001'', ''VBAK'']"

definition resource_functions :: "string list" where
  "resource_functions = [''RFC_SYSTEM_INFO'', ''BAPI_MATERIAL_GET_DETAIL'', ''BAPI_ACC_DOCUMENT_POST'',
     ''BAPI_SALESORDER_CREATEFROMDAT2'', ''RFC_READ_TABLE'', ''DDIF_FIELDINFO_GET'']"

definition resources_all :: "tool_serde \<Rightarrow> 'f read_serde \<Rightarrow> 's content_source \<Rightarrow> 's resource_descriptor list" where
  "resources_all se rs S =
     [make_system_info se rs S] @ map (make_table_structure se rs S) resource_tables @ map (make_rfc_meta se rs S) resource_functions @
     [make_adt_destination se S] @ (if cs_cache_stats S \<noteq> None then [make_cache_stats se rs S] else []) @
     (if cs_agents_md S \<noteq> None then [make_agents_md S] else [])"

section \<open>Prompts\<close>

definition newline :: string where "newline = [CHR 0x0A]"

definition user_prompt :: "string \<Rightarrow> string \<Rightarrow> get_prompt_result" where
  "user_prompt descr body =
     \<lparr> gpr_description = Some descr, gpr_messages = [\<lparr> pm_role = Role_User, pm_content = Content_Text body \<rparr>] \<rparr>"

text \<open>\<open>args.get(k).and_then(as_str).unwrap_or(d)\<close>, where no arguments are an empty object.\<close>

definition str_arg :: "json option \<Rightarrow> string \<Rightarrow> string \<Rightarrow> string" where
  "str_arg arguments k d =
     (case Option.bind (Option.bind arguments (json_get k)) as_str of Some s \<Rightarrow> s | None \<Rightarrow> d)"

definition where_used_body :: "string \<Rightarrow> string \<Rightarrow> string \<Rightarrow> string" where
  "where_used_body kind lower_kind object =
     ''Before changing or deleting '' @ kind @ '' '' @ object @ '', run abap.adt.where_used and reason carefully about the impact.'' @
     newline @ newline @ ''Steps:'' @ newline @ ''1. Call abap.adt.where_used with name='' @ object @ '', kind='' @ lower_kind @
     '' to enumerate every caller / implementer / include site.'' @ newline @
     ''2. For each hit, group by ownership (package, application) using abap.adt.get_package_contents on the parent.'' @ newline @
     ''3. Identify which of those callers are themselves on a hot path (use abap.docs.search to cross-reference business processes via BPMN).'' @
     newline @
     ''4. Produce a 3-section report: Direct callers, Indirect dependents, Recommended pre-change checks (regression tests, transports to coordinate).'' @
     newline @ newline @ ''Cite every claim by its source URI (sap-rfc://, sap-table://, or sap-help://).''"

definition review_call_body :: "string \<Rightarrow> string \<Rightarrow> string" where
  "review_call_body function_name rendered_parameters =
     ''Review the following proposed SAP RFC call before execution. Confirm it is the right function for the user's intent, that every required parameter is present and well-typed, that the parameter values are realistic for the target system, and that the side-effects are acceptable. Cite the source for each claim.'' @
     newline @ newline @ ''Function: '' @ function_name @ newline @ ''Parameters:'' @ newline @ rendered_parameters @ newline @ newline @
     ''If safe, summarise what the call will do, the affected tables, and the user-visible result. If unsafe, identify the specific risk and propose a safer alternative.''"

definition transport_body :: "string \<Rightarrow> string \<Rightarrow> string" where
  "transport_body transport scope =
     ''Analyse the impact of SAP transport '' @ transport @ '' on the '' @ scope @ '' system.'' @ newline @ newline @ ''Steps:'' @
     newline @ ''1. Use sap.docs.search to find any related Help Portal content for the objects in the transport.'' @ newline @
     ''2. Use sap.rfc.search to find the RFCs that reference any modified ABAP objects.'' @ newline @
     ''3. Use sap.table.read on E070/E071 to enumerate transport contents.'' @ newline @
     ''4. Use eam.impact_map (when LeanIX is wired) to enumerate downstream applications.'' @ newline @
     ''5. Produce a 3-section report: Direct impact, Indirect impact, Recommended pre-import checks.'' @ newline @ newline @
     ''Cite every claim by its source URI.''"

definition prompt_of :: "string \<Rightarrow> string \<Rightarrow> prompt_argument list \<Rightarrow> (json option \<Rightarrow> get_prompt_result) \<Rightarrow> 's prompt_descriptor" where
  "prompt_of name descr arguments f =
     \<lparr> pd_prompt = \<lparr> pr_name = name, pr_description = Some descr, pr_arguments = arguments \<rparr>, pd_handler = (\<lambda>a s. (Inr (f a), s)) \<rparr>"

definition argument :: "string \<Rightarrow> string \<Rightarrow> bool \<Rightarrow> prompt_argument" where
  "argument n descr req = \<lparr> pa_name = n, pa_description = Some descr, pa_required = req \<rparr>"

definition review_where_used :: "(string \<Rightarrow> string) \<Rightarrow> 's prompt_descriptor" where
  "review_where_used lower = prompt_of ''abap.review-where-used''
     ''Walk the agent through a where-used analysis before changing an ABAP object.''
     [argument ''object'' ''Object name'' True, argument ''kind'' ''Object kind (class | interface | program | ...)'' False]
     (\<lambda>a. let object = str_arg a ''object'' ''<OBJECT>''; kind = str_arg a ''kind'' ''Class''
          in user_prompt ''Where-used review before changing or deleting an ABAP object.'' (where_used_body kind (lower kind) object))"

definition review_rfc_call :: "tool_serde \<Rightarrow> 's prompt_descriptor" where
  "review_rfc_call se = prompt_of ''sap.review-rfc-call'' ''Pre-flight review of a proposed sap.rfc.call invocation.''
     [argument ''function'' ''RFC function name'' True, argument ''parameters'' ''Parameters object'' False]
     (\<lambda>a. let function_name = str_arg a ''function'' ''<UNKNOWN>'';
              parameters = (case Option.bind a (json_get ''parameters'') of Some v \<Rightarrow> v | None \<Rightarrow> JObject [])
          in user_prompt ''Pre-execution review of a proposed sap.rfc.call'' (review_call_body function_name (pretty_or_default se parameters)))"

definition transport_impact_analysis :: "'s prompt_descriptor" where
  "transport_impact_analysis = prompt_of ''sap.transport-impact-analysis''
     ''Multi-tool cross-domain impact analysis for an SAP transport.''
     [argument ''transport'' ''Transport ID (e.g. ZTRA01K900123)'' True, argument ''scope'' ''Target system (PRODUCTION / QA / DEV)'' False]
     (\<lambda>a. user_prompt ''Cross-domain impact analysis for an SAP transport''
        (transport_body (str_arg a ''transport'' ''<TRANSPORT>'') (str_arg a ''scope'' ''PRODUCTION'')))"

text \<open>Only the string arguments of a skill are passed on.\<close>

definition string_arguments :: "json option \<Rightarrow> (string \<rightharpoonup> string)" where
  "string_arguments a = (case a of Some (JObject m) \<Rightarrow> (\<lambda>k. Option.bind (map_of m k) as_str) | _ \<Rightarrow> (\<lambda>_. None))"

definition skill_as_prompt :: "skill \<Rightarrow> 's prompt_descriptor" where
  "skill_as_prompt sk = prompt_of (sk_name sk) (sk_description sk)
     (map (\<lambda>a. \<lparr> pa_name = sa_name a, pa_description = sa_description a, pa_required = sa_required a \<rparr>) (sk_arguments sk))
     (\<lambda>a. user_prompt (sk_description sk) (render sk (string_arguments a)))"

definition prompts_all :: "tool_serde \<Rightarrow> (string \<Rightarrow> string) \<Rightarrow> skill list \<Rightarrow> 's prompt_descriptor list" where
  "prompts_all se lower skills =
     [review_rfc_call se, transport_impact_analysis, review_where_used lower] @ map skill_as_prompt skills"

section \<open>Completions\<close>

definition options_with_prefix :: "string list \<Rightarrow> string \<Rightarrow> string list" where
  "options_with_prefix options typed =
     filter (\<lambda>o'. starts_with (ascii_lowercase o') (ascii_lowercase typed)) options"

definition register_completers :: "'s server_builder \<Rightarrow> 's server_builder" where
  "register_completers b =
     builder_completer ''sap.skill.bw_to_datasphere_migration'' ''target_release''
       (\<lambda>typed _. options_with_prefix [''SAP Datasphere 2026-Q1'', ''SAP Datasphere 2026-Q2'', ''SAP Datasphere 2026-Q3'',
          ''BW Bridge'', ''Cloud Embedded Analytics''] typed)
     (builder_completer ''sap.skill.abap_code_review'' ''kind''
       (\<lambda>typed _. options_with_prefix [''class'', ''program'', ''interface'', ''function_module''] typed)
     (builder_completer ''sap.skill.security_sod_audit'' ''scope''
       (\<lambda>typed _. options_with_prefix [''user'', ''role'', ''system''] typed) b))"

section \<open>The server\<close>

definition tool_groups_text :: string where
  "tool_groups_text =
     ''SAP-Automate MCP server (Phase 2 + ADT). Tool groups:'' @ newline @
     ''- RAG search: abap.search, bpmn.find_process, eam.search_apps, sap.help.search, sap.docs.search.'' @ newline @
     ''- RFC + tables: sap.system.info, sap.system.health, sap.system.cache_stats, sap.system.cache_invalidate, sap.rfc.search, sap.rfc.metadata, sap.rfc.bulk_metadata, sap.rfc.call, sap.table.read, sap.table.structure.'' @
     newline @
     ''- ABAP ADT (read-only): abap.adt.get_program, abap.adt.get_class, abap.adt.get_function_module, abap.adt.get_interface, abap.adt.get_include, abap.adt.get_package_contents, abap.adt.get_cds_view, abap.adt.where_used, abap.adt.search, abap.adt.get_table_contents.'' @
     newline @ ''- ABAP ADT (write): abap.adt.activate (hidden in read-only mode).'' @ newline @
     ''Resources: sap-system://info, sap-rfc://{name}, sap-table://{name}/structure, adt-destination://info, sap-cache://stats, agents://guardrails.'' @
     newline @ ''Prompts: sap.review-rfc-call, sap.transport-impact-analysis, abap.review-where-used.'' @ newline"

definition build_instructions :: "string option \<Rightarrow> bool \<Rightarrow> string" where
  "build_instructions agents_md read_only =
     tool_groups_text @
     (if read_only
      then ''Mode: READ-ONLY. Write-side RFCs (e.g. BAPI_SALESORDER_CREATEFROMDAT2, BAPI_ACC_DOCUMENT_POST) are blocked. Pass --enable-writes to allow.'' @
     newline
      else ''Mode: WRITE-ENABLED. Treat every sap.rfc.call invocation as authorised.'' @ newline) @
     (case agents_md of Some md \<Rightarrow> newline @ ''--- AGENTS.md guardrails ---'' @ newline @ md | None \<Rightarrow> [])"

text \<open>The builder with everything registered, in the order of \<open>build_server\<close>; the name and the instructions differ in tests.\<close>

definition full_builder ::
  "tool_serde \<Rightarrow> 'f read_serde \<Rightarrow> (string \<Rightarrow> string) \<Rightarrow> (string \<Rightarrow> string option \<times> tool_input_schema) \<Rightarrow>
    (string \<Rightarrow> ('s, json, call_tool_result) handler) \<Rightarrow> 's content_source \<Rightarrow> skill list \<Rightarrow> string \<Rightarrow> string \<Rightarrow> string \<Rightarrow> bool \<Rightarrow>
    's server_builder" where
  "full_builder se rs lower about handlers S skills name version instructions read_only =
     register_completers (fold builder_prompt (prompts_all se lower skills)
       (fold builder_resource (resources_all se rs S)
         (fold builder_tool (map (descriptor_of about handlers) (rag_tools @ sap_tools @ adt_tools @ graph_tools @ workflow_tools))
           (builder_instructions instructions
             (builder_exposure (if read_only then ReadOnlyOnly else All_Tools) (builder_new name version))))))"

definition build_full_server ::
  "tool_serde \<Rightarrow> 'f read_serde \<Rightarrow> (string \<Rightarrow> string) \<Rightarrow> (string \<Rightarrow> string option \<times> tool_input_schema) \<Rightarrow>
    (string \<Rightarrow> ('s, json, call_tool_result) handler) \<Rightarrow> 's content_source \<Rightarrow> skill list \<Rightarrow> string \<Rightarrow> bool \<Rightarrow> 's server_context" where
  "build_full_server se rs lower about handlers S skills version read_only =
     build (full_builder se rs lower about handlers S skills ''sap-automate-server'' version
       (build_instructions (cs_agents_md S) read_only) read_only)"


section \<open>The catalogue\<close>

lemma update_fresh: "k \<notin> fst ` set al \<Longrightarrow> AList.update k v al = al @ [(k, v)]"
  by (induction al) auto

lemma fold_update_fresh:
  "distinct (map fst al @ map key ds) \<Longrightarrow> fold (\<lambda>d. AList.update (key d) d) ds al = al @ map (\<lambda>d. (key d, d)) ds"
proof (induction ds arbitrary: al)
  case (Cons d ds)
  then have "AList.update (key d) d al = al @ [(key d, d)]" by (intro update_fresh) auto
  with Cons show ?case by simp
qed simp

lemma fold_builder_fields [simp]:
  "sb_resources (fold builder_resource rds b) = fold (\<lambda>d. AList.update (res_uri (rd_resource d)) d) rds (sb_resources b)"
  "sb_tools (fold builder_resource rds b) = sb_tools b" "sb_exposure (fold builder_resource rds b) = sb_exposure b"
  "sb_prompts (fold builder_resource rds b) = sb_prompts b"
  "sb_prompts (fold builder_prompt pds b) = fold (\<lambda>d. AList.update (pr_name (pd_prompt d)) d) pds (sb_prompts b)"
  "sb_tools (fold builder_prompt pds b) = sb_tools b" "sb_exposure (fold builder_prompt pds b) = sb_exposure b"
  "sb_resources (fold builder_prompt pds b) = sb_resources b"
  "sb_resources (fold builder_tool tds b) = sb_resources b" "sb_prompts (fold builder_tool tds b) = sb_prompts b"
  "sb_tools (register_completers b) = sb_tools b" "sb_exposure (register_completers b) = sb_exposure b"
  "sb_resources (register_completers b) = sb_resources b" "sb_prompts (register_completers b) = sb_prompts b"
proof -
  show "sb_resources (fold builder_resource rds b) = fold (\<lambda>d. AList.update (res_uri (rd_resource d)) d) rds (sb_resources b)"
    "sb_tools (fold builder_resource rds b) = sb_tools b" "sb_exposure (fold builder_resource rds b) = sb_exposure b"
    "sb_prompts (fold builder_resource rds b) = sb_prompts b"
    by (induction rds arbitrary: b) (simp_all add: builder_resource_def)
  show "sb_prompts (fold builder_prompt pds b) = fold (\<lambda>d. AList.update (pr_name (pd_prompt d)) d) pds (sb_prompts b)"
    "sb_tools (fold builder_prompt pds b) = sb_tools b" "sb_exposure (fold builder_prompt pds b) = sb_exposure b"
    "sb_resources (fold builder_prompt pds b) = sb_resources b"
    by (induction pds arbitrary: b) (simp_all add: builder_prompt_def)
  show "sb_resources (fold builder_tool tds b) = sb_resources b" "sb_prompts (fold builder_tool tds b) = sb_prompts b"
    by (induction tds arbitrary: b) (simp_all add: builder_tool_def)
qed (simp_all add: register_completers_def builder_completer_def)

definition resource_uris :: "bool \<Rightarrow> bool \<Rightarrow> string list" where
  "resource_uris cached guarded =
     [''sap-system://info''] @ map (\<lambda>t. ''sap-table://'' @ t @ ''/structure'') resource_tables @
     map (\<lambda>f. ''sap-rfc://'' @ f) resource_functions @ [''adt-destination://info''] @
     (if cached then [''sap-cache://stats''] else []) @ (if guarded then [''agents://guardrails''] else [])"

lemma resource_uris_distinct: "distinct (resource_uris cached guarded)"
  by (cases cached; cases guarded) (simp_all add: resource_uris_def resource_tables_def resource_functions_def)

lemma resources_all_uris:
  "map (\<lambda>d. res_uri (rd_resource d)) (resources_all se rs S) = resource_uris (cs_cache_stats S \<noteq> None) (cs_agents_md S \<noteq> None)"
  by (simp add: resources_all_def resource_uris_def make_system_info_def make_table_structure_def make_rfc_meta_def
      make_adt_destination_def make_cache_stats_def make_agents_md_def resource_at_def o_def)

text \<open>What a resource is read as: one content with the URI asked for and the type the resource announces.\<close>

definition reads_as_announced :: "'s resource_descriptor \<Rightarrow> bool" where
  "reads_as_announced d \<longleftrightarrow> (\<forall>uri s r s'. rd_handler d uri s = (Inr r, s') \<longrightarrow>
     (\<exists>body. rrr_contents r = [\<lparr> rcon_uri = uri, rcon_mime_type = res_mime_type (rd_resource d), rcon_text = Some body, rcon_blob = None \<rparr>]))"

lemma pretty_contents_shape:
  "pretty_contents se uri v = Inr r \<Longrightarrow>
   \<exists>body. rrr_contents r = [\<lparr> rcon_uri = uri, rcon_mime_type = Some json_type, rcon_text = Some body, rcon_blob = None \<rparr>]"
  by (auto simp: pretty_contents_def contents_of_def split: sum.splits)

lemma answered_shape:
  "answered se uri ser x = (Inr r, s') \<Longrightarrow>
   \<exists>body. rrr_contents r = [\<lparr> rcon_uri = uri, rcon_mime_type = Some json_type, rcon_text = Some body, rcon_blob = None \<rparr>]"
  by (cases x) (auto simp: answered_def split: sum.splits dest: pretty_contents_shape)

lemma resources_read_as_announced: "d \<in> set (resources_all se rs S) \<Longrightarrow> reads_as_announced d"
  by (auto simp: resources_all_def reads_as_announced_def make_system_info_def make_table_structure_def make_rfc_meta_def
      make_adt_destination_def make_cache_stats_def make_agents_md_def resource_at_def contents_of_def
      dest: pretty_contents_shape answered_shape split: option.splits if_splits)

lemma served_resources:
  "cx_resources (build_full_server se rs lower about handlers S skills version read_only) =
     map (\<lambda>d. (res_uri (rd_resource d), d)) (resources_all se rs S)"
proof -
  have "distinct (map (\<lambda>d. res_uri (rd_resource d)) (resources_all se rs S))"
    by (simp add: resources_all_uris resource_uris_distinct)
  then show ?thesis
    by (simp add: build_full_server_def full_builder_def build_def Let_def builder_instructions_def builder_exposure_def
        builder_new_def fold_update_fresh)
qed

end
