(* ===== verification/Seed_Corpus.thy ===== *)
theory Seed_Corpus
  imports Embedders Server_Content
begin

text \<open>
  The corpus the server starts with (\<open>apps/sap-automate-server/src/seed.rs\<close>) and the wiring of the offline server, as the
  tests build it (\<open>build_test_server\<close> of \<open>lib.rs\<close>): its store, the resources over the cached offline client, and the server.
  The corpus is chunked and embedded as the ingestion pipeline does it, document by document. Shown: seeding stores every
  document as one embedded chunk, and every table and function the server publishes is one the offline client knows.
\<close>

section \<open>The corpus\<close>

definition seed_zfin_zfin_post_je :: "(string \<Rightarrow> string) \<Rightarrow> document" where
  "seed_zfin_zfin_post_je h =
     (document_new h ''abap:ZFIN/ZFIN_POST_JE'' Abap ''abap-obj://ZFIN/ZFIN_POST_JE'' ''ZFIN_POST_JE''
       ''ABAP report ZFIN_POST_JE posts financial journal entries via BAPI_ACC_DOCUMENT_POST. Validates cost-centre against table CSKS, blocks postings to closed periods (T001B), and routes inter-company entries through BAPI_ACC_GL_POSTING_CHECK before commit.'')
       \<lparr> doc_metadata := [(''package'', ''ZFIN''), (''type'', ''REPORT'')] \<rparr>"

definition seed_zmm_zmm_grn_check :: "(string \<Rightarrow> string) \<Rightarrow> document" where
  "seed_zmm_zmm_grn_check h =
     (document_new h ''abap:ZMM/ZMM_GRN_CHECK'' Abap ''abap-obj://ZMM/ZMM_GRN_CHECK'' ''ZMM_GRN_CHECK''
       ''Function module ZMM_GRN_CHECK reconciles goods receipt with purchase order quantities; triggers tolerance check, batch management, and material valuation flow. Calls BAPI_GOODSMVT_CREATE on success.'')
       \<lparr> doc_metadata := [(''package'', ''ZMM''), (''type'', ''FUNCTION'')] \<rparr>"

definition seed_core_p2p_001 :: "(string \<Rightarrow> string) \<Rightarrow> document" where
  "seed_core_p2p_001 h =
     (document_new h ''bpmn:core/P2P-001'' Bpmn ''bpmn-proc://core/P2P-001'' ''Procure-to-Pay (P2P)''
       ''Signavio BPMN process P2P-001: purchase requisition into PO approval into goods receipt into invoice verification into payment release. Mined throughput drops 18% at PO approval due to manager-cost-centre coverage gaps.'')
       \<lparr> doc_breadcrumbs := [''core''] \<rparr>"

definition seed_core_o2c_002 :: "(string \<Rightarrow> string) \<Rightarrow> document" where
  "seed_core_o2c_002 h =
     (document_new h ''bpmn:core/O2C-002'' Bpmn ''bpmn-proc://core/O2C-002'' ''Order-to-Cash (O2C)''
       ''Signavio BPMN process O2C-002: sales order entry into ATP check into delivery into billing into cash application. Mining shows 12% rework loop between billing and delivery, primarily caused by incomplete delivery addresses.'')
       \<lparr> doc_breadcrumbs := [''core''] \<rparr>"

definition seed_fs_12001 :: "(string \<Rightarrow> string) \<Rightarrow> document" where
  "seed_fs_12001 h =
     (document_new h ''leanix:FS-12001'' Leanix ''leanix-fs://FS-12001'' ''S/4HANA Finance''
       ''LeanIX application fact sheet for S/4HANA Finance (FS-12001). Lifecycle: active. Business capabilities: general ledger, accounts payable, accounts receivable, asset accounting. Integrations: ZFIN_POST_JE, Concur, Datasphere. EOL: 2031-12.'')"

definition seed_fs_08823 :: "(string \<Rightarrow> string) \<Rightarrow> document" where
  "seed_fs_08823 h =
     (document_new h ''leanix:FS-08823'' Leanix ''leanix-fs://FS-08823'' ''Legacy Billing Engine''
       ''LeanIX application fact sheet for Legacy Billing Engine (FS-08823). Lifecycle: phase-out. Integrations: ZSD_BILL_GEN, mainframe. EOL: 2026-09. Replacement: S/4HANA SD billing.'')"

definition seed_fi_period_close :: "(string \<Rightarrow> string) \<Rightarrow> document" where
  "seed_fi_period_close h =
     (document_new h ''sap_help:FI/period-close'' SapHelp ''sap-help://FI/period-close'' ''Period-End Close in SAP FI''
       ''SAP Help Portal page on FI period-end close: open and close posting periods via T001B, execute foreign-currency revaluation, post accruals and deferrals, run BSEG to FAGLFLEXA reconciliation, and generate balance audit trail.'')
       \<lparr> doc_breadcrumbs := [''Finance'', ''General Ledger''], doc_metadata := [(''module'', ''FI'')] \<rparr>"

definition seed_mm_goods_movement :: "(string \<Rightarrow> string) \<Rightarrow> document" where
  "seed_mm_goods_movement h =
     (document_new h ''sap_help:MM/goods-movement'' SapHelp ''sap-help://MM/goods-movement'' ''Goods Movement Posting''
       ''SAP Help Portal page describing goods movement postings (transaction MIGO). Movement types 101 (GR for PO), 102 (reversal), 122 (return delivery). Updates MSEG, MKPF, and material valuation.'')
       \<lparr> doc_breadcrumbs := [''Logistics'', ''Inventory Management''], doc_metadata := [(''module'', ''MM'')] \<rparr>"

definition seed_documents :: "(string \<Rightarrow> string) \<Rightarrow> document list" where
  "seed_documents h =
     [seed_zfin_zfin_post_je h, seed_zmm_zmm_grn_check h, seed_core_p2p_001 h, seed_core_o2c_002 h, seed_fs_12001 h, seed_fs_08823 h, seed_fi_period_close h, seed_mm_goods_movement h]"

section \<open>Seeding\<close>

text \<open>Chunks without a vector of their own keep none.\<close>

fun set_embeddings :: "'f list list \<Rightarrow> 'f chunk list \<Rightarrow> 'f chunk list" where
  "set_embeddings (v # vs) (c # cs) = c\<lparr> ch_embedding := Some v \<rparr> # set_embeddings vs cs"
| "set_embeddings _ cs = cs"

text \<open>
  One document after another; \<open>None\<close> is a panic, of the chunker or of the embedder. The store is the one reached when the
  loop ends.
\<close>

type_synonym 'f start_embedder = "string list \<Rightarrow> (string, 'f list list) result option"

fun populate_loop ::
  "(string \<Rightarrow> string) \<Rightarrow> 'f start_embedder \<Rightarrow> document list \<Rightarrow> 'f in_memory_kb \<Rightarrow> ((string, unit) result \<times> 'f in_memory_kb) option" where
  "populate_loop h emb [] kb = Some (Inr (), kb)"
| "populate_loop h emb (doc # docs) kb =
     (case chunk_document doc chunker_default of
        None \<Rightarrow> None
      | Some chunks \<Rightarrow>
          if chunks = [] then populate_loop h emb docs kb
          else (case emb (map ch_text chunks) of
                  None \<Rightarrow> None
                | Some (Inl e) \<Rightarrow> Some (Inl e, kb)
                | Some (Inr vectors) \<Rightarrow>
                    populate_loop h emb docs (upsert h \<lparr> ub_documents = [doc], ub_chunks = set_embeddings vectors chunks \<rparr> kb)))"

definition populate_with_embeddings ::
  "(string \<Rightarrow> string) \<Rightarrow> 'f start_embedder \<Rightarrow> 'f in_memory_kb \<Rightarrow> ((string, unit) result \<times> 'f in_memory_kb) option" where
  "populate_with_embeddings h emb kb = populate_loop h emb (seed_documents h) kb"

text \<open>The embedder of the server: the offline one, of any number of dimensions.\<close>

definition offline_embedder ::
  "'f f32_ops \<Rightarrow> (string \<Rightarrow> bool) \<Rightarrow> (string \<Rightarrow> string) \<Rightarrow> (string \<Rightarrow> nat) \<Rightarrow> nat \<Rightarrow> 'f start_embedder" where
  "offline_embedder F alnum lower hash32 dm texts = map_option Inr (mock_embed F alnum lower hash32 dm texts)"

section \<open>The offline server\<close>

record test_server_options =
  to_read_only :: bool
  to_metadata_cache_ttl :: nat
  to_seed_kb :: bool
  to_embedding_dim :: nat
  to_agents_md :: "string option"

definition test_options_default :: test_server_options where
  "test_options_default =
     \<lparr> to_read_only = True, to_metadata_cache_ttl = 300 * 10 ^ 9, to_seed_kb = False, to_embedding_dim = 64, to_agents_md = None \<rparr>"

text \<open>What resources ask: the offline client behind its metadata cache, which is the state.\<close>

definition offline_source ::
  "(nat \<Rightarrow> nat) \<Rightarrow> 'sem mock_sap_client \<Rightarrow> adt_destination \<Rightarrow> string option \<Rightarrow> (metadata_cache \<times> unit) content_source" where
  "offline_source clock c dest agents_md =
     \<lparr> cs_system_info = (\<lambda>s. (mock_system_info c, s)),
       cs_table_structure = (\<lambda>t s. (mock_table_structure c t, s)),
       cs_rfc_metadata = cache_rfc_metadata clock (lift_meta (mock_rfc_metadata c)),
       cs_cache_stats = Some (cache_stats_of \<circ> fst),
       cs_destination = dest, cs_agents_md = agents_md \<rparr>"

text \<open>
  The store, the client's state and the server. A seeding that fails is a panic.
\<close>

definition test_store ::
  "(string \<Rightarrow> string) \<Rightarrow> (nat \<Rightarrow> 'f start_embedder) \<Rightarrow> test_server_options \<Rightarrow> 'f in_memory_kb option" where
  "test_store h emb opts =
     (if to_seed_kb opts
      then (case populate_with_embeddings h (emb (to_embedding_dim opts)) kb_new of Some (Inr _, kb) \<Rightarrow> Some kb | _ \<Rightarrow> None)
      else Some kb_new)"

definition test_source :: "(nat \<Rightarrow> nat) \<Rightarrow> (nat \<Rightarrow> 'sem) \<Rightarrow> test_server_options \<Rightarrow> (metadata_cache \<times> unit) content_source" where
  "test_source clock sem_new opts =
     offline_source clock (mock_new sem_new 4 (JObject [])) (destination_mock ''test'') (to_agents_md opts)"

definition build_test_server ::
  "tool_serde \<Rightarrow> 'g read_serde \<Rightarrow> (string \<Rightarrow> string) \<Rightarrow> (string \<Rightarrow> string option \<times> tool_input_schema) \<Rightarrow>
    (string \<Rightarrow> (metadata_cache \<times> unit, json, call_tool_result) handler) \<Rightarrow> (nat \<Rightarrow> nat) \<Rightarrow> (nat \<Rightarrow> 'sem) \<Rightarrow> string \<Rightarrow>
    (string \<Rightarrow> string) \<Rightarrow> (nat \<Rightarrow> 'f start_embedder) \<Rightarrow> test_server_options \<Rightarrow>
    ((metadata_cache \<times> unit) server_context \<times> 'f in_memory_kb \<times> metadata_cache) option" where
  "build_test_server se rs lower about handlers clock sem_new version h emb opts =
     map_option (\<lambda>kb.
       (build (full_builder se rs lower about handlers (test_source clock sem_new opts) [] ''sap-automate-test-server'' version
          ''integration test'' (to_read_only opts)), kb, cache_new (to_metadata_cache_ttl opts)))
       (test_store h emb opts)"

section \<open>Seeding stores every document\<close>

lemma set_embeddings_all:
  "length vs = length cs \<Longrightarrow> map no_embedding (set_embeddings vs cs) = map no_embedding cs \<and>
     list_all (\<lambda>c. ch_embedding c \<noteq> None) (set_embeddings vs cs) \<and> map ch_id (set_embeddings vs cs) = map ch_id cs"
  by (induction vs cs rule: list_induct2) (simp_all add: no_embedding_def)

text \<open>A body within one window is one segment.\<close>

lemma split_text_short:
  assumes "trim s = s" "s \<noteq> []" "length s \<le> target"
  shows "split_text s target overlap = Some [s]"
proof -
  have "window_end s target 0 = length s"
    using assms(3) by (simp add: window_end_def Let_def round_up.simps)
  then have "split_windows s target overlap 0 = Some [(0, length s)]"
    using assms(2) by (simp add: split_windows.simps [of s target overlap 0] Let_def)
  then show ?thesis
    using assms(1,2) by (simp add: split_text_def window_text_def)
qed

definition short_text :: "string \<Rightarrow> bool" where
  "short_text s \<longleftrightarrow> s \<noteq> [] \<and> graphic (hd s) \<and> graphic (last s) \<and> length s \<le> 1600"

definition one_window :: "document \<Rightarrow> bool" where
  "one_window d \<longleftrightarrow> short_text (doc_body d)"

lemma trim_graphic: "s \<noteq> [] \<Longrightarrow> graphic (hd s) \<Longrightarrow> graphic (last s) \<Longrightarrow> trim s = s"
  using trim_start_graphic [of "hd s" "tl s"] trim_end_graphic [of "last s" "butlast s"] by (simp add: trim_def graphic_def)

lemma chunk_document_short:
  assumes "one_window d"
  shows "chunk_document d chunker_default = Some [make_chunk d chunker_default (0, doc_body d)]"
proof -
  have "doc_body d \<noteq> []" "trim (doc_body d) = doc_body d"
    using assms by (auto simp: one_window_def short_text_def intro: trim_graphic)
  then show ?thesis
    using assms by (simp add: chunk_document_def Let_def split_text_short one_window_def short_text_def chunker_default_def)
qed

definition chunk_key :: "document \<Rightarrow> string" where "chunk_key d = doc_id d @ ''#chunk-0''"

definition stored_as :: "document \<Rightarrow> 'f chunk \<Rightarrow> bool" where
  "stored_as d c \<longleftrightarrow> no_embedding c = make_chunk d chunker_default (0, doc_body d) \<and> ch_embedding c \<noteq> None"

lemma chunk_key_inj [simp]: "chunk_key d = chunk_key d' \<longleftrightarrow> doc_id d = doc_id d'"
  by (simp add: chunk_key_def)

lemma stored_as_id: "stored_as d c \<Longrightarrow> ch_id c = chunk_key d"
proof -
  assume "stored_as d c"
  then have "ch_id (no_embedding c) = ch_id (make_chunk d chunker_default (0, doc_body d) :: 'a chunk)"
    by (simp add: stored_as_def)
  moreover have "show_nat 0 = ''0''" by code_simp
  ultimately show ?thesis by (simp add: no_embedding_def make_chunk_def chunk_key_def)
qed

lemma upsert_fresh:
  assumes "kb_wf h kb" "map_of (kb_chunks kb) (ch_id c) = None"
  shows "map_of (kb_chunks (upsert h \<lparr> ub_documents = [d], ub_chunks = [c] \<rparr> kb)) = (map_of (kb_chunks kb))(ch_id c \<mapsto> c)"
    "map_of (kb_documents (upsert h \<lparr> ub_documents = [d], ub_chunks = [c] \<rparr> kb)) = (map_of (kb_documents kb))(doc_id d \<mapsto> d)"
proof -
  have "map_of (kb_content_hashes kb) (ch_id c) = None" using assms by (simp add: kb_wf_def)
  then show "map_of (kb_chunks (upsert h \<lparr> ub_documents = [d], ub_chunks = [c] \<rparr> kb)) = (map_of (kb_chunks kb))(ch_id c \<mapsto> c)"
    using assms(1) by (simp add: upsert_def insert_chunk_def insert_document_def Let_def kb_wf_def)
  show "map_of (kb_documents (upsert h \<lparr> ub_documents = [d], ub_chunks = [c] \<rparr> kb)) = (map_of (kb_documents kb))(doc_id d \<mapsto> d)"
    using assms(1) by (simp add: upsert_def insert_document_def kb_wf_def)
qed

lemma populate_all:
  fixes emb :: "'f start_embedder"
  assumes "\<And>texts. \<exists>vs. emb texts = Some (Inr vs) \<and> length vs = length texts"
  shows "list_all one_window ds \<Longrightarrow> distinct (map doc_id ds) \<Longrightarrow> kb_wf h kb \<Longrightarrow> list_all (\<lambda>d. map_of (kb_chunks kb) (chunk_key d) = None) ds \<Longrightarrow>
    \<exists>cs kb'. populate_loop h emb ds kb = Some (Inr (), kb') \<and> kb_wf h kb' \<and> list_all2 stored_as ds cs \<and>
      map_of (kb_chunks kb') = map_of (kb_chunks kb) ++ map_of (map (\<lambda>c. (ch_id c, c)) cs) \<and>
      map_of (kb_documents kb') = map_of (kb_documents kb) ++ map_of (map (\<lambda>d. (doc_id d, d)) ds)"
proof (induction ds arbitrary: kb)
  case (Cons d ds)
  let ?c = "make_chunk d chunker_default (0, doc_body d) :: 'f chunk"
  obtain v where v: "emb [ch_text ?c] = Some (Inr [v])"
  proof -
    obtain vs where "emb [ch_text ?c] = Some (Inr vs)" "length vs = length [ch_text ?c]"
      using assms by blast
    then show thesis using that by (cases vs) simp_all
  qed
  define c where "c = ?c\<lparr> ch_embedding := Some v \<rparr>"
  define kb1 where "kb1 = upsert h \<lparr> ub_documents = [d], ub_chunks = [c] \<rparr> kb"
  have c: "stored_as d c"
    by (simp add: c_def stored_as_def no_embedding_def make_chunk_def)
  note key = stored_as_id [OF c]
  have fresh: "map_of (kb_chunks kb) (ch_id c) = None" using Cons.prems(4) key by simp
  note step = upsert_fresh [OF Cons.prems(3) fresh, of d, folded kb1_def]
  have run: "populate_loop h emb (d # ds) kb = populate_loop h emb ds kb1"
    using Cons.prems(1) v by (simp add: chunk_document_short kb1_def c_def)
  have other: "doc_id d' \<noteq> doc_id d" if "d' \<in> set ds" for d'
    using Cons.prems(2) imageI [OF that, of doc_id] by auto
  have "list_all (\<lambda>d. map_of (kb_chunks kb1) (chunk_key d) = None) ds"
    using Cons.prems(4) key other by (simp add: step list_all_iff)
  moreover have "kb_wf h kb1" by (simp add: kb1_def upsert_wf Cons.prems(3))
  ultimately obtain cs kb' where rest: "populate_loop h emb ds kb1 = Some (Inr (), kb')" "kb_wf h kb'" "list_all2 stored_as ds cs"
    "map_of (kb_chunks kb') = map_of (kb_chunks kb1) ++ map_of (map (\<lambda>c. (ch_id c, c)) cs)"
    "map_of (kb_documents kb') = map_of (kb_documents kb1) ++ map_of (map (\<lambda>d. (doc_id d, d)) ds)"
    using Cons.IH [of kb1] Cons.prems(1,2) by auto
  have "map ch_id cs = map chunk_key ds"
    using rest(3) by (induction rule: list_all2_induct) (simp_all add: stored_as_id)
  then have "chunk_key d \<notin> set (map ch_id cs)" by (auto dest!: other)
  then have absent: "ch_id c \<notin> dom (map_of (map (\<lambda>c. (ch_id c, c)) cs))"
    by (auto simp: key dom_map_of_conv_image_fst)
  have "doc_id d \<notin> dom (map_of (map (\<lambda>d. (doc_id d, d)) ds))"
    using Cons.prems(2) by (auto simp: dom_map_of_conv_image_fst)
  then have "map_of (kb_documents kb') = map_of (kb_documents kb) ++ map_of (map (\<lambda>d. (doc_id d, d)) (d # ds))"
    using rest(5) by (simp add: step map_add_upd_left del: fun_upd_apply)
  moreover have "map_of (kb_chunks kb') = map_of (kb_chunks kb) ++ map_of (map (\<lambda>c. (ch_id c, c)) (c # cs))"
    using rest(4) absent by (simp add: step map_add_upd_left del: fun_upd_apply)
  moreover have "populate_loop h emb (d # ds) kb = Some (Inr (), kb')" using run rest(1) by (rule trans)
  ultimately show ?case
    using rest(2,3) c by blast
qed simp

lemma seed_one_window: "list_all one_window (seed_documents h)"
  apply (simp add: seed_documents_def one_window_def document_new_def
      seed_zfin_zfin_post_je_def seed_zmm_zmm_grn_check_def seed_core_p2p_001_def seed_core_o2c_002_def seed_fs_12001_def
      seed_fs_08823_def seed_fi_period_close_def seed_mm_goods_movement_def)
  apply code_simp
  done

lemma seed_document_ids: "distinct (map doc_id (seed_documents h))"
  by (simp add: seed_documents_def document_new_def
      seed_zfin_zfin_post_je_def seed_zmm_zmm_grn_check_def seed_core_p2p_001_def seed_core_o2c_002_def seed_fs_12001_def
      seed_fs_08823_def seed_fi_period_close_def seed_mm_goods_movement_def)

text \<open>Seeding with an embedder that answers stores each document under its id, with one chunk, embedded, and nothing else.\<close>

lemma seeded_store:
  assumes "\<And>texts. \<exists>vs. emb texts = Some (Inr vs) \<and> length vs = length texts"
  shows "\<exists>cs kb. populate_with_embeddings h emb kb_new = Some (Inr (), kb) \<and> kb_wf h kb \<and> list_all2 stored_as (seed_documents h) cs \<and>
     map_of (kb_chunks kb) = map_of (map (\<lambda>c. (ch_id c, c)) cs) \<and>
     map_of (kb_documents kb) = map_of (map (\<lambda>d. (doc_id d, d)) (seed_documents h))"
  using populate_all [OF assms seed_one_window seed_document_ids kb_wf_new, where h2 = h]
  by (simp add: populate_with_embeddings_def kb_new_def list_all_iff)

lemma split_alnum_start: "split_alnum alnum cur cs \<noteq> [] \<and> prefix cur (hd (split_alnum alnum cur cs))"
proof (induction alnum cur cs rule: split_alnum.induct)
  case (2 alnum cur c cs)
  then show ?case by (auto simp: prefix_def)
qed simp

lemma first_token:
  assumes "alnum [a]" "alnum [b]" "code a < 0x80" "code b < 0x80"
  shows "tokenise alnum lower (a # b # s) \<noteq> []"
proof -
  have "split_alnum alnum [] (utf8_chars (a # b # s)) = split_alnum alnum [a, b] (utf8_chars s)"
    using assms by simp
  moreover have "2 \<le> length (hd (split_alnum alnum [a, b] (utf8_chars s)))"
    using split_alnum_start [of alnum "[a, b]" "utf8_chars s"] prefix_length_le by fastforce
  ultimately show ?thesis
    using split_alnum_start [of alnum "[a, b]" "utf8_chars s"]
    by (cases "split_alnum alnum [a, b] (utf8_chars s)") (simp_all add: tokenise_def)
qed

lemma offline_embedder_answers: "\<exists>vs. offline_embedder F alnum lower hash32 (Suc n) texts = Some (Inr vs) \<and> length vs = length texts"
  using mock_embed_total [of F alnum lower hash32 n texts] by (auto simp: offline_embedder_def)

lemma offline_seeded:
  "\<exists>cs kb. populate_with_embeddings h (offline_embedder F alnum lower hash32 (Suc n)) kb_new = Some (Inr (), kb) \<and> kb_wf h kb \<and>
     list_all2 stored_as (seed_documents h) cs \<and> map_of (kb_chunks kb) = map_of (map (\<lambda>c. (ch_id c, c)) cs) \<and>
     map_of (kb_documents kb) = map_of (map (\<lambda>d. (doc_id d, d)) (seed_documents h))"
  by (rule seeded_store) (rule offline_embedder_answers)

text \<open>A test server with dimensions starts.\<close>

lemma test_server_starts:
  assumes "to_embedding_dim opts = Suc n"
  shows "build_test_server se rs lower about handlers clock sem_new version h (offline_embedder F alnum lower32 hash32) opts \<noteq> None"
  using offline_seeded [of h F alnum lower32 hash32 n] assms by (auto simp: build_test_server_def test_store_def)

text \<open>Without dimensions the first token of the corpus is a remainder by zero.\<close>

lemma seed_without_dimensions:
  assumes "alnum ''Z''" "alnum ''F''"
  shows "populate_with_embeddings h (offline_embedder F alnum lower hash32 0) kb = None"
proof -
  let ?d = "seed_zfin_zfin_post_je h"
  have "one_window ?d" using seed_one_window [of h] by (simp add: seed_documents_def)
  then have chunked: "chunk_document ?d chunker_default = Some [make_chunk ?d chunker_default (0, doc_body ?d) :: 'a chunk]"
    by (rule chunk_document_short)
  obtain r where "ch_text (make_chunk ?d chunker_default (0, doc_body ?d) :: 'a chunk) = CHR ''Z'' # CHR ''F'' # r"
    by (simp add: make_chunk_def chunk_prefix_def seed_zfin_zfin_post_je_def document_new_def Let_def)
  then have "tokenise alnum lower (ch_text (make_chunk ?d chunker_default (0, doc_body ?d) :: 'a chunk)) \<noteq> []"
    using assms by (simp add: first_token)
  with chunked show ?thesis
    by (simp add: populate_with_embeddings_def seed_documents_def offline_embedder_def mock_embed_def token_bag_vector_def)
qed

section \<open>What is published is there\<close>

lemma published_tables: "t \<in> set resource_tables \<Longrightarrow> mc_tables (mock_new sem_new n identity) t \<noteq> None"
  by (auto simp: resource_tables_def mock_new_def insert_tables_def seed_tables_def tab_MARA_def tab_T001_def tab_T001B_def tab_BSEG_def
      tab_FAGLFLEXA_def tab_ACDOCA_def tab_VBAK_def tab_E070_def)

lemma published_functions: "f \<in> set resource_functions \<Longrightarrow> mc_functions (mock_new sem_new n identity) f \<noteq> None"
  by (auto simp: resource_functions_def mock_new_def insert_functions_def seed_functions_def fn_RFC_SYSTEM_INFO_def
      fn_BAPI_MATERIAL_GET_DETAIL_def fn_BAPI_ACC_DOCUMENT_POST_def fn_BAPI_TRANSACTION_COMMIT_def fn_BAPI_TRANSACTION_ROLLBACK_def
      fn_BAPI_PO_CREATE1_def fn_BAPI_SALESORDER_CREATEFROMDAT2_def fn_BAPI_CUSTOMER_CHANGEFROMDATA1_def
      fn_TMS_MGR_FORWARD_TR_REQUEST_def fn_RFC_READ_TABLE_def fn_DDIF_FIELDINFO_GET_def)

lemma pretty_answers: "pretty se = (\<lambda>v. Inr (p v)) \<Longrightarrow> \<exists>r. pretty_contents se uri v = Inr r"
  by (simp add: pretty_contents_def)

text \<open>
  Every resource of the offline server can be read: with a serialiser that does not fail, and whatever the metadata cache
  holds, no resource answers that something is missing.
\<close>

lemma offline_resources_readable:
  assumes "pretty se = (\<lambda>v. Inr (p v))"
    "d \<in> set (resources_all se rs (offline_source clock (mock_new sem_new n identity) dest agents_md))"
  shows "\<exists>r s'. rd_handler d uri s = (Inr r, s')"
proof -
  obtain c u where s: "s = (c, u)" by (cases s)
  let ?c = "mock_new sem_new n identity"
  have meta: "\<exists>m s'. cache_rfc_metadata clock (lift_meta (mock_rfc_metadata ?c)) f lang s = (Inr m, s')"
    if "f \<in> set resource_functions" for f lang
    using published_functions [OF that, of sem_new n identity]
    by (auto simp: s cache_rfc_metadata_def lift_meta_def mock_rfc_metadata_def split: option.split)
  have tab: "\<exists>x. mock_table_structure ?c t = Inr x" if "t \<in> set resource_tables" for t
    using published_tables [OF that, of sem_new n identity] by (auto simp: mock_table_structure_def split: option.split)
  consider "d = make_system_info se rs (offline_source clock ?c dest agents_md)"
    | t where "t \<in> set resource_tables" "d = make_table_structure se rs (offline_source clock ?c dest agents_md) t"
    | f where "f \<in> set resource_functions" "d = make_rfc_meta se rs (offline_source clock ?c dest agents_md) f"
    | "d = make_adt_destination se (offline_source clock ?c dest agents_md)"
    | "d = make_cache_stats se rs (offline_source clock ?c dest agents_md)"
    | "d = make_agents_md (offline_source clock ?c dest agents_md)"
    using assms(2) by (auto simp: resources_all_def split: if_splits)
  then show ?thesis
  proof cases
    case 1
    then show ?thesis using assms(1)
      by (simp add: make_system_info_def resource_at_def answered_def offline_source_def mock_system_info_def pretty_contents_def
          del: split_paired_Ex)
  next
    case 2
    then show ?thesis using assms(1) tab [OF 2(1)]
      by (auto simp: make_table_structure_def resource_at_def answered_def offline_source_def pretty_contents_def simp del: split_paired_Ex)
  next
    case 3
    then show ?thesis using assms(1) meta [OF 3(1), of "''EN''"]
      by (auto simp: make_rfc_meta_def resource_at_def answered_def offline_source_def pretty_contents_def simp del: split_paired_Ex)
  qed (use assms(1) in \<open>simp_all add: make_adt_destination_def make_cache_stats_def make_agents_md_def resource_at_def
      offline_source_def pretty_contents_def del: split_paired_Ex\<close>)
qed

end
