(* ===== verification/Soap.thy ===== *)
theory Soap
  imports Transaction
begin

text \<open>
  \<open>crates/sap-automate-rfc/src/soap.rs\<close>: the SOAP client. The envelope writer and the response
  mapping are translated in full. Two libraries are parameters: the HTTP client, a state-passing
  function \<open>post\<close> that takes the URL, the SOAP action and the envelope, and the XML reader, a
  function \<open>events\<close> from a text to the events \<open>quick_xml\<close> delivers for it (with \<open>trim_text\<close> on).
\<close>

definition RFC_NAMESPACE :: string where "RFC_NAMESPACE = ''urn:sap-com:document:sap:rfc:functions''"
definition ROW_DELIMITER :: char where "ROW_DELIMITER = CHR ''|''"

record soap_rfc_config =
  sc_base_url :: string
  sc_client :: string
  sc_user :: string
  sc_password :: string
  sc_language :: string
  sc_timeout_ms :: nat

text \<open>\<open>env k\<close> is \<open>std::env::var(k).ok()\<close>.\<close>

definition env_or :: "(string \<Rightarrow> string option) \<Rightarrow> string \<Rightarrow> string \<Rightarrow> string" where
  "env_or env k dflt = (case env k of Some s \<Rightarrow> if s = [] then dflt else s | None \<Rightarrow> dflt)"

definition soap_config_from_env :: "(string \<Rightarrow> string option) \<Rightarrow> soap_rfc_config option" where
  "soap_config_from_env env =
     (case env ''SAP_RFC_HTTP_URL'' of
        None \<Rightarrow> None
      | Some u \<Rightarrow>
          if u = [] then None
          else Some \<lparr> sc_base_url = u,
                      sc_client = env_or env ''SAP_RFC_CLIENT'' ''100'',
                      sc_user = env_or env ''SAP_RFC_USER'' [],
                      sc_password = env_or env ''SAP_RFC_PASSWORD'' [],
                      sc_language = env_or env ''SAP_RFC_LANG'' ''EN'',
                      sc_timeout_ms = 60000 \<rparr>)"

definition soap_redacted :: "soap_rfc_config \<Rightarrow> json" where
  "soap_redacted c = json_object
     [(''base_url'', JString (sc_base_url c)), (''client'', JString (sc_client c)),
      (''user'', JString (sc_user c)), (''language'', JString (sc_language c))]"

definition endpoint :: "soap_rfc_config \<Rightarrow> string" where
  "endpoint c = trim_end_matches (CHR ''/'') (sc_base_url c) @ ''/sap/bc/soap/rfc?sap-client='' @ sc_client c"

section \<open>Envelope\<close>

definition tag_open :: "string \<Rightarrow> string" where "tag_open t = ''<'' @ t @ ''>''"
definition tag_close :: "string \<Rightarrow> string" where "tag_close t = ''</'' @ t @ ''>''"

definition dq :: "string \<Rightarrow> string" where "dq s = [CHR 0x22] @ s @ [CHR 0x22]"

definition build_envelope :: "string \<Rightarrow> string \<Rightarrow> string" where
  "build_envelope fn params_xml =
     ''<?xml version='' @ dq ''1.0'' @ '' encoding='' @ dq ''UTF-8'' @ ''?>'' @
     ''<soap:Envelope xmlns:soap='' @ dq ''http://schemas.xmlsoap.org/soap/envelope/'' @
     '' xmlns:rfc='' @ dq RFC_NAMESPACE @ ''>'' @
     ''<soap:Body><rfc:'' @ fn @ ''>'' @ params_xml @ ''</rfc:'' @ fn @ ''></soap:Body>'' @
     ''</soap:Envelope>''"

definition escape_char :: "char \<Rightarrow> string" where
  "escape_char c =
     (if c = CHR ''&'' then ''&amp;''
      else if c = CHR ''<'' then ''&lt;''
      else if c = CHR ''>'' then ''&gt;''
      else if c = CHR 0x22 then ''&quot;''
      else if c = CHR 0x27 then ''&apos;''
      else [c])"

definition xml_escape :: "string \<Rightarrow> string" where
  "xml_escape s = concat (map escape_char s)"

fun write_scalar :: "json \<Rightarrow> string" where
  "write_scalar (JString s) = xml_escape s"
| "write_scalar (JNumber n) = number_to_string n"
| "write_scalar (JBool b) = (if b then ''X'' else [])"
| "write_scalar _ = []"

fun write_value :: "string \<Rightarrow> json \<Rightarrow> string" where
  "write_value tag JNull = []"
| "write_value tag (JBool b) = tag_open tag @ (if b then ''X'' else []) @ tag_close tag"
| "write_value tag (JNumber n) = tag_open tag @ number_to_string n @ tag_close tag"
| "write_value tag (JString s) = tag_open tag @ xml_escape s @ tag_close tag"
| "write_value tag (JArray items) =
     tag_open tag @
     concat (map (\<lambda>item. ''<item>'' @
        (case item of
           JObject m \<Rightarrow> concat (map (\<lambda>(k, v). write_value k v) m)
         | scalar \<Rightarrow> write_scalar scalar) @ ''</item>'') items) @
     tag_close tag"
| "write_value tag (JObject m) =
     tag_open tag @ concat (map (\<lambda>(k, v). write_value k v) m) @ tag_close tag"

definition write_params :: "jmap \<Rightarrow> string" where
  "write_params m = concat (map (\<lambda>(k, v). write_value k v) m)"

definition is_safe_name :: "string \<Rightarrow> bool" where
  "is_safe_name s \<longleftrightarrow> s \<noteq> [] \<and> length s \<le> 60 \<and>
     list_all (\<lambda>c. is_ascii_alphanumeric c \<or> c = CHR ''_'' \<or> c = CHR ''/'') s"

definition bad_key :: "string \<Rightarrow> rfc_error" where
  "bad_key k = InvalidParameter k ''invalid RFC parameter/field name (must be A-Z 0-9 _ /)''"

text \<open>\<open>?\<close> in a loop: the first error, if any.\<close>

fun first_error :: "('e, unit) result list \<Rightarrow> ('e, unit) result" where
  "first_error [] = Inr ()"
| "first_error (r # rs) = bind_result r (\<lambda>_. first_error rs)"

fun validate_keys :: "json \<Rightarrow> unit rfc_result" where
  "validate_keys (JObject m) =
     first_error (map (\<lambda>(k, v). if \<not> is_safe_name k then Inl (bad_key k) else validate_keys v) m)"
| "validate_keys (JArray xs) = first_error (map validate_keys xs)"
| "validate_keys _ = Inr ()"

section \<open>Response\<close>

definition MAX_XML_DEPTH :: nat where "MAX_XML_DEPTH = 256"

text \<open>
  The reader's events. A text event carries its unescaped text, or \<open>None\<close> if unescaping failed;
  \<open>Ev_Other\<close> is any event the code ignores. Past the last event the reader keeps answering \<open>Ev_Eof\<close>.
\<close>

datatype xml_event =
    Ev_Start string
  | Ev_Empty string
  | Ev_Text "string option"
  | Ev_CData string
  | Ev_End
  | Ev_Eof
  | Ev_Other
  | Ev_Err string

text \<open>\<open>rsplit_once(':')\<close>, keeping the part after the last colon.\<close>

definition local_name :: "string \<Rightarrow> string" where
  "local_name q = rev (takeWhile (\<lambda>c. c \<noteq> CHR '':'') (rev q))"

definition insert_merge :: "string \<Rightarrow> json \<Rightarrow> jmap \<Rightarrow> jmap" where
  "insert_merge k v m =
     (case map_of m k of
        Some (JArray xs) \<Rightarrow> amap_insert k (JArray (xs @ [v])) m
      | Some prev \<Rightarrow> amap_insert k (JArray [prev, v]) m
      | None \<Rightarrow> amap_insert k v m)"

definition depth_error :: rfc_error where
  "depth_error = Internal (''XML nesting exceeds '' @ show_nat MAX_XML_DEPTH @ '' levels'')"

definition element_value :: "jmap \<Rightarrow> string \<Rightarrow> nat \<Rightarrow> json" where
  "element_value m txt child_count = (if child_count = 0 then JString (trim txt) else JObject m)"

text \<open>
  The loop of \<open>parse_children\<close> at one level, with the entries, text and child count so far; it
  returns the value and the events left. A nested \<open>Start\<close> runs the loop one level deeper first.
  The fuel counts loop iterations; \<open>None\<close> means it ran out, which \<open>parse_children_returns\<close> excludes for
  a fuel above the number of events.
\<close>

fun parse_loop ::
  "nat \<Rightarrow> nat \<Rightarrow> xml_event list \<Rightarrow> jmap \<Rightarrow> string \<Rightarrow> nat \<Rightarrow> (json rfc_result \<times> xml_event list) option" where
  "parse_loop 0 depth evs m txt n = None"
| "parse_loop (Suc fuel) depth evs m txt n =
     (case evs of
        [] \<Rightarrow> Some (Inr (element_value m txt n), [])
      | Ev_Start q # rest \<Rightarrow>
          (case (if MAX_XML_DEPTH < depth + 1 then Some (Inl depth_error, rest)
                 else parse_loop fuel (depth + 1) rest [] [] 0) of
             None \<Rightarrow> None
           | Some (Inl e, rest') \<Rightarrow> Some (Inl e, rest')
           | Some (Inr child, rest') \<Rightarrow>
               parse_loop fuel depth rest' (insert_merge (local_name q) child m) txt (n + 1))
      | Ev_Empty q # rest \<Rightarrow>
          parse_loop fuel depth rest (insert_merge (local_name q) (JString []) m) txt (n + 1)
      | Ev_Text (Some s) # rest \<Rightarrow> parse_loop fuel depth rest m (txt @ s) n
      | Ev_Text None # rest \<Rightarrow> parse_loop fuel depth rest m txt n
      | Ev_CData s # rest \<Rightarrow> parse_loop fuel depth rest m (txt @ s) n
      | Ev_End # rest \<Rightarrow> Some (Inr (element_value m txt n), rest)
      | Ev_Eof # rest \<Rightarrow> Some (Inr (element_value m txt n), evs)
      | Ev_Other # rest \<Rightarrow> parse_loop fuel depth rest m txt n
      | Ev_Err e # rest \<Rightarrow> Some (Inl (Internal (''XML parse: '' @ e)), rest))"

definition parse_children :: "nat \<Rightarrow> xml_event list \<Rightarrow> (json rfc_result \<times> xml_event list) option" where
  "parse_children depth evs =
     (if MAX_XML_DEPTH < depth then Some (Inl depth_error, evs)
      else parse_loop (Suc (length evs)) depth evs [] [] 0)"

fun xml_to_json_root :: "xml_event list \<Rightarrow> json rfc_result option" where
  "xml_to_json_root [] = Some (Inl (Internal ''empty SOAP response''))"
| "xml_to_json_root (Ev_Start q # rest) = map_option fst (parse_children 1 rest)"
| "xml_to_json_root (Ev_Eof # rest) = Some (Inl (Internal ''empty SOAP response''))"
| "xml_to_json_root (Ev_Err e # rest) = Some (Inl (Internal (''XML parse: '' @ e)))"
| "xml_to_json_root (_ # rest) = xml_to_json_root rest"

definition extract_body_payload :: "json \<Rightarrow> json rfc_result" where
  "extract_body_payload root =
     (case Option.bind (json_get ''Body'' root) as_object of
        None \<Rightarrow> Inl (Internal ''SOAP response has no Body'')
      | Some [] \<Rightarrow> Inl (Internal ''SOAP Body is empty'')
      | Some ((k, payload) # rest) \<Rightarrow> Inr payload)"

definition extract_fault :: "json \<Rightarrow> string option" where
  "extract_fault root =
     Option.bind (Option.bind (json_get ''Body'' root) as_object) (\<lambda>body.
     Option.bind (map_of body ''Fault'') (\<lambda>fault.
       Some (case Option.bind (json_get ''faultstring'' fault) as_str of
               Some s \<Rightarrow> s | None \<Rightarrow> ''unknown SOAP fault'')))"

definition as_items :: "json option \<Rightarrow> json list" where
  "as_items v =
     (case v of Some (JArray a) \<Rightarrow> a | Some JNull \<Rightarrow> [] | None \<Rightarrow> [] | Some x \<Rightarrow> [x])"

definition field_str :: "json \<Rightarrow> string \<Rightarrow> string" where
  "field_str item key =
     trim (case Option.bind (json_get key item) as_str of Some s \<Rightarrow> s | None \<Rightarrow> [])"

definition items_of :: "json \<Rightarrow> string \<Rightarrow> json list" where
  "items_of payload key = as_items (Option.bind (json_get key payload) (json_get ''item''))"

text \<open>\<open>splitn(n, c)\<close>: at most \<open>n\<close> pieces, the last one unsplit.\<close>

fun splitn :: "nat \<Rightarrow> char \<Rightarrow> string \<Rightarrow> string list" where
  "splitn 0 c s = []"
| "splitn (Suc 0) c s = [s]"
| "splitn (Suc (Suc n)) c s =
     (case split_once c s of None \<Rightarrow> [s] | Some (a, b) \<Rightarrow> a # splitn (Suc n) c b)"

definition read_row :: "string list \<Rightarrow> string \<Rightarrow> table_row" where
  "read_row names wa =
     (let parts = splitn (length names) ROW_DELIMITER wa in
      amap_of (map (\<lambda>(i, name). (name, JString (trim_end (if i < length parts then parts ! i else []))))
        (enumerate 0 names)))"

definition parse_read_table :: "json \<Rightarrow> table_row list rfc_result" where
  "parse_read_table payload =
     (let names = filter (\<lambda>s. s \<noteq> []) (map (\<lambda>it. field_str it ''FIELDNAME'') (items_of payload ''FIELDS'')) in
      if names = [] then Inl (Internal ''RFC_READ_TABLE returned no FIELDS metadata'')
      else Inr (map (\<lambda>item. read_row names (field_str item ''WA'')) (items_of payload ''DATA'')))"

text \<open>The loop over \<open>DFIES_TAB\<close>: fields, key fields and the first non-empty table text.\<close>

fun field_info_loop ::
  "json list \<Rightarrow> table_field list \<Rightarrow> string list \<Rightarrow> string \<Rightarrow> table_field list \<times> string list \<times> string" where
  "field_info_loop [] fs ks txt = (fs, ks, txt)"
| "field_info_loop (it # rest) fs ks txt =
     (let name = field_str it ''FIELDNAME'' in
      if name = [] then field_info_loop rest fs ks txt
      else
        (let is_key = (field_str it ''KEYFLAG'' = ''X'');
             desc = field_str it ''FIELDTEXT'';
             len = (case parse_u32 (field_str it ''LENG'') of Some n \<Rightarrow> nat n | None \<Rightarrow> 0)
         in field_info_loop rest
              (fs @ [\<lparr> tf_name = name, tf_data_element = field_str it ''ROLLNAME'',
                       tf_type_token = field_str it ''DATATYPE'', tf_length = len,
                       tf_description = (if desc = [] then None else Some desc), tf_key = is_key \<rparr>])
              (if is_key then ks @ [name] else ks)
              (if txt = [] then field_str it ''DDTEXT'' else txt)))"

definition parse_field_info :: "string \<Rightarrow> json \<Rightarrow> table_structure rfc_result" where
  "parse_field_info table payload =
     (let dfies = items_of payload ''DFIES_TAB'' in
      if dfies = [] then Inl (NotFound table)
      else (case field_info_loop dfies [] [] [] of (fs, ks, txt) \<Rightarrow>
        Inr \<lparr> ts_table = table, ts_description = txt, ts_fields = fs, ts_key_fields = ks,
              ts_authorization_group = [], ts_s4hana_storage = None \<rparr>))"

text \<open>\<open>truncate\<close>: the cut moves left to a character boundary.\<close>

definition truncate :: "string \<Rightarrow> string option" where
  "truncate s =
     (if length s \<le> 300 then Some s
      else (let e = boundary_at_or_below s 300 in
            map_option (\<lambda>p. p @ ellipsis @ ''[+'' @ show_nat (length s - e) @ '' chars]'') (slice_to s e)))"

section \<open>Operations\<close>

datatype http_answer =
    Http_Timeout
  | Http_Failed string
  | Http_Body_Failed nat string string
  | Http_Response nat string string

text \<open>
  \<open>Http_Response status shown body\<close>: the status code, its display form and the body text;
  \<open>Http_Body_Failed\<close> is an answer whose body could not be read. The SOAP action header is a function
  of the function name.
\<close>

type_synonym 's http_post = "string \<Rightarrow> string \<Rightarrow> string \<Rightarrow> 's \<Rightarrow> http_answer \<times> 's"

definition soap_action :: "string \<Rightarrow> string" where
  "soap_action fn = dq (RFC_NAMESPACE @ '':'' @ fn)"

text \<open>What \<open>invoke\<close> makes of the answer; \<open>None\<close> stands for a panic in \<open>truncate\<close>.\<close>

definition soap_result ::
  "soap_rfc_config \<Rightarrow> (string \<Rightarrow> xml_event list) \<Rightarrow> string \<Rightarrow> http_answer \<Rightarrow> json rfc_result option" where
  "soap_result cfg events fn ans =
     (case ans of
        Http_Timeout \<Rightarrow> Some (Inl (Timeout (sc_timeout_ms cfg)))
      | Http_Failed reason \<Rightarrow> Some (Inl (DestinationDown (sc_base_url cfg) reason))
      | Http_Body_Failed status shown reason \<Rightarrow> Some (Inl (Internal reason))
      | Http_Response status shown body \<Rightarrow>
          if status = 401 \<or> status = 403
          then Some (Inl (AuthFailed (''SOAP RFC returned HTTP '' @ shown)))
          else
            (case xml_to_json_root (events body) of
               None \<Rightarrow> None
             | Some (Inl e) \<Rightarrow> Some (Inl e)
             | Some (Inr root) \<Rightarrow>
                 (case extract_fault root of
                    Some fault \<Rightarrow> Some (Inl (Internal (''SOAP fault: '' @ fault)))
                  | None \<Rightarrow>
                      if \<not> (200 \<le> status \<and> status < 300)
                      then map_option (\<lambda>t. Inl (Internal (''SOAP RFC '' @ fn @ '' -> HTTP '' @ shown @ '': '' @ t)))
                             (truncate body)
                      else Some (extract_body_payload root))))"

definition invoke ::
  "soap_rfc_config \<Rightarrow> (string \<Rightarrow> xml_event list) \<Rightarrow> 's http_post \<Rightarrow> string \<Rightarrow> string \<Rightarrow> 's
     \<Rightarrow> json rfc_result option \<times> 's" where
  "invoke cfg events post fn params_xml s =
     (if \<not> is_safe_name fn
      then (Some (Inl (InvalidParameter ''function'' (sq fn @ '' is not a valid RFC name''))), s)
      else (case post (endpoint cfg) (soap_action fn) (build_envelope fn params_xml) s of
              (ans, s') \<Rightarrow> (soap_result cfg events fn ans, s')))"

definition soap_get :: "json \<Rightarrow> string \<Rightarrow> string" where
  "soap_get si k = trim (case Option.bind (json_get k si) as_str of Some s \<Rightarrow> s | None \<Rightarrow> [])"

definition soap_system_info ::
  "soap_rfc_config \<Rightarrow> (string \<Rightarrow> xml_event list) \<Rightarrow> 's http_post \<Rightarrow> 's \<Rightarrow> system_info rfc_result option \<times> 's" where
  "soap_system_info cfg events post s =
     (case invoke cfg events post ''RFC_SYSTEM_INFO'' [] s of
        (None, s') \<Rightarrow> (None, s')
      | (Some (Inl e), s') \<Rightarrow> (Some (Inl e), s')
      | (Some (Inr payload), s') \<Rightarrow>
          (let si = (case json_get ''RFCSI_EXPORT'' payload of Some x \<Rightarrow> x | None \<Rightarrow> payload) in
           (Some (Inr \<lparr> si_sid = soap_get si ''RFCSYSID'', si_client = sc_client cfg,
                        si_release = soap_get si ''RFCSAPRL'', si_system_role = [],
                        si_host = soap_get si ''RFCHOST'', si_instance = [],
                        si_identity = soap_redacted cfg \<rparr>), s')))"

text \<open>The read-only gate: the error it returns, or nothing if the call may go out.\<close>

definition soap_gate :: "rfc_function_meta rfc_result \<Rightarrow> string \<Rightarrow> bool \<Rightarrow> rfc_error option" where
  "soap_gate looked_up fn read_only_mode =
     (case looked_up of
        Inr meta \<Rightarrow>
          if read_only_mode \<and> \<not> fm_read_only meta
          then Some (PermissionDenied (''function '' @ sq fn @ '' modifies state; not callable in read-only mode''))
          else None
      | Inl (NotFound _) \<Rightarrow>
          if read_only_mode
          then Some (PermissionDenied (''function '' @ sq fn @ '' is not in the curated read-only catalogue; '' @
                 ''refusing to call it in read-only mode''))
          else None
      | Inl e \<Rightarrow> Some e)"

definition soap_call_rfc ::
  "soap_rfc_config \<Rightarrow> (string \<Rightarrow> xml_event list) \<Rightarrow> 's http_post \<Rightarrow> (string \<Rightarrow> string \<Rightarrow> rfc_function_meta rfc_result)
     \<Rightarrow> rfc_call_request \<Rightarrow> bool \<Rightarrow> 's \<Rightarrow> json rfc_result option \<times> 's" where
  "soap_call_rfc cfg events post catalogue request read_only_mode s =
     (case soap_gate (catalogue (rq_function request) (sc_language cfg)) (rq_function request) read_only_mode of
        Some e \<Rightarrow> (Some (Inl e), s)
      | None \<Rightarrow>
          (case (case rq_parameters request of
                   JObject m \<Rightarrow> Inr m
                 | JNull \<Rightarrow> Inr []
                 | other \<Rightarrow> Inl (InvalidParameter ''parameters''
                     (''expected object, got '' @ json_to_string other))) of
             Inl e \<Rightarrow> (Some (Inl e), s)
           | Inr args \<Rightarrow>
               (case validate_keys (JObject args) of
                  Inl e \<Rightarrow> (Some (Inl e), s)
                | Inr _ \<Rightarrow>
                    (case invoke cfg events post (rq_function request) (write_params args) s of
                       (Some (Inr outputs), s') \<Rightarrow>
                         (Some (Inr (json_object
                            [(''function'', JString (rq_function request)),
                             (''executed_on'', JString (sc_base_url cfg)),
                             (''outputs'', outputs)])), s')
                     | (r, s') \<Rightarrow> (r, s')))))"

definition read_table_params :: "read_table_request \<Rightarrow> jmap" where
  "read_table_params rq =
     (let p0 = amap_insert ''ROWCOUNT'' (JNumber (NInt (int (rt_max_rows rq))))
            (amap_insert ''DELIMITER'' (JString [ROW_DELIMITER])
            (amap_insert ''QUERY_TABLE'' (JString (rt_table rq)) []));
          p1 = (if rt_fields rq = [] then p0
            else amap_insert ''FIELDS''
                   (JArray (map (\<lambda>f. json_object [(''FIELDNAME'', JString f)]) (rt_fields rq))) p0)
      in if rt_where_conditions rq = [] then p1
         else amap_insert ''OPTIONS''
                (JArray (map (\<lambda>w. json_object [(''TEXT'', JString w)]) (rt_where_conditions rq))) p1)"

definition soap_read_table ::
  "soap_rfc_config \<Rightarrow> (string \<Rightarrow> xml_event list) \<Rightarrow> 's http_post \<Rightarrow> read_table_request \<Rightarrow> 's
     \<Rightarrow> table_row list rfc_result option \<times> 's" where
  "soap_read_table cfg events post rq s =
     (if rt_max_rows rq = 0 then (Some (Inl (InvalidParameter ''max_rows'' ''must be >= 1'')), s)
      else if MAX_ROWS_HARD_CAP < rt_max_rows rq
        then (Some (Inl (TableBufferOverflow (rt_table rq) (rt_max_rows rq))), s)
      else
        (case List.find (\<lambda>c. 72 < length c) (rt_where_conditions rq) of
           Some c \<Rightarrow> (Some (Inl (InvalidParameter ''where_conditions''
             (''clause exceeds RFC_READ_TABLE'' @ [CHR 0x27] @ ''s 72-char limit: '' @ sq c))), s)
         | None \<Rightarrow>
             (case invoke cfg events post ''RFC_READ_TABLE'' (write_params (read_table_params rq)) s of
                (None, s') \<Rightarrow> (None, s')
              | (Some (Inl e), s') \<Rightarrow> (Some (Inl e), s')
              | (Some (Inr payload), s') \<Rightarrow> (Some (parse_read_table payload), s'))))"

definition soap_table_structure ::
  "soap_rfc_config \<Rightarrow> (string \<Rightarrow> xml_event list) \<Rightarrow> 's http_post \<Rightarrow> string \<Rightarrow> 's
     \<Rightarrow> table_structure rfc_result option \<times> 's" where
  "soap_table_structure cfg events post table s =
     (case invoke cfg events post ''DDIF_FIELDINFO_GET''
             (write_params (amap_insert ''LANGU'' (JString (sc_language cfg))
                (amap_insert ''TABNAME'' (JString table) []))) s of
        (None, s') \<Rightarrow> (None, s')
      | (Some (Inl e), s') \<Rightarrow> (Some (Inl e), s')
      | (Some (Inr payload), s') \<Rightarrow> (Some (parse_field_info table payload), s'))"

end
