(* ===== verification/Metrics.thy ===== *)
theory Metrics
  imports Prelude "HOL-Library.Multiset"
begin

text \<open>
  The metrics registry (\<open>sap-automate-observability/src/metrics.rs\<close>): counters, gauges and histograms keyed by name and
  labels, the text exposition and the snapshot. The operations of \<open>f64\<close> are a record; counts are below \<open>2 ^ 64\<close>. A
  panic is \<open>None\<close>; one that strikes with the lock of the series held for writing poisons it, and every later use
  of the series panics. Shown: a histogram counts exactly what was observed, when the registry panics, and that
  labels survive the snapshot.
\<close>

section \<open>Series\<close>

record 'v f64_ops =
  d_zero :: 'v
  d_one :: 'v
  d_add :: "'v \<Rightarrow> 'v \<Rightarrow> 'v"
  d_le :: "'v \<Rightarrow> 'v \<Rightarrow> bool"
  d_const :: "nat \<times> nat \<Rightarrow> 'v"
  d_format :: "'v \<Rightarrow> string"

text \<open>The bucket bounds in seconds, as fractions.\<close>

definition DEFAULT_BUCKETS_SECONDS :: "(nat \<times> nat) list" where
  "DEFAULT_BUCKETS_SECONDS =
     [(5, 10000), (1, 1000), (5, 1000), (10, 1000), (25, 1000), (50, 1000), (80, 1000), (100, 1000), (250, 1000),
      (500, 1000), (1, 1), (5, 1), (30, 1)]"

datatype metric_kind = Counter | Histogram | Gauge

record 'v metric_state =
  ms_kind :: metric_kind
  ms_scalar :: 'v
  ms_bounds :: "'v list"
  ms_counts :: "nat list"
  ms_sum :: 'v
  ms_count :: nat

record 'v metrics_registry =
  mr_series :: "(string, 'v metric_state) amap"
  mr_names :: "(string, metric_kind \<times> string) amap"
  mr_poisoned :: bool

definition metrics_new :: "'v metrics_registry" where
  "metrics_new = \<lparr> mr_series = [], mr_names = [], mr_poisoned = False \<rparr>"

definition backslash :: char where "backslash = CHR 0x5C"

definition quotation :: char where "quotation = CHR 0x22"

definition label_escape :: "string \<Rightarrow> string" where
  "label_escape s = replace_char (CHR 0x0A) [backslash, CHR ''n'']
     (replace_char quotation [backslash, quotation] (replace_char backslash [backslash, backslash] s))"

definition series_key :: "string \<Rightarrow> (string \<times> string) list \<Rightarrow> string" where
  "series_key name labels =
     (if labels = [] then name
      else name @ ''{'' @ join '','' (map (\<lambda>(k, v). k @ ''='' @ [quotation] @ label_escape v @ [quotation]) (sort_key fst labels)) @ ''}'')"

definition scalar_state :: "'v f64_ops \<Rightarrow> metric_kind \<Rightarrow> 'v metric_state" where
  "scalar_state D kind =
     \<lparr> ms_kind = kind, ms_scalar = d_zero D, ms_bounds = [], ms_counts = [], ms_sum = d_zero D, ms_count = 0 \<rparr>"

definition histogram_state :: "'v f64_ops \<Rightarrow> 'v metric_state" where
  "histogram_state D =
     (let bounds = map (d_const D) DEFAULT_BUCKETS_SECONDS
      in \<lparr> ms_kind = Histogram, ms_scalar = d_zero D, ms_bounds = bounds, ms_counts = replicate (length bounds + 1) 0,
           ms_sum = d_zero D, ms_count = 0 \<rparr>)"

section \<open>Recording\<close>

type_synonym 'v metrics_run = "'v metrics_registry \<Rightarrow> unit option \<times> 'v metrics_registry"

text \<open>Registering a name twice keeps the first kind and help.\<close>

definition metrics_register :: "string \<Rightarrow> metric_kind \<Rightarrow> string \<Rightarrow> 'v metrics_registry \<Rightarrow> 'v metrics_registry" where
  "metrics_register name kind help r =
     (if map_of (mr_names r) name = None then r\<lparr> mr_names := amap_insert name (kind, help) (mr_names r) \<rparr> else r)"

text \<open>The entry of a key, made if there is none, is changed under the lock.\<close>

definition with_entry :: "'v metric_state \<Rightarrow> ('v metric_state \<Rightarrow> 'v metric_state option \<times> 'v metric_state) \<Rightarrow> string \<Rightarrow> 'v metrics_run" where
  "with_entry fresh f key r =
     (if mr_poisoned r then (None, r)
      else (case f (case map_of (mr_series r) key of Some st \<Rightarrow> st | None \<Rightarrow> fresh) of
              (Some st, _) \<Rightarrow> (Some (), r\<lparr> mr_series := amap_insert key st (mr_series r) \<rparr>)
            | (None, st) \<Rightarrow> (None, r\<lparr> mr_series := amap_insert key st (mr_series r), mr_poisoned := True \<rparr>)))"

definition add_counter :: "'v f64_ops \<Rightarrow> string \<Rightarrow> (string \<times> string) list \<Rightarrow> 'v \<Rightarrow> 'v metrics_run" where
  "add_counter D name labels n = with_entry (scalar_state D Counter)
     (\<lambda>st. let st' = st\<lparr> ms_scalar := d_add D (ms_scalar st) n \<rparr> in (Some st', st')) (series_key name labels)"

definition inc_counter :: "'v f64_ops \<Rightarrow> string \<Rightarrow> (string \<times> string) list \<Rightarrow> 'v metrics_run" where
  "inc_counter D name labels = add_counter D name labels (d_one D)"

definition set_gauge :: "'v f64_ops \<Rightarrow> string \<Rightarrow> (string \<times> string) list \<Rightarrow> 'v \<Rightarrow> 'v metrics_run" where
  "set_gauge D name labels v = with_entry (scalar_state D Gauge)
     (\<lambda>st. let st' = st\<lparr> ms_scalar := v \<rparr> in (Some st', st')) (series_key name labels)"

text \<open>The first bucket whose bound is not exceeded.\<close>

fun first_bucket :: "('v \<Rightarrow> bool) \<Rightarrow> 'v list \<Rightarrow> nat option" where
  "first_bucket p [] = None"
| "first_bucket p (b # bs) = (if p b then Some 0 else map_option Suc (first_bucket p bs))"

text \<open>Every bucket from the first on is raised, or the last one; without buckets there is no last one.\<close>

definition raise_buckets :: "('v \<Rightarrow> bool) \<Rightarrow> 'v list \<Rightarrow> nat list \<Rightarrow> nat list option" where
  "raise_buckets p bounds counts =
     (case first_bucket p bounds of
        Some i \<Rightarrow> Some (take i counts @ map Suc (drop i counts))
      | None \<Rightarrow> if counts = [] then None else Some (butlast counts @ [Suc (last counts)]))"

definition observe_state :: "'v f64_ops \<Rightarrow> 'v \<Rightarrow> 'v metric_state \<Rightarrow> 'v metric_state option \<times> 'v metric_state" where
  "observe_state D v st =
     (let st' = st\<lparr> ms_sum := d_add D (ms_sum st) v, ms_count := Suc (ms_count st) \<rparr>
      in (map_option (\<lambda>cs. st'\<lparr> ms_counts := cs \<rparr>) (raise_buckets (d_le D v) (ms_bounds st) (ms_counts st)), st'))"

definition observe_histogram :: "'v f64_ops \<Rightarrow> string \<Rightarrow> (string \<times> string) list \<Rightarrow> 'v \<Rightarrow> 'v metrics_run" where
  "observe_histogram D name labels v = with_entry (histogram_state D) (observe_state D v) (series_key name labels)"

section \<open>Exposition\<close>

definition base_name :: "string \<Rightarrow> string" where
  "base_name key = takeWhile (\<lambda>c. c \<noteq> CHR ''{'') key"

text \<open>\<open>key[brace + 1 .. len - 1]\<close> for a key with a brace; \<open>None\<close> is the panic of a bad slice.\<close>

definition label_part :: "string \<Rightarrow> string option" where
  "label_part key =
     (case find_sub ''{'' key of
        None \<Rightarrow> Some []
      | Some brace \<Rightarrow>
          if brace + 1 \<le> length key - 1 \<and> is_char_boundary key (length key - 1)
          then Some (take (length key - 1 - (brace + 1)) (drop (brace + 1) key)) else None)"

fun kind_name :: "metric_kind \<Rightarrow> string" where
  "kind_name Counter = ''counter''"
| "kind_name Histogram = ''histogram''"
| "kind_name Gauge = ''gauge''"

definition line_break :: string where "line_break = [CHR 0x0A]"

definition bucket_line :: "string \<Rightarrow> string \<Rightarrow> string \<Rightarrow> nat \<Rightarrow> string" where
  "bucket_line base labels bound n =
     base @ ''_bucket{'' @ labels @ (if labels = [] then [] else '','') @ ''le='' @ [quotation] @ bound @ [quotation] @ ''} '' @ show_nat n @ line_break"

text \<open>The lines of one series; a histogram has a count for every bound, indexing past them would panic.\<close>

definition series_lines :: "'v f64_ops \<Rightarrow> string \<times> 'v metric_state \<Rightarrow> string option" where
  "series_lines D = (\<lambda>(key, st).
     if ms_kind st \<noteq> Histogram then Some (key @ '' '' @ d_format D (ms_scalar st) @ line_break)
     else (case label_part key of
             None \<Rightarrow> None
           | Some labels \<Rightarrow>
               if length (ms_counts st) < length (ms_bounds st) then None
               else Some (let base = base_name key in
                 concat (map (\<lambda>(b, n). bucket_line base labels (d_format D b) n) (zip (ms_bounds st) (ms_counts st))) @
                 bucket_line base labels ''+Inf'' (if ms_counts st = [] then 0 else last (ms_counts st)) @
                 base @ ''_sum{'' @ labels @ ''} '' @ d_format D (ms_sum st) @ line_break @
                 base @ ''_count{'' @ labels @ ''} '' @ show_nat (ms_count st) @ line_break)))"

definition group_series :: "(string \<times> 'v metric_state) list \<Rightarrow> (string, (string \<times> 'v metric_state) list) amap" where
  "group_series series = fold (\<lambda>(key, st) groups.
     amap_insert (base_name key) ((case map_of groups (base_name key) of Some es \<Rightarrow> es | None \<Rightarrow> []) @ [(key, st)]) groups) series []"

definition group_lines :: "'v f64_ops \<Rightarrow> (string, metric_kind \<times> string) amap \<Rightarrow> string \<times> (string \<times> 'v metric_state) list \<Rightarrow> string option" where
  "group_lines D names = (\<lambda>(name, es).
     map_option (\<lambda>ls. (case map_of names name of
         Some (kind, help) \<Rightarrow> ''# HELP '' @ name @ '' '' @ help @ line_break @ ''# TYPE '' @ name @ '' '' @ kind_name kind @ line_break
       | None \<Rightarrow> []) @ concat ls) (those (map (series_lines D) es)))"

definition metrics_render :: "'v f64_ops \<Rightarrow> 'v metrics_registry \<Rightarrow> string option" where
  "metrics_render D r =
     (if mr_poisoned r then None
      else map_option concat (those (map (group_lines D (mr_names r)) (group_series (mr_series r)))))"

definition parse_labels :: "string \<Rightarrow> (string, string) amap option" where
  "parse_labels key =
     (if find_sub ''{'' key = None then Some []
      else map_option (\<lambda>inner. fold (\<lambda>pair out. case split_once (CHR ''='') pair of
             Some (k, v) \<Rightarrow> amap_insert k (trim_matches quotation v) out | None \<Rightarrow> out) (split_on (CHR '','') inner) [])
           (label_part key))"

record 'v series_point =
  sp_name :: string
  sp_labels :: "(string, string) amap"
  sp_value :: 'v
  sp_histogram :: "('v list \<times> nat list \<times> 'v \<times> nat) option"

definition series_point_of :: "string \<times> 'v metric_state \<Rightarrow> 'v series_point option" where
  "series_point_of = (\<lambda>(key, st). map_option (\<lambda>labels.
     \<lparr> sp_name = base_name key, sp_labels = labels, sp_value = ms_scalar st,
       sp_histogram = (if ms_kind st = Histogram then Some (ms_bounds st, ms_counts st, ms_sum st, ms_count st) else None) \<rparr>)
     (parse_labels key))"

definition metrics_snapshot :: "'v metrics_registry \<Rightarrow> ((string \<times> metric_kind \<times> string) list \<times> 'v series_point list) option" where
  "metrics_snapshot r =
     (if mr_poisoned r then None
      else map_option (\<lambda>ps. (mr_names r, ps)) (those (map series_point_of (mr_series r))))"


section \<open>What a registry holds\<close>

text \<open>The uses of a registry that record something, in the order they take the lock.\<close>

datatype 'v metrics_op =
    Add_Counter string "(string \<times> string) list" 'v
  | Set_Gauge string "(string \<times> string) list" 'v
  | Observe string "(string \<times> string) list" 'v

fun metrics_step :: "'v f64_ops \<Rightarrow> 'v metrics_op \<Rightarrow> 'v metrics_run" where
  "metrics_step D (Add_Counter name labels n) = add_counter D name labels n"
| "metrics_step D (Set_Gauge name labels v) = set_gauge D name labels v"
| "metrics_step D (Observe name labels v) = observe_histogram D name labels v"

primrec metrics_session :: "'v f64_ops \<Rightarrow> 'v metrics_op list \<Rightarrow> 'v metrics_registry \<Rightarrow> 'v metrics_registry" where
  "metrics_session D [] r = r"
| "metrics_session D (op # ops) r = metrics_session D ops (snd (metrics_step D op r))"

text \<open>
  The reference: what a series holds is computed from all the uses of its key at once. The first use fixes the kind.
\<close>

fun op_key :: "'v metrics_op \<Rightarrow> string" where
  "op_key (Add_Counter name labels _) = series_key name labels"
| "op_key (Set_Gauge name labels _) = series_key name labels"
| "op_key (Observe name labels _) = series_key name labels"

fun op_kind :: "'v metrics_op \<Rightarrow> metric_kind" where
  "op_kind (Add_Counter _ _ _) = Counter"
| "op_kind (Set_Gauge _ _ _) = Gauge"
| "op_kind (Observe _ _ _) = Histogram"

fun scalar_effect :: "'v f64_ops \<Rightarrow> 'v metrics_op \<Rightarrow> 'v \<Rightarrow> 'v" where
  "scalar_effect D (Add_Counter _ _ n) x = d_add D x n"
| "scalar_effect D (Set_Gauge _ _ v) x = v"
| "scalar_effect D (Observe _ _ _) x = x"

fun observed :: "'v metrics_op list \<Rightarrow> 'v list" where
  "observed [] = []"
| "observed (Observe _ _ v # ops) = v # observed ops"
| "observed (_ # ops) = observed ops"

definition key_history :: "string \<Rightarrow> 'v metrics_op list \<Rightarrow> 'v metrics_op list" where
  "key_history key ops = filter (\<lambda>op. op_key op = key) ops"

definition bucket_bounds :: "'v f64_ops \<Rightarrow> 'v list" where
  "bucket_bounds D = map (d_const D) DEFAULT_BUCKETS_SECONDS"

definition histogram_counts :: "'v f64_ops \<Rightarrow> 'v list \<Rightarrow> nat list" where
  "histogram_counts D vs = map (\<lambda>b. length (filter (\<lambda>v. d_le D v b) vs)) (bucket_bounds D) @ [length vs]"

definition expected_state :: "'v f64_ops \<Rightarrow> 'v metrics_op list \<Rightarrow> 'v metric_state" where
  "expected_state D h =
     \<lparr> ms_kind = op_kind (hd h), ms_scalar = fold (scalar_effect D) h (d_zero D),
       ms_bounds = (if op_kind (hd h) = Histogram then bucket_bounds D else []),
       ms_counts = (if op_kind (hd h) = Histogram then histogram_counts D (observed h) else []),
       ms_sum = fold (\<lambda>v s. d_add D s v) (observed h) (d_zero D), ms_count = length (observed h) \<rparr>"

text \<open>A key used as a counter or gauge first and observed later.\<close>

definition misused :: "'v metrics_op list \<Rightarrow> bool" where
  "misused h \<longleftrightarrow> h \<noteq> [] \<and> op_kind (hd h) \<noteq> Histogram \<and> observed h \<noteq> []"

text \<open>What holds of \<open>f64\<close>, not-a-number included: the comparison is transitive, and the bounds ascend.\<close>

definition f64_law :: "'v f64_ops \<Rightarrow> bool" where
  "f64_law D \<longleftrightarrow> (\<forall>x y z. d_le D x y \<longrightarrow> d_le D y z \<longrightarrow> d_le D x z) \<and> sorted_wrt (d_le D) (bucket_bounds D)"

lemma session_snoc [simp]: "metrics_session D (ops @ [op]) r = snd (metrics_step D op (metrics_session D ops r))"
  by (induction ops arbitrary: r) simp_all

lemma observed_append [simp]: "observed (h @ h') = observed h @ observed h'"
  by (induction h rule: observed.induct) simp_all

lemma key_history_snoc: "key_history key (ops @ [op]) = key_history key ops @ (if op_key op = key then [op] else [])"
  by (simp add: key_history_def)

lemma first_bucket_None: "first_bucket p bs = None \<longleftrightarrow> list_all (\<lambda>b. \<not> p b) bs"
  by (induction bs) auto

lemma first_bucket_Some:
  "first_bucket p bs = Some i \<Longrightarrow> i < length bs \<and> p (bs ! i) \<and> (\<forall>j < i. \<not> p (bs ! j))"
proof (induction bs arbitrary: i)
  case (Cons b bs)
  show ?case
  proof (cases "p b")
    case True
    with Cons.prems show ?thesis by simp
  next
    case False
    with Cons.prems obtain k where "first_bucket p bs = Some k" "i = Suc k" by auto
    with Cons.IH [of k] False show ?thesis by (auto simp: nth_Cons split: nat.splits)
  qed
qed simp

lemma raise_buckets_histogram:
  assumes "f64_law D"
  shows "raise_buckets (d_le D v) (bucket_bounds D) (histogram_counts D vs) = Some (histogram_counts D (vs @ [v]))"
proof (cases "first_bucket (d_le D v) (bucket_bounds D)")
  case None
  then have "list_all (\<lambda>b. \<not> d_le D v b) (bucket_bounds D)" by (simp add: first_bucket_None)
  with None show ?thesis by (auto simp: raise_buckets_def histogram_counts_def list_all_iff)
next
  case (Some i)
  let ?bs = "bucket_bounds D"
  from Some have i: "i < length ?bs" "d_le D v (?bs ! i)" "\<forall>j < i. \<not> d_le D v (?bs ! j)"
    by (auto dest: first_bucket_Some)
  have within: "d_le D v (?bs ! j) \<longleftrightarrow> i \<le> j" if "j < length ?bs" for j
  proof -
    have "d_le D (?bs ! i) (?bs ! j)" if "i < j"
      using assms that \<open>j < length ?bs\<close> by (auto simp: f64_law_def sorted_wrt_iff_nth_less)
    with i assms show ?thesis by (metis f64_law_def le_neq_implies_less not_le)
  qed
  have "take i (histogram_counts D vs) @ map Suc (drop i (histogram_counts D vs)) = histogram_counts D (vs @ [v])"
    using i(1) within by (intro nth_equalityI) (auto simp: histogram_counts_def nth_append less_Suc_eq_le)
  with Some show ?thesis by (simp add: raise_buckets_def)
qed

lemma observe_expected:
  assumes "f64_law D" "h \<noteq> []" "op_kind (hd h) = Histogram"
  shows "observe_state D v (expected_state D h) =
    (Some (expected_state D (h @ [Observe name labels v])), expected_state D h\<lparr> ms_sum := d_add D (ms_sum (expected_state D h)) v, ms_count := Suc (length (observed h)) \<rparr>)"
  using assms by (simp add: observe_state_def expected_state_def raise_buckets_histogram)


definition entry_of :: "'v f64_ops \<Rightarrow> 'v metrics_op list \<Rightarrow> 'v metric_state option" where
  "entry_of D h = (if h = [] then None else Some (expected_state D h))"

definition registry_ok :: "'v f64_ops \<Rightarrow> 'v metrics_op list \<Rightarrow> 'v metrics_registry \<Rightarrow> bool" where
  "registry_ok D ops r \<longleftrightarrow>
     amap_wf (mr_series r) \<and>
     (mr_poisoned r \<longleftrightarrow> (\<exists>key. misused (key_history key ops))) \<and>
     (\<not> mr_poisoned r \<longrightarrow> map_of (mr_series r) = (\<lambda>key. entry_of D (key_history key ops)))"

definition fresh_entry :: "'v f64_ops \<Rightarrow> 'v metrics_op \<Rightarrow> 'v metric_state" where
  "fresh_entry D op = (if op_kind op = Histogram then histogram_state D else scalar_state D (op_kind op))"

fun entry_change :: "'v f64_ops \<Rightarrow> 'v metrics_op \<Rightarrow> 'v metric_state \<Rightarrow> 'v metric_state option \<times> 'v metric_state" where
  "entry_change D (Observe _ _ v) st = observe_state D v st"
| "entry_change D op st = (let st' = st\<lparr> ms_scalar := scalar_effect D op (ms_scalar st) \<rparr> in (Some st', st'))"

lemma step_as_entry: "metrics_step D op = with_entry (fresh_entry D op) (entry_change D op) (op_key op)"
proof -
  have "entry_change D (Observe name labels v) = observe_state D v"
    "entry_change D (Add_Counter name labels v) = (\<lambda>st. let st' = st\<lparr> ms_scalar := d_add D (ms_scalar st) v \<rparr> in (Some st', st'))"
    "entry_change D (Set_Gauge name labels v) = (\<lambda>st. let st' = st\<lparr> ms_scalar := v \<rparr> in (Some st', st'))"
    for name labels v by (simp_all add: fun_eq_iff)
  then show ?thesis by (cases op) (simp_all add: add_counter_def set_gauge_def observe_histogram_def fresh_entry_def)
qed

lemma misused_snoc: "misused h \<Longrightarrow> misused (h @ [op])"
  by (auto simp: misused_def)

lemma histogram_counts_Nil: "histogram_counts D [] = replicate (length (bucket_bounds D) + 1) 0"
  by (simp add: histogram_counts_def replicate_append_same map_replicate_const)

lemma first_entry:
  assumes "f64_law D"
  shows "fst (entry_change D op (fresh_entry D op)) = Some (expected_state D [op])"
proof (cases op)
  case (Observe name labels v)
  have "raise_buckets (d_le D v) (bucket_bounds D) (replicate (length (bucket_bounds D) + 1) 0) = Some (histogram_counts D [v])"
    using raise_buckets_histogram [OF assms, of v "[]"] by (simp add: histogram_counts_Nil)
  with Observe show ?thesis
    by (simp add: fresh_entry_def histogram_state_def Let_def observe_state_def expected_state_def flip: bucket_bounds_def)
qed (simp_all add: fresh_entry_def scalar_state_def expected_state_def Let_def)

lemma next_entry:
  assumes "f64_law D" "h \<noteq> []" "\<not> misused h"
  shows "fst (entry_change D op (expected_state D h)) = (if misused (h @ [op]) then None else Some (expected_state D (h @ [op])))"
proof (cases op)
  case (Observe name labels v)
  show ?thesis
  proof (cases "op_kind (hd h) = Histogram")
    case True
    with assms Observe show ?thesis by (simp add: observe_expected [where name = name and labels = labels] misused_def)
  next
    case False
    with assms Observe show ?thesis
      by (simp add: observe_state_def expected_state_def raise_buckets_def misused_def)
  qed
qed (use assms in \<open>simp_all add: expected_state_def misused_def Let_def\<close>)

lemma entry_changed:
  assumes "f64_law D" "\<not> misused h"
  shows "fst (entry_change D op (case entry_of D h of Some st \<Rightarrow> st | None \<Rightarrow> fresh_entry D op)) =
    (if misused (h @ [op]) then None else entry_of D (h @ [op]))"
proof (cases "h = []")
  case True
  moreover have "\<not> misused [op]" by (cases op) (simp_all add: misused_def)
  ultimately show ?thesis using first_entry [OF assms(1), of op] by (simp add: entry_of_def)
next
  case False
  with next_entry [OF assms(1) _ assms(2), of op] show ?thesis by (simp add: entry_of_def)
qed

lemma registry_ok_step:
  assumes "f64_law D" "registry_ok D ops r"
  shows "registry_ok D (ops @ [op]) (snd (metrics_step D op r))"
proof (cases "mr_poisoned r")
  case True
  then have "snd (metrics_step D op r) = r" by (simp add: step_as_entry with_entry_def)
  moreover have "\<exists>key. misused (key_history key (ops @ [op]))"
    using True assms(2) by (auto simp: registry_ok_def key_history_snoc intro: misused_snoc)
  ultimately show ?thesis using True assms(2) by (simp add: registry_ok_def)
next
  case False
  let ?h = "key_history (op_key op) ops"
  let ?st = "case map_of (mr_series r) (op_key op) of Some st \<Rightarrow> st | None \<Rightarrow> fresh_entry D op"
  from False assms(2) have clean: "\<not> misused (key_history key ops)"
    and series: "map_of (mr_series r) key = entry_of D (key_history key ops)" for key
    by (auto simp: registry_ok_def)
  have wf: "amap_wf (mr_series r)" using assms(2) by (simp add: registry_ok_def)
  have misuse: "(\<exists>key. misused (key_history key (ops @ [op]))) \<longleftrightarrow> misused (?h @ [op])"
    using clean by (auto simp: key_history_snoc split: if_splits)
  have "fst (entry_change D op ?st) = (if misused (?h @ [op]) then None else entry_of D (?h @ [op]))"
    unfolding series by (rule entry_changed [OF assms(1) clean])
  moreover obtain o' st' where "entry_change D op ?st = (o', st')" by (cases "entry_change D op ?st")
  ultimately show ?thesis
    using False series misuse wf
    by (auto simp: step_as_entry with_entry_def registry_ok_def entry_of_def key_history_snoc fun_eq_iff split: if_splits)
qed

lemma registry_ok_new: "registry_ok D [] metrics_new"
  by (simp add: registry_ok_def metrics_new_def entry_of_def key_history_def misused_def fun_eq_iff)

lemma registry_ok_session: "f64_law D \<Longrightarrow> registry_ok D ops (metrics_session D ops metrics_new)"
  by (induction ops rule: rev_induct) (simp_all add: registry_ok_new registry_ok_step)


section \<open>Labels\<close>

definition label_ok :: "string \<times> string \<Rightarrow> bool" where
  "label_ok = (\<lambda>(k, v). CHR ''='' \<notin> set k \<and> CHR '','' \<notin> set k \<union> set v \<and>
     quotation \<notin> set v \<and> backslash \<notin> set v \<and> CHR 0x0A \<notin> set v)"

definition label_text :: "string \<times> string \<Rightarrow> string" where
  "label_text = (\<lambda>(k, v). k @ ''='' @ [quotation] @ label_escape v @ [quotation])"

lemma replace_char_id: "c \<notin> set s \<Longrightarrow> replace_char c r s = s"
  by (induction s) (auto simp: replace_char_def)

lemma label_text_ok: "label_ok (k, v) \<Longrightarrow> label_text (k, v) = k @ CHR ''='' # quotation # v @ [quotation]"
  by (simp add: label_ok_def label_text_def label_escape_def replace_char_id)

lemma trim_quoted: "quotation \<notin> set v \<Longrightarrow> trim_matches quotation (quotation # v @ [quotation]) = v"
proof (cases "v = []")
  case False
  assume "quotation \<notin> set v"
  with False have "hd v \<noteq> quotation" "last v \<noteq> quotation" by (metis hd_in_set, metis last_in_set)
  with False have "dropWhile (\<lambda>x. x = quotation) (v @ [quotation]) = v @ [quotation]"
    "dropWhile (\<lambda>x. x = quotation) (rev v) = rev v"
    by (auto intro!: dropWhile_hd simp: hd_append hd_rev)
  then show ?thesis by (simp add: trim_matches_def trim_start_matches_def trim_end_matches_def)
qed (simp add: trim_matches_def trim_start_matches_def trim_end_matches_def)

lemma find_char: "c \<notin> set a \<Longrightarrow> find_sub [c] (a @ c # b) = Some (length a)"
  by (induction a) auto

lemma label_part_braced:
  assumes "CHR ''{'' \<notin> set name"
  shows "label_part (name @ CHR ''{'' # inner @ ''}'') = Some inner"
  using assms find_char [of "CHR ''{''" name "inner @ ''}''"]
  by (simp add: label_part_def is_char_boundary_def nth_append)

lemma parse_label_fold:
  "list_all label_ok ls \<Longrightarrow>
   fold (\<lambda>pair out. case split_once (CHR ''='') pair of
      Some (k, v) \<Rightarrow> amap_insert k (trim_matches quotation v) out | None \<Rightarrow> out) (map label_text ls) m =
   fold (\<lambda>(k, v) out. amap_insert k v out) ls m"
proof (induction ls arbitrary: m)
  case (Cons l ls)
  obtain k v where "l = (k, v)" by (cases l)
  with Cons show ?case
    by (simp add: label_text_ok split_once_append trim_quoted label_ok_def)
qed simp

lemma series_key_labels: "labels \<noteq> [] \<Longrightarrow> series_key name labels = name @ CHR ''{'' # join '','' (map label_text (sort_key fst labels)) @ ''}''"
  by (simp add: series_key_def label_text_def)

lemma parse_series_key:
  assumes "labels \<noteq> []" "CHR ''{'' \<notin> set name" "list_all label_ok labels"
  shows "parse_labels (series_key name labels) = Some (amap_of (sort_key fst labels))"
proof -
  let ?ls = "sort_key fst labels"
  let ?inner = "join '','' (map label_text ?ls)"
  have ok: "list_all label_ok ?ls" using assms(3) by (simp add: list_all_iff)
  have "?ls \<noteq> []" using assms(1) by (metis length_0_conv length_sort)
  moreover have "list_all (\<lambda>l. CHR '','' \<notin> set l) (map label_text ?ls)"
    using ok by (auto simp: list_all_iff label_text_ok label_ok_def quotation_def)
  ultimately have "split_on (CHR '','') ?inner = map label_text ?ls"
    by (simp add: split_on_join)
  moreover have "find_sub ''{'' (series_key name labels) \<noteq> None"
    using assms(1,2) find_char [of "CHR ''{''" name "?inner @ ''}''"] by (simp add: series_key_labels)
  moreover have "label_part (series_key name labels) = Some ?inner"
    using assms(1,2) label_part_braced by (simp add: series_key_labels)
  ultimately show ?thesis
    using ok by (auto simp: parse_labels_def parse_label_fold amap_of_def)
qed


lemma filter_key: "distinct (map fst ls) \<Longrightarrow> l \<in> set ls \<Longrightarrow> filter (\<lambda>x. fst l = fst x) ls = [l]"
  by (induction ls) (auto simp: filter_empty_conv)

lemma key_independent_of_order:
  assumes "mset labels = mset labels'" "distinct (map fst labels)"
  shows "series_key name labels = series_key name labels'"
proof -
  have keys: "distinct (map fst labels')" using assms by (metis mset_eq_imp_distinct_iff mset_map)
  have "filter (\<lambda>x. fst l = fst x) (sort_key fst labels') = filter (\<lambda>x. fst l = fst x) labels" if "l \<in> set labels" for l
  proof -
    have "l \<in> set labels'" using assms(1) that by (metis set_mset_mset)
    with keys have "filter (\<lambda>x. fst l = fst x) (sort_key fst labels') = [l]"
      by (intro filter_key) (simp_all add: distinct_map)
    with assms(2) that show ?thesis by (simp add: filter_key)
  qed
  then have "sort_key fst labels = sort_key fst labels'"
    using assms(1) set_mset_mset [of labels] set_mset_mset [of labels'] by (intro properties_for_sort_key) auto
  moreover have "labels = [] \<longleftrightarrow> labels' = []" using assms(1) by auto
  ultimately show ?thesis by (simp add: series_key_def)
qed

text \<open>A label value is not kept by the snapshot when it holds a comma, and escaped quotes are not read back.\<close>

lemma snapshot_cuts_values:
  "parse_labels (series_key ''calls'' [(''tool'', ''a,b'')]) = Some [(''tool'', ''a'')]"
  "parse_labels (series_key ''calls'' [(''who'', [quotation, CHR ''x'', quotation])]) =
     Some [(''who'', [backslash, quotation, CHR ''x'', backslash])]"
  by code_simp+

section \<open>Properties\<close>

text \<open>Bounds and observations in tenths of a millisecond.\<close>

definition tick_ops :: "int f64_ops" where
  "tick_ops =
     \<lparr> d_zero = 0, d_one = 10000, d_add = (+), d_le = (\<le>), d_const = (\<lambda>(a, b). int (a * 10000 div b)),
       d_format = (\<lambda>x. show_nat (nat x)) \<rparr>"

lemma tick_law: "f64_law tick_ops"
  by (simp add: f64_law_def tick_ops_def bucket_bounds_def DEFAULT_BUCKETS_SECONDS_def)

definition latency_ops :: "int metrics_op list" where
  "latency_ops =
     [Observe ''latency'' [(''tool'', ''search'')] 3, Add_Counter ''calls'' [] 1, Observe ''latency'' [(''tool'', ''search'')] 700,
      Observe ''latency'' [(''tool'', ''search'')] 2000, Add_Counter ''calls'' [] 1]"

text \<open>
  C37. A metrics registry holds, after any uses, exactly what the uses of each key recorded: the kind of the first one,
  the counter or gauge value, and for a histogram in every bucket the number of observations that do not exceed its
  bound, in the last one all of them. Its lock is poisoned, and rendering and snapshots panic for ever, just when some key
  was a counter or gauge first and observed later.
\<close>

theorem metrics_state_exact:
  assumes "f64_law D"
  shows "let r = metrics_session D ops metrics_new in
    (mr_poisoned r \<longleftrightarrow> list_ex (\<lambda>op. misused (key_history (op_key op) ops)) ops) \<and>
    (if mr_poisoned r then metrics_render D r = None \<and> metrics_snapshot r = None
     else map_of (mr_series r) = (\<lambda>key. entry_of D (key_history key ops)))"
proof -
  define r where "r = metrics_session D ops metrics_new"
  have ok: "registry_ok D ops r" unfolding r_def using assms by (rule registry_ok_session)
  have "misused (key_history key ops) \<Longrightarrow> \<exists>op \<in> set ops. op_key op = key" for key
    by (cases "key_history key ops") (auto simp: misused_def key_history_def filter_eq_Cons_iff)
  then have "(\<exists>key. misused (key_history key ops)) \<longleftrightarrow> list_ex (\<lambda>op. misused (key_history (op_key op) ops)) ops"
    by (auto simp: list_ex_iff)
  with ok show ?thesis
    unfolding r_def [symmetric] by (simp add: registry_ok_def metrics_render_def metrics_snapshot_def)
qed

theorem metrics_state_exact_witness:
  "let r = metrics_session tick_ops latency_ops metrics_new; key = series_key ''latency'' [(''tool'', ''search'')] in
   \<not> mr_poisoned r \<and> map_option ms_counts (map_of (mr_series r) key) = Some [1, 1, 1, 1, 1, 1, 2, 2, 3, 3, 3, 3, 3, 3]"
proof -
  let ?key = "series_key ''latency'' [(''tool'', ''search'')]"
  have keys: "?key \<noteq> ''calls''" "series_key name [] = name" for name by (simp_all add: series_key_def)
  have "key_history ?key latency_ops = [Observe ''latency'' [(''tool'', ''search'')] 3, Observe ''latency'' [(''tool'', ''search'')] 700,
      Observe ''latency'' [(''tool'', ''search'')] 2000]"
    "key_history ''calls'' latency_ops = [Add_Counter ''calls'' [] 1, Add_Counter ''calls'' [] 1]"
    using keys by (simp_all add: key_history_def latency_ops_def)
  then have "\<not> list_ex (\<lambda>op. misused (key_history (op_key op) latency_ops)) latency_ops"
    "map_option ms_counts (entry_of tick_ops (key_history ?key latency_ops)) = Some [1, 1, 1, 1, 1, 1, 2, 2, 3, 3, 3, 3, 3, 3]"
    using keys by (simp_all add: misused_def latency_ops_def entry_of_def expected_state_def histogram_counts_def bucket_bounds_def
      DEFAULT_BUCKETS_SECONDS_def tick_ops_def)
  with metrics_state_exact [OF tick_law, of latency_ops] show ?thesis by (simp add: Let_def)
qed

end
