(* ===== verification/Server_Main.thy ===== *)
theory Server_Main
  imports Seed_Corpus Credentials Soap Metrics
begin

text \<open>
  The start of the server (\<open>main\<close>, \<open>build_adt_client\<close>, \<open>load_agents_md\<close> and \<open>dirs_config_path\<close> of
  \<open>apps/sap-automate-server/src/main.rs\<close>): from the command line, the environment and the files, which mode, which
  backends and which transport are used, or why the server does not start. Running the server follows the plan made
  here. The command line parser, the TOML reader, the parser of socket addresses and the construction of HTTP clients
  are parameters. Shown: when writes are enabled, when a backend is live, and what the audit log calls the system.
\<close>

section \<open>The command line\<close>

record server_cli =
  cli_enable_writes :: bool
  cli_pool_size :: nat
  cli_agents_md :: "string option"
  cli_embedding_dim :: nat
  cli_adt_destination :: "string option"
  cli_destination :: "string option"
  cli_transport :: string
  cli_bind :: string
  cli_bearer_token :: "string option"
  cli_allowed_origins :: "string list"
  cli_metadata_cache_ttl_secs :: nat

text \<open>No arguments.\<close>

definition cli_default :: server_cli where
  "cli_default =
     \<lparr> cli_enable_writes = False, cli_pool_size = 8, cli_agents_md = None, cli_embedding_dim = 256, cli_adt_destination = None,
       cli_destination = None, cli_transport = ''stdio'', cli_bind = ''127.0.0.1:3030'', cli_bearer_token = None,
       cli_allowed_origins = [], cli_metadata_cache_ttl_secs = 300 \<rparr>"

record 'f start_env =
  st_float :: "'f f32_ops"
  st_alnum :: "string \<Rightarrow> bool"
  st_lower :: "string \<Rightarrow> string"
  st_hash32 :: "string \<Rightarrow> nat"
  st_hash :: "string \<Rightarrow> string"
  st_env :: "string \<Rightarrow> string option"
  st_files :: file_system
  st_toml :: "string \<Rightarrow> adt_destination option"
  st_pem_error :: "string \<Rightarrow> string option"
  st_build_error :: "string option"
  st_bind :: "string \<Rightarrow> (string, string) result"

definition server_read_only :: "server_cli \<Rightarrow> (string \<Rightarrow> string option) \<Rightarrow> bool" where
  "server_read_only cli env \<longleftrightarrow> \<not> cli_enable_writes cli \<and> env ''SAP_AUTOMATE_ENABLE_WRITES'' \<noteq> Some ''1''"

section \<open>Backends\<close>

definition demo_credentials :: credentials where
  "demo_credentials =
     \<lparr> cr_ashost = ''mock.sap.example'', cr_sysnr = ''00'', cr_client = ''100'', cr_user = ''DEMO'', cr_password = ''redacted'',
       cr_language = ''EN'', cr_saprouter = None, cr_source = Source_Static \<rparr>"

text \<open>The environment first, then the static fallback; \<open>None\<close> is a panic.\<close>

definition resolve_credentials :: "(string \<Rightarrow> string option) \<Rightarrow> (string, credentials) result option" where
  "resolve_credentials env =
     (case fst (layered_fetch (layered_add (layered_add [] (\<lambda>s. (env_fetch env, s))) (static_fetch demo_credentials)) ()) of
        None \<Rightarrow> None
      | Some (Inl e) \<Rightarrow> Some (Inl (''credential resolution failed: '' @ rfc_error_display e))
      | Some (Inr None) \<Rightarrow> Some (Inl ''no credentials available'')
      | Some (Inr (Some c)) \<Rightarrow> Some (Inr c))"

datatype rfc_backend = Offline_Rfc | Soap_Rfc soap_rfc_config

definition choose_rfc :: "'f start_env \<Rightarrow> (string, rfc_backend) result" where
  "choose_rfc E =
     (case soap_config_from_env (st_env E) of
        Some cfg \<Rightarrow>
          (case st_build_error E of
             Some e \<Rightarrow> Inl (''SOAP RFC client init failed: '' @ rfc_error_display (Internal (''reqwest: '' @ e)))
           | None \<Rightarrow> Inr (Soap_Rfc cfg))
      | None \<Rightarrow> Inr Offline_Rfc)"

datatype adt_backend = Offline_Adt adt_destination | Http_Adt adt_http

definition wanted_destination :: "server_cli \<Rightarrow> (string \<Rightarrow> string option) \<Rightarrow> string option" where
  "wanted_destination cli env =
     (case (case cli_destination cli of Some d \<Rightarrow> Some d | None \<Rightarrow> env ''SAP_AUTOMATE_DESTINATION'') of
        Some d \<Rightarrow> if d = [] then None else Some d
      | None \<Rightarrow> None)"

definition build_adt_client :: "'f start_env \<Rightarrow> server_cli \<Rightarrow> (string, adt_backend) result" where
  "build_adt_client E cli =
     (case wanted_destination cli (st_env E) of
        None \<Rightarrow> Inr (Offline_Adt (destination_mock (case cli_adt_destination cli of Some l \<Rightarrow> l | None \<Rightarrow> ''default'')))
      | Some name \<Rightarrow>
          (case load_destination (st_files E) (st_env E) (st_toml E) name of
             Inl e \<Rightarrow> Inl (''ADT destination '' @ sq name @ '' could not be loaded: '' @ adt_error_display e)
           | Inr dest \<Rightarrow>
               if ad_auth dest = Auth_Mock then Inr (Offline_Adt dest)
               else (case http_adt_new (st_files E) (st_pem_error E) (st_build_error E) dest of
                       Inl e \<Rightarrow> Inl (''HttpAdtClient init failed: '' @ adt_error_display e)
                     | Inr client \<Rightarrow> Inr (Http_Adt client))))"

text \<open>A client that cannot be made disables the partner tools, it does not stop the server.\<close>

definition choose_business_hub :: "'f start_env \<Rightarrow> odata_client option" where
  "choose_business_hub E =
     (case odata_from_env (st_build_error E) (st_env E) of Some (Inr c) \<Rightarrow> Some c | _ \<Rightarrow> None)"

section \<open>Files\<close>

definition dirs_config_path :: "(string \<Rightarrow> string option) \<Rightarrow> string \<Rightarrow> string" where
  "dirs_config_path env sfx =
     (case env ''HOME'' of Some home \<Rightarrow> path_join (path_join home ''.config'') sfx | None \<Rightarrow> sfx)"

definition skill_paths :: "(string \<Rightarrow> string option) \<Rightarrow> string list" where
  "skill_paths env = [''./skills'', ''./.sap-automate/skills'', dirs_config_path env ''sap-automate/skills'']"

fun first_readable :: "file_system \<Rightarrow> string list \<Rightarrow> string option" where
  "first_readable fs [] = None"
| "first_readable fs (p # ps) = (case fs_read fs p of Inr content \<Rightarrow> Some content | Inl _ \<Rightarrow> first_readable fs ps)"

definition load_agents_md :: "file_system \<Rightarrow> string option \<Rightarrow> string option" where
  "load_agents_md fs explicit_path =
     first_readable fs (case explicit_path of Some p \<Rightarrow> [p] | None \<Rightarrow> [''AGENTS.md'', ''.sap-automate/AGENTS.md''])"

section \<open>The plan\<close>

text \<open>The system as the audit log names it.\<close>

definition audit_system :: "(string \<Rightarrow> string option) \<Rightarrow> credentials \<Rightarrow> string" where
  "audit_system env creds =
     (let host = (case (case env ''SAP_RFC_HTTP_URL'' of Some u \<Rightarrow> Some u | None \<Rightarrow> env ''SAP_ODATA_BASE_URL'') of
         Some u \<Rightarrow> if u = [] then cr_ashost creds else u
       | None \<Rightarrow> cr_ashost creds)
      in host @ ''/'' @ cr_client creds)"

datatype server_transport = Serve_Stdio | Serve_Http string "string option" "string list"

definition choose_transport :: "'f start_env \<Rightarrow> server_cli \<Rightarrow> (string, server_transport) result" where
  "choose_transport E cli =
     (if cli_transport cli = ''stdio'' then Inr Serve_Stdio
      else if cli_transport cli = ''http''
      then (case st_bind E (cli_bind cli) of
              Inl e \<Rightarrow> Inl (''invalid --bind '' @ sq (cli_bind cli) @ '': '' @ e)
            | Inr addr \<Rightarrow> Inr (Serve_Http addr (cli_bearer_token cli) (cli_allowed_origins cli)))
      else Inl (''unknown --transport '' @ sq (cli_transport cli) @ '' (expected: stdio | http)''))"

text \<open>The metrics of the HTTP transport; the paragraph sign is two bytes.\<close>

definition gate_help :: string where
  "gate_help = ''(paper '' @ [CHR 0xC2, CHR 0xA7] @ ''X-D gate at 0.080s)''"

definition server_metrics :: "(string \<times> metric_kind \<times> string) list" where
  "server_metrics =
     [(''mcp_tool_latency_seconds'', Histogram, ''Per-tool call latency in seconds '' @ gate_help),
      (''mcp_tool_calls_total'', Counter, ''Total MCP tool invocations''),
      (''mcp_tool_errors_total'', Counter, ''Total MCP tool invocations that returned isError=true''),
      (''rag_retrieval_latency_seconds'', Histogram, ''RAG retrieval latency '' @ gate_help),
      (''kb_chunks_total'', Gauge, ''Total chunks currently indexed''),
      (''sap_pool_in_use'', Gauge, ''SAP connection pool slots currently in use''),
      (''sap_authz_denied_total'', Counter, ''Calls denied by the read-only safety gate''),
      (''sap_rfc_calls_total'', Counter, ''RFC calls dispatched to SAP, grouped by function and outcome'')]"

record 'f server_plan =
  sp_store :: "'f in_memory_kb"
  sp_read_only :: bool
  sp_credentials :: credentials
  sp_rfc :: rfc_backend
  sp_cache_ttl_secs :: nat
  sp_adt :: adt_backend
  sp_business_hub :: "odata_client option"
  sp_agents_md :: "string option"
  sp_instructions :: string
  sp_sap_system :: string
  sp_transport :: server_transport

definition registered_metrics :: "'v metrics_registry" where
  "registered_metrics = fold (\<lambda>(name, kind, help). metrics_register name kind help) server_metrics metrics_new"

definition start_store :: "'f start_env \<Rightarrow> server_cli \<Rightarrow> (string, 'f in_memory_kb) result option" where
  "start_store E cli =
     map_option (\<lambda>(r, kb). map_sum id (\<lambda>_. kb) r)
       (populate_with_embeddings (st_hash E)
         (offline_embedder (st_float E) (st_alnum E) (st_lower E) (st_hash32 E) (cli_embedding_dim cli)) kb_new)"

text \<open>Everything is built before the transport is looked at; \<open>None\<close> is a panic.\<close>

definition start_backends :: "'f start_env \<Rightarrow> server_cli \<Rightarrow> 'f in_memory_kb \<Rightarrow> credentials \<Rightarrow> (string, 'f server_plan) result" where
  "start_backends E cli kb creds =
     (let read_only = server_read_only cli (st_env E)
      in bind_result (choose_rfc E) (\<lambda>rfc.
           bind_result (build_adt_client E cli) (\<lambda>adt.
             let agents_md = load_agents_md (st_files E) (cli_agents_md cli)
             in bind_result (choose_transport E cli) (\<lambda>transport.
               Inr \<lparr> sp_store = kb, sp_read_only = read_only, sp_credentials = creds, sp_rfc = rfc,
                     sp_cache_ttl_secs = cli_metadata_cache_ttl_secs cli, sp_adt = adt, sp_business_hub = choose_business_hub E,
                     sp_agents_md = agents_md, sp_instructions = build_instructions agents_md read_only,
                     sp_sap_system = audit_system (st_env E) creds, sp_transport = transport \<rparr>))))"

definition server_main :: "'f start_env \<Rightarrow> server_cli \<Rightarrow> (string, 'f server_plan) result option" where
  "server_main E cli =
     (case start_store E cli of
        None \<Rightarrow> None
      | Some (Inl e) \<Rightarrow> Some (Inl e)
      | Some (Inr kb) \<Rightarrow>
          map_option (\<lambda>creds. bind_result creds (start_backends E cli kb)) (resolve_credentials (st_env E)))"

section \<open>What a start decides\<close>

lemma metrics_register_series [simp]:
  "mr_series (metrics_register name kind help r) = mr_series r" "mr_poisoned (metrics_register name kind help r) = mr_poisoned r"
  by (simp_all add: metrics_register_def)

lemma metrics_register_all:
  "mr_series (fold (\<lambda>(name, kind, help). metrics_register name kind help) ms r) = mr_series r \<and>
   mr_poisoned (fold (\<lambda>(name, kind, help). metrics_register name kind help) ms r) = mr_poisoned r"
proof (induction ms arbitrary: r)
  case (Cons m ms)
  obtain n k h where "m = (n, k, h)" by (cases m)
  then show ?case
    using Cons.IH [of "metrics_register n k h r"] by simp
qed simp

lemma registered_metrics_series: "mr_series registered_metrics = [] \<and> \<not> mr_poisoned registered_metrics"
  by (simp add: registered_metrics_def metrics_register_all) (simp add: metrics_new_def)

text \<open>Metrics that are only registered are not rendered: the server records none, so its exposition is empty.\<close>

lemma server_exposes_nothing: "metrics_render D registered_metrics = Some []"
  by (simp add: metrics_render_def registered_metrics_series group_series_def)

lemma start_rfc:
  "choose_rfc E = Inr (Soap_Rfc cfg) \<Longrightarrow> st_env E ''SAP_RFC_HTTP_URL'' = Some (sc_base_url cfg) \<and> sc_base_url cfg \<noteq> []"
  "choose_rfc E = Inr Offline_Rfc \<Longrightarrow> st_env E ''SAP_RFC_HTTP_URL'' \<in> {None, Some []}"
  by (auto simp: choose_rfc_def soap_config_from_env_def split: option.splits if_splits)

lemma http_adt_destination:
  assumes "http_adt_new fs pem be d = Inr c"
  shows "hc_destination c = d"
proof (cases "ad_auth d")
  case (Auth_Certificate cert key)
  with assms show ?thesis
    by (simp add: http_adt_new_def Let_def split: sum.splits option.splits) auto
qed (use assms in \<open>auto simp: http_adt_new_def split: option.splits\<close>)

lemma start_adt:
  assumes "build_adt_client E cli = Inr (Http_Adt c)"
  obtains name where "wanted_destination cli (st_env E) = Some name"
    "load_destination (st_files E) (st_env E) (st_toml E) name = Inr (hc_destination c)" "ad_auth (hc_destination c) \<noteq> Auth_Mock"
proof -
  obtain name where name: "wanted_destination cli (st_env E) = Some name"
    using assms by (cases "wanted_destination cli (st_env E)") (simp_all add: build_adt_client_def)
  obtain d where d: "load_destination (st_files E) (st_env E) (st_toml E) name = Inr d"
    using assms name by (cases "load_destination (st_files E) (st_env E) (st_toml E) name") (simp_all add: build_adt_client_def)
  have auth: "ad_auth d \<noteq> Auth_Mock"
    using assms name d by (auto simp: build_adt_client_def)
  have "http_adt_new (st_files E) (st_pem_error E) (st_build_error E) d = Inr c"
    using assms name d auth
    by (cases "http_adt_new (st_files E) (st_pem_error E) (st_build_error E) d") (simp_all add: build_adt_client_def)
  from http_adt_destination [OF this] show thesis
    using that name d auth by simp
qed

text \<open>
  The audit log names the client of the resolved credentials, not the one the SOAP backend calls: they are read from
  different variables.
\<close>

lemma audit_names_other_client:
  assumes "env = [''SAP_RFC_HTTP_URL'' \<mapsto> ''https://erp'', ''SAP_RFC_CLIENT'' \<mapsto> ''200'']"
  shows "map_option sc_client (soap_config_from_env env) = Some ''200''"
    "map_option (map_sum id (audit_system env)) (resolve_credentials env) = Some (Inr ''https://erp/100'')"
  unfolding assms by (simp_all add: soap_config_from_env_def env_or_def resolve_credentials_def layered_add_def env_fetch_def needed_vars_def
      static_fetch_def audit_system_def demo_credentials_def)

lemma server_main_Inr:
  assumes "server_main E cli = Some (Inr p)"
  shows "sp_read_only p = server_read_only cli (st_env E)" "choose_rfc E = Inr (sp_rfc p)" "build_adt_client E cli = Inr (sp_adt p)"
    "choose_transport E cli = Inr (sp_transport p)" "sp_business_hub p = choose_business_hub E"
  using assms by (auto simp: server_main_def start_backends_def Let_def bind_result_eq_Inr split: option.splits sum.splits)

text \<open>The corpus is stored before anything else is done; with no dimensions, that panics.\<close>

lemma start_store_offline:
  assumes "cli_embedding_dim cli = Suc n"
  shows "\<exists>kb. start_store E cli = Some (Inr kb) \<and> map_of (kb_documents kb) = map_of (map (\<lambda>d. (doc_id d, d)) (seed_documents (st_hash E)))"
  using offline_seeded [of "st_hash E" "st_float E" "st_alnum E" "st_lower E" "st_hash32 E" n] assms
  by (auto simp: start_store_def)

lemma start_without_dimensions:
  "cli_embedding_dim cli = 0 \<Longrightarrow> st_alnum E ''Z'' \<Longrightarrow> st_alnum E ''F'' \<Longrightarrow> server_main E cli = None"
  by (simp add: server_main_def start_store_def seed_without_dimensions)

text \<open>
  C17. A server that starts allows writes just when the flag or the variable asks for them; it calls SAP over SOAP just when
  a URL is set for it, and over ADT only for a destination that was named, loaded and has credentials; and with neither
  arguments nor variables it is read-only, offline and on stdio.
\<close>

theorem server_start_safe:
  "(case server_main E cli of
      Some (Inr p) \<Rightarrow>
        (sp_read_only p \<longleftrightarrow> \<not> (cli_enable_writes cli \<or> st_env E ''SAP_AUTOMATE_ENABLE_WRITES'' = Some ''1'')) \<and>
        (case sp_rfc p of
           Soap_Rfc cfg \<Rightarrow> st_env E ''SAP_RFC_HTTP_URL'' = Some (sc_base_url cfg) \<and> sc_base_url cfg \<noteq> []
         | Offline_Rfc \<Rightarrow> st_env E ''SAP_RFC_HTTP_URL'' \<in> {None, Some []}) \<and>
        (case sp_adt p of
           Http_Adt c \<Rightarrow> (\<exists>name. wanted_destination cli (st_env E) = Some name \<and>
             load_destination (st_files E) (st_env E) (st_toml E) name = Inr (hc_destination c) \<and> ad_auth (hc_destination c) \<noteq> Auth_Mock)
         | Offline_Adt _ \<Rightarrow> True)
    | _ \<Rightarrow> True) \<and>
   map_option (map_sum id (\<lambda>p. (sp_read_only p, sp_rfc p, sp_adt p, sp_business_hub p, sp_transport p)))
     (server_main (E\<lparr> st_env := \<lambda>_. None \<rparr>) cli_default) =
   Some (Inr (True, Offline_Rfc, Offline_Adt (destination_mock ''default''), None, Serve_Stdio))"
  (is "?started \<and> ?default")
proof (rule conjI)
  have "(sp_read_only p \<longleftrightarrow> \<not> (cli_enable_writes cli \<or> st_env E ''SAP_AUTOMATE_ENABLE_WRITES'' = Some ''1'')) \<and>
        (case sp_rfc p of
           Soap_Rfc cfg \<Rightarrow> st_env E ''SAP_RFC_HTTP_URL'' = Some (sc_base_url cfg) \<and> sc_base_url cfg \<noteq> []
         | Offline_Rfc \<Rightarrow> st_env E ''SAP_RFC_HTTP_URL'' \<in> {None, Some []}) \<and>
        (case sp_adt p of
           Http_Adt c \<Rightarrow> (\<exists>name. wanted_destination cli (st_env E) = Some name \<and>
             load_destination (st_files E) (st_env E) (st_toml E) name = Inr (hc_destination c) \<and> ad_auth (hc_destination c) \<noteq> Auth_Mock)
         | Offline_Adt _ \<Rightarrow> True)"
    if "server_main E cli = Some (Inr p)" for p
  proof (intro conjI)
    note parts = server_main_Inr [OF that]
    show "sp_read_only p \<longleftrightarrow> \<not> (cli_enable_writes cli \<or> st_env E ''SAP_AUTOMATE_ENABLE_WRITES'' = Some ''1'')"
      by (simp add: parts(1) server_read_only_def)
    show "case sp_rfc p of
        Soap_Rfc cfg \<Rightarrow> st_env E ''SAP_RFC_HTTP_URL'' = Some (sc_base_url cfg) \<and> sc_base_url cfg \<noteq> []
      | Offline_Rfc \<Rightarrow> st_env E ''SAP_RFC_HTTP_URL'' \<in> {None, Some []}"
      using start_rfc [of E] parts(2) by (cases "sp_rfc p") simp_all
    show "case sp_adt p of
        Http_Adt c \<Rightarrow> (\<exists>name. wanted_destination cli (st_env E) = Some name \<and>
          load_destination (st_files E) (st_env E) (st_toml E) name = Inr (hc_destination c) \<and> ad_auth (hc_destination c) \<noteq> Auth_Mock)
      | Offline_Adt _ \<Rightarrow> True"
    proof (cases "sp_adt p")
      case (Http_Adt c)
      with parts(3) have "build_adt_client E cli = Inr (Http_Adt c)" by simp
      from start_adt [OF this] show ?thesis
        unfolding Http_Adt by (auto intro: exI)
    qed simp
  qed
  then show ?started
    by (simp split: option.split sum.split)
  obtain kb where "start_store (E\<lparr> st_env := \<lambda>_. None \<rparr>) cli_default = Some (Inr kb)"
    using start_store_offline [of cli_default 255] by (auto simp: cli_default_def)
  then show ?default
    by (simp add: server_main_def start_backends_def resolve_credentials_def layered_add_def env_fetch_def needed_vars_def static_fetch_def
        choose_rfc_def soap_config_from_env_def build_adt_client_def wanted_destination_def cli_default_def choose_transport_def
        choose_business_hub_def odata_from_env_def server_read_only_def bind_result_def Let_def)
qed

end
