(* ===== verification/Gateway.thy ===== *)
theory Gateway
  imports Memory Channels Scheduler Server_Tools
begin

text \<open>
  The gateway (\<open>sap-automate-gw/src/main.rs\<close>): an incoming message is recorded in the working memory of its
  conversation, routed by key words to a prompt of the server or to a tool, and answered on its channel; the jobs
  of the scheduler call tools and post to channels. The server at the other end of the pipe, the clock and the
  Unicode case conversions are a record of parameters over a world that calls may change. Shown: what a session
  leaves in memory and where its answers go, that only read-only tools are used, and when a skill is matched.
\<close>

section \<open>Messages\<close>

record incoming_message =
  im_channel :: channel_kind
  im_user_id :: string
  im_conversation_id :: string
  im_text :: string
  im_metadata :: json
  im_received_at_ms :: nat

record 'w gateway_env =
  ge_call_tool :: "string \<Rightarrow> json option \<Rightarrow> 'w \<Rightarrow> (mcp_error, call_tool_result) result \<times> 'w"
  ge_get_prompt :: "string \<Rightarrow> json option \<Rightarrow> 'w \<Rightarrow> (mcp_error, get_prompt_result) result \<times> 'w"
  ge_now_ms :: "'w \<Rightarrow> nat \<times> 'w"
  ge_lower :: "string \<Rightarrow> string"
  ge_upper :: "string \<Rightarrow> string"

text \<open>The name of the variant, as \<open>Debug\<close> prints it.\<close>

fun channel_debug :: "channel_kind \<Rightarrow> string" where
  "channel_debug Teams = ''Teams''"
| "channel_debug Slack = ''Slack''"
| "channel_debug Telegram = ''Telegram''"
| "channel_debug Whatsapp = ''Whatsapp''"
| "channel_debug Email = ''Email''"
| "channel_debug Cli = ''Cli''"

section \<open>Intents\<close>

definition one_arg :: "string \<Rightarrow> string \<Rightarrow> json option" where
  "one_arg k v = Some (JObject [(k, JString v)])"

definition any_of :: "string \<Rightarrow> string list \<Rightarrow> bool" where
  "any_of s keywords \<longleftrightarrow> list_ex (contains_sub s) keywords"

definition match_skill :: "(string \<Rightarrow> string) \<Rightarrow> string \<Rightarrow> (string \<times> json option) option" where
  "match_skill upper lc =
     (if any_of lc [''sod'', ''segregation of duties'', ''authorisation audit'', ''authorization audit''] \<and>
         any_of lc [''audit'', ''review'', ''sod'']
      then let target = upper (case split_whitespace lc of [] \<Rightarrow> ''*'' | ws \<Rightarrow> last ws)
           in Some (''sap.skill.security_sod_audit'',
                Some (JObject (amap_of [(''user_or_role'', JString target), (''scope'', JString ''user'')])))
      else if contains_sub lc ''bw'' \<and> any_of lc [''datasphere'', ''modernis'', ''moderniz'', ''migrat'']
      then Some (''sap.skill.bw_to_datasphere_migration'', one_arg ''bw_object'' ''*'')
      else if contains_sub lc ''period close'' \<or> contains_sub lc ''period-close'' \<or> contains_sub lc ''closing'' \<and> contains_sub lc ''fi''
      then Some (''sap.skill.period_close_investigation'', one_arg ''company_code'' ''1000'')
      else if contains_sub lc ''code review'' \<or> contains_sub lc ''review'' \<and> any_of lc [''abap'', ''class'', ''program'']
      then Some (''sap.skill.abap_code_review'',
             Some (JObject (amap_of [(''object_name'', JString ''ZCL_FIN_POSTER''), (''kind'', JString ''class'')])))
      else if contains_sub lc ''odata'' \<and> any_of lc [''design'', ''expose'', ''proxy'']
      then Some (''sap.skill.odata_service_design'', one_arg ''service_name'' ''ZUI_PURCHASE_ORDER_O2'')
      else if contains_sub lc ''transport'' \<and> any_of lc [''impact'', ''release'', ''analyse'', ''analyze'']
      then Some (''sap.skill.transport_impact_analysis'', one_arg ''transport_id'' ''ER1K900042'')
      else if any_of lc [''clean core'', ''clean-core'']
      then Some (''sap.skill.clean_core_audit'', one_arg ''package'' ''ZFIN'')
      else if any_of lc [''guideline'', ''how should i think'', ''preflight'', ''pre-flight'']
      then Some (''sap.skill.karpathy_guidelines'', one_arg ''task'' ''investigate without a clear scope'')
      else None)"

definition pick_tool :: "string \<Rightarrow> string \<Rightarrow> string \<times> json" where
  "pick_tool lc query =
     (if any_of lc [''atc'', ''test cockpit'']
      then (''sap.docs.search'', JObject (amap_of [(''query'', JString ''ATC findings test cockpit recent''),
              (''top_k'', JNumber (NInt 3)), (''domain'', JString ''all'')]))
      else if any_of lc [''impact'', ''where used'', ''depends'']
      then (''kb.multi_hop'', JObject (amap_of [(''query'', JString query), (''top_k'', JNumber (NInt 6)), (''max_hops'', JNumber (NInt 4))]))
      else (''sap.docs.search'', JObject (amap_of [(''query'', JString query), (''top_k'', JNumber (NInt 3))])))"

section \<open>Routing a message\<close>

definition text_parts :: "tool_content list \<Rightarrow> string list" where
  "text_parts cs = List.map_filter (\<lambda>c. case c of Content_Text s \<Rightarrow> Some s | _ \<Rightarrow> None) cs"

definition blank_line :: string where "blank_line = [CHR 0x0A, CHR 0x0A]"

type_synonym 'w gateway_state = "memory_manager \<times> 'w"

definition remember :: "'w gateway_env \<Rightarrow> incoming_message \<Rightarrow> string \<Rightarrow> json \<Rightarrow> 'w gateway_state \<Rightarrow> 'w gateway_state" where
  "remember G msg key v = (\<lambda>(mm, w).
     case ge_now_ms G w of (now, w') \<Rightarrow>
       (mm\<lparr> mm_working := wm_append (im_conversation_id msg)
              (with_tenant (im_user_id msg) (memory_entry_new now Working key v)) (mm_working mm) \<rparr>, w'))"

definition answer :: "string \<Rightarrow> string \<Rightarrow> string \<Rightarrow> incoming_message \<Rightarrow> 'w gateway_state \<Rightarrow> outgoing_message" where
  "answer via name payload msg = (\<lambda>(mm, w).
     \<lparr> om_address = scheme (im_channel msg) @ '':'' @ im_conversation_id msg,
       om_text = via @ name @ ''`.'' @ blank_line @ payload @ blank_line @ ''Session context: '' @
         show_nat (length (recent (im_conversation_id msg) 100 (mm_working mm))) @ '' working entries.'',
       om_rich = None \<rparr>)"

definition ask_prompt :: "'w gateway_env \<Rightarrow> string \<Rightarrow> 'w gateway_state \<Rightarrow> (string \<times> string) option \<times> 'w gateway_state" where
  "ask_prompt G lc = (\<lambda>(mm, w).
     case match_skill (ge_upper G) lc of
       None \<Rightarrow> (None, mm, w)
     | Some (skill, args) \<Rightarrow>
         (case ge_get_prompt G skill args w of
            (Inr p, w') \<Rightarrow> (Some (skill, join blank_line (text_parts (map pm_content (gpr_messages p)))), mm, w')
          | (Inl _, w') \<Rightarrow> (None, mm, w')))"

definition route_message :: "'w gateway_env \<Rightarrow> incoming_message \<Rightarrow> 'w gateway_state \<Rightarrow>
    (mcp_error, outgoing_message) result \<times> 'w gateway_state" where
  "route_message G msg st0 =
     (let st1 = remember G msg ''user_turn''
            (JObject (amap_of [(''channel'', JString (channel_debug (im_channel msg))), (''text'', JString (im_text msg))])) st0;
          lc = ge_lower G (im_text msg)
      in case ask_prompt G lc st1 of
           (Some (skill, payload), st2) \<Rightarrow>
             (let st3 = remember G msg ''agent_turn''
                    (JObject (amap_of [(''skill'', JString skill), (''result_chars'', JNumber (NInt (int (length payload))))])) st2
              in (Inr (answer ''Routed via skill `'' skill payload msg st3), st3))
         | (None, mm, w) \<Rightarrow>
             (case pick_tool lc (im_text msg) of (tool, args) \<Rightarrow>
              (case ge_call_tool G tool (Some args) w of
                 (Inl e, w') \<Rightarrow> (Inl e, mm, w')
               | (Inr r, w') \<Rightarrow>
                   (let payload = join blank_line (text_parts (ctr_content r));
                        st3 = remember G msg ''agent_turn''
                          (JObject (amap_of [(''tool'', JString tool), (''result_chars'', JNumber (NInt (int (length payload))))])) (mm, w')
                    in (Inr (answer ''Routed via `'' tool payload msg st3), st3)))))"

section \<open>Scheduled jobs\<close>

definition job_invoke :: "'w gateway_env \<Rightarrow> channel_registry \<Rightarrow> scheduled_job \<Rightarrow> adapters \<times> 'w \<Rightarrow>
    (string, string) result \<times> adapters \<times> 'w" where
  "job_invoke G reg job = (\<lambda>(h, w).
     case ge_call_tool G (sj_tool job) (if sj_arguments job = JNull then None else Some (sj_arguments job)) w of
       (Inl e, w') \<Rightarrow> (Inl (''MCP error: '' @ mcp_error_display e), h, w')
     | (Inr r, w') \<Rightarrow>
         (let summary = join [CHR 0x0A] (text_parts (ctr_content r));
              h' = (case sj_channel job of Some addr \<Rightarrow> snd (registry_send reg (outgoing_text addr summary) h) | None \<Rightarrow> h)
          in (Inr (''['' @ sj_name job @ ''] '' @ show_nat (length summary) @ '' chars''), h', w')))"

text \<open>The scheduler stamps the start and measures how long the job takes.\<close>

definition gateway_executor :: "'w gateway_env \<Rightarrow> channel_registry \<Rightarrow> (adapters \<times> 'w) executor" where
  "gateway_executor G reg job = (\<lambda>(h, w).
     case ge_now_ms G w of (start, w1) \<Rightarrow>
       (case job_invoke G reg job (h, w1) of (res, h', w2) \<Rightarrow>
          (case ge_now_ms G w2 of (stop, w3) \<Rightarrow> ((res, start, stop - start), h', w3))))"

section \<open>The program\<close>

datatype gateway_error = Route_Failed mcp_error | Send_Failed channel_error

text \<open>The text of the configuration file, if it was read, and its parser are parameters.\<close>

definition gateway_jobs :: "'w gateway_env \<Rightarrow> channel_registry \<Rightarrow> (string \<Rightarrow> (string, scheduled_job list) result) \<Rightarrow>
    string option \<Rightarrow> adapters \<times> 'w \<Rightarrow> schedule_report list \<times> adapters \<times> 'w" where
  "gateway_jobs G reg parse_config config hw =
     (case config of
        None \<Rightarrow> ([], hw)
      | Some t \<Rightarrow> (case parse_config t of
            Inl _ \<Rightarrow> ([], hw)
          | Inr jobs \<Rightarrow> (case fire_all_now (gateway_executor G reg) (scheduler_new jobs, hw) of (reports, _, hw') \<Rightarrow> (reports, hw'))))"

definition gateway_turn :: "'w gateway_env \<Rightarrow> channel_registry \<Rightarrow> incoming_message \<Rightarrow> memory_manager \<times> adapters \<times> 'w \<Rightarrow>
    (gateway_error, unit) result \<times> memory_manager \<times> adapters \<times> 'w" where
  "gateway_turn G reg msg = (\<lambda>(mm, h, w).
     case route_message G msg (mm, w) of
       (Inl e, mm', w') \<Rightarrow> (Inl (Route_Failed e), mm', h, w')
     | (Inr out, mm', w') \<Rightarrow>
         (case registry_send reg out h of
            (Inl e, h') \<Rightarrow> (Inl (Send_Failed e), mm', h', w')
          | (Inr _, h') \<Rightarrow> (Inr (), mm', h', w')))"

text \<open>Once connected: the jobs, then the simulated message on the command line channel, whose adapter is at address 0.\<close>

definition gateway_main :: "'w gateway_env \<Rightarrow> (string \<Rightarrow> (string, scheduled_job list) result) \<Rightarrow> string option \<Rightarrow>
    string option \<Rightarrow> 'w \<Rightarrow> (gateway_error, schedule_report list \<times> outgoing_message option) result" where
  "gateway_main G parse_config config simulate_query w =
     (let h = (\<lambda>_. CliChannel []); reg = register_channel h 0 [];
          (reports, h1, w1) = gateway_jobs G reg parse_config config (h, w)
      in case simulate_query of
           None \<Rightarrow> Inr (reports, None)
         | Some query \<Rightarrow>
             (case ge_now_ms G w1 of (now, w2) \<Rightarrow>
               (case gateway_turn G reg \<lparr> im_channel = Cli, im_user_id = ''demo@example.com'', im_conversation_id = ''default'',
                    im_text = query, im_metadata = JNull, im_received_at_ms = now \<rparr> (manager_new, h1, w2) of
                  (Inl e, _) \<Rightarrow> Inl e
                | (Inr _, _, h2, _) \<Rightarrow> Inr (reports, cli_last (h2 0)))))"


section \<open>Sessions\<close>

primrec gateway_session :: "'w gateway_env \<Rightarrow> incoming_message list \<Rightarrow> 'w gateway_state \<Rightarrow>
    (mcp_error, outgoing_message) result list \<times> 'w gateway_state" where
  "gateway_session G [] st = ([], st)"
| "gateway_session G (m # ms) st =
     (case route_message G m st of (r, st') \<Rightarrow> case gateway_session G ms st' of (rs, st'') \<Rightarrow> (r # rs, st''))"

text \<open>The turns of a conversation: the user's for every message, the agent's for an answered one.\<close>

datatype turn = User_Turn incoming_message | Agent_Turn incoming_message outgoing_message

definition turns_of :: "incoming_message \<Rightarrow> (mcp_error, outgoing_message) result \<Rightarrow> turn list" where
  "turns_of msg res = User_Turn msg # (case res of Inr out \<Rightarrow> [Agent_Turn msg out] | Inl _ \<Rightarrow> [])"

text \<open>
  The entry a turn leaves in memory, under the user's name: the words and the channel of the user; of the agent, the skill
  or the tool the words select and the length of the payload that its answer carries.
\<close>

definition agent_entry :: "string \<Rightarrow> string \<Rightarrow> string \<Rightarrow> outgoing_message \<Rightarrow> memory_entry \<Rightarrow> bool" where
  "agent_entry kind via name out e \<longleftrightarrow>
     (\<exists>payload n. me_value e = JObject [(''result_chars'', JNumber (NInt (int (length payload)))), (kind, JString name)] \<and>
        om_text out = via @ name @ ''`.'' @ blank_line @ payload @ blank_line @ ''Session context: '' @ show_nat n @ '' working entries.'')"

fun records :: "'w gateway_env \<Rightarrow> turn \<Rightarrow> memory_entry \<Rightarrow> bool" where
  "records G (User_Turn m) e \<longleftrightarrow>
     me_key e = ''user_turn'' \<and> me_tenant e = Some (im_user_id m) \<and>
     me_value e = JObject [(''channel'', JString (channel_debug (im_channel m))), (''text'', JString (im_text m))]"
| "records G (Agent_Turn m out) e \<longleftrightarrow>
     me_key e = ''agent_turn'' \<and> me_tenant e = Some (im_user_id m) \<and>
     ((\<exists>skill args. match_skill (ge_upper G) (ge_lower G (im_text m)) = Some (skill, args) \<and>
         agent_entry ''skill'' ''Routed via skill `'' skill out e) \<or>
      agent_entry ''tool'' ''Routed via `'' (fst (pick_tool (ge_lower G (im_text m)) (im_text m))) out e)"

definition answers :: "incoming_message \<Rightarrow> memory_manager \<Rightarrow> outgoing_message \<Rightarrow> bool" where
  "answers msg mm out \<longleftrightarrow>
     om_address out = scheme (im_channel msg) @ '':'' @ im_conversation_id msg \<and>
     suffix (''Session context: '' @ show_nat (length (recent (im_conversation_id msg) 100 (mm_working mm))) @ '' working entries.'')
       (om_text out)"

lemma remember_appends:
  "\<exists>e w'. remember G msg key v (mm, w) = (mm\<lparr> mm_working := wm_append (im_conversation_id msg) e (mm_working mm) \<rparr>, w') \<and>
     me_key e = key \<and> me_tenant e = Some (im_user_id msg) \<and> me_value e = v"
  by (cases "ge_now_ms G w") (auto simp: remember_def with_tenant_def memory_entry_new_def)

lemma ask_prompt_memory: "fst (snd (ask_prompt G lc (mm, w))) = mm"
  by (auto simp: ask_prompt_def split: option.split sum.split prod.split)

lemma ask_prompt_skill: "fst (ask_prompt G lc st) = Some (skill, payload) \<Longrightarrow> \<exists>args. match_skill (ge_upper G) lc = Some (skill, args)"
  by (cases st) (auto simp: ask_prompt_def split: option.splits sum.splits prod.splits)

lemma answer_answers: "answers msg mm (answer via name payload msg (mm, w))"
  by (simp add: answers_def answer_def suffix_def)

definition remembers :: "incoming_message \<Rightarrow> memory_entry list \<Rightarrow> memory_manager \<Rightarrow> memory_manager" where
  "remembers msg es mm = mm\<lparr> mm_working := fold (wm_append (im_conversation_id msg)) es (mm_working mm) \<rparr>"

lemma agent_recorded:
  assumes "remember G msg ''agent_turn'' (JObject (amap_of [(kind, JString name), (''result_chars'', JNumber (NInt (int (length payload))))]))
      (remembers msg [e] mm, w2) = (mm'', w3)"
    and "kind = ''skill'' \<and> via = ''Routed via skill `'' \<and> match_skill (ge_upper G) (ge_lower G (im_text msg)) = Some (name, args) \<or>
      kind = ''tool'' \<and> via = ''Routed via `'' \<and> pick_tool (ge_lower G (im_text msg)) (im_text msg) = (name, args')"
    and "records G (User_Turn msg) e"
  shows "\<exists>es. mm'' = remembers msg es mm \<and> list_all2 (records G) (turns_of msg (Inr (answer via name payload msg (mm'', w3)))) es"
proof -
  let ?v = "JObject (amap_of [(kind, JString name), (''result_chars'', JNumber (NInt (int (length payload))))])"
  obtain f w4 where "remember G msg ''agent_turn'' ?v (remembers msg [e] mm, w2) =
      ((remembers msg [e] mm)\<lparr> mm_working := wm_append (im_conversation_id msg) f (mm_working (remembers msg [e] mm)) \<rparr>, w4)"
    and f: "me_key f = ''agent_turn''" "me_tenant f = Some (im_user_id msg)" "me_value f = ?v"
    using remember_appends [of G msg "''agent_turn''" ?v "remembers msg [e] mm" w2] by blast
  then have mm: "mm'' = remembers msg [e, f] mm" using assms(1) by (simp add: remembers_def)
  have "agent_entry kind via name (answer via name payload msg (mm'', w3)) f"
    using f(3) assms(2) unfolding agent_entry_def answer_def by (intro exI [of _ payload] exI) (auto simp: amap_of_def)
  then have "records G (Agent_Turn msg (answer via name payload msg (mm'', w3))) f"
    using f(1,2) assms(2) by auto
  then show ?thesis using mm assms(3) by (intro exI [of _ "[e, f]"]) (simp add: turns_of_def)
qed

lemma route_message_remembers:
  assumes "route_message G msg (mm, w) = (res, mm', w')"
  shows "\<exists>es. mm' = remembers msg es mm \<and> list_all2 (records G) (turns_of msg res) es \<and> (\<forall>out. res = Inr out \<longrightarrow> answers msg mm' out)"
proof -
  let ?uv = "JObject (amap_of [(''channel'', JString (channel_debug (im_channel msg))), (''text'', JString (im_text msg))])"
  obtain e w1 where st1: "remember G msg ''user_turn'' ?uv (mm, w) = (remembers msg [e] mm, w1)"
    and e: "records G (User_Turn msg) e"
    using remember_appends [of G msg "''user_turn''" ?uv mm w] by (auto simp: remembers_def amap_of_def)
  obtain found mm2 w2 where ask: "ask_prompt G (ge_lower G (im_text msg)) (remembers msg [e] mm, w1) = (found, mm2, w2)"
    by (cases "ask_prompt G (ge_lower G (im_text msg)) (remembers msg [e] mm, w1)") auto
  with ask_prompt_memory [of G "ge_lower G (im_text msg)" "remembers msg [e] mm" w1]
  have mm2: "mm2 = remembers msg [e] mm" by simp
  show ?thesis
  proof (cases found)
    case (Some sp)
    obtain skill payload where sp: "sp = (skill, payload)" by (cases sp)
    obtain args where skill: "match_skill (ge_upper G) (ge_lower G (im_text msg)) = Some (skill, args)"
      using ask_prompt_skill ask Some sp by (metis fst_conv)
    let ?v = "JObject (amap_of [(''skill'', JString skill), (''result_chars'', JNumber (NInt (int (length payload))))])"
    obtain mm3 w3 where st3: "remember G msg ''agent_turn'' ?v (remembers msg [e] mm, w2) = (mm3, w3)"
      by (cases "remember G msg ''agent_turn'' ?v (remembers msg [e] mm, w2)")
    have "res = Inr (answer ''Routed via skill `'' skill payload msg (mm3, w3))" "mm' = mm3"
      using assms st1 ask mm2 Some sp st3 by (auto simp: route_message_def Let_def)
    with agent_recorded [OF st3 _ e, of "''Routed via skill `''" args "undefined"] skill show ?thesis
      by (auto simp: answer_answers)
  next
    case None
    obtain tool args where tool: "pick_tool (ge_lower G (im_text msg)) (im_text msg) = (tool, args)"
      by (cases "pick_tool (ge_lower G (im_text msg)) (im_text msg)")
    obtain r w3 where call: "ge_call_tool G tool (Some args) w2 = (r, w3)"
      by (cases "ge_call_tool G tool (Some args) w2")
    show ?thesis
    proof (cases r)
      case (Inl err)
      then show ?thesis
        using assms st1 ask mm2 None tool call e by (auto simp: route_message_def Let_def turns_of_def)
    next
      case (Inr a)
      let ?p = "join blank_line (text_parts (ctr_content a))"
      let ?v = "JObject (amap_of [(''tool'', JString tool), (''result_chars'', JNumber (NInt (int (length ?p))))])"
      obtain mm3 w4 where st3: "remember G msg ''agent_turn'' ?v (remembers msg [e] mm, w3) = (mm3, w4)"
        by (cases "remember G msg ''agent_turn'' ?v (remembers msg [e] mm, w3)")
      have "res = Inr (answer ''Routed via `'' tool ?p msg (mm3, w4))" "mm' = mm3"
        using assms st1 ask mm2 None tool call Inr st3 by (auto simp: route_message_def Let_def)
      with agent_recorded [OF st3 _ e, of "''Routed via `''" "undefined" args] tool show ?thesis
        by (auto simp: answer_answers)
    qed
  qed
qed

lemma message_scheme_answers: "answers msg mm out \<Longrightarrow> message_scheme out = scheme (im_channel msg)"
  by (cases "im_channel msg") (simp_all add: answers_def message_scheme_def)

lemma since_clear_appends:
  "since_clear c (map (Append s) es @ ops) acc = since_clear c ops (if s = c then acc @ es else acc)"
  by (induction es arbitrary: acc) auto

lemma remembers_ops: "mm_working (remembers msg es mm) = fold wm_apply (map (Append (im_conversation_id msg)) es) (mm_working mm)"
proof -
  have "fold (wm_append s) es m = fold wm_apply (map (Append s) es) m" for s m
    by (induction es arbitrary: m) simp_all
  then show ?thesis by (simp add: remembers_def)
qed

definition conversation_turns :: "string \<Rightarrow> incoming_message list \<Rightarrow> (mcp_error, outgoing_message) result list \<Rightarrow> turn list" where
  "conversation_turns c msgs rs = concat (map2 (\<lambda>m r. if im_conversation_id m = c then turns_of m r else []) msgs rs)"

lemma gateway_session_ops:
  "gateway_session G msgs (mm, w) = (rs, mm', w') \<Longrightarrow>
   \<exists>ops. mm_working mm' = fold wm_apply ops (mm_working mm) \<and>
     (\<forall>c ts acc. list_all2 (records G) ts acc \<longrightarrow> list_all2 (records G) (ts @ conversation_turns c msgs rs) (since_clear c ops acc)) \<and>
     list_all2 (\<lambda>m r. case r of Inr out \<Rightarrow> message_scheme out = scheme (im_channel m) | Inl _ \<Rightarrow> True) msgs rs"
proof (induction msgs arbitrary: mm w rs)
  case Nil
  then show ?case by (auto simp: conversation_turns_def intro!: exI [of _ "[]"])
next
  case (Cons m ms)
  obtain r mm1 w1 where r: "route_message G m (mm, w) = (r, mm1, w1)" by (cases "route_message G m (mm, w)") auto
  with Cons.prems obtain rs' where rest: "gateway_session G ms (mm1, w1) = (rs', mm', w')" and rs: "rs = r # rs'"
    by (auto split: prod.splits)
  from route_message_remembers [OF r] obtain es where mm1: "mm1 = remembers m es mm"
    and es: "list_all2 (records G) (turns_of m r) es" and out: "\<forall>out. r = Inr out \<longrightarrow> answers m mm1 out"
    by blast
  from Cons.IH [OF rest] obtain ops where ops: "mm_working mm' = fold wm_apply ops (mm_working mm1)"
    "\<And>c ts acc. list_all2 (records G) ts acc \<Longrightarrow> list_all2 (records G) (ts @ conversation_turns c ms rs') (since_clear c ops acc)"
    "list_all2 (\<lambda>m r. case r of Inr out \<Rightarrow> message_scheme out = scheme (im_channel m) | Inl _ \<Rightarrow> True) ms rs'"
    by blast
  have "case r of Inr out \<Rightarrow> message_scheme out = scheme (im_channel m) | Inl _ \<Rightarrow> True"
    using out by (auto split: sum.split intro: message_scheme_answers)
  moreover have "list_all2 (records G) (ts @ conversation_turns c (m # ms) (r # rs'))
      (since_clear c (map (Append (im_conversation_id m)) es @ ops) acc)" if "list_all2 (records G) ts acc" for c ts acc
  proof (cases "im_conversation_id m = c")
    case True
    with ops(2) [of "ts @ turns_of m r" "acc @ es" c] that es show ?thesis
      by (simp add: since_clear_appends conversation_turns_def list_all2_appendI)
  next
    case False
    with ops(2) [OF that, of c] show ?thesis by (simp add: since_clear_appends conversation_turns_def)
  qed
  ultimately show ?case using ops(1,3) mm1 rs
    by (intro exI [of _ "map (Append (im_conversation_id m)) es @ ops"]) (simp add: remembers_ops)
qed

lemma turn_delivers:
  assumes "registered h reg" "gateway_turn G reg msg (mm, h, w) = (res, mm', h', w')" "map_of reg ''cli'' = Some a"
    "im_channel msg = Cli"
  shows "case res of
      Inr _ \<Rightarrow> (\<exists>out. answers msg mm' out \<and> cli_log (h' a) = cli_log (h a) @ [out])
    | Inl e \<Rightarrow> (\<exists>err. e = Route_Failed err) \<and> h' = h"
proof -
  obtain r mm1 w1 where r: "route_message G msg (mm, w) = (r, mm1, w1)" by (cases "route_message G msg (mm, w)") auto
  show ?thesis
  proof (cases r)
    case (Inl e)
    with r assms(2) show ?thesis by (auto simp: gateway_turn_def)
  next
    case (Inr out)
    with route_message_remembers [OF r] have ans: "answers msg mm1 out" by blast
    then have "message_scheme out = ''cli''" using assms(4) by (simp add: message_scheme_answers)
    with registry_send_cases [OF assms(1), of out] assms(3)
    have sent: "fst (registry_send reg out h) = Inr ()" "cli_log (snd (registry_send reg out h) a) = cli_log (h a) @ [out]"
      by simp_all
    obtain o' h1 where "registry_send reg out h = (o', h1)" by (cases "registry_send reg out h")
    with sent Inr r assms(2) ans show ?thesis by (auto simp: gateway_turn_def)
  qed
qed


section \<open>Tools and intents\<close>

definition read_only_tools :: "string set" where
  "read_only_tools = set (map fst (filter (\<lambda>nx. allows ReadOnlyOnly (snd nx)) all_tools))"

lemma picked_read_only: "fst (pick_tool lc query) \<in> read_only_tools"
proof -
  have "''sap.docs.search'' \<in> read_only_tools" "''kb.multi_hop'' \<in> read_only_tools"
    unfolding read_only_tools_def by code_simp+
  then show ?thesis by (simp add: pick_tool_def)
qed

text \<open>Whatever the other tools of the server do, the gateway's answers do not change: it never calls them.\<close>

definition tools_changed :: "(string \<Rightarrow> json option \<Rightarrow> 'w \<Rightarrow> (mcp_error, call_tool_result) result \<times> 'w) \<Rightarrow> 'w gateway_env \<Rightarrow> 'w gateway_env" where
  "tools_changed other G = G\<lparr> ge_call_tool := (\<lambda>n a w. if n \<in> read_only_tools then ge_call_tool G n a w else other n a w) \<rparr>"

lemma changed_tools_simps [simp]:
  "ge_lower (tools_changed other G) = ge_lower G" "ge_upper (tools_changed other G) = ge_upper G"
  "remember (tools_changed other G) = remember G" "ask_prompt (tools_changed other G) = ask_prompt G"
  "n \<in> read_only_tools \<Longrightarrow> ge_call_tool (tools_changed other G) n = ge_call_tool G n"
  by (auto simp: tools_changed_def remember_def ask_prompt_def fun_eq_iff split: option.split)

lemma gateway_uses_read_only_tools: "route_message (tools_changed other G) msg st = route_message G msg st"
proof -
  have tool: "ge_call_tool (tools_changed other G) tool = ge_call_tool G tool" if "pick_tool lc query = (tool, args)" for tool args lc query
    using picked_read_only [of lc query] that by simp
  obtain found mm w where "ask_prompt G (ge_lower G (im_text msg)) (remember G msg ''user_turn''
      (JObject (amap_of [(''channel'', JString (channel_debug (im_channel msg))), (''text'', JString (im_text msg))])) st) = (found, mm, w)"
    by (metis prod_cases3)
  moreover obtain tool args where "pick_tool (ge_lower G (im_text msg)) (im_text msg) = (tool, args)"
    by (metis surj_pair)
  ultimately show ?thesis
    by (cases found) (auto simp: route_message_def Let_def tool split: prod.split sum.split)
qed

text \<open>The word \<open>sod\<close> alone satisfies both halves of the first rule, also inside another word.\<close>

lemma sod_matches: "contains_sub lc ''sod'' \<Longrightarrow> map_option fst (match_skill upper lc) = Some ''sap.skill.security_sod_audit''"
  by (simp add: match_skill_def any_of_def Let_def)

lemma episode_is_audited:
  "match_skill ascii_uppercase ''summarise the last episode'' = Some (''sap.skill.security_sod_audit'',
     Some (JObject [(''scope'', JString ''user''), (''user_or_role'', JString ''EPISODE'')]))"
  by code_simp

text \<open>A question with \<open>batch\<close> or \<open>match\<close> in it is replaced by a fixed query about ATC findings.\<close>

lemma batch_is_atc:
  "pick_tool ''how do i schedule a batch job'' query = (''sap.docs.search'',
     JObject [(''domain'', JString ''all''), (''query'', JString ''ATC findings test cockpit recent''), (''top_k'', JNumber (NInt 3))])"
  by (simp add: pick_tool_def any_of_def contains_sub_def amap_of_def)

section \<open>Properties\<close>

text \<open>
  C35. After any messages, answered or failed, by skills or by tools, the working memory of a conversation holds the newest 64 of
  its turns in order: the user's for every message, with the words and the channel; and the agent's just for the answered
  ones, with the skill or the tool that the words select and the length of the payload the answer carries; all under
  that user's name. Every answer is addressed to the channel its message came from.
\<close>

theorem gateway_sessions:
  "case gateway_session G msgs (manager_new, w) of (rs, mm, w') \<Rightarrow>
     list_all2 (records G) (last_n 64 (conversation_turns c msgs rs)) (session_queue (mm_working mm) c) \<and>
     list_all2 (\<lambda>m r. case r of Inr out \<Rightarrow> message_scheme out = scheme (im_channel m) | Inl _ \<Rightarrow> True) msgs rs"
proof -
  obtain rs mm w' where run: "gateway_session G msgs (manager_new, w) = (rs, mm, w')"
    by (cases "gateway_session G msgs (manager_new, w)") auto
  from gateway_session_ops [OF run] obtain ops where fold: "mm_working mm = fold wm_apply ops (mm_working manager_new)"
    and turns: "\<forall>c ts acc. list_all2 (records G) ts acc \<longrightarrow> list_all2 (records G) (ts @ conversation_turns c msgs rs) (since_clear c ops acc)"
    and out: "list_all2 (\<lambda>m r. case r of Inr out \<Rightarrow> message_scheme out = scheme (im_channel m) | Inl _ \<Rightarrow> True) msgs rs"
    by blast
  have rec: "list_all2 (records G) (conversation_turns c msgs rs) (since_clear c ops [])"
    using turns [rule_format, of "[]" "[]" c] by simp
  have "session_queue (fold wm_apply ops working_new) c = last_n 64 (since_clear c ops [])"
    using ring_buffer [of working_new c "[]" ops]
    by (simp add: working_new_def with_capacity_def session_queue_def last_n_def DEFAULT_WORKING_CAP_def)
  then show ?thesis
    using run fold out rec list_all2_lengthD [OF rec] by (simp add: last_n_def list_all2_dropI manager_new_def)
qed

end
