(* ===== verification/Tui.thy ===== *)
theory Tui
  imports Prelude
begin

text \<open>
  The state of the operator console (\<open>apps/sap-automate-tui/src/app.rs\<close>), its synthetic feed (\<open>traffic.rs\<close>) and the
  keys it reacts to (\<open>main.rs\<close>). Instants are arguments of the steps that read the clock; the operations of \<open>f64\<close>
  are a record. Shown: the console shows exactly what it was fed, with bounded windows of samples and lines; the
  console stays within its tabs and rings; and with the feed it shows at most one session, the one the feed has open.
\<close>

section \<open>State\<close>

record latency_breakdown =
  lb_dense_us :: nat
  lb_sparse_us :: nat
  lb_fusion_us :: nat
  lb_rerank_us :: nat
  lb_total_us :: nat

record tool_stat =
  tl_name :: string
  tl_invocations :: nat
  tl_errors :: nat
  tl_samples_us :: "nat list"
  tl_last_breakdown :: "latency_breakdown option"

record session_row =
  sr_id :: string
  sr_client :: string
  sr_protocol :: string
  sr_tools_called :: nat
  sr_last_activity :: nat

datatype entry_level = Entry_Info | Entry_Warn | Entry_Error

record log_line =
  ll_at :: nat
  ll_level :: entry_level
  ll_source :: string
  ll_message :: string

datatype 'v traffic_event =
    Tool_Call string nat bool "latency_breakdown option"
  | Session_Open string string string
  | Session_Close string
  | Log_Line entry_level string string
  | Kb_Stat string nat 'v
  | Cache_Stat nat nat nat 'v

record 'v cache_snapshot =
  sn_hits :: nat
  sn_misses :: nat
  sn_entries :: nat
  sn_hit_ratio :: 'v

record 'v tui_app =
  ap_current_tab :: nat
  ap_scroll :: "(nat, nat) amap"
  ap_tools :: "(string, tool_stat) amap"
  ap_sessions :: "(string, session_row) amap"
  ap_logs :: "log_line list"
  ap_kb_collections :: "(string, nat \<times> 'v) amap"
  ap_cache :: "'v cache_snapshot"
  ap_started_at :: nat

text \<open>\<open>w_trunc\<close> is the cast to an integer, \<open>w_lit (n, d)\<close> the literal \<open>n / d\<close>.\<close>

record 'v w_ops =
  w_lit :: "nat \<times> nat \<Rightarrow> 'v"
  w_nat :: "nat \<Rightarrow> 'v"
  w_mul :: "'v \<Rightarrow> 'v \<Rightarrow> 'v"
  w_div :: "'v \<Rightarrow> 'v \<Rightarrow> 'v"
  w_min :: "'v \<Rightarrow> 'v \<Rightarrow> 'v"
  w_trunc :: "'v \<Rightarrow> nat"

section \<open>Tools\<close>

definition tool_stat_new :: "string \<Rightarrow> tool_stat" where
  "tool_stat_new name = \<lparr> tl_name = name, tl_invocations = 0, tl_errors = 0, tl_samples_us = [], tl_last_breakdown = None \<rparr>"

text \<open>A ring: the oldest element makes room when it is full.\<close>

definition ring_push :: "nat \<Rightarrow> 'a \<Rightarrow> 'a list \<Rightarrow> 'a list" where
  "ring_push cap x xs = (if length xs = cap then tl xs else xs) @ [x]"

definition stat_record :: "nat \<Rightarrow> bool \<Rightarrow> latency_breakdown option \<Rightarrow> tool_stat \<Rightarrow> tool_stat" where
  "stat_record latency_us failed breakdown s =
     s\<lparr> tl_invocations := tl_invocations s + 1,
        tl_errors := (if failed then tl_errors s + 1 else tl_errors s),
        tl_samples_us := ring_push 120 latency_us (tl_samples_us s),
        tl_last_breakdown := (if breakdown \<noteq> None then breakdown else tl_last_breakdown s) \<rparr>"

text \<open>The element of a sorted list of samples that a quantile names.\<close>

definition quantile :: "'v w_ops \<Rightarrow> 'v \<Rightarrow> nat list \<Rightarrow> nat" where
  "quantile W q v = v ! min (w_trunc W (w_mul W (w_nat W (length v)) q)) (length v - 1)"

definition percentile :: "'v w_ops \<Rightarrow> 'v \<Rightarrow> tool_stat \<Rightarrow> nat" where
  "percentile W q s = (if tl_samples_us s = [] then 0 else quantile W q (sort (tl_samples_us s)))"

section \<open>The console\<close>

definition app_new :: "'v w_ops \<Rightarrow> nat \<Rightarrow> 'v tui_app" where
  "app_new W now =
     \<lparr> ap_current_tab = 0, ap_scroll = [], ap_tools = [], ap_sessions = [], ap_logs = [], ap_kb_collections = [],
       ap_cache = \<lparr> sn_hits = 0, sn_misses = 0, sn_entries = 0, sn_hit_ratio = w_lit W (0, 1) \<rparr>, ap_started_at = now \<rparr>"

definition set_tab :: "nat \<Rightarrow> 'v tui_app \<Rightarrow> 'v tui_app" where
  "set_tab n a = (if n < 5 then a\<lparr> ap_current_tab := n \<rparr> else a)"

definition next_tab :: "'v tui_app \<Rightarrow> 'v tui_app" where
  "next_tab a = a\<lparr> ap_current_tab := (ap_current_tab a + 1) mod 5 \<rparr>"

definition prev_tab :: "'v tui_app \<Rightarrow> 'v tui_app" where
  "prev_tab a = a\<lparr> ap_current_tab := (ap_current_tab a + 4) mod 5 \<rparr>"

text \<open>The offsets are \<open>u16\<close> and saturate.\<close>

definition scrolled :: "'v tui_app \<Rightarrow> nat" where
  "scrolled a = (case map_of (ap_scroll a) (ap_current_tab a) of Some v \<Rightarrow> v | None \<Rightarrow> 0)"

definition scroll_down :: "'v tui_app \<Rightarrow> 'v tui_app" where
  "scroll_down a = a\<lparr> ap_scroll := amap_insert (ap_current_tab a) (min (scrolled a + 1) (2 ^ 16 - 1)) (ap_scroll a) \<rparr>"

definition scroll_up :: "'v tui_app \<Rightarrow> 'v tui_app" where
  "scroll_up a = a\<lparr> ap_scroll := amap_insert (ap_current_tab a) (scrolled a - 1) (ap_scroll a) \<rparr>"

definition stat_of :: "'v tui_app \<Rightarrow> string \<Rightarrow> tool_stat" where
  "stat_of a name = (case map_of (ap_tools a) name of Some s \<Rightarrow> s | None \<Rightarrow> tool_stat_new name)"

fun observe :: "nat \<Rightarrow> 'v traffic_event \<Rightarrow> 'v tui_app \<Rightarrow> 'v tui_app" where
  "observe now (Tool_Call name latency_us failed breakdown) a =
     a\<lparr> ap_tools := amap_insert name (stat_record latency_us failed breakdown (stat_of a name)) (ap_tools a) \<rparr>"
| "observe now (Session_Open i client protocol) a =
     a\<lparr> ap_sessions := amap_insert i
          \<lparr> sr_id = i, sr_client = client, sr_protocol = protocol, sr_tools_called = 0, sr_last_activity = now \<rparr> (ap_sessions a) \<rparr>"
| "observe now (Session_Close i) a = a\<lparr> ap_sessions := amap_remove i (ap_sessions a) \<rparr>"
| "observe now (Log_Line level source message) a =
     a\<lparr> ap_logs := ring_push 200 \<lparr> ll_at = now, ll_level = level, ll_source = source, ll_message = message \<rparr> (ap_logs a) \<rparr>"
| "observe now (Kb_Stat collection points staleness) a =
     a\<lparr> ap_kb_collections := amap_insert collection (points, staleness) (ap_kb_collections a) \<rparr>"
| "observe now (Cache_Stat hits misses entries hit_ratio) a =
     a\<lparr> ap_cache := \<lparr> sn_hits = hits, sn_misses = misses, sn_entries = entries, sn_hit_ratio = hit_ratio \<rparr> \<rparr>"

text \<open>The keys; \<open>None\<close> leaves the console.\<close>

datatype key_code = Key_Char char | Key_Esc | Key_Right | Key_Left | Key_Tab | Key_BackTab | Key_Up | Key_Down | Key_Other

definition press :: "key_code \<Rightarrow> 'v tui_app \<Rightarrow> 'v tui_app option" where
  "press k a =
     (if k \<in> {Key_Char (CHR ''q''), Key_Esc} then None
      else if k = Key_Char (CHR ''1'') then Some (set_tab 0 a)
      else if k = Key_Char (CHR ''2'') then Some (set_tab 1 a)
      else if k = Key_Char (CHR ''3'') then Some (set_tab 2 a)
      else if k = Key_Char (CHR ''4'') then Some (set_tab 3 a)
      else if k = Key_Char (CHR ''5'') then Some (set_tab 4 a)
      else if k \<in> {Key_Right, Key_Tab} then Some (next_tab a)
      else if k \<in> {Key_Left, Key_BackTab} then Some (prev_tab a)
      else if k \<in> {Key_Char (CHR ''j''), Key_Down} then Some (scroll_down a)
      else if k \<in> {Key_Char (CHR ''k''), Key_Up} then Some (scroll_up a)
      else Some a)"

definition status_totals :: "'v tui_app \<Rightarrow> nat \<times> nat \<times> nat" where
  "status_totals a =
     (length (ap_sessions a), sum_list (map (tl_invocations \<circ> snd) (ap_tools a)), sum_list (map (tl_errors \<circ> snd) (ap_tools a)))"

section \<open>The synthetic feed\<close>

definition TOOLS :: "string list" where
  "TOOLS =
     [''sap.docs.search'', ''sap.help.search'', ''abap.search'', ''sap.rfc.search'', ''sap.rfc.metadata'', ''sap.system.info'',
      ''sap.table.read'', ''sap.table.structure'', ''abap.adt.get_class'', ''abap.adt.get_program'', ''abap.adt.where_used'']"

record synthetic =
  sy_tick :: nat
  sy_sessions :: "string list"

definition synthetic_new :: synthetic where
  "synthetic_new = \<lparr> sy_tick = 0, sy_sessions = [] \<rparr>"

definition hex_lower :: "nat \<Rightarrow> char" where
  "hex_lower n = ''0123456789abcdef'' ! n"

definition hex4 :: "nat \<Rightarrow> string" where
  "hex4 n = [hex_lower (n div 4096 mod 16), hex_lower (n div 256 mod 16), hex_lower (n div 16 mod 16), hex_lower (n mod 16)]"

definition session_id :: "nat \<Rightarrow> string" where
  "session_id t = ''S-'' @ hex4 (t mod 2 ^ 16)"

definition call_event :: "nat \<Rightarrow> 'v traffic_event" where
  "call_event t =
     (let name = TOOLS ! (t mod length TOOLS);
          base = (if starts_with name ''abap.'' \<or> starts_with name ''sap.rfc'' \<or> starts_with name ''sap.table''
                  then 200 + t mod 800 else 100 + t mod 150);
          breakdown = (if contains_sub name ''search'' \<or> name = ''sap.docs.search''
             then Some \<lparr> lb_dense_us = 30 + t mod 20, lb_sparse_us = 30 + t mod 20, lb_fusion_us = 2, lb_rerank_us = 50 + t mod 30,
                         lb_total_us = base \<rparr>
             else None)
      in Tool_Call name base (t mod 197 = 0) breakdown)"

definition cache_event :: "'v w_ops \<Rightarrow> nat \<Rightarrow> 'v traffic_event" where
  "cache_event W t =
     (let total = max t 1;
          hits = w_trunc W (w_min W (w_mul W (w_nat W total) (w_lit W (85, 100))) (w_nat W (t - 8)));
          misses = total - hits;
          hit_ratio = (if total = 0 then w_lit W (0, 1) else w_div W (w_nat W hits) (w_nat W total))
      in Cache_Stat hits misses (min (16 + t mod 12) 28) hit_ratio)"

text \<open>The micro sign is two bytes.\<close>

definition spike_message :: string where
  "spike_message =
     ''reranker latency spike: 380'' @ [CHR 0xCE, CHR 0xBC] @ ''s (P95 ceiling 350'' @ [CHR 0xCE, CHR 0xBC] @ ''s)''"

definition feed_log :: "nat \<Rightarrow> 'v traffic_event" where
  "feed_log t =
     (if t mod 200 = 0 then Log_Line Entry_Warn ''rag'' spike_message
      else Log_Line Entry_Info ''kb'' (''upsert batch ok ('' @ show_nat (24 + t mod 8) @ '' chunks)''))"

text \<open>\<open>Vec::remove\<close> of an index below the length.\<close>

definition remove_at :: "nat \<Rightarrow> 'a list \<Rightarrow> 'a list" where
  "remove_at i xs = take i xs @ drop (Suc i) xs"

definition synthetic_tick :: "'v w_ops \<Rightarrow> synthetic \<Rightarrow> 'v traffic_event \<times> synthetic" where
  "synthetic_tick W s =
     (let t = sy_tick s + 1; s = s\<lparr> sy_tick := t \<rparr>; phase = t mod 23
      in if phase = 0 then
           (let i = session_id t
            in (Session_Open i ''claude-code'' ''2025-06-18'', s\<lparr> sy_sessions := sy_sessions s @ [i] \<rparr>))
         else if phase = 5 \<and> sy_sessions s \<noteq> [] then
           (let k = t mod length (sy_sessions s)
            in (Session_Close (sy_sessions s ! k), s\<lparr> sy_sessions := remove_at k (sy_sessions s) \<rparr>))
         else if phase = 7 then (Kb_Stat ''sap_help'' (12400 + t mod 100) (w_lit W (12, 10)), s)
         else if phase = 11 then (Kb_Stat ''abap'' (84300 + t mod 100) (w_lit W (4, 10)), s)
         else if phase = 13 then (Kb_Stat ''bpmn'' (1120 + t mod 10) (w_lit W (31, 10)), s)
         else if phase = 17 then (Kb_Stat ''leanix'' (2980 + t mod 10) (w_lit W (9, 10)), s)
         else if phase = 3 then (cache_event W t, s)
         else if phase = 19 then (feed_log t, s)
         else (call_event t, s))"

section \<open>Rings\<close>

definition take_last :: "nat \<Rightarrow> 'a list \<Rightarrow> 'a list" where
  "take_last n xs = drop (length xs - n) xs"

lemma length_take_last [simp]: "length (take_last n xs) = min n (length xs)"
  by (simp add: take_last_def)

lemma ring_push_last: "0 < cap \<Longrightarrow> ring_push cap x (take_last cap xs) = take_last cap (xs @ [x])"
proof (cases "cap \<le> length xs")
  case True
  assume "0 < cap"
  have "tl (drop (length xs - cap) xs) = drop (Suc (length xs - cap)) xs" by (simp add: drop_Suc tl_drop)
  then show ?thesis using True \<open>0 < cap\<close> by (simp add: ring_push_def take_last_def Suc_diff_le)
next
  case False
  then show ?thesis by (simp add: ring_push_def take_last_def)
qed

section \<open>What the console shows\<close>

text \<open>The newest of the events a function selects, with what it selects.\<close>

definition latest :: "('e \<Rightarrow> 'b option) \<Rightarrow> 'e list \<Rightarrow> 'b option" where
  "latest f evs = (let ys = List.map_filter f evs in if ys = [] then None else Some (last ys))"

lemma map_filter_snoc: "List.map_filter f (xs @ [x]) = List.map_filter f xs @ (case f x of Some y \<Rightarrow> [y] | None \<Rightarrow> [])"
  by (simp add: map_filter_def split: option.split)

lemma latest_simps [simp]:
  "latest f [] = None" "latest f (evs @ [x]) = (case f x of Some y \<Rightarrow> Some y | None \<Rightarrow> latest f evs)"
  by (auto simp: latest_def Let_def map_filter_simps map_filter_snoc split: option.split)

text \<open>The calls of a tool, in order: latency, whether it failed, and the breakdown if it came with one.\<close>

fun call_of :: "string \<Rightarrow> 'v traffic_event \<Rightarrow> (nat \<times> bool \<times> latency_breakdown option) option" where
  "call_of name (Tool_Call n l f b) = (if n = name then Some (l, f, b) else None)"
| "call_of name _ = None"

definition calls_of :: "string \<Rightarrow> 'v traffic_event list \<Rightarrow> (nat \<times> bool \<times> latency_breakdown option) list" where
  "calls_of name evs = List.map_filter (call_of name) evs"

text \<open>What the other events say: of a session, that it is open or no longer; of a collection; of the cache; a line.\<close>

fun session_of :: "string \<Rightarrow> nat \<times> 'v traffic_event \<Rightarrow> session_row option option" where
  "session_of i (now, Session_Open j client protocol) =
     (if j = i then Some (Some \<lparr> sr_id = i, sr_client = client, sr_protocol = protocol, sr_tools_called = 0, sr_last_activity = now \<rparr>)
      else None)"
| "session_of i (now, Session_Close j) = (if j = i then Some None else None)"
| "session_of i _ = None"

fun collection_of :: "string \<Rightarrow> nat \<times> 'v traffic_event \<Rightarrow> (nat \<times> 'v) option" where
  "collection_of k (now, Kb_Stat c points staleness) = (if c = k then Some (points, staleness) else None)"
| "collection_of k _ = None"

fun snapshot_of :: "nat \<times> 'v traffic_event \<Rightarrow> 'v cache_snapshot option" where
  "snapshot_of (now, Cache_Stat h m n r) = Some \<lparr> sn_hits = h, sn_misses = m, sn_entries = n, sn_hit_ratio = r \<rparr>"
| "snapshot_of _ = None"

fun line_of :: "nat \<times> 'v traffic_event \<Rightarrow> log_line option" where
  "line_of (now, Log_Line level source message) = Some \<lparr> ll_at = now, ll_level = level, ll_source = source, ll_message = message \<rparr>"
| "line_of _ = None"

definition observe_all :: "'v w_ops \<Rightarrow> nat \<Rightarrow> (nat \<times> 'v traffic_event) list \<Rightarrow> 'v tui_app" where
  "observe_all W start evs = fold (\<lambda>(now, ev). observe now ev) evs (app_new W start)"

lemma observe_all_snoc: "observe_all W start (evs @ [(now, ev)]) = observe now ev (observe_all W start evs)"
  by (simp add: observe_all_def)

definition stat_exact :: "string \<Rightarrow> (nat \<times> bool \<times> latency_breakdown option) list \<Rightarrow> tool_stat \<Rightarrow> bool" where
  "stat_exact name cs s \<longleftrightarrow> tl_name s = name \<and> tl_invocations s = length cs \<and> tl_errors s = length (filter (fst \<circ> snd) cs) \<and>
     tl_samples_us s = take_last 120 (map fst cs) \<and> tl_last_breakdown s = latest (snd \<circ> snd) cs"

lemma calls_of_snoc: "calls_of name (evs @ [ev]) = calls_of name evs @ (case call_of name ev of Some c \<Rightarrow> [c] | None \<Rightarrow> [])"
  by (simp add: calls_of_def map_filter_snoc)

lemma stat_exact_new: "stat_exact name [] (tool_stat_new name)"
  by (simp add: stat_exact_def tool_stat_new_def take_last_def)

lemma stat_exact_record: "stat_exact name cs s \<Longrightarrow> stat_exact name (cs @ [(l, f, b)]) (stat_record l f b s)"
  by (auto simp: stat_exact_def stat_record_def ring_push_last split: option.split)

lemma amap_wf_console:
  "amap_wf (ap_tools (observe_all W start evs)) \<and> amap_wf (ap_sessions (observe_all W start evs)) \<and>
   amap_wf (ap_kb_collections (observe_all W start evs))"
proof (induction evs rule: rev_induct)
  case (snoc x evs)
  then show ?case by (cases x; cases "snd x") (auto simp: observe_all_snoc)
qed (simp add: observe_all_def app_new_def)

lemma tool_stats_exact:
  "(map_of (ap_tools (observe_all W start evs)) name = None \<longleftrightarrow> calls_of name (map snd evs) = []) \<and>
   stat_exact name (calls_of name (map snd evs)) (stat_of (observe_all W start evs) name)"
proof (induction evs rule: rev_induct)
  case Nil
  show ?case by (simp add: observe_all_def app_new_def calls_of_def map_filter_simps stat_of_def stat_exact_new)
next
  case (snoc x evs)
  obtain now ev where x: "x = (now, ev)" by (cases x)
  show ?case
  proof (cases ev)
    case (Tool_Call n l f b)
    then show ?thesis
      using snoc amap_wf_console [of W start evs]
      by (cases "n = name") (auto simp: x observe_all_snoc calls_of_snoc stat_of_def stat_exact_record)
  qed (use snoc in \<open>simp_all add: x observe_all_snoc calls_of_snoc stat_of_def\<close>)
qed

lemma console_feed:
  "map_of (ap_sessions (observe_all W start evs)) i = Option.bind (latest (session_of i) evs) id \<and>
   map_of (ap_kb_collections (observe_all W start evs)) i = latest (collection_of i) evs \<and>
   ap_cache (observe_all W start evs) = (case latest snapshot_of evs of Some snap \<Rightarrow> snap | None \<Rightarrow> ap_cache (app_new W start)) \<and>
   ap_logs (observe_all W start evs) = take_last 200 (List.map_filter line_of evs)"
proof (induction evs rule: rev_induct)
  case Nil
  show ?case by (simp add: observe_all_def app_new_def map_filter_simps take_last_def)
next
  case (snoc x evs)
  then show ?case
    using amap_wf_console [of W start evs]
    by (cases x; cases "snd x") (auto simp: observe_all_snoc map_filter_snoc ring_push_last)
qed

text \<open>
  C29. What the console shows is exactly what it was fed, in any order of events. A tool is listed if it was called, with
  the number of its calls and of those that failed, the latencies of the last 120 and the newest breakdown; a session
  if the newest event about it opened it, as that event says; a collection with its newest figures; the newest snapshot of
  the cache; and the last 200 lines of the log with their times.
\<close>

theorem console_shows_feed:
  "(map_of (ap_tools (observe_all W start evs)) name = None \<longleftrightarrow> calls_of name (map snd evs) = []) \<and>
   stat_exact name (calls_of name (map snd evs)) (stat_of (observe_all W start evs) name) \<and>
   map_of (ap_sessions (observe_all W start evs)) i = Option.bind (latest (session_of i) evs) id \<and>
   map_of (ap_kb_collections (observe_all W start evs)) k = latest (collection_of k) evs \<and>
   ap_cache (observe_all W start evs) = (case latest snapshot_of evs of
     Some snap \<Rightarrow> snap
   | None \<Rightarrow> \<lparr> sn_hits = 0, sn_misses = 0, sn_entries = 0, sn_hit_ratio = w_lit W (0, 1) \<rparr>) \<and>
   ap_logs (observe_all W start evs) = take_last 200 (List.map_filter line_of evs)"
  using tool_stats_exact [of W start evs name] console_feed [of W start evs i] console_feed [of W start evs k]
  by (simp add: app_new_def split: option.split)

text \<open>A percentile is one of the samples.\<close>

lemma quantile_sample: "v \<noteq> [] \<Longrightarrow> quantile W q v \<in> set v"
  by (simp add: quantile_def nth_mem min.strict_coboundedI2)

lemma percentile_sample: "tl_samples_us s \<noteq> [] \<Longrightarrow> percentile W q s \<in> set (tl_samples_us s)"
  using quantile_sample [of "sort (tl_samples_us s)" W q] by (metis length_0_conv length_sort percentile_def set_sort)

section \<open>Bounds\<close>

definition app_wf :: "'v tui_app \<Rightarrow> bool" where
  "app_wf a \<longleftrightarrow> ap_current_tab a < 5 \<and> amap_wf (ap_scroll a) \<and> list_all (\<lambda>(t, v). t < 5 \<and> v < 2 ^ 16) (ap_scroll a) \<and>
     length (ap_logs a) \<le> 200 \<and> list_all (\<lambda>(i, r). sr_id r = i \<and> sr_tools_called r = 0) (ap_sessions a)"

lemma list_all_amap_insert: "list_all P m \<Longrightarrow> P (k, v) \<Longrightarrow> list_all P (amap_insert k v m)"
  by (induction m rule: amap_insert.induct) auto

lemma scrolled_bound: "app_wf a \<Longrightarrow> scrolled a < 2 ^ 16"
  by (auto simp: app_wf_def scrolled_def list_all_iff dest!: map_of_SomeD split: option.split)

lemma observe_wf: "app_wf a \<Longrightarrow> app_wf (observe now ev a)"
proof (cases ev)
  case (Session_Close i)
  assume "app_wf a"
  then show ?thesis using Session_Close by (auto simp: app_wf_def amap_remove_def list_all_iff)
qed (auto simp: app_wf_def ring_push_def intro!: list_all_amap_insert)

text \<open>A key leaves the console or moves within it.\<close>

lemma press_moves:
  assumes "press k a = Some a'"
  shows "(\<exists>n. a' = set_tab n a) \<or> a' \<in> {next_tab a, prev_tab a, scroll_down a, scroll_up a, a}"
  using assms by (simp add: press_def split: if_split_asm) blast+

lemma press_wf:
  assumes "app_wf a" "press k a = Some a'"
  shows "app_wf a'"
proof -
  note bound = scrolled_bound [OF assms(1)]
  have "app_wf (set_tab n a)" "app_wf (next_tab a)" "app_wf (prev_tab a)" for n
    using assms(1) by (simp_all add: app_wf_def set_tab_def next_tab_def prev_tab_def)
  moreover have "app_wf (scroll_down a)" "app_wf (scroll_up a)"
    using assms(1) bound by (auto simp: app_wf_def scroll_down_def scroll_up_def intro!: list_all_amap_insert)
  ultimately show ?thesis
    using assms(1) press_moves [OF assms(2)] by auto
qed

lemma app_new_wf: "app_wf (app_new W now)"
  by (simp add: app_wf_def app_new_def)

text \<open>Going back undoes going on.\<close>

lemma prev_next_tab: "app_wf a \<Longrightarrow> prev_tab (next_tab a) = a"
proof -
  assume "app_wf a"
  then have "ap_current_tab a \<in> {0, 1, 2, 3, 4}" by (auto simp: app_wf_def)
  then show ?thesis by (auto simp: prev_tab_def next_tab_def)
qed

section \<open>The feed and the console\<close>

text \<open>
  The loop of the program: before each input the console is drawn, which may fail; a tick of the refresh interval observes
  one event of the feed, and a key acts on the console. It runs while it is not told to end.
\<close>

datatype 'e tui_input = Tui_Tick nat | Tui_Key key_code | Tui_Other | Tui_Read_Failed 'e | Tui_Draw_Failed 'e | Tui_Closed

datatype 'e tui_outcome = Tui_Running | Tui_Ended | Tui_Failed 'e

fun tui_loop :: "'v w_ops \<Rightarrow> 'e tui_input list \<Rightarrow> synthetic \<Rightarrow> 'v tui_app \<Rightarrow> 'e tui_outcome \<times> synthetic \<times> 'v tui_app" where
  "tui_loop W [] traffic a = (Tui_Running, traffic, a)"
| "tui_loop W (Tui_Tick now # inputs) traffic a =
     (case synthetic_tick W traffic of (ev, traffic') \<Rightarrow> tui_loop W inputs traffic' (observe now ev a))"
| "tui_loop W (Tui_Key k # inputs) traffic a =
     (case press k a of None \<Rightarrow> (Tui_Ended, traffic, a) | Some a' \<Rightarrow> tui_loop W inputs traffic a')"
| "tui_loop W (Tui_Other # inputs) traffic a = tui_loop W inputs traffic a"
| "tui_loop W (Tui_Read_Failed e # inputs) traffic a = (Tui_Failed e, traffic, a)"
| "tui_loop W (Tui_Draw_Failed e # inputs) traffic a = (Tui_Failed e, traffic, a)"
| "tui_loop W (Tui_Closed # inputs) traffic a = (Tui_Ended, traffic, a)"

definition tui_main :: "'v w_ops \<Rightarrow> nat \<Rightarrow> 'e tui_input list \<Rightarrow> 'e tui_outcome \<times> synthetic \<times> 'v tui_app" where
  "tui_main W now inputs = tui_loop W inputs synthetic_new (app_new W now)"

definition open_session :: "nat \<Rightarrow> string list" where
  "open_session n = (if 23 \<le> n \<and> n mod 23 < 5 then [session_id (n - n mod 23)] else [])"

lemma feed_event_sessions:
  assumes "sy_sessions s = open_session (sy_tick s)" "sy_tick s = n" "map fst (ap_sessions a) = open_session n"
  shows "sy_sessions (snd (synthetic_tick W s)) = open_session (Suc n) \<and> sy_tick (snd (synthetic_tick W s)) = Suc n \<and>
    map fst (ap_sessions (observe now (fst (synthetic_tick W s)) a)) = open_session (Suc n)"
proof -
  consider (opens) "Suc n mod 23 = 0" | (closes) "Suc n mod 23 = 5" "23 \<le> n" | (other) "Suc n mod 23 \<noteq> 0" "Suc n mod 23 = 5 \<longrightarrow> n < 23"
    by (meson not_less)
  then show ?thesis
  proof cases
    case opens
    then have "n mod 23 = 22" by (simp add: mod_Suc split: if_splits)
    then have "open_session n = []" "open_session (Suc n) = [session_id (Suc n)]"
      using opens by (auto simp: open_session_def)
    then show ?thesis
      using assms opens by (auto simp: synthetic_tick_def Let_def)
  next
    case closes
    then have "n mod 23 = 4" by (simp add: mod_Suc split: if_splits)
    then have "open_session n = [session_id (n - n mod 23)]" "open_session (Suc n) = []"
      using closes by (auto simp: open_session_def)
    then show ?thesis
      using assms closes by (auto simp: synthetic_tick_def Let_def remove_at_def amap_remove_def filter_empty_conv)
  next
    case other
    have step: "Suc n mod 23 = Suc (n mod 23)" using other(1) by (simp add: mod_Suc split: if_splits)
    have "n \<noteq> 22" using other(1) by auto
    moreover have "n mod 23 = 4 \<longrightarrow> n < 23" using other(2) step by simp
    ultimately have same: "open_session (Suc n) = open_session n"
      by (auto simp: open_session_def step)
    have idle: "Suc n mod 23 = 5 \<longrightarrow> open_session n = []"
      using other by (auto simp: open_session_def)
    then show ?thesis
      using assms other same
      by (auto simp: synthetic_tick_def Let_def cache_event_def feed_log_def call_event_def)
  qed
qed

definition console_ok :: "synthetic \<Rightarrow> 'v tui_app \<Rightarrow> bool" where
  "console_ok traffic a \<longleftrightarrow> app_wf a \<and> sy_sessions traffic = open_session (sy_tick traffic) \<and>
     map fst (ap_sessions a) = open_session (sy_tick traffic)"

lemma moves_keep_sessions:
  "ap_sessions (set_tab n a) = ap_sessions a" "ap_sessions (next_tab a) = ap_sessions a" "ap_sessions (prev_tab a) = ap_sessions a"
  "ap_sessions (scroll_down a) = ap_sessions a" "ap_sessions (scroll_up a) = ap_sessions a"
  by (simp_all add: set_tab_def next_tab_def prev_tab_def scroll_down_def scroll_up_def)

lemma press_sessions: "press k a = Some a' \<Longrightarrow> ap_sessions a' = ap_sessions a"
  by (auto dest!: press_moves simp: moves_keep_sessions)

lemma console_ok_tick:
  assumes "console_ok traffic a" "synthetic_tick W traffic = (ev, traffic')"
  shows "console_ok traffic' (observe now ev a)" "sy_tick traffic' = Suc (sy_tick traffic)"
  using assms feed_event_sessions [of traffic "sy_tick traffic" a W now] by (auto simp: console_ok_def observe_wf)

lemma console_ok_press: "console_ok traffic a \<Longrightarrow> press k a = Some a' \<Longrightarrow> console_ok traffic a'"
  unfolding console_ok_def by (metis press_wf press_sessions)

lemma tui_loop_ok: "console_ok traffic a \<Longrightarrow> tui_loop W inputs traffic a = (r, traffic', a') \<Longrightarrow> console_ok traffic' a'"
proof (induction W inputs traffic a rule: tui_loop.induct)
  case (2 W now inputs traffic a)
  then show ?case using console_ok_tick(1) [OF 2(2)] by (auto split: prod.splits)
next
  case (3 W k inputs traffic a)
  then show ?case using console_ok_press [OF 3(2)] by (auto split: option.splits)
qed auto

text \<open>
  Whatever keys are pressed between the ticks, the console stays within its tabs and rings, and it shows the session the
  feed has open, from the tick that opens it until the fifth after; so there is at most one, and closing never indexes past
  the end.
\<close>

lemma console_run:
  assumes "tui_main W now inputs = (r, traffic, a)"
  shows "app_wf a \<and> sy_sessions traffic = open_session (sy_tick traffic) \<and> map fst (ap_sessions a) = open_session (sy_tick traffic)"
proof -
  have "console_ok synthetic_new (app_new W now)"
    by (simp add: console_ok_def app_new_wf) (simp add: synthetic_new_def open_session_def app_new_def)
  from tui_loop_ok [OF this assms [unfolded tui_main_def]] show ?thesis
    unfolding console_ok_def .
qed

text \<open>Only a key to leave, a failure or the end of the input stops the loop.\<close>

lemma tui_runs_on:
  "list_all (\<lambda>i. case i of Tui_Key k \<Rightarrow> k \<notin> {Key_Char (CHR ''q''), Key_Esc} | Tui_Tick _ \<Rightarrow> True | Tui_Other \<Rightarrow> True | _ \<Rightarrow> False) inputs
    \<longleftrightarrow> fst (tui_loop W inputs traffic a) = Tui_Running"
proof (induction W inputs traffic a rule: tui_loop.induct)
  case (3 W k inputs traffic a)
  have "press k a = None \<longleftrightarrow> k \<in> {Key_Char (CHR ''q''), Key_Esc}" by (auto simp: press_def)
  then show ?case using 3 by (cases "press k a") auto
qed (auto split: prod.split)

end
