(* ===== verification/Crawler.thy ===== *)
theory Crawler
  imports Kb_Schema Http_Client
begin

text \<open>
  The crawler of help pages (\<open>sap-automate-ingest/src/crawler.rs\<close>): a page is parsed into a title, breadcrumbs, a
  body and a module, a directory is walked with a stack, a URL is fetched with its entity tag. The HTML library, the file
  system, the HTTP client, the URL parser and the hashes are parameters. The walk may run for ever (a directory
  may contain itself through a link), so it is a partial function, \<open>None\<close> when it does not end. Shown: over a file
  system that is a tree the walk ends and returns each readable page once.
\<close>

section \<open>Pages\<close>

datatype crawl_error = Crawl_Io string | Crawl_Http string | Crawl_Parse string

record parsed_page =
  pp_title :: string
  pp_breadcrumbs :: "string list"
  pp_body :: string
  pp_module :: "string option"

text \<open>Parsing a document, selecting elements (\<open>None\<close> for a selector that is not one), their texts and attributes.\<close>

record ('doc, 'el) html_lib =
  hl_parse :: "string \<Rightarrow> 'doc"
  hl_select :: "'doc \<Rightarrow> string \<Rightarrow> 'el list option"
  hl_text :: "'el \<Rightarrow> string list"
  hl_attr :: "'el \<Rightarrow> string \<Rightarrow> string option"

definition element_text :: "('doc, 'el) html_lib \<Rightarrow> 'el \<Rightarrow> string" where
  "element_text H el = join '' '' (hl_text H el)"

fun pick_text :: "('doc, 'el) html_lib \<Rightarrow> 'doc \<Rightarrow> string list \<Rightarrow> string option" where
  "pick_text H doc [] = None"
| "pick_text H doc (raw # selectors) =
     (case hl_select H doc raw of
        Some (el # _) \<Rightarrow>
          (let trimmed = trim (element_text H el)
           in if trimmed \<noteq> [] then Some trimmed else pick_text H doc selectors)
      | _ \<Rightarrow> pick_text H doc selectors)"

definition collect_text :: "('doc, 'el) html_lib \<Rightarrow> 'doc \<Rightarrow> string \<Rightarrow> string list" where
  "collect_text H doc raw = (case hl_select H doc raw of None \<Rightarrow> [] | Some els \<Rightarrow> map (element_text H) els)"

definition pick_meta :: "('doc, 'el) html_lib \<Rightarrow> 'doc \<Rightarrow> string \<Rightarrow> string option" where
  "pick_meta H doc name =
     (case hl_select H doc (''meta[name='' @ [CHR 0x22] @ name @ [CHR 0x22] @ '']'') of
        Some (el # _) \<Rightarrow> hl_attr H el ''content''
      | _ \<Rightarrow> None)"

definition or_empty :: "string option \<Rightarrow> string" where
  "or_empty o' = (case o' of Some s \<Rightarrow> s | None \<Rightarrow> [])"

definition parse_help_portal_html :: "('doc, 'el) html_lib \<Rightarrow> string \<Rightarrow> (crawl_error, parsed_page) result" where
  "parse_help_portal_html H raw =
     (let doc = hl_parse H raw;
          title = trim (or_empty (pick_text H doc [''h1'', ''title'']))
      in if title = [] then Inl (Crawl_Parse ''missing title'')
         else (let breadcrumbs = filter (\<lambda>s. s \<noteq> []) (map trim (collect_text H doc ''nav.breadcrumb a, .breadcrumb li, [data-breadcrumb] a''));
                   body = join '' '' (split_whitespace (or_empty (pick_text H doc [''main'', ''article'', ''.content'', ''#content'', ''body''])))
               in if body = [] then Inl (Crawl_Parse ''empty body'')
                  else Inr \<lparr> pp_title = title, pp_breadcrumbs = breadcrumbs, pp_body = body, pp_module = pick_meta H doc ''module'' \<rparr>))"

section \<open>Files\<close>

text \<open>The last component of a path, unless it is \<open>..\<close>; a name without a dot after its first character has no extension.\<close>

definition path_file_name :: "string \<Rightarrow> string option" where
  "path_file_name p =
     (case filter (\<lambda>c. c \<noteq> [] \<and> c \<noteq> ''.'') (split_on (CHR ''/'') p) of
        [] \<Rightarrow> None
      | cs \<Rightarrow> if last cs = ''..'' then None else Some (last cs))"

definition split_at_dot :: "string \<Rightarrow> string \<times> string option" where
  "split_at_dot name =
     (let parts = split_on (CHR ''.'') name
      in if length parts = 1 \<or> join ''.'' (butlast parts) = [] then (name, None) else (join ''.'' (butlast parts), Some (last parts)))"

definition file_stem :: "string \<Rightarrow> string option" where
  "file_stem p = map_option (fst \<circ> split_at_dot) (path_file_name p)"

definition path_extension :: "string \<Rightarrow> string option" where
  "path_extension p = Option.bind (path_file_name p) (snd \<circ> split_at_dot)"

record ('doc, 'el) crawl_env =
  ce_html :: "('doc, 'el) html_lib"
  ce_is_dir :: "string \<Rightarrow> (string, bool) result"
  ce_read_dir :: "string \<Rightarrow> (string, string list) result"
  ce_read_to_string :: "string \<Rightarrow> (string, string) result"
  ce_content_hash :: "string \<Rightarrow> string"

definition page_document :: "('doc, 'el) crawl_env \<Rightarrow> string \<Rightarrow> domain \<Rightarrow> string \<Rightarrow> parsed_page \<Rightarrow> document" where
  "page_document E i d uri page =
     (document_new (ce_content_hash E) i d uri (pp_title page) (pp_body page))
       \<lparr> doc_breadcrumbs := pp_breadcrumbs page,
         doc_metadata := (case pp_module page of Some m \<Rightarrow> [(''module'', m)] | None \<Rightarrow> []) \<rparr>"

definition crawl_file :: "('doc, 'el) crawl_env \<Rightarrow> domain \<Rightarrow> string \<Rightarrow> (crawl_error, document) result" where
  "crawl_file E d path =
     (case ce_read_to_string E path of
        Inl e \<Rightarrow> Inl (Crawl_Io e)
      | Inr raw \<Rightarrow>
          (case parse_help_portal_html (ce_html E) raw of
             Inl e \<Rightarrow> Inl e
           | Inr page \<Rightarrow>
               Inr (page_document E
                 (collection d @ '':'' @ (case file_stem path of Some s \<Rightarrow> s | None \<Rightarrow> ''unknown'')) d (''file://'' @ path) page)))"

text \<open>The loop; the stack has its top first. Pages that cannot be read are passed over.\<close>

partial_function (option) crawl_loop ::
  "('doc, 'el) crawl_env \<Rightarrow> domain \<Rightarrow> string list \<Rightarrow> document list \<Rightarrow> (crawl_error, document list) result option" where
  "crawl_loop E d stack docs =
     (case stack of
        [] \<Rightarrow> Some (Inr docs)
      | p # rest \<Rightarrow>
          (case ce_is_dir E p of
             Inl e \<Rightarrow> Some (Inl (Crawl_Io e))
           | Inr is_dir \<Rightarrow>
               if is_dir
               then (case ce_read_dir E p of
                  Inl e \<Rightarrow> Some (Inl (Crawl_Io e))
                | Inr entries \<Rightarrow> crawl_loop E d (rev entries @ rest) docs)
               else if path_extension p = Some ''html''
               then crawl_loop E d rest (case crawl_file E d p of Inr doc \<Rightarrow> docs @ [doc] | Inl _ \<Rightarrow> docs)
               else crawl_loop E d rest docs))"

definition crawl_directory :: "('doc, 'el) crawl_env \<Rightarrow> domain \<Rightarrow> string \<Rightarrow> (crawl_error, document list) result option" where
  "crawl_directory E d root = crawl_loop E d [root] []"

section \<open>Fetching\<close>

record page_answer =
  fa_status :: nat
  fa_status_text :: string
  fa_etag :: "string option"
  fa_body :: "(string, string) result"

definition derive_id_from_url :: "(string \<Rightarrow> string option) \<Rightarrow> (string \<Rightarrow> string) \<Rightarrow> string \<Rightarrow> domain \<Rightarrow> string" where
  "derive_id_from_url url_path sha_short url d =
     collection d @ '':'' @
       (case url_path url of
          Some path \<Rightarrow> replace_char (CHR ''/'') ''_'' (trim_start_matches (CHR ''/'') path)
        | None \<Rightarrow> sha_short url)"

text \<open>The request carries the entity tag of the last answer, if there is one.\<close>

definition fetch_url ::
  "('doc, 'el) crawl_env \<Rightarrow> (string \<Rightarrow> string option) \<Rightarrow> (string \<Rightarrow> string) \<Rightarrow> domain \<Rightarrow>
    (string \<Rightarrow> string option \<Rightarrow> (string, page_answer) result) \<Rightarrow> string \<Rightarrow> string option \<Rightarrow>
    (crawl_error, (document \<times> string option) option) result" where
  "fetch_url E url_path sha_short d get url previous_etag =
     (case get url previous_etag of
        Inl e \<Rightarrow> Inl (Crawl_Http e)
      | Inr resp \<Rightarrow>
          if fa_status resp = 304 then Inr None
          else if \<not> is_success (fa_status resp) then Inl (Crawl_Http (url @ '' -> '' @ fa_status_text resp))
          else (case fa_body resp of
                  Inl e \<Rightarrow> Inl (Crawl_Http e)
                | Inr body \<Rightarrow>
                    (case parse_help_portal_html (ce_html E) body of
                       Inl e \<Rightarrow> Inl e
                     | Inr page \<Rightarrow>
                         Inr (Some ((page_document E (derive_id_from_url url_path sha_short url d) d url page)\<lparr> doc_etag := fa_etag resp \<rparr>,
                           fa_etag resp)))))"


section \<open>Directories that are trees\<close>

datatype fs_tree = File | Dir "(string \<times> fs_tree) list"

lemma entry_size [termination_simp]: "(n, t) \<in> set es \<Longrightarrow> size t < Suc (size_list (size_prod (\<lambda>_. 0) size) es)"
  by (induction es) auto

text \<open>The file system below a path is this tree; files may be unreadable or hold anything.\<close>

fun mirrors :: "('doc, 'el) crawl_env \<Rightarrow> string \<Rightarrow> fs_tree \<Rightarrow> bool" where
  "mirrors E p File \<longleftrightarrow> ce_is_dir E p = Inr False"
| "mirrors E p (Dir es) \<longleftrightarrow> ce_is_dir E p = Inr True \<and> ce_read_dir E p = Inr (map (\<lambda>(n, _). p @ ''/'' @ n) es) \<and>
     (\<forall>(n, t) \<in> set es. mirrors E (p @ ''/'' @ n) t)"

definition page_at :: "('doc, 'el) crawl_env \<Rightarrow> domain \<Rightarrow> string \<Rightarrow> document list" where
  "page_at E d p = (if path_extension p = Some ''html'' then (case crawl_file E d p of Inr doc \<Rightarrow> [doc] | Inl _ \<Rightarrow> []) else [])"

text \<open>The paths of the files below a path, the last entry of a directory first.\<close>

fun files_below :: "string \<Rightarrow> fs_tree \<Rightarrow> string list" where
  "files_below p File = [p]"
| "files_below p (Dir es) = concat (rev (map (\<lambda>(n, t). files_below (p @ ''/'' @ n) t) es))"

lemma crawl_loop_file:
  "ce_is_dir E p = Inr False \<Longrightarrow> crawl_loop E d (p # rest) docs = crawl_loop E d rest (docs @ page_at E d p)"
  by (subst crawl_loop.simps) (simp add: page_at_def split: sum.split)

lemma crawl_loop_dir:
  "ce_is_dir E p = Inr True \<Longrightarrow> ce_read_dir E p = Inr entries \<Longrightarrow>
   crawl_loop E d (p # rest) docs = crawl_loop E d (rev entries @ rest) docs"
  by (subst crawl_loop.simps) simp

lemma crawl_loop_tree:
  "mirrors E p t \<Longrightarrow> crawl_loop E d (p # rest) docs = crawl_loop E d rest (docs @ concat (map (page_at E d) (files_below p t)))"
proof (induction p t arbitrary: rest docs rule: files_below.induct)
  case (1 p)
  then show ?case by (simp add: crawl_loop_file)
next
  case (2 p es)
  have "crawl_loop E d (rev (map (\<lambda>(n, _). p @ ''/'' @ n) es') @ rest) docs =
      crawl_loop E d rest (docs @ concat (map (page_at E d) (files_below p (Dir es'))))"
    if "set es' \<subseteq> set es" for es' rest docs
    using that
  proof (induction es' arbitrary: rest docs)
    case (Cons e es')
    obtain n t where e: "e = (n, t)" by (cases e)
    have "mirrors E (p @ ''/'' @ n) t" using 2(2) Cons.prems e by auto
    then have "crawl_loop E d ((p @ ''/'' @ n) # rest) docs' =
        crawl_loop E d rest (docs' @ concat (map (page_at E d) (files_below (p @ ''/'' @ n) t)))" for docs'
      using 2(1) [of "(n, t)" n t] Cons.prems e by auto
    moreover have "set es' \<subseteq> set es" using Cons.prems by simp
    note Cons.IH [OF this, of "(p @ ''/'' @ n) # rest" docs]
    ultimately show ?case by (simp add: e)
  qed simp
  with 2(2) show ?case by (simp add: crawl_loop_dir)
qed

text \<open>Where every path is a directory with an entry, as a link to a parent makes it, the walk does not end.\<close>

lemma endless_directory:
  assumes "\<And>p. ce_is_dir E p = Inr True" "\<And>p. ce_read_dir E p = Inr [p @ ''/self'']"
  shows "crawl_directory E d root = None"
proof -
  have "E' = E \<longrightarrow> stack = []" if "crawl_loop E' d stack docs = Some r" for E' stack docs r
  proof (rule crawl_loop.raw_induct [where P = "\<lambda>E' d stack docs r. E' = E \<longrightarrow> stack = []", OF _ that])
    fix loop :: "('a, 'b) crawl_env \<Rightarrow> domain \<Rightarrow> string list \<Rightarrow> document list \<Rightarrow> (crawl_error, document list) result option"
      and E' d stack docs r
    assume IH: "\<And>E' d stack docs r. loop E' d stack docs = Some r \<Longrightarrow> E' = E \<longrightarrow> stack = []"
      and step: "(case stack of
        [] \<Rightarrow> Some (Inr docs)
      | p # rest \<Rightarrow>
          (case ce_is_dir E' p of
             Inl e \<Rightarrow> Some (Inl (Crawl_Io e))
           | Inr is_dir \<Rightarrow>
               if is_dir
               then (case ce_read_dir E' p of
                  Inl e \<Rightarrow> Some (Inl (Crawl_Io e))
                | Inr entries \<Rightarrow> loop E' d (rev entries @ rest) docs)
               else if path_extension p = Some ''html''
               then loop E' d rest (case crawl_file E' d p of Inr doc \<Rightarrow> docs @ [doc] | Inl _ \<Rightarrow> docs)
               else loop E' d rest docs)) = Some r"
    show "E' = E \<longrightarrow> stack = []"
    proof (intro impI, cases stack)
      fix p rest
      assume E': "E' = E" and "stack = p # rest"
      with step assms have "loop E d ([p @ ''/self''] @ rest) docs = Some r" by simp
      from IH [OF this] E' show "stack = []" by simp
    qed
  qed
  from this [of E "[root]"] have "crawl_loop E d [root] [] \<noteq> Some r" for r by auto
  then show ?thesis unfolding crawl_directory_def by (meson not_None_eq)
qed

text \<open>An entry that cannot be examined, say a dangling link, ends the walk; the pages found so far are lost.\<close>

lemma dangling_entry_aborts:
  "ce_is_dir E p = Inl e \<Longrightarrow> crawl_loop E d (p # rest) docs = Some (Inl (Crawl_Io e))"
  by (subst crawl_loop.simps) simp

section \<open>Identifiers\<close>

text \<open>Pages of the same name in different directories get the same identifier, and so do some URLs.\<close>

lemma same_stem_same_id:
  "crawl_file E d a = Inr x \<Longrightarrow> crawl_file E d b = Inr y \<Longrightarrow> file_stem a = file_stem b \<Longrightarrow> doc_id x = doc_id y"
  by (auto simp: crawl_file_def page_document_def document_new_def split: sum.splits)

lemma stems: "file_stem ''docs/fi/index.html'' = Some ''index''" "file_stem ''docs/mm/index.html'' = Some ''index''"
  "path_extension ''docs/fi/index.html'' = Some ''html''" "path_extension ''docs/.html'' = None"
  by code_simp+

lemma url_ids_collide:
  assumes "url_path u = Some ''/docs/a_b''" "url_path v = Some ''/docs/a/b''"
  shows "derive_id_from_url url_path sha_short u d = derive_id_from_url url_path sha_short v d"
  using assms by (simp add: derive_id_from_url_def trim_start_matches_def replace_char_def)

section \<open>Fetching\<close>

lemma fetch_url_result:
  "fetch_url E url_path sha_short d get url tag = Inr (Some (doc, tag')) \<Longrightarrow>
     doc_etag doc = tag' \<and> doc_uri doc = url \<and> doc_domain doc = d \<and> doc_body doc \<noteq> [] \<and> doc_title doc \<noteq> [] \<and>
     (\<exists>resp. get url tag = Inr resp \<and> is_success (fa_status resp) \<and> fa_etag resp = tag')"
  by (auto simp: fetch_url_def page_document_def document_new_def parse_help_portal_html_def Let_def
      split: sum.splits if_splits)


section \<open>The walk\<close>

fun names_ok :: "fs_tree \<Rightarrow> bool" where
  "names_ok File \<longleftrightarrow> True"
| "names_ok (Dir es) \<longleftrightarrow> distinct (map fst es) \<and> (\<forall>(n, t) \<in> set es. CHR ''/'' \<notin> set n \<and> names_ok t)"

lemma files_below_prefix: "q \<in> set (files_below p t) \<Longrightarrow> q = p \<or> prefix (p @ ''/'') q"
proof (induction p t rule: files_below.induct)
  case (2 p es)
  then obtain n t where nt: "(n, t) \<in> set es" "q \<in> set (files_below (p @ ''/'' @ n) t)" by auto
  with "2.IH" [of "(n, t)" n t] have "q = p @ ''/'' @ n \<or> prefix ((p @ ''/'' @ n) @ ''/'') q" by auto
  then show ?case by (auto simp: prefix_def)
qed simp

lemma first_component:
  assumes "q \<in> set (files_below (p @ ''/'' @ n) t)" "CHR ''/'' \<notin> set n"
  shows "takeWhile (\<lambda>c. c \<noteq> CHR ''/'') (drop (Suc (length p)) q) = n"
proof -
  have "drop (Suc (length p)) q = n \<or> (\<exists>r. drop (Suc (length p)) q = n @ CHR ''/'' # r)"
    using files_below_prefix [OF assms(1)] by (auto simp: prefix_def)
  moreover have "takeWhile (\<lambda>c. c \<noteq> CHR ''/'') (n @ r) = n @ takeWhile (\<lambda>c. c \<noteq> CHR ''/'') r" for r
    using assms(2) by (induction n) auto
  from this [of "[]"] this [of "CHR ''/'' # r" for r]
  have "takeWhile (\<lambda>c. c \<noteq> CHR ''/'') n = n" "takeWhile (\<lambda>c. c \<noteq> CHR ''/'') (n @ CHR ''/'' # r) = n" for r by simp_all
  ultimately show ?thesis by (elim disjE exE) (simp_all only:)
qed

lemma files_below_distinct: "names_ok t \<Longrightarrow> distinct (files_below p t)"
proof (induction p t rule: files_below.induct)
  case (2 p es)
  have "distinct (concat (map (\<lambda>(n, t). files_below (p @ ''/'' @ n) t) es'))"
    if "set es' \<subseteq> set es" "distinct (map fst es')" for es'
    using that
  proof (induction es')
    case (Cons e es')
    obtain n t where e: "e = (n, t)" by (cases e)
    have ok: "CHR ''/'' \<notin> set n" "names_ok t" "(n, t) \<in> set es" using 2(2) Cons.prems(1) e by auto
    then have "distinct (files_below (p @ ''/'' @ n) t)" using 2(1) [of "(n, t)" n t] by simp
    moreover have "set (files_below (p @ ''/'' @ n) t) \<inter> set (files_below (p @ ''/'' @ m) u) = {}"
      if "(m, u) \<in> set es'" for m u
    proof -
      have "CHR ''/'' \<notin> set m" using 2(2) Cons.prems(1) that by auto
      moreover have "m \<noteq> n" using Cons.prems(2) that e by force
      ultimately have "q \<notin> set (files_below (p @ ''/'' @ m) u)" if "q \<in> set (files_below (p @ ''/'' @ n) t)" for q
        using first_component [OF that ok(1)] first_component [of q p m u] by auto
      then show ?thesis by blast
    qed
    moreover have "distinct (concat (map (\<lambda>(n, t). files_below (p @ ''/'' @ n) t) es'))"
      using Cons by simp
    ultimately show ?case by (fastforce simp: e)
  qed simp
  from this [of "rev es"] have "distinct (concat (map (\<lambda>(n, t). files_below (p @ ''/'' @ n) t) (rev es)))"
    using 2(2) by (simp add: rev_map [symmetric])
  then show ?case by (simp add: rev_map)
qed simp

text \<open>
  Over a file system that is a tree the walk ends and gives, for every HTML file that can be read and parsed, its document,
  each file once, the entries of a directory in reverse.
\<close>

lemma crawl_directory_collects:
  assumes "mirrors E root t" "names_ok t"
  shows "crawl_directory E d root = Some (Inr (concat (map (page_at E d) (files_below root t)))) \<and> distinct (files_below root t)"
  using crawl_loop_tree [OF assms(1), of d "[]" "[]"] files_below_distinct [OF assms(2)]
  by (simp add: crawl_directory_def crawl_loop.simps [of E d "[]"])

end
