(* ===== verification/Programs.thy ===== *)
theory Programs
  imports Tui Crawler Embedders
begin

text \<open>
  The command-line programs around the ingestion and the search: \<open>apps/sap-automate-ingest/src/main.rs\<close> with its store in
  memory, and the acceptance benchmark \<open>apps/sap-automate-bench/src/main.rs\<close>. They compose the crawler, the embedding
  clients, the pipeline and the store of their own theories; the measured times of the benchmark are a parameter. Shown:
  ingestion with the offline client ends and stores what was crawled, a preview is never longer than asked, and what a passed
  gate says of the queries measured.
\<close>

section \<open>Ingestion\<close>

datatype ingest_backend = Backend_Memory | Backend_Qdrant

datatype ingest_embedder = Embedder_Mock | Embedder_Openai

record ingest_cli =
  ic_input_dir :: string
  ic_backend :: ingest_backend
  ic_qdrant_url :: string
  ic_embedder :: ingest_embedder
  ic_embedding_dim :: nat
  ic_openai_base_url :: string
  ic_openai_api_key :: "string option"
  ic_openai_model :: string
  ic_verify_query :: "string option"

definition ingest_cli_default :: "string \<Rightarrow> ingest_cli" where
  "ingest_cli_default input_dir =
     \<lparr> ic_input_dir = input_dir, ic_backend = Backend_Memory, ic_qdrant_url = ''http://localhost:6333'', ic_embedder = Embedder_Mock,
       ic_embedding_dim = 256, ic_openai_base_url = ''https://api.openai.com/v1'', ic_openai_api_key = None,
       ic_openai_model = ''text-embedding-3-large'', ic_verify_query = None \<rparr>"

datatype chosen_embedder = Chosen_Mock nat | Chosen_Openai openai_embedder

definition choose_embedder :: "(string \<Rightarrow> string option) \<Rightarrow> ingest_cli \<Rightarrow> (string, chosen_embedder) result" where
  "choose_embedder env cli =
     (case ic_embedder cli of
        Embedder_Mock \<Rightarrow> Inr (Chosen_Mock (ic_embedding_dim cli))
      | Embedder_Openai \<Rightarrow>
          (case (case ic_openai_api_key cli of Some k \<Rightarrow> Some k | None \<Rightarrow> env ''OPENAI_API_KEY'') of
             None \<Rightarrow> Inl ''openai embedder requires --openai-api-key or $OPENAI_API_KEY''
           | Some key \<Rightarrow> Inr (Chosen_Openai (openai_new (ic_openai_base_url cli) key (ic_openai_model cli) (ic_embedding_dim cli)))))"

text \<open>What the programs need of the libraries; the offline client has at least one dimension here.\<close>

record ('f, 'b) program_libs =
  pl_float :: "'f f32_ops"
  pl_alnum :: "string \<Rightarrow> bool"
  pl_lower :: "string \<Rightarrow> string"
  pl_hash32 :: "string \<Rightarrow> nat"
  pl_hash :: "string \<Rightarrow> string"
  pl_openai :: "('f, 'b) openai_env"
  pl_order :: "'f iteration"

definition client_of :: "('f, 'b) program_libs \<Rightarrow> chosen_embedder \<Rightarrow> 'f embedder" where
  "client_of L c =
     (case c of
        Chosen_Mock dm \<Rightarrow> mock_client (pl_float L) (pl_alnum L) (pl_lower L) (pl_hash32 L) (dm - 1)
      | Chosen_Openai o' \<Rightarrow> openai_client (pl_openai L) o')"

text \<open>The preview of a hit: so many characters, and an ellipsis of three bytes where it was cut.\<close>

definition preview :: "string \<Rightarrow> nat \<Rightarrow> string" where
  "preview s n = (if length (utf8_chars s) \<le> n then s else concat (take n (utf8_chars s)) @ ellipsis)"

datatype ingest_failure = Failed_Setup string | Failed_Crawl crawl_error | Failed_Pipeline pipeline_error | Failed_Query string

record 'f ingest_result =
  io_documents :: nat
  io_report :: ingestion_report
  io_chunks :: nat
  io_hits :: "('f \<times> string \<times> string) list"

definition verify_hits :: "('f, 'b) program_libs \<Rightarrow> 'f list \<Rightarrow> string \<Rightarrow> 'f in_memory_kb \<Rightarrow> ('f \<times> string \<times> string) list" where
  "verify_hits L v query kb =
     map (\<lambda>h. (sh_score h, ch_title (sh_chunk h), preview (ch_text (sh_chunk h)) 120))
       (kb_search (pl_float L) (pl_alnum L) (pl_order L) (with_embedding v (query_text query 5)) kb)"

text \<open>The run with \<open>--backend memory\<close>. \<open>None\<close> is a panic, or a crawl that does not end.\<close>

definition ingest_in_memory ::
  "('f, 'b) program_libs \<Rightarrow> ('doc, 'el) crawl_env \<Rightarrow> (string \<Rightarrow> string option) \<Rightarrow> ingest_cli \<Rightarrow> (ingest_failure, 'f ingest_result) result option" where
  "ingest_in_memory L E env cli =
     (case choose_embedder env cli of
        Inl e \<Rightarrow> Some (Inl (Failed_Setup e))
      | Inr chosen \<Rightarrow>
          (let emb = client_of L chosen
           in case crawl_directory E SapHelp (ic_input_dir cli) of
                None \<Rightarrow> None
              | Some (Inl e) \<Rightarrow> Some (Inl (Failed_Crawl e))
              | Some (Inr docs) \<Rightarrow>
                  (case ingest (pl_hash L) emb chunker_default 32 docs kb_new of
                     None \<Rightarrow> None
                   | Some (Inl e, _) \<Rightarrow> Some (Inl (Failed_Pipeline e))
                   | Some (Inr report, kb) \<Rightarrow>
                       (let result = (\<lambda>hits. Some (Inr \<lparr> io_documents = length docs, io_report = report, io_chunks = chunk_count kb, io_hits = hits \<rparr>))
                        in case ic_verify_query cli of
                             None \<Rightarrow> result []
                           | Some query \<Rightarrow>
                               (case emb [query] of
                                  Inl e \<Rightarrow> Some (Inl (Failed_Query e))
                                | Inr [] \<Rightarrow> None
                                | Inr (v # _) \<Rightarrow> result (verify_hits L v query kb))))))"

section \<open>The benchmark\<close>

record bench_cli =
  bc_input_dir :: string
  bc_n :: nat
  bc_embedding_dim :: nat
  bc_no_rerank :: bool
  bc_no_contextual_enrichment :: bool
  bc_top_k :: nat
  bc_gate_p95_ms :: nat
  bc_graph :: bool
  bc_graph_gate_p95_ms :: nat

definition bench_cli_default :: bench_cli where
  "bench_cli_default =
     \<lparr> bc_input_dir = ''./docs/sample-help-corpus'', bc_n = 1000, bc_embedding_dim = 256, bc_no_rerank = False,
       bc_no_contextual_enrichment = False, bc_top_k = 5, bc_gate_p95_ms = 80, bc_graph = False, bc_graph_gate_p95_ms = 400 \<rparr>"

definition bench_chunker :: "bench_cli \<Rightarrow> chunker_config" where
  "bench_chunker cli =
     (if bc_no_contextual_enrichment cli then chunker_default\<lparr>cc_contextual_enrichment := False\<rparr> else chunker_default)"

text \<open>The set-up: the corpus is ingested with the offline client.\<close>

definition bench_setup ::
  "('f, 'b) program_libs \<Rightarrow> ('doc, 'el) crawl_env \<Rightarrow> bench_cli \<Rightarrow> (ingest_failure, ingestion_report \<times> 'f in_memory_kb) result option" where
  "bench_setup L E cli =
     (case crawl_directory E SapHelp (bc_input_dir cli) of
        None \<Rightarrow> None
      | Some (Inl e) \<Rightarrow> Some (Inl (Failed_Crawl e))
      | Some (Inr docs) \<Rightarrow>
          (case ingest (pl_hash L) (client_of L (Chosen_Mock (bc_embedding_dim cli))) (bench_chunker cli) 32 docs kb_new of
             None \<Rightarrow> None
           | Some (Inl e, _) \<Rightarrow> Some (Inl (Failed_Pipeline e))
           | Some (Inr report, kb) \<Rightarrow> Some (Inr (report, kb))))"

definition workload_queries :: "string list" where
  "workload_queries =
    [''period close foreign currency revaluation'', ''open and close posting periods T001B'', ''goods movement type 101 receipt'',
     ''MIGO transaction reverse posting'', ''VF01 billing document creation invoice'', ''billing pricing procedure KONP KONV'',
     ''payroll wage type PA0008 PA0014'', ''PC00_M99_CALC payroll cluster B2'', ''BAPI_ACC_DOCUMENT_POST journal entry'',
     ''FAGLFLEXA BSEG reconciliation'', ''material master MARA MTART'', ''ATC quality scan ABAP test cockpit'',
     ''what is the difference between FB60 and FB70'', ''MIGO movement types 122 return delivery'',
     ''general ledger account determination posting'', ''company code customising T001 currency'']"

definition graph_workload_queries :: "string list" where
  "graph_workload_queries =
    [''impact of changing BAPI_ACC_DOCUMENT_POST'', ''where is FAGLFLEXA used'', ''callers of ZFIN_POST_JE'',
     ''downstream from ZIF_FIN_POSTABLE'', ''trace from period_close to LeanIX applications'', ''what depends on table T001B'',
     ''objects that touch goods movement'', ''what does the O2C process call'', ''from ZMM_GRN_CHECK to material master'',
     ''S/4HANA Finance dependencies'']"

text \<open>The \<open>i\<close>-th query of a run goes round the workload.\<close>

definition nth_query :: "string list \<Rightarrow> nat \<Rightarrow> string" where
  "nth_query workload i = workload ! (i mod length workload)"

text \<open>The samples of \<open>n\<close> queries; the first that fails ends the run. \<open>timed i q\<close> is the time of query \<open>q\<close> as the \<open>i\<close>-th, and its layers.\<close>

fun run_queries :: "(nat \<Rightarrow> string \<Rightarrow> (string, 's) result) \<Rightarrow> string list \<Rightarrow> nat list \<Rightarrow> (string, 's list) result" where
  "run_queries timed workload [] = Inr []"
| "run_queries timed workload (i # is') =
     bind_result (timed i (nth_query workload i)) (\<lambda>s. bind_result (run_queries timed workload is') (\<lambda>ss. Inr (s # ss)))"

record bench_report =
  br_p50 :: nat
  br_p95 :: nat
  br_p99 :: nat
  br_max :: nat
  br_mean :: nat
  br_layers :: "nat list"

text \<open>The report on sorted samples; \<open>None\<close> is the division by their number, when there are none.\<close>

definition report_on :: "'v w_ops \<Rightarrow> nat list \<Rightarrow> latency_breakdown list \<Rightarrow> bench_report option" where
  "report_on W samples layers =
     (let v = sort samples; n = length v
      in if n = 0 then None
         else Some \<lparr> br_p50 = quantile W (w_lit W (50, 100)) v, br_p95 = quantile W (w_lit W (95, 100)) v,
                     br_p99 = quantile W (w_lit W (99, 100)) v, br_max = last v, br_mean = sum_list v div n,
                     br_layers = map (\<lambda>f. sum_list (map f layers) div n) [lb_dense_us, lb_sparse_us, lb_fusion_us, lb_rerank_us] \<rparr>)"

text \<open>\<open>p95 as f64 / 1000.0 <= gate as f64\<close>.\<close>

definition gate_passed :: "'v w_ops \<Rightarrow> ('v \<Rightarrow> 'v \<Rightarrow> bool) \<Rightarrow> nat \<Rightarrow> nat \<Rightarrow> bool" where
  "gate_passed W w_le p95 gate_ms \<longleftrightarrow> w_le (w_div W (w_nat W p95) (w_lit W (1000, 1))) (w_nat W gate_ms)"

text \<open>The benchmark after ingestion: what it reports of the searches and of the graph walks, or why it fails.\<close>

definition bench_main ::
  "'v w_ops \<Rightarrow> ('v \<Rightarrow> 'v \<Rightarrow> bool) \<Rightarrow> (nat \<Rightarrow> string \<Rightarrow> (string, nat \<times> latency_breakdown) result) \<Rightarrow> (nat \<Rightarrow> string \<Rightarrow> nat)
    \<Rightarrow> bench_cli \<Rightarrow> (string, bench_report \<times> bench_report option) result option" where
  "bench_main W w_le timed walk cli =
     (case run_queries timed workload_queries [0..<bc_n cli] of
        Inl e \<Rightarrow> Some (Inl e)
      | Inr samples \<Rightarrow>
          (case report_on W (map fst samples) (map snd samples) of
             None \<Rightarrow> None
           | Some r \<Rightarrow>
               if \<not> gate_passed W w_le (br_p95 r) (bc_gate_p95_ms cli) then Some (Inl ''P95 gate failed'')
               else if \<not> bc_graph cli then Some (Inr (r, None))
               else (case report_on W (map (\<lambda>i. walk i (nth_query graph_workload_queries i)) [0..<bc_n cli]) [] of
                       None \<Rightarrow> None
                     | Some g \<Rightarrow>
                         if gate_passed W w_le (br_p95 g) (bc_graph_gate_p95_ms cli) then Some (Inr (r, Some g))
                         else Some (Inl ''graph P95 gate failed''))))"

section \<open>What they do\<close>

text \<open>A preview is the text itself, or as many characters as asked and the ellipsis.\<close>

lemma preview_characters: "length (utf8_chars s) \<le> n \<Longrightarrow> preview s n = s"
  "n < length (utf8_chars s) \<Longrightarrow> \<exists>cs rest. preview s n = concat cs @ ellipsis \<and> length cs = n \<and> utf8_chars s = cs @ rest"
proof -
  show "length (utf8_chars s) \<le> n \<Longrightarrow> preview s n = s" by (simp add: preview_def)
  assume n: "n < length (utf8_chars s)"
  then show "\<exists>cs rest. preview s n = concat cs @ ellipsis \<and> length cs = n \<and> utf8_chars s = cs @ rest"
    by (intro exI [of _ "take n (utf8_chars s)"] exI [of _ "drop n (utf8_chars s)"]) (simp add: preview_def)
qed

text \<open>What is crawled is ingested: with the offline client the run ends and every document with text is counted.\<close>

lemma ingest_mock:
  fixes kb :: "'f in_memory_kb"
  assumes "201 \<le> cc_target_chars cfg"
  obtains bs :: "'f upsert_batch list" and report where
    "ingest h (mock_client F alnum lower hs dm) cfg 32 docs kb = Some (Inr report, fold (upsert h) bs kb)"
    "ir_documents report = length (filter (\<lambda>d. chunk_document d cfg \<noteq> Some ([] :: 'f chunk list)) docs)"
proof -
  obtain bs :: "'f upsert_batch list" and report where r:
    "ingest h (mock_client F alnum lower hs dm) cfg 32 docs kb = Some (Inr report, fold (upsert h) bs kb)"
    "list_all2 (batch_of (mock_client F alnum lower hs dm) 32 cfg) (filter (\<lambda>d. chunk_document d cfg \<noteq> Some ([] :: 'f chunk list)) docs) bs"
    "ir_documents report = length bs"
    using ingest_loop_stores [OF assms _ mock_embedder_ok, of 32 h F alnum lower hs dm docs "\<lparr> ir_documents = 0, ir_chunks = 0 \<rparr>" kb]
    unfolding ingest_def by auto
  then show thesis using that list_all2_lengthD [OF r(2)] by simp
qed

lemma ingest_offline:
  fixes L :: "('f, 'b) program_libs"
  assumes "ic_embedder cli = Embedder_Mock" "ic_verify_query cli = None"
    "crawl_directory E SapHelp (ic_input_dir cli) = Some (Inr docs)"
  shows "\<exists>r. ingest_in_memory L E env cli = Some (Inr r) \<and> io_documents r = length docs \<and>
    ir_documents (io_report r) = length (filter (\<lambda>d. chunk_document d chunker_default \<noteq> Some ([] :: 'f chunk list)) docs)"
proof -
  have target: "201 \<le> cc_target_chars chunker_default" by (simp add: chunker_default_def)
  show ?thesis
    by (rule ingest_mock [OF target, where h = "pl_hash L" and F = "pl_float L" and alnum = "pl_alnum L" and lower = "pl_lower L"
          and hs = "pl_hash32 L" and dm = "ic_embedding_dim cli - 1" and docs = docs and kb = kb_new])
      (use assms in \<open>simp add: ingest_in_memory_def choose_embedder_def client_of_def\<close>)
qed

lemma bench_setup_indexes:
  fixes L :: "('f, 'b) program_libs"
  assumes "crawl_directory E SapHelp (bc_input_dir cli) = Some (Inr docs)"
  shows "\<exists>report kb. bench_setup L E cli = Some (Inr (report, kb)) \<and>
    ir_documents report = length (filter (\<lambda>d. chunk_document d (bench_chunker cli) \<noteq> Some ([] :: 'f chunk list)) docs)"
proof -
  have target: "201 \<le> cc_target_chars (bench_chunker cli)" by (simp add: bench_chunker_def chunker_default_def)
  show ?thesis
    by (rule ingest_mock [OF target, where h = "pl_hash L" and F = "pl_float L" and alnum = "pl_alnum L" and lower = "pl_lower L"
          and hs = "pl_hash32 L" and dm = "bc_embedding_dim cli - 1" and docs = docs and kb = kb_new])
      (use assms in \<open>simp add: bench_setup_def client_of_def\<close>)
qed

lemma run_queries_length: "run_queries timed workload is' = Inr ss \<Longrightarrow> length ss = length is'"
  by (induction is' arbitrary: ss) (auto simp: bind_result_eq_Inr)

text \<open>No queries, no report: the mean divides by their number.\<close>

lemma bench_no_queries: "bc_n cli = 0 \<Longrightarrow> bench_main W w_le timed walk cli = None"
  by (simp add: bench_main_def report_on_def)

text \<open>
  What a passed gate says: the samples at or below the limit are more than the position its quantile has among them. The
  comparison in milliseconds is assumed to imply that in microseconds.
\<close>

lemma sorted_prefix_below:
  assumes "sorted v" "k < length v" "v ! k \<le> (b :: nat)"
  shows "k < length (filter (\<lambda>x. x \<le> b) v)"
proof -
  have "x \<le> b" if x: "x \<in> set (take (Suc k) v)" for x
  proof -
    obtain i where i: "i \<le> k" "x = v ! i"
      using x assms(2) by (auto simp: in_set_conv_nth less_Suc_eq_le)
    then have "x \<le> v ! k" using sorted_nth_mono [OF assms(1) i(1) assms(2)] by simp
    then show ?thesis using assms(3) by simp
  qed
  then have "filter (\<lambda>x. x \<le> b) (take (Suc k) v) = take (Suc k) v" by (simp add: filter_True)
  then have "length (filter (\<lambda>x. x \<le> b) (take (Suc k) v)) = Suc k" using assms(2) by simp
  moreover have "length (filter (\<lambda>x. x \<le> b) v) =
      length (filter (\<lambda>x. x \<le> b) (take (Suc k) v)) + length (filter (\<lambda>x. x \<le> b) (drop (Suc k) v))"
    by (metis append_take_drop_id filter_append length_append)
  ultimately show ?thesis by simp
qed

lemma bench_gate_sound:
  assumes "bench_main W w_le timed walk cli = Some (Inr (r, g))"
    and law: "\<And>a b. w_le (w_div W (w_nat W a) (w_lit W (1000, 1))) (w_nat W b) \<Longrightarrow> a \<le> 1000 * b"
  shows "\<exists>samples. run_queries timed workload_queries [0..<bc_n cli] = Inr samples \<and> length samples = bc_n cli \<and> 0 < bc_n cli \<and>
    min (w_trunc W (w_mul W (w_nat W (bc_n cli)) (w_lit W (95, 100)))) (bc_n cli - 1)
      < length (filter (\<lambda>x. x \<le> 1000 * bc_gate_p95_ms cli) (map fst samples))"
proof -
  obtain samples where run: "run_queries timed workload_queries [0..<bc_n cli] = Inr samples"
    and rep: "report_on W (map fst samples) (map snd samples) = Some r" and gate: "gate_passed W w_le (br_p95 r) (bc_gate_p95_ms cli)"
    using assms(1) by (auto simp: bench_main_def split: sum.splits option.splits if_splits)
  let ?v = "sort (map fst samples)"
  let ?k = "min (w_trunc W (w_mul W (w_nat W (bc_n cli)) (w_lit W (95, 100)))) (bc_n cli - 1)"
  have n: "length samples = bc_n cli" using run_queries_length [OF run] by simp
  have pos: "0 < bc_n cli"
    using rep n by (cases "bc_n cli") (simp_all add: report_on_def)
  have p95: "br_p95 r = ?v ! ?k"
    using rep n by (auto simp: report_on_def quantile_def Let_def split: if_splits)
  have "?v ! ?k \<le> 1000 * bc_gate_p95_ms cli"
    using law gate p95 by (simp add: gate_passed_def)
  then have "?k < length (filter (\<lambda>x. x \<le> 1000 * bc_gate_p95_ms cli) ?v)"
    using pos n by (intro sorted_prefix_below) (simp_all add: min.strict_coboundedI2)
  moreover have "length (filter (\<lambda>x. x \<le> 1000 * bc_gate_p95_ms cli) ?v) =
      length (filter (\<lambda>x. x \<le> 1000 * bc_gate_p95_ms cli) (map fst samples))"
    by (simp only: filter_sort length_sort)
  ultimately show ?thesis
    using run n pos by simp
qed

end
