(* ===== verification/Sample_Client.thy ===== *)
theory Sample_Client
  imports Server_Tools
begin

text \<open>
  The sample client (\<open>apps/sample-client/src/main.rs\<close>): the calls it makes for its arguments, the specifications of
  calls, and how it answers the forms of the server: by declining, with the defaults of the form, with a fixed
  answer, or from what is typed. The reader of JSON, the reader of floats and the lines typed are parameters. Shown:
  what a specification means, and what the automatic answers consent to in the workflows of the server.
\<close>

section \<open>Specifications of calls\<close>

text \<open>The values of the legacy form are JSON, or else strings.\<close>

fun parse_pairs :: "(string \<Rightarrow> (string, json) result) \<Rightarrow> string list \<Rightarrow> jmap \<Rightarrow> (string, jmap) result" where
  "parse_pairs from_str [] obj = Inr obj"
| "parse_pairs from_str (pair # pairs) obj =
     (case split_once (CHR ''='') pair of
        None \<Rightarrow> Inl (''invalid pair '' @ sq pair @ ''; expected key=value or use JSON form'')
      | Some (k, v) \<Rightarrow>
          parse_pairs from_str pairs
            (amap_insert k (case from_str v of Inr x \<Rightarrow> x | Inl _ \<Rightarrow> JString v) obj))"

definition parse_call_spec :: "(string \<Rightarrow> (string, json) result) \<Rightarrow> string \<Rightarrow> (string, string \<times> json) result" where
  "parse_call_spec from_str spec =
     (let (name, rest) = (case split_once (CHR ''='') spec of Some nr \<Rightarrow> nr | None \<Rightarrow> (spec, []));
          trimmed = trim rest
      in if rest = [] then Inr (name, JObject [])
         else if starts_with trimmed ''{'' then
           (case from_str trimmed of
              Inl e \<Rightarrow> Inl (''invalid JSON for tool '' @ sq name @ '': '' @ e)
            | Inr parsed \<Rightarrow> Inr (name, parsed))
         else map_sum id (\<lambda>obj. (name, JObject obj)) (parse_pairs from_str (split_on (CHR '','') rest) []))"

section \<open>Answers to forms\<close>

text \<open>The value of a field in the automatic answer: its default, or a zero of its type.\<close>

definition default_value :: "json \<Rightarrow> json" where
  "default_value spec =
     (case json_get ''default'' spec of
        Some d \<Rightarrow> d
      | None \<Rightarrow>
          (let typ = str_member ''type'' ''string'' spec
           in if typ = ''number'' \<or> typ = ''integer'' then JNumber (NInt 0)
              else if typ = ''boolean'' then JBool False
              else if typ = ''array'' then JArray []
              else if typ = ''object'' then JObject []
              else JString []))"

definition properties_of :: "json \<Rightarrow> jmap option" where
  "properties_of schema = Option.bind (json_get ''properties'' schema) as_object"

definition synthesise_defaults :: "json \<Rightarrow> json" where
  "synthesise_defaults schema =
     JObject (case properties_of schema of None \<Rightarrow> [] | Some props \<Rightarrow> map (\<lambda>(name, spec). (name, default_value spec)) props)"

text \<open>
  What is typed: one line per field, \<open>None\<close> where reading fails, which ends the form; after the last line the input is at
  its end, which reads as an empty line.
\<close>

definition typed_value :: "(string \<Rightarrow> string) \<Rightarrow> (string \<Rightarrow> json option) \<Rightarrow> json \<Rightarrow> string \<Rightarrow> json option" where
  "typed_value lower parse_f64 spec line =
     (let typ = str_member ''type'' ''string'' spec; trimmed = trim line
      in if trimmed = [] then json_get ''default'' spec
         else if typ = ''number'' \<or> typ = ''integer'' then
           Some (case parse_f64 trimmed of Some n \<Rightarrow> n | None \<Rightarrow> JString trimmed)
         else if typ = ''boolean'' then Some (JBool (lower trimmed \<in> {''true'', ''y'', ''yes'', ''1''}))
         else Some (JString trimmed))"

fun typed_form ::
  "(string \<Rightarrow> string) \<Rightarrow> (string \<Rightarrow> json option) \<Rightarrow> jmap \<Rightarrow> string option list \<Rightarrow> jmap \<times> string option list" where
  "typed_form lower parse_f64 [] input = ([], input)"
| "typed_form lower parse_f64 ((name, spec) # props) input =
     (case (case input of [] \<Rightarrow> Some [] | l # _ \<Rightarrow> l) of
        None \<Rightarrow> ([], tl input)
      | Some line \<Rightarrow>
          (case typed_value lower parse_f64 spec line of
             None \<Rightarrow> typed_form lower parse_f64 props (tl input)
           | Some v \<Rightarrow> map_prod (Cons (name, v)) id (typed_form lower parse_f64 props (tl input))))"

datatype delegate = Decline_All | Accept_Defaults | Stdin_Delegate | Seeded_Delegate json

definition build_delegate :: "(string \<Rightarrow> (string, json) result) \<Rightarrow> string \<Rightarrow> (string, delegate) result" where
  "build_delegate from_str spec =
     (if spec = ''decline'' then Inr Decline_All
      else if spec = ''accept'' then Inr Accept_Defaults
      else if spec = ''stdin'' then Inr Stdin_Delegate
      else case strip_prefix ''seed:'' spec of
             Some j \<Rightarrow>
               (case from_str j of
                  Inl e \<Rightarrow> Inl (''--elicit seed must be JSON: '' @ e)
                | Inr parsed \<Rightarrow> Inr (Seeded_Delegate parsed))
           | None \<Rightarrow> Inl ''--elicit expected one of: decline | accept | stdin | seed:<json>'')"

text \<open>The state of a delegate is what is left of the input.\<close>

fun on_elicit ::
  "(string \<Rightarrow> string) \<Rightarrow> (string \<Rightarrow> json option) \<Rightarrow> delegate \<Rightarrow> json \<Rightarrow> string option list \<Rightarrow> elicitation_result \<times> string option list" where
  "on_elicit lower parse_f64 Decline_All schema input = (\<lparr> er_action = Decline, er_content = None \<rparr>, input)"
| "on_elicit lower parse_f64 Accept_Defaults schema input =
     (\<lparr> er_action = Accept, er_content = Some (synthesise_defaults schema) \<rparr>, input)"
| "on_elicit lower parse_f64 (Seeded_Delegate content) schema input =
     (\<lparr> er_action = Accept, er_content = Some content \<rparr>, input)"
| "on_elicit lower parse_f64 Stdin_Delegate schema input =
     (let props = (case properties_of schema of None \<Rightarrow> [] | Some props \<Rightarrow> props);
          (out, rest) = typed_form lower parse_f64 props input
      in (\<lparr> er_action = Accept, er_content = Some (JObject out) \<rparr>, rest))"

section \<open>The run\<close>

record sample_cli =
  sc_call :: "string option"
  sc_then :: "string option"
  sc_list :: bool
  sc_read_resource :: "string option"
  sc_get_prompt :: "string option"
  sc_elicit :: string

text \<open>What it asks the server, in order.\<close>

datatype sample_op =
    Do_Initialize bool
  | Do_List_Tools
  | Do_List_Resources
  | Do_List_Prompts
  | Do_Read_Resource string
  | Do_Get_Prompt string "json option"
  | Do_Call_Tool string json

text \<open>The operations it issues while the server answers them, and the error it ends with.\<close>

fun sample_calls :: "(string \<Rightarrow> (string, json) result) \<Rightarrow> string list \<Rightarrow> sample_op list \<times> string option" where
  "sample_calls from_str [] = ([], None)"
| "sample_calls from_str (spec # specs) =
     (case parse_call_spec from_str spec of
        Inl e \<Rightarrow> ([], Some e)
      | Inr (name, args) \<Rightarrow> (case sample_calls from_str specs of (ops, err) \<Rightarrow> (Do_Call_Tool name args # ops, err)))"

definition opt_list :: "'a option \<Rightarrow> 'a list" where
  "opt_list x = (case x of Some y \<Rightarrow> [y] | None \<Rightarrow> [])"

definition sample_main :: "(string \<Rightarrow> (string, json) result) \<Rightarrow> sample_cli \<Rightarrow> sample_op list \<times> string option" where
  "sample_main from_str cli =
     (case build_delegate from_str (sc_elicit cli) of
        Inl e \<Rightarrow> ([], Some e)
      | Inr _ \<Rightarrow>
          (let start = [Do_Initialize (sc_elicit cli \<noteq> ''decline''), Do_List_Tools] @
                 (if sc_list cli then [Do_List_Resources, Do_List_Prompts] else []) @
                 map Do_Read_Resource (opt_list (sc_read_resource cli));
               calls = sample_calls from_str (opt_list (sc_call cli) @ opt_list (sc_then cli))
           in case sc_get_prompt cli of
                None \<Rightarrow> (start @ fst calls, snd calls)
              | Some spec \<Rightarrow>
                  (case parse_call_spec from_str spec of
                     Inl e \<Rightarrow> (start, Some e)
                   | Inr (name, args) \<Rightarrow>
                       (start @ [Do_Get_Prompt name (if args = JObject [] then None else Some args)] @ fst calls, snd calls))))"

section \<open>What a specification means\<close>

lemma split_once_none: "c \<notin> set s \<Longrightarrow> split_once c s = None"
  by (induction s) auto

lemma spec_name_only: "CHR ''='' \<notin> set name \<Longrightarrow> parse_call_spec from_str name = Inr (name, JObject [])"
  by (simp add: parse_call_spec_def split_once_none)

text \<open>An object is read as it is, with whatever commas and equal signs it holds.\<close>

lemma spec_json:
  assumes "CHR ''='' \<notin> set name" "trim text = CHR ''{'' # r" "from_str (trim text) = Inr v"
  shows "parse_call_spec from_str (name @ ''='' @ text) = Inr (name, v)"
proof -
  have "text \<noteq> []" using assms(2) by auto
  then show ?thesis
    using assms by (simp add: parse_call_spec_def split_once_append)
qed

lemma parse_pairs_all:
  "list_all (\<lambda>(k, v). CHR ''='' \<notin> set k) kvs \<Longrightarrow>
   parse_pairs from_str (map (\<lambda>(k, v). k @ CHR ''='' # v) kvs) obj =
     Inr (fold (\<lambda>(k, v). amap_insert k (case from_str v of Inr x \<Rightarrow> x | Inl _ \<Rightarrow> JString v)) kvs obj)"
  by (induction kvs arbitrary: obj) (auto simp: split_once_append)

text \<open>Pairs are read one by one, the last of a key wins, and a value that is not JSON is a string.\<close>

lemma spec_pairs:
  assumes "CHR ''='' \<notin> set name" "kvs \<noteq> []"
    "list_all (\<lambda>(k, v). CHR ''='' \<notin> set k \<and> CHR '','' \<notin> set k \<and> CHR '','' \<notin> set v) kvs"
    "\<not> starts_with (trim (join '','' (map (\<lambda>(k, v). k @ CHR ''='' # v) kvs))) ''{''"
  shows "parse_call_spec from_str (name @ ''='' @ join '','' (map (\<lambda>(k, v). k @ CHR ''='' # v) kvs)) =
    Inr (name, JObject (fold (\<lambda>(k, v). amap_insert k (case from_str v of Inr x \<Rightarrow> x | Inl _ \<Rightarrow> JString v)) kvs []))"
proof -
  let ?text = "join '','' (map (\<lambda>(k, v). k @ CHR ''='' # v) kvs)"
  have "split_on (CHR '','') ?text = map (\<lambda>(k, v). k @ CHR ''='' # v) kvs"
    using assms(2,3) by (intro split_on_join) (auto simp: list_all_iff)
  moreover have "list_all (\<lambda>(k, v). CHR ''='' \<notin> set k) kvs"
    using assms(3) by (auto simp: list_all_iff)
  moreover have "?text \<noteq> []"
    using assms(2) by (cases kvs; cases "tl kvs") (auto simp: join_Cons)
  ultimately show ?thesis
    using assms(1,4) by (simp add: parse_call_spec_def split_once_append parse_pairs_all)
qed

section \<open>What the automatic answers consent to\<close>

definition asks :: "(string \<Rightarrow> string) \<Rightarrow> (string \<Rightarrow> json option) \<Rightarrow> delegate \<Rightarrow> string option list asker" where
  "asks lower parse_f64 d = (\<lambda>question schema input. on_elicit lower parse_f64 d schema input)"

lemma default_get:
  "properties_of schema = Some props \<Longrightarrow> json_get k (synthesise_defaults schema) = map_option default_value (map_of props k)"
  by (simp add: synthesise_defaults_def map_of_map)

lemma declining_consents_to_nothing:
  "\<not> po_consent (asks lower parse_f64 Decline_All) po u" "\<not> customer_consent (asks lower parse_f64 Decline_All) hint u"
  "\<not> phrase_matches (transport_answer (asks lower parse_f64 Decline_All) hint u)"
  by (simp_all add: asks_def po_consent_def customer_consent_def phrase_matches_def transport_answer_def Let_def)

lemma map_of_amap_of: "map_of (amap_of kvs) = map_of (rev kvs)"
proof -
  have "amap_wf m \<Longrightarrow> map_of (fold (\<lambda>(k, v) m. amap_insert k v m) kvs m) = map_of m ++ map_of (rev kvs)" for m
    by (induction kvs arbitrary: m) (auto simp: map_add_upd simp del: fun_upd_apply)
  then show ?thesis by (simp add: amap_of_def)
qed

text \<open>The fields the question calls mandatory are answered by empty strings, and the server takes them.\<close>

lemma defaults_order_without_cost_centre:
  "po_consent (asks lower parse_f64 Accept_Defaults) po u \<and>
   json_get ''cost_centre'' (synthesise_defaults (po_schema po)) = Some (JString []) \<and>
   json_get ''delivery_date'' (synthesise_defaults (po_schema po)) = Some (JString [])"
proof -
  obtain props where props: "properties_of (po_schema po) = Some props"
    "\<exists>e. map_of props ''cost_centre'' = Some (form_field ''string'' [described e])"
    "\<exists>e. map_of props ''delivery_date'' = Some (form_field ''string'' [described e])"
    by (simp add: properties_of_def po_schema_def object_schema_def map_of_amap_of) blast
  have "default_value (form_field ''string'' [described e]) = JString []" for e
    by (simp add: default_value_def form_field_def described_def json_object_def map_of_amap_of str_member_def)
  with props show ?thesis
    by (auto simp: po_consent_def asks_def default_get)
qed

text \<open>A seed with nothing in it is accepted too.\<close>

lemma empty_seed_orders: "po_consent (asks lower parse_f64 (Seeded_Delegate (JObject []))) po u"
  by (simp add: po_consent_def asks_def)

text \<open>
  A client that answers with defaults never types the confirmation phrase: a transport that was named is not released. With
  no transport named the phrase matches, since both are empty.
\<close>

lemma defaults_release:
  "phrase_matches (transport_answer (asks lower parse_f64 Accept_Defaults) hint u) \<longleftrightarrow> hint \<in> {None, Some []}"
proof -
  let ?t = "case hint of Some t \<Rightarrow> t | None \<Rightarrow> []"
  obtain props where props: "properties_of (transport_schema ?t) = Some props"
    "\<exists>e. map_of props ''transport'' = Some (form_field ''string'' [described e, default_to (JString ?t)])"
    "\<exists>e. map_of props ''confirmation_phrase'' = Some (form_field ''string'' [described e])"
    by (simp add: properties_of_def transport_schema_def object_schema_def map_of_amap_of) blast
  have "default_value (form_field ''string'' [described e]) = JString []"
    "default_value (form_field ''string'' [described e, default_to (JString t)]) = JString t" for e t
    by (simp_all add: default_value_def form_field_def described_def default_to_def json_object_def map_of_amap_of str_member_def)
  with props have "json_get ''transport'' (synthesise_defaults (transport_schema ?t)) = Some (JString ?t)"
    "json_get ''confirmation_phrase'' (synthesise_defaults (transport_schema ?t)) = Some (JString [])"
    by (auto simp: default_get)
  then show ?thesis
    by (auto simp: phrase_matches_def transport_answer_def asks_def Let_def content_or_def str_member_def split: option.split)
qed

text \<open>
  At the end of the input every field keeps its default, if it has one: an operator who types nothing accepts the form, but
  releases no named transport either.
\<close>

lemma typed_nothing:
  "distinct (map fst props) \<Longrightarrow> map_of (fst (typed_form lower parse_f64 props [])) k = Option.bind (map_of props k) (json_get ''default'')"
proof (induction props)
  case (Cons p props)
  obtain n spec where p: "p = (n, spec)" by (cases p)
  have rest: "map_of (fst (typed_form lower parse_f64 props [])) k = Option.bind (map_of props k) (json_get ''default'')"
    using Cons by simp
  have none: "map_of props n = None" using Cons.prems by (simp add: p map_of_eq_None_iff)
  show ?case
    using rest none by (cases "json_get ''default'' spec") (auto simp: p typed_value_def Let_def)
qed simp

lemma typed_nothing_releases:
  "phrase_matches (transport_answer (asks lower parse_f64 Stdin_Delegate) hint []) \<longleftrightarrow> hint \<in> {None, Some []}"
proof -
  let ?t = "case hint of Some t \<Rightarrow> t | None \<Rightarrow> []"
  have "\<exists>props. properties_of (transport_schema ?t) = Some props \<and> amap_wf props \<and>
    (\<exists>e. map_of props ''transport'' = Some (form_field ''string'' [described e, default_to (JString ?t)])) \<and>
    (\<exists>e. map_of props ''confirmation_phrase'' = Some (form_field ''string'' [described e]))"
    by (simp add: properties_of_def transport_schema_def object_schema_def map_of_amap_of) blast
  then obtain props where fields: "properties_of (transport_schema ?t) = Some props" "amap_wf props"
    "\<exists>e. map_of props ''transport'' = Some (form_field ''string'' [described e, default_to (JString ?t)])"
    "\<exists>e. map_of props ''confirmation_phrase'' = Some (form_field ''string'' [described e])" by blast
  have "json_get ''default'' (form_field ''string'' [described e]) = None"
    "json_get ''default'' (form_field ''string'' [described e, default_to (JString t)]) = Some (JString t)" for e t
    by (simp_all add: form_field_def described_def default_to_def json_object_def map_of_amap_of)
  with fields have "map_of (fst (typed_form lower parse_f64 props [])) ''transport'' = Some (JString ?t)"
    "map_of (fst (typed_form lower parse_f64 props [])) ''confirmation_phrase'' = None"
    by (auto simp: typed_nothing [OF amap_wf_distinct])
  moreover obtain out rest where "typed_form lower parse_f64 props [] = (out, rest)" by (meson surj_pair)
  ultimately show ?thesis
    using fields(1) by (auto simp: phrase_matches_def transport_answer_def asks_def Let_def content_or_def str_member_def split: option.split)
qed

end
