(* ===== verification/Sample_Server.thy ===== *)
theory Sample_Server
  imports Tool_Schemas
begin

text \<open>
  The sample server (\<open>apps/sample-server/src/main.rs\<close>): the framework with the two demonstration tools \<open>echo\<close> and
  \<open>add\<close>. The decoders of their arguments, the addition of \<open>f64\<close> and its text are parameters. Shown: the read-only
  server exposes both tools, and what a call of each answers.
\<close>

section \<open>Tools\<close>

record 'v sample_serde =
  de_echo :: "json \<Rightarrow> (string, string) result"
  de_add :: "json \<Rightarrow> (string, 'v \<times> 'v) result"
  sum_f64 :: "'v \<Rightarrow> 'v \<Rightarrow> 'v"
  show_f64 :: "'v \<Rightarrow> string"

definition echo_schema :: json where
  "echo_schema =
     json_object [(''type'', JString ''object''), (''properties'', json_object [(''text'', form_field ''string'' [])]),
       (''required'', JArray (map JString [''text'']))]"

definition add_schema :: json where
  "add_schema =
     json_object [(''type'', JString ''object''),
       (''properties'', json_object [(''a'', form_field ''number'' []), (''b'', form_field ''number'' [])]),
       (''required'', JArray (map JString [''a'', ''b'']))]"

definition echo_call :: "'v sample_serde \<Rightarrow> json \<Rightarrow> call_tool_result" where
  "echo_call S args =
     (case de_echo S args of
        Inl e \<Rightarrow> call_result_error (''invalid arguments: '' @ e)
      | Inr text \<Rightarrow> call_result_text text)"

definition add_call :: "'v sample_serde \<Rightarrow> json \<Rightarrow> call_tool_result" where
  "add_call S args =
     (case de_add S args of
        Inl e \<Rightarrow> call_result_error (''invalid arguments: '' @ e)
      | Inr (a, b) \<Rightarrow> call_result_text (show_f64 S (sum_f64 S a b)))"

definition echo_tool :: "'v sample_serde \<Rightarrow> 's tool_descriptor" where
  "echo_tool S = tool_descriptor_new ''echo'' (Some ''Echo text back'') (schema_from_value echo_schema) (\<lambda>args s. (Inr (echo_call S args), s))"

definition add_tool :: "'v sample_serde \<Rightarrow> 's tool_descriptor" where
  "add_tool S = tool_descriptor_new ''add'' (Some ''Add two numbers'') (schema_from_value add_schema) (\<lambda>args s. (Inr (add_call S args), s))"

section \<open>The server\<close>

definition sample_builder :: "'v sample_serde \<Rightarrow> string \<Rightarrow> 's server_builder" where
  "sample_builder S version =
     builder_tool (add_tool S) (builder_tool (echo_tool S)
       (builder_instructions ''Sample server with two demonstration tools: echo and add.'' (builder_new ''sample-server'' version)))"

definition sample_server :: "'v sample_serde \<Rightarrow> string \<Rightarrow> 's server_context" where
  "sample_server S version = build (sample_builder S version)"

lemma sample_builder_wf: "builder_wf (sample_builder S version)"
  by (simp add: sample_builder_def builder_wf_tool builder_wf_others builder_wf_new)

lemma sample_tools:
  "map_of (cx_tools (sample_server S version)) n =
    (if n = ''echo'' then Some (echo_tool S) else if n = ''add'' then Some (add_tool S) else None)"
  unfolding sample_server_def build_lookup [OF sample_builder_wf]
  by (simp add: sample_builder_def builder_tool_def builder_new_def builder_instructions_def echo_tool_def add_tool_def
      tool_descriptor_new_def is_allowed_by_def)

text \<open>The schemas are announced as written.\<close>

lemma sample_schemas_kept:
  "schema_to_json (schema_from_value echo_schema) = echo_schema" "schema_to_json (schema_from_value add_schema) = add_schema"
  by code_simp+

lemma sample_schemas_announced:
  "schema_to_json (tool_input_schema_of (td_tool (echo_tool S))) = echo_schema" "schema_to_json (tool_input_schema_of (td_tool (add_tool S))) = add_schema"
  by (simp_all add: echo_tool_def add_tool_def tool_descriptor_new_def sample_schemas_kept)

text \<open>
  A call of a tool is answered from its arguments alone, a wrong argument by a result marked as an error, and changes
  nothing; any other name is unknown.
\<close>

lemma sample_call:
  assumes "parse_params (de_call_tool sd) (req_params req) = Inr p"
  defines "args \<equiv> (case ctp_arguments p of Some a \<Rightarrow> a | None \<Rightarrow> JObject [])"
  shows "handle_tools_call sd req (sample_server S version) s =
    (if ctp_name p = ''echo'' then ok_value sd (Res_Call (echo_call S args))
     else if ctp_name p = ''add'' then ok_value sd (Res_Call (add_call S args))
     else Inl (protocol_error UnknownTool (''unknown tool '' @ sq (ctp_name p))), sample_server S version, s)"
  using assms(1)
  by (simp add: handle_tools_call_def sample_tools echo_tool_def add_tool_def tool_descriptor_new_def args_def Let_def)

end
