(* ===== verification/Soap_Facts.thy ===== *)
theory Soap_Facts
  imports Soap
begin

text \<open>
  Facts about the SOAP client: the envelope cannot be broken out of, the response parser returns on
  every input within its depth bound, and the read-only gate is closed by default.
\<close>

section \<open>Markup of the envelope\<close>

text \<open>
  A lexer for markup: what stands between \<open><\<close> and the next \<open>>\<close> is a tag, a maximal run of other
  characters is text. It is the reading an XML parser starts from, and it is independent of how the
  envelope was produced.
\<close>

datatype token = Tag string | Txt string | Broken string

function xml_lex :: "string \<Rightarrow> token list" where
  "xml_lex s =
     (case s of
        [] \<Rightarrow> []
      | c # cs \<Rightarrow>
          if c = CHR ''<'' then
            (case split_once (CHR ''>'') cs of
               Some (t, rest) \<Rightarrow> Tag t # xml_lex rest
             | None \<Rightarrow> [Broken cs])
          else Txt (takeWhile (\<lambda>x. x \<noteq> CHR ''<'') s) # xml_lex (dropWhile (\<lambda>x. x \<noteq> CHR ''<'') s))"
  by pat_completeness auto
termination
  by (relation "measure length")
     (auto dest: split_once_Some simp: length_dropWhile_le le_imp_less_Suc)

declare xml_lex.simps [simp del]

definition no_markup :: "string \<Rightarrow> bool" where
  "no_markup s \<longleftrightarrow> CHR ''<'' \<notin> set s \<and> CHR ''>'' \<notin> set s"

definition text_tokens :: "string \<Rightarrow> token list" where
  "text_tokens s = (if s = [] then [] else [Txt s])"

lemma lex_tag: "CHR ''>'' \<notin> set t \<Longrightarrow> xml_lex (CHR ''<'' # t @ CHR ''>'' # rest) = Tag t # xml_lex rest"
  by (simp add: xml_lex.simps [of "CHR ''<'' # _"] split_once_append)

lemma lex_text: "CHR ''<'' \<notin> set s \<Longrightarrow> xml_lex (s @ CHR ''<'' # rest) = text_tokens s @ xml_lex (CHR ''<'' # rest)"
proof (cases s)
  case (Cons c cs)
  assume "CHR ''<'' \<notin> set s"
  then have "takeWhile (\<lambda>x. x \<noteq> CHR ''<'') (s @ CHR ''<'' # rest) = s"
    "dropWhile (\<lambda>x. x \<noteq> CHR ''<'') (s @ CHR ''<'' # rest) = CHR ''<'' # rest"
    by (auto simp: takeWhile_append dropWhile_append)
  with Cons \<open>CHR ''<'' \<notin> set s\<close> show ?thesis
    by (subst xml_lex.simps) (auto simp: text_tokens_def)
qed (simp add: text_tokens_def)

lemma lex_element_text:
  assumes "no_markup s" "CHR ''>'' \<notin> set t"
  shows "xml_lex (s @ tag_close t @ rest) = text_tokens s @ Tag (CHR ''/'' # t) # xml_lex rest"
  using assms lex_text [of s "CHR ''/'' # t @ CHR ''>'' # rest"] lex_tag [of "CHR ''/'' # t" rest]
  by (simp add: tag_close_def no_markup_def)

lemma lex_open: "CHR ''>'' \<notin> set t \<Longrightarrow> xml_lex (tag_open t @ rest) = Tag t # xml_lex rest"
  using lex_tag [of t rest] by (simp add: tag_open_def)

lemma lex_close: "CHR ''>'' \<notin> set t \<Longrightarrow> xml_lex (tag_close t @ rest) = Tag (CHR ''/'' # t) # xml_lex rest"
  using lex_tag [of "CHR ''/'' # t" rest] by (simp add: tag_close_def)

text \<open>Escaped text, printed numbers and safe names contain no markup.\<close>

lemma escape_no_markup: "no_markup (xml_escape s)"
  by (induction s) (auto simp: xml_escape_def no_markup_def escape_char_def)

lemma show_nat_no_markup: "no_markup (show_nat n)"
  using show_nat_digits by (fastforce simp: no_markup_def is_ascii_digit_def)

lemma show_int_no_markup: "no_markup (show_int i)"
  using show_nat_no_markup by (auto simp: no_markup_def show_int_def)

lemma safe_name_no_markup: "is_safe_name k \<Longrightarrow> no_markup k"
  by (auto simp: is_safe_name_def no_markup_def list_all_iff is_ascii_alphanumeric_def is_ascii_digit_def
      is_ascii_upper_def is_ascii_lower_def)

text \<open>
  Every number in the value prints without markup. \<open>serde_json\<close> prints a float with digits, a sign,
  a point and an exponent only.
\<close>

fun plain_numbers :: "json \<Rightarrow> bool" where
  "plain_numbers (JNumber n) = no_markup (number_to_string n)"
| "plain_numbers (JArray xs) = list_all plain_numbers xs"
| "plain_numbers (JObject m) = list_all (\<lambda>(k, v). plain_numbers v) m"
| "plain_numbers _ = True"

text \<open>The tokens a parameter is meant to contribute, read off the JSON value alone.\<close>

fun scalar_tokens :: "json \<Rightarrow> token list" where
  "scalar_tokens (JString s) = text_tokens (xml_escape s)"
| "scalar_tokens (JNumber n) = text_tokens (number_to_string n)"
| "scalar_tokens (JBool b) = (if b then [Txt ''X''] else [])"
| "scalar_tokens _ = []"

fun value_tokens :: "string \<Rightarrow> json \<Rightarrow> token list" where
  "value_tokens k JNull = []"
| "value_tokens k (JArray items) =
     Tag k # concat (map (\<lambda>item. Tag ''item'' #
        (case item of
           JObject m \<Rightarrow> concat (map (\<lambda>(k, v). value_tokens k v) m)
         | scalar \<Rightarrow> scalar_tokens scalar) @ [Tag ''/item'']) items) @ [Tag (CHR ''/'' # k)]"
| "value_tokens k (JObject m) =
     Tag k # concat (map (\<lambda>(k, v). value_tokens k v) m) @ [Tag (CHR ''/'' # k)]"
| "value_tokens k v = Tag k # scalar_tokens v @ [Tag (CHR ''/'' # k)]"

definition params_tokens :: "jmap \<Rightarrow> token list" where
  "params_tokens m = concat (map (\<lambda>(k, v). value_tokens k v) m)"

lemma first_error_ok: "first_error rs = Inr () \<longleftrightarrow> (\<forall>r \<in> set rs. r = Inr ())"
  by (induction rs) (auto simp: bind_result_def split: sum.splits)

lemma validate_object:
  "validate_keys (JObject m) = Inr () \<longleftrightarrow> (\<forall>(k, v) \<in> set m. is_safe_name k \<and> validate_keys v = Inr ())"
  by (fastforce simp: first_error_ok split: if_splits)

lemma validate_array: "validate_keys (JArray xs) = Inr () \<longleftrightarrow> (\<forall>x \<in> set xs. validate_keys x = Inr ())"
  by (auto simp: first_error_ok)

text \<open>Concatenated pieces xml_lex piece by piece.\<close>

lemma lex_concat:
  assumes "\<And>x rest. x \<in> set xs \<Longrightarrow> xml_lex (f x @ rest) = g x @ xml_lex rest"
  shows "xml_lex (concat (map f xs) @ rest) = concat (map g xs) @ xml_lex rest"
  using assms
proof (induction xs)
  case (Cons x xs)
  have "xml_lex (f x @ concat (map f xs) @ rest) = g x @ xml_lex (concat (map f xs) @ rest)"
    by (rule Cons.prems) simp
  moreover have "xml_lex (concat (map f xs) @ rest) = concat (map g xs) @ xml_lex rest"
    by (rule Cons.IH) (simp add: Cons.prems)
  ultimately show ?case by simp
qed simp

lemma lex_scalar:
  "plain_numbers v \<Longrightarrow> CHR ''>'' \<notin> set t \<Longrightarrow>
     xml_lex (write_scalar v @ tag_close t @ rest) = scalar_tokens v @ Tag (CHR ''/'' # t) # xml_lex rest"
  using lex_element_text [of "''X''" t rest] lex_element_text [OF escape_no_markup, of t _ rest]
  by (cases v) (auto simp: lex_element_text lex_close no_markup_def text_tokens_def)

lemma safe_gt: "is_safe_name k \<Longrightarrow> CHR ''>'' \<notin> set k"
  using safe_name_no_markup by (simp add: no_markup_def)

text \<open>The item of a table: an object's entries, or a scalar.\<close>

definition item_xml :: "json \<Rightarrow> string" where
  "item_xml item = (case item of JObject m \<Rightarrow> write_params m | scalar \<Rightarrow> write_scalar scalar)"

definition item_tokens :: "json \<Rightarrow> token list" where
  "item_tokens item = (case item of JObject m \<Rightarrow> params_tokens m | scalar \<Rightarrow> scalar_tokens scalar)"

lemma write_array:
  "write_value k (JArray xs) =
     tag_open k @ concat (map (\<lambda>i. tag_open ''item'' @ item_xml i @ tag_close ''item'') xs) @ tag_close k"
  by (simp add: item_xml_def write_params_def tag_open_def tag_close_def cong: json.case_cong)

lemma tokens_array:
  "value_tokens k (JArray xs) =
     Tag k # concat (map (\<lambda>i. Tag ''item'' # item_tokens i @ [Tag ''/item'']) xs) @ [Tag (CHR ''/'' # k)]"
  by (simp add: item_tokens_def params_tokens_def cong: json.case_cong)

definition lexes :: "string \<Rightarrow> json \<Rightarrow> bool" where
  "lexes k v \<longleftrightarrow> (\<forall>rest. xml_lex (write_value k v @ rest) = value_tokens k v @ xml_lex rest)"

lemma lex_params:
  assumes "\<And>k v. (k, v) \<in> set m \<Longrightarrow> lexes k v"
  shows "xml_lex (write_params m @ rest) = params_tokens m @ xml_lex rest"
  unfolding write_params_def params_tokens_def
  by (rule lex_concat) (use assms in \<open>auto simp: lexes_def\<close>)

lemma lex_item:
  assumes "plain_numbers i" "\<And>m k v. i = JObject m \<Longrightarrow> (k, v) \<in> set m \<Longrightarrow> lexes k v"
  shows "xml_lex (tag_open ''item'' @ item_xml i @ tag_close ''item'' @ rest) =
    Tag ''item'' # item_tokens i @ Tag ''/item'' # xml_lex rest"
proof (cases "\<exists>m. i = JObject m")
  case True
  then obtain m where m: "i = JObject m" ..
  with assms(2) have "\<And>k v. (k, v) \<in> set m \<Longrightarrow> lexes k v" by blast
  with m show ?thesis by (simp add: item_xml_def item_tokens_def lex_open lex_params lex_close)
next
  case False
  then have "item_xml i = write_scalar i" "item_tokens i = scalar_tokens i"
    by (auto simp: item_xml_def item_tokens_def split: json.splits)
  then show ?thesis using assms(1) by (simp add: lex_open lex_scalar)
qed

lemma lex_value:
  "is_safe_name k \<Longrightarrow> validate_keys v = Inr () \<Longrightarrow> plain_numbers v \<Longrightarrow> lexes k v"
proof (induction k v rule: write_value.induct)
  case (2 tag b)
  then show ?case
    using lex_scalar [of "JBool b"] by (simp add: lexes_def lex_open safe_gt)
next
  case (3 tag n)
  then show ?case
    using lex_scalar [of "JNumber n"] by (simp add: lexes_def lex_open safe_gt)
next
  case (4 tag s)
  then show ?case
    using lex_scalar [of "JString s"] by (simp add: lexes_def lex_open safe_gt)
next
  case (5 tag items)
  have "xml_lex ((tag_open ''item'' @ item_xml i @ tag_close ''item'') @ rest) =
      (Tag ''item'' # item_tokens i @ [Tag ''/item'']) @ xml_lex rest" if i: "i \<in> set items" for i rest
  proof -
    have "lexes k v" if "i = JObject m" "(k, v) \<in> set m" for m k v
    proof -
      have "validate_keys i = Inr ()" using "5.prems"(2) i by (simp only: validate_array)
      with that have "is_safe_name k \<and> validate_keys v = Inr ()" by (auto simp only: validate_object)
      moreover have "plain_numbers i" using "5.prems"(3) i by (simp add: list_all_iff)
      then have "plain_numbers v" using that by (auto simp: list_all_iff)
      ultimately show ?thesis using "5.IH" [OF i that(1) that(2) refl] by blast
    qed
    moreover have "plain_numbers i" using "5.prems"(3) i by (simp add: list_all_iff)
    ultimately show ?thesis using lex_item [of i rest] by simp
  qed
  then have "xml_lex (concat (map (\<lambda>i. tag_open ''item'' @ item_xml i @ tag_close ''item'') items) @ rest) =
      concat (map (\<lambda>i. Tag ''item'' # item_tokens i @ [Tag ''/item'']) items) @ xml_lex rest" for rest
    by (rule lex_concat)
  with "5.prems"(1) show ?case
    unfolding lexes_def write_array tokens_array by (simp add: lex_open lex_close safe_gt)
next
  case (6 tag m)
  have "lexes k v" if "(k, v) \<in> set m" for k v
  proof -
    have "is_safe_name k \<and> validate_keys v = Inr ()"
      using "6.prems"(2) that by (auto simp only: validate_object)
    moreover have "plain_numbers v" using "6.prems"(3) that by (auto simp: list_all_iff)
    ultimately show ?thesis using "6.IH" [OF that refl] by blast
  qed
  then have "xml_lex (write_params m @ rest) = params_tokens m @ xml_lex rest" for rest by (rule lex_params)
  with "6.prems"(1) show ?case
    by (simp add: lexes_def lex_open lex_close safe_gt write_params_def params_tokens_def)
qed (simp add: lexes_def)

lemma lex_args:
  assumes "validate_keys (JObject args) = Inr ()" "plain_numbers (JObject args)"
  shows "xml_lex (write_params args @ rest) = params_tokens args @ xml_lex rest"
proof (rule lex_params)
  fix k v assume kv: "(k, v) \<in> set args"
  with assms(1) have "is_safe_name k \<and> validate_keys v = Inr ()" by (auto simp only: validate_object)
  moreover from kv assms(2) have "plain_numbers v" by (auto simp: list_all_iff)
  ultimately show "lexes k v" using lex_value by blast
qed

text \<open>The tags of the parameters are safe names, \<open>item\<close>, and their closing forms: none has a colon.\<close>

definition colon_free :: "token \<Rightarrow> bool" where
  "colon_free t \<longleftrightarrow> (case t of Tag n \<Rightarrow> CHR '':'' \<notin> set n | _ \<Rightarrow> True)"

lemma colon_free_simps [simp]: "colon_free (Tag n) = (CHR '':'' \<notin> set n)" "colon_free (Txt s)"
  by (simp_all add: colon_free_def)

lemma safe_no_colon: "is_safe_name k \<Longrightarrow> CHR '':'' \<notin> set k"
  by (auto simp: is_safe_name_def list_all_iff is_ascii_alphanumeric_def is_ascii_digit_def
      is_ascii_upper_def is_ascii_lower_def)

lemma scalar_colon_free: "\<forall>t \<in> set (scalar_tokens v). colon_free t"
  by (cases v) (auto simp: text_tokens_def)

lemma value_colon_free:
  "is_safe_name k \<Longrightarrow> validate_keys v = Inr () \<Longrightarrow> \<forall>t \<in> set (value_tokens k v). colon_free t"
proof (induction k v rule: value_tokens.induct)
  case (2 k items)
  have "\<forall>t \<in> set (item_tokens i). colon_free t" if i: "i \<in> set items" for i
  proof (cases "\<exists>m. i = JObject m")
    case True
    then obtain m where m: "i = JObject m" ..
    have "validate_keys i = Inr ()" using "2.prems"(2) i by (simp only: validate_array)
    with m have "\<forall>(k, v) \<in> set m. is_safe_name k \<and> validate_keys v = Inr ()" by (simp only: validate_object)
    with "2.IH" [OF i m] m show ?thesis by (fastforce simp: item_tokens_def params_tokens_def)
  next
    case False
    then show ?thesis using scalar_colon_free [of i] by (auto simp: item_tokens_def split: json.splits)
  qed
  with safe_no_colon [OF "2.prems"(1)] show ?case
    unfolding tokens_array by auto
next
  case (3 k m)
  have "\<forall>(k, v) \<in> set m. is_safe_name k \<and> validate_keys v = Inr ()"
    using "3.prems"(2) by (simp only: validate_object)
  with "3.IH" safe_no_colon [OF "3.prems"(1)] show ?case by fastforce
qed (use scalar_colon_free safe_no_colon in \<open>auto simp: text_tokens_def\<close>)

lemma params_colon_free:
  assumes "validate_keys (JObject args) = Inr ()"
  shows "\<forall>t \<in> set (params_tokens args). colon_free t"
proof -
  have "\<forall>(k, v) \<in> set args. is_safe_name k \<and> validate_keys v = Inr ()"
    using assms by (simp only: validate_object)
  then show ?thesis using value_colon_free unfolding params_tokens_def by fastforce
qed

definition xml_decl :: string where
  "xml_decl = ''?xml version='' @ dq ''1.0'' @ '' encoding='' @ dq ''UTF-8'' @ ''?''"

definition envelope_tag :: string where
  "envelope_tag = ''soap:Envelope xmlns:soap='' @ dq ''http://schemas.xmlsoap.org/soap/envelope/'' @
     '' xmlns:rfc='' @ dq RFC_NAMESPACE"

definition envelope_open :: "string \<Rightarrow> token list" where
  "envelope_open fn = [Tag xml_decl, Tag envelope_tag, Tag ''soap:Body'', Tag (''rfc:'' @ fn)]"

definition envelope_close :: "string \<Rightarrow> token list" where
  "envelope_close fn = [Tag (''/rfc:'' @ fn), Tag ''/soap:Body'', Tag ''/soap:Envelope'']"

lemma lex_wrapped:
  assumes "CHR ''>'' \<notin> set h" "CHR ''>'' \<notin> set e" "CHR ''>'' \<notin> set b" "CHR ''>'' \<notin> set f" "CHR ''>'' \<notin> set v"
    "\<And>rest. xml_lex (p @ rest) = toks @ xml_lex rest"
  shows "xml_lex (tag_open h @ tag_open e @ tag_open b @ tag_open f @ p @
      tag_close f @ tag_close b @ tag_close v) =
    [Tag h, Tag e, Tag b, Tag f] @ toks @ [Tag (CHR ''/'' # f), Tag (CHR ''/'' # b), Tag (CHR ''/'' # v)]"
  using lex_close [OF assms(5), of "[]"] by (simp add: assms lex_open lex_close xml_lex.simps [of "[]"])

lemma lex_envelope:
  assumes "is_safe_name fn" "\<And>rest. xml_lex (p @ rest) = toks @ xml_lex rest"
  shows "xml_lex (build_envelope fn p) = envelope_open fn @ toks @ envelope_close fn"
proof -
  have eq: "build_envelope fn p = tag_open xml_decl @ tag_open envelope_tag @ tag_open ''soap:Body'' @
      tag_open (''rfc:'' @ fn) @ p @
      tag_close (''rfc:'' @ fn) @ tag_close ''soap:Body'' @ tag_close ''soap:Envelope''"
    by (simp add: build_envelope_def tag_open_def tag_close_def xml_decl_def envelope_tag_def)
  have n: "CHR ''>'' \<notin> set xml_decl" "CHR ''>'' \<notin> set envelope_tag"
    by (simp_all add: xml_decl_def envelope_tag_def dq_def RFC_NAMESPACE_def)
  show ?thesis
    unfolding eq envelope_open_def envelope_close_def
    using lex_wrapped [OF n, of "''soap:Body''" "''rfc:'' @ fn" "''soap:Envelope''" p toks]
      safe_gt [OF assms(1)] assms(2) by simp
qed

text \<open>A decoder for the five predefined entities.\<close>

function xml_unescape :: "string \<Rightarrow> string" where
  "xml_unescape s =
     (case s of
        [] \<Rightarrow> []
      | c # cs \<Rightarrow>
          if starts_with s ''&amp;'' then CHR ''&'' # xml_unescape (drop 5 s)
          else if starts_with s ''&lt;'' then CHR ''<'' # xml_unescape (drop 4 s)
          else if starts_with s ''&gt;'' then CHR ''>'' # xml_unescape (drop 4 s)
          else if starts_with s ''&quot;'' then CHR 0x22 # xml_unescape (drop 6 s)
          else if starts_with s ''&apos;'' then CHR 0x27 # xml_unescape (drop 6 s)
          else c # xml_unescape cs)"
  by pat_completeness auto
termination
  by (relation "measure length") auto

declare xml_unescape.simps [simp del]

lemma unescape_escape: "xml_unescape (xml_escape s) = s"
proof (induction s)
  case (Cons c s)
  have "xml_unescape (escape_char c @ xml_escape s) = c # xml_unescape (xml_escape s)"
    by (subst xml_unescape.simps) (auto simp: escape_char_def)
  with Cons show ?case by (simp add: xml_escape_def)
qed (simp add: xml_escape_def xml_unescape.simps)

section \<open>The response parser\<close>

text \<open>
  With more fuel than events the loop returns, and never gives back more events than it got.
\<close>

lemma parse_loop_returns:
  "length evs < fuel \<Longrightarrow> \<exists>r rest. parse_loop fuel d evs m tx n = Some (r, rest) \<and> length rest \<le> length evs"
proof (induction fuel arbitrary: d evs m tx n)
  case (Suc fuel)
  show ?case
  proof (cases evs)
    case (Cons ev rest)
    then have len: "length rest < fuel" using Suc.prems by simp
    show ?thesis
    proof (cases ev)
      case (Ev_Start q)
      obtain r rest' where r: "(if MAX_XML_DEPTH < d + 1 then Some (Inl depth_error, rest)
          else parse_loop fuel (d + 1) rest [] [] 0) = Some (r, rest')" "length rest' \<le> length rest"
        using Suc.IH [OF len, of "d + 1" "[]" "[]" 0] by (cases "MAX_XML_DEPTH < d + 1") auto
      show ?thesis
      proof (cases r)
        case (Inl e)
        with r Cons Ev_Start show ?thesis by simp
      next
        case (Inr child)
        have "length rest' < fuel" using r(2) len by simp
        from Suc.IH [OF this, of d "insert_merge (local_name q) child m" tx "n + 1"] r Inr Cons Ev_Start
        show ?thesis by fastforce
      qed
    next
      case (Ev_Text t)
      then show ?thesis using Cons len Suc.IH [OF len, of d m] by (cases t) (fastforce intro: le_SucI)+
    qed (use Cons len Suc.IH [OF len] in \<open>fastforce intro: le_SucI\<close>)+
  qed simp
qed simp

lemma parse_children_returns: "parse_children d evs \<noteq> None"
  using parse_loop_returns [of evs "Suc (length evs)" d "[]" "[]" 0]
  by (auto simp: parse_children_def)

lemma xml_root_returns: "xml_to_json_root evs \<noteq> None"
  using parse_children_returns by (induction evs rule: xml_to_json_root.induct) auto

text \<open>How deep elements are nested in a value; folding repeated elements to an array adds nothing.\<close>

fun xml_depth :: "json \<Rightarrow> nat" where
  "xml_depth (JArray xs) = fold max (map xml_depth xs) 0"
| "xml_depth (JObject m) = Suc (fold max (map (\<lambda>(k, v). xml_depth v) m) 0)"
| "xml_depth _ = 0"

lemma fold_max_le: "fold max xs (a :: nat) \<le> b \<longleftrightarrow> a \<le> b \<and> (\<forall>x \<in> set xs. x \<le> b)"
  by (induction xs arbitrary: a) auto

definition depth_le :: "nat \<Rightarrow> jmap \<Rightarrow> bool" where
  "depth_le b m \<longleftrightarrow> (\<forall>(k, v) \<in> set m. xml_depth v \<le> b)"

lemma depth_le_insert: "depth_le b m \<Longrightarrow> xml_depth v \<le> b \<Longrightarrow> depth_le b (amap_insert k v m)"
  using amap_insert_values [of k v m] by (auto simp: depth_le_def)

lemma depth_le_merge: "depth_le b m \<Longrightarrow> xml_depth v \<le> b \<Longrightarrow> depth_le b (insert_merge k v m)"
proof -
  assume d: "depth_le b m" and v: "xml_depth v \<le> b"
  show ?thesis
  proof (cases "map_of m k")
    case None
    with d v show ?thesis by (simp add: insert_merge_def depth_le_insert)
  next
    case (Some p)
    then have p: "xml_depth p \<le> b" using d by (auto simp: depth_le_def dest!: map_of_SomeD)
    show ?thesis
      using Some d v p by (cases p) (auto simp: insert_merge_def fold_max_le intro!: depth_le_insert)
  qed
qed

lemma element_depth: "depth_le b m \<Longrightarrow> xml_depth (element_value m tx n) \<le> Suc b"
  by (auto simp: element_value_def depth_le_def fold_max_le)

lemma parse_loop_depth:
  "parse_loop fuel d evs m tx n = Some (Inr v, rest) \<Longrightarrow> d \<le> MAX_XML_DEPTH \<Longrightarrow>
     depth_le (MAX_XML_DEPTH - d) m \<Longrightarrow> xml_depth v \<le> Suc (MAX_XML_DEPTH - d)"
proof (induction fuel arbitrary: d evs m tx n v rest)
  case (Suc fuel)
  show ?case
  proof (cases evs)
    case Nil
    with Suc.prems show ?thesis using element_depth by auto
  next
    case (Cons ev es)
    show ?thesis
    proof (cases ev)
      case (Ev_Start q)
      with Suc.prems(1) Cons obtain child rest' where
        c: "(if MAX_XML_DEPTH < d + 1 then Some (Inl depth_error, es)
            else parse_loop fuel (d + 1) es [] [] 0) = Some (Inr child, rest')"
        and l: "parse_loop fuel d rest' (insert_merge (local_name q) child m) tx (n + 1) = Some (Inr v, rest)"
        by (auto split: option.splits sum.splits prod.splits)
      from c have d: "d + 1 \<le> MAX_XML_DEPTH" and
        c': "parse_loop fuel (d + 1) es [] [] 0 = Some (Inr child, rest')" by (auto split: if_splits)
      have "xml_depth child \<le> Suc (MAX_XML_DEPTH - (d + 1))"
        by (rule Suc.IH [OF c' d]) (simp add: depth_le_def)
      with d have "xml_depth child \<le> MAX_XML_DEPTH - d" by simp
      from Suc.IH [OF l Suc.prems(2) depth_le_merge [OF Suc.prems(3) this]] show ?thesis .
    next
      case (Ev_Text t)
      then show ?thesis using Cons Suc.prems Suc.IH by (cases t) auto
    qed (use Cons Suc.prems Suc.IH element_depth depth_le_merge in auto)
  qed
qed simp

text \<open>Folding a sequence of children that are not arrays groups the values of each name, in order.\<close>

definition grouped :: "json list \<Rightarrow> json option" where
  "grouped vs = (case vs of [] \<Rightarrow> None | [v] \<Rightarrow> Some v | _ \<Rightarrow> Some (JArray vs))"

lemma insert_merge_grouped:
  assumes "amap_wf m" "\<And>k. map_of m k = grouped (g k)" "\<And>k. \<forall>v \<in> set (g k). as_array v = None"
  shows "amap_wf (insert_merge k v m)"
    and "map_of (insert_merge k v m) k' = grouped (if k' = k then g k @ [v] else g k')"
proof -
  show "amap_wf (insert_merge k v m)"
    using assms(1) by (auto simp: insert_merge_def split: option.splits json.splits)
  show "map_of (insert_merge k v m) k' = grouped (if k' = k then g k @ [v] else g k')"
  proof (cases "g k")
    case Nil
    with assms(1,2) show ?thesis by (auto simp: insert_merge_def grouped_def)
  next
    case (Cons a as)
    show ?thesis
    proof (cases as)
      case Nil
      with Cons assms(3) [of k] have "as_array a = None" by simp
      moreover have "map_of m k = Some a" using Cons Nil assms(2) [of k] by (simp add: grouped_def)
      ultimately show ?thesis
        using Cons Nil assms(1,2) by (cases a) (auto simp: insert_merge_def grouped_def)
    next
      case (Cons b bs)
      with \<open>g k = a # as\<close> assms(1,2) show ?thesis by (auto simp: insert_merge_def grouped_def)
    qed
  qed
qed

lemma fold_merge_grouped:
  assumes "\<forall>(k, v) \<in> set kvs. as_array v = None"
  shows "amap_wf (fold (\<lambda>(k, v). insert_merge k v) kvs []) \<and>
    (\<forall>k. map_of (fold (\<lambda>(k, v). insert_merge k v) kvs []) k = grouped (map snd (filter (\<lambda>x. fst x = k) kvs)))"
  using assms
proof (induction kvs rule: rev_induct)
  case (snoc x kvs)
  obtain k v where x: "x = (k, v)" by (cases x)
  let ?m = "fold (\<lambda>(k, v). insert_merge k v) kvs []"
  let ?g = "\<lambda>k. map snd (filter (\<lambda>x. fst x = k) kvs)"
  have IH: "amap_wf ?m" "\<And>k. map_of ?m k = grouped (?g k)" using snoc by auto
  have na: "\<And>k. \<forall>v \<in> set (?g k). as_array v = None" using snoc.prems by auto
  from insert_merge_grouped [of ?m ?g k v, OF IH na] x show ?case by auto
qed (simp add: grouped_def)

section \<open>No operation panics\<close>

lemma truncate_ok: "truncate s \<noteq> None"
  by (auto simp: truncate_def Let_def slice_to_def boundary_ok)

lemma soap_result_ok: "soap_result cfg events fn ans \<noteq> None"
proof (cases ans)
  case (Http_Response st shown body)
  show ?thesis
    using xml_root_returns [of "events body"] truncate_ok [of body]
    by (auto simp: soap_result_def Http_Response split: option.splits sum.splits)
qed (simp_all add: soap_result_def)

lemma invoke_ok: "fst (invoke cfg events post fn p s) \<noteq> None"
  using soap_result_ok by (auto simp: invoke_def split: prod.splits)

lemma soap_call_ok: "fst (soap_call_rfc cfg events post cat rq ro s) \<noteq> None"
proof -
  have "\<exists>r s'. invoke cfg events post (rq_function rq) p s = (Some r, s')" for p
    using invoke_ok [of cfg events post "rq_function rq" p s]
    by (cases "invoke cfg events post (rq_function rq) p s") auto
  then show ?thesis
    unfolding soap_call_rfc_def by (auto split: option.splits sum.splits prod.splits)
      (metis option.distinct(1) prod.inject)
qed

section \<open>Delimited rows\<close>

lemma splitn_join:
  "vs \<noteq> [] \<Longrightarrow> \<forall>v \<in> set vs. c \<notin> set v \<Longrightarrow> splitn (length vs) c (join [c] vs) = vs"
proof (induction vs)
  case (Cons x vs)
  then show ?case by (cases vs) (simp_all add: split_once_append)
qed simp

lemma enumerate_zip:
  "length names = length vs \<Longrightarrow>
     map (\<lambda>(i, name). (name, f (if i < length vs then vs ! i else []))) (enumerate 0 names) = zip names (map f vs)"
  by (intro nth_equalityI) (auto simp: nth_enumerate_eq)

section \<open>Properties\<close>

text \<open>
  C5. No injection through parameters: when the function name and every key at every level pass the
  name check, lexing the envelope gives exactly the fixed opening, the tokens read off the JSON
  parameters, and the fixed closing. No parameter tag contains a colon, so the envelope has exactly
  one \<open>rfc:\<close> element, the function that was checked, whatever the values are.
\<close>

theorem envelope_injection_free:
  assumes "is_safe_name fn" "validate_keys (JObject args) = Inr ()" "plain_numbers (JObject args)"
  shows "xml_lex (build_envelope fn (write_params args)) = envelope_open fn @ params_tokens args @ envelope_close fn
    \<and> list_all colon_free (params_tokens args)"
  using lex_envelope [OF assms(1) lex_args [OF assms(2,3)]] params_colon_free [OF assms(2)]
  by (simp add: list_all_iff)

definition demo_args :: jmap where
  "demo_args = [(''OPTIONS'', JArray [JObject [(''TEXT'', JString ''</item><rfc:BAPI_X>'')]]), (''WAIT'', JBool True)]"

theorem envelope_injection_free_witness:
  "xml_lex (build_envelope ''RFC_READ_TABLE'' (write_params demo_args)) =
     envelope_open ''RFC_READ_TABLE'' @
     [Tag ''OPTIONS'', Tag ''item'', Tag ''TEXT'', Txt ''&lt;/item&gt;&lt;rfc:BAPI_X&gt;'', Tag ''/TEXT'',
      Tag ''/item'', Tag ''/OPTIONS'', Tag ''WAIT'', Txt ''X'', Tag ''/WAIT''] @
     envelope_close ''RFC_READ_TABLE''"
proof -
  have "is_safe_name ''RFC_READ_TABLE''" "validate_keys (JObject demo_args) = Inr ()"
    "plain_numbers (JObject demo_args)" by code_simp+
  moreover have "params_tokens demo_args =
     [Tag ''OPTIONS'', Tag ''item'', Tag ''TEXT'', Txt ''&lt;/item&gt;&lt;rfc:BAPI_X&gt;'', Tag ''/TEXT'',
      Tag ''/item'', Tag ''/OPTIONS'', Tag ''WAIT'', Txt ''X'', Tag ''/WAIT'']" by code_simp
  ultimately show ?thesis using envelope_injection_free [of "''RFC_READ_TABLE''" demo_args] by simp
qed

text \<open>
  Escaping is reversible and removes all markup: decoding the five predefined entities gives the
  text back, and the escaped text contains no angle bracket.
\<close>

lemma xml_escape_roundtrip:
  "xml_unescape (xml_escape s) = s \<and> CHR ''<'' \<notin> set (xml_escape s) \<and> CHR ''>'' \<notin> set (xml_escape s)"
  using unescape_escape escape_no_markup by (simp add: no_markup_def)

text \<open>
  C38. The response parser returns a value or an error for every sequence of reader events (the fuel
  never runs out), and a value it returns is nested at most 256 levels deep.
\<close>

theorem xml_response_bounded:
  "\<exists>r. xml_to_json_root evs = Some r \<and> (\<forall>v. r = Inr v \<longrightarrow> xml_depth v \<le> 256)"
proof (induction evs rule: xml_to_json_root.induct)
  case (2 q rest)
  obtain r es where r: "parse_children 1 rest = Some (r, es)" using parse_children_returns by fastforce
  moreover have "xml_depth v \<le> 256" if "r = Inr v" for v
    using r that parse_loop_depth [of "Suc (length rest)" 1 rest "[]" "[]" 0 v es]
    by (auto simp: parse_children_def MAX_XML_DEPTH_def depth_le_def)
  ultimately show ?case by auto
qed auto

theorem xml_response_bounded_witness:
  "\<exists>r. xml_to_json_root [Ev_Start ''a'', Ev_Start ''x:b'', Ev_Text (Some ''t''), Ev_End, Ev_End] = Some r
     \<and> r = Inr (JObject [(''b'', JString ''t'')])"
proof -
  obtain r where r: "xml_to_json_root [Ev_Start ''a'', Ev_Start ''x:b'', Ev_Text (Some ''t''), Ev_End, Ev_End] = Some r"
    using xml_response_bounded by blast
  moreover have "xml_to_json_root [Ev_Start ''a'', Ev_Start ''x:b'', Ev_Text (Some ''t''), Ev_End, Ev_End] =
      Some (Inr (JObject [(''b'', JString ''t'')]))" by code_simp
  ultimately show ?thesis by simp
qed

text \<open>
  Repeated child elements fold without loss: after merging any sequence of children that are not
  arrays, as the parser produces them, a name maps to its only value, or to the array of all its
  values in document order, and names that do not occur are absent.
\<close>

lemma children_fold:
  assumes "\<forall>(k, v) \<in> set kvs. as_array v = None"
  shows "map_of (fold (\<lambda>(k, v). insert_merge k v) kvs []) k =
    (case map snd (filter (\<lambda>x. fst x = k) kvs) of
       [] \<Rightarrow> None | [v] \<Rightarrow> Some v | vs \<Rightarrow> Some (JArray vs))"
  using fold_merge_grouped [OF assms] by (auto simp: grouped_def split: list.splits)

text \<open>
  Rows in delimiter mode are read back exactly: joining the values of a row with the delimiter and
  reading the result gives each field its value, without trailing white space, as long as no value
  contains the delimiter.
\<close>

lemma read_row_roundtrip:
  assumes "length names = length vals" "vals \<noteq> []" "\<forall>v \<in> set vals. ROW_DELIMITER \<notin> set v"
  shows "read_row names (join [ROW_DELIMITER] vals) = amap_of (zip names (map (\<lambda>v. JString (trim_end v)) vals))"
  using assms splitn_join [of vals ROW_DELIMITER] enumerate_zip [of names vals "\<lambda>v. JString (trim_end v)"]
  by (simp add: read_row_def)

text \<open>
  A namespaced name passes the name check but is not rendered as an element: a name that starts
  with a slash comes out as a closing tag of the rest of the name, followed by a tag that starts with
  two slashes.
\<close>

lemma namespaced_name_not_an_element:
  "write_value (CHR ''/'' # n) (JString v) = tag_close n @ xml_escape v @ tag_close (CHR ''/'' # n)
   \<and> is_safe_name ''/SAPAPO/MATID''"
proof
  show "write_value (CHR ''/'' # n) (JString v) = tag_close n @ xml_escape v @ tag_close (CHR ''/'' # n)"
    by (simp add: tag_open_def tag_close_def)
  show "is_safe_name ''/SAPAPO/MATID''" by code_simp
qed

end
