(* ===== verification/Backend.thy ===== *)
theory Backend
  imports Soap_Facts Metadata_Cache
begin

text \<open>
  The contract the server relies on when it runs in read-only mode, stated once for every
  \<open>SapClient\<close>, and its two implementations: the offline client and the SOAP client. \<open>sent\<close> is the
  list of effects a backend has had on the outside, \<open>effect f\<close> the effect of executing the function
  \<open>f\<close>, and \<open>permitted\<close> the functions that may be executed in read-only mode.
\<close>

locale read_only_backend =
  fixes call :: "rfc_call_request \<Rightarrow> bool \<Rightarrow> 's \<Rightarrow> 'r \<times> 's"
    and sent :: "'s \<Rightarrow> 'e list"
    and effect :: "string \<Rightarrow> 'e"
    and permitted :: "string \<Rightarrow> bool"
  assumes read_only_call:
    "sent (snd (call rq True s)) = sent s \<or>
     permitted (rq_function rq) \<and> sent (snd (call rq True s)) = sent s @ [effect (rq_function rq)]"
begin

definition session :: "rfc_call_request list \<Rightarrow> 's \<Rightarrow> 's" where
  "session rqs s = fold (\<lambda>rq s. snd (call rq True s)) rqs s"

lemma session_effects:
  "\<exists>fs. sent (session rqs s) = sent s @ map effect fs \<and> list_all permitted fs \<and> subseq fs (map rq_function rqs)"
proof (induction rqs arbitrary: s)
  case Nil
  show ?case by (rule exI [of _ "[]"]) (simp add: session_def)
next
  case (Cons rq rqs)
  obtain fs where fs: "sent (session rqs (snd (call rq True s))) = sent (snd (call rq True s)) @ map effect fs"
    "list_all permitted fs" "subseq fs (map rq_function rqs)" using Cons.IH by blast
  have st: "session (rq # rqs) s = session rqs (snd (call rq True s))" by (simp add: session_def)
  from read_only_call [of rq s] show ?case
  proof
    assume "sent (snd (call rq True s)) = sent s"
    with fs st show ?thesis by (intro exI [of _ fs]) (simp add: list_emb_Cons)
  next
    assume "permitted (rq_function rq) \<and> sent (snd (call rq True s)) = sent s @ [effect (rq_function rq)]"
    with fs st show ?thesis by (intro exI [of _ "rq_function rq # fs"]) simp
  qed
qed

end

section \<open>The offline client\<close>

text \<open>The offline client with the functions it executed recorded.\<close>

definition mock_caller :: "'sem mock_sap_client \<Rightarrow> rfc_call_request \<Rightarrow> bool \<Rightarrow> string list \<Rightarrow> json rfc_result \<times> string list" where
  "mock_caller c rq ro log =
     (let r = mock_call_rfc c rq ro in (r, if is_ok r then log @ [rq_function rq] else log))"

definition mock_permitted :: "'sem mock_sap_client \<Rightarrow> string \<Rightarrow> bool" where
  "mock_permitted c f \<longleftrightarrow> (\<exists>meta. mc_functions c f = Some meta \<and> fm_read_only meta)"

interpretation mock_backend: read_only_backend "mock_caller c" "\<lambda>log. log" "\<lambda>f. f" "mock_permitted c"
  for c :: "'sem mock_sap_client"
  by unfold_locales (auto simp: mock_caller_def mock_permitted_def Let_def dest: mock_call_read_only)

section \<open>The SOAP client\<close>

text \<open>The HTTP client with the SOAP action and the envelope of every request recorded.\<close>

definition logged_post :: "'h http_post \<Rightarrow> ('h \<times> (string \<times> string) list) http_post" where
  "logged_post post url act env st =
     (case post url act env (fst st) of (ans, h) \<Rightarrow> (ans, (h, snd st @ [(act, env)])))"

definition catalogue_permits :: "(string \<Rightarrow> string \<Rightarrow> rfc_function_meta rfc_result) \<Rightarrow> string \<Rightarrow> string \<Rightarrow> bool" where
  "catalogue_permits cat lang f \<longleftrightarrow> (\<exists>meta. cat f lang = Inr meta \<and> fm_read_only meta)"

lemma gate_permits:
  "soap_gate (cat f lang) f True = None \<Longrightarrow> catalogue_permits cat lang f"
  by (auto simp: soap_gate_def catalogue_permits_def split: sum.splits rfc_error.splits if_splits)

lemma invoke_logged:
  "invoke cfg events (logged_post post) fn p (h, log) =
     (if is_safe_name fn
      then (fst (invoke cfg events post fn p h),
            (snd (invoke cfg events post fn p h), log @ [(soap_action fn, build_envelope fn p)]))
      else (fst (invoke cfg events post fn p h), (h, log)))"
  by (auto simp: invoke_def logged_post_def split: prod.splits)

text \<open>What a call posts: nothing, or one envelope for the function asked for, with checked keys.\<close>

definition posts ::
  "soap_rfc_config \<Rightarrow> (string \<Rightarrow> string \<Rightarrow> rfc_function_meta rfc_result) \<Rightarrow> rfc_call_request \<Rightarrow> bool \<Rightarrow> jmap \<Rightarrow> bool" where
  "posts cfg cat rq ro args \<longleftrightarrow>
     soap_gate (cat (rq_function rq) (sc_language cfg)) (rq_function rq) ro = None \<and>
     is_safe_name (rq_function rq) \<and> call_args (rq_parameters rq) = Some args \<and>
     validate_keys (JObject args) = Inr ()"

lemma soap_call_logged:
  assumes "soap_call_rfc cfg events (logged_post post) cat rq ro (h, log) = (r, (h', log'))"
  shows "(log' = log \<and> h' = h \<and> (\<nexists>args. posts cfg cat rq ro args)) \<or>
    (\<exists>args. posts cfg cat rq ro args \<and>
       log' = log @ [(soap_action (rq_function rq), build_envelope (rq_function rq) (write_params args))])"
proof -
  let ?gate = "soap_gate (cat (rq_function rq) (sc_language cfg)) (rq_function rq) ro"
  let ?args = "case rq_parameters rq of JObject m \<Rightarrow> Inr m | JNull \<Rightarrow> Inr []
      | other \<Rightarrow> Inl (InvalidParameter ''parameters'' (''expected object, got '' @ json_to_string other))"
  have args: "?args = Inr m \<longleftrightarrow> call_args (rq_parameters rq) = Some m" for m
    by (auto simp: call_args_def split: json.splits)
  show ?thesis
  proof (cases "\<exists>m. ?gate = None \<and> ?args = Inr m \<and> validate_keys (JObject m) = Inr ()")
    case False
    then have "log' = log \<and> h' = h"
      using assms unfolding soap_call_rfc_def by (auto split: option.splits sum.splits)
    moreover have "\<nexists>args. posts cfg cat rq ro args" using False args by (auto simp: posts_def)
    ultimately show ?thesis by blast
  next
    case True
    then obtain m where m: "?gate = None" "?args = Inr m" "validate_keys (JObject m) = Inr ()" by blast
    have res: "snd (soap_call_rfc cfg events (logged_post post) cat rq ro (h, log)) =
        snd (invoke cfg events (logged_post post) (rq_function rq) (write_params m) (h, log))"
      unfolding soap_call_rfc_def m(1) option.case m(2) sum.case m(3)
      by (auto split: prod.splits option.splits sum.splits)
    show ?thesis
    proof (cases "is_safe_name (rq_function rq)")
      case True
      with m args have "posts cfg cat rq ro m" by (simp add: posts_def)
      with True res assms show ?thesis by (auto simp: invoke_logged)
    next
      case False
      with res assms have "log' = log \<and> h' = h" by (simp add: invoke_logged)
      with False show ?thesis by (auto simp: posts_def)
    qed
  qed
qed

interpretation soap_backend: read_only_backend
  "soap_call_rfc cfg events (logged_post post) cat" "\<lambda>st. map fst (snd st)" soap_action
  "catalogue_permits cat (sc_language cfg)"
  for cfg events and post :: "'h http_post" and cat
proof unfold_locales
  fix rq and s :: "'h \<times> (string \<times> string) list"
  obtain h log where s: "s = (h, log)" by (cases s)
  obtain r h' log' where r: "soap_call_rfc cfg events (logged_post post) cat rq True (h, log) = (r, (h', log'))"
    by (metis prod.exhaust)
  from soap_call_logged [OF r] r s
  show "map fst (snd (snd (soap_call_rfc cfg events (logged_post post) cat rq True s))) = map fst (snd s) \<or>
      catalogue_permits cat (sc_language cfg) (rq_function rq) \<and>
      map fst (snd (snd (soap_call_rfc cfg events (logged_post post) cat rq True s))) =
        map fst (snd s) @ [soap_action (rq_function rq)]"
    by (auto simp: posts_def dest: gate_permits)
qed

section \<open>Properties\<close>

lemma seeded_permits:
  "catalogue_permits (mock_rfc_metadata (mock_new sem_new n identity)) lang f \<Longrightarrow> f \<in> set catalogue_read_only"
  using insert_functions_Some [of seed_functions Map.empty f]
  by (force simp: catalogue_permits_def mock_rfc_metadata_def mock_new_def catalogue_read_only_def
      split: option.splits)

text \<open>
  C3. A read-only session over the SOAP client sends only reads. Whatever requests an agent makes in
  read-only mode, in whatever order and with whatever parameters, and whatever the SAP system
  answers, the SOAP actions posted are those of a subsequence of the requests, and each of them names
  one of the four functions the shipped catalogue marks read-only.
\<close>

theorem soap_session_read_only:
  "\<exists>fs. map fst (snd (fold (\<lambda>rq s. snd (soap_call_rfc cfg events (logged_post post)
          (mock_rfc_metadata (mock_new sem_new n identity)) rq True s)) rqs (h, []))) = map soap_action fs
     \<and> subseq fs (map rq_function rqs)
     \<and> set fs \<subseteq> {''RFC_SYSTEM_INFO'', ''BAPI_MATERIAL_GET_DETAIL'', ''RFC_READ_TABLE'', ''DDIF_FIELDINFO_GET''}"
proof -
  let ?cat = "mock_rfc_metadata (mock_new sem_new n identity)"
  obtain fs where fs: "map fst (snd (soap_backend.session cfg events post ?cat rqs (h, []))) = map soap_action fs"
    "list_all (catalogue_permits ?cat (sc_language cfg)) fs" "subseq fs (map rq_function rqs)"
    using soap_backend.session_effects [of cfg events post ?cat rqs "(h, [])"] by auto
  from fs(2) have "set fs \<subseteq> set catalogue_read_only" 
    by (auto simp: list_all_iff intro!: seeded_permits)
  with fs show ?thesis
    by (auto simp: soap_backend.session_def catalogue_read_only_eq)
qed

text \<open>
  What a single SOAP call sends, in either mode: nothing, leaving the HTTP client untouched, or
  exactly one envelope. An envelope is sent only if the read-only gate let the function through, the
  function name and all keys are safe, and then it is the envelope of exactly that function, with
  the call's own parameters as its only content. No input makes the call panic.
\<close>

lemma soap_call_posts_once:
  assumes "soap_call_rfc cfg events (logged_post post) cat rq ro (h, log) = (r, (h', log'))"
    "plain_numbers (rq_parameters rq)"
  shows "r \<noteq> None \<and> ((log' = log \<and> h' = h) \<or>
    (\<exists>args. posts cfg cat rq ro args \<and>
       log' = log @ [(soap_action (rq_function rq), build_envelope (rq_function rq) (write_params args))] \<and>
       xml_lex (snd (last log')) =
         envelope_open (rq_function rq) @ params_tokens args @ envelope_close (rq_function rq)))"
proof -
  have ok: "r \<noteq> None" using soap_call_ok [of cfg events "logged_post post" cat rq ro "(h, log)"] assms(1) by simp
  have "xml_lex (build_envelope (rq_function rq) (write_params args)) =
      envelope_open (rq_function rq) @ params_tokens args @ envelope_close (rq_function rq)"
    if p: "posts cfg cat rq ro args" for args
  proof -
    have "plain_numbers (JObject args)"
      using p assms(2) by (auto simp: posts_def call_args_def split: json.splits)
    with p lex_envelope lex_args show ?thesis by (auto simp: posts_def)
  qed
  with soap_call_logged [OF assms(1)] ok show ?thesis by auto
qed

definition demo_cfg :: soap_rfc_config where
  "demo_cfg = \<lparr> sc_base_url = ''https://h'', sc_client = ''100'', sc_user = ''u'', sc_password = ''p'',
     sc_language = ''EN'', sc_timeout_ms = 5000 \<rparr>"

end
