(* ===== verification/Mcp_Client.thy ===== *)
theory Mcp_Client
  imports Waiters
begin

text \<open>
  The MCP client (\<open>mcp-client/src/lib.rs\<close>). A call is a task that moves through the atomic steps of
  \<open>Client::call\<close>; the reader, the tasks that answer server requests, and the writer interleave with it.
  Encoders and decoders of serde and the elicitation delegate are arguments.
\<close>

section \<open>Requests of the server\<close>

text \<open>\<open>DeclineAll::on_elicit\<close>.\<close>

definition decline_all :: "elicitation_params \<Rightarrow> elicitation_result" where
  "decline_all p = \<lparr> er_action = Decline, er_content = None \<rparr>"

record delegate_serde =
  de_elicit :: "json \<Rightarrow> (string, elicitation_params) result"
  ser_elicit :: "elicitation_result \<Rightarrow> (string, json) result"

definition handle_server_request ::
  "delegate_serde \<Rightarrow> (elicitation_params \<Rightarrow> elicitation_result) \<Rightarrow> request \<Rightarrow> response" where
  "handle_server_request ds on_elicit req =
     (let i = req_id req in
      if req_method req = ''elicitation/create'' then
        (case (case req_params req of
                 None \<Rightarrow> None
               | Some p \<Rightarrow> (case de_elicit ds p of Inr x \<Rightarrow> Some x | Inl _ \<Rightarrow> None)) of
           None \<Rightarrow> response_failure i (error_object_new (mcp_code InvalidParams) ''invalid elicitation params'')
         | Some params \<Rightarrow>
             (case ser_elicit ds (on_elicit params) of
                Inr v \<Rightarrow> response_success i v
              | Inl e \<Rightarrow> response_failure i (error_object_new (mcp_code InternalError) e)))
      else response_failure i (error_object_new (mcp_code MethodNotFound)
             (''method '' @ sq (req_method req) @ '' not supported by client'')))"

section \<open>The client\<close>

record mcp_client =
  cl_table :: waiters
  cl_outbox :: "message list"
  cl_outbox_open :: bool
  cl_spawned :: "request list"
  cl_reader_done :: bool
  cl_server_info :: "initialize_result option"

definition client_base :: "64 word" where "client_base = 1"

definition client_new :: mcp_client where
  "client_new = \<lparr> cl_table = wt_new client_base, cl_outbox = [], cl_outbox_open = True, cl_spawned = [],
     cl_reader_done = False, cl_server_info = None \<rparr>"

text \<open>\<open>self.outbox.send(msg)\<close>.\<close>

definition outbox_send :: "message \<Rightarrow> mcp_client \<Rightarrow> mcp_client option" where
  "outbox_send m c = (if cl_outbox_open c then Some (c\<lparr>cl_outbox := cl_outbox c @ [m]\<rparr>) else None)"

definition notify :: "string \<Rightarrow> json option \<Rightarrow> mcp_client \<Rightarrow> unit mcp_result \<times> mcp_client" where
  "notify meth params c =
     (case outbox_send (Msg_Notification (notification_new meth params)) c of
        None \<Rightarrow> (Inl TransportClosed, c)
      | Some c' \<Rightarrow> (Inr (), c'))"

text \<open>One message arriving at the reader.\<close>

definition client_receive :: "message \<Rightarrow> mcp_client \<Rightarrow> mcp_client" where
  "client_receive m c =
     (case m of
        Msg_Response r \<Rightarrow> c\<lparr>cl_table := snd (wt_deliver r (cl_table c))\<rparr>
      | Msg_Notification n \<Rightarrow> c
      | Msg_Request req \<Rightarrow> c\<lparr>cl_spawned := cl_spawned c @ [req]\<rparr>)"

text \<open>End of the stream, or a failed read: the loop ends and the table is cleared.\<close>

definition client_eof :: "mcp_client \<Rightarrow> mcp_client" where
  "client_eof c = c\<lparr>cl_reader_done := True, cl_table := wt_clear (cl_table c)\<rparr>"

text \<open>What \<open>call\<close> does with the response, and the decoding of its result.\<close>

definition call_finish :: "response \<Rightarrow> json mcp_result" where
  "call_finish r =
     (case resp_error r of
        Some err \<Rightarrow> Inl (Protocol (eo_code err) (eo_message err))
      | None \<Rightarrow>
          (case resp_result r of
             None \<Rightarrow> Inl (protocol_error InvalidRequest ''response missing result'')
           | Some v \<Rightarrow> Inr v))"

definition call_decode :: "(json \<Rightarrow> (string, 'r) result) \<Rightarrow> json mcp_result \<Rightarrow> 'r mcp_result" where
  "call_decode de r = bind_result r (\<lambda>v. case de v of Inr x \<Rightarrow> Inr x | Inl e \<Rightarrow> Inl (Json_Error e))"

datatype call_task =
    Call_Allocated int nat string "json option"
  | Call_Registered int nat string "json option"
  | Call_Waiting int nat
  | Call_Done "json mcp_result"

definition call_enter :: "string \<Rightarrow> json option \<Rightarrow> mcp_client \<Rightarrow> call_task \<times> mcp_client" where
  "call_enter meth params c =
     (let (i, ch, w) = wt_alloc (cl_table c) in (Call_Allocated i ch meth params, c\<lparr>cl_table := w\<rparr>))"

fun call_resume :: "call_task \<Rightarrow> mcp_client \<Rightarrow> (call_task \<times> mcp_client) option" where
  "call_resume (Call_Allocated i ch meth params) c =
     Some (Call_Registered i ch meth params, c\<lparr>cl_table := wt_register i ch (cl_table c)\<rparr>)"
| "call_resume (Call_Registered i ch meth params) c = Some
     (case outbox_send (Msg_Request (request_new (Id_Number i) meth params)) c of
        None \<Rightarrow> (Call_Done (Inl TransportClosed), c)
      | Some c' \<Rightarrow> (Call_Waiting i ch, c'))"
| "call_resume (Call_Waiting i ch) c =
     (case wt_slots (cl_table c) ! ch of
        Slot_Sent r \<Rightarrow> Some (Call_Done (call_finish r), c)
      | Slot_Dropped \<Rightarrow> Some (Call_Done (Inl TransportClosed), c)
      | _ \<Rightarrow> None)"
| "call_resume (Call_Done r) c = None"

section \<open>The typed operations\<close>

datatype client_op =
    Op_Initialize implementation client_capabilities
  | Op_List_Tools
  | Op_Call_Tool string "json option"
  | Op_List_Resources
  | Op_Read_Resource string
  | Op_List_Prompts
  | Op_Get_Prompt string "json option"
  | Op_Set_Log_Level log_level
  | Op_Complete_Prompt_Argument string string string
  | Op_Raw_Request string "json option"
  | Op_Ping

datatype typed_params =
    Par_Initialize initialize_params
  | Par_Call call_tool_params
  | Par_Read read_resource_params
  | Par_Prompt get_prompt_params
  | Par_Level set_level_params
  | Par_Complete complete_params

text \<open>The method and parameters each operation passes to \<open>call\<close>; \<open>serde_json::to_value(params)?\<close> first.\<close>

definition with_params :: "(typed_params \<Rightarrow> (string, json) result) \<Rightarrow> string \<Rightarrow> typed_params \<Rightarrow> (string \<times> json option) mcp_result" where
  "with_params ser meth p = (case ser p of Inr v \<Rightarrow> Inr (meth, Some v) | Inl e \<Rightarrow> Inl (Json_Error e))"

fun op_request :: "(typed_params \<Rightarrow> (string, json) result) \<Rightarrow> client_op \<Rightarrow> (string \<times> json option) mcp_result" where
  "op_request ser (Op_Initialize client_info caps) = with_params ser ''initialize''
     (Par_Initialize \<lparr> ip_protocol_version = PROTOCOL_VERSION, ip_capabilities = caps, ip_client_info = client_info \<rparr>)"
| "op_request ser Op_List_Tools = Inr (''tools/list'', None)"
| "op_request ser (Op_Call_Tool name arguments) = with_params ser ''tools/call''
     (Par_Call \<lparr> ctp_name = name, ctp_arguments = arguments \<rparr>)"
| "op_request ser Op_List_Resources = Inr (''resources/list'', None)"
| "op_request ser (Op_Read_Resource uri) = with_params ser ''resources/read'' (Par_Read \<lparr> rrp_uri = uri \<rparr>)"
| "op_request ser Op_List_Prompts = Inr (''prompts/list'', None)"
| "op_request ser (Op_Get_Prompt name arguments) = with_params ser ''prompts/get''
     (Par_Prompt \<lparr> gpp_name = name, gpp_arguments = arguments \<rparr>)"
| "op_request ser (Op_Set_Log_Level level) = with_params ser ''logging/setLevel'' (Par_Level \<lparr> slp_level = level \<rparr>)"
| "op_request ser (Op_Complete_Prompt_Argument prompt_name argument_name typed_value) =
     with_params ser ''completion/complete'' (Par_Complete
       \<lparr> cmp_reference = Ref_Prompt prompt_name,
         cmp_argument = \<lparr> car_name = argument_name, car_value = typed_value \<rparr> \<rparr>)"
| "op_request ser (Op_Raw_Request meth params) = Inr (meth, params)"
| "op_request ser Op_Ping = Inr (''ping'', None)"

text \<open>The end of \<open>initialize\<close>, once its call has returned.\<close>

definition initialize_finish :: "initialize_result mcp_result \<Rightarrow> mcp_client \<Rightarrow> initialize_result mcp_result \<times> mcp_client" where
  "initialize_finish r c =
     (case r of
        Inl e \<Rightarrow> (Inl e, c)
      | Inr result \<Rightarrow>
          (case notify ''notifications/initialized'' None c of
             (Inl e, c') \<Rightarrow> (Inl e, c')
           | (Inr _, c') \<Rightarrow> (Inr result, c'\<lparr>cl_server_info := Some result\<rparr>)))"

section \<open>Interleaved calls\<close>

record client_run =
  cr_client :: mcp_client
  cr_tasks :: "call_task list"

definition client_start :: client_run where
  "client_start = \<lparr> cr_client = client_new, cr_tasks = [] \<rparr>"

inductive client_step :: "delegate_serde \<Rightarrow> (elicitation_params \<Rightarrow> elicitation_result) \<Rightarrow> client_run \<Rightarrow> client_run \<Rightarrow> bool"
  for ds on_elicit where
  cl_call: "call_enter meth params (cr_client s) = (t, c) \<Longrightarrow>
     client_step ds on_elicit s \<lparr> cr_client = c, cr_tasks = cr_tasks s @ [t] \<rparr>"
| cl_resume: "i < length (cr_tasks s) \<Longrightarrow> call_resume (cr_tasks s ! i) (cr_client s) = Some (t, c) \<Longrightarrow>
     client_step ds on_elicit s \<lparr> cr_client = c, cr_tasks = (cr_tasks s)[i := t] \<rparr>"
| cl_receive: "\<not> cl_reader_done (cr_client s) \<Longrightarrow>
     client_step ds on_elicit s (s\<lparr>cr_client := client_receive m (cr_client s)\<rparr>)"
| cl_eof: "\<not> cl_reader_done (cr_client s) \<Longrightarrow>
     client_step ds on_elicit s (s\<lparr>cr_client := client_eof (cr_client s)\<rparr>)"
| cl_answer: "cl_spawned (cr_client s) = xs @ req # ys \<Longrightarrow>
     outbox_send (Msg_Response (handle_server_request ds on_elicit req)) (cr_client s) = c \<Longrightarrow>
     client_step ds on_elicit s (s\<lparr>cr_client := (case c of Some c' \<Rightarrow> c' | None \<Rightarrow> cr_client s)\<lparr>cl_spawned := xs @ ys\<rparr>\<rparr>)"
| cl_notify: "notify meth params (cr_client s) = (r, c) \<Longrightarrow> client_step ds on_elicit s (s\<lparr>cr_client := c\<rparr>)"
| cl_writer_fails: "client_step ds on_elicit s (s\<lparr>cr_client := (cr_client s)\<lparr>cl_outbox_open := False\<rparr>\<rparr>)"

abbreviation cr_table :: "client_run \<Rightarrow> waiters" where
  "cr_table s \<equiv> cl_table (cr_client s)"

section \<open>Invariant of the calls\<close>

text \<open>The \<open>i\<close>-th call owns channel \<open>i\<close>; its sender is dropped only by the end of the reader.\<close>

fun call_ok :: "bool \<Rightarrow> nat \<Rightarrow> call_task \<Rightarrow> slot \<Rightarrow> bool" where
  "call_ok ended i (Call_Allocated k ch m p) sl \<longleftrightarrow> k = id_of client_base i \<and> ch = i \<and> sl = Slot_New"
| "call_ok ended i (Call_Registered k ch m p) sl \<longleftrightarrow>
     k = id_of client_base i \<and> ch = i \<and> sl \<noteq> Slot_New \<and> (sl = Slot_Dropped \<longrightarrow> ended)"
| "call_ok ended i (Call_Waiting k ch) sl \<longleftrightarrow>
     k = id_of client_base i \<and> ch = i \<and> sl \<noteq> Slot_New \<and> (sl = Slot_Dropped \<longrightarrow> ended)"
| "call_ok ended i (Call_Done r) sl \<longleftrightarrow> sl \<noteq> Slot_New \<and>
     (is_ok r \<longrightarrow> (\<exists>resp. sl = Slot_Sent resp \<and> r = call_finish resp))"

definition client_ok :: "client_run \<Rightarrow> bool" where
  "client_ok s \<longleftrightarrow> length (cr_tasks s) = length (wt_slots (cr_table s)) \<and>
     (\<forall>i < length (cr_tasks s). call_ok (cl_reader_done (cr_client s)) i (cr_tasks s ! i) (wt_slots (cr_table s) ! i))"

lemma call_ok_deliver:
  assumes "wt_inv base w" "i < length (wt_slots w)" "call_ok e i t (wt_slots w ! i)"
  shows "call_ok e i t (wt_slots (snd (wt_deliver r w)) ! i)"
  using wt_deliver_slot [OF assms(1,2), of r] assms(3) by (cases t) auto

lemma outbox_send_keeps [simp]:
  "outbox_send m c = Some c' \<Longrightarrow> cl_table c' = cl_table c \<and> cl_reader_done c' = cl_reader_done c"
  by (auto simp: outbox_send_def split: if_splits)

lemma call_resume_ok:
  assumes inv: "wt_inv client_base (cl_table c)" and len: "length (wt_slots (cl_table c)) \<le> 2 ^ 64"
    and i: "i < length (wt_slots (cl_table c))" and ok: "call_ok (cl_reader_done c) i t (wt_slots (cl_table c) ! i)"
    and res: "call_resume t c = Some (t', c')"
  shows "call_ok (cl_reader_done c') i t' (wt_slots (cl_table c') ! i) \<and>
    length (wt_slots (cl_table c')) = length (wt_slots (cl_table c)) \<and> cl_reader_done c' = cl_reader_done c \<and>
    (\<forall>j < length (wt_slots (cl_table c)). j \<noteq> i \<longrightarrow> wt_slots (cl_table c') ! j = wt_slots (cl_table c) ! j)"
proof (cases t)
  case (Call_Allocated k ch m p)
  then show ?thesis
    using ok res wt_register_nth [OF inv len i] i by auto
next
  case (Call_Registered k ch m p)
  then show ?thesis
    using ok res by (auto split: option.splits)
next
  case (Call_Waiting k ch)
  then show ?thesis
    using ok res by (auto split: slot.splits)
next
  case (Call_Done r)
  then show ?thesis using res by simp
qed

lemma notify_keeps: "notify m p c = (r, c') \<Longrightarrow> cl_table c' = cl_table c \<and> cl_reader_done c' = cl_reader_done c"
  by (auto simp: notify_def split: option.splits)

lemma receive_table:
  "cl_table (client_receive m c) = (case m of Msg_Response r \<Rightarrow> snd (wt_deliver r (cl_table c)) | _ \<Rightarrow> cl_table c)"
  "cl_reader_done (client_receive m c) = cl_reader_done c"
  by (simp_all add: client_receive_def split: message.splits)

lemma client_step_ok:
  assumes "client_step ds on_elicit s s'" "client_ok s" "wt_inv client_base (cr_table s)"
    "length (wt_slots (cr_table s')) \<le> 2 ^ 64"
  shows "client_ok s'"
  using assms
proof (induction rule: client_step.induct)
  case (cl_call meth params s t c)
  then show ?case
    by (auto simp: client_ok_def call_enter_def wt_alloc_def nth_append less_Suc_eq wt_inv_def id_of_def)
next
  case (cl_resume i s t c)
  have len: "length (wt_slots (cr_table s)) \<le> 2 ^ 64"
    using cl_resume.hyps(2) cl_resume.prems(3)
    by (cases "cr_tasks s ! i") (auto split: option.splits slot.splits)
  have "i < length (wt_slots (cr_table s))"
    "call_ok (cl_reader_done (cr_client s)) i (cr_tasks s ! i) (wt_slots (cr_table s) ! i)"
    using cl_resume by (auto simp: client_ok_def)
  from call_resume_ok [OF cl_resume.prems(2) len this cl_resume.hyps(2)] show ?case
    using cl_resume.hyps(1) cl_resume.prems(1) by (auto simp: client_ok_def nth_list_update)
next
  case (cl_receive s m)
  then show ?case
    by (auto simp: client_ok_def receive_table call_ok_deliver split: message.splits)
next
  case (cl_eof s)
  have "call_ok True i t (if sl = Slot_Open then Slot_Dropped else sl)" if "call_ok False i t sl" for i t sl
    using that by (cases t) auto
  then show ?case
    using cl_eof by (auto simp: client_ok_def client_eof_def wt_clear_def)
next
  case (cl_notify meth params s r c)
  then show ?case by (auto simp: client_ok_def dest: notify_keeps)
qed (auto simp: client_ok_def split: option.splits)

lemma client_step_table:
  assumes "client_step ds on_elicit s s'" "client_ok s"
  shows "waiters_step client_base (cr_table s) (cr_table s')"
  using assms
proof (induction rule: client_step.induct)
  case (cl_call meth params s t c)
  then show ?case
    using ws_alloc [of client_base "cr_table s"] by (auto simp: call_enter_def split: prod.splits)
next
  case (cl_resume i s t c)
  then have "call_ok (cl_reader_done (cr_client s)) i (cr_tasks s ! i) (wt_slots (cr_table s) ! i)"
    "i < length (wt_slots (cr_table s))"
    by (auto simp: client_ok_def)
  then show ?case
    using cl_resume.hyps(2) ws_register [of i "cr_table s" client_base]
    by (cases "cr_tasks s ! i") (auto intro: ws_same split: option.splits slot.splits)
next
  case (cl_receive s m)
  then show ?case by (auto simp: receive_table intro: ws_deliver ws_same split: message.splits)
next
  case (cl_eof s)
  then show ?case by (simp add: client_eof_def ws_clear)
next
  case (cl_notify meth params s r c)
  then have "cl_table c = cr_table s" by (auto dest: notify_keeps)
  then show ?case by (simp add: ws_same)
qed (auto intro: ws_same split: option.splits)

lemma client_step_mono:
  assumes "client_step ds on_elicit s s'"
  shows "length (wt_slots (cr_table s)) \<le> length (wt_slots (cr_table s'))"
  using assms
proof (induction rule: client_step.induct)
  case (cl_resume i s t c)
  then show ?case by (cases "cr_tasks s ! i") (auto split: option.splits slot.splits)
qed (auto simp: call_enter_def wt_alloc_def receive_table client_eof_def dest: notify_keeps split: message.splits option.splits)

interpretation cl: correlator client_base cr_table client_ok client_start "client_step ds on_elicit"
  for ds on_elicit
proof unfold_locales
  show "cr_table client_start = wt_new client_base"
    by (simp add: client_start_def client_new_def)
  show "client_ok client_start"
    by (simp add: client_ok_def client_start_def client_new_def wt_new_def)
qed (auto intro: client_step_mono client_step_table client_step_ok)

lemma slots_eq_calls:
  "(client_step ds on_elicit)\<^sup>*\<^sup>* client_start s \<Longrightarrow> length (wt_slots (cr_table s)) = length (cr_tasks s)"
proof (induction rule: rtranclp_induct)
  case base
  then show ?case by (simp add: client_start_def client_new_def wt_new_def)
next
  case (step s s')
  from step(2,3) show ?case
  proof (induction rule: client_step.induct)
    case (cl_resume i s t c)
    then show ?case by (cases "cr_tasks s ! i") (auto split: option.splits slot.splits)
  qed (auto simp: call_enter_def wt_alloc_def receive_table client_eof_def dest: notify_keeps
      split: message.splits option.splits)
qed

lemma reachable_calls:
  assumes "(client_step ds on_elicit)\<^sup>*\<^sup>* client_start s" "length (cr_tasks s) \<le> 2 ^ 64"
  shows "client_ok s" "wt_inv client_base (cr_table s)" "length (wt_slots (cr_table s)) \<le> 2 ^ 64"
  using cl.reach_inv [OF assms(1)] slots_eq_calls [OF assms(1)] assms(2) by auto

text \<open>Once the reader has ended, an open channel stays open: nobody is left to answer or drop it.\<close>

lemma open_forever_step:
  assumes step: "client_step ds on_elicit s s'" and ok: "client_ok s" "wt_inv client_base (cr_table s)"
    and len: "length (wt_slots (cr_table s')) \<le> 2 ^ 64"
    and ended: "cl_reader_done (cr_client s)"
    and i: "i < length (cr_tasks s)" "cr_tasks s ! i = Call_Waiting k ch" "wt_slots (cr_table s) ! i = Slot_Open"
  shows "cl_reader_done (cr_client s') \<and> i < length (cr_tasks s') \<and> cr_tasks s' ! i = Call_Waiting k ch \<and>
    wt_slots (cr_table s') ! i = Slot_Open"
  using step ok len ended i
proof (induction rule: client_step.induct)
  case (cl_call meth params s t c)
  then show ?case
    by (auto simp: client_ok_def call_enter_def wt_alloc_def nth_append)
next
  case (cl_resume j s t c)
  then have j: "call_ok (cl_reader_done (cr_client s)) j (cr_tasks s ! j) (wt_slots (cr_table s) ! j)"
    "j < length (wt_slots (cr_table s))" "ch = i" "i < length (wt_slots (cr_table s))"
    by (auto simp: client_ok_def)
  have "length (wt_slots (cr_table s)) \<le> 2 ^ 64"
    using cl_resume.hyps(2) cl_resume.prems(3)
    by (cases "cr_tasks s ! j") (auto split: option.splits slot.splits)
  from call_resume_ok [OF cl_resume.prems(2) this j(2,1) cl_resume.hyps(2)] show ?case
    using cl_resume j by (cases "j = i") auto
next
  case (cl_notify meth params s r c)
  then show ?case by (auto dest: notify_keeps)
qed (auto split: option.splits)

lemma open_forever:
  assumes "(client_step ds on_elicit)\<^sup>*\<^sup>* s s'" "(client_step ds on_elicit)\<^sup>*\<^sup>* client_start s"
    "length (cr_tasks s') \<le> 2 ^ 64" "cl_reader_done (cr_client s)"
    "i < length (cr_tasks s)" "cr_tasks s ! i = Call_Waiting k ch" "wt_slots (cr_table s) ! i = Slot_Open"
  shows "cl_reader_done (cr_client s') \<and> i < length (cr_tasks s') \<and> cr_tasks s' ! i = Call_Waiting k ch \<and>
    wt_slots (cr_table s') ! i = Slot_Open"
  using assms
proof (induction rule: rtranclp_induct)
  case base
  then show ?case by simp
next
  case (step a b)
  have reach: "(client_step ds on_elicit)\<^sup>*\<^sup>* client_start a" "(client_step ds on_elicit)\<^sup>*\<^sup>* client_start b"
    using step.prems(1) step.hyps by (meson rtranclp_trans rtranclp.rtrancl_into_rtrancl)+
  have "length (cr_tasks a) \<le> 2 ^ 64"
    using client_step_mono [OF step.hyps(2)] slots_eq_calls [OF reach(1)] slots_eq_calls [OF reach(2)] step.prems(2)
    by simp
  then show ?case
    using open_forever_step [OF step.hyps(2) reachable_calls(1,2) [OF reach(1)]] step
      reachable_calls(3) [OF reach(2)] by blast
qed

lemma handle_server_request_id: "resp_id (handle_server_request ds on_elicit req) = req_id req"
  by (simp add: handle_server_request_def response_success_def response_failure_def Let_def split: option.splits sum.splits)

text \<open>Runs used as examples: a call that waits, and a call made after the end of the stream.\<close>

definition demo_waiting :: client_run where
  "demo_waiting =
     \<lparr> cr_client = \<lparr> cl_table = \<lparr> wt_next = 2, wt_pending = [(1, 0)], wt_slots = [Slot_Open] \<rparr>,
         cl_outbox = [Msg_Request (request_new (Id_Number 1) ''ping'' None)], cl_outbox_open = True,
         cl_spawned = [], cl_reader_done = False, cl_server_info = None \<rparr>,
       cr_tasks = [Call_Waiting 1 0] \<rparr>"

definition demo_hanging :: client_run where
  "demo_hanging = demo_waiting\<lparr>cr_client := (cr_client demo_waiting)\<lparr>cl_reader_done := True\<rparr>\<rparr>"

lemma demo_call_reach:
  assumes "(client_step ds on_elicit)\<^sup>*\<^sup>* client_start \<lparr> cr_client = client_new\<lparr>cl_reader_done := e\<rparr>, cr_tasks = [] \<rparr>"
  shows "(client_step ds on_elicit)\<^sup>*\<^sup>* client_start
    (demo_waiting\<lparr>cr_client := (cr_client demo_waiting)\<lparr>cl_reader_done := e\<rparr>\<rparr>)"
proof -
  let ?step = "client_step ds on_elicit"
  define s0 where "s0 = \<lparr> cr_client = client_new\<lparr>cl_reader_done := e\<rparr>, cr_tasks = [] \<rparr>"
  define c1 where "c1 = (cr_client s0)\<lparr>cl_table := snd (snd (wt_alloc (wt_new client_base)))\<rparr>"
  define s1 where "s1 = \<lparr> cr_client = c1, cr_tasks = [Call_Allocated 1 0 ''ping'' None] \<rparr>"
  define s2 where "s2 = \<lparr> cr_client = c1\<lparr>cl_table := wt_register 1 0 (cl_table c1)\<rparr>,
    cr_tasks = [Call_Registered 1 0 ''ping'' None] \<rparr>"
  have a: "?step s0 s1"
    using cl_call [of "''ping''" None s0]
    by (simp add: s0_def s1_def c1_def client_new_def call_enter_def wt_alloc_def wt_new_def client_base_def)
  have b: "?step s1 s2"
    using cl_resume [of 0 s1] by (simp add: s1_def s2_def)
  have c: "?step s2 (demo_waiting\<lparr>cr_client := (cr_client demo_waiting)\<lparr>cl_reader_done := e\<rparr>\<rparr>)"
    using cl_resume [where i = 0 and s = s2 and t = "Call_Waiting 1 0" and ds = ds and on_elicit = on_elicit
        and c = "(cr_client demo_waiting)\<lparr>cl_reader_done := e\<rparr>"]
    by (simp add: s0_def s2_def c1_def demo_waiting_def client_new_def wt_alloc_def wt_new_def wt_register_def
        wt_drop_def client_base_def outbox_send_def)
  have "?step\<^sup>*\<^sup>* client_start s0"
    using assms by (simp add: s0_def)
  from this a b c show ?thesis
    by (rule rtranclp.rtrancl_into_rtrancl [OF rtranclp.rtrancl_into_rtrancl [OF rtranclp.rtrancl_into_rtrancl]])
qed

lemma demo_waiting_reach: "(client_step ds on_elicit)\<^sup>*\<^sup>* client_start demo_waiting"
  using demo_call_reach [of ds on_elicit False] by (simp add: demo_waiting_def client_start_def client_new_def)

lemma demo_hanging_reach: "(client_step ds on_elicit)\<^sup>*\<^sup>* client_start demo_hanging"
proof -
  have "client_step ds on_elicit client_start \<lparr> cr_client = client_new\<lparr>cl_reader_done := True\<rparr>, cr_tasks = [] \<rparr>"
    using cl_eof [of client_start] by (simp add: client_start_def client_new_def client_eof_def wt_clear_def wt_new_def)
  then show ?thesis
    using demo_call_reach [of ds on_elicit True] by (auto simp: demo_hanging_def)
qed

section \<open>Properties\<close>

text \<open>
  C15. Every call gets its own answer. In every state that interleaved calls, incoming messages and
  failures can reach (with at most \<open>2^64\<close> calls made), a call waiting for its response has an id no
  other waiting call has; before its response arrives it is blocked, and the response with its id, and
  only that one, makes it return, with the value or the error of that response; if the stream ends
  while the reader runs, the call returns instead of hanging, and \<open>TransportClosed\<close> is reported only
  then.
\<close>

theorem client_calls_correlated:
  assumes "(client_step ds on_elicit)\<^sup>*\<^sup>* client_start s" "length (cr_tasks s) \<le> 2 ^ 64"
    and "i < length (cr_tasks s)" "cr_tasks s ! i = Call_Waiting k ch"
  shows "(\<forall>j < length (cr_tasks s). \<forall>k' ch'. cr_tasks s ! j = Call_Waiting k' ch' \<longrightarrow> j \<noteq> i \<longrightarrow> k' \<noteq> k) \<and>
    (case wt_slots (cr_table s) ! ch of
       Slot_Open \<Rightarrow> call_resume (Call_Waiting k ch) (cr_client s) = None \<and>
         (\<forall>r c. c = client_receive (Msg_Response r) (cr_client s) \<longrightarrow>
            call_resume (Call_Waiting k ch) c =
              (if resp_id r = Id_Number k then Some (Call_Done (call_finish r), c) else None)) \<and>
         (\<forall>c. c = client_eof (cr_client s) \<longrightarrow>
            call_resume (Call_Waiting k ch) c = Some (Call_Done (Inl TransportClosed), c))
     | Slot_Sent r \<Rightarrow> resp_id r = Id_Number k \<and>
         call_resume (Call_Waiting k ch) (cr_client s) = Some (Call_Done (call_finish r), cr_client s)
     | Slot_Dropped \<Rightarrow> cl_reader_done (cr_client s)
     | Slot_New \<Rightarrow> False)"
proof -
  note ok = reachable_calls [OF assms(1,2)]
  have tasks: "call_ok (cl_reader_done (cr_client s)) j (cr_tasks s ! j) (wt_slots (cr_table s) ! j)"
    if "j < length (cr_tasks s)" for j
    using ok(1) that by (simp add: client_ok_def)
  have i: "k = id_of client_base i" "ch = i" "wt_slots (cr_table s) ! i \<noteq> Slot_New"
    "wt_slots (cr_table s) ! i = Slot_Dropped \<longrightarrow> cl_reader_done (cr_client s)" "i < length (wt_slots (cr_table s))"
    using tasks [OF assms(3)] assms(3,4) slots_eq_calls [OF assms(1)] by auto
  have "k' \<noteq> k" if "j < length (cr_tasks s)" "cr_tasks s ! j = Call_Waiting k' ch'" "j \<noteq> i" for j k' ch'
    using tasks [OF that(1)] that id_of_inj [of j i client_base] i assms(2,3) by auto
  moreover have "resp_id r = Id_Number k" if "wt_slots (cr_table s) ! i = Slot_Sent r" for r
    using cl.routed [OF assms(1) ok(3) i(5) that] i(1) by simp
  moreover have "wt_slots (snd (wt_deliver r (cr_table s))) ! i = (if resp_id r = Id_Number k then Slot_Sent r else Slot_Open)"
    if "wt_slots (cr_table s) ! i = Slot_Open" for r
  proof (cases "resp_id r = Id_Number k")
    case True
    then show ?thesis using cl.woken [OF assms(1) ok(3) i(5) that, of r] i by simp
  next
    case False
    then have "map_of (wt_pending (cr_table s)) n \<noteq> Some i" if "resp_id r = Id_Number n" for n
      using wt_inv_lookup [OF ok(2), of n i] i(1) that by auto
    then show ?thesis
      using False that by (auto simp: wt_deliver_def nth_list_update split: rpc_id.splits option.splits)
  qed
  ultimately show ?thesis
    using i by (cases "wt_slots (cr_table s) ! i") (auto simp: receive_table client_eof_def wt_clear_def)
qed

theorem client_calls_correlated_witness:
  "call_resume (Call_Waiting 1 0) (client_receive (Msg_Response (response_success (Id_Number 1) JNull)) (cr_client demo_waiting))
     = Some (Call_Done (Inr JNull), client_receive (Msg_Response (response_success (Id_Number 1) JNull)) (cr_client demo_waiting))"
proof -
  let ?r = "response_success (Id_Number 1) JNull"
  have w: "cr_tasks demo_waiting = [Call_Waiting 1 0]" "wt_slots (cr_table demo_waiting) ! 0 = Slot_Open"
    by (simp_all add: demo_waiting_def)
  have "\<forall>r c. c = client_receive (Msg_Response r) (cr_client demo_waiting) \<longrightarrow>
      call_resume (Call_Waiting 1 0) c = (if resp_id r = Id_Number 1 then Some (Call_Done (call_finish r), c) else None)"
    using client_calls_correlated [OF demo_waiting_reach, of 0 1 0] w(2) by (simp add: w(1) del: call_resume.simps)
  from this [rule_format, of _ ?r, OF refl] show ?thesis
    by (simp add: response_success_def call_finish_def del: call_resume.simps)
qed

text \<open>
  A call made after the end of the stream hangs: with the split reader and writer, once the reader
  has ended and cleared the table, a call whose request is still accepted by the outbox waits in every
  later state, since nobody is left to answer it or to drop its sender.
\<close>

lemma client_call_after_eof_hangs:
  assumes "(client_step ds on_elicit)\<^sup>*\<^sup>* client_start s" "cl_reader_done (cr_client s)"
    "i < length (cr_tasks s)" "cr_tasks s ! i = Call_Waiting k ch" "wt_slots (cr_table s) ! ch = Slot_Open"
    and "(client_step ds on_elicit)\<^sup>*\<^sup>* s s'" "length (cr_tasks s') \<le> 2 ^ 64"
  shows "cr_tasks s' ! i = Call_Waiting k ch \<and> call_resume (cr_tasks s' ! i) (cr_client s') = None"
proof -
  have reach: "(client_step ds on_elicit)\<^sup>*\<^sup>* client_start s'"
    using assms(1,6) by simp
  have "length (cr_tasks s) \<le> length (cr_tasks s')"
    using assms(6,1)
  proof (induction rule: rtranclp_induct)
    case (step a b)
    then have "(client_step ds on_elicit)\<^sup>*\<^sup>* client_start a" "(client_step ds on_elicit)\<^sup>*\<^sup>* client_start b"
      by (meson rtranclp_trans rtranclp.rtrancl_into_rtrancl)+
    then show ?case
      using step client_step_mono [OF step.hyps(2)] slots_eq_calls by fastforce
  qed simp
  then have "ch = i"
    using reachable_calls(1) [OF assms(1)] assms(3,4,7) by (auto simp: client_ok_def)
  then show ?thesis
    using open_forever [OF assms(6,1,7,2,3,4)] assms(5) by auto
qed

end
