(* ===== verification/Client_Actor.thy ===== *)
theory Client_Actor
  imports Mcp_Client
begin

text \<open>
  The client over any transport (\<open>Client::spawn\<close> and \<open>spawn_with_delegate\<close> of \<open>mcp-client/src/lib.rs\<close>): one task that both
  sends and receives. It is a refinement of the client with two tasks in \<open>Mcp_Client\<close>: whatever it does, that client can do,
  so its calls are correlated by the same invariant. Unlike there, the end of the input closes the outbox too, so a call that
  is sent afterwards returns; one sent between the clearing of the table and the end of the task still waits for ever.
\<close>

section \<open>The actor\<close>

text \<open>
  The loop is left when a send fails, the input ends or a receive fails; then the table is cleared, under its lock; when
  the task ends, its end of the outbox goes.
\<close>

datatype actor_phase = Actor_Running | Actor_Broken | Actor_Cleared | Actor_Ended

record actor_run =
  ac_run :: client_run
  ac_phase :: actor_phase
  ac_sent :: nat

definition actor_start :: actor_run where
  "actor_start = \<lparr> ac_run = client_start, ac_phase = Actor_Running, ac_sent = 0 \<rparr>"

text \<open>What the tasks beside the actor do: calls, notifications and answers to the server.\<close>

inductive task_step :: "delegate_serde \<Rightarrow> (elicitation_params \<Rightarrow> elicitation_result) \<Rightarrow> client_run \<Rightarrow> client_run \<Rightarrow> bool"
  for ds on_elicit where
  tk_call: "call_enter meth params (cr_client s) = (t, c) \<Longrightarrow>
     task_step ds on_elicit s \<lparr> cr_client = c, cr_tasks = cr_tasks s @ [t] \<rparr>"
| tk_resume: "i < length (cr_tasks s) \<Longrightarrow> call_resume (cr_tasks s ! i) (cr_client s) = Some (t, c) \<Longrightarrow>
     task_step ds on_elicit s \<lparr> cr_client = c, cr_tasks = (cr_tasks s)[i := t] \<rparr>"
| tk_answer: "cl_spawned (cr_client s) = xs @ req # ys \<Longrightarrow>
     outbox_send (Msg_Response (handle_server_request ds on_elicit req)) (cr_client s) = c \<Longrightarrow>
     task_step ds on_elicit s (s\<lparr>cr_client := (case c of Some c' \<Rightarrow> c' | None \<Rightarrow> cr_client s)\<lparr>cl_spawned := xs @ ys\<rparr>\<rparr>)"
| tk_notify: "notify meth params (cr_client s) = (r, c) \<Longrightarrow> task_step ds on_elicit s (s\<lparr>cr_client := c\<rparr>)"

inductive actor_step :: "delegate_serde \<Rightarrow> (elicitation_params \<Rightarrow> elicitation_result) \<Rightarrow> actor_run \<Rightarrow> actor_run \<Rightarrow> bool"
  for ds on_elicit where
  at_task: "task_step ds on_elicit (ac_run a) s \<Longrightarrow> actor_step ds on_elicit a (a\<lparr>ac_run := s\<rparr>)"
| at_send: "ac_phase a = Actor_Running \<Longrightarrow> ac_sent a < length (cl_outbox (cr_client (ac_run a))) \<Longrightarrow>
     actor_step ds on_elicit a (a\<lparr>ac_sent := ac_sent a + 1\<rparr>)"
| at_receive: "ac_phase a = Actor_Running \<Longrightarrow>
     actor_step ds on_elicit a (a\<lparr>ac_run := (ac_run a)\<lparr>cr_client := client_receive m (cr_client (ac_run a))\<rparr>\<rparr>)"
| at_break: "ac_phase a = Actor_Running \<Longrightarrow> actor_step ds on_elicit a (a\<lparr>ac_phase := Actor_Broken\<rparr>)"
| at_clear: "ac_phase a = Actor_Broken \<Longrightarrow>
     actor_step ds on_elicit a (a\<lparr>ac_phase := Actor_Cleared, ac_run := (ac_run a)\<lparr>cr_client := client_eof (cr_client (ac_run a))\<rparr>\<rparr>)"
| at_drop: "ac_phase a = Actor_Cleared \<Longrightarrow>
     actor_step ds on_elicit a (a\<lparr>ac_phase := Actor_Ended,
       ac_run := (ac_run a)\<lparr>cr_client := (cr_client (ac_run a))\<lparr>cl_outbox_open := False\<rparr>\<rparr>\<rparr>)"

section \<open>Refinement\<close>

declare outbox_send_keeps [simp del]

lemma task_step_client: "task_step ds on_elicit s s' \<Longrightarrow> client_step ds on_elicit s s'"
proof (induction rule: task_step.induct)
  case (tk_call meth params s t c)
  then show ?case by (rule cl_call)
next
  case (tk_resume i s t c)
  then show ?case by (rule cl_resume)
next
  case (tk_answer s xs req ys c)
  then show ?case by (rule cl_answer)
next
  case (tk_notify meth params s r c)
  then show ?case by (rule cl_notify)
qed

definition phase_ok :: "actor_run \<Rightarrow> bool" where
  "phase_ok a \<longleftrightarrow> (cl_reader_done (cr_client (ac_run a)) \<longleftrightarrow> ac_phase a \<in> {Actor_Cleared, Actor_Ended}) \<and>
     (cl_outbox_open (cr_client (ac_run a)) \<longleftrightarrow> ac_phase a \<noteq> Actor_Ended)"

lemma call_resume_flags:
  "call_resume t c = Some (t', c') \<Longrightarrow> cl_reader_done c' = cl_reader_done c \<and> cl_outbox_open c' = cl_outbox_open c"
  by (cases t) (auto simp: outbox_send_def split: if_splits slot.splits option.splits)

lemma task_step_flags:
  "task_step ds on_elicit s s' \<Longrightarrow>
   cl_reader_done (cr_client s') = cl_reader_done (cr_client s) \<and> cl_outbox_open (cr_client s') = cl_outbox_open (cr_client s)"
proof (induction rule: task_step.induct)
  case (tk_resume i s t c)
  then show ?case by (simp add: call_resume_flags)
next
  case (tk_call meth params s t c)
  then show ?case by (cases "wt_alloc (cl_table (cr_client s))") (auto simp: call_enter_def)
next
  case (tk_answer s xs req ys c)
  then show ?case by (cases c) (auto simp: outbox_send_def split: if_splits)
next
  case (tk_notify meth params s r c)
  then show ?case by (auto simp: notify_def outbox_send_def split: option.splits if_splits)
qed

lemma phase_ok_step: "actor_step ds on_elicit a a' \<Longrightarrow> phase_ok a \<Longrightarrow> phase_ok a'"
proof (induction rule: actor_step.induct)
  case (at_task a s)
  then show ?case using task_step_flags [OF at_task.hyps] by (simp add: phase_ok_def)
next
  case (at_receive a m)
  then show ?case by (cases m) (auto simp: phase_ok_def client_receive_def)
qed (auto simp: phase_ok_def client_eof_def)

lemma actor_refines: "actor_step ds on_elicit a a' \<Longrightarrow> phase_ok a \<Longrightarrow> (client_step ds on_elicit)\<^sup>=\<^sup>= (ac_run a) (ac_run a')"
proof (induction rule: actor_step.induct)
  case (at_task a s)
  then show ?case by (simp add: task_step_client)
next
  case (at_receive a m)
  then have "\<not> cl_reader_done (cr_client (ac_run a))" by (simp add: phase_ok_def)
  from cl_receive [OF this] show ?case by simp
next
  case (at_clear a)
  then have "\<not> cl_reader_done (cr_client (ac_run a))" by (simp add: phase_ok_def)
  from cl_eof [OF this] show ?case by simp
next
  case (at_drop a)
  show ?case by (simp add: cl_writer_fails)
qed simp_all

lemma actor_reach:
  "(actor_step ds on_elicit)\<^sup>*\<^sup>* actor_start a \<Longrightarrow> phase_ok a \<and> (client_step ds on_elicit)\<^sup>*\<^sup>* client_start (ac_run a)"
proof (induction rule: rtranclp_induct)
  case base
  show ?case by (simp add: phase_ok_def actor_start_def client_start_def client_new_def)
next
  case (step a a')
  then show ?case
    using phase_ok_step [OF step.hyps(2)] actor_refines [OF step.hyps(2)] by (auto intro: rtranclp.rtrancl_into_rtrancl)
qed

section \<open>The end\<close>

text \<open>The calls of the actor keep the invariant of the client with two tasks.\<close>

lemma actor_calls_ok:
  assumes "(actor_step ds on_elicit)\<^sup>*\<^sup>* actor_start a" "length (cr_tasks (ac_run a)) \<le> 2 ^ 64"
  shows "client_ok (ac_run a)"
  using reachable_calls(1) [OF conjunct2 [OF actor_reach [OF assms(1)]] assms(2)] .

text \<open>After the end a call is told when it sends, and an answer to the server is dropped.\<close>

lemma actor_late_call:
  assumes "(actor_step ds on_elicit)\<^sup>*\<^sup>* actor_start a" "ac_phase a = Actor_Ended"
  shows "call_resume (Call_Registered i ch meth params) (cr_client (ac_run a)) =
      Some (Call_Done (Inl TransportClosed), cr_client (ac_run a))"
  using actor_reach [OF assms(1)] assms(2) by (simp add: phase_ok_def outbox_send_def)

text \<open>Clearing the table releases the calls that wait, whatever phase they are seen in later.\<close>

lemma actor_clear_releases:
  assumes "wt_slots (cl_table c) ! ch = Slot_Open" "ch < length (wt_slots (cl_table c))"
  shows "call_resume (Call_Waiting i ch) (client_eof c) = Some (Call_Done (Inl TransportClosed), client_eof c)"
  using assms by (simp add: client_eof_def wt_clear_def)

text \<open>
  The window: a call that registers and sends after the table is cleared, while the task still holds its end of the outbox,
  waits for a response nobody can deliver.
\<close>

lemma actor_window:
  "\<exists>a. (actor_step ds on_elicit)\<^sup>*\<^sup>* actor_start a \<and> ac_phase a = Actor_Ended \<and> cr_tasks (ac_run a) = [Call_Waiting 1 0] \<and>
     call_resume (Call_Waiting 1 0) (cr_client (ac_run a)) = None"
proof -
  let ?step = "actor_step ds on_elicit"
  define c0 where "c0 = client_new\<lparr>cl_reader_done := True\<rparr>"
  define c1 where "c1 = c0\<lparr>cl_table := snd (snd (wt_alloc (wt_new client_base)))\<rparr>"
  define c2 where "c2 = c1\<lparr>cl_table := wt_register 1 0 (cl_table c1)\<rparr>"
  define c3 where "c3 = c2\<lparr>cl_outbox := [Msg_Request (request_new (Id_Number 1) ''ping'' None)]\<rparr>"
  define at_phase where "at_phase c ts = \<lparr> ac_run = \<lparr> cr_client = c, cr_tasks = ts \<rparr>, ac_phase = Actor_Cleared, ac_sent = 0 \<rparr>" for c ts
  have task: "?step (at_phase c ts) (at_phase c' ts')"
    if "task_step ds on_elicit \<lparr> cr_client = c, cr_tasks = ts \<rparr> \<lparr> cr_client = c', cr_tasks = ts' \<rparr>" for c c' ts ts'
    using at_task [of ds on_elicit "at_phase c ts"] that by (simp add: at_phase_def)
  have "?step actor_start (actor_start\<lparr>ac_phase := Actor_Broken\<rparr>)"
    by (rule at_break) (simp add: actor_start_def)
  moreover have "?step (actor_start\<lparr>ac_phase := Actor_Broken\<rparr>) (at_phase c0 [])"
    using at_clear [of "actor_start\<lparr>ac_phase := Actor_Broken\<rparr>" ds on_elicit]
    by (simp add: at_phase_def c0_def actor_start_def client_start_def client_new_def client_eof_def wt_clear_def wt_new_def)
  moreover have "?step (at_phase c0 []) (at_phase c1 [Call_Allocated 1 0 ''ping'' None])"
    using tk_call [of "''ping''" None "\<lparr> cr_client = c0, cr_tasks = [] \<rparr>"]
    by (intro task) (simp add: c1_def c0_def client_new_def call_enter_def wt_alloc_def wt_new_def client_base_def)
  moreover have "?step (at_phase c1 [Call_Allocated 1 0 ''ping'' None]) (at_phase c2 [Call_Registered 1 0 ''ping'' None])"
    using tk_resume [of 0 "\<lparr> cr_client = c1, cr_tasks = [Call_Allocated 1 0 ''ping'' None] \<rparr>"]
    by (intro task) (simp add: c2_def)
  moreover have "?step (at_phase c2 [Call_Registered 1 0 ''ping'' None]) (at_phase c3 [Call_Waiting 1 0])"
    using tk_resume [of 0 "\<lparr> cr_client = c2, cr_tasks = [Call_Registered 1 0 ''ping'' None] \<rparr>"]
    by (intro task) (simp add: c3_def c2_def c1_def c0_def client_new_def outbox_send_def)
  moreover have "?step (at_phase c3 [Call_Waiting 1 0])
      \<lparr> ac_run = \<lparr> cr_client = c3\<lparr>cl_outbox_open := False\<rparr>, cr_tasks = [Call_Waiting 1 0] \<rparr>, ac_phase = Actor_Ended, ac_sent = 0 \<rparr>"
    using at_drop [of "at_phase c3 [Call_Waiting 1 0]" ds on_elicit] by (simp add: at_phase_def)
  ultimately have "?step\<^sup>*\<^sup>* actor_start
      \<lparr> ac_run = \<lparr> cr_client = c3\<lparr>cl_outbox_open := False\<rparr>, cr_tasks = [Call_Waiting 1 0] \<rparr>, ac_phase = Actor_Ended, ac_sent = 0 \<rparr>"
    by (meson rtranclp.rtrancl_into_rtrancl rtranclp.rtrancl_refl)
  moreover have "call_resume (Call_Waiting 1 0) (c3\<lparr>cl_outbox_open := False\<rparr>) = None"
    by (simp add: c3_def c2_def c1_def c0_def client_new_def wt_alloc_def wt_new_def wt_register_def wt_drop_def client_base_def)
  ultimately show ?thesis
    by (intro exI [of _ "\<lparr> ac_run = \<lparr> cr_client = c3\<lparr>cl_outbox_open := False\<rparr>, cr_tasks = [Call_Waiting 1 0] \<rparr>,
          ac_phase = Actor_Ended, ac_sent = 0 \<rparr>"]) simp
qed

end
