(* ===== verification/Transport.thy ===== *)
theory Transport
  imports Mcp_Core
begin

text \<open>
  The transports (\<open>mcp-transport/src\<close>). HTTP: the checks and handlers of \<open>http.rs\<close>; a request's
  headers are the function that gives \<open>headers.get(name)\<close> as text, and the dispatcher is an argument.
  Stdio: the framing of \<open>stdio.rs\<close>, one message per line; the encoder and decoder of messages are
  arguments, and the input is the sequence of lines \<open>read_line\<close> returns.
\<close>

section \<open>HTTP\<close>

record http_server_config =
  hc_bind :: string
  hc_bearer_token :: "string option"
  hc_metrics_renderer :: "(unit \<Rightarrow> string) option"
  hc_allowed_origins :: "string list"

definition http_config_default :: http_server_config where
  "http_config_default = \<lparr> hc_bind = ''127.0.0.1:3030'', hc_bearer_token = None, hc_metrics_renderer = None,
     hc_allowed_origins = [] \<rparr>"

type_synonym headers = "string \<Rightarrow> string option"

definition check_auth :: "string option \<Rightarrow> headers \<Rightarrow> bool" where
  "check_auth expected headers =
     (case expected of
        None \<Rightarrow> True
      | Some token \<Rightarrow> (case headers ''authorization'' of Some s \<Rightarrow> s = ''Bearer '' @ token | None \<Rightarrow> False))"

definition check_origin :: "string list \<Rightarrow> headers \<Rightarrow> bool" where
  "check_origin allowed headers =
     (if allowed = [] then True
      else case headers ''origin'' of None \<Rightarrow> False | Some orig \<Rightarrow> list_ex (\<lambda>a. a = orig) allowed)"

text \<open>The state behind the routes: the configuration, the number of event subscribers, and what the
  dispatcher works on.\<close>

record 's app_state =
  as_bearer_token :: "string option"
  as_allowed_origins :: "string list"
  as_subscribers :: nat
  as_world :: 's

definition app_state_new :: "http_server_config \<Rightarrow> 's \<Rightarrow> 's app_state" where
  "app_state_new config w = \<lparr> as_bearer_token = hc_bearer_token config,
     as_allowed_origins = hc_allowed_origins config, as_subscribers = 0, as_world = w \<rparr>"

datatype http_reply = Http_Reply nat string | Http_Sse nat

definition post_handler ::
  "serde_message \<Rightarrow> (message \<Rightarrow> (string, string) result) \<Rightarrow> (message \<Rightarrow> 's \<Rightarrow> message option \<times> 's)
    \<Rightarrow> headers \<Rightarrow> json \<Rightarrow> 's app_state \<Rightarrow> http_reply \<times> 's app_state" where
  "post_handler de to_string dispatch headers message st =
     (if \<not> check_origin (as_allowed_origins st) headers then (Http_Reply 403 ''origin not allowed'', st)
      else if \<not> check_auth (as_bearer_token st) headers then (Http_Reply 401 ''unauthorized'', st)
      else case from_value de message of
        Inl e \<Rightarrow> (Http_Reply 400 e, st)
      | Inr parsed \<Rightarrow>
          (case dispatch parsed (as_world st) of
             (Some reply, w) \<Rightarrow>
               (Http_Reply 200 (case to_string reply of Inr body \<Rightarrow> body | Inl _ \<Rightarrow> ''{}''), st\<lparr>as_world := w\<rparr>)
           | (None, w) \<Rightarrow> (Http_Reply 202 [], st\<lparr>as_world := w\<rparr>)))"

text \<open>An accepted subscriber is pushed on the bus; its stream is identified by its position.\<close>

definition events_handler :: "headers \<Rightarrow> 's app_state \<Rightarrow> http_reply \<times> 's app_state" where
  "events_handler headers st =
     (if \<not> check_origin (as_allowed_origins st) headers then (Http_Reply 403 ''origin not allowed'', st)
      else if \<not> check_auth (as_bearer_token st) headers then (Http_Reply 401 ''unauthorized'', st)
      else (Http_Sse (as_subscribers st), st\<lparr>as_subscribers := Suc (as_subscribers st)\<rparr>))"

definition metrics_route :: "http_server_config \<Rightarrow> http_reply" where
  "metrics_route config =
     (case hc_metrics_renderer config of
        Some f \<Rightarrow> Http_Reply 200 (f ())
      | None \<Rightarrow> Http_Reply 404 ''metrics endpoint not configured'')"

text \<open>The routes of \<open>serve\<close>.\<close>

datatype http_request = Post_Mcp headers json | Get_Events headers | Get_Health | Get_Metrics

fun serve ::
  "serde_message \<Rightarrow> (message \<Rightarrow> (string, string) result) \<Rightarrow> (message \<Rightarrow> 's \<Rightarrow> message option \<times> 's)
    \<Rightarrow> http_server_config \<Rightarrow> http_request \<Rightarrow> 's app_state \<Rightarrow> http_reply \<times> 's app_state" where
  "serve de to_string dispatch config (Post_Mcp hs v) st = post_handler de to_string dispatch hs v st"
| "serve de to_string dispatch config (Get_Events hs) st = events_handler hs st"
| "serve de to_string dispatch config Get_Health st = (Http_Reply 200 ''ok'', st)"
| "serve de to_string dispatch config Get_Metrics st = (metrics_route config, st)"

section \<open>Stdio\<close>

definition newline :: char where "newline = CHR 0x0A"

text \<open>The lines \<open>read_line\<close> returns from a byte stream, each with its newline; the last may lack one.\<close>

fun read_lines :: "string \<Rightarrow> string list" where
  "read_lines [] = []"
| "read_lines (c # cs) =
     (if c = newline then [c] # read_lines cs
      else case read_lines cs of [] \<Rightarrow> [[c]] | l # ls \<Rightarrow> (c # l) # ls)"

fun stdio_recv ::
  "(string \<Rightarrow> (string, message) result) \<Rightarrow> string list \<Rightarrow> message option mcp_result \<times> string list" where
  "stdio_recv from_json [] = (Inr None, [])"
| "stdio_recv from_json (l # ls) =
     (let trimmed = trim l in
      if trimmed = [] then stdio_recv from_json ls
      else case from_json trimmed of
        Inl e \<Rightarrow> (Inl (Json_Error e), ls)
      | Inr m \<Rightarrow> (Inr (Some m), ls))"

record stdio_writer =
  sw_written :: string
  sw_closed :: bool

definition stdio_send ::
  "(message \<Rightarrow> (string, string) result) \<Rightarrow> message \<Rightarrow> stdio_writer \<Rightarrow> unit mcp_result \<times> stdio_writer" where
  "stdio_send to_vec m w =
     (if sw_closed w then (Inl TransportClosed, w)
      else case to_vec m of
        Inl e \<Rightarrow> (Inl (Json_Error e), w)
      | Inr bytes \<Rightarrow> (Inr (), w\<lparr>sw_written := sw_written w @ bytes @ [newline]\<rparr>))"

definition stdio_close :: "stdio_writer \<Rightarrow> stdio_writer" where
  "stdio_close w = w\<lparr>sw_closed := True\<rparr>"

record stdio_transport =
  st_lines :: "string list"
  st_writer :: stdio_writer

definition transport_recv ::
  "(string \<Rightarrow> (string, message) result) \<Rightarrow> stdio_transport \<Rightarrow> message option mcp_result \<times> stdio_transport" where
  "transport_recv from_json t =
     (if sw_closed (st_writer t) then (Inr None, t)
      else case stdio_recv from_json (st_lines t) of (r, ls) \<Rightarrow> (r, t\<lparr>st_lines := ls\<rparr>))"

text \<open>The unsplit transport sends and closes as its writer does; splitting it makes a new writer, which is open.\<close>

definition transport_new :: "string list \<Rightarrow> string \<Rightarrow> stdio_transport" where
  "transport_new reader written = \<lparr> st_lines = reader, st_writer = \<lparr> sw_written = written, sw_closed = False \<rparr> \<rparr>"

definition transport_send ::
  "(message \<Rightarrow> (string, string) result) \<Rightarrow> message \<Rightarrow> stdio_transport \<Rightarrow> unit mcp_result \<times> stdio_transport" where
  "transport_send to_vec m t = (case stdio_send to_vec m (st_writer t) of (r, w) \<Rightarrow> (r, t\<lparr>st_writer := w\<rparr>))"

definition transport_close :: "stdio_transport \<Rightarrow> stdio_transport" where
  "transport_close t = t\<lparr>st_writer := stdio_close (st_writer t)\<rparr>"

definition into_parts :: "stdio_transport \<Rightarrow> string list \<times> stdio_writer" where
  "into_parts t = (st_lines t, (st_writer t)\<lparr>sw_closed := False\<rparr>)"

text \<open>Reading until the end of the stream or the first error, as the reader loops do.\<close>

function recv_all :: "(string \<Rightarrow> (string, message) result) \<Rightarrow> string list \<Rightarrow> message list \<times> mcp_error option" where
  "recv_all from_json ls =
     (case stdio_recv from_json ls of
        (Inl e, _) \<Rightarrow> ([], Some e)
      | (Inr None, _) \<Rightarrow> ([], None)
      | (Inr (Some m), rest) \<Rightarrow> (case recv_all from_json rest of (ms, e) \<Rightarrow> (m # ms, e)))"
  by pat_completeness auto

lemma stdio_recv_shorter: "stdio_recv f ls = (Inr (Some m), rest) \<Longrightarrow> length rest < length ls"
  by (induction ls) (auto simp: Let_def split: if_splits sum.splits)

termination recv_all
  by (relation "measure (\<lambda>(_, ls). length ls)") (auto dest: stdio_recv_shorter [OF sym])

declare recv_all.simps [simp del]

definition send_all :: "(message \<Rightarrow> (string, string) result) \<Rightarrow> message list \<Rightarrow> stdio_writer \<Rightarrow> stdio_writer" where
  "send_all to_vec ms w = fold (\<lambda>m w. snd (stdio_send to_vec m w)) ms w"

section \<open>Facts\<close>

text \<open>
  What the framing needs of the codec on a message: it encodes to one line without surrounding white
  space that is not empty, and decodes to itself.
\<close>

definition framed :: "(message \<Rightarrow> (string, string) result) \<Rightarrow> (string \<Rightarrow> (string, message) result) \<Rightarrow> message \<Rightarrow> bool" where
  "framed to_vec from_json m \<longleftrightarrow>
     (case to_vec m of
        Inl _ \<Rightarrow> False
      | Inr b \<Rightarrow> b \<noteq> [] \<and> newline \<notin> set b \<and> trim (b @ [newline]) = b \<and> from_json b = Inr m)"

lemma read_lines_line: "newline \<notin> set b \<Longrightarrow> read_lines (b @ newline # rest) = (b @ [newline]) # read_lines rest"
  by (induction b) auto

lemma send_all_written:
  assumes "list_all (framed to_vec from_json) ms" "\<not> sw_closed w"
  shows "sw_written (send_all to_vec ms w) =
      sw_written w @ concat (map (\<lambda>m. (case to_vec m of Inr b \<Rightarrow> b @ [newline] | Inl _ \<Rightarrow> [])) ms)
    \<and> \<not> sw_closed (send_all to_vec ms w)"
  using assms
proof (induction ms arbitrary: w)
  case Nil
  then show ?case by (simp add: send_all_def)
next
  case (Cons m ms)
  obtain b where b: "to_vec m = Inr b"
    using Cons.prems(1) by (auto simp: framed_def split: sum.splits)
  have "send_all to_vec (m # ms) w = send_all to_vec ms (w\<lparr>sw_written := sw_written w @ b @ [newline]\<rparr>)"
    using b Cons.prems(2) by (simp add: send_all_def stdio_send_def)
  then show ?case
    using Cons.IH [of "w\<lparr>sw_written := sw_written w @ b @ [newline]\<rparr>"] Cons.prems b by simp
qed

lemma recv_all_framed:
  assumes "list_all (framed to_vec from_json) ms"
  shows "recv_all from_json (read_lines (concat (map (\<lambda>m. (case to_vec m of Inr b \<Rightarrow> b @ [newline] | Inl _ \<Rightarrow> [])) ms)))
    = (ms, None)"
  using assms
proof (induction ms)
  case Nil
  then show ?case by (simp add: recv_all.simps)
next
  case (Cons m ms)
  obtain b where b: "to_vec m = Inr b" "b \<noteq> []" "newline \<notin> set b" "trim (b @ [newline]) = b" "from_json b = Inr m"
    using Cons.prems by (auto simp: framed_def split: sum.splits)
  show ?case
    using Cons b by (simp add: recv_all.simps [of _ "_ # _"] read_lines_line Let_def)
qed

text \<open>A blank line between messages is skipped.\<close>

lemma recv_blank: "trim l = [] \<Longrightarrow> recv_all f (l # ls) = recv_all f ls"
  by (simp add: recv_all.simps)

text \<open>The messages of a request sequence that a configuration admits, read off the documentation of the
  configuration rather than from the handlers.\<close>

definition admitted :: "serde_message \<Rightarrow> http_server_config \<Rightarrow> http_request \<Rightarrow> message option" where
  "admitted de config rq =
     (case rq of
        Post_Mcp hs v \<Rightarrow>
          if (hc_allowed_origins config = [] \<or> hs ''origin'' \<in> Some ` set (hc_allowed_origins config)) \<and>
             (hc_bearer_token config = None \<or> hs ''authorization'' = map_option (\<lambda>t. ''Bearer '' @ t) (hc_bearer_token config))
          then (case from_value de v of Inr m \<Rightarrow> Some m | Inl _ \<Rightarrow> None)
          else None
      | _ \<Rightarrow> None)"

definition serves :: "http_server_config \<Rightarrow> 's app_state \<Rightarrow> bool" where
  "serves config st \<longleftrightarrow> as_bearer_token st = hc_bearer_token config \<and> as_allowed_origins st = hc_allowed_origins config"

lemma check_origin_iff:
  "check_origin allowed hs \<longleftrightarrow> allowed = [] \<or> hs ''origin'' \<in> Some ` set allowed"
  by (auto simp: check_origin_def list_ex_iff split: option.splits)

lemma check_auth_iff:
  "check_auth tok hs \<longleftrightarrow> tok = None \<or> hs ''authorization'' = map_option (\<lambda>t. ''Bearer '' @ t) tok"
  by (auto simp: check_auth_def split: option.splits)

lemma serve_step:
  assumes "serves config st"
  shows "serves config (snd (serve de to_string dispatch config rq st)) \<and>
    as_world (snd (serve de to_string dispatch config rq st)) =
      (case admitted de config rq of None \<Rightarrow> as_world st | Some m \<Rightarrow> snd (dispatch m (as_world st)))"
proof (cases rq)
  case (Post_Mcp hs v)
  then show ?thesis
    using assms unfolding serves_def admitted_def
    by (auto simp: post_handler_def check_origin_iff check_auth_iff split: sum.splits option.splits prod.splits)
qed (use assms in \<open>auto simp: serves_def admitted_def events_handler_def\<close>)

lemma serve_all:
  assumes "serves config st"
  shows "as_world (fold (\<lambda>rq s. snd (serve de to_string dispatch config rq s)) rqs st) =
    fold (\<lambda>m w. snd (dispatch m w)) (List.map_filter (admitted de config) rqs) (as_world st)"
  using assms
proof (induction rqs arbitrary: st)
  case (Cons rq rqs)
  then show ?case
    using serve_step [OF Cons.prems, of de to_string dispatch rq]
    by (auto simp: List.map_filter_simps split: option.splits)
qed (simp add: List.map_filter_simps)

section \<open>Properties\<close>

text \<open>
  C33. The HTTP transport is a guard in front of the dispatcher. Whatever sequence of requests arrives,
  the dispatcher has processed exactly the messages of the posts whose \<open>Origin\<close> is on a configured
  allowlist and whose \<open>Authorization\<close> is the configured bearer token, in order; no other request,
  on any route, changes what the dispatcher works on.
\<close>

theorem http_admits_only_authorised:
  "as_world (fold (\<lambda>rq s. snd (serve de to_string dispatch config rq s)) rqs (app_state_new config w)) =
     fold (\<lambda>m w. snd (dispatch m w)) (List.map_filter (admitted de config) rqs) w"
  using serve_all [of config "app_state_new config w" de to_string dispatch rqs]
  by (simp add: serves_def app_state_new_def)

text \<open>
  The line framing loses nothing: messages sent through an open writer and read back from the
  bytes written are the same messages, in the same order, with no error, provided each is encoded as
  one non-empty line without surrounding white space that decodes to it.
\<close>

lemma stdio_framing_roundtrip:
  assumes "list_all (framed to_vec from_json) ms"
  shows "recv_all from_json (read_lines (sw_written (send_all to_vec ms \<lparr> sw_written = [], sw_closed = False \<rparr>))) = (ms, None)"
  using send_all_written [OF assms, of "\<lparr> sw_written = [], sw_closed = False \<rparr>"] recv_all_framed [OF assms] by simp

text \<open>
  A closed transport reads nothing and sends nothing; closing twice is closing once. The halves of a transport that was
  not closed behave as the whole.
\<close>

lemma transport_closed:
  "transport_recv from_json (transport_close t) = (Inr None, transport_close t)"
  "transport_send to_vec m (transport_close t) = (Inl TransportClosed, transport_close t)"
  "transport_close (transport_close t) = transport_close t"
  by (simp_all add: transport_recv_def transport_send_def transport_close_def stdio_close_def stdio_send_def)

lemma transport_halves:
  assumes "into_parts t = (ls, w)" "\<not> sw_closed (st_writer t)"
  shows "transport_recv from_json t = map_prod id (\<lambda>ls'. t\<lparr>st_lines := ls'\<rparr>) (stdio_recv from_json ls)"
    "transport_send to_vec m t = map_prod id (\<lambda>w'. t\<lparr>st_writer := w'\<rparr>) (stdio_send to_vec m w)"
proof -
  have "w = st_writer t" "ls = st_lines t"
    using assms by (cases "st_writer t"; auto simp: into_parts_def)+
  then show "transport_recv from_json t = map_prod id (\<lambda>ls'. t\<lparr>st_lines := ls'\<rparr>) (stdio_recv from_json ls)"
    "transport_send to_vec m t = map_prod id (\<lambda>w'. t\<lparr>st_writer := w'\<rparr>) (stdio_send to_vec m w)"
    using assms(2) by (auto simp: transport_recv_def transport_send_def split: prod.split)
qed

end
