(* ===== verification/Spec2Isabelle.thy ===== *)
theory Spec2Isabelle
  imports Retrieval Ingest Memory Scheduler Channels Skills Crawl_Policy Read_Tools Credentials Server_Main
    Metrics Gateway Programs Sample_Client Sample_Server Backend Retry Client_Actor Transport
begin

text \<open>
  SAP-Automate in Isabelle/HOL: a shallow embedding of the Rust workspace under \<open>src/\<close>, with the theorems that
  make it correct.

  \<^bold>\<open>The program.\<close> An MCP server (\<open>apps/sap-automate-server\<close>) offers tools over SAP systems to an agent. Its requests
  arrive over stdio or HTTP (\<open>crates/mcp-transport\<close>), are dispatched by \<open>crates/mcp-server\<close> and end in tool handlers
  that use a \<open>SapClient\<close> (\<open>crates/sap-automate-rfc\<close>: offline, SOAP or OData, behind a metadata cache, a retry loop
  and a circuit breaker), an \<open>AdtClient\<close> (\<open>crates/sap-automate-adt\<close>), the knowledge store and its retrieval engines
  (\<open>crates/sap-automate-kb\<close>, \<open>-rag\<close>, \<open>-graph\<close>, filled by \<open>-ingest\<close>), memory, skills, scheduled jobs and channels.
  A tool that changes state asks the user through the client (elicitation), runs the commit-or-rollback workflow and
  is written to the audit log. \<open>crates/mcp-client\<close> is the other end of the protocol.

  \<^bold>\<open>Theories and the code they model.\<close>

  \<^item> \<open>Prelude\<close>, \<open>Json\<close>: Rust strings as lists of bytes with the methods the sources call, sorted association lists for
    maps with a canonical order, JSON values; \<open>Ranking\<close>: stable sorting and the operations of \<open>f32\<close> as a record.
  \<^item> \<open>Rfc_Error\<close>, \<open>Sap_Client\<close>, \<open>Fixtures\<close>, \<open>Bapiret2\<close>, \<open>Transaction\<close>, \<open>Metadata_Cache\<close>, \<open>Retry\<close>, \<open>Soap\<close>,
    \<open>Soap_Facts\<close>, \<open>Backend\<close>: \<open>sap-automate-rfc/src\<close>, file by file (\<open>client.rs\<close> is \<open>Sap_Client\<close> and \<open>Fixtures\<close>,
    \<open>pool.rs\<close> is in \<open>Retry\<close>). \<open>Backend\<close> states what a read-only session may send as a locale and interprets it
    on the offline and the SOAP client.
  \<^item> \<open>Http_Client\<close>: what the ADT and OData clients share, with the contract of a token source; \<open>Odata\<close>, \<open>Credentials\<close>:
    \<open>odata.rs\<close> and \<open>credentials.rs\<close> of \<open>sap-automate-rfc\<close>.
  \<^item> \<open>Adt_Types\<close>, \<open>Adt_Mock\<close>, \<open>Adt_Wire\<close>, \<open>Adt_Http\<close>: \<open>sap-automate-adt/src\<close>: data and destinations, the offline client, the
    encoders and XML readers of the HTTP client (\<open>http.rs\<close> from line 509), its requests and operations (before it). Both
    clients are interpretations of the contract of a client that activates nothing in read-only mode.
  \<^item> \<open>Mcp_Core\<close>, \<open>Mcp_Server\<close>, \<open>Waiters\<close>, \<open>Elicit\<close>, \<open>Mcp_Client\<close>, \<open>Transport\<close>: the MCP crates. \<open>Waiters\<close> is the table of
    one-shot channels that elicitation and the client share, a locale-free step relation used by both. \<open>Client_Actor\<close> is the
    client over one I/O task (\<open>spawn_with_delegate\<close>), whose steps are steps of \<open>Mcp_Client\<close> or none.
  \<^item> \<open>Audit_Log\<close>, \<open>Metrics\<close>: \<open>audit.rs\<close> and \<open>metrics.rs\<close> of \<open>sap-automate-observability\<close>; \<open>Server_Tools\<close>, \<open>Tool_Schemas\<close>, \<open>Read_Tools\<close>: the tools of the
    server (\<open>tools.rs\<close>): the tools that write and the registration, what every tool announces, and the tools that read.
    \<open>Read_Tools\<close> states what a read-only server needs of an ADT client as a locale and interprets it on both clients.
    \<open>Server_Content\<close> is \<open>resources.rs\<close>, \<open>prompts.rs\<close>, the completions and the instructions; \<open>Seed_Corpus\<close> is \<open>seed.rs\<close> and the
    server of the tests in \<open>lib.rs\<close>; \<open>Server_Main\<close> is the start of the server in \<open>main.rs\<close>.
  \<^item> \<open>Kb_Schema\<close>, \<open>Doc_Tree\<close>, \<open>Kb_Store\<close>, \<open>Qdrant\<close>: \<open>sap-automate-kb/src\<close>; \<open>Retrieval\<close>: \<open>sap-automate-rag/src\<close> (\<open>lib.rs\<close>,
    \<open>rerank.rs\<close>); \<open>Graph_Store\<close>, \<open>Graph_Search\<close>, \<open>Communities\<close>: \<open>sap-automate-graph/src\<close> and
    \<open>sap-automate-rag/src/graph_layer.rs\<close>.
  \<^item> \<open>Ingest\<close>, \<open>Crawl_Policy\<close>, \<open>Crawler\<close>, \<open>Embedders\<close>: \<open>sap-automate-ingest/src\<close>, where \<open>Embedders\<close> states what a store needs
    of an embedding client as a locale and interprets it on both clients; \<open>Memory\<close>, \<open>Scheduler\<close>, \<open>Channels\<close>, \<open>Skills\<close>: the crates of
    the same names; \<open>Gateway\<close>: \<open>apps/sap-automate-gw\<close>, which joins the last four to the server.
  \<^item> The other programs under \<open>apps\<close>: \<open>Tui\<close> is the operator console's state, feed and loop, \<open>Programs\<close> the ingestion
    and benchmark programs, \<open>Sample_Client\<close> and \<open>Sample_Server\<close> the two samples.
  \<^item> This theory: a tool call through both ends of the protocol.

  \<^bold>\<open>Conventions.\<close> A struct is a record, an enum a datatype, \<open>Result\<close> a sum with the error on the left, a panic \<open>None\<close>.
  State behind locks is passed explicitly; where tasks interleave, the model is an \<open>inductive\<close> step relation whose
  steps are the code's critical sections. Integers are \<open>nat\<close> or \<open>int\<close> with the bounds written out where the code can
  reach them. External code is a parameter: serde, the XML and TOML readers, HTTP clients, clocks, the file system,
  hash functions, the Unicode tables behind case conversion and \<open>is_alphanumeric\<close>, the iteration order of hash maps
  (any permutation), the operations of \<open>f32\<close>. What is assumed of a parameter is a named hypothesis of the theorems that
  need it.

  \<^bold>\<open>What is shown.\<close>

  \<^item> Writes: a commit follows only a confirmed success, every write workflow follows the commit-or-rollback protocol,
    is audited and needs the user's consent, with the one form that passes empty named (\<open>Transaction\<close>, \<open>Bapiret2\<close>,
    \<open>Server_Tools\<close>, \<open>Audit_Log\<close>).
  \<^item> Read-only mode: what a session sends and which tools it sees (\<open>Backend\<close>, \<open>Read_Tools\<close>, \<open>Mcp_Server\<close>).
  \<^item> The metadata cache: what it serves in front of a client whose answers may change (\<open>Metadata_Cache\<close>).
  \<^item> Authentication: what ADT and OData calls send before and with a request, that no token is used past its
    expiry, and when the clients panic (\<open>Adt_Http\<close>, \<open>Odata\<close>); activation carries the CSRF token fetched for it.
  \<^item> Injection: an envelope carries no element its parameters did not name (\<open>Soap_Facts\<close>), an OData query stays inside
    its literal, and so does an id that has no character that ends the path of a URL (\<open>Odata\<close>); the XML answers of ADT and its encoders round trip (\<open>Adt_Wire\<close>).
  \<^item> Concurrency: every elicitation and every client call is answered by its own response, or released, under any
    interleaving; the breaker's invariant over interleaved callers (\<open>Elicit\<close>, \<open>Mcp_Client\<close>, \<open>Retry\<close>).
  \<^item> Knowledge: document trees are built without a dangling pointer and lose no text; chunking covers the body;
    ingestion stores everything; searches, fusion and graph walks return what their specifications say (\<open>Doc_Tree\<close>,
    \<open>Ingest\<close>, \<open>Kb_Store\<close>, \<open>Retrieval\<close>, \<open>Graph_Search\<close>, \<open>Communities\<close>).
  \<^item> Start-up: which mode, backends and transport a server starts with, that it is read-only and offline by default, that
    its corpus is stored and every resource of the offline server can be read (\<open>Server_Main\<close>, \<open>Seed_Corpus\<close>, \<open>Server_Content\<close>).
  \<^item> Conversations and counters: what a gateway session leaves in memory and where its answers go, that a metrics
    registry holds what was recorded and when it is poisoned (\<open>Gateway\<close>, \<open>Metrics\<close>).
  \<^item> Programs: the console shows what it was fed and it stays within its bounds whatever keys
    are pressed; what the automatic answers of the sample client consent to; what a passed benchmark gate says
    (\<open>Tui\<close>, \<open>Sample_Client\<close>, \<open>Programs\<close>).
  \<^item> Protocol: requests are answered once, framing round trips, HTTP admits only authorised requests, and when a server
    over stdio returns (\<open>Mcp_Server\<close>, \<open>Transport\<close>).

  \<^bold>\<open>Bounds and fuel.\<close> The XML reader's loop has fuel one above the number of events, which is enough because each
  iteration consumes one, and a nesting bound of 256 that is the code's. Ids are unique below \<open>2 ^ 64\<close> calls, where the
  counter of the code wraps. The chunker needs a target above 200 bytes to make progress; with a smaller one the model
  panics where the code does. Community detection runs at most 8 passes, PageRank at most \<open>max_iterations\<close>; hop counts
  are below the \<open>u32\<close> that marks an unreached node. Instants are nanoseconds, and an instant beyond \<open>2 ^ 63\<close> seconds is
  the panic of the code. Retries and the breaker count in unbounded numbers below the
  configured limits.

  \<^bold>\<open>Not modelled.\<close> The set-up of tracing, the parsing of command lines, the drawing of the console and the spawning of processes
  are calls of libraries; \<open>parse_config\<close> of the scheduler is the TOML library. The ingestion program is modelled with its
  store in memory, not with Qdrant, and the times the benchmark measures are a parameter. Concurrent calls of one ADT or OData client are not interleaved: two of them may fetch a token each.
  Elapsed times of responses are left out.
\<close>

section \<open>A tool call from client to handler and back\<close>

text \<open>What the client's \<open>call\<close> returns when the server answers its request.\<close>

definition round_trip ::
  "serde \<Rightarrow> bool \<Rightarrow> (typed_params \<Rightarrow> (string, json) result) \<Rightarrow> (json \<Rightarrow> (string, 'r) result) \<Rightarrow> int \<Rightarrow> client_op
    \<Rightarrow> 's server_context \<Rightarrow> 's \<Rightarrow> 'r mcp_result \<times> 's" where
  "round_trip sd nolog ser de i op cx s =
     (case op_request ser op of
        Inl e \<Rightarrow> (Inl e, s)
      | Inr (m, p) \<Rightarrow>
          (case dispatch sd nolog (request_new (Id_Number i) m p) cx s of
             (resp, cx', s') \<Rightarrow> (call_decode de (call_finish resp), s')))"

text \<open>The codecs of the two ends agree on a tool call and on its result.\<close>

definition codecs_agree ::
  "serde \<Rightarrow> (typed_params \<Rightarrow> (string, json) result) \<Rightarrow> (json \<Rightarrow> (string, call_tool_result) result) \<Rightarrow> call_tool_params
    \<Rightarrow> call_tool_result \<Rightarrow> bool" where
  "codecs_agree sd ser de p r \<longleftrightarrow>
     (case ser (Par_Call p) of Inl _ \<Rightarrow> False | Inr v \<Rightarrow> de_call_tool sd v = Inr p) \<and>
     (case to_value sd (Res_Call r) of Inl _ \<Rightarrow> False | Inr v \<Rightarrow> de v = Inr r)"

text \<open>
  C32. A tool call reaches its handler and its result comes back. When the codecs of client and server
  agree, calling a registered tool runs its handler exactly once on the given arguments (an empty
  object if there are none) and the client's call returns what the handler returned; an error of the
  handler arrives as a result marked as an error that carries the text of the error.
\<close>

theorem tool_call_round_trip:
  assumes "map_of (cx_tools cx) name = Some d"
    and "td_handler d (case args of Some a \<Rightarrow> a | None \<Rightarrow> JObject []) s = (out, s')"
    and "r = (case out of Inr x \<Rightarrow> x | Inl e \<Rightarrow> \<lparr> ctr_content = [Content_Text (mcp_error_display e)], ctr_is_error = True \<rparr>)"
    and "codecs_agree sd ser de \<lparr> ctp_name = name, ctp_arguments = args \<rparr> r"
  shows "round_trip sd nolog ser de i (Op_Call_Tool name args) cx s = (Inr r, s')"
proof -
  obtain v where v: "ser (Par_Call \<lparr> ctp_name = name, ctp_arguments = args \<rparr>) = Inr v"
    "de_call_tool sd v = Inr \<lparr> ctp_name = name, ctp_arguments = args \<rparr>"
    using assms(4) by (auto simp: codecs_agree_def split: sum.splits)
  obtain j where j: "to_value sd (Res_Call r) = Inr j" "de j = Inr r"
    using assms(4) by (auto simp: codecs_agree_def split: sum.splits)
  have "handle_method sd nolog (request_new (Id_Number i) ''tools/call'' (Some v)) cx s = (Inr j, cx, s')"
    using assms(1,2) v(2) j(1) unfolding assms(3)
    by (simp add: handle_method_def handle_tools_call_def request_new_def parse_params_def ok_value_def)
  then show ?thesis
    using v(1) j(2)
    by (simp add: round_trip_def with_params_def dispatch_def call_finish_def call_decode_def response_success_def)
qed

definition pong_tool :: "nat tool_descriptor" where
  "pong_tool = tool_descriptor_new ''pong'' None schema_object (\<lambda>args n. (Inr (call_result_text ''done''), Suc n))"

theorem tool_call_round_trip_witness:
  "round_trip (demo_serde\<lparr>de_call_tool := (\<lambda>_. Inr \<lparr> ctp_name = ''pong'', ctp_arguments = None \<rparr>), to_value := (\<lambda>_. Inr JNull)\<rparr>)
     True (\<lambda>_. Inr JNull) (\<lambda>_. Inr (call_result_text ''done'')) 7 (Op_Call_Tool ''pong'' None)
     (build (builder_tool pong_tool (builder_new ''s'' ''1''))) 0 = (Inr (call_result_text ''done''), 1)"
proof (rule tool_call_round_trip)
  show "map_of (cx_tools (build (builder_tool pong_tool (builder_new ''s'' ''1'')))) ''pong'' = Some pong_tool"
    by (simp add: build_def builder_tool_def builder_new_def pong_tool_def tool_descriptor_new_def is_allowed_by_def Let_def)
  show "td_handler pong_tool (case None of Some a \<Rightarrow> a | None \<Rightarrow> JObject []) 0 = (Inr (call_result_text ''done''), 1)"
    by (simp add: pong_tool_def tool_descriptor_new_def)
qed (simp_all add: codecs_agree_def)

end
